(* ===== verification/Prelude.thy ===== *)
theory Prelude
  imports Complex_Main "HOL-Library.Word" "HOL-Library.Multiset" "HOL-Library.Sublist"
    "HOL-Library.Char_ord"
begin

text \<open>
  Shared vocabulary of the development: the machine-integer types, the result type of a C++
  operation that may throw, the generic lemmas on words, lists and results that several
  components use, and the collections the component proofs rewrite with.
\<close>

unbundle bit_operations_syntax

section \<open>Collections\<close>

named_theorems valid_simps \<open>definitions of the well-formedness predicates\<close>
named_theorems step_simps \<open>definitions of the operations of a component\<close>

section \<open>Machine integers\<close>

type_synonym u64 = "64 word"
type_synonym u32 = "32 word"

text \<open>
  A finite binary64 value that the modelled code only compares, negates, takes the magnitude of
  or copies. Every finite binary64 value is a rational number and those operations are exact, so
  a rational carries them without loss. Rounded arithmetic is not modelled over this type.
\<close>

type_synonym binary64 = rat

text \<open>\<open>kMaximumProtocolSafeInteger\<close> (simulation_limits.hpp): the largest integer a JSON number
  carries exactly, \<open>2 ^ 53 - 1\<close>.\<close>

definition kMaximumProtocolSafeInteger :: u64 where
  "kMaximumProtocolSafeInteger = 9007199254740991"

lemma unat_safe_integer [simp]: "unat kMaximumProtocolSafeInteger = 9007199254740991"
  by (simp add: kMaximumProtocolSafeInteger_def)

lemma u64_bound: "unat (x :: u64) < 18446744073709551616"
  using unsigned_less [of x] by simp

lemma u64_add_unat:
  fixes a b :: u64
  assumes "unat a + unat b < 18446744073709551616"
  shows "unat (a + b) = unat a + unat b"
  using assms by (simp add: unat_word_ariths)

lemma u64_sub_unat:
  fixes a b :: u64
  assumes "b \<le> a"
  shows "unat (a - b) = unat a - unat b"
  using assms by (simp add: unat_sub)

lemma u64_eq_iff: "(a :: u64) = b \<longleftrightarrow> unat a = unat b"
  by (rule word_unat_eq_iff)

lemmas u64_order = word_le_nat_alt word_less_nat_alt u64_eq_iff

lemma u64_of_nat_unat:
  assumes "n < 18446744073709551616"
  shows "unat (word_of_nat n :: u64) = n"
  using assms by (simp add: unat_of_nat take_bit_nat_eq_self)

section \<open>Results of operations that may throw\<close>

text \<open>\<open>Inl\<close> is the thrown error, \<open>Inr\<close> the returned value. \<open>try_then\<close> sequences two
  operations: an error of the first leaves the second unexecuted.\<close>

fun try_then :: "'e + 'a \<Rightarrow> ('a \<Rightarrow> 'e + 'b) \<Rightarrow> 'e + 'b" where
  "try_then (Inl e) f = Inl e"
| "try_then (Inr a) f = f a"

lemma try_then_Inr_iff:
  "try_then r f = Inr b \<longleftrightarrow> (\<exists>a. r = Inr a \<and> f a = Inr b)"
  by (cases r) auto

lemma try_then_Inl_iff:
  "try_then r f = Inl e \<longleftrightarrow> r = Inl e \<or> (\<exists>a. r = Inr a \<and> f a = Inl e)"
  by (cases r) auto

text \<open>A loop body that may throw, run over a list in order: the first error ends the loop.\<close>

fun try_fold :: "('a \<Rightarrow> 's \<Rightarrow> 'e + 's) \<Rightarrow> 'a list \<Rightarrow> 's \<Rightarrow> 'e + 's" where
  "try_fold f [] s = Inr s"
| "try_fold f (x # xs) s = try_then (f x s) (try_fold f xs)"

lemma try_fold_append:
  "try_fold f (xs @ ys) s = try_then (try_fold f xs s) (try_fold f ys)"
proof (induction xs arbitrary: s)
  case Nil
  show ?case by simp
next
  case (Cons x xs)
  then show ?case by (cases "f x s") simp_all
qed

lemma try_fold_invariant:
  assumes "try_fold f xs s = Inr t" and "P s"
    and "\<And>x s s'. x \<in> set xs \<Longrightarrow> P s \<Longrightarrow> f x s = Inr s' \<Longrightarrow> P s'"
  shows "P t"
  using assms
proof (induction xs arbitrary: s)
  case Nil
  then show ?case by simp
next
  case (Cons x xs)
  then obtain s' where "f x s = Inr s'" and "try_fold f xs s' = Inr t"
    by (auto simp: try_then_Inr_iff)
  with Cons show ?case by (metis list.set_intros)
qed

section \<open>Ordered lists\<close>

text \<open>Strictly ascending: the order every store, roster and canonical batch is kept in.\<close>

abbreviation ascending :: "'a :: linorder list \<Rightarrow> bool" where
  "ascending xs \<equiv> sorted_wrt (<) xs"

lemma ascending_distinct: "ascending xs \<Longrightarrow> distinct xs"
  using strict_sorted_iff by blast

lemma ascending_eqI:
  fixes xs ys :: "'a :: linorder list"
  assumes "ascending xs" and "ascending ys" and "set xs = set ys"
  shows "xs = ys"
  using assms by (metis strict_sorted_equal)

lemma ascending_map_filter:
  "ascending (map f xs) \<Longrightarrow> ascending (map f (filter P xs))"
  by (induction xs) auto

lemma sorted_distinct_ascending:
  "sorted xs \<Longrightarrow> distinct xs \<Longrightarrow> ascending xs"
  using strict_sorted_iff by blast

lemma ascending_le_last:
  fixes xs :: "'a :: linorder list"
  assumes "ascending xs" and "x \<in> set xs"
  shows "x \<le> last xs"
  using assms
proof (induction xs)
  case Nil
  then show ?case by simp
next
  case (Cons y ys)
  then show ?case by (cases "ys = []") (auto dest: order.strict_implies_order last_in_set)
qed

end
