(* ===== verification/Validation_Error.thy ===== *)
theory Validation_Error
  imports Prelude
begin

text \<open>
  The exception vocabulary of the simulation (src/src/simulation/simulation_validation_error.hpp):
  every code of the enumeration, as its underlying value, its stable name, and the error value a
  failing operation returns, which keeps the code and the context path. The human-readable detail
  string is left out.
\<close>

datatype validation_code = ValidationCode (code_value: nat)

definition kPhysicalScalarNotFinite :: validation_code where "kPhysicalScalarNotFinite = ValidationCode 0"
definition kPhysicalScalarOutOfRange :: validation_code where "kPhysicalScalarOutOfRange = ValidationCode 1"
definition kVectorDivisionByZero :: validation_code where "kVectorDivisionByZero = ValidationCode 2"
definition kPhysicsBodyMassOutOfRange :: validation_code where "kPhysicsBodyMassOutOfRange = ValidationCode 3"
definition kPhysicsBodyRestitutionOutOfRange :: validation_code where "kPhysicsBodyRestitutionOutOfRange = ValidationCode 4"
definition kPhysicsBodyDragScaleOutOfRange :: validation_code where "kPhysicsBodyDragScaleOutOfRange = ValidationCode 5"
definition kPhysicsBodyGroundAttachmentOutOfRange :: validation_code where "kPhysicsBodyGroundAttachmentOutOfRange = ValidationCode 6"
definition kEntityIdOutOfRange :: validation_code where "kEntityIdOutOfRange = ValidationCode 7"
definition kControllerIdOutOfRange :: validation_code where "kControllerIdOutOfRange = ValidationCode 8"
definition kTeamIdOutOfRange :: validation_code where "kTeamIdOutOfRange = ValidationCode 9"
definition kComponentStoreDuplicateEntityId :: validation_code where "kComponentStoreDuplicateEntityId = ValidationCode 10"
definition kComponentStoreLimitExceeded :: validation_code where "kComponentStoreLimitExceeded = ValidationCode 11"
definition kCommandKindMaskUnknownBit :: validation_code where "kCommandKindMaskUnknownBit = ValidationCode 12"
definition kEntityIdReservationLimitExceeded :: validation_code where "kEntityIdReservationLimitExceeded = ValidationCode 13"
definition kEntityIdReservationOutOfRange :: validation_code where "kEntityIdReservationOutOfRange = ValidationCode 14"
definition kEntityIdReservationExhausted :: validation_code where "kEntityIdReservationExhausted = ValidationCode 15"
definition kInputBatchCommandLimitExceeded :: validation_code where "kInputBatchCommandLimitExceeded = ValidationCode 16"
definition kInputBatchCommandKindNotAccepted :: validation_code where "kInputBatchCommandKindNotAccepted = ValidationCode 17"
definition kInputBatchThrustDirectionOutOfRange :: validation_code where "kInputBatchThrustDirectionOutOfRange = ValidationCode 18"
definition kInputBatchSpawnAndDespawnConflict :: validation_code where "kInputBatchSpawnAndDespawnConflict = ValidationCode 19"
definition kInputBatchSeatIndexOutOfRange :: validation_code where "kInputBatchSeatIndexOutOfRange = ValidationCode 20"
definition kInputBatchSeatCountOutOfRange :: validation_code where "kInputBatchSeatCountOutOfRange = ValidationCode 21"
definition kGameWorldEntityLimitExceeded :: validation_code where "kGameWorldEntityLimitExceeded = ValidationCode 22"
definition kGameWorldDuplicateEntityId :: validation_code where "kGameWorldDuplicateEntityId = ValidationCode 23"
definition kGameWorldEventLimitExceeded :: validation_code where "kGameWorldEventLimitExceeded = ValidationCode 24"
definition kDeterministicRandomBoundEmpty :: validation_code where "kDeterministicRandomBoundEmpty = ValidationCode 25"
definition kSeatKindNameInvalid :: validation_code where "kSeatKindNameInvalid = ValidationCode 26"
definition kSeatRosterSeatCountOutOfRange :: validation_code where "kSeatRosterSeatCountOutOfRange = ValidationCode 27"
definition kSeatRosterSeatIndexOutOfRange :: validation_code where "kSeatRosterSeatIndexOutOfRange = ValidationCode 28"
definition kSpawnPolicyIndexOutOfRange :: validation_code where "kSpawnPolicyIndexOutOfRange = ValidationCode 29"
definition kSpawnPolicyPointOccupied :: validation_code where "kSpawnPolicyPointOccupied = ValidationCode 30"
definition kMapSpawnPointNotSeatable :: validation_code where "kMapSpawnPointNotSeatable = ValidationCode 31"
definition kGameSimulationSetupConflict :: validation_code where "kGameSimulationSetupConflict = ValidationCode 32"
definition kGameSimulationModeRefusesServerIssuedKind :: validation_code where "kGameSimulationModeRefusesServerIssuedKind = ValidationCode 33"
definition kSystemPipelineSystemMissing :: validation_code where "kSystemPipelineSystemMissing = ValidationCode 34"
definition kSystemPipelineSystemNameEmpty :: validation_code where "kSystemPipelineSystemNameEmpty = ValidationCode 35"
definition kSystemPipelineDuplicateSystemName :: validation_code where "kSystemPipelineDuplicateSystemName = ValidationCode 36"
definition kSystemPipelineStageUnknown :: validation_code where "kSystemPipelineStageUnknown = ValidationCode 37"
definition kContactResponseBodiesAbsent :: validation_code where "kContactResponseBodiesAbsent = ValidationCode 38"
definition kContactRuleNameInvalid :: validation_code where "kContactRuleNameInvalid = ValidationCode 39"
definition kContactRulePredicateMissing :: validation_code where "kContactRulePredicateMissing = ValidationCode 40"
definition kContactRuleResponseMissing :: validation_code where "kContactRuleResponseMissing = ValidationCode 41"
definition kContactRuleTableDuplicateRuleName :: validation_code where "kContactRuleTableDuplicateRuleName = ValidationCode 42"
definition kArenaBoundsScalarNotFinite :: validation_code where "kArenaBoundsScalarNotFinite = ValidationCode 43"
definition kArenaBoundsScalarOutOfRange :: validation_code where "kArenaBoundsScalarOutOfRange = ValidationCode 44"
definition kTerrainDefinitionInvalid :: validation_code where "kTerrainDefinitionInvalid = ValidationCode 45"
definition kTerrainShapeLimitExceeded :: validation_code where "kTerrainShapeLimitExceeded = ValidationCode 46"
definition kTerrainGeometryOutOfBounds :: validation_code where "kTerrainGeometryOutOfBounds = ValidationCode 47"
definition kTerrainGeometryPrecisionLost :: validation_code where "kTerrainGeometryPrecisionLost = ValidationCode 48"
definition kTerrainBoundaryLimitExceeded :: validation_code where "kTerrainBoundaryLimitExceeded = ValidationCode 49"
definition kTerrainQueryRadiusInvalid :: validation_code where "kTerrainQueryRadiusInvalid = ValidationCode 50"
definition kContinuousMotionInvalidInput :: validation_code where "kContinuousMotionInvalidInput = ValidationCode 51"
definition kContinuousMotionBudgetExceeded :: validation_code where "kContinuousMotionBudgetExceeded = ValidationCode 52"
definition kContinuousMotionInvalidResponse :: validation_code where "kContinuousMotionInvalidResponse = ValidationCode 53"
definition kContinuousMotionNoProgress :: validation_code where "kContinuousMotionNoProgress = ValidationCode 54"
definition kContinuousMotionPrecisionLost :: validation_code where "kContinuousMotionPrecisionLost = ValidationCode 55"
definition kGuardedPairFactsInvalid :: validation_code where "kGuardedPairFactsInvalid = ValidationCode 56"
definition kGuardedPairSeparationFailed :: validation_code where "kGuardedPairSeparationFailed = ValidationCode 57"
definition kMapNameInvalid :: validation_code where "kMapNameInvalid = ValidationCode 58"
definition kMapStaticBodyNotStatic :: validation_code where "kMapStaticBodyNotStatic = ValidationCode 59"
definition kMapStaticBodyOutOfBounds :: validation_code where "kMapStaticBodyOutOfBounds = ValidationCode 60"
definition kMapStaticBodyLimitExceeded :: validation_code where "kMapStaticBodyLimitExceeded = ValidationCode 61"
definition kMapMarkerKindInvalid :: validation_code where "kMapMarkerKindInvalid = ValidationCode 62"
definition kMapMarkerOutOfBounds :: validation_code where "kMapMarkerOutOfBounds = ValidationCode 63"
definition kMapMarkerLimitExceeded :: validation_code where "kMapMarkerLimitExceeded = ValidationCode 64"
definition kMapMetadataKeyInvalid :: validation_code where "kMapMetadataKeyInvalid = ValidationCode 65"
definition kMapMetadataValueInvalid :: validation_code where "kMapMetadataValueInvalid = ValidationCode 66"
definition kMapMetadataDuplicateKey :: validation_code where "kMapMetadataDuplicateKey = ValidationCode 67"
definition kMapMetadataLimitExceeded :: validation_code where "kMapMetadataLimitExceeded = ValidationCode 68"
definition kGameSimulationBodyOutOfBounds :: validation_code where "kGameSimulationBodyOutOfBounds = ValidationCode 69"
definition kGameSimulationSpatialIndexUnknownEntityId :: validation_code where "kGameSimulationSpatialIndexUnknownEntityId = ValidationCode 70"
definition kGameSimulationSpatialIndexStale :: validation_code where "kGameSimulationSpatialIndexStale = ValidationCode 71"
definition kGameSimulationWallMotionIncoherent :: validation_code where "kGameSimulationWallMotionIncoherent = ValidationCode 72"
definition kTickSequenceOutOfRange :: validation_code where "kTickSequenceOutOfRange = ValidationCode 73"
definition kConfigWorldScalarNotFinite :: validation_code where "kConfigWorldScalarNotFinite = ValidationCode 74"
definition kConfigWorldScalarOutOfRange :: validation_code where "kConfigWorldScalarOutOfRange = ValidationCode 75"
definition kConfigWorldTooSmallForPlayer :: validation_code where "kConfigWorldTooSmallForPlayer = ValidationCode 76"
definition kConfigTickRateUnsupported :: validation_code where "kConfigTickRateUnsupported = ValidationCode 77"
definition kConfigDragNotFinite :: validation_code where "kConfigDragNotFinite = ValidationCode 78"
definition kConfigDragOutOfRange :: validation_code where "kConfigDragOutOfRange = ValidationCode 79"
definition kConfigSpatialGridDimensionOutOfRange :: validation_code where "kConfigSpatialGridDimensionOutOfRange = ValidationCode 80"
definition kConfigSpatialGridCellLimitExceeded :: validation_code where "kConfigSpatialGridCellLimitExceeded = ValidationCode 81"
definition kCandidatePairDuplicateEntityId :: validation_code where "kCandidatePairDuplicateEntityId = ValidationCode 82"
definition kSpatialGridGeometryInvalid :: validation_code where "kSpatialGridGeometryInvalid = ValidationCode 83"
definition kSpatialGridCellCountExceeded :: validation_code where "kSpatialGridCellCountExceeded = ValidationCode 84"
definition kSpatialGridMembershipLimitExceeded :: validation_code where "kSpatialGridMembershipLimitExceeded = ValidationCode 85"
definition kSpatialGridCandidatePairLimitExceeded :: validation_code where "kSpatialGridCandidatePairLimitExceeded = ValidationCode 86"
definition kSpatialGridPlayerCenterOutOfBounds :: validation_code where "kSpatialGridPlayerCenterOutOfBounds = ValidationCode 87"
definition kSpatialGridStaticBodyOutOfBounds :: validation_code where "kSpatialGridStaticBodyOutOfBounds = ValidationCode 88"
definition kSpatialGridPointOutOfBounds :: validation_code where "kSpatialGridPointOutOfBounds = ValidationCode 89"
definition kSpatialGridCellCoordinateOutOfBounds :: validation_code where "kSpatialGridCellCoordinateOutOfBounds = ValidationCode 90"
definition kRaceRoadNameInvalid :: validation_code where "kRaceRoadNameInvalid = ValidationCode 91"
definition kRandomStreamKindInvalid :: validation_code where "kRandomStreamKindInvalid = ValidationCode 92"
definition kMovementTuningNotFinite :: validation_code where "kMovementTuningNotFinite = ValidationCode 93"
definition kMovementTuningOutOfRange :: validation_code where "kMovementTuningOutOfRange = ValidationCode 94"
definition kInputBatchTuningRequestIdOutOfRange :: validation_code where "kInputBatchTuningRequestIdOutOfRange = ValidationCode 95"
definition kInputBatchTuningRevisionOutOfRange :: validation_code where "kInputBatchTuningRevisionOutOfRange = ValidationCode 96"
definition kTickWindowExpiryOverflow :: validation_code where "kTickWindowExpiryOverflow = ValidationCode 97"
definition kInputBatchInputGenerationZero :: validation_code where "kInputBatchInputGenerationZero = ValidationCode 98"
definition kBotProfileNameInvalid :: validation_code where "kBotProfileNameInvalid = ValidationCode 99"
definition kNpcCatalogueLimitExceeded :: validation_code where "kNpcCatalogueLimitExceeded = ValidationCode 100"
definition kNpcCatalogueDuplicate :: validation_code where "kNpcCatalogueDuplicate = ValidationCode 101"
definition kNpcCatalogueMixedKind :: validation_code where "kNpcCatalogueMixedKind = ValidationCode 102"
definition kNpcCatalogueProfileMissing :: validation_code where "kNpcCatalogueProfileMissing = ValidationCode 103"
definition kInputBatchJoinDeclarationInvalid :: validation_code where "kInputBatchJoinDeclarationInvalid = ValidationCode 104"
definition kShieldActivationInvalid :: validation_code where "kShieldActivationInvalid = ValidationCode 105"
definition kShieldCancellationBeforeActivation :: validation_code where "kShieldCancellationBeforeActivation = ValidationCode 106"
definition kChargeActivationInvalid :: validation_code where "kChargeActivationInvalid = ValidationCode 107"
definition kChargeCancellationBeforeActivation :: validation_code where "kChargeCancellationBeforeActivation = ValidationCode 108"

lemmas validation_code_defs =
  kPhysicalScalarNotFinite_def kPhysicalScalarOutOfRange_def kVectorDivisionByZero_def
  kPhysicsBodyMassOutOfRange_def kPhysicsBodyRestitutionOutOfRange_def kPhysicsBodyDragScaleOutOfRange_def
  kPhysicsBodyGroundAttachmentOutOfRange_def kEntityIdOutOfRange_def kControllerIdOutOfRange_def
  kTeamIdOutOfRange_def kComponentStoreDuplicateEntityId_def kComponentStoreLimitExceeded_def
  kCommandKindMaskUnknownBit_def kEntityIdReservationLimitExceeded_def kEntityIdReservationOutOfRange_def
  kEntityIdReservationExhausted_def kInputBatchCommandLimitExceeded_def kInputBatchCommandKindNotAccepted_def
  kInputBatchThrustDirectionOutOfRange_def kInputBatchSpawnAndDespawnConflict_def kInputBatchSeatIndexOutOfRange_def
  kInputBatchSeatCountOutOfRange_def kGameWorldEntityLimitExceeded_def kGameWorldDuplicateEntityId_def
  kGameWorldEventLimitExceeded_def kDeterministicRandomBoundEmpty_def kSeatKindNameInvalid_def
  kSeatRosterSeatCountOutOfRange_def kSeatRosterSeatIndexOutOfRange_def kSpawnPolicyIndexOutOfRange_def
  kSpawnPolicyPointOccupied_def kMapSpawnPointNotSeatable_def kGameSimulationSetupConflict_def
  kGameSimulationModeRefusesServerIssuedKind_def kSystemPipelineSystemMissing_def kSystemPipelineSystemNameEmpty_def
  kSystemPipelineDuplicateSystemName_def kSystemPipelineStageUnknown_def kContactResponseBodiesAbsent_def
  kContactRuleNameInvalid_def kContactRulePredicateMissing_def kContactRuleResponseMissing_def
  kContactRuleTableDuplicateRuleName_def kArenaBoundsScalarNotFinite_def kArenaBoundsScalarOutOfRange_def
  kTerrainDefinitionInvalid_def kTerrainShapeLimitExceeded_def kTerrainGeometryOutOfBounds_def
  kTerrainGeometryPrecisionLost_def kTerrainBoundaryLimitExceeded_def kTerrainQueryRadiusInvalid_def
  kContinuousMotionInvalidInput_def kContinuousMotionBudgetExceeded_def kContinuousMotionInvalidResponse_def
  kContinuousMotionNoProgress_def kContinuousMotionPrecisionLost_def kGuardedPairFactsInvalid_def
  kGuardedPairSeparationFailed_def kMapNameInvalid_def kMapStaticBodyNotStatic_def
  kMapStaticBodyOutOfBounds_def kMapStaticBodyLimitExceeded_def kMapMarkerKindInvalid_def
  kMapMarkerOutOfBounds_def kMapMarkerLimitExceeded_def kMapMetadataKeyInvalid_def
  kMapMetadataValueInvalid_def kMapMetadataDuplicateKey_def kMapMetadataLimitExceeded_def
  kGameSimulationBodyOutOfBounds_def kGameSimulationSpatialIndexUnknownEntityId_def kGameSimulationSpatialIndexStale_def
  kGameSimulationWallMotionIncoherent_def kTickSequenceOutOfRange_def kConfigWorldScalarNotFinite_def
  kConfigWorldScalarOutOfRange_def kConfigWorldTooSmallForPlayer_def kConfigTickRateUnsupported_def
  kConfigDragNotFinite_def kConfigDragOutOfRange_def kConfigSpatialGridDimensionOutOfRange_def
  kConfigSpatialGridCellLimitExceeded_def kCandidatePairDuplicateEntityId_def kSpatialGridGeometryInvalid_def
  kSpatialGridCellCountExceeded_def kSpatialGridMembershipLimitExceeded_def kSpatialGridCandidatePairLimitExceeded_def
  kSpatialGridPlayerCenterOutOfBounds_def kSpatialGridStaticBodyOutOfBounds_def kSpatialGridPointOutOfBounds_def
  kSpatialGridCellCoordinateOutOfBounds_def kRaceRoadNameInvalid_def kRandomStreamKindInvalid_def
  kMovementTuningNotFinite_def kMovementTuningOutOfRange_def kInputBatchTuningRequestIdOutOfRange_def
  kInputBatchTuningRevisionOutOfRange_def kTickWindowExpiryOverflow_def kInputBatchInputGenerationZero_def
  kBotProfileNameInvalid_def kNpcCatalogueLimitExceeded_def kNpcCatalogueDuplicate_def
  kNpcCatalogueMixedKind_def kNpcCatalogueProfileMissing_def kInputBatchJoinDeclarationInvalid_def
  kShieldActivationInvalid_def kShieldCancellationBeforeActivation_def kChargeActivationInvalid_def
  kChargeCancellationBeforeActivation_def

definition validation_code_names :: "string list" where
  "validation_code_names =
    [''SIMULATION.PHYSICAL_SCALAR_NOT_FINITE'',
     ''SIMULATION.PHYSICAL_SCALAR_OUT_OF_RANGE'',
     ''SIMULATION.VECTOR_DIVISION_BY_ZERO'',
     ''SIMULATION.PHYSICS_BODY_MASS_OUT_OF_RANGE'',
     ''SIMULATION.PHYSICS_BODY_RESTITUTION_OUT_OF_RANGE'',
     ''SIMULATION.PHYSICS_BODY_DRAG_SCALE_OUT_OF_RANGE'',
     ''SIMULATION.PHYSICS_BODY_GROUND_ATTACHMENT_OUT_OF_RANGE'',
     ''SIMULATION.ENTITY_ID_OUT_OF_RANGE'',
     ''SIMULATION.CONTROLLER_ID_OUT_OF_RANGE'',
     ''SIMULATION.TEAM_ID_OUT_OF_RANGE'',
     ''SIMULATION.COMPONENT_STORE_DUPLICATE_ENTITY_ID'',
     ''SIMULATION.COMPONENT_STORE_LIMIT_EXCEEDED'',
     ''SIMULATION.COMMAND_KIND_MASK_UNKNOWN_BIT'',
     ''SIMULATION.ENTITY_ID_RESERVATION_LIMIT_EXCEEDED'',
     ''SIMULATION.ENTITY_ID_RESERVATION_OUT_OF_RANGE'',
     ''SIMULATION.ENTITY_ID_RESERVATION_EXHAUSTED'',
     ''SIMULATION.INPUT_BATCH_COMMAND_LIMIT_EXCEEDED'',
     ''SIMULATION.INPUT_BATCH_COMMAND_KIND_NOT_ACCEPTED'',
     ''SIMULATION.INPUT_BATCH_THRUST_DIRECTION_OUT_OF_RANGE'',
     ''SIMULATION.INPUT_BATCH_SPAWN_AND_DESPAWN_CONFLICT'',
     ''SIMULATION.INPUT_BATCH_SEAT_INDEX_OUT_OF_RANGE'',
     ''SIMULATION.INPUT_BATCH_SEAT_COUNT_OUT_OF_RANGE'',
     ''SIMULATION.GAME_WORLD_ENTITY_LIMIT_EXCEEDED'',
     ''SIMULATION.GAME_WORLD_DUPLICATE_ENTITY_ID'',
     ''SIMULATION.GAME_WORLD_EVENT_LIMIT_EXCEEDED'',
     ''SIMULATION.DETERMINISTIC_RANDOM_BOUND_EMPTY'',
     ''SIMULATION.SEAT_KIND_NAME_INVALID'',
     ''SIMULATION.SEAT_ROSTER_SEAT_COUNT_OUT_OF_RANGE'',
     ''SIMULATION.SEAT_ROSTER_SEAT_INDEX_OUT_OF_RANGE'',
     ''SIMULATION.SPAWN_POLICY_INDEX_OUT_OF_RANGE'',
     ''SIMULATION.SPAWN_POLICY_POINT_OCCUPIED'',
     ''SIMULATION.MAP_SPAWN_POINT_NOT_SEATABLE'',
     ''SIMULATION.GAME_SIMULATION_SETUP_CONFLICT'',
     ''SIMULATION.GAME_SIMULATION_MODE_REFUSES_SERVER_ISSUED_KIND'',
     ''SIMULATION.SYSTEM_PIPELINE_SYSTEM_MISSING'',
     ''SIMULATION.SYSTEM_PIPELINE_SYSTEM_NAME_EMPTY'',
     ''SIMULATION.SYSTEM_PIPELINE_DUPLICATE_SYSTEM_NAME'',
     ''SIMULATION.SYSTEM_PIPELINE_STAGE_UNKNOWN'',
     ''SIMULATION.CONTACT_RESPONSE_BODIES_ABSENT'',
     ''SIMULATION.CONTACT_RULE_NAME_INVALID'',
     ''SIMULATION.CONTACT_RULE_PREDICATE_MISSING'',
     ''SIMULATION.CONTACT_RULE_RESPONSE_MISSING'',
     ''SIMULATION.CONTACT_RULE_TABLE_DUPLICATE_RULE_NAME'',
     ''SIMULATION.ARENA_BOUNDS_SCALAR_NOT_FINITE'',
     ''SIMULATION.ARENA_BOUNDS_SCALAR_OUT_OF_RANGE'',
     ''SIMULATION.TERRAIN_DEFINITION_INVALID'',
     ''SIMULATION.TERRAIN_SHAPE_LIMIT_EXCEEDED'',
     ''SIMULATION.TERRAIN_GEOMETRY_OUT_OF_BOUNDS'',
     ''SIMULATION.TERRAIN_GEOMETRY_PRECISION_LOST'',
     ''SIMULATION.TERRAIN_BOUNDARY_LIMIT_EXCEEDED'',
     ''SIMULATION.TERRAIN_QUERY_RADIUS_INVALID'',
     ''SIMULATION.CONTINUOUS_MOTION_INVALID_INPUT'',
     ''SIMULATION.CONTINUOUS_MOTION_BUDGET_EXCEEDED'',
     ''SIMULATION.CONTINUOUS_MOTION_INVALID_RESPONSE'',
     ''SIMULATION.CONTINUOUS_MOTION_NO_PROGRESS'',
     ''SIMULATION.CONTINUOUS_MOTION_PRECISION_LOST'',
     ''SIMULATION.GUARDED_PAIR_FACTS_INVALID'',
     ''SIMULATION.GUARDED_PAIR_SEPARATION_FAILED'',
     ''SIMULATION.MAP_NAME_INVALID'',
     ''SIMULATION.MAP_STATIC_BODY_NOT_STATIC'',
     ''SIMULATION.MAP_STATIC_BODY_OUT_OF_BOUNDS'',
     ''SIMULATION.MAP_STATIC_BODY_LIMIT_EXCEEDED'',
     ''SIMULATION.MAP_MARKER_KIND_INVALID'',
     ''SIMULATION.MAP_MARKER_OUT_OF_BOUNDS'',
     ''SIMULATION.MAP_MARKER_LIMIT_EXCEEDED'',
     ''SIMULATION.MAP_METADATA_KEY_INVALID'',
     ''SIMULATION.MAP_METADATA_VALUE_INVALID'',
     ''SIMULATION.MAP_METADATA_DUPLICATE_KEY'',
     ''SIMULATION.MAP_METADATA_LIMIT_EXCEEDED'',
     ''SIMULATION.GAME_SIMULATION_BODY_OUT_OF_BOUNDS'',
     ''SIMULATION.GAME_SIMULATION_SPATIAL_INDEX_UNKNOWN_ENTITY_ID'',
     ''SIMULATION.GAME_SIMULATION_SPATIAL_INDEX_STALE'',
     ''SIMULATION.GAME_SIMULATION_WALL_MOTION_INCOHERENT'',
     ''SIMULATION.TICK_SEQUENCE_OUT_OF_RANGE'',
     ''SIMULATION.CONFIG.WORLD_SCALAR_NOT_FINITE'',
     ''SIMULATION.CONFIG.WORLD_SCALAR_OUT_OF_RANGE'',
     ''SIMULATION.CONFIG.WORLD_TOO_SMALL_FOR_PLAYER'',
     ''SIMULATION.CONFIG.TICK_RATE_UNSUPPORTED'',
     ''SIMULATION.CONFIG.DRAG_NOT_FINITE'',
     ''SIMULATION.CONFIG.DRAG_OUT_OF_RANGE'',
     ''SIMULATION.CONFIG.SPATIAL_GRID_DIMENSION_OUT_OF_RANGE'',
     ''SIMULATION.CONFIG.SPATIAL_GRID_CELL_LIMIT_EXCEEDED'',
     ''SIMULATION.CANDIDATE_PAIR_DUPLICATE_ENTITY_ID'',
     ''SIMULATION.SPATIAL_GRID_GEOMETRY_INVALID'',
     ''SIMULATION.SPATIAL_GRID_CELL_COUNT_EXCEEDED'',
     ''SIMULATION.SPATIAL_GRID_MEMBERSHIP_LIMIT_EXCEEDED'',
     ''SIMULATION.SPATIAL_GRID_CANDIDATE_PAIR_LIMIT_EXCEEDED'',
     ''SIMULATION.SPATIAL_GRID_PLAYER_CENTER_OUT_OF_BOUNDS'',
     ''SIMULATION.SPATIAL_GRID_STATIC_BODY_OUT_OF_BOUNDS'',
     ''SIMULATION.SPATIAL_GRID_POINT_OUT_OF_BOUNDS'',
     ''SIMULATION.SPATIAL_GRID_CELL_COORDINATE_OUT_OF_BOUNDS'',
     ''SIMULATION.RACE_ROAD_NAME_INVALID'',
     ''SIMULATION.RANDOM_STREAM_KIND_INVALID'',
     ''SIMULATION.MOVEMENT_TUNING_NOT_FINITE'',
     ''SIMULATION.MOVEMENT_TUNING_OUT_OF_RANGE'',
     ''SIMULATION.INPUT_BATCH_TUNING_REQUEST_ID_OUT_OF_RANGE'',
     ''SIMULATION.INPUT_BATCH_TUNING_REVISION_OUT_OF_RANGE'',
     ''SIMULATION.TICK_WINDOW_EXPIRY_OVERFLOW'',
     ''SIMULATION.INPUT_BATCH_INPUT_GENERATION_ZERO'',
     ''SIMULATION.BOT_PROFILE_NAME_INVALID'',
     ''SIMULATION.NPC_CATALOGUE_LIMIT_EXCEEDED'',
     ''SIMULATION.NPC_CATALOGUE_DUPLICATE'',
     ''SIMULATION.NPC_CATALOGUE_MIXED_KIND'',
     ''SIMULATION.NPC_CATALOGUE_PROFILE_MISSING'',
     ''SIMULATION.INPUT_BATCH_JOIN_DECLARATION_INVALID'',
     ''SIMULATION.SHIELD_ACTIVATION_INVALID'',
     ''SIMULATION.SHIELD_CANCELLATION_BEFORE_ACTIVATION'',
     ''SIMULATION.CHARGE_ACTIVATION_INVALID'',
     ''SIMULATION.CHARGE_CANCELLATION_BEFORE_ACTIVATION'']"

definition validation_code_name :: "validation_code \<Rightarrow> string" where
  "validation_code_name c =
     (if code_value c < length validation_code_names then validation_code_names ! code_value c
      else ''SIMULATION.VALIDATION_CODE_INVALID'')"

datatype sim_error = SimError (validation_code: validation_code) (error_context: string)

type_synonym 'a result = "sim_error + 'a"

end
