(* ===== verification/Identity.thy ===== *)
theory Identity
  imports Validation_Error
begin

text \<open>
  Identities and exact time of the simulation: entity, controller and team ids
  (entity_id, controller_id, team_id), the committed tick sequence (tick_sequence), the half-open
  window of ticks (tick_window) and the block of entity ids one tick may create
  (entity_id_reservation). The values are 64-bit words, so that every bound that keeps an addition
  from wrapping is a bound of the code and not of the model.
\<close>

section \<open>Ids\<close>

definition kMinimumEntityId :: u64 where "kMinimumEntityId = 1"
definition kMaximumEntityId :: u64 where "kMaximumEntityId = kMaximumProtocolSafeInteger"
definition kMinimumControllerId :: u64 where "kMinimumControllerId = 1"
definition kMaximumControllerId :: u64 where "kMaximumControllerId = kMaximumProtocolSafeInteger"
definition kMinimumTeamId :: u64 where "kMinimumTeamId = 1"
definition kMaximumTeamId :: u64 where "kMaximumTeamId = kMaximumProtocolSafeInteger"

lemma id_limits [simp]:
  "unat kMinimumEntityId = 1" "unat kMaximumEntityId = 9007199254740991"
  "unat kMinimumControllerId = 1" "unat kMaximumControllerId = 9007199254740991"
  "unat kMinimumTeamId = 1" "unat kMaximumTeamId = 9007199254740991"
  by (simp_all add: kMinimumEntityId_def kMaximumEntityId_def kMinimumControllerId_def
      kMaximumControllerId_def kMinimumTeamId_def kMaximumTeamId_def)

datatype entity_id = EntityId (entity_value: u64)
datatype controller_id = ControllerId (controller_value: u64)
datatype team_id = TeamId (team_value: u64)

definition entity_id_create :: "u64 \<Rightarrow> entity_id result" where
  "entity_id_create v =
     (if v < kMinimumEntityId \<or> v > kMaximumEntityId
      then Inl (SimError kEntityIdOutOfRange ''entity_id.value'')
      else Inr (EntityId v))"

definition controller_id_create :: "u64 \<Rightarrow> controller_id result" where
  "controller_id_create v =
     (if v < kMinimumControllerId \<or> v > kMaximumControllerId
      then Inl (SimError kControllerIdOutOfRange ''controller_id.value'')
      else Inr (ControllerId v))"

definition team_id_create :: "u64 \<Rightarrow> team_id result" where
  "team_id_create v =
     (if v < kMinimumTeamId \<or> v > kMaximumTeamId
      then Inl (SimError kTeamIdOutOfRange ''team_id.value'')
      else Inr (TeamId v))"

text \<open>What the private constructors guarantee of every value of these classes.\<close>

definition valid_entity_id :: "entity_id \<Rightarrow> bool" where
  "valid_entity_id e \<longleftrightarrow> 1 \<le> unat (entity_value e) \<and> unat (entity_value e) \<le> 9007199254740991"

lemma entity_id_create_Inr:
  "entity_id_create v = Inr e \<longleftrightarrow> e = EntityId v \<and> valid_entity_id e"
  by (auto simp: entity_id_create_def valid_entity_id_def u64_order)

text \<open>Ids are compared by value; this order is the order of every store and roster.\<close>

instantiation entity_id :: linorder
begin

definition less_eq_entity_id :: "entity_id \<Rightarrow> entity_id \<Rightarrow> bool" where
  "less_eq_entity_id a b \<longleftrightarrow> entity_value a \<le> entity_value b"

definition less_entity_id :: "entity_id \<Rightarrow> entity_id \<Rightarrow> bool" where
  "less_entity_id a b \<longleftrightarrow> entity_value a < entity_value b"

instance
  by standard (auto simp: less_eq_entity_id_def less_entity_id_def entity_id.expand)

end

instantiation controller_id :: linorder
begin

definition less_eq_controller_id :: "controller_id \<Rightarrow> controller_id \<Rightarrow> bool" where
  "less_eq_controller_id a b \<longleftrightarrow> controller_value a \<le> controller_value b"

definition less_controller_id :: "controller_id \<Rightarrow> controller_id \<Rightarrow> bool" where
  "less_controller_id a b \<longleftrightarrow> controller_value a < controller_value b"

instance
  by standard (auto simp: less_eq_controller_id_def less_controller_id_def controller_id.expand)

end

section \<open>Tick sequence\<close>

datatype tick = Tick (tick_value: u64)

instantiation tick :: linorder
begin

definition less_eq_tick :: "tick \<Rightarrow> tick \<Rightarrow> bool" where
  "less_eq_tick a b \<longleftrightarrow> tick_value a \<le> tick_value b"

definition less_tick :: "tick \<Rightarrow> tick \<Rightarrow> bool" where
  "less_tick a b \<longleftrightarrow> tick_value a < tick_value b"

instance
  by standard (auto simp: less_eq_tick_def less_tick_def tick.expand)

end

definition kMaximumTickValue :: u64 where
  "kMaximumTickValue = kMaximumProtocolSafeInteger"

lemma unat_kMaximumTickValue [simp]: "unat kMaximumTickValue = 9007199254740991"
  by (simp add: kMaximumTickValue_def)

definition tick_zero :: tick where
  "tick_zero = Tick 0"

definition tick_create :: "u64 \<Rightarrow> tick result" where
  "tick_create v =
     (if v > kMaximumTickValue
      then Inl (SimError kTickSequenceOutOfRange ''tick_sequence.value'')
      else Inr (Tick v))"

definition tick_next :: "tick \<Rightarrow> tick result" where
  "tick_next t =
     (if tick_value t = kMaximumTickValue
      then Inl (SimError kTickSequenceOutOfRange ''tick_sequence.next'')
      else Inr (Tick (tick_value t + 1)))"

definition valid_tick :: "tick \<Rightarrow> bool" where
  "valid_tick t \<longleftrightarrow> unat (tick_value t) \<le> 9007199254740991"

lemma valid_tick_zero [simp]: "valid_tick tick_zero"
  by (simp add: valid_tick_def tick_zero_def)

lemma tick_create_Inr: "tick_create v = Inr t \<longleftrightarrow> t = Tick v \<and> valid_tick t"
  by (auto simp: tick_create_def valid_tick_def u64_order)

lemma tick_next_Inr:
  assumes "valid_tick t"
  shows "tick_next t = Inr t' \<longleftrightarrow> valid_tick t' \<and> unat (tick_value t') = Suc (unat (tick_value t))"
proof (cases "tick_value t = kMaximumTickValue")
  case True
  then show ?thesis by (auto simp: tick_next_def valid_tick_def)
next
  case False
  with assms have lt: "unat (tick_value t) < 9007199254740991"
    by (auto simp: valid_tick_def u64_order)
  then have add: "unat (tick_value t + 1) = Suc (unat (tick_value t))"
    by (simp add: u64_add_unat)
  show ?thesis
  proof
    assume "tick_next t = Inr t'"
    with False lt add show "valid_tick t' \<and> unat (tick_value t') = Suc (unat (tick_value t))"
      by (auto simp: tick_next_def valid_tick_def)
  next
    assume "valid_tick t' \<and> unat (tick_value t') = Suc (unat (tick_value t))"
    with add have "tick_value t' = tick_value t + 1" by (simp add: u64_eq_iff)
    with False show "tick_next t = Inr t'" by (cases t') (simp add: tick_next_def)
  qed
qed

section \<open>Tick windows\<close>

record tick_window =
  activation_tick :: tick
  expiry_tick :: tick

definition tick_window_create :: "tick \<Rightarrow> u64 \<Rightarrow> tick_window result" where
  "tick_window_create activation duration =
     (if duration > kMaximumTickValue - tick_value activation
      then Inl (SimError kTickWindowExpiryOverflow ''tick_window.expiry_tick'')
      else try_then (tick_create (tick_value activation + duration))
             (\<lambda>expiry. Inr \<lparr>activation_tick = activation, expiry_tick = expiry\<rparr>))"

definition window_contains :: "tick_window \<Rightarrow> tick \<Rightarrow> bool" where
  "window_contains w t \<longleftrightarrow> activation_tick w \<le> t \<and> t < expiry_tick w"

definition window_expired :: "tick_window \<Rightarrow> tick \<Rightarrow> bool" where
  "window_expired w t \<longleftrightarrow> t \<ge> expiry_tick w"

lemma tick_window_create_total:
  assumes a: "valid_tick a"
  shows "tick_window_create a d =
     (if unat (tick_value a) + unat d \<le> 9007199254740991
      then Inr \<lparr>activation_tick = a, expiry_tick = Tick (tick_value a + d)\<rparr>
      else Inl (SimError kTickWindowExpiryOverflow ''tick_window.expiry_tick''))"
proof -
  have "unat (kMaximumTickValue - tick_value a) = 9007199254740991 - unat (tick_value a)"
    using a by (simp add: u64_sub_unat valid_tick_def word_le_nat_alt)
  then have guard: "d > kMaximumTickValue - tick_value a \<longleftrightarrow>
      \<not> unat (tick_value a) + unat d \<le> 9007199254740991"
    using a by (auto simp: word_less_nat_alt valid_tick_def)
  have "unat (tick_value a) + unat d \<le> 9007199254740991 \<Longrightarrow>
      unat (tick_value a + d) = unat (tick_value a) + unat d"
    by (rule u64_add_unat) simp
  with guard show ?thesis
    by (auto simp: tick_window_create_def tick_create_def word_less_nat_alt)
qed

end
