(* ===== verification/Reservation.thy ===== *)
theory Reservation
  imports Identity
begin

text \<open>
  The contiguous block of entity ids one tick may create (entity_id_reservation.hpp) and the
  monotonic allocator that issues one block per tick (runtime/entity_id_allocator). Both are sources
  of fresh ids: the interface \<open>fresh_id_source\<close> says what a caller may rely on, and both
  implementations interpret it.
\<close>

section \<open>The interface: a source of fresh ids\<close>

text \<open>A run of requests to an issuer, collecting the issued ids in order.\<close>

fun issue_all ::
  "('a \<Rightarrow> 's \<Rightarrow> 'e + (entity_id list \<times> 's)) \<Rightarrow> 'a list \<Rightarrow> 's \<Rightarrow> 'e + (entity_id list \<times> 's)" where
  "issue_all issue [] s = Inr ([], s)"
| "issue_all issue (a # as) s =
     try_then (issue a s) (\<lambda>(es, s').
       try_then (issue_all issue as s') (\<lambda>(fs, s''). Inr (es @ fs, s'')))"

locale fresh_id_source =
  fixes issue :: "'a \<Rightarrow> 's \<Rightarrow> 'e + (entity_id list \<times> 's)"
    and id_floor :: "'s \<Rightarrow> nat"
    and valid :: "'s \<Rightarrow> bool"
  assumes issue_keeps_valid: "valid s \<Longrightarrow> issue a s = Inr (es, s') \<Longrightarrow> valid s'"
    and issue_ascending: "valid s \<Longrightarrow> issue a s = Inr (es, s') \<Longrightarrow> ascending es"
    and issue_at_or_above: "valid s \<Longrightarrow> issue a s = Inr (es, s') \<Longrightarrow> e \<in> set es \<Longrightarrow>
          id_floor s \<le> unat (entity_value e)"
    and issue_below: "valid s \<Longrightarrow> issue a s = Inr (es, s') \<Longrightarrow> e \<in> set es \<Longrightarrow>
          unat (entity_value e) < id_floor s'"
    and id_floor_mono: "valid s \<Longrightarrow> issue a s = Inr (es, s') \<Longrightarrow> id_floor s \<le> id_floor s'"
begin

lemma run_facts:
  assumes "valid s" and "issue_all issue as s = Inr (es, s')"
  shows "valid s' \<and> id_floor s \<le> id_floor s' \<and> ascending es \<and>
    (\<forall>e\<in>set es. id_floor s \<le> unat (entity_value e) \<and> unat (entity_value e) < id_floor s')"
  using assms
proof (induction as arbitrary: s es)
  case Nil
  then show ?case by simp
next
  case (Cons a as)
  from Cons.prems(2) obtain fs t gs where step: "issue a s = Inr (fs, t)"
    and rest: "issue_all issue as t = Inr (gs, s')" and es: "es = fs @ gs"
    by (auto simp: try_then_Inr_iff split: prod.splits)
  note now = issue_keeps_valid [OF Cons.prems(1) step] issue_ascending [OF Cons.prems(1) step]
    issue_at_or_above [OF Cons.prems(1) step] issue_below [OF Cons.prems(1) step]
    id_floor_mono [OF Cons.prems(1) step]
  note later = Cons.IH [OF now(1) rest]
  have "\<forall>x\<in>set fs. \<forall>y\<in>set gs. x < y"
    using now(4) later by (fastforce simp: less_entity_id_def word_less_nat_alt)
  with now later es show ?case
    by (fastforce simp: sorted_wrt_append)
qed

lemma run_never_reissues:
  assumes "valid s" and "issue_all issue as s = Inr (es, s')"
  shows "distinct es"
  using run_facts [OF assms] by (simp add: ascending_distinct)

end

section \<open>The reservation of one tick\<close>

definition kMaximumEntityIdReservationCount :: u64 where
  "kMaximumEntityIdReservationCount = 4096"

record reservation =
  first_id :: entity_id
  id_count :: u64

definition reservation_none :: reservation where
  "reservation_none = \<lparr>first_id = EntityId kMinimumEntityId, id_count = 0\<rparr>"

definition reservation_create :: "entity_id \<Rightarrow> u64 \<Rightarrow> reservation result" where
  "reservation_create first n =
     (if n > kMaximumEntityIdReservationCount
      then Inl (SimError kEntityIdReservationLimitExceeded ''entity_id_reservation.count'')
      else if n = 0 then Inr reservation_none
      else if entity_value first > kMaximumEntityId - (n - 1)
      then Inl (SimError kEntityIdReservationOutOfRange ''entity_id_reservation.first'')
      else Inr \<lparr>first_id = first, id_count = n\<rparr>)"

definition reservation_contains :: "reservation \<Rightarrow> entity_id \<Rightarrow> bool" where
  "reservation_contains r e \<longleftrightarrow> id_count r \<noteq> 0 \<and> entity_value e \<ge> entity_value (first_id r) \<and>
     entity_value e - entity_value (first_id r) < id_count r"

definition draw_next :: "reservation \<Rightarrow> (entity_id \<times> reservation) result" where
  "draw_next r =
     (if id_count r = 0
      then Inl (SimError kEntityIdReservationExhausted ''entity_id_reservation.draw_next'')
      else if id_count r = 1 then Inr (first_id r, reservation_none)
      else try_then (entity_id_create (entity_value (first_id r) + 1))
             (\<lambda>next. Inr (first_id r, \<lparr>first_id = next, id_count = id_count r - 1\<rparr>)))"

definition valid_reservation :: "reservation \<Rightarrow> bool" where
  "valid_reservation r \<longleftrightarrow> valid_entity_id (first_id r) \<and> unat (id_count r) \<le> 4096 \<and>
     (id_count r = 0 \<longrightarrow> r = reservation_none) \<and>
     unat (entity_value (first_id r)) + unat (id_count r) \<le> 9007199254740992"

lemma valid_reservation_none [simp]: "valid_reservation reservation_none"
  by (simp add: valid_reservation_def reservation_none_def valid_entity_id_def)

lemma reservation_create_total:
  assumes "valid_entity_id first"
  shows "reservation_create first n =
     (if unat n > 4096
      then Inl (SimError kEntityIdReservationLimitExceeded ''entity_id_reservation.count'')
      else if n = 0 then Inr reservation_none
      else if unat (entity_value first) + unat n > 9007199254740992
      then Inl (SimError kEntityIdReservationOutOfRange ''entity_id_reservation.first'')
      else Inr \<lparr>first_id = first, id_count = n\<rparr>)"
proof (cases "n = 0 \<or> unat n > 4096")
  case True
  then show ?thesis
    by (auto simp: reservation_create_def kMaximumEntityIdReservationCount_def word_less_nat_alt)
next
  case False
  then have n: "n \<noteq> 0" "unat n \<le> 4096" "1 \<le> unat n"
    by (auto simp: u64_order)
  have one: "unat (n - 1) = unat n - 1"
    using n by (simp add: u64_sub_unat word_le_nat_alt)
  have "unat (kMaximumEntityId - (n - 1)) = 9007199254740991 - (unat n - 1)"
    using n one by (subst u64_sub_unat) (auto simp: word_le_nat_alt)
  with n show ?thesis
    by (auto simp: reservation_create_def kMaximumEntityIdReservationCount_def word_less_nat_alt)
qed

lemma reservation_create_valid:
  assumes "valid_entity_id first" and "reservation_create first n = Inr r"
  shows "valid_reservation r"
proof (cases "n = 0")
  case True
  with assms show ?thesis by (simp add: reservation_create_def kMaximumEntityIdReservationCount_def)
next
  case False
  with assms show ?thesis
    by (auto simp: reservation_create_total valid_reservation_def split: if_splits)
qed

lemma reservation_contains_range:
  assumes "valid_reservation r"
  shows "reservation_contains r e \<longleftrightarrow>
     unat (entity_value (first_id r)) \<le> unat (entity_value e) \<and>
     unat (entity_value e) < unat (entity_value (first_id r)) + unat (id_count r)"
proof (cases "entity_value e \<ge> entity_value (first_id r)")
  case True
  then show ?thesis
    by (auto simp: reservation_contains_def u64_order u64_sub_unat)
next
  case False
  then show ?thesis
    by (auto simp: reservation_contains_def word_le_nat_alt)
qed

lemma draw_next_cases:
  assumes "valid_reservation r"
  shows "draw_next r =
    (if id_count r = 0
     then Inl (SimError kEntityIdReservationExhausted ''entity_id_reservation.draw_next'')
     else if id_count r = 1 then Inr (first_id r, reservation_none)
     else Inr (first_id r, \<lparr>first_id = EntityId (entity_value (first_id r) + 1),
                            id_count = id_count r - 1\<rparr>))"
proof (cases "id_count r = 0 \<or> id_count r = 1")
  case True
  then show ?thesis by (auto simp: draw_next_def)
next
  case False
  then have "2 \<le> unat (id_count r)"
    by (simp add: u64_eq_iff)
  with assms have le: "unat (entity_value (first_id r)) + 1 \<le> 9007199254740991"
    by (auto simp: valid_reservation_def)
  then have "unat (entity_value (first_id r) + 1) = unat (entity_value (first_id r)) + 1"
    by (subst u64_add_unat) auto
  with le have "valid_entity_id (EntityId (entity_value (first_id r) + 1))"
    by (simp add: valid_entity_id_def)
  with False show ?thesis
    by (auto simp: draw_next_def entity_id_create_Inr try_then_Inr_iff)
qed

lemma draw_next_exists:
  assumes "valid_reservation r" and "id_count r \<noteq> 0"
  shows "\<exists>r'. draw_next r = Inr (first_id r, r')"
  using assms by (simp add: draw_next_cases)

text \<open>What one successful draw does, read as natural numbers.\<close>

lemma draw_next_step:
  assumes v: "valid_reservation r" and d: "draw_next r = Inr (e, r')"
  shows "valid_reservation r'" and "e = first_id r" and "id_count r \<noteq> 0"
    and "unat (id_count r') = unat (id_count r) - 1"
    and "id_count r' \<noteq> 0 \<Longrightarrow>
      unat (entity_value (first_id r')) = Suc (unat (entity_value (first_id r)))"
proof -
  show nz: "id_count r \<noteq> 0" and e: "e = first_id r"
    using d by (auto simp: draw_next_cases [OF v] split: if_splits)
  show "unat (id_count r') = unat (id_count r) - 1"
    using d nz by (auto simp: draw_next_cases [OF v] reservation_none_def u64_sub_unat u64_order
        split: if_splits)
  show "valid_reservation r' " and "id_count r' \<noteq> 0 \<Longrightarrow>
      unat (entity_value (first_id r')) = Suc (unat (entity_value (first_id r)))"
  proof -
    have "valid_reservation r' \<and> (id_count r' \<noteq> 0 \<longrightarrow>
      unat (entity_value (first_id r')) = Suc (unat (entity_value (first_id r))))"
    proof (cases "id_count r = 1")
      case True
      with d nz show ?thesis
        by (auto simp: draw_next_cases [OF v] reservation_none_def [symmetric])
          (simp add: reservation_none_def)
    next
      case False
      with nz have two: "2 \<le> unat (id_count r)" by (simp add: u64_eq_iff)
      have up: "unat (entity_value (first_id r) + 1) = Suc (unat (entity_value (first_id r)))"
        using v two by (subst u64_add_unat) (auto simp: valid_reservation_def)
      have down: "unat (id_count r - 1) = unat (id_count r) - 1"
        using two by (simp add: u64_sub_unat word_le_nat_alt)
      have r': "r' = \<lparr>first_id = EntityId (entity_value (first_id r) + 1), id_count = id_count r - 1\<rparr>"
        using d False nz by (auto simp: draw_next_cases [OF v])
      have "id_count r - 1 \<noteq> 0" using two down by (auto simp: u64_eq_iff)
      with v two show ?thesis
        unfolding r' by (auto simp: valid_reservation_def valid_entity_id_def up down)
    qed
    then show "valid_reservation r'" and "id_count r' \<noteq> 0 \<Longrightarrow>
      unat (entity_value (first_id r')) = Suc (unat (entity_value (first_id r)))" by auto
  qed
qed

section \<open>Drawing a block to exhaustion\<close>

fun draws :: "nat \<Rightarrow> reservation \<Rightarrow> (entity_id list \<times> reservation) result" where
  "draws 0 r = Inr ([], r)"
| "draws (Suc n) r =
     try_then (draw_next r) (\<lambda>(e, r').
       try_then (draws n r') (\<lambda>(es, r''). Inr (e # es, r'')))"

text \<open>The ids \<open>[first, first + n)\<close>, as values of the class.\<close>

definition id_block :: "nat \<Rightarrow> nat \<Rightarrow> entity_id list" where
  "id_block first n = map (\<lambda>k. EntityId (word_of_nat k)) [first..<first + n]"

lemma id_block_Suc:
  "id_block first (Suc n) = EntityId (word_of_nat first) # id_block (Suc first) n"
  by (simp add: id_block_def upt_conv_Cons del: upt_Suc)

lemma id_block_mem:
  assumes "first + n \<le> 9007199254740992"
  shows "e \<in> set (id_block first n) \<longleftrightarrow>
     first \<le> unat (entity_value e) \<and> unat (entity_value e) < first + n"
proof
  assume "e \<in> set (id_block first n)"
  then obtain k where "k \<in> {first..<first + n}" and "e = EntityId (word_of_nat k)"
    by (auto simp: id_block_def)
  with assms show "first \<le> unat (entity_value e) \<and> unat (entity_value e) < first + n"
    by (simp add: u64_of_nat_unat)
next
  assume "first \<le> unat (entity_value e) \<and> unat (entity_value e) < first + n"
  then show "e \<in> set (id_block first n)"
    by (auto simp: id_block_def image_iff intro!: bexI [of _ "unat (entity_value e)"])
qed

lemma id_block_ascending:
  assumes "first + n \<le> 9007199254740992"
  shows "ascending (id_block first n)"
  using assms
proof (induction n arbitrary: first)
  case 0
  then show ?case by (simp add: id_block_def)
next
  case (Suc n)
  have "\<forall>e\<in>set (id_block (Suc first) n). Suc first \<le> unat (entity_value e)"
    using Suc.prems by (auto simp: id_block_mem)
  moreover have "unat (word_of_nat first :: u64) = first"
    using Suc.prems by (simp add: u64_of_nat_unat)
  ultimately have "\<forall>e\<in>set (id_block (Suc first) n). EntityId (word_of_nat first) < e"
    by (auto simp: less_entity_id_def word_less_nat_alt)
  moreover have "ascending (id_block (Suc first) n)"
    using Suc.prems by (intro Suc.IH) simp
  ultimately show ?case by (simp add: id_block_Suc)
qed

lemma draws_within:
  assumes "valid_reservation r" and "n \<le> unat (id_count r)"
  shows "\<exists>r'. draws n r = Inr (id_block (unat (entity_value (first_id r))) n, r') \<and>
    valid_reservation r' \<and> unat (id_count r') = unat (id_count r) - n"
  using assms
proof (induction n arbitrary: r)
  case 0
  then show ?case by (simp add: id_block_def)
next
  case (Suc n)
  then have nz: "id_count r \<noteq> 0" by auto
  then obtain r1 where d: "draw_next r = Inr (first_id r, r1)"
    using draw_next_exists [OF Suc.prems(1)] by blast
  note s = draw_next_step [OF Suc.prems(1) d]
  from Suc.prems(2) s(4) have "n \<le> unat (id_count r1)" by simp
  from Suc.IH [OF s(1) this] obtain r2
    where ih: "draws n r1 = Inr (id_block (unat (entity_value (first_id r1))) n, r2)"
      "valid_reservation r2" "unat (id_count r2) = unat (id_count r1) - n" by blast
  have "id_block (unat (entity_value (first_id r1))) n
      = id_block (Suc (unat (entity_value (first_id r)))) n"
  proof (cases n)
    case 0
    then show ?thesis by (simp add: id_block_def)
  next
    case (Suc m)
    with \<open>n \<le> unat (id_count r1)\<close> have "id_count r1 \<noteq> 0" by auto
    with s(5) show ?thesis by simp
  qed
  with d ih s(4) show ?case
    by (simp add: id_block_Suc)
qed

lemma draws_exhausted:
  assumes "valid_reservation r" and "unat (id_count r) < n"
  shows "draws n r =
    Inl (SimError kEntityIdReservationExhausted ''entity_id_reservation.draw_next'')"
  using assms
proof (induction n arbitrary: r)
  case 0
  then show ?case by simp
next
  case (Suc n)
  show ?case
  proof (cases "id_count r = 0")
    case True
    then show ?thesis by (simp add: draw_next_def)
  next
    case False
    then obtain r1 where d: "draw_next r = Inr (first_id r, r1)"
      using draw_next_exists [OF Suc.prems(1)] by blast
    note s = draw_next_step [OF Suc.prems(1) d]
    have "1 \<le> unat (id_count r)" using False by (simp add: u64_eq_iff)
    with Suc.prems(2) s(4) have "unat (id_count r1) < n" by simp
    with Suc.IH [OF s(1)] d show ?thesis by simp
  qed
qed

text \<open>A draw is a request to an id source whose floor is the next id to issue; a spent block has no
  next id, so its floor is past every id.\<close>

definition draw_one :: "unit \<Rightarrow> reservation \<Rightarrow> (entity_id list \<times> reservation) result" where
  "draw_one u r = try_then (draw_next r) (\<lambda>(e, r'). Inr ([e], r'))"

definition reservation_floor :: "reservation \<Rightarrow> nat" where
  "reservation_floor r =
     (if id_count r = 0 then 9007199254740992 else unat (entity_value (first_id r)))"

interpretation reservation_ids: fresh_id_source draw_one reservation_floor valid_reservation
proof
  fix r u es r'
  assume v: "valid_reservation r" and i: "draw_one u r = Inr (es, r')"
  then obtain e where d: "draw_next r = Inr (e, r')" and es: "es = [e]"
    by (auto simp: draw_one_def try_then_Inr_iff)
  note s = draw_next_step [OF v d]
  have top: "unat (entity_value (first_id r)) < 9007199254740992"
    using v by (simp add: valid_reservation_def valid_entity_id_def)
  show "valid_reservation r'" by (rule s)
  show "ascending es" by (simp add: es)
  show "reservation_floor r \<le> reservation_floor r'"
    using s(3,5) top by (auto simp: reservation_floor_def)
  fix e'
  assume "e' \<in> set es"
  with es s(2) have "e' = first_id r" by simp
  with s(3,5) top show "reservation_floor r \<le> unat (entity_value e')"
    and "unat (entity_value e') < reservation_floor r'"
    by (auto simp: reservation_floor_def)
qed

section \<open>What a reservation promises\<close>

text \<open>
  a tick's reservation issues exactly its block. From a reservation created for \<open>n\<close> ids at
  \<open>first\<close>, any number \<open>k\<close> of draws up to \<open>n\<close> succeeds and yields \<open>first\<close>, \<open>first + 1\<close>, ... in
  that order, all different; the draw after the last one fails with the exhausted error, and so does
  every longer run.
\<close>

theorem reservation_draws_exactly_its_block:
  assumes "valid_entity_id first" and "reservation_create first n = Inr r"
  shows "if k \<le> unat n
    then \<exists>r'. draws k r = Inr (id_block (unat (entity_value first)) k, r') \<and>
      ascending (id_block (unat (entity_value first)) k)
    else draws k r = Inl (SimError kEntityIdReservationExhausted ''entity_id_reservation.draw_next'')"
proof -
  have v: "valid_reservation r" by (rule reservation_create_valid [OF assms])
  have r: "n = 0 \<and> r = reservation_none \<or> n \<noteq> 0 \<and> r = \<lparr>first_id = first, id_count = n\<rparr>"
    using assms(2) by (auto simp: reservation_create_total [OF assms(1)] split: if_splits)
  then have n: "unat (id_count r) = unat n" by (auto simp: reservation_none_def)
  show ?thesis
  proof (cases "k \<le> unat n")
    case False
    then show ?thesis using draws_exhausted [OF v, of k] n by simp
  next
    case True
    with n obtain r' where d: "draws k r = Inr (id_block (unat (entity_value (first_id r))) k, r')"
      using draws_within [OF v, of k] by auto
    have block: "id_block (unat (entity_value (first_id r))) k = id_block (unat (entity_value first)) k"
      using r True by (auto simp: id_block_def)
    have "unat (entity_value first) + k \<le> 9007199254740992"
    proof (cases "n = 0")
      case True
      with \<open>k \<le> unat n\<close> assms(1) show ?thesis by (simp add: valid_entity_id_def)
    next
      case False
      with r v True show ?thesis by (auto simp: valid_reservation_def)
    qed
    with d block True show ?thesis by (simp add: id_block_ascending)
  qed
qed

theorem reservation_draws_exactly_its_block_witness:
  "\<exists>r'. draws 2 \<lparr>first_id = EntityId 41, id_count = 2\<rparr> = Inr ([EntityId 41, EntityId 42], r')"
proof -
  have v: "valid_entity_id (EntityId 41)" by (simp add: valid_entity_id_def)
  have "reservation_create (EntityId 41) 2 = Inr \<lparr>first_id = EntityId 41, id_count = 2\<rparr>"
    by (simp add: reservation_create_total [OF v])
  from reservation_draws_exactly_its_block [OF v this, of 2] show ?thesis
    by (simp add: id_block_def upt_rec)
qed

end
