(* ===== verification/Entity_Id_Allocator.thy ===== *)
theory Entity_Id_Allocator
  imports Reservation
begin

text \<open>
  The monotonic issuer of entity ids of one timeline (src/src/runtime/entity_id_allocator). Its state
  is the cursor; the worker reserves one block per tick, the cursor advances by the width of the
  block whether or not the tick uses it, and the production factory opens the cursor above
  everything the committed world already holds. The atomics of the class order one writer and its
  readers and are not modelled: the model is the sequence of the writer's calls.
\<close>

definition kSystemCreatedEntityHeadroom :: u64 where
  "kSystemCreatedEntityHeadroom = 1"

record allocator =
  first_issuable :: u64
  next_entity_id :: u64

definition allocator_create :: "entity_id \<Rightarrow> allocator" where
  "allocator_create first =
     \<lparr>first_issuable = entity_value first, next_entity_id = entity_value first\<rparr>"

text \<open>\<open>static_bodies\<close> is the map's static body count, \<open>committed\<close> the ids of the committed
  snapshot in ascending order.\<close>

definition above_committed_state :: "u64 \<Rightarrow> entity_id list \<Rightarrow> allocator result" where
  "above_committed_state static_bodies committed =
     (let floor0 = kMinimumEntityId + static_bodies;
          floor1 = (if committed = [] then floor0
                    else max floor0 (entity_value (last committed) + 1))
      in try_then (entity_id_create floor1) (\<lambda>first. Inr (allocator_create first)))"

definition reserve_for_tick :: "u64 \<Rightarrow> allocator \<Rightarrow> (reservation \<times> allocator) result" where
  "reserve_for_tick spawn_count a =
     (let cursor = next_entity_id a;
          width = spawn_count + kSystemCreatedEntityHeadroom
      in try_then (entity_id_create cursor) (\<lambda>first.
           try_then (reservation_create first width) (\<lambda>r.
             Inr (r, a\<lparr>next_entity_id := cursor + width\<rparr>))))"

text \<open>The reader's accessor constructs an id from the cursor, so it fails once the cursor has moved
  past the last id. (The C++ accessor is \<open>noexcept\<close>: there the failure ends the process.)\<close>

definition next_entity_id_of :: "allocator \<Rightarrow> entity_id result" where
  "next_entity_id_of a = entity_id_create (next_entity_id a)"

definition reserved_entity_id_count :: "allocator \<Rightarrow> u64" where
  "reserved_entity_id_count a = next_entity_id a - first_issuable a"

definition valid_allocator :: "allocator \<Rightarrow> bool" where
  "valid_allocator a \<longleftrightarrow> 1 \<le> unat (first_issuable a) \<and> first_issuable a \<le> next_entity_id a \<and>
     unat (next_entity_id a) \<le> 9007199254740992"

lemma allocator_create_valid:
  "valid_entity_id first \<Longrightarrow> valid_allocator (allocator_create first)"
  by (simp add: valid_allocator_def allocator_create_def valid_entity_id_def)

text \<open>One reservation in natural numbers: the block is exactly \<open>[cursor, cursor + spawns + 1)\<close>.\<close>

lemma reserve_for_tick_step:
  assumes v: "valid_allocator a" and s: "unat spawns < 18446744073709551615"
    and r: "reserve_for_tick spawns a = Inr (r, a')"
  shows "valid_allocator a'" and "valid_reservation r"
    and "first_id r = EntityId (next_entity_id a)" and "unat (id_count r) = Suc (unat spawns)"
    and "unat (next_entity_id a') = unat (next_entity_id a) + unat (id_count r)"
    and "first_issuable a' = first_issuable a"
proof -
  have w: "unat (spawns + kSystemCreatedEntityHeadroom) = Suc (unat spawns)"
    using s by (subst u64_add_unat) (simp_all add: kSystemCreatedEntityHeadroom_def)
  then have nz: "spawns + kSystemCreatedEntityHeadroom \<noteq> 0"
    by (metis nat.distinct(1) unsigned_0)
  from r have first: "valid_entity_id (EntityId (next_entity_id a))"
    and create: "reservation_create (EntityId (next_entity_id a))
        (spawns + kSystemCreatedEntityHeadroom) = Inr r"
    and a': "a' = a\<lparr>next_entity_id := next_entity_id a + (spawns + kSystemCreatedEntityHeadroom)\<rparr>"
    by (auto simp: reserve_for_tick_def Let_def try_then_Inr_iff entity_id_create_Inr)
  from create nz w have rr: "r = \<lparr>first_id = EntityId (next_entity_id a),
      id_count = spawns + kSystemCreatedEntityHeadroom\<rparr>"
    and top: "unat (next_entity_id a) + Suc (unat spawns) \<le> 9007199254740992"
    by (auto simp: reservation_create_total [OF first] split: if_splits)
  show "valid_reservation r" by (rule reservation_create_valid [OF first create])
  show "first_id r = EntityId (next_entity_id a)" and "unat (id_count r) = Suc (unat spawns)"
    using w by (simp_all add: rr)
  have up: "unat (next_entity_id a + (spawns + kSystemCreatedEntityHeadroom))
      = unat (next_entity_id a) + Suc (unat spawns)"
    using top w by (subst u64_add_unat) simp_all
  then show "unat (next_entity_id a') = unat (next_entity_id a) + unat (id_count r)"
    using w by (simp add: a' rr)
  show "first_issuable a' = first_issuable a" by (simp add: a')
  show "valid_allocator a'"
    using v up top by (auto simp: valid_allocator_def a' word_le_nat_alt)
qed

section \<open>The allocator as a source of fresh ids\<close>

definition block_ids :: "reservation \<Rightarrow> entity_id list" where
  "block_ids r = id_block (unat (entity_value (first_id r))) (unat (id_count r))"

text \<open>A tick's spawn count is at most a full mailbox, 2048 commands (runtime_limits.hpp).\<close>

definition kMaximumMailboxCommandCount :: nat where
  "kMaximumMailboxCommandCount = 2048"

definition reserve_block :: "u64 \<Rightarrow> allocator \<Rightarrow> (entity_id list \<times> allocator) result" where
  "reserve_block spawns a =
     (if unat spawns \<le> kMaximumMailboxCommandCount
      then try_then (reserve_for_tick spawns a) (\<lambda>(r, a'). Inr (block_ids r, a'))
      else Inl (SimError kEntityIdReservationLimitExceeded ''entity_id_reservation.count''))"

interpretation allocator_ids:
  fresh_id_source reserve_block "\<lambda>a. unat (next_entity_id a)" valid_allocator
proof
  fix a s es a'
  assume v: "valid_allocator a" and i: "reserve_block s a = Inr (es, a')"
  then obtain r where r: "reserve_for_tick s a = Inr (r, a')" and es: "es = block_ids r"
    and s: "unat s \<le> 2048"
    by (auto simp: reserve_block_def kMaximumMailboxCommandCount_def try_then_Inr_iff
        split: if_splits)
  note f = reserve_for_tick_step [OF v _ r]
  from s have lt: "unat s < 18446744073709551615" by simp
  have range: "unat (entity_value (first_id r)) + unat (id_count r) \<le> 9007199254740992"
    using f(2) [OF lt] by (simp add: valid_reservation_def)
  show "valid_allocator a'" by (rule f(1) [OF lt])
  show "ascending es" by (simp add: es block_ids_def id_block_ascending [OF range])
  show "unat (next_entity_id a) \<le> unat (next_entity_id a')" using f(5) [OF lt] by simp
  fix e
  assume "e \<in> set es"
  then have "unat (entity_value (first_id r)) \<le> unat (entity_value e)"
    and "unat (entity_value e) < unat (entity_value (first_id r)) + unat (id_count r)"
    using range by (simp_all add: es block_ids_def id_block_mem)
  with f(3,5) [OF lt] show "unat (next_entity_id a) \<le> unat (entity_value e)"
    and "unat (entity_value e) < unat (next_entity_id a')" by simp_all
qed

text \<open>The production factory opens above every committed id and above the static-body block.\<close>

lemma above_committed_state_floor:
  assumes a: "above_committed_state static_bodies committed = Inr a"
    and s: "unat static_bodies \<le> 4096" and asc: "ascending committed"
    and v: "\<forall>e\<in>set committed. valid_entity_id e"
  shows "valid_allocator a" and "unat static_bodies < unat (next_entity_id a)"
    and "\<forall>e\<in>set committed. unat (entity_value e) < unat (next_entity_id a)"
proof -
  define f where "f = (if committed = [] then kMinimumEntityId + static_bodies
      else max (kMinimumEntityId + static_bodies) (entity_value (last committed) + 1))"
  from a have first: "valid_entity_id (EntityId f)" and a: "a = allocator_create (EntityId f)"
    by (auto simp: above_committed_state_def Let_def f_def try_then_Inr_iff entity_id_create_Inr)
  have base: "unat (kMinimumEntityId + static_bodies) = Suc (unat static_bodies)"
    using s by (subst u64_add_unat) simp_all
  have cases: "kMinimumEntityId + static_bodies \<le> f"
    and above: "committed \<noteq> [] \<Longrightarrow> entity_value (last committed) + 1 \<le> f"
    by (auto simp: f_def)
  show "valid_allocator a" unfolding a by (rule allocator_create_valid [OF first])
  show "unat static_bodies < unat (next_entity_id a)"
    using cases base by (simp add: a allocator_create_def word_le_nat_alt)
  show "\<forall>e\<in>set committed. unat (entity_value e) < unat (next_entity_id a)"
  proof
    fix e
    assume e: "e \<in> set committed"
    then have ne: "committed \<noteq> []" by auto
    have "e \<le> last committed"
      using asc e by (rule ascending_le_last)
    moreover have "unat (entity_value (last committed) + 1) = Suc (unat (entity_value (last committed)))"
      using v ne by (subst u64_add_unat) (auto simp: valid_entity_id_def dest!: bspec [OF _ last_in_set])
    ultimately show "unat (entity_value e) < unat (next_entity_id a)"
      using above [OF ne] by (simp add: a allocator_create_def less_eq_entity_id_def word_le_nat_alt)
  qed
qed

section \<open>What the allocator promises\<close>

text \<open>
  no entity id is ever issued twice. Starting from the allocator that the server opens above the
  committed state, every sequence of ticks, of whatever spawn counts, reserves ids in strictly
  ascending order over the whole run, none of them the id of a committed entity or of the map's
  static-body block.
\<close>

theorem allocator_never_reissues:
  assumes "above_committed_state static_bodies committed = Inr a"
    and "unat static_bodies \<le> 4096" and "ascending committed"
    and "\<forall>e\<in>set committed. valid_entity_id e"
    and "issue_all reserve_block spawns a = Inr (es, a')"
  shows "ascending es \<and> distinct es \<and> set es \<inter> set committed = {} \<and>
    (\<forall>e\<in>set es. unat static_bodies < unat (entity_value e))"
proof -
  note opened = above_committed_state_floor [OF assms(1-4)]
  note run = allocator_ids.run_facts [OF opened(1) assms(5)]
  have "distinct es" by (rule allocator_ids.run_never_reissues [OF opened(1) assms(5)])
  with run opened show ?thesis by fastforce
qed

theorem allocator_never_reissues_witness:
  "\<exists>es a'. issue_all reserve_block [0, 1]
      \<lparr>first_issuable = 10, next_entity_id = 10\<rparr> = Inr (es, a') \<and> EntityId 9 \<notin> set es"
proof -
  let ?a = "\<lparr>first_issuable = 10, next_entity_id = 10\<rparr>"
  have opened: "above_committed_state 2 [EntityId 3, EntityId 9] = Inr ?a"
    by (simp add: above_committed_state_def entity_id_create_def allocator_create_def Let_def
        kMinimumEntityId_def kMaximumEntityId_def kMaximumProtocolSafeInteger_def max_def)
  have "\<exists>es a'. issue_all reserve_block [0, 1] ?a = Inr (es, a')"
    by (simp add: reserve_block_def reserve_for_tick_def Let_def entity_id_create_def
        kMaximumMailboxCommandCount_def kMinimumEntityId_def kMaximumEntityId_def
        kMaximumProtocolSafeInteger_def kSystemCreatedEntityHeadroom_def reservation_create_def
        kMaximumEntityIdReservationCount_def)
  then obtain es a' where run: "issue_all reserve_block [0, 1] ?a = Inr (es, a')" by blast
  have "set es \<inter> set [EntityId 3, EntityId 9] = {}"
    using allocator_never_reissues [OF opened _ _ _ run]
    by (simp add: less_entity_id_def valid_entity_id_def)
  with run show ?thesis by auto
qed

end
