(* ===== verification/Component_Store.thy ===== *)
theory Component_Store
  imports Identity
begin

text \<open>
  The one component storage of the simulation (component_store.hpp): the entries of one kind in
  strict ascending entity-id order, with binary search, insertion at the ascending position and
  erasure. The interface \<open>entity_map\<close> states what the world, the roster and the systems rely on;
  \<open>stored\<close> is its interpretation on the code's operations.
\<close>

definition kMaximumEntityCount :: nat where
  "kMaximumEntityCount = 4096"

type_synonym 'c store = "(entity_id \<times> 'c) list"

section \<open>The interface: a bounded map keyed by entity id\<close>

locale entity_map =
  fixes empty :: 'm
    and find :: "'m \<Rightarrow> entity_id \<Rightarrow> 'c option"
    and insert :: "entity_id \<Rightarrow> 'c \<Rightarrow> 'm \<Rightarrow> 'e + 'm"
    and erase :: "entity_id \<Rightarrow> 'm \<Rightarrow> 'm"
    and ids :: "'m \<Rightarrow> entity_id list"
    and invar :: "'m \<Rightarrow> bool"
  assumes find_empty: "find empty e = None"
    and invar_empty: "invar empty"
    and ids_ascending: "invar m \<Longrightarrow> ascending (ids m)"
    and ids_find: "invar m \<Longrightarrow> e \<in> set (ids m) \<longleftrightarrow> find m e \<noteq> None"
    and invar_insert: "invar m \<Longrightarrow> insert e c m = Inr m' \<Longrightarrow> invar m'"
    and find_insert: "invar m \<Longrightarrow> insert e c m = Inr m' \<Longrightarrow>
          find m' x = (if x = e then Some c else find m x)"
    and insert_total: "invar m \<Longrightarrow> find m e \<noteq> None \<Longrightarrow> \<exists>m'. insert e c m = Inr m'"
    and invar_erase: "invar m \<Longrightarrow> invar (erase e m)"
    and find_erase: "invar m \<Longrightarrow> find (erase e m) x = (if x = e then None else find m x)"
begin

lemma ids_erase: "invar m \<Longrightarrow> ids (erase e m) = filter (\<lambda>x. x \<noteq> e) (ids m)"
  by (rule ascending_eqI)
    (auto simp: ids_ascending invar_erase ids_find find_erase sorted_wrt_filter split: if_splits)

lemma erase_absent: "invar m \<Longrightarrow> find m e = None \<Longrightarrow> find (erase e m) = find m"
  by (auto simp: find_erase)

text \<open>Destroying several entities, one after the other, as the despawn sweep does.\<close>

lemma invar_erase_many: "invar m \<Longrightarrow> invar (fold erase es m)"
  by (induction es arbitrary: m) (auto simp: invar_erase)

lemma find_erase_many:
  "invar m \<Longrightarrow> find (fold erase es m) x = (if x \<in> set es then None else find m x)"
  by (induction es arbitrary: m) (auto simp: invar_erase find_erase)

lemma erase_commute: "invar m \<Longrightarrow> find (erase a (erase b m)) = find (erase b (erase a m))"
  by (auto simp: find_erase invar_erase)

lemma insert_then_erase:
  "invar m \<Longrightarrow> insert e c m = Inr m' \<Longrightarrow> find m e = None \<Longrightarrow> find (erase e m') = find m"
  by (rule ext) (simp add: find_erase find_insert invar_insert)

end

section \<open>The operations\<close>

abbreviation store_ids :: "'c store \<Rightarrow> entity_id list" where
  "store_ids s \<equiv> map fst s"

text \<open>Well-formed: strictly ascending ids and no more entries than entity slots.\<close>

definition valid_store :: "'c store \<Rightarrow> bool" where
  "valid_store s \<longleftrightarrow> ascending (store_ids s) \<and> length s \<le> kMaximumEntityCount"

text \<open>The sort of the code is not stable; two entries that compare equal have one id, and the
  duplicate check that follows refuses them in either order.\<close>

definition store_create :: "'c store \<Rightarrow> 'c store result" where
  "store_create entries =
     (if length entries > kMaximumEntityCount
      then Inl (SimError kComponentStoreLimitExceeded ''component_store.entries'')
      else let sorted_entries = sort_key fst entries in
        if distinct (store_ids sorted_entries) then Inr sorted_entries
        else Inl (SimError kComponentStoreDuplicateEntityId ''component_store.entries.entity_id''))"

text \<open>\<open>std::lower_bound\<close>: the position of the first entry whose id is not below the searched one.\<close>

definition store_lower_bound :: "'c store \<Rightarrow> entity_id \<Rightarrow> nat" where
  "store_lower_bound s e = length (takeWhile (\<lambda>entry. fst entry < e) s)"

definition store_find :: "'c store \<Rightarrow> entity_id \<Rightarrow> 'c option" where
  "store_find s e =
     (case drop (store_lower_bound s e) s of
        [] \<Rightarrow> None
      | (found, c) # _ \<Rightarrow> if found \<noteq> e then None else Some c)"

definition insert_or_assign :: "entity_id \<Rightarrow> 'c \<Rightarrow> 'c store \<Rightarrow> 'c store result" where
  "insert_or_assign e c s =
     (let i = store_lower_bound s e in
      if i < length s \<and> fst (s ! i) = e then Inr (s[i := (e, c)])
      else if length s \<ge> kMaximumEntityCount
      then Inl (SimError kComponentStoreLimitExceeded ''component_store.entries'')
      else Inr (take i s @ (e, c) # drop i s))"

definition store_erase :: "entity_id \<Rightarrow> 'c store \<Rightarrow> 'c store" where
  "store_erase e s =
     (let i = store_lower_bound s e in
      if i < length s \<and> fst (s ! i) = e then take i s @ drop (Suc i) s else s)"

text \<open>\<open>mutable_values\<close>: only the value half of an entry can be rewritten.\<close>

definition store_map_values :: "('c \<Rightarrow> 'c) \<Rightarrow> 'c store \<Rightarrow> 'c store" where
  "store_map_values f s = map (\<lambda>(e, c). (e, f c)) s"

text \<open>\<open>mutable_find\<close> followed by a write through the returned pointer.\<close>

definition store_modify :: "entity_id \<Rightarrow> ('c \<Rightarrow> 'c) \<Rightarrow> 'c store \<Rightarrow> 'c store" where
  "store_modify e f s =
     (let i = store_lower_bound s e in
      if i < length s \<and> fst (s ! i) = e then s[i := (e, f (snd (s ! i)))] else s)"

section \<open>A store seen through its first entry\<close>

lemma store_lower_bound_Cons:
  "store_lower_bound ((x, c) # s) e = (if x < e then Suc (store_lower_bound s e) else 0)"
  by (simp add: store_lower_bound_def)

lemma store_find_Nil [simp]: "store_find [] e = None"
  by (simp add: store_find_def)

lemma store_find_Cons:
  "store_find ((x, c) # s) e = (if x < e then store_find s e else if x = e then Some c else None)"
  by (auto simp: store_find_def store_lower_bound_Cons)

lemma store_erase_Nil [simp]: "store_erase e [] = []"
  by (simp add: store_erase_def)

lemma store_erase_Cons:
  "store_erase e ((x, c) # s) =
     (if x < e then (x, c) # store_erase e s else if x = e then s else (x, c) # s)"
  by (auto simp: store_erase_def store_lower_bound_Cons Let_def)

lemma store_modify_Nil [simp]: "store_modify e f [] = []"
  by (simp add: store_modify_def)

lemma store_modify_Cons:
  "store_modify e f ((x, c) # s) =
     (if x < e then (x, c) # store_modify e f s else if x = e then (x, f c) # s else (x, c) # s)"
  by (auto simp: store_modify_def store_lower_bound_Cons Let_def)

text \<open>The body of \<open>insert_or_assign\<close> without its capacity check.\<close>

fun put_entry :: "entity_id \<Rightarrow> 'c \<Rightarrow> 'c store \<Rightarrow> 'c store" where
  "put_entry e c [] = [(e, c)]"
| "put_entry e c ((x, d) # s) =
     (if x < e then (x, d) # put_entry e c s else if x = e then (e, c) # s else (e, c) # (x, d) # s)"

lemma put_entry_lower_bound:
  "put_entry e c s =
     (let i = store_lower_bound s e in
      if i < length s \<and> fst (s ! i) = e then s[i := (e, c)] else take i s @ (e, c) # drop i s)"
proof (induction s)
  case Nil
  show ?case by (simp add: store_lower_bound_def)
next
  case (Cons p s)
  obtain x d where p: "p = (x, d)" by (cases p)
  show ?case
    using Cons by (auto simp: p store_lower_bound_Cons Let_def)
qed

lemma ids_put_entry: "set (store_ids (put_entry e c s)) = insert e (set (store_ids s))"
  by (induction e c s rule: put_entry.induct) auto

lemma ascending_put_entry: "ascending (store_ids s) \<Longrightarrow> ascending (store_ids (put_entry e c s))"
proof (induction e c s rule: put_entry.induct)
  case (1 e c)
  show ?case by simp
next
  case (2 e c x d s)
  have "\<forall>y\<in>set (store_ids (put_entry e c s)). x < e \<longrightarrow> x < y"
    using 2 by (simp only: ids_put_entry) auto
  with 2 show ?case by fastforce
qed

lemma length_put_entry:
  "length (put_entry e c s) = (if store_find s e = None then Suc (length s) else length s)
   \<or> \<not> ascending (store_ids s)"
  by (induction e c s rule: put_entry.induct) (auto simp: store_find_Cons)

lemma find_put_entry:
  "ascending (store_ids s) \<Longrightarrow>
   store_find (put_entry e c s) x = (if x = e then Some c else store_find s x)"
  by (induction e c s rule: put_entry.induct) (auto simp: store_find_Cons)

lemma store_find_map_of: "ascending (store_ids s) \<Longrightarrow> store_find s e = map_of s e"
proof (induction s)
  case Nil
  then show ?case by simp
next
  case (Cons p s)
  obtain x c where p: "p = (x, c)" by (cases p)
  have "x > e \<Longrightarrow> map_of s e = None"
    using Cons.prems p by (force simp: map_of_eq_None_iff)
  with Cons p show ?case by (auto simp: store_find_Cons)
qed

lemma store_find_mem:
  "ascending (store_ids s) \<Longrightarrow> store_find s e \<noteq> None \<longleftrightarrow> e \<in> set (store_ids s)"
  by (simp add: store_find_map_of map_of_eq_None_iff)

lemma insert_or_assign_put_entry:
  "insert_or_assign e c s =
     (if ascending (store_ids s) \<and> store_find s e = None \<and> length s \<ge> kMaximumEntityCount
      then Inl (SimError kComponentStoreLimitExceeded ''component_store.entries'')
      else if ascending (store_ids s) then Inr (put_entry e c s)
      else insert_or_assign e c s)"
proof -
  define i where "i = store_lower_bound s e"
  have "store_find s e = None \<longleftrightarrow> \<not> (i < length s \<and> fst (s ! i) = e)"
  proof (cases "i < length s")
    case True
    then have "drop i s = s ! i # drop (Suc i) s" by (simp add: Cons_nth_drop_Suc)
    with True show ?thesis by (auto simp: store_find_def i_def [symmetric] split: prod.splits)
  next
    case False
    then show ?thesis by (simp add: store_find_def i_def [symmetric])
  qed
  then show ?thesis
    by (auto simp: insert_or_assign_def put_entry_lower_bound Let_def i_def)
qed

lemma insert_or_assign_valid:
  assumes "valid_store s"
  shows "insert_or_assign e c s =
     (if store_find s e = None \<and> length s = kMaximumEntityCount
      then Inl (SimError kComponentStoreLimitExceeded ''component_store.entries'')
      else Inr (put_entry e c s))"
  using assms by (subst insert_or_assign_put_entry) (auto simp: valid_store_def)

lemma ids_store_erase:
  "ascending (store_ids s) \<Longrightarrow> store_erase e s = filter (\<lambda>p. fst p \<noteq> e) s"
proof (induction s)
  case Nil
  then show ?case by simp
next
  case (Cons p s)
  obtain x c where p: "p = (x, c)" by (cases p)
  have "x \<ge> e \<Longrightarrow> filter (\<lambda>q. fst q \<noteq> e) s = s"
    using Cons.prems p by (force simp: filter_id_conv)
  with Cons p show ?case by (auto simp: store_erase_Cons)
qed

lemma find_store_erase:
  "ascending (store_ids s) \<Longrightarrow>
   store_find (store_erase e s) x = (if x = e then None else store_find s x)"
proof (induction s)
  case Nil
  then show ?case by simp
next
  case (Cons p s)
  obtain y c where p: "p = (y, c)" by (cases p)
  have "y = x \<Longrightarrow> store_find s x = None"
    using Cons.prems p store_find_mem [of s x] by auto
  moreover have "y > x \<Longrightarrow> store_find s x = None"
    using Cons.prems p store_find_mem [of s x] by fastforce
  ultimately show ?case
    using Cons p by (auto simp: store_erase_Cons store_find_Cons)
qed

interpretation stored: entity_map "[]" store_find insert_or_assign store_erase store_ids valid_store
proof
  fix s s' :: "'a store" and e x :: entity_id and c :: 'a
  show "store_find [] e = None" by simp
  show "valid_store []" by (simp add: valid_store_def)
  assume v: "valid_store s"
  then have asc: "ascending (store_ids s)" by (simp add: valid_store_def)
  show "ascending (store_ids s)" by (rule asc)
  show "e \<in> set (store_ids s) \<longleftrightarrow> store_find s e \<noteq> None"
    by (simp only: store_find_mem [OF asc])
  show "store_find s e \<noteq> None \<Longrightarrow> \<exists>s'. insert_or_assign e c s = Inr s'"
    by (simp add: insert_or_assign_valid [OF v])
  show "valid_store (store_erase e s)"
    using v by (auto simp: valid_store_def ids_store_erase [OF asc] ascending_map_filter
        intro: order.trans [OF length_filter_le])
  show "store_find (store_erase e s) x = (if x = e then None else store_find s x)"
    by (rule find_store_erase [OF asc])
  assume i: "insert_or_assign e c s = Inr s'"
  show "store_find s' x = (if x = e then Some c else store_find s x)"
    using i asc by (auto simp: insert_or_assign_valid [OF v] find_put_entry split: if_splits)
  show "valid_store s'"
    using i v asc length_put_entry [of e c s]
    by (auto simp: insert_or_assign_valid [OF v] valid_store_def ascending_put_entry split: if_splits)
qed

section \<open>What a store promises\<close>

text \<open>
  C21: a component store is a bounded finite map. On a well-formed store, inserting or assigning
  fails exactly when the id is new and all 4096 slots are taken, and otherwise gives a well-formed
  store whose lookup is the old one updated at that id; erasing gives a well-formed store whose
  lookup is the old one without that id; and the entries, read in order, are exactly the ids the
  lookup knows, strictly ascending.
\<close>

theorem store_refines_bounded_map:
  assumes "valid_store s"
  shows "(case insert_or_assign e c s of
      Inl err \<Rightarrow> store_find s e = None \<and> length s = kMaximumEntityCount
    | Inr s' \<Rightarrow> \<not> (store_find s e = None \<and> length s = kMaximumEntityCount) \<and>
        valid_store s' \<and> store_find s' = (store_find s)(e \<mapsto> c)) \<and>
    valid_store (store_erase e s) \<and> store_find (store_erase e s) = (store_find s)(e := None) \<and>
    set (store_ids s) = dom (store_find s) \<and> ascending (store_ids s)"
proof -
  have erase: "store_find (store_erase e s) = (store_find s)(e := None)"
    using stored.find_erase [OF assms] by (auto simp: fun_eq_iff)
  have ids: "set (store_ids s) = dom (store_find s)"
    using stored.ids_find [OF assms] by auto
  have insert: "case insert_or_assign e c s of
      Inl err \<Rightarrow> store_find s e = None \<and> length s = kMaximumEntityCount
    | Inr s' \<Rightarrow> \<not> (store_find s e = None \<and> length s = kMaximumEntityCount) \<and>
        valid_store s' \<and> store_find s' = (store_find s)(e \<mapsto> c)"
  proof (cases "insert_or_assign e c s")
    case (Inl err)
    then show ?thesis by (auto simp: insert_or_assign_valid [OF assms] split: if_splits)
  next
    case (Inr s')
    then show ?thesis
      using stored.invar_insert [OF assms Inr] stored.find_insert [OF assms Inr]
      by (auto simp: insert_or_assign_valid [OF assms] fun_eq_iff split: if_splits)
  qed
  show ?thesis
    using insert erase ids stored.invar_erase [OF assms] stored.ids_ascending [OF assms] by blast
qed

theorem store_refines_bounded_map_witness:
  "store_find (store_erase (EntityId 4) [(EntityId 1, True), (EntityId 4, False)]) =
     (store_find [(EntityId 1, True), (EntityId 4, False)])(EntityId 4 := None)"
proof -
  have "valid_store [(EntityId 1, True), (EntityId 4, False)]"
    by (simp add: valid_store_def less_entity_id_def kMaximumEntityCount_def)
  from store_refines_bounded_map [OF this] show ?thesis by blast
qed

end
