(* ===== verification/Entity_Roster.thy ===== *)
theory Entity_Roster
  imports Component_Store
begin

text \<open>
  The two ordered merges of ascending spans that replace every hash lookup of the simulation: the
  roster of live entities as the union of the stores' ids (entity_roster.hpp) and the join of two
  stores (component_join.hpp). Each loop is the code's, with the two cursors as the two lists.
\<close>

section \<open>The roster\<close>

fun merge_ids :: "entity_id list \<Rightarrow> entity_id list \<Rightarrow> entity_id list" where
  "merge_ids [] added = added"
| "merge_ids held [] = held"
| "merge_ids (h # held) (a # added) =
     (if h < a then h # merge_ids held (a # added)
      else if a < h then a # merge_ids (h # held) added
      else h # merge_ids held added)"

text \<open>One registered kind, then all of them in registry order.\<close>

definition roster_step :: "entity_id list \<Rightarrow> entity_id list \<Rightarrow> entity_id list" where
  "roster_step entries roster =
     (if entries = [] then roster
      else if roster = [] then entries
      else merge_ids roster entries)"

definition roster_of :: "entity_id list list \<Rightarrow> entity_id list" where
  "roster_of stores = fold roster_step stores []"

definition roster_contains :: "(entity_id \<Rightarrow> bool) list \<Rightarrow> entity_id \<Rightarrow> bool" where
  "roster_contains carried e = fold (\<lambda>carries found. found \<or> carries e) carried False"

lemma set_merge_ids: "set (merge_ids xs ys) = set xs \<union> set ys"
  by (induction xs ys rule: merge_ids.induct) auto

lemma ascending_merge_ids:
  "ascending xs \<Longrightarrow> ascending ys \<Longrightarrow> ascending (merge_ids xs ys)"
proof (induction xs ys rule: merge_ids.induct)
  case (3 h held a added)
  consider "h < a" | "a < h" | "h = a" by force
  then show ?case
    using 3 by cases (auto simp: set_merge_ids not_less_iff_gr_or_eq dest: order.strict_trans)
qed simp_all

lemma roster_step_merge: "roster_step entries roster = merge_ids roster entries"
  by (cases roster; cases entries) (auto simp: roster_step_def)

lemma roster_fold:
  assumes "\<forall>ids\<in>set stores. ascending ids" and "ascending roster"
  shows "ascending (fold roster_step stores roster) \<and>
    set (fold roster_step stores roster) = set roster \<union> (\<Union>ids\<in>set stores. set ids)"
  using assms
  by (induction stores arbitrary: roster)
    (auto simp: roster_step_merge ascending_merge_ids set_merge_ids)

lemma roster_of_ascending: "\<forall>ids\<in>set stores. ascending ids \<Longrightarrow> ascending (roster_of stores)"
  using roster_fold [of stores "[]"] by (simp add: roster_of_def)

lemma set_roster_of:
  "\<forall>ids\<in>set stores. ascending ids \<Longrightarrow> set (roster_of stores) = (\<Union>ids\<in>set stores. set ids)"
  using roster_fold [of stores "[]"] by (simp add: roster_of_def)

lemma roster_contains_Bex: "roster_contains carried e \<longleftrightarrow> (\<exists>carries\<in>set carried. carries e)"
proof -
  have "fold (\<lambda>carries found. found \<or> carries e) carried found \<longleftrightarrow>
      found \<or> (\<exists>carries\<in>set carried. carries e)" for found
    by (induction carried arbitrary: found) auto
  then show ?thesis by (simp add: roster_contains_def)
qed

section \<open>The join of two stores\<close>

fun entities_with_both :: "'a store \<Rightarrow> 'b store \<Rightarrow> (entity_id \<times> 'a \<times> 'b) list" where
  "entities_with_both [] second = []"
| "entities_with_both first [] = []"
| "entities_with_both ((e, a) # first) ((f, b) # second) =
     (if e < f then entities_with_both first ((f, b) # second)
      else if f < e then entities_with_both ((e, a) # first) second
      else (e, a, b) # entities_with_both first second)"

definition count_entities_with_both :: "'a store \<Rightarrow> 'b store \<Rightarrow> nat" where
  "count_entities_with_both first second = length (entities_with_both first second)"

text \<open>The join visits, in ascending id order, exactly the entries of the first store whose entity
  also carries the second kind, each once and with both values.\<close>

lemma entities_with_both_filter:
  assumes "ascending (store_ids first)" and "ascending (store_ids second)"
  shows "entities_with_both first second =
    map (\<lambda>(e, a). (e, a, the (store_find second e)))
      (filter (\<lambda>(e, a). store_find second e \<noteq> None) first)"
  using assms
proof (induction first second rule: entities_with_both.induct)
  case (1 second)
  show ?case by simp
next
  case (2 p first)
  show ?case by (simp add: case_prod_beta)
next
  case (3 e a first f b second)
  have tail: "store_find ((f, b) # second) x = store_find second x" if "x \<in> set (store_ids first)" "f \<le> e" for x
    using that 3(4) by (auto simp: store_find_Cons)
  have cong: "map (\<lambda>(e, a). (e, a, the (store_find ((f, b) # second) e)))
      (filter (\<lambda>(e, a). store_find ((f, b) # second) e \<noteq> None) first) =
    map (\<lambda>(e, a). (e, a, the (store_find second e)))
      (filter (\<lambda>(e, a). store_find second e \<noteq> None) first)" if "f \<le> e"
    using tail [OF _ that] by (induction first) auto
  consider "e < f" | "f < e" | "e = f" by force
  then show ?case
  proof cases
    case 1
    then have "store_find ((f, b) # second) e = None" by (auto simp: store_find_Cons)
    with 1 3 show ?thesis by simp
  next
    case 2
    then have "entities_with_both ((e, a) # first) second =
      map (\<lambda>(e, a). (e, a, the (store_find second e)))
        (filter (\<lambda>(e, a). store_find second e \<noteq> None) ((e, a) # first))"
      using 3 by simp
    moreover have "store_find ((f, b) # second) e = store_find second e"
      using 2 by (simp add: store_find_Cons)
    moreover have "\<not> e < f" and "f \<le> e" using 2 by auto
    ultimately show ?thesis using 2 cong by simp
  next
    case 3
    then have "store_find ((f, b) # second) e = Some b" by (simp add: store_find_Cons)
    with 3 show ?thesis using "3.IH"(3) "3.prems" cong by simp
  qed
qed

section \<open>What the roster and the join promise\<close>

text \<open>
  the two-store join is the intersection of the stores, computed in one ascending pass. It visits
  exactly the entities both stores carry, each once, in ascending order and with the values the
  stores hold, whichever store is given first.
\<close>

theorem join_is_the_intersection:
  assumes "valid_store first" and "valid_store second"
  shows "ascending (map fst (entities_with_both first second)) \<and>
    (\<forall>e a b. (e, a, b) \<in> set (entities_with_both first second) \<longleftrightarrow>
      store_find first e = Some a \<and> store_find second e = Some b) \<and>
    map fst (entities_with_both second first) = map fst (entities_with_both first second)"
proof -
  have asc: "ascending (map fst (entities_with_both x y))"
    if "valid_store x" "valid_store y" for x :: "'x store" and y :: "'y store"
  proof -
    have "map fst (entities_with_both x y) = map fst (filter (\<lambda>(e, a). store_find y e \<noteq> None) x)"
      using that by (simp add: entities_with_both_filter valid_store_def case_prod_unfold comp_def)
    then show ?thesis using that(1) by (simp add: valid_store_def ascending_map_filter)
  qed
  have mem: "(e, a, b) \<in> set (entities_with_both x y) \<longleftrightarrow> store_find x e = Some a \<and> store_find y e = Some b"
    if "valid_store x" "valid_store y" for x :: "'x store" and y :: "'y store" and e a b
  proof -
    have "ascending (store_ids x)" using that by (simp add: valid_store_def)
    then have "store_find x e = Some a \<longleftrightarrow> (e, a) \<in> set x"
      by (simp add: store_find_map_of ascending_distinct)
    then show ?thesis
      using that by (auto simp: entities_with_both_filter valid_store_def intro!: image_eqI [where x = "(e, a)"])
  qed
  have "set (map fst (entities_with_both second first)) = set (map fst (entities_with_both first second))"
  proof (rule set_eqI)
    fix e
    have ids: "e \<in> set (map fst zs) \<longleftrightarrow> (\<exists>a b. (e, a, b) \<in> set zs)" for zs :: "(entity_id \<times> 'x \<times> 'y) list"
      by (induction zs) auto
    show "e \<in> set (map fst (entities_with_both second first)) \<longleftrightarrow>
        e \<in> set (map fst (entities_with_both first second))"
      unfolding ids mem [OF assms] mem [OF assms(2,1)] by blast
  qed
  then have "map fst (entities_with_both second first) = map fst (entities_with_both first second)"
    by (rule ascending_eqI [OF asc [OF assms(2,1)] asc [OF assms]])
  with asc [OF assms] mem [OF assms] show ?thesis by blast
qed

theorem join_is_the_intersection_witness:
  "(EntityId 4, 7, True) \<in> set (entities_with_both [(EntityId 1, 5), (EntityId 4, 7 :: nat)] [(EntityId 4, True)])"
proof -
  have "valid_store [(EntityId 1, 5), (EntityId 4, 7 :: nat)]" "valid_store [(EntityId 4, True)]"
    by (simp_all add: valid_store_def less_entity_id_def kMaximumEntityCount_def)
  from join_is_the_intersection [OF this] show ?thesis
    by (simp add: store_find_Cons less_entity_id_def)
qed

end
