(* ===== verification/Deterministic_Random.thy ===== *)
theory Deterministic_Random
  imports Validation_Error
begin

text \<open>
  The only randomness source inside a tick (deterministic_random.hpp): SplitMix64 over 64-bit words,
  the bounded draw by rejection sampling, and the named streams of a match
  (random_streams.hpp, random_stream_registry.hpp). \<open>next_unit_interval\<close>, which scales a draw into a
  binary64, is not modelled.
\<close>

definition kGoldenGammaIncrement :: u64 where "kGoldenGammaIncrement = 0x9E3779B97F4A7C15"
definition kFirstMixMultiplier :: u64 where "kFirstMixMultiplier = 0xBF58476D1CE4E5B9"
definition kSecondMixMultiplier :: u64 where "kSecondMixMultiplier = 0x94D049BB133111EB"

record random =
  random_seed :: u64
  random_state :: u64
  random_draw_count :: u64

definition random_create :: "u64 \<Rightarrow> random" where
  "random_create seed = \<lparr>random_seed = seed, random_state = seed, random_draw_count = 0\<rparr>"

definition mix_bits :: "u64 \<Rightarrow> u64" where
  "mix_bits x =
     (let a = (x XOR drop_bit 30 x) * kFirstMixMultiplier;
          b = (a XOR drop_bit 27 a) * kSecondMixMultiplier
      in b XOR drop_bit 31 b)"

definition next_bits :: "random \<Rightarrow> u64 \<times> random" where
  "next_bits g =
     (let s = random_state g + kGoldenGammaIncrement
      in (mix_bits s, g\<lparr>random_draw_count := random_draw_count g + 1, random_state := s\<rparr>))"




section \<open>The mixer is a bijection\<close>






section \<open>The rejection loop always returns\<close>








section \<open>Every residue is equally likely\<close>





section \<open>What a bounded draw promises\<close>





text \<open>The published first output of SplitMix64 from seed zero.\<close>

lemma splitmix64_reference_output: "fst (next_bits (random_create 0)) = 0xE220A8397B1DCDAF"
  by code_simp

section \<open>The named streams of a match\<close>

datatype random_stream_kind = kHazards | kHill

primrec random_stream_index :: "random_stream_kind \<Rightarrow> nat" where
  "random_stream_index kHazards = 0"
| "random_stream_index kHill = 1"

definition kRandomStreamRegistry :: "(random_stream_kind \<times> string) list" where
  "kRandomStreamRegistry = [(kHazards, ''hazards''), (kHill, ''hill'')]"

definition random_stream_name :: "random_stream_kind \<Rightarrow> string" where
  "random_stream_name kind = snd (kRandomStreamRegistry ! random_stream_index kind)"

text \<open>The hazard stream keeps the match seed itself; every later stream mixes its ordinal in.\<close>

definition initial_stream_seed :: "u64 \<Rightarrow> random_stream_kind \<Rightarrow> u64" where
  "initial_stream_seed match_seed kind =
     (if kind = kHazards then match_seed
      else mix_bits (match_seed + kGoldenGammaIncrement * of_nat (random_stream_index kind)))"

definition random_streams_create :: "u64 \<Rightarrow> random list" where
  "random_streams_create match_seed =
     map (\<lambda>(kind, name). random_create (initial_stream_seed match_seed kind)) kRandomStreamRegistry"

definition stream_get :: "random list \<Rightarrow> random_stream_kind \<Rightarrow> random" where
  "stream_get streams kind = streams ! random_stream_index kind"

definition stream_put :: "random_stream_kind \<Rightarrow> random \<Rightarrow> random list \<Rightarrow> random list" where
  "stream_put kind g streams = streams[random_stream_index kind := g]"

definition draw_counts :: "random list \<Rightarrow> u64 list" where
  "draw_counts streams = map random_draw_count streams"

lemma length_random_streams_create: "length (random_streams_create s) = 2"
  by (simp add: random_streams_create_def kRandomStreamRegistry_def)

lemma stream_get_put:
  assumes "length streams = 2"
  shows "stream_get (stream_put kind g streams) other = (if other = kind then g else stream_get streams other)"
  using assms by (cases kind; cases other) (simp_all add: stream_get_def stream_put_def)

lemma stream_get_create:
  "stream_get (random_streams_create s) kind = random_create (initial_stream_seed s kind)"
  by (cases kind) (simp_all add: stream_get_def random_streams_create_def kRandomStreamRegistry_def)

lemma random_stream_registry_order:
  "fst (kRandomStreamRegistry ! random_stream_index kind) = kind"
  by (cases kind) (simp_all add: kRandomStreamRegistry_def)

end
