(* ===== verification/Seat_Roster.thy ===== *)
theory Seat_Roster
  imports Identity
begin

text \<open>
  The pre-match lobby (seat_roster.hpp): its seats in index order, the one-shot start request, the
  resize rule and the seat a join takes, with the name policies of the identities a seat carries
  (snake_case_identity.hpp, bounded_name.hpp and the policies built on them) and the four phases of
  a match (match_phase.hpp).
\<close>

section \<open>Names\<close>

definition kMaximumKindNameLength :: nat where
  "kMaximumKindNameLength = 64"

definition is_lower_letter :: "char \<Rightarrow> bool" where
  "is_lower_letter c \<longleftrightarrow> CHR ''a'' \<le> c \<and> c \<le> CHR ''z''"

definition is_identity_char :: "char \<Rightarrow> bool" where
  "is_identity_char c \<longleftrightarrow> is_lower_letter c \<or> (CHR ''0'' \<le> c \<and> c \<le> CHR ''9'') \<or> c = CHR ''_''"

definition is_snake_case_identity :: "string \<Rightarrow> bool" where
  "is_snake_case_identity value =
     (if value = [] \<or> hd value < CHR ''a'' \<or> hd value > CHR ''z'' then False
      else list_all is_identity_char value)"

definition is_wire_kind_name :: "string \<Rightarrow> bool" where
  "is_wire_kind_name value \<longleftrightarrow> length value \<le> kMaximumKindNameLength \<and> is_snake_case_identity value"

text \<open>A bounded name is its characters; construction validates them by the name's policy.\<close>

definition seat_kind_name_create :: "string \<Rightarrow> string result" where
  "seat_kind_name_create value =
     (if is_wire_kind_name value then Inr value else Inl (SimError kSeatKindNameInvalid ''seat.npc_kind''))"

definition bot_profile_name_create :: "string \<Rightarrow> string result" where
  "bot_profile_name_create value =
     (if is_wire_kind_name value then Inr value
      else Inl (SimError kBotProfileNameInvalid ''npc.profile_name''))"

record npc_declaration =
  declared_kind :: string
  declared_profile :: "string option"

definition declaration_is_valid :: "npc_declaration \<Rightarrow> bool" where
  "declaration_is_valid d \<longleftrightarrow> declared_kind d \<noteq> []"

section \<open>Phases\<close>

datatype match_phase = kLobby | kCountdown | kRunning | kEnded

primrec match_phase_name :: "match_phase \<Rightarrow> string" where
  "match_phase_name kLobby = ''lobby''"
| "match_phase_name kCountdown = ''countdown''"
| "match_phase_name kRunning = ''running''"
| "match_phase_name kEnded = ''ended''"

section \<open>Seats\<close>

datatype seat =
    EmptySeat
  | ControllerSeat controller_id
  | NpcSeat string "controller_id option" "string option"

definition seat_is_filled :: "seat \<Rightarrow> bool" where
  "seat_is_filled s =
     (case s of
        NpcSeat kind c profile \<Rightarrow> c \<noteq> None
      | ControllerSeat c \<Rightarrow> True
      | EmptySeat \<Rightarrow> False)"

definition seat_is_occupied :: "seat \<Rightarrow> bool" where
  "seat_is_occupied s \<longleftrightarrow> s \<noteq> EmptySeat"

text \<open>Who is sitting in the seat, if anybody is.\<close>

fun seat_holder :: "seat \<Rightarrow> controller_id option" where
  "seat_holder EmptySeat = None"
| "seat_holder (ControllerSeat c) = Some c"
| "seat_holder (NpcSeat kind c profile) = c"

lemma seat_is_filled_holder: "seat_is_filled s \<longleftrightarrow> seat_holder s \<noteq> None"
  by (cases s) (auto simp: seat_is_filled_def)

record seat_roster =
  seats :: "seat list"
  start_requested :: bool

definition kMinimumSeatCount :: nat where "kMinimumSeatCount = 1"
definition kMaximumSeatCount :: nat where "kMaximumSeatCount = 64"

definition seat_roster_none :: seat_roster where
  "seat_roster_none = \<lparr>seats = [], start_requested = False\<rparr>"

definition seat_roster_of_size :: "nat \<Rightarrow> seat_roster result" where
  "seat_roster_of_size n =
     (if n < kMinimumSeatCount \<or> n > kMaximumSeatCount
      then Inl (SimError kSeatRosterSeatCountOutOfRange ''seat_roster.seat_count'')
      else Inr \<lparr>seats = replicate n EmptySeat, start_requested = False\<rparr>)"

definition is_full :: "seat_roster \<Rightarrow> bool" where
  "is_full r \<longleftrightarrow> seats r \<noteq> [] \<and> list_all seat_is_filled (seats r)"

definition assign_seat :: "nat \<Rightarrow> seat \<Rightarrow> seat_roster \<Rightarrow> seat_roster result" where
  "assign_seat i s r =
     (if i \<ge> length (seats r)
      then Inl (SimError kSeatRosterSeatIndexOutOfRange ''seat_roster.seat_index'')
      else Inr (r\<lparr>seats := (seats r)[i := s]\<rparr>))"

text \<open>\<open>vector::resize\<close> with empty seats as the filler.\<close>

definition resize_seats :: "nat \<Rightarrow> seat list \<Rightarrow> seat list" where
  "resize_seats n s = take n s @ replicate (n - length s) EmptySeat"

definition try_set_seat_count :: "nat \<Rightarrow> seat_roster \<Rightarrow> (bool \<times> seat_roster) result" where
  "try_set_seat_count n r =
     (if n < kMinimumSeatCount \<or> n > kMaximumSeatCount
      then Inl (SimError kSeatRosterSeatCountOutOfRange ''seat_roster.seat_count'')
      else if n < length (seats r) \<and> list_ex seat_is_occupied (drop n (seats r))
      then Inr (False, r)
      else Inr (True, r\<lparr>seats := resize_seats n (seats r)\<rparr>))"

definition request_start :: "seat_roster \<Rightarrow> seat_roster" where
  "request_start r = r\<lparr>start_requested := True\<rparr>"

definition clear_start_request :: "seat_roster \<Rightarrow> seat_roster" where
  "clear_start_request r = r\<lparr>start_requested := False\<rparr>"

text \<open>The index of the first element that satisfies a predicate: the code's scan loops.\<close>

fun first_index :: "('a \<Rightarrow> bool) \<Rightarrow> 'a list \<Rightarrow> nat option" where
  "first_index p [] = None"
| "first_index p (x # xs) = (if p x then Some 0 else map_option Suc (first_index p xs))"

fun is_npc_seat :: "seat \<Rightarrow> bool" where
  "is_npc_seat (NpcSeat kind c profile) = True"
| "is_npc_seat s = False"

definition first_joinable_seat :: "seat_roster \<Rightarrow> match_phase \<Rightarrow> nat option" where
  "first_joinable_seat r phase =
     (case first_index (\<lambda>s. s = EmptySeat) (seats r) of
        Some i \<Rightarrow> Some i
      | None \<Rightarrow>
          if phase \<noteq> kLobby \<and> phase \<noteq> kCountdown then None
          else first_index is_npc_seat (seats r))"

section \<open>Facts about the scans\<close>

lemma first_index_Some:
  "first_index p xs = Some i \<longleftrightarrow> i < length xs \<and> p (xs ! i) \<and> (\<forall>j<i. \<not> p (xs ! j))"
proof (induction xs arbitrary: i)
  case Nil
  show ?case by simp
next
  case (Cons x xs)
  show ?case
  proof (cases "p x")
    case True
    then show ?thesis by (cases i) auto
  next
    case False
    then show ?thesis by (cases i) (auto simp: Cons.IH less_Suc_eq_0_disj)
  qed
qed

lemma first_index_None: "first_index p xs = None \<longleftrightarrow> (\<forall>x\<in>set xs. \<not> p x)"
  by (induction xs) auto

lemma resize_seats_nth:
  "i < n \<Longrightarrow> resize_seats n s ! i = (if i < length s then s ! i else EmptySeat)"
  by (auto simp: resize_seats_def nth_append)

lemma length_resize_seats [simp]: "length (resize_seats n s) = n"
  by (simp add: resize_seats_def)

section \<open>One seat per controller\<close>

text \<open>The controllers that hold a seat, in seat order.\<close>

definition seated :: "seat_roster \<Rightarrow> controller_id list" where
  "seated r = List.map_filter seat_holder (seats r)"

definition valid_roster :: "seat_roster \<Rightarrow> bool" where
  "valid_roster r \<longleftrightarrow> length (seats r) \<le> kMaximumSeatCount \<and> distinct (seated r)"

lemma set_seated: "c \<in> set (seated r) \<longleftrightarrow> (\<exists>s\<in>set (seats r). seat_holder s = Some c)"
  by (force simp: seated_def List.map_filter_def)

lemma map_filter_append: "List.map_filter f (xs @ ys) = List.map_filter f xs @ List.map_filter f ys"
  by (induction xs) (simp_all add: List.map_filter_simps split: option.split)

lemma seated_update:
  assumes "i < length (seats r)"
  shows "seated (r\<lparr>seats := (seats r)[i := s]\<rparr>) =
     List.map_filter seat_holder (take i (seats r)) @
     (case seat_holder s of None \<Rightarrow> [] | Some c \<Rightarrow> [c]) @
     List.map_filter seat_holder (drop (Suc i) (seats r))"
  using assms
  by (simp add: seated_def upd_conv_take_nth_drop map_filter_append List.map_filter_simps
      split: option.split)

lemma seated_split:
  assumes "i < length (seats r)"
  shows "seated r = List.map_filter seat_holder (take i (seats r)) @
     (case seat_holder (seats r ! i) of None \<Rightarrow> [] | Some c \<Rightarrow> [c]) @
     List.map_filter seat_holder (drop (Suc i) (seats r))"
  using seated_update [OF assms, of "seats r ! i"] by simp

text \<open>Putting somebody into a seat who holds none keeps every controller in at most one seat.\<close>

lemma valid_roster_assign:
  assumes v: "valid_roster r" and i: "i < length (seats r)"
    and s: "\<forall>c. seat_holder s = Some c \<longrightarrow> c \<notin> set (seated r) \<or> seat_holder (seats r ! i) = Some c"
  shows "valid_roster (r\<lparr>seats := (seats r)[i := s]\<rparr>)"
proof -
  have d: "distinct (seated r)" using v by (simp add: valid_roster_def)
  have "distinct (seated (r\<lparr>seats := (seats r)[i := s]\<rparr>))"
    using d s unfolding seated_update [OF i] seated_split [OF i]
    by (auto split: option.splits)
  with v show ?thesis by (simp add: valid_roster_def)
qed

lemma seated_resize:
  assumes "\<not> list_ex seat_is_occupied (drop n (seats r))"
  shows "seated (r\<lparr>seats := resize_seats n (seats r)\<rparr>) = seated r"
proof -
  have "List.map_filter seat_holder (drop n (seats r)) = []"
    using assms by (auto simp: List.map_filter_def list_ex_iff seat_is_occupied_def filter_empty_conv)
  moreover have "List.map_filter seat_holder (replicate k EmptySeat) = []" for k
    by (simp add: List.map_filter_def)
  ultimately show ?thesis
    using map_filter_append [of seat_holder "take n (seats r)" "drop n (seats r)"]
    by (simp add: seated_def resize_seats_def map_filter_append)
qed

section \<open>What the roster promises\<close>

text \<open>
  resizing a lobby to a legal count either refuses, exactly when the shrink would drop an
  occupied seat, and changes nothing; or gives exactly the requested count, keeps every surviving
  seat at its index, appends empty seats only, loses no occupied seat and seats the same
  controllers. The start request is untouched either way.
\<close>

theorem try_set_seat_count_keeps_occupants:
  assumes "kMinimumSeatCount \<le> n" and "n \<le> kMaximumSeatCount"
  shows "\<exists>resized r'. try_set_seat_count n r = Inr (resized, r') \<and>
    (\<not> resized \<longleftrightarrow> (\<exists>i<length (seats r). n \<le> i \<and> seat_is_occupied (seats r ! i))) \<and>
    (\<not> resized \<longrightarrow> r' = r) \<and>
    (resized \<longrightarrow> length (seats r') = n \<and>
      (\<forall>i<n. seats r' ! i = (if i < length (seats r) then seats r ! i else EmptySeat))) \<and>
    seated r' = seated r \<and> start_requested r' = start_requested r"
proof -
  have occupied: "list_ex seat_is_occupied (drop n (seats r)) \<longleftrightarrow>
      (\<exists>i<length (seats r). n \<le> i \<and> seat_is_occupied (seats r ! i))" (is "?drops \<longleftrightarrow> ?some")
  proof
    assume ?drops
    then obtain k where "k < length (seats r) - n" and "seat_is_occupied (seats r ! (n + k))"
      by (auto simp: list_ex_iff in_set_conv_nth)
    then show ?some by (intro exI [of _ "n + k"]) simp
  next
    assume ?some
    then obtain i where "i < length (seats r)" "n \<le> i" "seat_is_occupied (seats r ! i)" by blast
    then show ?drops
      by (auto simp: list_ex_length intro!: exI [of _ "i - n"])
  qed
  have short: "\<not> n < length (seats r) \<Longrightarrow> \<not> ?drops" by simp
  show ?thesis
  proof (cases ?drops)
    case True
    with short have "n < length (seats r)" by blast
    with True assms occupied show ?thesis
      by (intro exI [of _ False] exI [of _ r]) (simp add: try_set_seat_count_def not_less)
  next
    case False
    with assms occupied seated_resize [OF False] show ?thesis
      by (intro exI [of _ True] exI [of _ "r\<lparr>seats := resize_seats n (seats r)\<rparr>"])
        (simp add: try_set_seat_count_def not_less resize_seats_nth)
  qed
qed

lemma try_set_seat_count_witness:
  "try_set_seat_count 1 \<lparr>seats = [EmptySeat, ControllerSeat (ControllerId 7)], start_requested = True\<rparr>
     = Inr (False, \<lparr>seats = [EmptySeat, ControllerSeat (ControllerId 7)], start_requested = True\<rparr>)"
proof -
  let ?r = "\<lparr>seats = [EmptySeat, ControllerSeat (ControllerId 7)], start_requested = True\<rparr>"
  have "(\<exists>i<length (seats ?r). 1 \<le> i \<and> seat_is_occupied (seats ?r ! i))"
    by (intro exI [of _ 1]) (simp add: seat_is_occupied_def)
  with try_set_seat_count_keeps_occupants [of 1 ?r] show ?thesis
    by (auto simp: kMinimumSeatCount_def kMaximumSeatCount_def)
qed

text \<open>
  the seat a join without an index takes is the lowest empty seat in any phase; failing that,
  before the match has started, the lowest declared bot seat; and there is none exactly when no
  seat is empty and the match has started or no seat is declared for a bot.
\<close>

theorem first_joinable_seat_rule:
  "case first_joinable_seat r phase of
     Some i \<Rightarrow> i < length (seats r) \<and>
       (seats r ! i = EmptySeat \<and> (\<forall>j<i. seats r ! j \<noteq> EmptySeat) \<or>
        (phase = kLobby \<or> phase = kCountdown) \<and> is_npc_seat (seats r ! i) \<and>
          EmptySeat \<notin> set (seats r) \<and> (\<forall>j<i. \<not> is_npc_seat (seats r ! j)))
   | None \<Rightarrow> EmptySeat \<notin> set (seats r) \<and>
       (phase = kRunning \<or> phase = kEnded \<or> (\<forall>s\<in>set (seats r). \<not> is_npc_seat s))"
proof (cases "first_index (\<lambda>s. s = EmptySeat) (seats r)")
  case (Some i)
  then have "i < length (seats r) \<and> seats r ! i = EmptySeat \<and> (\<forall>j<i. seats r ! j \<noteq> EmptySeat)"
    by (auto simp: first_index_Some)
  moreover have "first_joinable_seat r phase = Some i"
    using Some by (simp add: first_joinable_seat_def)
  ultimately show ?thesis by auto
next
  case None
  then have none: "EmptySeat \<notin> set (seats r)" by (auto simp: first_index_None)
  have scan: "first_joinable_seat r phase =
      (if phase \<noteq> kLobby \<and> phase \<noteq> kCountdown then None else first_index is_npc_seat (seats r))"
    using None by (simp add: first_joinable_seat_def)
  show ?thesis
  proof (cases "first_index is_npc_seat (seats r)")
    case None
    then have "\<forall>s\<in>set (seats r). \<not> is_npc_seat s" by (simp only: first_index_None)
    with None none scan show ?thesis by simp
  next
    case (Some i)
    then have "i < length (seats r) \<and> is_npc_seat (seats r ! i) \<and> (\<forall>j<i. \<not> is_npc_seat (seats r ! j))"
      by (auto simp: first_index_Some)
    with Some none scan show ?thesis by (cases phase) auto
  qed
qed

theorem first_joinable_seat_rule_witness:
  "first_joinable_seat \<lparr>seats = [ControllerSeat (ControllerId 7), EmptySeat, EmptySeat], start_requested = False\<rparr> kRunning = Some 1
   \<and> [ControllerSeat (ControllerId 7), EmptySeat, EmptySeat] ! 0 \<noteq> EmptySeat"
  using first_joinable_seat_rule [of "\<lparr>seats = [ControllerSeat (ControllerId 7), EmptySeat, EmptySeat], start_requested = False\<rparr>" kRunning]
  by (simp add: first_joinable_seat_def)

end
