(* ===== verification/Match_State.thy ===== *)
theory Match_State
  imports Seat_Roster
begin

text \<open>
  The match-wide state of a world: the outcome vocabulary (match_outcome.hpp), the movement tuning
  shared by all controllers (movement_tuning.hpp, movement_tuning_state.hpp), the blocks the modes
  keep (mode_match_state_registry.hpp, mode_states/) and the state the lifecycle machine moves
  (match_state.hpp).
\<close>

section \<open>Vectors and movement tuning\<close>

record vector2 =
  vx :: binary64
  vy :: binary64

definition zero_vector :: vector2 where
  "zero_vector = \<lparr>vx = 0, vy = 0\<rparr>"

record movement_tuning =
  acceleration_limit :: binary64
  normal_top_speed :: binary64
  charge_speed_fraction :: binary64
  lethal_spawn_rate :: binary64
  nonlethal_spawn_rate :: binary64

definition kMaximumChargeSpeedFraction :: binary64 where
  "kMaximumChargeSpeedFraction = 100000000"

definition movement_tuning_defaults :: movement_tuning where
  "movement_tuning_defaults =
     \<lparr>acceleration_limit = 400, normal_top_speed = 600, charge_speed_fraction = 3 / 4,
      lethal_spawn_rate = 0, nonlethal_spawn_rate = 0\<rparr>"

text \<open>A scalar that arrives from outside may be infinite or not a number: \<open>None\<close> is such a value.\<close>

definition require_tuning_scalar ::
  "binary64 option \<Rightarrow> binary64 \<Rightarrow> binary64 \<Rightarrow> string \<Rightarrow> binary64 result" where
  "require_tuning_scalar value lo hi path =
     (case value of
        None \<Rightarrow> Inl (SimError kMovementTuningNotFinite path)
      | Some v \<Rightarrow> if v < lo \<or> v > hi then Inl (SimError kMovementTuningOutOfRange path) else Inr v)"

definition movement_tuning_create ::
  "binary64 option \<Rightarrow> binary64 option \<Rightarrow> binary64 option \<Rightarrow> binary64 option \<Rightarrow> binary64 option \<Rightarrow>
   movement_tuning result" where
  "movement_tuning_create acceleration top_speed charge lethal nonlethal =
     try_then (require_tuning_scalar acceleration 0 10000
                 ''movement.acceleration_world_units_per_second_squared'') (\<lambda>a.
     try_then (require_tuning_scalar top_speed 1 10000
                 ''movement.normal_top_speed_world_units_per_second'') (\<lambda>t.
     try_then (require_tuning_scalar charge 0 kMaximumChargeSpeedFraction
                 ''movement.charge_speed_fraction'') (\<lambda>c.
     try_then (require_tuning_scalar lethal 0 5 ''movement.lethal_spawn_rate_per_second'') (\<lambda>l.
     try_then (require_tuning_scalar nonlethal 0 5 ''movement.nonlethal_spawn_rate_per_second'') (\<lambda>n.
       Inr \<lparr>acceleration_limit = a, normal_top_speed = t, charge_speed_fraction = c,
            lethal_spawn_rate = l, nonlethal_spawn_rate = n\<rparr>)))))"

record movement_tuning_state =
  current_tuning :: movement_tuning
  default_tuning :: movement_tuning
  tuning_revision :: u64
  effective_tick :: tick
  charge_fraction_maximum :: binary64
  lethal_rate_maximum :: binary64
  nonlethal_rate_maximum :: binary64

definition movement_tuning_state_default :: movement_tuning_state where
  "movement_tuning_state_default =
     \<lparr>current_tuning = movement_tuning_defaults, default_tuning = movement_tuning_defaults,
      tuning_revision = 0, effective_tick = tick_zero,
      charge_fraction_maximum = kMaximumChargeSpeedFraction,
      lethal_rate_maximum = 5, nonlethal_rate_maximum = 5\<rparr>"

definition admits :: "movement_tuning_state \<Rightarrow> movement_tuning \<Rightarrow> bool" where
  "admits s t \<longleftrightarrow> charge_speed_fraction t \<le> charge_fraction_maximum s \<and>
     lethal_spawn_rate t \<le> lethal_rate_maximum s \<and>
     nonlethal_spawn_rate t \<le> nonlethal_rate_maximum s"

section \<open>Outcomes\<close>

datatype match_outcome_kind = kUndecided | kWonByEntity | kWonByTeam | kDrawn

record match_outcome =
  outcome_kind :: match_outcome_kind
  winning_entity :: "entity_id option"
  winning_team :: "team_id option"

definition undecided :: match_outcome where
  "undecided = \<lparr>outcome_kind = kUndecided, winning_entity = None, winning_team = None\<rparr>"

definition won_by_entity :: "entity_id \<Rightarrow> match_outcome" where
  "won_by_entity e = undecided\<lparr>outcome_kind := kWonByEntity, winning_entity := Some e\<rparr>"

definition won_by_team :: "team_id \<Rightarrow> match_outcome" where
  "won_by_team t = undecided\<lparr>outcome_kind := kWonByTeam, winning_team := Some t\<rparr>"

definition drawn :: match_outcome where
  "drawn = undecided\<lparr>outcome_kind := kDrawn\<rparr>"

definition is_decided :: "match_outcome \<Rightarrow> bool" where
  "is_decided o1 \<longleftrightarrow> outcome_kind o1 \<noteq> kUndecided"

lemma outcome_decided [simp]:
  "\<not> is_decided undecided" "is_decided (won_by_entity e)" "is_decided (won_by_team t)"
  "is_decided drawn"
  by (simp_all add: is_decided_def undecided_def won_by_entity_def won_by_team_def drawn_def)

section \<open>The modes' blocks\<close>

record royale_placement =
  placed_entity :: entity_id
  placed_controller :: controller_id
  placement_rank :: u64
  elimination_tick :: tick

record royale_mode_state =
  placements :: "royale_placement list"
  royale_previous_phase :: match_phase
  elimination_grace_ticks :: u64

record hill_mode_state =
  hill_points_to_win :: u64
  hill_point_interval_ticks :: u64
  hill_time_limit_ticks :: u64

record race_standing =
  standing_entity :: entity_id
  standing_controller :: controller_id
  standing_placement :: u64
  finished_tick :: tick
  finished_tick_offset :: binary64

record race_mode_state =
  race_road :: string
  checkpoint_radius :: binary64
  checkpoints :: "vector2 list"
  race_time_limit_ticks :: u64
  race_finish_window_ticks :: u64
  standings :: "race_standing list"

datatype mode_match_state =
    NoModeState
  | RoyaleState royale_mode_state
  | HillState hill_mode_state
  | RaceState race_mode_state

fun mode_match_state_schema_id :: "mode_match_state \<Rightarrow> string" where
  "mode_match_state_schema_id NoModeState = ''none''"
| "mode_match_state_schema_id (RoyaleState s) = ''royale_placements''"
| "mode_match_state_schema_id (HillState s) = ''king_of_the_hill''"
| "mode_match_state_schema_id (RaceState s) = ''race''"

section \<open>The match\<close>

record match_state =
  phase :: match_phase
  previous_phase :: match_phase
  phase_started_tick :: tick
  running_started_tick :: tick
  outcome :: match_outcome
  roster :: seat_roster
  spawn_rotation_counter :: u64
  mode_state :: mode_match_state
  movement :: movement_tuning_state

definition match_state_initial :: match_state where
  "match_state_initial =
     \<lparr>phase = kLobby, previous_phase = kLobby, phase_started_tick = tick_zero,
      running_started_tick = tick_zero, outcome = undecided, roster = seat_roster_none,
      spawn_rotation_counter = 0, mode_state = NoModeState, movement = movement_tuning_state_default\<rparr>"

text \<open>Elapsed whole ticks; a start that lies ahead has elapsed nothing
  (match_lifecycle_system.cpp, race_objective.cpp and hill_objective.cpp each define it).\<close>

definition ticks_since :: "tick \<Rightarrow> tick \<Rightarrow> u64" where
  "ticks_since now started =
     (if tick_value now \<ge> tick_value started then tick_value now - tick_value started else 0)"

lemma unat_ticks_since:
  "unat (ticks_since now started) = unat (tick_value now) - unat (tick_value started)"
  by (auto simp: ticks_since_def u64_sub_unat word_le_nat_alt)

end
