(* ===== verification/Commands.thy ===== *)
theory Commands
  imports Match_State
begin

text \<open>
  The closed list of player and server commands (command_registry.hpp, commands/): each command's
  fields, its kind and the kind's bit and wire name, the identity a command addresses, the rank in
  which phase 0 applies the kinds, and the masks of kinds a mode accepts (command_kind_mask.hpp).
\<close>

section \<open>Commands\<close>

datatype command =
    SpawnCommand controller_id
  | DespawnCommand entity_id
  | ThrustCommand entity_id vector2 "tick option" bool
  | SetSeatCountCommand controller_id u64
  | ClearSeatCommand controller_id u64
  | SeatNpcCommand controller_id u64 string "string option"
  | StartMatchCommand controller_id
  | LeaveCommand controller_id
  | JoinCommand controller_id "u64 option" "npc_declaration option"
  | SetMovementTuningCommand controller_id u64 u64 movement_tuning
  | ShieldCommand entity_id "tick option"
  | ChargeCommand entity_id vector2 "tick option"
  | RotateVelocityCommand entity_id bool "tick option"

datatype command_kind =
    kSpawn | kDespawn | kThrust | kSetSeatCount | kClearSeat | kSeatNpc | kStartMatch | kLeave
  | kJoin | kSetMovementTuning | kShield | kCharge | kRotateVelocity

definition kCommandKinds :: "command_kind list" where
  "kCommandKinds =
     [kSpawn, kDespawn, kThrust, kSetSeatCount, kClearSeat, kSeatNpc, kStartMatch, kLeave, kJoin,
      kSetMovementTuning, kShield, kCharge, kRotateVelocity]"

text \<open>The enumerator of each kind is its own bit of a 32-bit mask.\<close>

primrec command_kind_bit :: "command_kind \<Rightarrow> u32" where
  "command_kind_bit kSpawn = push_bit 0 1"
| "command_kind_bit kDespawn = push_bit 1 1"
| "command_kind_bit kThrust = push_bit 2 1"
| "command_kind_bit kSetSeatCount = push_bit 3 1"
| "command_kind_bit kClearSeat = push_bit 4 1"
| "command_kind_bit kSeatNpc = push_bit 5 1"
| "command_kind_bit kStartMatch = push_bit 6 1"
| "command_kind_bit kLeave = push_bit 7 1"
| "command_kind_bit kJoin = push_bit 8 1"
| "command_kind_bit kSetMovementTuning = push_bit 9 1"
| "command_kind_bit kShield = push_bit 10 1"
| "command_kind_bit kCharge = push_bit 11 1"
| "command_kind_bit kRotateVelocity = push_bit 12 1"

fun command_kind_of :: "command \<Rightarrow> command_kind" where
  "command_kind_of (SpawnCommand c) = kSpawn"
| "command_kind_of (DespawnCommand e) = kDespawn"
| "command_kind_of (ThrustCommand e d g b) = kThrust"
| "command_kind_of (SetSeatCountCommand c n) = kSetSeatCount"
| "command_kind_of (ClearSeatCommand c i) = kClearSeat"
| "command_kind_of (SeatNpcCommand c i k p) = kSeatNpc"
| "command_kind_of (StartMatchCommand c) = kStartMatch"
| "command_kind_of (LeaveCommand c) = kLeave"
| "command_kind_of (JoinCommand c i d) = kJoin"
| "command_kind_of (SetMovementTuningCommand c r v t) = kSetMovementTuning"
| "command_kind_of (ShieldCommand e g) = kShield"
| "command_kind_of (ChargeCommand e d g) = kCharge"
| "command_kind_of (RotateVelocityCommand e w g) = kRotateVelocity"

primrec command_kind_name_of :: "command_kind \<Rightarrow> string" where
  "command_kind_name_of kSpawn = ''spawn''"
| "command_kind_name_of kDespawn = ''despawn''"
| "command_kind_name_of kThrust = ''thrust''"
| "command_kind_name_of kSetSeatCount = ''set_seat_count''"
| "command_kind_name_of kClearSeat = ''clear_seat''"
| "command_kind_name_of kSeatNpc = ''seat_npc''"
| "command_kind_name_of kStartMatch = ''start_match''"
| "command_kind_name_of kLeave = ''leave''"
| "command_kind_name_of kJoin = ''join''"
| "command_kind_name_of kSetMovementTuning = ''set_movement_tuning''"
| "command_kind_name_of kShield = ''shield''"
| "command_kind_name_of kCharge = ''charge''"
| "command_kind_name_of kRotateVelocity = ''rotate_velocity''"

section \<open>The addressed identity\<close>

record addressed_identity =
  addressed_entity :: "entity_id option"
  ordering_key :: u64

definition of_entity :: "entity_id \<Rightarrow> addressed_identity" where
  "of_entity e = \<lparr>addressed_entity = Some e, ordering_key = entity_value e\<rparr>"

definition of_controller :: "controller_id \<Rightarrow> addressed_identity" where
  "of_controller c = \<lparr>addressed_entity = None, ordering_key = controller_value c\<rparr>"

fun addressed_identity_of :: "command \<Rightarrow> addressed_identity" where
  "addressed_identity_of (SpawnCommand c) = of_controller c"
| "addressed_identity_of (SetSeatCountCommand c n) = of_controller c"
| "addressed_identity_of (ClearSeatCommand c i) = of_controller c"
| "addressed_identity_of (SeatNpcCommand c i k p) = of_controller c"
| "addressed_identity_of (StartMatchCommand c) = of_controller c"
| "addressed_identity_of (LeaveCommand c) = of_controller c"
| "addressed_identity_of (JoinCommand c i d) = of_controller c"
| "addressed_identity_of (SetMovementTuningCommand c r v t) = of_controller c"
| "addressed_identity_of (DespawnCommand e) = of_entity e"
| "addressed_identity_of (ThrustCommand e d g b) = of_entity e"
| "addressed_identity_of (ShieldCommand e g) = of_entity e"
| "addressed_identity_of (ChargeCommand e d g) = of_entity e"
| "addressed_identity_of (RotateVelocityCommand e w g) = of_entity e"

primrec command_kind_application_rank :: "command_kind \<Rightarrow> nat" where
  "command_kind_application_rank kDespawn = 0"
| "command_kind_application_rank kSpawn = 1"
| "command_kind_application_rank kThrust = 2"
| "command_kind_application_rank kSetMovementTuning = 3"
| "command_kind_application_rank kSetSeatCount = 4"
| "command_kind_application_rank kClearSeat = 5"
| "command_kind_application_rank kSeatNpc = 6"
| "command_kind_application_rank kStartMatch = 7"
| "command_kind_application_rank kJoin = 8"
| "command_kind_application_rank kLeave = 9"
| "command_kind_application_rank kShield = 10"
| "command_kind_application_rank kCharge = 11"
| "command_kind_application_rank kRotateVelocity = 12"

lemma application_rank_inj:
  "command_kind_application_rank a = command_kind_application_rank b \<longleftrightarrow> a = b"
  by (cases a; cases b) simp_all

section \<open>Masks of kinds\<close>

text \<open>A mask is its 32 bits.\<close>

type_synonym command_kind_mask = u32

definition mask_all_bits :: command_kind_mask where
  "mask_all_bits = fold (\<lambda>kind bits. bits OR command_kind_bit kind) kCommandKinds 0"

definition mask_create_bits :: "u32 \<Rightarrow> command_kind_mask result" where
  "mask_create_bits bits =
     (if bits AND mask_all_bits \<noteq> bits
      then Inl (SimError kCommandKindMaskUnknownBit ''command_kind_mask.bits'')
      else Inr bits)"

definition mask_create :: "command_kind list \<Rightarrow> command_kind_mask" where
  "mask_create kinds = fold (\<lambda>kind bits. bits OR command_kind_bit kind) kinds 0"

definition mask_none :: command_kind_mask where "mask_none = 0"

definition mask_contains :: "command_kind_mask \<Rightarrow> command_kind \<Rightarrow> bool" where
  "mask_contains m kind \<longleftrightarrow> m AND command_kind_bit kind \<noteq> 0"

definition mask_with :: "command_kind_mask \<Rightarrow> command_kind \<Rightarrow> command_kind_mask" where
  "mask_with m kind = m OR command_kind_bit kind"

text \<open>The position of a kind's bit.\<close>

primrec kind_position :: "command_kind \<Rightarrow> nat" where
  "kind_position kSpawn = 0"
| "kind_position kDespawn = 1"
| "kind_position kThrust = 2"
| "kind_position kSetSeatCount = 3"
| "kind_position kClearSeat = 4"
| "kind_position kSeatNpc = 5"
| "kind_position kStartMatch = 6"
| "kind_position kLeave = 7"
| "kind_position kJoin = 8"
| "kind_position kSetMovementTuning = 9"
| "kind_position kShield = 10"
| "kind_position kCharge = 11"
| "kind_position kRotateVelocity = 12"

lemma command_kind_bit_position: "command_kind_bit kind = push_bit (kind_position kind) 1"
  by (cases kind) simp_all

lemma kind_position_inj: "kind_position a = kind_position b \<longleftrightarrow> a = b"
  by (cases a; cases b) simp_all

lemma kind_position_less: "kind_position kind < 32"
  by (cases kind) simp_all

lemma mask_contains_bit: "mask_contains m kind \<longleftrightarrow> bit m (kind_position kind)"
proof -
  have "bit (m AND command_kind_bit kind) n \<longleftrightarrow> bit m n \<and> n = kind_position kind" for n
    using kind_position_less [of kind]
    by (auto simp: command_kind_bit_position bit_simps)
  then show ?thesis
    unfolding mask_contains_def by (metis bit_0_eq bit_eq_iff bot_apply bot_bool_def)
qed

lemma mask_contains_with:
  "mask_contains (mask_with m kind) other \<longleftrightarrow> other = kind \<or> mask_contains m other"
  using kind_position_less [of kind]
  by (auto simp: mask_contains_bit mask_with_def command_kind_bit_position bit_simps kind_position_inj)

lemma mask_contains_create: "mask_contains (mask_create kinds) kind \<longleftrightarrow> kind \<in> set kinds"
proof -
  have "mask_contains (fold (\<lambda>kind bits. bits OR command_kind_bit kind) kinds m) kind
      \<longleftrightarrow> kind \<in> set kinds \<or> mask_contains m kind" for m
    by (induction kinds arbitrary: m) (auto simp: mask_contains_with [unfolded mask_with_def])
  moreover have "\<not> mask_contains 0 kind" by (simp add: mask_contains_def)
  ultimately show ?thesis by (simp add: mask_create_def)
qed

lemma mask_all_bits_create: "mask_all_bits = mask_create kCommandKinds"
  by (simp add: mask_all_bits_def mask_create_def)

lemma command_kinds_complete: "kind \<in> set kCommandKinds"
  by (cases kind) (simp_all add: kCommandKinds_def)

lemma mask_contains_all [simp]: "mask_contains mask_all_bits kind"
  by (simp add: mask_all_bits_create mask_contains_create command_kinds_complete)

end
