(* ===== verification/Input_Batch.thy ===== *)
theory Input_Batch
  imports Commands Reservation "HOL-Library.Product_Lexorder"
begin

text \<open>
  The validated, canonically ordered input of one tick (input_batch.hpp, input_batch.cpp): the
  per-command validation in the code's order, the sort by application rank, addressed identity and
  submission index, and the rule that the last submission of a kind for an identity wins.
\<close>

section \<open>Validation of one command\<close>

definition kMaximumInputBatchCommandCount :: nat where
  "kMaximumInputBatchCommandCount = 65536"

definition within_direction_component_range :: "binary64 \<Rightarrow> bool" where
  "within_direction_component_range c \<longleftrightarrow> \<bar>c\<bar> \<le> 1"

definition validate_direction_range :: "vector2 \<Rightarrow> string \<Rightarrow> unit result" where
  "validate_direction_range d path =
     (if within_direction_component_range (vx d) \<and> within_direction_component_range (vy d)
      then Inr () else Inl (SimError kInputBatchThrustDirectionOutOfRange path))"

definition validate_generation :: "tick option \<Rightarrow> string \<Rightarrow> unit result" where
  "validate_generation g path =
     (if g = Some tick_zero then Inl (SimError kInputBatchInputGenerationZero path) else Inr ())"

definition validate_despawn_target :: "entity_id \<Rightarrow> reservation \<Rightarrow> unit result" where
  "validate_despawn_target e r =
     (if \<not> reservation_contains r e then Inr ()
      else Inl (SimError kInputBatchSpawnAndDespawnConflict ''input_batch.commands.despawn.entity''))"

definition validate_seat_index :: "u64 \<Rightarrow> string \<Rightarrow> unit result" where
  "validate_seat_index i path =
     (if unat i < kMaximumSeatCount then Inr ()
      else Inl (SimError kInputBatchSeatIndexOutOfRange path))"

definition validate_seat_count :: "u64 \<Rightarrow> unit result" where
  "validate_seat_count n =
     (if unat n \<ge> kMinimumSeatCount \<and> unat n \<le> kMaximumSeatCount then Inr ()
      else Inl (SimError kInputBatchSeatCountOutOfRange ''input_batch.commands.set_seat_count.seat_count''))"

definition validate_join :: "u64 option \<Rightarrow> npc_declaration option \<Rightarrow> unit result" where
  "validate_join seat_index expected =
     (if expected \<noteq> None \<and> (seat_index = None \<or> \<not> declaration_is_valid (the expected))
      then Inl (SimError kInputBatchJoinDeclarationInvalid ''input_batch.commands.join.expected_npc'')
      else case seat_index of
        None \<Rightarrow> Inr ()
      | Some i \<Rightarrow> validate_seat_index i ''input_batch.commands.join.seat_index'')"

definition validate_tuning :: "u64 \<Rightarrow> u64 \<Rightarrow> unit result" where
  "validate_tuning request expected_revision =
     (if request = 0 \<or> request > kMaximumProtocolSafeInteger
      then Inl (SimError kInputBatchTuningRequestIdOutOfRange
                  ''input_batch.commands.set_movement_tuning.tuning_request_id'')
      else if expected_revision > kMaximumProtocolSafeInteger
      then Inl (SimError kInputBatchTuningRevisionOutOfRange
                  ''input_batch.commands.set_movement_tuning.expected_revision'')
      else Inr ())"

fun validate_payload :: "command \<Rightarrow> reservation \<Rightarrow> unit result" where
  "validate_payload (ThrustCommand e d g b) r =
     try_then (validate_direction_range d ''input_batch.commands.thrust.direction'') (\<lambda>_.
       validate_generation g ''input_batch.commands.thrust.input_generation'')"
| "validate_payload (ShieldCommand e g) r =
     validate_generation g ''input_batch.commands.shield.input_generation''"
| "validate_payload (ChargeCommand e d g) r =
     try_then (validate_direction_range d ''input_batch.commands.charge.direction'') (\<lambda>_.
       validate_generation g ''input_batch.commands.charge.input_generation'')"
| "validate_payload (RotateVelocityCommand e w g) r =
     validate_generation g ''input_batch.commands.rotate_velocity.input_generation''"
| "validate_payload (DespawnCommand e) r = validate_despawn_target e r"
| "validate_payload (SeatNpcCommand c i k p) r =
     validate_seat_index i ''input_batch.commands.seat_npc.seat_index''"
| "validate_payload (ClearSeatCommand c i) r =
     validate_seat_index i ''input_batch.commands.clear_seat.seat_index''"
| "validate_payload (SetSeatCountCommand c n) r = validate_seat_count n"
| "validate_payload (JoinCommand c i d) r = validate_join i d"
| "validate_payload (SetMovementTuningCommand c q v t) r = validate_tuning q v"
| "validate_payload (SpawnCommand c) r = Inr ()"
| "validate_payload (StartMatchCommand c) r = Inr ()"
| "validate_payload (LeaveCommand c) r = Inr ()"

definition validate_command :: "command \<Rightarrow> command_kind_mask \<Rightarrow> reservation \<Rightarrow> unit result" where
  "validate_command c accepted r =
     (if \<not> mask_contains accepted (command_kind_of c)
      then Inl (SimError kInputBatchCommandKindNotAccepted ''input_batch.commands.kind'')
      else validate_payload c r)"

section \<open>The canonical order\<close>

record ordered_command =
  application_rank :: nat
  addressed_key :: u64
  submission_index :: nat
  ordered :: command

definition ordered_of :: "nat \<Rightarrow> command \<Rightarrow> ordered_command" where
  "ordered_of i c =
     \<lparr>application_rank = command_kind_application_rank (command_kind_of c),
      addressed_key = ordering_key (addressed_identity_of c), submission_index = i, ordered = c\<rparr>"

text \<open>The comparator of the sort, and what makes two entries one run.\<close>

definition comparison_key :: "ordered_command \<Rightarrow> nat \<times> u64 \<times> nat" where
  "comparison_key x = (application_rank x, addressed_key x, submission_index x)"

definition run_key :: "ordered_command \<Rightarrow> nat \<times> u64" where
  "run_key x = (application_rank x, addressed_key x)"

fun last_of_runs :: "ordered_command list \<Rightarrow> command list" where
  "last_of_runs [] = []"
| "last_of_runs [x] = [ordered x]"
| "last_of_runs (x # y # zs) =
     (if application_rank y \<noteq> application_rank x \<or> addressed_key y \<noteq> addressed_key x
      then ordered x # last_of_runs (y # zs) else last_of_runs (y # zs))"

fun enumerate_validated ::
  "nat \<Rightarrow> command list \<Rightarrow> command_kind_mask \<Rightarrow> reservation \<Rightarrow> ordered_command list result" where
  "enumerate_validated i [] accepted r = Inr []"
| "enumerate_validated i (c # cs) accepted r =
     try_then (validate_command c accepted r) (\<lambda>_.
       try_then (enumerate_validated (Suc i) cs accepted r) (\<lambda>xs. Inr (ordered_of i c # xs)))"

record input_batch =
  batch_commands :: "command list"
  batch_reservation :: reservation

definition input_batch_create ::
  "command list \<Rightarrow> command_kind_mask \<Rightarrow> reservation \<Rightarrow> input_batch result" where
  "input_batch_create cs accepted r =
     (if length cs > kMaximumInputBatchCommandCount
      then Inl (SimError kInputBatchCommandLimitExceeded ''input_batch.commands'')
      else try_then (enumerate_validated 0 cs accepted r) (\<lambda>entries.
        Inr \<lparr>batch_commands = last_of_runs (sort_key comparison_key entries), batch_reservation = r\<rparr>))"

definition input_batch_empty :: input_batch where
  "input_batch_empty = \<lparr>batch_commands = [], batch_reservation = reservation_none\<rparr>"

text \<open>A command's slot: its kind (as its rank) and the identity it addresses.\<close>

definition command_slot :: "command \<Rightarrow> nat \<times> u64" where
  "command_slot c =
     (command_kind_application_rank (command_kind_of c), ordering_key (addressed_identity_of c))"

definition slotted :: "command list \<Rightarrow> ((nat \<times> u64) \<times> command) list" where
  "slotted cs = map (\<lambda>c. (command_slot c, c)) cs"

section \<open>The last submission wins\<close>

fun entries_from :: "nat \<Rightarrow> command list \<Rightarrow> ordered_command list" where
  "entries_from i [] = []"
| "entries_from i (c # cs) = ordered_of i c # entries_from (Suc i) cs"

lemma enumerate_validated_Inr:
  "enumerate_validated i cs accepted r = Inr xs \<longleftrightarrow>
     (\<forall>c\<in>set cs. validate_command c accepted r = Inr ()) \<and> xs = entries_from i cs"
  by (induction cs arbitrary: i xs) (auto simp: try_then_Inr_iff)

lemma run_key_ordered_of [simp]: "run_key (ordered_of i c) = command_slot c"
  by (simp add: run_key_def ordered_of_def command_slot_def)

lemma ordered_ordered_of [simp]: "ordered (ordered_of i c) = c" "submission_index (ordered_of i c) = i"
  by (simp_all add: ordered_of_def)

definition keyed :: "ordered_command list \<Rightarrow> ((nat \<times> u64) \<times> command) list" where
  "keyed xs = map (\<lambda>x. (run_key x, ordered x)) xs"

lemma keyed_entries_from: "keyed (entries_from i cs) = slotted cs"
  by (induction cs arbitrary: i) (simp_all add: keyed_def slotted_def)

lemma entries_from_indices:
  "sorted (map submission_index (entries_from i cs)) \<and>
   (\<forall>x\<in>set (entries_from i cs). i \<le> submission_index x)"
  by (induction cs arbitrary: i) (fastforce dest: Suc_leD)+

lemma entries_from_slots:
  "x \<in> set (entries_from i cs) \<Longrightarrow> run_key x = command_slot (ordered x)"
  by (induction cs arbitrary: i) auto

text \<open>Sorting keeps the entries of one run in submission order, so the latest stays the last.\<close>

lemma one_run_sorted:
  assumes "sorted (map submission_index ys)" and "\<forall>y\<in>set ys. run_key y = k"
  shows "sorted (map comparison_key ys)"
  using assms by (induction ys) (fastforce simp: comparison_key_def run_key_def)+

lemma sort_keeps_runs:
  assumes "sorted (map submission_index xs)"
  shows "filter (\<lambda>x. run_key x = k) (sort_key comparison_key xs) = filter (\<lambda>x. run_key x = k) xs"
proof -
  have "sorted (map submission_index (filter (\<lambda>x. run_key x = k) xs))"
    using assms by (rule sorted_filter)
  then have "sorted (map comparison_key (filter (\<lambda>x. run_key x = k) xs))"
    by (rule one_run_sorted [where k = k]) simp
  then show ?thesis by (simp add: filter_sort sort_key_id_if_sorted)
qed

lemma sorted_run_key: "sorted (map comparison_key xs) \<Longrightarrow> sorted (map run_key xs)"
  by (induction xs) (auto simp: comparison_key_def run_key_def)

lemma map_of_rev_filter:
  "map_of (rev (keyed xs)) k = map_of (rev (keyed (filter (\<lambda>x. run_key x = k) xs))) k"
  by (induction xs) (auto simp: keyed_def map_of_append map_add_def split: option.split)

lemma map_of_rev_sort:
  assumes "sorted (map submission_index xs)"
  shows "map_of (rev (keyed (sort_key comparison_key xs))) = map_of (rev (keyed xs))"
  by (rule ext) (metis map_of_rev_filter sort_keeps_runs [OF assms])

lemma last_of_runs_spec:
  assumes "sorted (map run_key xs)" and "\<forall>x\<in>set xs. run_key x = command_slot (ordered x)"
  shows "ascending (map command_slot (last_of_runs xs)) \<and>
    map_of (slotted (last_of_runs xs)) = map_of (rev (keyed xs)) \<and>
    (xs \<noteq> [] \<longrightarrow> last_of_runs xs \<noteq> [] \<and> run_key (hd xs) = command_slot (hd (last_of_runs xs)))"
  using assms
proof (induction xs rule: last_of_runs.induct)
  case 1
  then show ?case by (simp add: slotted_def keyed_def)
next
  case (2 x)
  then show ?case by (auto simp: slotted_def keyed_def)
next
  case (3 x y zs)
  have "sorted (map run_key (y # zs))" and "\<forall>x\<in>set (y # zs). run_key x = command_slot (ordered x)"
    and x: "run_key x = command_slot (ordered x)" and xy: "run_key x \<le> run_key y"
    using "3.prems" by auto
  with "3.IH" have ih: "ascending (map command_slot (last_of_runs (y # zs)))"
    "map_of (slotted (last_of_runs (y # zs))) = map_of (rev (keyed (y # zs)))"
    "last_of_runs (y # zs) \<noteq> []" "run_key y = command_slot (hd (last_of_runs (y # zs)))"
    by (cases "application_rank y \<noteq> application_rank x \<or> addressed_key y \<noteq> addressed_key x"; simp)+
  have keyed_x: "map_of (rev (keyed (x # y # zs))) =
      [run_key x \<mapsto> ordered x] ++ map_of (rev (keyed (y # zs)))"
    by (simp add: keyed_def map_of_append)
  show ?case
  proof (cases "run_key y = run_key x")
    case True
    then have skip: "last_of_runs (x # y # zs) = last_of_runs (y # zs)"
      by (simp add: run_key_def)
    have "run_key x \<in> dom (map_of (rev (keyed (y # zs))))"
      using True by (simp add: dom_map_of_conv_image_fst keyed_def)
    then have "map_of (rev (keyed (x # y # zs))) = map_of (rev (keyed (y # zs)))"
      unfolding keyed_x by (auto simp: map_add_def fun_eq_iff split: option.split)
    with ih skip True show ?thesis by simp
  next
    case False
    then have keep: "last_of_runs (x # y # zs) = ordered x # last_of_runs (y # zs)"
      by (auto simp: run_key_def)
    have "run_key x < run_key y" using xy False by simp
    then have below: "\<forall>c\<in>set (last_of_runs (y # zs)). run_key x < command_slot c"
      using ih(1,3,4) by (cases "last_of_runs (y # zs)") auto
    then have fresh: "run_key x \<notin> dom (map_of (slotted (last_of_runs (y # zs))))"
      by (auto simp: dom_map_of_conv_image_fst slotted_def)
    have "map_of (slotted (last_of_runs (x # y # zs))) =
        (map_of (slotted (last_of_runs (y # zs))))(run_key x \<mapsto> ordered x)"
      unfolding keep by (simp add: slotted_def x)
    also have "\<dots> = map_of (rev (keyed (x # y # zs)))"
      using fresh unfolding keyed_x ih(2) [symmetric]
      by (auto simp: map_add_def fun_eq_iff split: option.split)
    finally have m: "map_of (slotted (last_of_runs (x # y # zs))) = map_of (rev (keyed (x # y # zs)))" .
    have "ascending (map command_slot (last_of_runs (x # y # zs)))"
      using below ih(1) unfolding keep by (simp add: x)
    moreover have "last_of_runs (x # y # zs) \<noteq> [] \<and>
        run_key (hd (x # y # zs)) = command_slot (hd (last_of_runs (x # y # zs)))"
      by (simp only: keep list.sel x) simp
    ultimately show ?thesis using m by blast
  qed
qed

text \<open>The command that survives for each slot: the one submitted last.\<close>

definition winning_command :: "command list \<Rightarrow> nat \<times> u64 \<Rightarrow> command option" where
  "winning_command cs = map_of (rev (slotted cs))"

lemma winning_command_Cons:
  "winning_command (c # cs) k =
     (case winning_command cs k of Some d \<Rightarrow> Some d | None \<Rightarrow> if command_slot c = k then Some c else None)"
  by (simp add: winning_command_def slotted_def map_of_append map_add_def split: option.split)

lemma winning_command_last:
  "winning_command cs k = Some c \<longleftrightarrow>
     (\<exists>i<length cs. cs ! i = c \<and> command_slot c = k \<and>
       (\<forall>j. i < j \<and> j < length cs \<longrightarrow> command_slot (cs ! j) \<noteq> k))"
proof (induction cs)
  case Nil
  show ?case by (simp add: winning_command_def slotted_def)
next
  case (Cons d ds)
  have none: "winning_command ds k = None \<longleftrightarrow> (\<forall>j<length ds. command_slot (ds ! j) \<noteq> k)"
    by (force simp: winning_command_def slotted_def map_of_eq_None_iff in_set_conv_nth)
  show ?case
  proof (cases "winning_command ds k")
    case None
    with none show ?thesis
      by (auto simp: winning_command_Cons None nth_Cons less_Suc_eq_0_disj split: nat.split_asm)
  next
    case (Some w)
    then have later: "\<exists>j<length ds. command_slot (ds ! j) = k" using none by auto
    have "winning_command (d # ds) k = Some c \<longleftrightarrow> winning_command ds k = Some c"
      by (simp add: winning_command_Cons Some)
    also note Cons
    also have "(\<exists>i<length ds. ds ! i = c \<and> command_slot c = k \<and>
        (\<forall>j. i < j \<and> j < length ds \<longrightarrow> command_slot (ds ! j) \<noteq> k)) \<longleftrightarrow>
      (\<exists>i<length (d # ds). (d # ds) ! i = c \<and> command_slot c = k \<and>
        (\<forall>j. i < j \<and> j < length (d # ds) \<longrightarrow> command_slot ((d # ds) ! j) \<noteq> k))"
      (is "?tail \<longleftrightarrow> ?whole")
    proof
      assume ?tail
      then obtain i where i: "i < length ds" "ds ! i = c" "command_slot c = k"
        "\<forall>j. i < j \<and> j < length ds \<longrightarrow> command_slot (ds ! j) \<noteq> k" by blast
      have "\<forall>j. Suc i < j \<and> j < length (d # ds) \<longrightarrow> command_slot ((d # ds) ! j) \<noteq> k"
        using i(4) by (auto simp: nth_Cons split: nat.split)
      with i show ?whole by (intro exI [of _ "Suc i"]) simp
    next
      assume ?whole
      then obtain i where i: "i < length (d # ds)" "(d # ds) ! i = c" "command_slot c = k"
        "\<forall>j. i < j \<and> j < length (d # ds) \<longrightarrow> command_slot ((d # ds) ! j) \<noteq> k" by blast
      from later obtain j where j: "j < length ds" "command_slot (ds ! j) = k" by blast
      with i(4) have "i \<noteq> 0" by (auto dest: spec [of _ "Suc j"])
      then obtain m where m: "i = Suc m" by (cases i) auto
      have "\<forall>j. m < j \<and> j < length ds \<longrightarrow> command_slot (ds ! j) \<noteq> k"
      proof (intro allI impI)
        fix j
        assume "m < j \<and> j < length ds"
        with i(4) [rule_format, of "Suc j"] show "command_slot (ds ! j) \<noteq> k" by (simp add: m)
      qed
      with i m show ?tail by (intro exI [of _ m]) simp
    qed
    finally show ?thesis .
  qed
qed

lemma slotted_determined:
  assumes "ascending (map command_slot xs)" and "ascending (map command_slot ys)"
    and m: "map_of (slotted xs) = map_of (slotted ys)"
  shows "xs = ys"
proof -
  have d: "dom (map_of (slotted zs)) = set (map command_slot zs)" for zs
    by (simp add: dom_map_of_conv_image_fst slotted_def image_image)
  have keys: "map command_slot xs = map command_slot ys"
    using assms d [of xs] d [of ys] by (intro ascending_eqI) simp_all
  have vals: "map (the \<circ> map_of (slotted zs)) (map command_slot zs) = zs"
    if "ascending (map command_slot zs)" for zs
  proof -
    have "distinct (map fst (slotted zs))"
      using ascending_distinct [OF that] by (simp add: slotted_def comp_def)
    then have "map_of (slotted zs) (command_slot c) = Some c" if "c \<in> set zs" for c
      using that by (intro map_of_is_SomeI) (auto simp: slotted_def)
    then show ?thesis by (simp add: map_idI)
  qed
  show ?thesis using vals [OF assms(1)] vals [OF assms(2)] keys m by simp
qed

lemma batch_commands_spec:
  assumes "input_batch_create cs accepted r = Inr b"
  shows "ascending (map command_slot (batch_commands b))"
    and "map_of (slotted (batch_commands b)) = winning_command cs"
    and "batch_reservation b = r" and "length cs \<le> kMaximumInputBatchCommandCount"
    and "\<forall>c\<in>set cs. validate_command c accepted r = Inr ()"
proof -
  let ?xs = "entries_from 0 cs"
  have b: "b = \<lparr>batch_commands = last_of_runs (sort_key comparison_key ?xs), batch_reservation = r\<rparr>"
    and valid: "\<forall>c\<in>set cs. validate_command c accepted r = Inr ()"
    and len: "length cs \<le> kMaximumInputBatchCommandCount"
    using assms by (auto simp: input_batch_create_def try_then_Inr_iff enumerate_validated_Inr
        split: if_splits)
  have "sorted (map comparison_key (sort_key comparison_key ?xs))" by simp
  then have "sorted (map run_key (sort_key comparison_key ?xs))"
    by (rule sorted_run_key)
  moreover have "\<forall>x\<in>set (sort_key comparison_key ?xs). run_key x = command_slot (ordered x)"
    using entries_from_slots by auto
  ultimately have spec: "ascending (map command_slot (batch_commands b)) \<and>
      map_of (slotted (batch_commands b)) = map_of (rev (keyed (sort_key comparison_key ?xs)))"
    using last_of_runs_spec [of "sort_key comparison_key ?xs"] by (simp add: b)
  then show "ascending (map command_slot (batch_commands b))" by simp
  show "map_of (slotted (batch_commands b)) = winning_command cs"
    using spec by (simp add: map_of_rev_sort entries_from_indices keyed_entries_from winning_command_def)
  show "batch_reservation b = r" by (simp add: b)
  show "length cs \<le> kMaximumInputBatchCommandCount" by (rule len)
  show "\<forall>c\<in>set cs. validate_command c accepted r = Inr ()" by (rule valid)
qed

lemma input_batch_create_accepts:
  assumes "length cs \<le> kMaximumInputBatchCommandCount"
    and "\<forall>c\<in>set cs. validate_command c accepted r = Inr ()"
  shows "\<exists>b. input_batch_create cs accepted r = Inr b"
proof -
  have "enumerate_validated 0 cs accepted r = Inr (entries_from 0 cs)"
    using assms(2) by (simp add: enumerate_validated_Inr)
  with assms(1) show ?thesis by (simp add: input_batch_create_def)
qed

section \<open>Properties of a batch\<close>

lemma batch_members:
  assumes "input_batch_create cs accepted r = Inr b"
  shows "c \<in> set (batch_commands b) \<longleftrightarrow> winning_command cs (command_slot c) = Some c"
proof -
  have d: "distinct (map fst (slotted (batch_commands b)))"
    using ascending_distinct [OF batch_commands_spec(1) [OF assms]] by (simp add: slotted_def comp_def)
  have "winning_command cs (command_slot c) = Some c \<longleftrightarrow>
      (command_slot c, c) \<in> set (slotted (batch_commands b))"
    by (simp add: batch_commands_spec(2) [OF assms, symmetric] d)
  then show ?thesis by (auto simp: slotted_def)
qed

definition sample_submission :: "command list" where
  "sample_submission =
     [ThrustCommand (EntityId 3) \<lparr>vx = 1, vy = 0\<rparr> None False, StartMatchCommand (ControllerId 4),
      ThrustCommand (EntityId 3) \<lparr>vx = 0, vy = 1\<rparr> None True, DespawnCommand (EntityId 9)]"

lemma sample_submission_batch:
  "input_batch_create sample_submission mask_all_bits reservation_none =
     Inr \<lparr>batch_commands =
       [DespawnCommand (EntityId 9), ThrustCommand (EntityId 3) \<lparr>vx = 0, vy = 1\<rparr> None True,
        StartMatchCommand (ControllerId 4)], batch_reservation = reservation_none\<rparr>"
  by (simp add: input_batch_create_def sample_submission_def validate_command_def
      kMaximumInputBatchCommandCount_def validate_direction_range_def within_direction_component_range_def
      validate_generation_def validate_despawn_target_def reservation_contains_def reservation_none_def
      ordered_of_def of_entity_def of_controller_def comparison_key_def less_prod_def)

text \<open>
  C8: a created batch is canonical. Its commands are strictly ascending by (application rank of
  the kind, addressed identity), so no kind occurs twice for one identity, and the command it
  holds for a slot is the last one submitted for that slot, whatever the submission order of the
  others: a command is in the batch exactly if it was submitted at some position and nothing later
  was submitted for its slot. The reservation is carried unchanged.
\<close>

theorem input_batch_create_canonical:
  assumes "input_batch_create cs accepted r = Inr b"
  shows "ascending (map command_slot (batch_commands b)) \<and>
    (c \<in> set (batch_commands b) \<longleftrightarrow>
      (\<exists>i<length cs. cs ! i = c \<and>
        (\<forall>j. i < j \<and> j < length cs \<longrightarrow> command_slot (cs ! j) \<noteq> command_slot c))) \<and>
    batch_reservation b = r"
  using assms by (simp_all add: batch_commands_spec batch_members winning_command_last)

theorem input_batch_create_canonical_witness:
  "\<exists>i<length sample_submission.
     sample_submission ! i = ThrustCommand (EntityId 3) \<lparr>vx = 0, vy = 1\<rparr> None True \<and>
     (\<forall>j. i < j \<and> j < length sample_submission \<longrightarrow>
       command_slot (sample_submission ! j) \<noteq>
       command_slot (ThrustCommand (EntityId 3) \<lparr>vx = 0, vy = 1\<rparr> None True))"
  using input_batch_create_canonical
    [OF sample_submission_batch, of "ThrustCommand (EntityId 3) \<lparr>vx = 0, vy = 1\<rparr> None True"]
  by simp

text \<open>
  the batch is a function of what won. Two accepted submissions under one reservation, of any
  lengths and orders, build the same batch exactly if the last command submitted for each slot is
  the same in both, so the arrival order of commands of different slots never reaches the kernel.
\<close>

theorem input_batch_order_independent:
  assumes "input_batch_create cs accepted r = Inr b"
    and "input_batch_create ds accepted' r = Inr b'"
  shows "b = b' \<longleftrightarrow> winning_command cs = winning_command ds"
proof
  assume "b = b'"
  then show "winning_command cs = winning_command ds"
    using batch_commands_spec(2) [OF assms(1)] batch_commands_spec(2) [OF assms(2)] by simp
next
  assume "winning_command cs = winning_command ds"
  then have "batch_commands b = batch_commands b'"
    using batch_commands_spec(1,2) [OF assms(1)] batch_commands_spec(1,2) [OF assms(2)]
    by (intro slotted_determined) simp_all
  then show "b = b'"
    using batch_commands_spec(3) [OF assms(1)] batch_commands_spec(3) [OF assms(2)]
    by (intro input_batch.equality) simp_all
qed

lemma canonical_resubmitted:
  "input_batch_create
     [StartMatchCommand (ControllerId 4), ThrustCommand (EntityId 3) \<lparr>vx = 0, vy = 1\<rparr> None True,
      DespawnCommand (EntityId 9)] mask_all_bits reservation_none =
     Inr \<lparr>batch_commands =
       [DespawnCommand (EntityId 9), ThrustCommand (EntityId 3) \<lparr>vx = 0, vy = 1\<rparr> None True,
        StartMatchCommand (ControllerId 4)], batch_reservation = reservation_none\<rparr>"
  by (simp add: input_batch_create_def validate_command_def
      kMaximumInputBatchCommandCount_def validate_direction_range_def within_direction_component_range_def
      validate_generation_def validate_despawn_target_def reservation_contains_def reservation_none_def
      ordered_of_def of_entity_def of_controller_def comparison_key_def less_prod_def)

theorem input_batch_order_independent_witness:
  "winning_command sample_submission = winning_command
     [StartMatchCommand (ControllerId 4), ThrustCommand (EntityId 3) \<lparr>vx = 0, vy = 1\<rparr> None True,
      DespawnCommand (EntityId 9)]"
  using input_batch_order_independent [OF sample_submission_batch canonical_resubmitted] by simp

text \<open>The bounds of a payload, kind by kind.\<close>

definition payload_within :: "reservation \<Rightarrow> command \<Rightarrow> bool" where
  "payload_within r c \<longleftrightarrow>
       (case c of
          ThrustCommand e d g b \<Rightarrow>
            - 1 \<le> vx d \<and> vx d \<le> 1 \<and> - 1 \<le> vy d \<and> vy d \<le> 1 \<and> g \<noteq> Some (Tick 0)
        | ChargeCommand e d g \<Rightarrow>
            - 1 \<le> vx d \<and> vx d \<le> 1 \<and> - 1 \<le> vy d \<and> vy d \<le> 1 \<and> g \<noteq> Some (Tick 0)
        | ShieldCommand e g \<Rightarrow> g \<noteq> Some (Tick 0)
        | RotateVelocityCommand e w g \<Rightarrow> g \<noteq> Some (Tick 0)
        | DespawnCommand e \<Rightarrow>
            unat (entity_value e) < unat (entity_value (first_id r)) \<or>
            unat (entity_value (first_id r)) + unat (id_count r) \<le> unat (entity_value e)
        | SeatNpcCommand ctl i k p \<Rightarrow> unat i < 64
        | ClearSeatCommand ctl i \<Rightarrow> unat i < 64
        | SetSeatCountCommand ctl n \<Rightarrow> 1 \<le> unat n \<and> unat n \<le> 64
        | JoinCommand ctl i d \<Rightarrow>
            (case i of None \<Rightarrow> d = None | Some i \<Rightarrow> unat i < 64) \<and>
            (case d of None \<Rightarrow> True | Some declaration \<Rightarrow> declared_kind declaration \<noteq> [])
        | SetMovementTuningCommand ctl q v t \<Rightarrow>
            1 \<le> unat q \<and> unat q \<le> 2 ^ 53 - 1 \<and> unat v \<le> 2 ^ 53 - 1
        | SpawnCommand ctl \<Rightarrow> True
        | StartMatchCommand ctl \<Rightarrow> True
        | LeaveCommand ctl \<Rightarrow> True)"

lemma payload_bounds:
  assumes "valid_reservation r"
  shows "validate_payload c r = Inr () \<longleftrightarrow> payload_within r c"
proof -
  have unit: "\<bar>x :: rat\<bar> \<le> 1 \<longleftrightarrow> - 1 \<le> x \<and> x \<le> 1" for x by (auto simp: abs_le_iff)
  have positive: "q \<noteq> 0 \<longleftrightarrow> 1 \<le> unat q" for q :: u64 by (auto simp: u64_eq_iff)
  show ?thesis
    using assms
    by (cases c)
      (auto simp: payload_within_def validate_direction_range_def within_direction_component_range_def unit
        validate_generation_def tick_zero_def validate_despawn_target_def reservation_contains_range
        validate_seat_index_def validate_seat_count_def validate_join_def declaration_is_valid_def
        validate_tuning_def kMinimumSeatCount_def kMaximumSeatCount_def word_less_nat_alt positive not_less
        try_then_Inr_iff split: if_splits option.splits)
qed

text \<open>
  C24: exactly these submissions are accepted: at most 65536 commands, each of a kind the match's mode
  accepts and each with a payload inside its bounds, written out below for every kind. Both components of
  a thrust's or a charge's direction lie in \<open>[-1, 1]\<close>; an input generation is not tick zero; a despawn names
  no id of the tick's own reservation; a seat index is below 64 and a seat count between 1 and 64; a join
  that declares an NPC names a seat and a kind; a tuning request has an id from 1 to \<open>2 ^ 53 - 1\<close> and a
  revision up to it. One bad command rejects the whole submission; nothing is dropped or clamped.
\<close>

theorem input_batch_create_accepts_iff:
  assumes "valid_reservation r"
  shows "(\<exists>b. input_batch_create cs accepted r = Inr b) \<longleftrightarrow>
     length cs \<le> 65536 \<and>
     list_all (\<lambda>c. mask_contains accepted (command_kind_of c) \<and>
       (case c of
          ThrustCommand e d g b \<Rightarrow>
            - 1 \<le> vx d \<and> vx d \<le> 1 \<and> - 1 \<le> vy d \<and> vy d \<le> 1 \<and> g \<noteq> Some (Tick 0)
        | ChargeCommand e d g \<Rightarrow>
            - 1 \<le> vx d \<and> vx d \<le> 1 \<and> - 1 \<le> vy d \<and> vy d \<le> 1 \<and> g \<noteq> Some (Tick 0)
        | ShieldCommand e g \<Rightarrow> g \<noteq> Some (Tick 0)
        | RotateVelocityCommand e w g \<Rightarrow> g \<noteq> Some (Tick 0)
        | DespawnCommand e \<Rightarrow>
            unat (entity_value e) < unat (entity_value (first_id r)) \<or>
            unat (entity_value (first_id r)) + unat (id_count r) \<le> unat (entity_value e)
        | SeatNpcCommand ctl i k p \<Rightarrow> unat i < 64
        | ClearSeatCommand ctl i \<Rightarrow> unat i < 64
        | SetSeatCountCommand ctl n \<Rightarrow> 1 \<le> unat n \<and> unat n \<le> 64
        | JoinCommand ctl i d \<Rightarrow>
            (case i of None \<Rightarrow> d = None | Some i \<Rightarrow> unat i < 64) \<and>
            (case d of None \<Rightarrow> True | Some declaration \<Rightarrow> declared_kind declaration \<noteq> [])
        | SetMovementTuningCommand ctl q v t \<Rightarrow>
            1 \<le> unat q \<and> unat q \<le> 2 ^ 53 - 1 \<and> unat v \<le> 2 ^ 53 - 1
        | SpawnCommand ctl \<Rightarrow> True
        | StartMatchCommand ctl \<Rightarrow> True
        | LeaveCommand ctl \<Rightarrow> True)) cs"
proof -
  have v: "validate_command c accepted r = Inr () \<longleftrightarrow>
      mask_contains accepted (command_kind_of c) \<and> payload_within r c" for c
    using payload_bounds [OF assms, of c] by (simp add: validate_command_def)
  have "(\<exists>b. input_batch_create cs accepted r = Inr b) \<longleftrightarrow>
      length cs \<le> kMaximumInputBatchCommandCount \<and> list_all (\<lambda>c. validate_command c accepted r = Inr ()) cs"
    unfolding list_all_iff using batch_commands_spec(4,5) input_batch_create_accepts by blast
  then show ?thesis unfolding v payload_within_def kMaximumInputBatchCommandCount_def .
qed

text \<open>The first submission is inside every bound; a seat index of 64, or the despawn of a reserved id, is not.\<close>

theorem input_batch_create_accepts_iff_witness:
  "(\<exists>b. input_batch_create [ClearSeatCommand (ControllerId 4) 63, DespawnCommand (EntityId 9)] mask_all_bits
      \<lparr>first_id = EntityId 10, id_count = 3\<rparr> = Inr b) \<and>
   \<not> (\<exists>b. input_batch_create [ClearSeatCommand (ControllerId 4) 64] mask_all_bits
      \<lparr>first_id = EntityId 10, id_count = 3\<rparr> = Inr b) \<and>
   \<not> (\<exists>b. input_batch_create [DespawnCommand (EntityId 12)] mask_all_bits
      \<lparr>first_id = EntityId 10, id_count = 3\<rparr> = Inr b)"
proof -
  have r: "valid_reservation \<lparr>first_id = EntityId 10, id_count = 3\<rparr>"
    by (simp add: valid_reservation_def valid_entity_id_def)
  show ?thesis unfolding input_batch_create_accepts_iff [OF r] by simp
qed

end
