(* ===== verification/Binary64.thy ===== *)
theory Binary64
  imports Validation_Error
begin

text \<open>
  IEEE 754 binary64 arithmetic, as the simulation relies on it: every operation is the exact result
  rounded once to the nearest representable value, ties to even (the build forbids contraction, and
  simulation_limits.hpp asserts the format). A finite value is the rational number it stands for, so
  the two zeros are one value here; the code canonicalises the sign of a zero wherever it stores one.
\<close>

section \<open>Rounding to 53 bits\<close>

fun bit_count :: "nat \<Rightarrow> nat" where
  "bit_count n = (if n = 0 then 0 else Suc (bit_count (n div 2)))"

declare bit_count.simps [simp del]

text \<open>The exponent of a nonzero value: the largest power of two not above its magnitude.\<close>

definition exponent_of :: "rat \<Rightarrow> int" where
  "exponent_of x =
     (let (n, d) = quotient_of \<bar>x\<bar>; k = int (bit_count (nat n)) - int (bit_count (nat d))
      in if 2 powi k \<le> \<bar>x\<bar> then k else k - 1)"

text \<open>The spacing of the representable values around a value, that of the subnormals near zero.\<close>

definition quantum_exponent :: "rat \<Rightarrow> int" where
  "quantum_exponent x = max (exponent_of x - 52) (- 1074)"

definition quantum :: "rat \<Rightarrow> rat" where
  "quantum x = 2 powi quantum_exponent x"

definition round_half_even :: "rat \<Rightarrow> int" where
  "round_half_even z =
     (let f = \<lfloor>z\<rfloor>; r = z - of_int f
      in if r < 1 / 2 then f else if r > 1 / 2 then f + 1 else if even f then f else f + 1)"

definition rounded :: "rat \<Rightarrow> rat" where
  "rounded x = (if x = 0 then 0 else of_int (round_half_even (x / quantum x)) * quantum x)"

definition largest_finite :: rat where
  "largest_finite = of_int (2 ^ 53 - 1) * 2 ^ 971"

section \<open>Exponents\<close>

lemma bit_count_bounds: "n > 0 \<Longrightarrow> bit_count n > 0 \<and> 2 ^ (bit_count n - 1) \<le> n \<and> n < 2 ^ bit_count n"
proof (induction n rule: bit_count.induct)
  case (1 n)
  show ?case
  proof (cases "n div 2 = 0")
    case True
    with 1 have "n = 1" by auto
    then show ?thesis by (simp add: bit_count.simps)
  next
    case False
    with 1 have ih: "bit_count (n div 2) > 0" "2 ^ (bit_count (n div 2) - 1) \<le> n div 2"
      "n div 2 < 2 ^ bit_count (n div 2)" by auto
    have "(2 :: nat) ^ bit_count (n div 2) = 2 * 2 ^ (bit_count (n div 2) - 1)"
      using ih(1) by (cases "bit_count (n div 2)") simp_all
    then have "2 ^ bit_count (n div 2) \<le> n" using ih(2) by linarith
    moreover have "n < 2 * 2 ^ bit_count (n div 2)" using ih(3) by linarith
    moreover have "bit_count n = Suc (bit_count (n div 2))"
      using "1.prems" by (subst bit_count.simps) simp
    ultimately show ?thesis by simp
  qed
qed

lemma powi_less_iff: "(2 :: rat) powi a < 2 powi b \<longleftrightarrow> a < b"
  using power_int_strict_increasing [of a b "2 :: rat"] power_int_increasing [of b a "2 :: rat"] by force

lemma powi_le_iff: "(2 :: rat) powi a \<le> 2 powi b \<longleftrightarrow> a \<le> b"
  using powi_less_iff [of b a] by (simp add: not_less [symmetric])

lemma powi_Suc: "(2 :: rat) powi (a + 1) = 2 * 2 powi a"
  by (simp add: power_int_add)

lemma powi_pos: "(2 :: rat) powi a > 0"
  by simp

lemma exponent_of_bounds:
  assumes "x \<noteq> 0"
  shows "2 powi exponent_of x \<le> \<bar>x\<bar>" and "\<bar>x\<bar> < 2 powi (exponent_of x + 1)"
proof -
  obtain n d where q: "quotient_of \<bar>x\<bar> = (n, d)" by (cases "quotient_of \<bar>x\<bar>")
  have d: "d > 0" using quotient_of_denom_pos [OF q] .
  have xq: "\<bar>x\<bar> = of_int n / of_int d" by (rule quotient_of_div [OF q])
  have n: "n > 0"
  proof (rule ccontr)
    assume "\<not> n > 0"
    then have "(of_int n :: rat) / of_int d \<le> 0" using d by (simp add: divide_nonpos_pos)
    with xq assms show False by simp
  qed
  define a where "a = bit_count (nat n)"
  define b where "b = bit_count (nat d)"
  have a: "a > 0" "2 ^ (a - 1) \<le> nat n" "nat n < 2 ^ a"
    and b: "b > 0" "2 ^ (b - 1) \<le> nat d" "nat d < 2 ^ b"
    using bit_count_bounds [of "nat n"] bit_count_bounds [of "nat d"] n d by (simp_all add: a_def b_def)
  have cast: "(of_int m :: rat) = of_nat (nat m)" if "m > 0" for m using that by simp
  have ra: "(2 :: rat) ^ (a - 1) \<le> of_int n" "(of_int n :: rat) < 2 ^ a"
    using a(2,3) unfolding cast [OF n]
    by (metis of_nat_le_iff of_nat_numeral of_nat_power, metis of_nat_less_iff of_nat_numeral of_nat_power)
  have rb: "(2 :: rat) ^ (b - 1) \<le> of_int d" "(of_int d :: rat) < 2 ^ b"
    using b(2,3) unfolding cast [OF d]
    by (metis of_nat_le_iff of_nat_numeral of_nat_power, metis of_nat_less_iff of_nat_numeral of_nat_power)
  define k where "k = int a - int b"
  have low: "2 powi (k - 1) \<le> \<bar>x\<bar>"
  proof -
    have "(2 :: rat) powi (k - 1) = 2 ^ (a - 1) / 2 ^ b"
      using a(1) by (simp add: k_def power_int_diff of_nat_diff [symmetric] power_diff)
    also have "\<dots> \<le> of_int n / of_int d"
      using ra(1) rb(2) d n by (intro frac_le) auto
    finally show ?thesis by (simp add: xq)
  qed
  have high: "\<bar>x\<bar> < 2 powi (k + 1)"
  proof -
    have "of_int n / of_int d < (2 :: rat) ^ a / 2 ^ (b - 1)"
      using ra rb d n by (intro frac_less) auto
    also have "\<dots> = 2 powi (k + 1)"
      using b(1) by (simp add: k_def power_int_add power_int_diff power_diff)
    finally show ?thesis by (simp add: xq)
  qed
  have e: "exponent_of x = (if 2 powi k \<le> \<bar>x\<bar> then k else k - 1)"
    by (simp add: exponent_of_def q a_def b_def k_def)
  show "2 powi exponent_of x \<le> \<bar>x\<bar>" "\<bar>x\<bar> < 2 powi (exponent_of x + 1)"
    using low high by (auto simp: e)
qed

lemma exponent_of_unique:
  assumes "2 powi k \<le> \<bar>x\<bar>" and "\<bar>x\<bar> < 2 powi (k + 1)"
  shows "exponent_of x = k"
proof -
  have "x \<noteq> 0" using assms(1) powi_pos [of k] by (metis abs_zero not_less)
  note b = exponent_of_bounds [OF this]
  have "2 powi k < (2 :: rat) powi (exponent_of x + 1)" using assms(1) b(2) by (rule le_less_trans)
  moreover have "2 powi exponent_of x < (2 :: rat) powi (k + 1)" using b(1) assms(2) by (rule le_less_trans)
  ultimately show ?thesis by (simp add: powi_less_iff)
qed

lemma exponent_of_minus [simp]: "exponent_of (- x) = exponent_of x"
  by (simp add: exponent_of_def)

lemma exponent_of_mono:
  assumes "0 < x" and "x \<le> y"
  shows "exponent_of x \<le> exponent_of y"
proof -
  have "2 powi exponent_of x \<le> x" using exponent_of_bounds(1) [of x] assms(1) by simp
  also have "x < 2 powi (exponent_of y + 1)"
    using exponent_of_bounds(2) [of y] assms by (intro order_le_less_trans [OF assms(2)]) simp
  finally show ?thesis by (simp add: powi_less_iff)
qed

section \<open>Rounding\<close>

lemma quantum_pos [simp]: "quantum x > 0"
  by (simp add: quantum_def)

lemma quantum_nonneg [simp]: "0 \<le> quantum x" "quantum x \<noteq> 0"
  using quantum_pos [of x] by linarith+

lemma quantum_minus [simp]: "quantum (- x) = quantum x"
  by (simp add: quantum_def quantum_exponent_def)

lemma round_half_even_of_int [simp]: "round_half_even (of_int n) = n"
  by (simp add: round_half_even_def)

lemma round_half_even_numeral [simp]: "round_half_even (numeral k) = numeral k" "round_half_even 0 = 0"
  using round_half_even_of_int [of "numeral k"] round_half_even_of_int [of 0] by simp_all

lemma round_half_even_near: "\<bar>of_int (round_half_even z) - z\<bar> \<le> 1 / 2"
  by (simp add: round_half_even_def Let_def abs_if) linarith

lemma round_half_even_mono: "y \<le> z \<Longrightarrow> round_half_even y \<le> round_half_even z"
proof (cases "\<lfloor>y\<rfloor> = \<lfloor>z\<rfloor>")
  case True
  then show "y \<le> z \<Longrightarrow> round_half_even y \<le> round_half_even z"
    by (simp add: round_half_even_def Let_def)
next
  case False
  have "round_half_even y \<le> \<lfloor>y\<rfloor> + 1" by (simp add: round_half_even_def Let_def)
  moreover have "\<lfloor>z\<rfloor> \<le> round_half_even z" by (simp add: round_half_even_def Let_def)
  moreover assume "y \<le> z"
  ultimately show "round_half_even y \<le> round_half_even z" using False floor_mono [of y z] by linarith
qed

lemma round_half_even_minus: "round_half_even (- z) = - round_half_even z"
proof (cases "z = of_int \<lfloor>z\<rfloor>")
  case True
  then show ?thesis by (metis of_int_minus round_half_even_of_int)
next
  case False
  then have f: "\<lfloor>- z\<rfloor> = - \<lfloor>z\<rfloor> - 1"
    by (intro floor_unique) linarith+
  show ?thesis unfolding round_half_even_def Let_def f by (auto simp: field_simps)
qed

lemma rounded_zero [simp]: "rounded 0 = 0"
  by (simp add: rounded_def)

lemma rounded_minus [simp]: "rounded (- x) = - rounded x"
  by (simp add: rounded_def round_half_even_minus)

section \<open>Representable values\<close>

text \<open>A multiple of a power of two not below the subnormal spacing, with a 53-bit multiple.\<close>

definition representable :: "rat \<Rightarrow> bool" where
  "representable x \<longleftrightarrow> (\<exists>m q. x = of_int m * 2 powi q \<and> \<bar>m\<bar> \<le> 2 ^ 53 \<and> - 1074 \<le> q)"

lemma representableI: "\<bar>m\<bar> \<le> 2 ^ 53 \<Longrightarrow> - 1074 \<le> q \<Longrightarrow> representable (of_int m * 2 powi q)"
  unfolding representable_def by blast

lemma representable_of_int: "\<bar>m\<bar> \<le> 2 ^ 53 \<Longrightarrow> representable (of_int m)"
  using representableI [of m 0] by simp

lemma representable_powi: "- 1074 \<le> q \<Longrightarrow> representable (2 powi q)"
  using representableI [of 1 q] by simp

lemma representable_minus [simp]: "representable (- x) \<longleftrightarrow> representable x"
proof -
  have "representable x \<Longrightarrow> representable (- x)" for x
  proof -
    assume "representable x"
    then obtain m q where "x = of_int m * 2 powi q" "\<bar>m\<bar> \<le> 2 ^ 53" "- 1074 \<le> q"
      unfolding representable_def by blast
    then show ?thesis using representableI [of "- m" q] by simp
  qed
  from this [of x] this [of "- x"] show ?thesis by auto
qed

lemma representable_abs [simp]: "representable \<bar>x\<bar> \<longleftrightarrow> representable x"
  by (simp add: abs_if)

text \<open>A representable value is a whole number of quanta.\<close>

lemma representable_quanta:
  assumes "representable x" and "x \<noteq> 0"
  shows "\<exists>n. x / quantum x = of_int n"
proof -
  obtain m q where x: "x = of_int m * 2 powi q" and m: "\<bar>m\<bar> \<le> 2 ^ 53" and q: "- 1074 \<le> q"
    using assms(1) unfolding representable_def by blast
  have m0: "m \<noteq> 0" using assms(2) x by auto
  show ?thesis
  proof (cases "quantum_exponent x \<le> q")
    case True
    then have "x / quantum x = of_int m * 2 powi (q - quantum_exponent x)"
      by (simp add: x quantum_def power_int_diff)
    also have "\<dots> = of_int (m * 2 ^ nat (q - quantum_exponent x))"
      using True by (simp add: power_int_nonneg_exp)
    finally show ?thesis by blast
  next
    case False
    then have e: "quantum_exponent x = exponent_of x - 52" and up: "q < exponent_of x - 52"
      using q by (auto simp: quantum_exponent_def max_def split: if_splits)
    have "2 powi exponent_of x \<le> \<bar>x\<bar>" using exponent_of_bounds(1) [OF assms(2)] .
    also have "\<bar>x\<bar> = of_int \<bar>m\<bar> * 2 powi q" by (simp add: x abs_mult)
    also have "\<dots> \<le> 2 ^ 53 * 2 powi q"
      using m by (intro mult_right_mono) (simp_all flip: of_int_le_iff)
    also have "\<dots> = 2 powi (q + 53)" by (simp add: power_int_add)
    finally have "exponent_of x \<le> q + 53" by (simp add: powi_le_iff)
    with up have "exponent_of x = q + 53" by simp
    with exponent_of_bounds(1) [OF assms(2)] have "(2 :: rat) powi (q + 53) \<le> of_int \<bar>m\<bar> * 2 powi q"
      by (simp add: x abs_mult)
    then have "(2 :: rat) ^ 53 \<le> of_int \<bar>m\<bar>" by (simp add: power_int_add)
    then have "2 ^ 53 \<le> \<bar>m\<bar>" by (metis of_int_le_iff of_int_numeral of_int_power)
    with m have m53: "\<bar>m\<bar> = 2 ^ 53" by simp
    have "x / quantum x = of_int m * 2 powi q / 2 powi (q + 1)"
      using \<open>exponent_of x = q + 53\<close> e by (simp add: x quantum_def add.commute)
    also have "\<dots> = of_int m / 2" by (simp add: power_int_add)
    also have "\<dots> = of_int (m div 2)"
    proof -
      have "m = 2 ^ 53 \<or> m = - (2 ^ 53)" using m53 by (simp add: abs_if split: if_splits)
      then show ?thesis by (elim disjE) simp_all
    qed
    finally show ?thesis by blast
  qed
qed

lemma rounded_representable:
  assumes "representable x"
  shows "rounded x = x"
proof (cases "x = 0")
  case False
  then obtain n where n: "x / quantum x = of_int n" using representable_quanta [OF assms] by blast
  then have "x = of_int n * quantum x" using quantum_pos [of x] by (simp add: field_simps)
  then show ?thesis using False n by (simp add: rounded_def)
qed simp

lemma exponent_of_quantum:
  assumes "x \<noteq> 0"
  shows "\<bar>x\<bar> / quantum x < 2 ^ 53"
proof -
  have "exponent_of x + 1 \<le> quantum_exponent x + 53" by (simp add: quantum_exponent_def)
  then have "(2 :: rat) powi (exponent_of x + 1) \<le> 2 powi (quantum_exponent x + 53)" by (simp only: powi_le_iff)
  also have "\<dots> = 2 ^ 53 * quantum x" by (simp add: quantum_def power_int_add)
  finally show ?thesis
    using exponent_of_bounds(2) [OF assms] quantum_pos [of x] by (simp add: field_simps)
qed

lemma rounded_is_representable: "representable (rounded x)"
proof (cases "x = 0")
  case True
  then show ?thesis using representable_of_int [of 0] by simp
next
  case False
  have "\<bar>round_half_even (x / quantum x)\<bar> \<le> 2 ^ 53"
  proof -
    have bound: "round_half_even z \<le> 2 ^ 53" if "z < 2 ^ 53" for z
      using round_half_even_mono [of z "2 ^ 53"] that by simp
    have "x / quantum x \<le> \<bar>x\<bar> / quantum x" "- x / quantum x \<le> \<bar>x\<bar> / quantum x"
      by (rule divide_right_mono; simp)+
    then have "x / quantum x < 2 ^ 53" "- (x / quantum x) < 2 ^ 53"
      using exponent_of_quantum [OF False] by simp_all
    from bound [OF this(1)] bound [OF this(2)] show ?thesis by (simp add: round_half_even_minus)
  qed
  moreover have "- 1074 \<le> quantum_exponent x" by (simp add: quantum_exponent_def)
  ultimately show ?thesis using False by (simp add: rounded_def quantum_def representableI)
qed

lemma rounded_rounded [simp]: "rounded (rounded x) = rounded x"
  by (rule rounded_representable [OF rounded_is_representable])

section \<open>Rounding is monotone\<close>

lemma rounded_nonneg:
  assumes "0 \<le> x"
  shows "0 \<le> rounded x"
proof -
  have "0 \<le> x / quantum x" using assms by simp
  then have "0 \<le> round_half_even (x / quantum x)" using round_half_even_mono [of 0] by simp
  then show ?thesis by (simp add: rounded_def)
qed

lemma rounded_mono_pos:
  assumes "0 < x" and "x \<le> y"
  shows "rounded x \<le> rounded y"
proof (cases "quantum_exponent x = quantum_exponent y")
  case True
  then have q: "quantum x = quantum y" by (simp add: quantum_def)
  have "round_half_even (x / quantum y) \<le> round_half_even (y / quantum y)"
    using assms by (intro round_half_even_mono divide_right_mono) simp_all
  then show ?thesis using assms q by (simp add: rounded_def)
next
  case False
  have e: "exponent_of x \<le> exponent_of y" by (rule exponent_of_mono [OF assms])
  with False have lt: "exponent_of x < exponent_of y" "quantum_exponent y = exponent_of y - 52"
    "quantum_exponent x \<le> exponent_of y"
    by (auto simp: quantum_exponent_def max_def split: if_splits)
  define t where "t = (2 :: rat) powi exponent_of y"
  have "x < t"
    using exponent_of_bounds(2) [of x] assms lt(1) powi_le_iff [of "exponent_of x + 1" "exponent_of y"]
    unfolding t_def by (auto intro: less_le_trans)
  have "t \<le> y" using exponent_of_bounds(1) [of y] assms by (simp add: t_def)
  have "rounded x \<le> t"
  proof -
    define n where "n = (2 :: int) ^ nat (exponent_of y - quantum_exponent x)"
    have t: "t = of_int n * quantum x"
      using lt(3) by (simp add: t_def n_def quantum_def power_int_nonneg_exp [symmetric] power_int_diff)
    then have "x / quantum x \<le> of_int n" using \<open>x < t\<close> by (simp add: field_simps)
    then have "round_half_even (x / quantum x) \<le> n"
      using round_half_even_mono [of "x / quantum x" "of_int n"] by simp
    then show ?thesis using assms(1) by (simp add: rounded_def t)
  qed
  moreover have "t \<le> rounded y"
  proof -
    have t: "t = of_int (2 ^ 52) * quantum y"
      by (simp add: t_def quantum_def lt(2) power_int_diff)
    then have "of_int (2 ^ 52) \<le> y / quantum y" using \<open>t \<le> y\<close> by (simp add: field_simps)
    then have "2 ^ 52 \<le> round_half_even (y / quantum y)"
      using round_half_even_mono [of "of_int (2 ^ 52)" "y / quantum y"] unfolding round_half_even_of_int by blast
    then have "of_int (2 ^ 52) * quantum y \<le> of_int (round_half_even (y / quantum y)) * quantum y"
      by (intro mult_right_mono) (simp_all only: of_int_le_iff less_imp_le quantum_pos)
    then show ?thesis using assms by (simp add: rounded_def t)
  qed
  ultimately show ?thesis by simp
qed

lemma rounded_mono:
  assumes "x \<le> y"
  shows "rounded x \<le> rounded y"
proof -
  consider "0 < x" | "y < 0" | "x \<le> 0" "0 \<le> y" using assms by linarith
  then show ?thesis
  proof cases
    case 1
    then show ?thesis using rounded_mono_pos assms by blast
  next
    case 2
    then have "rounded (- y) \<le> rounded (- x)" using assms by (intro rounded_mono_pos) simp_all
    then show ?thesis by simp
  next
    case 3
    then have "0 \<le> rounded (- x)" "0 \<le> rounded y" by (simp_all add: rounded_nonneg del: rounded_minus)
    then show ?thesis by simp
  qed
qed

lemma rounded_le: "x \<le> y \<Longrightarrow> representable y \<Longrightarrow> rounded x \<le> y"
  using rounded_mono [of x y] by (simp add: rounded_representable)

lemma rounded_ge: "y \<le> x \<Longrightarrow> representable y \<Longrightarrow> y \<le> rounded x"
  using rounded_mono [of y x] by (simp add: rounded_representable)

text \<open>The error of one rounding is at most half a quantum, hence a half unit in the last place.\<close>

lemma rounded_near: "\<bar>rounded x - x\<bar> \<le> quantum x / 2"
proof (cases "x = 0")
  case False
  have "rounded x - x = (of_int (round_half_even (x / quantum x)) - x / quantum x) * quantum x"
    using False quantum_pos [of x] by (simp add: rounded_def field_simps)
  then have "\<bar>rounded x - x\<bar> = \<bar>of_int (round_half_even (x / quantum x)) - x / quantum x\<bar> * quantum x"
    by (simp add: abs_mult)
  also have "\<dots> \<le> 1 / 2 * quantum x"
    by (rule mult_right_mono [OF round_half_even_near]) (simp add: less_imp_le)
  finally show ?thesis by simp
qed simp

lemma quantum_le: "x \<noteq> 0 \<Longrightarrow> quantum x \<le> \<bar>x\<bar> / 2 ^ 52 + 2 powi (- 1074)"
proof -
  assume "x \<noteq> 0"
  have "quantum x \<le> 2 powi (exponent_of x - 52) + 2 powi (- 1074)"
    unfolding quantum_def quantum_exponent_def max_def by (auto simp: less_imp_le powi_pos)
  also have "(2 :: rat) powi (exponent_of x - 52) = 2 powi exponent_of x / 2 ^ 52"
    by (simp add: power_int_diff)
  also have "\<dots> \<le> \<bar>x\<bar> / 2 ^ 52"
    using exponent_of_bounds(1) [OF \<open>x \<noteq> 0\<close>] by (simp add: divide_right_mono)
  finally show ?thesis by simp
qed

lemma rounded_error: "\<bar>rounded x - x\<bar> \<le> \<bar>x\<bar> / 2 ^ 53 + 2 powi (- 1075)"
proof (cases "x = 0")
  case False
  have "\<bar>rounded x - x\<bar> \<le> quantum x / 2" by (rule rounded_near)
  also have "\<dots> \<le> (\<bar>x\<bar> / 2 ^ 52 + 2 powi (- 1074)) / 2"
    using quantum_le [OF False] by (simp add: divide_right_mono)
  also have "\<dots> = \<bar>x\<bar> / 2 ^ 53 + 2 powi (- 1074) / 2" by simp
  also have "(2 :: rat) powi (- 1074) / 2 = 2 powi (- 1075)"
    using powi_Suc [of "- 1075"] by simp
  finally show ?thesis by simp
qed simp

section \<open>Doubles\<close>

datatype double = Finite rat | Infinite bool | NotANumber

text \<open>\<open>Infinite True\<close> is the positive infinity. A result of too large a magnitude overflows to it.\<close>

definition to_double :: "rat \<Rightarrow> double" where
  "to_double x = (if \<bar>rounded x\<bar> > largest_finite then Infinite (x > 0) else Finite (rounded x))"

primrec is_finite :: "double \<Rightarrow> bool" where
  "is_finite (Finite x) = True"
| "is_finite (Infinite s) = False"
| "is_finite NotANumber = False"

primrec fneg :: "double \<Rightarrow> double" where
  "fneg (Finite x) = Finite (- x)"
| "fneg (Infinite s) = Infinite (\<not> s)"
| "fneg NotANumber = NotANumber"

primrec fabs :: "double \<Rightarrow> double" where
  "fabs (Finite x) = Finite \<bar>x\<bar>"
| "fabs (Infinite s) = Infinite True"
| "fabs NotANumber = NotANumber"

fun fadd :: "double \<Rightarrow> double \<Rightarrow> double" where
  "fadd (Finite x) (Finite y) = to_double (x + y)"
| "fadd (Infinite s) (Infinite t) = (if s = t then Infinite s else NotANumber)"
| "fadd (Infinite s) (Finite y) = Infinite s"
| "fadd (Finite x) (Infinite t) = Infinite t"
| "fadd _ _ = NotANumber"

definition fsub :: "double \<Rightarrow> double \<Rightarrow> double" where
  "fsub x y = fadd x (fneg y)"

fun fmul :: "double \<Rightarrow> double \<Rightarrow> double" where
  "fmul (Finite x) (Finite y) = to_double (x * y)"
| "fmul (Infinite s) (Infinite t) = Infinite (s = t)"
| "fmul (Infinite s) (Finite y) = (if y = 0 then NotANumber else Infinite (s = (y > 0)))"
| "fmul (Finite x) (Infinite t) = (if x = 0 then NotANumber else Infinite ((x > 0) = t))"
| "fmul _ _ = NotANumber"

text \<open>A zero divisor is the positive zero: the code divides by no value whose zero could be negative.\<close>

fun fdiv :: "double \<Rightarrow> double \<Rightarrow> double" where
  "fdiv (Finite x) (Finite y) =
     (if y = 0 then (if x = 0 then NotANumber else Infinite (x > 0)) else to_double (x / y))"
| "fdiv (Infinite s) (Finite y) = Infinite (s = (y \<ge> 0))"
| "fdiv (Finite x) (Infinite t) = Finite 0"
| "fdiv _ _ = NotANumber"

text \<open>Comparisons are false on a NaN.\<close>

fun fless :: "double \<Rightarrow> double \<Rightarrow> bool" where
  "fless (Finite x) (Finite y) \<longleftrightarrow> x < y"
| "fless (Finite x) (Infinite t) \<longleftrightarrow> t"
| "fless (Infinite s) (Finite y) \<longleftrightarrow> \<not> s"
| "fless (Infinite s) (Infinite t) \<longleftrightarrow> \<not> s \<and> t"
| "fless _ _ \<longleftrightarrow> False"

fun fle :: "double \<Rightarrow> double \<Rightarrow> bool" where
  "fle (Finite x) (Finite y) \<longleftrightarrow> x \<le> y"
| "fle (Finite x) (Infinite t) \<longleftrightarrow> t"
| "fle (Infinite s) (Finite y) \<longleftrightarrow> \<not> s"
| "fle (Infinite s) (Infinite t) \<longleftrightarrow> \<not> s \<or> t"
| "fle _ _ \<longleftrightarrow> False"

fun feq :: "double \<Rightarrow> double \<Rightarrow> bool" where
  "feq (Finite x) (Finite y) \<longleftrightarrow> x = y"
| "feq (Infinite s) (Infinite t) \<longleftrightarrow> s = t"
| "feq _ _ \<longleftrightarrow> False"

text \<open>\<open>std::max\<close> and \<open>std::min\<close>: the first argument unless the second compares beyond it.\<close>

definition fmax :: "double \<Rightarrow> double \<Rightarrow> double" where
  "fmax a b = (if fless a b then b else a)"

definition fmin :: "double \<Rightarrow> double \<Rightarrow> double" where
  "fmin a b = (if fless b a then b else a)"

text \<open>\<open>std::fmod\<close>: the exact remainder of the division truncated towards zero.\<close>

definition truncated :: "rat \<Rightarrow> int" where
  "truncated x = (if x \<ge> 0 then \<lfloor>x\<rfloor> else \<lceil>x\<rceil>)"

fun fmod :: "double \<Rightarrow> double \<Rightarrow> double" where
  "fmod (Finite x) (Finite y) = (if y = 0 then NotANumber else Finite (x - of_int (truncated (x / y)) * y))"
| "fmod (Finite x) (Infinite t) = Finite x"
| "fmod _ _ = NotANumber"

section \<open>Square roots\<close>

fun integer_sqrt :: "nat \<Rightarrow> nat" where
  "integer_sqrt n =
     (if n = 0 then 0
      else let r = 2 * integer_sqrt (n div 4) in if (r + 1) * (r + 1) \<le> n then r + 1 else r)"

declare integer_sqrt.simps [simp del]

lemma integer_sqrt_bounds: "integer_sqrt n * integer_sqrt n \<le> n \<and> n < (integer_sqrt n + 1) * (integer_sqrt n + 1)"
proof (induction n rule: integer_sqrt.induct)
  case (1 n)
  show ?case
  proof (cases "n = 0")
    case True
    then show ?thesis by (simp add: integer_sqrt.simps)
  next
    case False
    define s where "s = integer_sqrt (n div 4)"
    have ih: "s * s \<le> n div 4" "n div 4 < (s + 1) * (s + 1)" using 1 [OF False] by (simp_all add: s_def)
    then have "4 * (s * s) \<le> n" "n < 4 * ((s + 1) * (s + 1))" by linarith+
    moreover have "integer_sqrt n = (if (2 * s + 1) * (2 * s + 1) \<le> n then 2 * s + 1 else 2 * s)"
      using False by (subst integer_sqrt.simps) (simp add: s_def Let_def)
    ultimately show ?thesis by (auto simp: algebra_simps)
  qed
qed

text \<open>The correctly rounded square root: the root is rounded down to a whole number of quanta, and
  the midpoint decides; it is never hit exactly, since its square has too many bits.\<close>

definition sqrt_exponent :: "rat \<Rightarrow> int" where
  "sqrt_exponent x = exponent_of x div 2 - 52"

definition rounded_sqrt :: "rat \<Rightarrow> rat" where
  "rounded_sqrt x =
     (if x = 0 then 0
      else let q = 2 powi sqrt_exponent x; z = x / (q * q);
               m = of_nat (integer_sqrt (nat \<lfloor>z\<rfloor>)) :: rat
        in (if z > (m + 1 / 2) * (m + 1 / 2) then m + 1 else m) * q)"

fun fsqrt :: "double \<Rightarrow> double" where
  "fsqrt (Finite x) = (if x < 0 then NotANumber else Finite (rounded_sqrt x))"
| "fsqrt (Infinite s) = (if s then Infinite True else NotANumber)"
| "fsqrt NotANumber = NotANumber"

section \<open>Finite results\<close>

lemma to_double_finite: "\<bar>rounded x\<bar> \<le> largest_finite \<Longrightarrow> to_double x = Finite (rounded x)"
  by (simp add: to_double_def)

lemma to_double_Finite_iff: "to_double x = Finite y \<longleftrightarrow> y = rounded x \<and> \<bar>rounded x\<bar> \<le> largest_finite"
  by (auto simp: to_double_def)

lemma representable_largest_finite: "representable largest_finite"
proof -
  have "representable (of_int (2 ^ 53 - 1) * 2 powi 971)" by (rule representableI) simp_all
  then show ?thesis by (simp add: largest_finite_def)
qed

lemma to_double_within:
  assumes "\<bar>x\<bar> \<le> largest_finite"
  shows "to_double x = Finite (rounded x)"
proof -
  have "rounded x \<le> largest_finite" "rounded (- x) \<le> largest_finite"
    using assms by (intro rounded_le representable_largest_finite; simp add: abs_le_iff)+
  then show ?thesis by (simp add: to_double_def abs_if)
qed

lemma rounded_abs: "rounded \<bar>x\<bar> = \<bar>rounded x\<bar>"
  using rounded_nonneg [of x] rounded_nonneg [of "- x"] by (auto simp: abs_if not_less)

lemma fsub_finite [simp]: "fsub (Finite x) (Finite y) = to_double (x - y)"
  by (simp add: fsub_def)

lemma to_double_representable: "representable x \<Longrightarrow> \<bar>x\<bar> \<le> largest_finite \<Longrightarrow> to_double x = Finite x"
  by (simp add: to_double_def rounded_representable)

section \<open>Small values and units in the last place\<close>

lemma representable_zero [simp]: "representable 0"
  using representable_of_int [of 0] by simp

lemma largest_finite_nonneg [simp]: "0 \<le> largest_finite"
  by (simp add: largest_finite_def)

lemma representable_one [simp]: "representable 1"
  using representable_of_int [of 1] by simp

lemma exponent_of_abs [simp]: "exponent_of \<bar>x\<bar> = exponent_of x"
  by (simp add: abs_if)

lemma exponent_of_rounded_le:
  assumes "x \<noteq> 0" and "rounded x \<noteq> 0"
  shows "quantum x \<le> quantum (rounded x)"
proof (cases "exponent_of x \<ge> - 1074")
  case True
  have rep: "representable (2 powi exponent_of x)" using True by (rule representable_powi)
  have "2 powi exponent_of x \<le> \<bar>x\<bar>" using exponent_of_bounds(1) [OF assms(1)] .
  then have "2 powi exponent_of x \<le> rounded \<bar>x\<bar>" using rep by (rule rounded_ge)
  then have "2 powi exponent_of x \<le> \<bar>rounded x\<bar>" by (simp add: rounded_abs)
  then have "exponent_of (2 powi exponent_of x) \<le> exponent_of \<bar>rounded x\<bar>"
    by (intro exponent_of_mono powi_pos)
  moreover have "exponent_of (2 powi exponent_of x) = exponent_of x"
    by (rule exponent_of_unique) (simp_all add: powi_le_iff powi_less_iff less_imp_le [OF powi_pos])
  ultimately show ?thesis by (simp add: quantum_def quantum_exponent_def powi_le_iff)
next
  case False
  then have "quantum_exponent x = - 1074" by (simp add: quantum_exponent_def)
  moreover have "- 1074 \<le> quantum_exponent (rounded x)" by (simp add: quantum_exponent_def)
  ultimately show ?thesis unfolding quantum_def by (simp only: powi_le_iff)
qed

lemma quantum_zero: "quantum 0 = 1 / 2 ^ 54"
  by (simp add: quantum_def quantum_exponent_def exponent_of_def bit_count.simps power_int_minus field_simps)

lemma rounded_error_ulp: "\<bar>rounded x - x\<bar> \<le> quantum (rounded x) / 2"
proof (cases "rounded x = 0 \<and> x \<noteq> 0")
  case True
  then have "\<bar>x\<bar> \<le> \<bar>x\<bar> / 2 ^ 53 + 2 powi (- 1075)" using rounded_error [of x] by simp
  moreover have "(2 :: rat) powi (- 1075) \<le> 2 powi (- 60)" unfolding powi_le_iff by simp
  ultimately have "\<bar>x\<bar> \<le> 1 / 2 ^ 55" by (simp add: power_int_minus field_simps)
  then show ?thesis using True by (simp add: quantum_zero)
next
  case False
  show ?thesis
  proof (cases "x = 0")
    case True
    then show ?thesis using quantum_pos [of 0] by simp
  next
    case False
    with \<open>\<not> (rounded x = 0 \<and> x \<noteq> 0)\<close> have "quantum x \<le> quantum (rounded x)"
      by (intro exponent_of_rounded_le) simp_all
    then show ?thesis using rounded_near [of x] by linarith
  qed
qed

lemma to_double_FiniteD: "to_double x = Finite y \<Longrightarrow> y = rounded x"
  by (simp add: to_double_Finite_iff)

lemma to_double_minus: "to_double (- x) = fneg (to_double x)"
  using largest_finite_nonneg by (cases "x = 0") (auto simp: to_double_def simp del: largest_finite_nonneg)

lemma to_double_of_int: "\<bar>n\<bar> \<le> 2 ^ 53 \<Longrightarrow> to_double (of_int n) = Finite (of_int n)"
proof -
  assume n: "\<bar>n\<bar> \<le> 2 ^ 53"
  then have "\<bar>of_int n :: rat\<bar> \<le> of_int (2 ^ 53)" unfolding of_int_abs [symmetric] of_int_le_iff .
  also have "(of_int (2 ^ 53) :: rat) \<le> largest_finite" by (simp add: largest_finite_def)
  finally show ?thesis using representable_of_int [OF n] by (intro to_double_representable)
qed

lemma to_double_numeral [simp]:
  "to_double 0 = Finite 0" "to_double 1 = Finite 1" "to_double (- 1) = Finite (- 1)"
  "numeral k \<le> (2 ^ 53 :: int) \<Longrightarrow> to_double (numeral k) = Finite (numeral k)"
  "numeral k \<le> (2 ^ 53 :: int) \<Longrightarrow> to_double (- numeral k) = Finite (- numeral k)"
  using to_double_of_int [of 0] to_double_of_int [of 1] to_double_of_int [of "- 1"]
    to_double_of_int [of "numeral k"] to_double_of_int [of "- numeral k"] by simp_all

lemma rounded_between:
  assumes "0 \<le> x" and "x \<le> 2 powi k" and "- 1074 \<le> k" and "k \<le> 1000"
  shows "to_double x = Finite (rounded x)" and "0 \<le> rounded x" and "rounded x \<le> 2 powi k"
proof -
  have "(2 :: rat) powi k \<le> 2 powi 1000" using assms(4) by (simp only: powi_le_iff)
  also have "(2 :: rat) powi 1000 \<le> largest_finite" by (simp add: largest_finite_def)
  finally show "to_double x = Finite (rounded x)" using assms(1,2) by (intro to_double_within) simp
  show "0 \<le> rounded x" using assms(1) by (rule rounded_nonneg)
  show "rounded x \<le> 2 powi k" using assms(2) representable_powi [OF assms(3)] by (rule rounded_le)
qed

end
