(* ===== verification/Components.thy ===== *)
theory Components
  imports Commands Deterministic_Random Binary64
begin

text \<open>
  The component kinds an entity can carry (components/) and the per-tick world events (events/,
  world_event_registry.hpp), with the operations of the components that have any: a shield's and a
  charge's activation and cancellation.
\<close>

section \<open>Plain components\<close>

datatype bounds_behavior = kFold | kCross
datatype ground_attachment = kFloating | kGroundBound

record physics_body =
  body_position :: vector2
  body_velocity :: vector2
  body_acceleration :: vector2
  body_radius :: double
  body_mass :: binary64
  body_restitution :: binary64
  body_drag_scale :: binary64
  collision_layer :: u32
  collision_mask :: u32
  is_static :: bool
  body_bounds_behavior :: bounds_behavior
  body_ground_attachment :: ground_attachment

record controllable =
  driving_controller :: controller_id
  commands_this_tick :: "command list"
  normalized_thrust_intent :: "vector2 option"
  input_generation :: "tick option"
  braking_intent :: bool

definition controllable_of :: "controller_id \<Rightarrow> controllable" where
  "controllable_of c =
     \<lparr>driving_controller = c, commands_this_tick = [], normalized_thrust_intent = None,
      input_generation = None, braking_intent = False\<rparr>"

text \<open>What a snapshot publishes of a controllable: the identity and the input generation.\<close>

definition controllable_published :: "controllable \<Rightarrow> controllable" where
  "controllable_published c =
     (controllable_of (driving_controller c))\<lparr>input_generation := input_generation c\<rparr>"

record circle =
  circle_center :: vector2
  circle_radius :: binary64

record hill_motion_schedule =
  next_retarget_tick :: tick
  retarget_stream :: random_stream_kind

record hill_motion =
  hill_velocity :: vector2
  hill_schedule :: "hill_motion_schedule option"

definition hill_motion_published :: "hill_motion \<Rightarrow> hill_motion" where
  "hill_motion_published m = \<lparr>hill_velocity = hill_velocity m, hill_schedule = None\<rparr>"

datatype contact_effect_policy = kClosingImpact | kAnyTouch

text \<open>The collision filter two bodies admit each other by.\<close>

definition collision_masks_admit :: "physics_body \<Rightarrow> physics_body \<Rightarrow> bool" where
  "collision_masks_admit a b \<longleftrightarrow>
     collision_mask a AND collision_layer b \<noteq> 0 \<and> collision_mask b AND collision_layer a \<noteq> 0"

lemma collision_masks_admit_sym: "collision_masks_admit a b = collision_masks_admit b a"
  by (auto simp: collision_masks_admit_def)

definition effective_radius :: "physics_body \<Rightarrow> double \<Rightarrow> double" where
  "effective_radius b configured = (if feq (body_radius b) (Finite 0) then configured else body_radius b)"

section \<open>Shield\<close>

record shield =
  shield_window :: tick_window
  perfect_window :: tick_window
  shield_cooldown_window :: tick_window
  parry_stun_duration :: u64

definition shield_error :: "string \<Rightarrow> 'a result" where
  "shield_error path = Inl (SimError kShieldActivationInvalid path)"

definition shield_activate :: "tick \<Rightarrow> u64 \<Rightarrow> u64 \<Rightarrow> u64 \<Rightarrow> u64 \<Rightarrow> shield result" where
  "shield_activate t duration perfect cooldown parry =
     (if t = tick_zero then shield_error ''shield.activation_tick''
      else if duration = 0 then shield_error ''shield.shield_duration_ticks''
      else if perfect = 0 then shield_error ''shield.perfect_duration_ticks''
      else if parry = 0 then shield_error ''shield.parry_stun_duration_ticks''
      else if perfect > duration then shield_error ''shield.perfect_duration_ticks''
      else try_then (tick_window_create t duration) (\<lambda>sw.
           try_then (tick_window_create t perfect) (\<lambda>pw.
           try_then (tick_window_create t cooldown) (\<lambda>cw.
             Inr \<lparr>shield_window = sw, perfect_window = pw, shield_cooldown_window = cw,
                  parry_stun_duration = parry\<rparr>))))"

definition window_ended_at :: "tick_window \<Rightarrow> tick \<Rightarrow> tick_window result" where
  "window_ended_at w t =
     (if \<not> window_contains w t then Inr w
      else tick_window_create (activation_tick w) (tick_value t - tick_value (activation_tick w)))"

definition shield_canceled_at :: "shield \<Rightarrow> tick \<Rightarrow> shield result" where
  "shield_canceled_at s t =
     (if t < activation_tick (shield_window s)
      then Inl (SimError kShieldCancellationBeforeActivation ''shield.cancellation_tick'')
      else try_then (window_ended_at (shield_window s) t) (\<lambda>sw.
           try_then (window_ended_at (perfect_window s) t) (\<lambda>pw.
             Inr (s\<lparr>shield_window := sw, perfect_window := pw\<rparr>))))"

section \<open>Charge\<close>

record charge =
  charge_cooldown_window :: tick_window
  charge_active_window :: tick_window
  hit_stun_duration :: u64

definition charge_error :: "string \<Rightarrow> 'a result" where
  "charge_error path = Inl (SimError kChargeActivationInvalid path)"

definition require_charge_activation :: "tick \<Rightarrow> u64 \<Rightarrow> unit result" where
  "require_charge_activation t cooldown =
     (if t = tick_zero then charge_error ''charge.activation_tick''
      else if cooldown = 0 then charge_error ''charge.cooldown_duration_ticks'' else Inr ())"

text \<open>The two overloads of \<open>activate\<close>: an impulse only, and an impulse with an attack.\<close>

definition charge_activate_impulse :: "tick \<Rightarrow> u64 \<Rightarrow> charge result" where
  "charge_activate_impulse t cooldown =
     try_then (require_charge_activation t cooldown) (\<lambda>_.
     try_then (tick_window_create t cooldown) (\<lambda>cw.
     try_then (tick_window_create t 0) (\<lambda>aw.
       Inr \<lparr>charge_cooldown_window = cw, charge_active_window = aw, hit_stun_duration = 0\<rparr>)))"

definition charge_activate :: "tick \<Rightarrow> u64 \<Rightarrow> u64 \<Rightarrow> u64 \<Rightarrow> charge result" where
  "charge_activate t cooldown active hit_stun =
     try_then (require_charge_activation t cooldown) (\<lambda>_.
       if active = 0 then charge_error ''charge.active_duration_ticks''
       else if hit_stun = 0 then charge_error ''charge.hit_stun_duration_ticks''
       else if hit_stun > kMaximumTickValue then charge_error ''charge.hit_stun_duration_ticks''
       else try_then (tick_window_create t cooldown) (\<lambda>cw.
            try_then (tick_window_create t active) (\<lambda>aw.
              Inr \<lparr>charge_cooldown_window = cw, charge_active_window = aw,
                   hit_stun_duration = hit_stun\<rparr>)))"

definition charge_canceled_at :: "charge \<Rightarrow> tick \<Rightarrow> charge result" where
  "charge_canceled_at c t =
     (if t < activation_tick (charge_cooldown_window c)
      then Inl (SimError kChargeCancellationBeforeActivation ''charge.cancellation_tick'')
      else try_then
        (if window_contains (charge_active_window c) t
         then tick_window_create (activation_tick (charge_cooldown_window c))
                (tick_value t - tick_value (activation_tick (charge_cooldown_window c)))
         else Inr (charge_active_window c)) (\<lambda>aw.
        Inr (c\<lparr>charge_active_window := aw\<rparr>)))"

section \<open>World events\<close>

record candidate_pair =
  lower_id :: entity_id
  higher_id :: entity_id

definition candidate_pair_create :: "entity_id \<Rightarrow> entity_id \<Rightarrow> candidate_pair result" where
  "candidate_pair_create a b =
     (if a = b then Inl (SimError kCandidatePairDuplicateEntityId ''candidate_pair.entity_ids'')
      else if b < a then Inr \<lparr>lower_id = b, higher_id = a\<rparr>
      else Inr \<lparr>lower_id = a, higher_id = b\<rparr>)"

datatype charge_contact_outcome = kSuccessfulHit | kBlockedByShield

record charge_contact_candidate =
  attacker :: entity_id
  target :: entity_id
  attack_activation_tick :: tick
  contact_outcome :: charge_contact_outcome

datatype world_event =
    ContactEvent candidate_pair vector2 double string
  | DespawnEvent entity_id
  | EliminationEvent entity_id
  | StunRequest entity_id u64
  | RaceCheckpointEvent entity_id u64 binary64
  | ChargeContactCandidate charge_contact_candidate

primrec world_event_kind_name_of :: "world_event \<Rightarrow> string" where
  "world_event_kind_name_of (ContactEvent pair normal speed rule) = ''contact''"
| "world_event_kind_name_of (DespawnEvent e) = ''despawn''"
| "world_event_kind_name_of (EliminationEvent e) = ''elimination''"
| "world_event_kind_name_of (StunRequest e d) = ''stun_request''"
| "world_event_kind_name_of (RaceCheckpointEvent e n t) = ''race_checkpoint''"
| "world_event_kind_name_of (ChargeContactCandidate c) = ''charge_contact''"

section \<open>Ending a window early\<close>

definition valid_window :: "tick_window \<Rightarrow> bool" where
  "valid_window w \<longleftrightarrow> valid_tick (activation_tick w) \<and> valid_tick (expiry_tick w) \<and>
     activation_tick w \<le> expiry_tick w"

lemma tick_le_iff: "(s :: tick) \<le> t \<longleftrightarrow> unat (tick_value s) \<le> unat (tick_value t)"
  by (simp add: less_eq_tick_def word_le_nat_alt)

lemma tick_less_iff: "(s :: tick) < t \<longleftrightarrow> unat (tick_value s) < unat (tick_value t)"
  by (simp add: less_tick_def word_less_nat_alt)

lemma tick_eq_iff: "(s :: tick) = t \<longleftrightarrow> unat (tick_value s) = unat (tick_value t)"
  by (cases s; cases t) (simp add: u64_eq_iff)

lemma tick_window_create_valid:
  assumes "valid_tick t" and "tick_window_create t d = Inr w"
  shows "valid_window w" and "activation_tick w = t"
    and "unat (tick_value (expiry_tick w)) = unat (tick_value t) + unat d"
proof -
  have b: "unat (tick_value t) + unat d \<le> 9007199254740991"
    and w: "w = \<lparr>activation_tick = t, expiry_tick = Tick (tick_value t + d)\<rparr>"
    using assms by (auto simp: tick_window_create_total split: if_splits)
  from b have "unat (tick_value t + d) = unat (tick_value t) + unat d"
    by (intro u64_add_unat) simp
  then show "valid_window w" "activation_tick w = t"
    "unat (tick_value (expiry_tick w)) = unat (tick_value t) + unat d"
    using assms(1) b by (simp_all add: w valid_window_def valid_tick_def tick_le_iff)
qed

lemma window_ended_at_spec:
  assumes w: "valid_window w" and t: "activation_tick w \<le> t"
  shows "\<exists>w'. window_ended_at w t = Inr w' \<and> valid_window w' \<and>
    activation_tick w' = activation_tick w \<and> expiry_tick w' = min (expiry_tick w) t"
proof (cases "t < expiry_tick w")
  case True
  have d: "unat (tick_value t - tick_value (activation_tick w)) =
      unat (tick_value t) - unat (tick_value (activation_tick w))"
    using t by (intro u64_sub_unat) (simp add: less_eq_tick_def)
  have le: "unat (tick_value (activation_tick w)) \<le> unat (tick_value t)"
    using t by (simp add: tick_le_iff)
  have vt: "unat (tick_value t) \<le> 9007199254740991"
    using True w by (simp add: valid_window_def valid_tick_def tick_less_iff)
  have "window_ended_at w t = tick_window_create (activation_tick w)
      (tick_value t - tick_value (activation_tick w))"
    using t True by (simp add: window_ended_at_def window_contains_def)
  also have "\<dots> = Inr \<lparr>activation_tick = activation_tick w, expiry_tick = t\<rparr>"
    using w le vt d
    by (subst tick_window_create_total) (auto simp: valid_window_def tick_eq_iff)
  finally show ?thesis
    using True t vt w by (auto simp: valid_window_def valid_tick_def min_def)
next
  case False
  then have "min (expiry_tick w) t = expiry_tick w" by (simp add: min_def not_less)
  then show ?thesis using False w by (simp add: window_ended_at_def window_contains_def)
qed

text \<open>A shield as \<open>activate\<close> builds it: the windows open together.\<close>

definition valid_shield :: "shield \<Rightarrow> bool" where
  "valid_shield s \<longleftrightarrow> valid_window (shield_window s) \<and> valid_window (perfect_window s) \<and>
     valid_window (shield_cooldown_window s) \<and>
     activation_tick (perfect_window s) = activation_tick (shield_window s) \<and>
     activation_tick (shield_cooldown_window s) = activation_tick (shield_window s) \<and>
     expiry_tick (perfect_window s) \<le> expiry_tick (shield_window s) \<and> parry_stun_duration s \<noteq> 0"

lemma shield_activate_valid:
  assumes "valid_tick t" and "shield_activate t d p c q = Inr s"
  shows "valid_shield s" and "activation_tick (shield_window s) = t"
proof -
  have guards: "q \<noteq> 0" "p \<le> d"
    and w: "tick_window_create t d = Inr (shield_window s)"
      "tick_window_create t p = Inr (perfect_window s)"
      "tick_window_create t c = Inr (shield_cooldown_window s)" "parry_stun_duration s = q"
    using assms(2)
    by (auto simp: shield_activate_def shield_error_def try_then_Inr_iff split: if_splits)
  show "valid_shield s" "activation_tick (shield_window s) = t"
    using guards tick_window_create_valid [OF assms(1) w(1)] tick_window_create_valid [OF assms(1) w(2)]
      tick_window_create_valid [OF assms(1) w(3)] w(4)
    by (simp_all add: valid_shield_def tick_le_iff word_le_nat_alt)
qed

lemma shield_canceled_at_spec:
  assumes s: "valid_shield s" and t: "activation_tick (shield_window s) \<le> t"
  shows "\<exists>s'. shield_canceled_at s t = Inr s' \<and> valid_shield s' \<and>
    activation_tick (shield_window s') = activation_tick (shield_window s) \<and>
    expiry_tick (shield_window s') = min (expiry_tick (shield_window s)) t \<and>
    expiry_tick (perfect_window s') = min (expiry_tick (perfect_window s)) t \<and>
    shield_cooldown_window s' = shield_cooldown_window s"
proof -
  obtain sw where sw: "window_ended_at (shield_window s) t = Inr sw" "valid_window sw"
    "activation_tick sw = activation_tick (shield_window s)"
    "expiry_tick sw = min (expiry_tick (shield_window s)) t"
    using window_ended_at_spec s t unfolding valid_shield_def by blast
  obtain pw where pw: "window_ended_at (perfect_window s) t = Inr pw" "valid_window pw"
    "activation_tick pw = activation_tick (perfect_window s)"
    "expiry_tick pw = min (expiry_tick (perfect_window s)) t"
    using window_ended_at_spec s t unfolding valid_shield_def by metis
  have "min (expiry_tick (perfect_window s)) t \<le> min (expiry_tick (shield_window s)) t"
    using s by (auto simp: valid_shield_def min_def)
  with sw pw s t show ?thesis
    by (simp add: shield_canceled_at_def valid_shield_def not_less [symmetric])
qed

text \<open>
  the protection of a shield that is canceled on a later tick ends there and nowhere else.
  From an activation on an exact tick, cancelling at a tick no earlier than the activation always
  succeeds; the canceled shield protects (and parries perfectly) on exactly the ticks the original
  did that lie before the cancellation, a perfect tick is always a protected tick, and the cooldown
  keeps running as it did.
\<close>

theorem shield_cancellation_ends_protection:
  assumes "valid_tick t" and "shield_activate t d p c q = Inr s" and "t \<le> u"
  shows "\<exists>s'. shield_canceled_at s u = Inr s' \<and> shield_cooldown_window s' = shield_cooldown_window s \<and>
    (\<forall>v. window_contains (shield_window s') v \<longleftrightarrow> window_contains (shield_window s) v \<and> v < u) \<and>
    (\<forall>v. window_contains (perfect_window s') v \<longleftrightarrow> window_contains (perfect_window s) v \<and> v < u) \<and>
    (\<forall>v. window_contains (perfect_window s') v \<longrightarrow> window_contains (shield_window s') v)"
proof -
  have s: "valid_shield s" "activation_tick (shield_window s) = t"
    using shield_activate_valid [OF assms(1,2)] .
  then obtain s' where s': "shield_canceled_at s u = Inr s'" "valid_shield s'"
    "activation_tick (shield_window s') = t"
    "expiry_tick (shield_window s') = min (expiry_tick (shield_window s)) u"
    "expiry_tick (perfect_window s') = min (expiry_tick (perfect_window s)) u"
    "shield_cooldown_window s' = shield_cooldown_window s"
    using shield_canceled_at_spec assms(3) by metis
  show ?thesis
    using s s' by (auto simp: window_contains_def valid_shield_def intro!: exI [of _ s'])
qed

theorem shield_cancellation_ends_protection_witness:
  "\<exists>s'. shield_canceled_at
      \<lparr>shield_window = \<lparr>activation_tick = Tick 10, expiry_tick = Tick 30\<rparr>,
       perfect_window = \<lparr>activation_tick = Tick 10, expiry_tick = Tick 15\<rparr>,
       shield_cooldown_window = \<lparr>activation_tick = Tick 10, expiry_tick = Tick 110\<rparr>,
       parry_stun_duration = 8\<rparr> (Tick 12) = Inr s' \<and>
    window_contains (shield_window s') (Tick 11) \<and> \<not> window_contains (shield_window s') (Tick 12)"
proof -
  let ?s = "\<lparr>shield_window = \<lparr>activation_tick = Tick 10, expiry_tick = Tick 30\<rparr>,
       perfect_window = \<lparr>activation_tick = Tick 10, expiry_tick = Tick 15\<rparr>,
       shield_cooldown_window = \<lparr>activation_tick = Tick 10, expiry_tick = Tick 110\<rparr>,
       parry_stun_duration = 8\<rparr>"
  have "shield_activate (Tick 10) 20 5 100 8 = Inr ?s"
    by (simp add: shield_activate_def tick_window_create_total valid_tick_def tick_zero_def)
  from shield_cancellation_ends_protection [OF _ this, of "Tick 12"]
  obtain s' where "shield_canceled_at ?s (Tick 12) = Inr s'"
    and "\<forall>v. window_contains (shield_window s') v \<longleftrightarrow> window_contains (shield_window ?s) v \<and> v < Tick 12"
    by (auto simp: valid_tick_def less_eq_tick_def)
  moreover have "window_contains (shield_window ?s) (Tick 11) \<and> Tick 11 < Tick 12"
    by (simp add: less_eq_tick_def less_tick_def window_contains_def)
  ultimately show ?thesis by blast
qed

definition valid_charge :: "charge \<Rightarrow> bool" where
  "valid_charge c \<longleftrightarrow> valid_window (charge_cooldown_window c) \<and> valid_window (charge_active_window c) \<and>
     activation_tick (charge_active_window c) = activation_tick (charge_cooldown_window c)"

lemma charge_activate_valid:
  assumes "valid_tick t" and "charge_activate t cd a h = Inr c"
  shows "valid_charge c" and "activation_tick (charge_cooldown_window c) = t"
    and "hit_stun_duration c = h"
proof -
  have w: "tick_window_create t cd = Inr (charge_cooldown_window c)"
    "tick_window_create t a = Inr (charge_active_window c)" and h: "hit_stun_duration c = h"
    using assms(2)
    by (auto simp: charge_activate_def charge_error_def try_then_Inr_iff split: if_splits)
  show "valid_charge c" "activation_tick (charge_cooldown_window c) = t" "hit_stun_duration c = h"
    using tick_window_create_valid [OF assms(1) w(1)] tick_window_create_valid [OF assms(1) w(2)] h
    by (simp_all add: valid_charge_def)
qed

lemma charge_canceled_at_spec:
  assumes c: "valid_charge c" and t: "activation_tick (charge_cooldown_window c) \<le> t"
  shows "\<exists>c'. charge_canceled_at c t = Inr c' \<and> valid_charge c' \<and>
    charge_cooldown_window c' = charge_cooldown_window c \<and>
    expiry_tick (charge_active_window c') = min (expiry_tick (charge_active_window c)) t \<and>
    hit_stun_duration c' = hit_stun_duration c"
proof -
  have "(if window_contains (charge_active_window c) t
         then tick_window_create (activation_tick (charge_cooldown_window c))
                (tick_value t - tick_value (activation_tick (charge_cooldown_window c)))
         else Inr (charge_active_window c)) = window_ended_at (charge_active_window c) t"
    using c by (simp add: window_ended_at_def valid_charge_def)
  moreover obtain aw where "window_ended_at (charge_active_window c) t = Inr aw" "valid_window aw"
    "activation_tick aw = activation_tick (charge_active_window c)"
    "expiry_tick aw = min (expiry_tick (charge_active_window c)) t"
    using window_ended_at_spec c t unfolding valid_charge_def by metis
  ultimately show ?thesis
    using c t by (simp add: charge_canceled_at_def valid_charge_def not_less [symmetric])
qed

end
