(* ===== verification/Game_World.thy ===== *)
theory Game_World
  imports Components Component_Store Entity_Roster Reservation
begin

text \<open>
  The world of one match (game_world.hpp, game_world.cpp): one store per registered component kind,
  the match state, the events of the running tick, the random streams and the tick's reservation,
  with creation, entity creation and destruction, event emission, the body-bound sweep and the two
  ends of a tick.
\<close>

section \<open>The world\<close>

text \<open>The stores stand in the order of the component registry (component_registry.hpp).\<close>

record game_world =
  bodies :: "physics_body store"
  controllables :: "controllable store"
  lifetimes :: "u64 store"
  scores :: "64 word store"
  teams :: "team_id store"
  zones :: "circle store"
  zone_exposures :: "u64 store"
  lethals :: "unit store"
  respawn_timers :: "u64 store"
  hills :: "circle store"
  hill_presences :: "u64 store"
  race_progresses :: "u64 store"
  hill_motions :: "hill_motion store"
  stuns :: "tick_window store"
  admissions :: "contact_effect_policy store"
  shields :: "shield store"
  charges :: "charge store"
  crossing_hazards :: "unit store"
  world_match :: match_state
  events :: "world_event list"
  random_streams :: "random list"
  world_reservation :: reservation

definition kMaximumWorldEventCount :: nat where
  "kMaximumWorldEventCount = 16 * kMaximumEntityCount"

definition world_empty :: "random list \<Rightarrow> game_world" where
  "world_empty streams =
     \<lparr>bodies = [], controllables = [], lifetimes = [], scores = [], teams = [], zones = [],
      zone_exposures = [], lethals = [], respawn_timers = [], hills = [], hill_presences = [],
      race_progresses = [], hill_motions = [], stuns = [], admissions = [], shields = [],
      charges = [], crossing_hazards = [], world_match = match_state_initial, events = [],
      random_streams = streams, world_reservation = reservation_none\<rparr>"

text \<open>The ids of every store, in registry order.\<close>

definition store_id_lists :: "game_world \<Rightarrow> entity_id list list" where
  "store_id_lists w =
     [store_ids (bodies w), store_ids (controllables w), store_ids (lifetimes w),
      store_ids (scores w), store_ids (teams w), store_ids (zones w),
      store_ids (zone_exposures w), store_ids (lethals w), store_ids (respawn_timers w),
      store_ids (hills w), store_ids (hill_presences w), store_ids (race_progresses w),
      store_ids (hill_motions w), store_ids (stuns w), store_ids (admissions w),
      store_ids (shields w), store_ids (charges w), store_ids (crossing_hazards w)]"

definition carries :: "'c store \<Rightarrow> entity_id \<Rightarrow> bool" where
  "carries s e \<longleftrightarrow> store_find s e \<noteq> None"

definition carried_kinds :: "game_world \<Rightarrow> (entity_id \<Rightarrow> bool) list" where
  "carried_kinds w =
     [carries (bodies w), carries (controllables w), carries (lifetimes w),
      carries (scores w), carries (teams w), carries (zones w),
      carries (zone_exposures w), carries (lethals w), carries (respawn_timers w),
      carries (hills w), carries (hill_presences w), carries (race_progresses w),
      carries (hill_motions w), carries (stuns w), carries (admissions w),
      carries (shields w), carries (charges w), carries (crossing_hazards w)]"

definition entities :: "game_world \<Rightarrow> entity_id list" where
  "entities w = roster_of (store_id_lists w)"

definition world_contains :: "game_world \<Rightarrow> entity_id \<Rightarrow> bool" where
  "world_contains w e = roster_contains (carried_kinds w) e"

section \<open>Operations\<close>

definition create_entity :: "game_world \<Rightarrow> (entity_id \<times> game_world) result" where
  "create_entity w =
     try_then (draw_next (world_reservation w)) (\<lambda>(drawn, rest).
       if world_contains w drawn
       then Inl (SimError kGameWorldDuplicateEntityId ''game_world.entities.entity_id'')
       else Inr (drawn, w\<lparr>world_reservation := rest\<rparr>))"

definition emit :: "world_event \<Rightarrow> game_world \<Rightarrow> game_world result" where
  "emit event w =
     (if length (events w) \<ge> kMaximumWorldEventCount
      then Inl (SimError kGameWorldEventLimitExceeded ''game_world.events'')
      else Inr (w\<lparr>events := events w @ [event]\<rparr>))"

definition destroy_entity :: "entity_id \<Rightarrow> game_world \<Rightarrow> game_world" where
  "destroy_entity e w = w\<lparr>
     bodies := store_erase e (bodies w), controllables := store_erase e (controllables w),
     lifetimes := store_erase e (lifetimes w), scores := store_erase e (scores w),
     teams := store_erase e (teams w), zones := store_erase e (zones w),
     zone_exposures := store_erase e (zone_exposures w), lethals := store_erase e (lethals w),
     respawn_timers := store_erase e (respawn_timers w), hills := store_erase e (hills w),
     hill_presences := store_erase e (hill_presences w),
     race_progresses := store_erase e (race_progresses w),
     hill_motions := store_erase e (hill_motions w), stuns := store_erase e (stuns w),
     admissions := store_erase e (admissions w), shields := store_erase e (shields w),
     charges := store_erase e (charges w), crossing_hazards := store_erase e (crossing_hazards w)\<rparr>"

text \<open>The sweep of one body-bound store: an index that only advances past a survivor. The fuel is
  the number of entries; every iteration uses one up or erases one.\<close>

fun sweep_from :: "nat \<Rightarrow> physics_body store \<Rightarrow> nat \<Rightarrow> 'c store \<Rightarrow> 'c store" where
  "sweep_from 0 bs i s = s"
| "sweep_from (Suc fuel) bs i s =
     (if i < length s then
        if store_find bs (fst (s ! i)) = None
        then sweep_from fuel bs i (store_erase (fst (s ! i)) s)
        else sweep_from fuel bs (Suc i) s
      else s)"

definition erase_without_body :: "physics_body store \<Rightarrow> 'c store \<Rightarrow> 'c store" where
  "erase_without_body bs s = sweep_from (length s) bs 0 s"

text \<open>The kinds that declare \<open>bound_to_body\<close> (ComponentLifetime).\<close>

definition erase_body_bound_components_without_body :: "game_world \<Rightarrow> game_world" where
  "erase_body_bound_components_without_body w = w\<lparr>
     zone_exposures := erase_without_body (bodies w) (zone_exposures w),
     hill_presences := erase_without_body (bodies w) (hill_presences w),
     stuns := erase_without_body (bodies w) (stuns w),
     admissions := erase_without_body (bodies w) (admissions w),
     shields := erase_without_body (bodies w) (shields w),
     charges := erase_without_body (bodies w) (charges w),
     crossing_hazards := erase_without_body (bodies w) (crossing_hazards w)\<rparr>"

definition open_tick :: "reservation \<Rightarrow> game_world \<Rightarrow> game_world" where
  "open_tick r w = w\<lparr>world_reservation := r\<rparr>"

definition close_tick :: "game_world \<Rightarrow> game_world" where
  "close_tick w = w\<lparr>events := [], world_reservation := reservation_none\<rparr>"

section \<open>Creation from seeds\<close>

record entity_seed =
  seed_entity :: entity_id
  seed_body :: physics_body
  seed_controller :: "controller_id option"

definition entity_seed_create :: "entity_id \<Rightarrow> physics_body \<Rightarrow> entity_seed result" where
  "entity_seed_create e b =
     try_then (controller_id_create (entity_value e)) (\<lambda>c.
       Inr \<lparr>seed_entity = e, seed_body = b, seed_controller = Some c\<rparr>)"

definition seed_controllables :: "entity_seed list \<Rightarrow> controllable store" where
  "seed_controllables seeds =
     List.map_filter (\<lambda>s. map_option (\<lambda>c. (seed_entity s, controllable_of c)) (seed_controller s)) seeds"

definition world_create :: "entity_seed list \<Rightarrow> game_world result" where
  "world_create seeds =
     (if length seeds > kMaximumEntityCount
      then Inl (SimError kGameWorldEntityLimitExceeded ''game_world.entities'')
      else let ordered = sort_key seed_entity seeds in
        if \<not> distinct (map seed_entity ordered)
        then Inl (SimError kGameWorldDuplicateEntityId ''game_world.entities.entity_id'')
        else try_then (store_create (map (\<lambda>s. (seed_entity s, seed_body s)) ordered)) (\<lambda>bs.
             try_then (store_create (seed_controllables ordered)) (\<lambda>cs.
               Inr ((world_empty (random_streams_create 0))\<lparr>bodies := bs, controllables := cs\<rparr>))))"

section \<open>Well-formed worlds\<close>

definition valid_stores :: "game_world \<Rightarrow> bool" where
  "valid_stores w \<longleftrightarrow>
     valid_store (bodies w) \<and> valid_store (controllables w) \<and> valid_store (lifetimes w) \<and>
     valid_store (scores w) \<and> valid_store (teams w) \<and> valid_store (zones w) \<and>
     valid_store (zone_exposures w) \<and> valid_store (lethals w) \<and> valid_store (respawn_timers w) \<and>
     valid_store (hills w) \<and> valid_store (hill_presences w) \<and> valid_store (race_progresses w) \<and>
     valid_store (hill_motions w) \<and> valid_store (stuns w) \<and> valid_store (admissions w) \<and>
     valid_store (shields w) \<and> valid_store (charges w) \<and> valid_store (crossing_hazards w)"

definition valid_world :: "game_world \<Rightarrow> bool" where
  "valid_world w \<longleftrightarrow> valid_stores w \<and> valid_reservation (world_reservation w) \<and>
     length (events w) \<le> kMaximumWorldEventCount \<and> length (random_streams w) = 2 \<and>
     valid_roster (roster (world_match w))"

lemma valid_world_stores: "valid_world w \<Longrightarrow> valid_stores w"
  by (simp add: valid_world_def)

lemma carries_erase:
  "valid_store s \<Longrightarrow> carries (store_erase e s) x \<longleftrightarrow> x \<noteq> e \<and> carries s x"
  by (simp add: carries_def stored.find_erase)

lemma carries_ids: "valid_store s \<Longrightarrow> carries s e \<longleftrightarrow> e \<in> set (store_ids s)"
  by (simp only: carries_def stored.ids_find)

lemma world_contains_iff:
  "world_contains w e \<longleftrightarrow> (\<exists>kind\<in>set (carried_kinds w). kind e)"
  by (simp add: world_contains_def roster_contains_Bex)

lemma store_ids_ascending:
  assumes "valid_stores w"
  shows "\<forall>ids\<in>set (store_id_lists w). ascending ids"
  using assms by (simp add: store_id_lists_def valid_stores_def stored.ids_ascending)

lemma entities_ascending: "valid_stores w \<Longrightarrow> ascending (entities w)"
  by (simp add: entities_def roster_of_ascending store_ids_ascending)

lemma entities_iff:
  assumes "valid_stores w"
  shows "e \<in> set (entities w) \<longleftrightarrow> world_contains w e"
proof -
  have "e \<in> set (entities w) \<longleftrightarrow> (\<exists>ids\<in>set (store_id_lists w). e \<in> set ids)"
    by (simp add: entities_def set_roster_of store_ids_ascending [OF assms])
  also have "\<dots> \<longleftrightarrow> (\<exists>kind\<in>set (carried_kinds w). kind e)"
    using assms
    by (simp add: store_id_lists_def carried_kinds_def valid_stores_def carries_ids)
  finally show ?thesis by (simp add: world_contains_iff)
qed

section \<open>Destroying an entity\<close>

lemma valid_stores_destroy: "valid_stores w \<Longrightarrow> valid_stores (destroy_entity e w)"
  by (simp add: valid_stores_def destroy_entity_def stored.invar_erase)

lemma valid_world_destroy: "valid_world w \<Longrightarrow> valid_world (destroy_entity e w)"
  by (simp add: valid_world_def valid_stores_destroy) (simp add: destroy_entity_def)

lemma contains_destroy:
  assumes "valid_stores w"
  shows "world_contains (destroy_entity e w) x \<longleftrightarrow> x \<noteq> e \<and> world_contains w x"
  using assms
  by (simp add: world_contains_iff carried_kinds_def valid_stores_def destroy_entity_def carries_erase
      conj_disj_distribL)

lemma destroy_keeps [simp]:
  "world_match (destroy_entity e w) = world_match w" "events (destroy_entity e w) = events w"
  "random_streams (destroy_entity e w) = random_streams w"
  "world_reservation (destroy_entity e w) = world_reservation w"
  by (simp_all add: destroy_entity_def)

lemma destroy_bodies [simp]: "bodies (destroy_entity e w) = store_erase e (bodies w)"
  by (simp add: destroy_entity_def)

lemma destroy_controllables [simp]:
  "controllables (destroy_entity e w) = store_erase e (controllables w)"
  by (simp add: destroy_entity_def)

lemma entities_destroy:
  assumes "valid_stores w"
  shows "entities (destroy_entity e w) = filter (\<lambda>x. x \<noteq> e) (entities w)"
  using assms
  by (intro ascending_eqI)
    (auto simp: entities_ascending entities_iff contains_destroy valid_stores_destroy sorted_wrt_filter)

section \<open>Creating an entity\<close>

lemma create_entity_fresh:
  assumes "create_entity w = Inr (e, w')"
  shows "\<not> world_contains w e" and "draw_next (world_reservation w) = Inr (e, world_reservation w')"
    and "w' = w\<lparr>world_reservation := world_reservation w'\<rparr>"
  using assms by (auto simp: create_entity_def try_then_Inr_iff split: prod.splits if_splits)

lemma valid_world_create_entity:
  assumes "valid_world w" and "create_entity w = Inr (e, w')"
  shows "valid_world w'"
proof -
  have "valid_reservation (world_reservation w')"
    using draw_next_step [OF _ create_entity_fresh(2) [OF assms(2)]] assms(1)
    unfolding valid_world_def by blast
  then have "valid_world (w\<lparr>world_reservation := world_reservation w'\<rparr>)"
    using assms(1) by (simp add: valid_world_def valid_stores_def)
  then show ?thesis by (subst create_entity_fresh(3) [OF assms(2)])
qed

lemma valid_world_emit:
  "valid_world w \<Longrightarrow> emit event w = Inr w' \<Longrightarrow> valid_world w'"
  by (auto simp: emit_def valid_world_def valid_stores_def split: if_splits)

lemma valid_world_open: "valid_world w \<Longrightarrow> valid_reservation r \<Longrightarrow> valid_world (open_tick r w)"
  by (simp add: open_tick_def valid_world_def valid_stores_def)

lemma valid_world_close: "valid_world w \<Longrightarrow> valid_world (close_tick w)"
  by (simp add: close_tick_def valid_world_def valid_stores_def)

section \<open>The body-bound sweep\<close>

lemma store_erase_middle:
  assumes "ascending (store_ids (xs @ p # ys))"
  shows "store_erase (fst p) (xs @ p # ys) = xs @ ys"
proof -
  have "filter (\<lambda>q. fst q \<noteq> fst p) xs = xs" and "filter (\<lambda>q. fst q \<noteq> fst p) ys = ys"
    using assms by (force simp: sorted_wrt_append filter_id_conv)+
  then show ?thesis by (subst ids_store_erase [OF assms]) simp
qed

lemma sweep_from_filter:
  assumes "ascending (store_ids s)" and "length s - i \<le> fuel" and "i \<le> length s"
  shows "sweep_from fuel bs i s = take i s @ filter (\<lambda>p. store_find bs (fst p) \<noteq> None) (drop i s)"
  using assms
proof (induction fuel bs i s rule: sweep_from.induct)
  case (1 bs i s)
  then show ?case by simp
next
  case (2 fuel bs i s)
  show ?case
  proof (cases "i < length s")
    case False
    with "2.prems" show ?thesis by simp
  next
    case True
    then have d: "drop i s = s ! i # drop (Suc i) s" by (simp add: Cons_nth_drop_Suc)
    show ?thesis
    proof (cases "store_find bs (fst (s ! i)) = None")
      case gone: True
      have s: "s = take i s @ s ! i # drop (Suc i) s" using d by (metis append_take_drop_id)
      have "ascending (store_ids (take i s @ s ! i # drop (Suc i) s))" using "2.prems"(1) s by simp
      then have erased: "store_erase (fst (s ! i)) s = take i s @ drop (Suc i) s"
        using store_erase_middle s by metis
      have asc: "ascending (store_ids (take i s @ drop (Suc i) s))"
        using \<open>ascending (store_ids (take i s @ s ! i # drop (Suc i) s))\<close>
        by (auto simp: sorted_wrt_append)
      have "sweep_from fuel bs i (take i s @ drop (Suc i) s) =
          take i (take i s @ drop (Suc i) s) @
            filter (\<lambda>p. store_find bs (fst p) \<noteq> None) (drop i (take i s @ drop (Suc i) s))"
        using "2.IH"(1) [OF True gone] asc "2.prems"(2) True by (simp add: erased)
      then show ?thesis using True gone by (simp add: erased d)
    next
      case False
      then show ?thesis
        using "2.IH"(2) [OF True False] "2.prems" True False
        by (auto simp: d take_Suc_conv_app_nth)
    qed
  qed
qed

lemma erase_without_body_filter:
  assumes "valid_store s"
  shows "erase_without_body bs s = filter (\<lambda>p. store_find bs (fst p) \<noteq> None) s"
  using assms by (simp add: erase_without_body_def valid_store_def sweep_from_filter)

lemma valid_erase_without_body:
  assumes "valid_store s"
  shows "valid_store (erase_without_body bs s)"
  using assms
  by (auto simp: erase_without_body_filter valid_store_def ascending_map_filter
      intro: order.trans [OF length_filter_le])

lemma find_filter_ids:
  assumes "ascending (store_ids s)"
  shows "store_find (filter (\<lambda>p. P (fst p)) s) e = (if P e then store_find s e else None)"
proof -
  have "map_of (filter (\<lambda>p. P (fst p)) s) e = (if P e then map_of s e else None)"
    by (induction s) auto
  then show ?thesis using assms by (simp add: store_find_map_of ascending_map_filter)
qed

lemma find_erase_without_body:
  assumes "valid_store s"
  shows "store_find (erase_without_body bs s) e = (if store_find bs e = None then None else store_find s e)"
  using assms find_filter_ids [of s "\<lambda>x. store_find bs x \<noteq> None" e]
  by (simp only: erase_without_body_filter valid_store_def) simp

lemma valid_stores_body_sweep:
  "valid_stores w \<Longrightarrow> valid_stores (erase_body_bound_components_without_body w)"
  by (simp add: valid_stores_def erase_body_bound_components_without_body_def valid_erase_without_body)

lemma valid_world_body_sweep:
  "valid_world w \<Longrightarrow> valid_world (erase_body_bound_components_without_body w)"
  by (simp add: valid_world_def valid_stores_body_sweep)
    (simp add: erase_body_bound_components_without_body_def)

text \<open>Body-bound: no component of a body-bound kind outlives its entity's body.\<close>

definition body_bound :: "game_world \<Rightarrow> bool" where
  "body_bound w \<longleftrightarrow> (\<forall>kind\<in>set [carries (zone_exposures w), carries (hill_presences w),
     carries (stuns w), carries (admissions w), carries (shields w), carries (charges w),
     carries (crossing_hazards w)]. \<forall>e. kind e \<longrightarrow> carries (bodies w) e)"

lemma body_bound_sweep:
  assumes "valid_stores w"
  shows "body_bound (erase_body_bound_components_without_body w)"
  using assms
  by (auto simp: body_bound_def erase_body_bound_components_without_body_def carries_def
      valid_stores_def find_erase_without_body split: if_splits)

lemma body_bound_destroy:
  assumes "valid_stores w" and "body_bound w"
  shows "body_bound (destroy_entity e w)"
  using assms unfolding body_bound_def
  by (simp add: valid_stores_def carries_erase destroy_entity_def)

section \<open>Creating a world\<close>

lemma store_create_valid:
  assumes "store_create entries = Inr s"
  shows "valid_store s" and "mset s = mset entries"
  using assms
  by (auto simp: store_create_def Let_def valid_store_def sorted_distinct_ascending split: if_splits)

lemma store_create_total:
  assumes "length entries \<le> kMaximumEntityCount" and "distinct (store_ids entries)"
  shows "store_create entries = Inr (sort_key fst entries)"
proof -
  have "distinct (store_ids (sort_key fst entries))"
    using assms(2) by (metis distinct_map distinct_sort set_sort)
  with assms(1) show ?thesis by (simp add: store_create_def)
qed

lemma seed_controllables_Cons:
  "seed_controllables (s # ss) =
     (case seed_controller s of None \<Rightarrow> [] | Some c \<Rightarrow> [(seed_entity s, controllable_of c)]) @
     seed_controllables ss"
  by (simp add: seed_controllables_def List.map_filter_simps split: option.split)

lemma seed_controllables_ids:
  "set (store_ids (seed_controllables ss)) \<subseteq> set (map seed_entity ss) \<and>
   length (seed_controllables ss) \<le> length ss \<and>
   (distinct (map seed_entity ss) \<longrightarrow> distinct (store_ids (seed_controllables ss)))"
proof (induction ss)
  case Nil
  show ?case by (simp add: seed_controllables_def List.map_filter_simps)
next
  case (Cons s ss)
  then show ?case by (auto simp: seed_controllables_Cons split: option.split)
qed

lemma valid_world_empty: "length streams = 2 \<Longrightarrow> valid_world (world_empty streams)"
  by (simp add: valid_world_def valid_stores_def world_empty_def stored.invar_empty
      match_state_initial_def seat_roster_none_def valid_roster_def seated_def List.map_filter_simps)

lemma valid_world_create:
  assumes "world_create seeds = Inr w"
  shows "valid_world w"
proof -
  obtain bs cs where "store_create (map (\<lambda>s. (seed_entity s, seed_body s)) (sort_key seed_entity seeds)) = Inr bs"
    and "store_create (seed_controllables (sort_key seed_entity seeds)) = Inr cs"
    and w: "w = (world_empty (random_streams_create 0))\<lparr>bodies := bs, controllables := cs\<rparr>"
    using assms by (auto simp: world_create_def Let_def try_then_Inr_iff split: if_splits)
  then have "valid_store bs" and "valid_store cs" by (simp_all add: store_create_valid)
  then show ?thesis
    using valid_world_empty [OF length_random_streams_create, of 0]
    by (simp add: w valid_world_def valid_stores_def)
qed

lemma world_create_accepts:
  assumes "length seeds \<le> kMaximumEntityCount" and "distinct (map seed_entity seeds)"
  shows "\<exists>w. world_create seeds = Inr w"
proof -
  let ?o = "sort_key seed_entity seeds"
  have d: "distinct (map seed_entity ?o)"
    using assms(2) by (metis distinct_map distinct_sort set_sort)
  have b: "store_create (map (\<lambda>s. (seed_entity s, seed_body s)) ?o) =
      Inr (sort_key fst (map (\<lambda>s. (seed_entity s, seed_body s)) ?o))"
    using assms(1) d by (intro store_create_total) (simp_all add: comp_def)
  have c: "store_create (seed_controllables ?o) = Inr (sort_key fst (seed_controllables ?o))"
    using seed_controllables_ids [of ?o] assms(1) d by (intro store_create_total) simp_all
  show ?thesis using assms(1) d b c by (simp add: world_create_def Let_def)
qed

section \<open>What the world promises\<close>

text \<open>
  the roster of a world is exactly its carriers, and destroying an entity removes it from every
  kind at once. In a well-formed world the roster is strictly ascending and holds the entities some
  store carries; after a destruction the world is still well-formed, the roster is the old one
  without that entity, and every other entity keeps every kind it carried. The match, the events,
  the random streams and the reservation are untouched.
\<close>

theorem destroy_entity_erases_every_kind:
  assumes "valid_world w"
  shows "valid_world (destroy_entity e w) \<and> ascending (entities w) \<and>
    (\<forall>x. x \<in> set (entities w) \<longleftrightarrow> world_contains w x) \<and>
    entities (destroy_entity e w) = filter (\<lambda>x. x \<noteq> e) (entities w) \<and>
    map (\<lambda>kind. kind e) (carried_kinds (destroy_entity e w)) = replicate 18 False \<and>
    (\<forall>x. x \<noteq> e \<longrightarrow> map (\<lambda>kind. kind x) (carried_kinds (destroy_entity e w)) =
      map (\<lambda>kind. kind x) (carried_kinds w)) \<and>
    world_match (destroy_entity e w) = world_match w \<and> events (destroy_entity e w) = events w"
proof -
  have s: "valid_stores w" using assms by (rule valid_world_stores)
  have "map (\<lambda>kind. kind x) (carried_kinds (destroy_entity e w)) =
      (if x = e then replicate 18 False else map (\<lambda>kind. kind x) (carried_kinds w))" for x
    using s
    by (simp add: carried_kinds_def destroy_entity_def valid_stores_def carries_erase numeral_eq_Suc)
  then show ?thesis
    using valid_world_destroy [OF assms] entities_ascending [OF s] entities_iff [OF s]
      entities_destroy [OF s] by simp
qed

definition sample_body :: "binary64 \<Rightarrow> physics_body" where
  "sample_body x =
     \<lparr>body_position = \<lparr>vx = x, vy = 0\<rparr>, body_velocity = \<lparr>vx = 0, vy = 0\<rparr>,
      body_acceleration = \<lparr>vx = 0, vy = 0\<rparr>, body_radius = Finite 0, body_mass = 1, body_restitution = 1,
      body_drag_scale = 1, collision_layer = 1, collision_mask = 1, is_static = False,
      body_bounds_behavior = kFold, body_ground_attachment = kFloating\<rparr>"

text \<open>Two players, of whom the second lost its body and kept its shield and its stun.\<close>

definition sample_world :: game_world where
  "sample_world = (world_empty (random_streams_create 7))\<lparr>
     bodies := [(EntityId 2, sample_body 10)],
     controllables := [(EntityId 2, controllable_of (ControllerId 2)),
                       (EntityId 5, controllable_of (ControllerId 5))],
     stuns := [(EntityId 2, \<lparr>activation_tick = Tick 3, expiry_tick = Tick 9\<rparr>),
               (EntityId 5, \<lparr>activation_tick = Tick 4, expiry_tick = Tick 8\<rparr>)],
     world_reservation := \<lparr>first_id = EntityId 6, id_count = 2\<rparr>\<rparr>"

lemma sample_world_valid: "valid_world sample_world"
  using valid_world_empty [OF length_random_streams_create, of 7]
  by (simp add: sample_world_def valid_world_def valid_stores_def valid_store_def less_entity_id_def
      kMaximumEntityCount_def valid_reservation_def valid_entity_id_def)

theorem destroy_entity_erases_every_kind_witness:
  "entities (destroy_entity (EntityId 2) sample_world) = [EntityId 5]"
proof -
  have "entities sample_world = [EntityId 2, EntityId 5]"
    by (simp add: entities_def sample_world_def world_empty_def store_id_lists_def roster_of_def
        roster_step_def)
  then show ?thesis
    using destroy_entity_erases_every_kind [OF sample_world_valid, of "EntityId 2"] by simp
qed

text \<open>
  the body-bound sweep removes exactly what lost its body. After it, in a well-formed world, no
  entity carries a component of a body-bound kind without a body; a body-bound component whose
  entity still has a body is kept with its value; and the stores of every other kind, the match and
  the events are the same.
\<close>

theorem body_bound_sweep_removes_exactly:
  assumes "valid_world w" and "w' = erase_body_bound_components_without_body w"
  shows "valid_world w' \<and> body_bound w' \<and> bodies w' = bodies w \<and>
    controllables w' = controllables w \<and> lifetimes w' = lifetimes w \<and> scores w' = scores w \<and>
    (\<forall>e. carries (bodies w) e \<longrightarrow>
      store_find (stuns w') e = store_find (stuns w) e \<and>
      store_find (shields w') e = store_find (shields w) e \<and>
      store_find (charges w') e = store_find (charges w) e \<and>
      store_find (admissions w') e = store_find (admissions w) e \<and>
      store_find (zone_exposures w') e = store_find (zone_exposures w) e \<and>
      store_find (hill_presences w') e = store_find (hill_presences w) e) \<and>
    world_match w' = world_match w \<and> events w' = events w"
proof -
  have s: "valid_stores w" using assms(1) by (rule valid_world_stores)
  have keep: "bodies w' = bodies w \<and> controllables w' = controllables w \<and> lifetimes w' = lifetimes w \<and>
      scores w' = scores w \<and> world_match w' = world_match w \<and> events w' = events w"
    by (simp add: assms(2) erase_body_bound_components_without_body_def)
  have "\<forall>e. carries (bodies w) e \<longrightarrow>
      store_find (stuns w') e = store_find (stuns w) e \<and>
      store_find (shields w') e = store_find (shields w) e \<and>
      store_find (charges w') e = store_find (charges w) e \<and>
      store_find (admissions w') e = store_find (admissions w) e \<and>
      store_find (zone_exposures w') e = store_find (zone_exposures w) e \<and>
      store_find (hill_presences w') e = store_find (hill_presences w) e"
    using s
    by (simp add: assms(2) erase_body_bound_components_without_body_def valid_stores_def
        find_erase_without_body carries_def)
  with keep show ?thesis
    using valid_world_body_sweep [OF assms(1)] body_bound_sweep [OF s] by (simp add: assms(2))
qed

theorem body_bound_sweep_removes_exactly_witness:
  "\<not> carries (stuns (erase_body_bound_components_without_body sample_world)) (EntityId 5) \<and>
   carries (stuns (erase_body_bound_components_without_body sample_world)) (EntityId 2)"
proof -
  have find: "store_find (bodies sample_world) (EntityId 5) = None"
      "carries (bodies sample_world) (EntityId 2)"
      "store_find (stuns sample_world) (EntityId 2) \<noteq> None"
    by (simp_all add: carries_def sample_world_def store_find_Cons less_entity_id_def)
  note sweep = body_bound_sweep_removes_exactly [OF sample_world_valid refl]
  have "carries (stuns (erase_body_bound_components_without_body sample_world)) (EntityId 5) \<longrightarrow>
      carries (bodies (erase_body_bound_components_without_body sample_world)) (EntityId 5)"
    using sweep unfolding body_bound_def by auto
  with sweep find show ?thesis by (auto simp: carries_def)
qed

end
