(* ===== verification/Kernel_Intake.thy ===== *)
theory Kernel_Intake
  imports Game_World Input_Batch
begin

text \<open>
  Phase 0 of a tick (game_simulation.cpp): applying the tick's input batch to the world. Despawns,
  spawns, movement tuning with its decisions, the lobby commands, joins, leaves, and the recording
  of the remaining entity commands on the entity they address; then the despawn sweep that closes a
  tick and the check of what kinds a mode must accept.
\<close>

section \<open>Lobby commands\<close>

definition set_match :: "match_state \<Rightarrow> game_world \<Rightarrow> game_world" where
  "set_match m w = w\<lparr>world_match := m\<rparr>"

definition set_roster :: "seat_roster \<Rightarrow> game_world \<Rightarrow> game_world" where
  "set_roster r w = set_match ((world_match w)\<lparr>roster := r\<rparr>) w"

definition apply_set_seat_count :: "u64 \<Rightarrow> nat \<Rightarrow> game_world \<Rightarrow> game_world result" where
  "apply_set_seat_count n seat_ceiling w =
     (if unat n > seat_ceiling then Inr w
      else try_then (try_set_seat_count (unat n) (roster (world_match w))) (\<lambda>(resized, r).
        Inr (set_roster r w)))"

definition apply_clear_seat :: "u64 \<Rightarrow> game_world \<Rightarrow> game_world result" where
  "apply_clear_seat i w =
     (let r = roster (world_match w) in
      if unat i \<ge> length (seats r) then Inr w
      else if is_npc_seat (seats r ! unat i)
      then try_then (assign_seat (unat i) EmptySeat r) (\<lambda>r'. Inr (set_roster r' w))
      else Inr w)"

definition apply_seat_npc :: "u64 \<Rightarrow> string \<Rightarrow> string option \<Rightarrow> game_world \<Rightarrow> game_world result" where
  "apply_seat_npc i kind profile w =
     (let r = roster (world_match w) in
      if unat i \<ge> length (seats r) then Inr w
      else if \<not> seat_is_occupied (seats r ! unat i)
      then try_then (assign_seat (unat i) (NpcSeat kind None profile) r) (\<lambda>r'. Inr (set_roster r' w))
      else Inr w)"

text \<open>The result says whether the command was a lobby command, and with it the world after it.\<close>

fun apply_lobby_command :: "command \<Rightarrow> nat \<Rightarrow> game_world \<Rightarrow> (bool \<times> game_world) result" where
  "apply_lobby_command (SetSeatCountCommand c n) seat_ceiling w =
     (if phase (world_match w) \<noteq> kLobby then Inr (True, w)
      else try_then (apply_set_seat_count n seat_ceiling w) (\<lambda>w'. Inr (True, w')))"
| "apply_lobby_command (ClearSeatCommand c i) seat_ceiling w =
     (if phase (world_match w) \<noteq> kLobby then Inr (True, w)
      else try_then (apply_clear_seat i w) (\<lambda>w'. Inr (True, w')))"
| "apply_lobby_command (SeatNpcCommand c i kind profile) seat_ceiling w =
     (if phase (world_match w) \<noteq> kLobby then Inr (True, w)
      else try_then (apply_seat_npc i kind profile w) (\<lambda>w'. Inr (True, w')))"
| "apply_lobby_command (StartMatchCommand c) seat_ceiling w =
     (if phase (world_match w) \<noteq> kLobby then Inr (True, w)
      else Inr (True, set_roster (request_start (roster (world_match w))) w))"
| "apply_lobby_command command seat_ceiling w = Inr (False, w)"

section \<open>Joining and leaving\<close>

definition controller_holds_a_body :: "game_world \<Rightarrow> controller_id \<Rightarrow> bool" where
  "controller_holds_a_body w c \<longleftrightarrow> list_ex (\<lambda>entry. driving_controller (snd entry) = c) (controllables w)"

definition controller_holds_a_seat :: "seat_roster \<Rightarrow> controller_id \<Rightarrow> bool" where
  "controller_holds_a_seat r c \<longleftrightarrow> list_ex (\<lambda>s. case s of
     ControllerSeat held \<Rightarrow> held = c
   | NpcSeat kind held profile \<Rightarrow> held = Some c
   | EmptySeat \<Rightarrow> False) (seats r)"

definition join_declared_seat ::
  "controller_id \<Rightarrow> u64 \<Rightarrow> npc_declaration option \<Rightarrow> seat_roster \<Rightarrow> seat_roster result" where
  "join_declared_seat c i expected r =
     (if unat i \<ge> length (seats r) then Inr r
      else case seats r ! unat i of
        NpcSeat kind held profile \<Rightarrow>
          if held \<noteq> None then Inr r
          else if expected \<noteq> None \<and>
            \<lparr>declared_kind = kind, declared_profile = profile\<rparr> \<noteq> the expected then Inr r
          else assign_seat (unat i) (NpcSeat kind (Some c) profile) r
      | _ \<Rightarrow> Inr r)"

definition join_first_seat :: "controller_id \<Rightarrow> match_phase \<Rightarrow> seat_roster \<Rightarrow> seat_roster result" where
  "join_first_seat c ph r =
     (case first_joinable_seat r ph of
        None \<Rightarrow> Inr r
      | Some i \<Rightarrow> assign_seat i (ControllerSeat c) r)"

definition apply_join ::
  "controller_id \<Rightarrow> u64 option \<Rightarrow> npc_declaration option \<Rightarrow> game_world \<Rightarrow> game_world result" where
  "apply_join c seat_index expected w =
     (let r = roster (world_match w) in
      if controller_holds_a_seat r c then Inr w
      else try_then
        (case seat_index of
           Some i \<Rightarrow> join_declared_seat c i expected r
         | None \<Rightarrow> join_first_seat c (phase (world_match w)) r)
        (\<lambda>r'. Inr (set_roster r' w)))"

text \<open>The seat a leaving controller held: an entrant's seat empties, a declared bot keeps its
  declaration and loses its controller. The loop assigns each index in place.\<close>

fun vacated :: "controller_id \<Rightarrow> seat \<Rightarrow> seat" where
  "vacated c EmptySeat = EmptySeat"
| "vacated c (ControllerSeat held) = (if held = c then EmptySeat else ControllerSeat held)"
| "vacated c (NpcSeat kind held profile) =
     (if held = Some c then NpcSeat kind None profile else NpcSeat kind held profile)"

definition driven_by :: "controller_id \<Rightarrow> game_world \<Rightarrow> entity_id list" where
  "driven_by c w = map fst (filter (\<lambda>entry. driving_controller (snd entry) = c) (controllables w))"

definition apply_leave :: "controller_id \<Rightarrow> game_world \<Rightarrow> game_world" where
  "apply_leave c w =
     (let w' = fold destroy_entity (driven_by c w) w;
          r = roster (world_match w')
      in set_roster (r\<lparr>seats := map (vacated c) (seats r)\<rparr>) w')"

section \<open>Movement tuning\<close>

datatype tuning_status =
  kApplied | kSuperseded | kStaleRevision | kNotSeated | kRevisionExhausted | kUnsupportedTuning

record tuning_decision =
  decided_controller :: controller_id
  decided_request :: u64
  decided_status :: tuning_status
  decision_tick :: tick
  decision_revision :: u64

text \<open>Intake so far: the world, the decisions, and the winning command with its decision's index.\<close>

record intake =
  intake_world :: game_world
  decisions :: "tuning_decision list"
  winner :: "(movement_tuning \<times> nat) option"

definition tuning_verdict ::
  "game_world \<Rightarrow> controller_id \<Rightarrow> u64 \<Rightarrow> u64 \<Rightarrow> movement_tuning \<Rightarrow> tuning_status option" where
  "tuning_verdict w c expected entry_revision tuning =
     (if \<not> controller_holds_a_seat (roster (world_match w)) c then Some kNotSeated
      else if expected \<noteq> entry_revision then Some kStaleRevision
      else if entry_revision \<ge> kMaximumProtocolSafeInteger then Some kRevisionExhausted
      else if \<not> admits (movement (world_match w)) tuning then Some kUnsupportedTuning
      else None)"

definition decide_tuning ::
  "controller_id \<Rightarrow> u64 \<Rightarrow> u64 \<Rightarrow> movement_tuning \<Rightarrow> u64 \<Rightarrow> tick \<Rightarrow> intake \<Rightarrow> intake" where
  "decide_tuning c request expected tuning entry_revision now st =
     (let verdict = tuning_verdict (intake_world st) c expected entry_revision tuning in
      st\<lparr>decisions := decisions st @
            [\<lparr>decided_controller = c, decided_request = request,
              decided_status = (case verdict of Some refused \<Rightarrow> refused | None \<Rightarrow> kSuperseded),
              decision_tick = now, decision_revision = entry_revision\<rparr>],
         winner := (case verdict of
             Some refused \<Rightarrow> winner st
           | None \<Rightarrow> Some (tuning, length (decisions st)))\<rparr>)"

section \<open>One command, one batch\<close>

definition record_command :: "command \<Rightarrow> game_world \<Rightarrow> game_world" where
  "record_command command w =
     (case addressed_entity (addressed_identity_of command) of
        None \<Rightarrow> w
      | Some e \<Rightarrow> w\<lparr>controllables := store_modify e
            (\<lambda>c. c\<lparr>commands_this_tick := commands_this_tick c @ [command]\<rparr>) (controllables w)\<rparr>)"

definition apply_spawn :: "controller_id \<Rightarrow> game_world \<Rightarrow> game_world result" where
  "apply_spawn c w =
     (if controller_holds_a_body w c then Inr w
      else try_then (create_entity w) (\<lambda>(created, w').
        try_then (insert_or_assign created (controllable_of c) (controllables w')) (\<lambda>s.
          Inr (w'\<lparr>controllables := s\<rparr>))))"

fun apply_to_world :: "nat \<Rightarrow> command \<Rightarrow> game_world \<Rightarrow> game_world result" where
  "apply_to_world seat_ceiling (DespawnCommand e) w = Inr (destroy_entity e w)"
| "apply_to_world seat_ceiling (SpawnCommand c) w = apply_spawn c w"
| "apply_to_world seat_ceiling (JoinCommand c i d) w = apply_join c i d w"
| "apply_to_world seat_ceiling (LeaveCommand c) w = Inr (apply_leave c w)"
| "apply_to_world seat_ceiling command w =
     try_then (apply_lobby_command command seat_ceiling w) (\<lambda>(lobby, w').
       Inr (if lobby then w' else record_command command w'))"

fun apply_command :: "nat \<Rightarrow> u64 \<Rightarrow> tick \<Rightarrow> command \<Rightarrow> intake \<Rightarrow> intake result" where
  "apply_command seat_ceiling entry_revision now (SetMovementTuningCommand c request expected tuning) st =
     Inr (decide_tuning c request expected tuning entry_revision now st)"
| "apply_command seat_ceiling entry_revision now command st =
     try_then (apply_to_world seat_ceiling command (intake_world st)) (\<lambda>w.
       Inr (st\<lparr>intake_world := w\<rparr>))"

definition clear_recorded :: "game_world \<Rightarrow> game_world" where
  "clear_recorded w =
     w\<lparr>controllables := store_map_values (\<lambda>c. c\<lparr>commands_this_tick := []\<rparr>) (controllables w)\<rparr>"

text \<open>The winner takes the new revision once every command was seen, and every decision is stamped
  with the revision that holds after the batch.\<close>

definition settle_tuning :: "u64 \<Rightarrow> tick \<Rightarrow> intake \<Rightarrow> intake" where
  "settle_tuning entry_revision now st =
     (let m = world_match (intake_world st);
          st' = (case winner st of
             None \<Rightarrow> st
           | Some (tuning, i) \<Rightarrow>
               st\<lparr>intake_world := set_match (m\<lparr>movement := (movement m)
                      \<lparr>current_tuning := tuning, tuning_revision := entry_revision + 1,
                       effective_tick := now\<rparr>\<rparr>) (intake_world st),
                  decisions := (decisions st)[i := (decisions st ! i)\<lparr>decided_status := kApplied\<rparr>]\<rparr>)
      in st'\<lparr>decisions := map (\<lambda>d. d\<lparr>decision_revision :=
             tuning_revision (movement (world_match (intake_world st')))\<rparr>) (decisions st')\<rparr>)"

definition apply_input_batch ::
  "input_batch \<Rightarrow> nat \<Rightarrow> tick \<Rightarrow> game_world \<Rightarrow> (game_world \<times> tuning_decision list) result" where
  "apply_input_batch batch seat_ceiling now w =
     (let entry_revision = tuning_revision (movement (world_match w));
          cleared = clear_recorded w
      in if batch_commands batch = [] then Inr (cleared, [])
         else try_then
           (try_fold (apply_command seat_ceiling entry_revision now) (batch_commands batch)
             \<lparr>intake_world = cleared, decisions = [], winner = None\<rparr>) (\<lambda>st.
           let st' = settle_tuning entry_revision now st in
           Inr (intake_world st', decisions st')))"

section \<open>The despawn sweep and the mode's mask\<close>

definition despawned :: "game_world \<Rightarrow> entity_id list" where
  "despawned w = List.map_filter (\<lambda>event. case event of
       DespawnEvent e \<Rightarrow> if world_contains w e then Some e else None
     | _ \<Rightarrow> None) (events w)"

definition apply_despawn_events :: "game_world \<Rightarrow> bool \<times> game_world" where
  "apply_despawn_events w = (despawned w \<noteq> [], fold destroy_entity (despawned w) w)"

definition require_mode_accepts_server_issued_kinds :: "command_kind_mask \<Rightarrow> unit result" where
  "require_mode_accepts_server_issued_kinds accepted =
     (let refused = Inl (SimError kGameSimulationModeRefusesServerIssuedKind
                      ''game_simulation.setup.accepted_command_kinds'') in
      if \<not> list_all (mask_contains accepted) [kSpawn, kDespawn, kLeave] then refused
      else if mask_contains accepted kStartMatch \<and> \<not> mask_contains accepted kJoin then refused
      else Inr ())"

section \<open>Rewriting entries in place\<close>

lemma ids_store_modify [simp]: "store_ids (store_modify e f s) = store_ids s"
proof -
  have "i < length s \<Longrightarrow> fst (s ! i) = e \<Longrightarrow> (map fst s)[i := e] = map fst s" for i
    by (metis list_update_id nth_map)
  then show ?thesis by (auto simp: store_modify_def Let_def map_update)
qed

lemma values_store_modify:
  assumes "\<And>c. g (f c) = g c"
  shows "map (\<lambda>p. g (snd p)) (store_modify e f s) = map (\<lambda>p. g (snd p)) s"
proof -
  have "i < length s \<Longrightarrow> (map (\<lambda>p. g (snd p)) s)[i := g (snd (s ! i))] = map (\<lambda>p. g (snd p)) s" for i
    by (metis (no_types, lifting) list_update_id nth_map)
  then show ?thesis by (auto simp: store_modify_def Let_def map_update assms)
qed

lemma valid_store_modify [simp]: "valid_store (store_modify e f s) \<longleftrightarrow> valid_store s"
proof -
  have "length (store_modify e f s) = length s" by (metis ids_store_modify length_map)
  then show ?thesis by (simp only: valid_store_def ids_store_modify)
qed

lemma ids_store_map_values [simp]: "store_ids (store_map_values f s) = store_ids s"
  by (simp add: store_map_values_def case_prod_beta comp_def)

lemma valid_store_map_values [simp]: "valid_store (store_map_values f s) \<longleftrightarrow> valid_store s"
  unfolding valid_store_def ids_store_map_values by (simp add: store_map_values_def)

lemma values_store_map_values:
  assumes "\<And>c. g (f c) = g c"
  shows "map (\<lambda>p. g (snd p)) (store_map_values f s) = map (\<lambda>p. g (snd p)) s"
  by (simp add: store_map_values_def case_prod_beta assms)

lemma mset_put_entry:
  assumes "ascending (store_ids s)" and "store_find s e = None"
  shows "mset (put_entry e c s) = add_mset (e, c) (mset s)"
  using assms
  by (induction e c s rule: put_entry.induct) (auto simp: store_find_Cons split: if_splits)

section \<open>What phase 0 keeps\<close>

definition drivers :: "game_world \<Rightarrow> controller_id list" where
  "drivers w = map (\<lambda>p. driving_controller (snd p)) (controllables w)"

text \<open>A well-formed world in which no controller drives two entities.\<close>

definition intake_invar :: "game_world \<Rightarrow> bool" where
  "intake_invar w \<longleftrightarrow> valid_world w \<and> distinct (drivers w)"

lemma controller_holds_a_body_drivers: "controller_holds_a_body w c \<longleftrightarrow> c \<in> set (drivers w)"
  by (auto simp: controller_holds_a_body_def drivers_def list_ex_iff)

lemma controller_holds_a_seat_seated: "controller_holds_a_seat r c \<longleftrightarrow> c \<in> set (seated r)"
proof -
  have "(case s of ControllerSeat held \<Rightarrow> held = c | NpcSeat kind held profile \<Rightarrow> held = Some c
      | EmptySeat \<Rightarrow> False) \<longleftrightarrow> seat_holder s = Some c" for s
    by (cases s) auto
  then show ?thesis by (simp add: controller_holds_a_seat_def set_seated list_ex_iff)
qed

lemma set_roster_simps [simp]:
  "roster (world_match (set_roster r w)) = r" "drivers (set_roster r w) = drivers w"
  "controllables (set_roster r w) = controllables w" "bodies (set_roster r w) = bodies w"
  "phase (world_match (set_roster r w)) = phase (world_match w)"
  "movement (world_match (set_roster r w)) = movement (world_match w)"
  "world_reservation (set_roster r w) = world_reservation w"
  by (simp_all add: set_roster_def set_match_def drivers_def)

lemma valid_world_set_roster:
  "valid_world w \<Longrightarrow> valid_roster r \<Longrightarrow> valid_world (set_roster r w)"
  by (simp add: valid_world_def valid_stores_def set_roster_def set_match_def)

lemma intake_invar_set_roster:
  "intake_invar w \<Longrightarrow> valid_roster r \<Longrightarrow> intake_invar (set_roster r w)"
  by (simp add: intake_invar_def valid_world_set_roster)

lemma intake_invar_roster: "intake_invar w \<Longrightarrow> valid_roster (roster (world_match w))"
  by (simp add: intake_invar_def valid_world_def)

lemma intake_invar_destroy:
  assumes "intake_invar w"
  shows "intake_invar (destroy_entity e w)"
proof -
  have "valid_store (controllables w)"
    using assms by (simp add: intake_invar_def valid_world_def valid_stores_def)
  then have "distinct (drivers (destroy_entity e w))"
    using assms
    by (simp add: drivers_def intake_invar_def ids_store_erase valid_store_def distinct_map_filter)
  with assms show ?thesis by (simp add: intake_invar_def valid_world_destroy)
qed

lemma intake_invar_destroy_many: "intake_invar w \<Longrightarrow> intake_invar (fold destroy_entity es w)"
  by (induction es arbitrary: w) (simp_all add: intake_invar_destroy)

lemma destroy_many_keeps [simp]:
  "world_match (fold destroy_entity es w) = world_match w"
  "events (fold destroy_entity es w) = events w"
  "world_reservation (fold destroy_entity es w) = world_reservation w"
  by (induction es arbitrary: w) simp_all

lemma assign_seat_Inr:
  "assign_seat i s r = Inr r' \<longleftrightarrow> i < length (seats r) \<and> r' = r\<lparr>seats := (seats r)[i := s]\<rparr>"
  by (auto simp: assign_seat_def)

lemma valid_roster_clear:
  "valid_roster r \<Longrightarrow> i < length (seats r) \<Longrightarrow> seat_holder s = None \<Longrightarrow>
   valid_roster (r\<lparr>seats := (seats r)[i := s]\<rparr>)"
  by (rule valid_roster_assign) simp_all

lemma valid_roster_resize:
  assumes "valid_roster r" and "try_set_seat_count n r = Inr (b, r')"
  shows "valid_roster r'"
  using assms seated_resize [of n r]
  by (auto simp: try_set_seat_count_def valid_roster_def split: if_splits)

lemma seat_holder_vacated:
  "seat_holder (vacated c s) = (if seat_holder s = Some c then None else seat_holder s)"
  by (cases "(c, s)" rule: vacated.cases) auto

lemma seated_vacated:
  "seated (r\<lparr>seats := map (vacated c) (seats r)\<rparr>) = filter (\<lambda>x. x \<noteq> c) (seated r)"
proof -
  have "List.map_filter seat_holder (map (vacated c) xs) =
      filter (\<lambda>x. x \<noteq> c) (List.map_filter seat_holder xs)" for xs
    by (induction xs) (auto simp: List.map_filter_simps seat_holder_vacated split: option.split)
  then show ?thesis by (simp add: seated_def)
qed

lemma valid_roster_vacated:
  "valid_roster r \<Longrightarrow> valid_roster (r\<lparr>seats := map (vacated c) (seats r)\<rparr>)"
  by (simp add: valid_roster_def seated_vacated)


section \<open>Each operation keeps the invariant\<close>

lemma join_declared_seat_valid:
  assumes "valid_roster r" and "c \<notin> set (seated r)" and "join_declared_seat c i d r = Inr r'"
  shows "valid_roster r'"
  using assms
  by (auto simp: join_declared_seat_def assign_seat_Inr intro!: valid_roster_assign
      split: if_splits seat.splits)

lemma join_first_seat_valid:
  assumes "valid_roster r" and "c \<notin> set (seated r)" and "join_first_seat c ph r = Inr r'"
  shows "valid_roster r'"
  using assms
  by (auto simp: join_first_seat_def assign_seat_Inr intro!: valid_roster_assign split: option.splits)

lemma intake_invar_join:
  assumes "intake_invar w" and "apply_join c i d w = Inr w'"
  shows "intake_invar w'"
proof (cases "controller_holds_a_seat (roster (world_match w)) c")
  case True
  with assms show ?thesis by (simp add: apply_join_def)
next
  case False
  then have c: "c \<notin> set (seated (roster (world_match w)))"
    by (simp add: controller_holds_a_seat_seated)
  from False assms(2) obtain r' where "w' = set_roster r' w"
    and "(case i of Some i \<Rightarrow> join_declared_seat c i d (roster (world_match w))
       | None \<Rightarrow> join_first_seat c (phase (world_match w)) (roster (world_match w))) = Inr r'"
    by (auto simp: apply_join_def Let_def try_then_Inr_iff)
  with c assms(1) show ?thesis
    by (auto intro!: intake_invar_set_roster intro: join_declared_seat_valid join_first_seat_valid
        intake_invar_roster split: option.splits)
qed

lemma intake_invar_leave: "intake_invar w \<Longrightarrow> intake_invar (apply_leave c w)"
  by (auto simp: apply_leave_def Let_def intake_invar_roster
      intro!: intake_invar_set_roster intake_invar_destroy_many valid_roster_vacated)

lemma intake_invar_lobby:
  assumes "intake_invar w" and "apply_lobby_command command n w = Inr (b, w')"
  shows "intake_invar w'"
proof -
  have r: "valid_roster (roster (world_match w))" using assms(1) by (rule intake_invar_roster)
  have size: "apply_set_seat_count k n w = Inr w' \<Longrightarrow> intake_invar w'" for k
    using assms(1) r
    by (auto simp: apply_set_seat_count_def try_then_Inr_iff intro!: intake_invar_set_roster
        intro: valid_roster_resize split: if_splits)
  have clear: "apply_clear_seat i w = Inr w' \<Longrightarrow> intake_invar w'" for i
    using assms(1) r
    by (auto simp: apply_clear_seat_def Let_def try_then_Inr_iff assign_seat_Inr
        intro!: intake_invar_set_roster valid_roster_clear split: if_splits)
  have npc: "apply_seat_npc i k p w = Inr w' \<Longrightarrow> intake_invar w'" for i k p
    using assms(1) r
    by (auto simp: apply_seat_npc_def Let_def try_then_Inr_iff assign_seat_Inr
        intro!: intake_invar_set_roster valid_roster_clear split: if_splits)
  have start: "intake_invar (set_roster (request_start (roster (world_match w))) w)"
    using assms(1) r
    by (intro intake_invar_set_roster) (simp_all add: valid_roster_def request_start_def seated_def)
  show ?thesis
    using assms size clear npc start
    by (cases "(command, n, w)" rule: apply_lobby_command.cases)
      (auto simp: try_then_Inr_iff split: if_splits)
qed

lemma intake_invar_record: "intake_invar w \<Longrightarrow> intake_invar (record_command command w)"
  by (simp add: record_command_def intake_invar_def drivers_def valid_world_def valid_stores_def
      values_store_modify split: option.split)

lemma carries_controllables_contains: "carries (controllables w) e \<Longrightarrow> world_contains w e"
  by (simp add: world_contains_iff carried_kinds_def)

lemma intake_invar_spawn:
  assumes i: "intake_invar w" and s: "apply_spawn c w = Inr w'"
  shows "intake_invar w'"
proof (cases "controller_holds_a_body w c")
  case True
  with assms show ?thesis by (simp add: apply_spawn_def)
next
  case False
  with s obtain e w1 cs where e: "create_entity w = Inr (e, w1)"
    and ins: "insert_or_assign e (controllable_of c) (controllables w1) = Inr cs"
    and w': "w' = w1\<lparr>controllables := cs\<rparr>"
    by (auto simp: apply_spawn_def try_then_Inr_iff)
  have same: "controllables w1 = controllables w"
    by (subst create_entity_fresh(3) [OF e]) simp
  have v: "valid_world w1" using i valid_world_create_entity e by (auto simp: intake_invar_def)
  then have vs: "valid_store (controllables w1)" by (simp add: valid_world_def valid_stores_def)
  have fresh: "store_find (controllables w1) e = None"
  proof -
    have "\<not> carries (controllables w) e"
      using create_entity_fresh(1) [OF e] carries_controllables_contains by blast
    then show ?thesis by (simp add: carries_def same)
  qed
  have "cs = put_entry e (controllable_of c) (controllables w1)"
    using ins by (auto simp: insert_or_assign_valid [OF vs] split: if_splits)
  then have m: "mset cs = add_mset (e, controllable_of c) (mset (controllables w))"
    using mset_put_entry [OF _ fresh] vs same by (simp add: valid_store_def)
  have "mset (drivers w') = add_mset c (mset (drivers w))"
    unfolding drivers_def mset_map w' by (simp add: m controllable_of_def)
  then have "distinct (drivers w')"
    using i False
    by (metis controller_holds_a_body_drivers distinct.simps(2) intake_invar_def mset.simps(2)
        mset_eq_imp_distinct_iff)
  moreover have "valid_world w'"
    using v stored.invar_insert [OF vs ins] by (simp add: w' valid_world_def valid_stores_def)
  ultimately show ?thesis by (simp add: intake_invar_def)
qed

lemma intake_invar_world:
  assumes "intake_invar w" and "apply_to_world n command w = Inr w'"
  shows "intake_invar w'"
  using assms
  by (cases "(n, command, w)" rule: apply_to_world.cases)
    (auto simp: try_then_Inr_iff intake_invar_destroy intake_invar_leave
      intro: intake_invar_spawn intake_invar_join intake_invar_record intake_invar_lobby
      simp del: apply_lobby_command.simps split: if_splits)

lemma intake_world_apply_command:
  assumes "apply_command n rv now command st = Inr st'"
  shows "intake_world st' = intake_world st \<or>
    apply_to_world n command (intake_world st) = Inr (intake_world st')"
  using assms
  by (cases "(n, rv, now, command, st)" rule: apply_command.cases)
    (auto simp: try_then_Inr_iff decide_tuning_def Let_def simp del: apply_to_world.simps)

lemma intake_invar_clear: "intake_invar w \<Longrightarrow> intake_invar (clear_recorded w)"
  by (simp add: clear_recorded_def intake_invar_def drivers_def valid_world_def valid_stores_def
      values_store_map_values)

lemma intake_world_settle:
  "intake_world (settle_tuning rv now st) = intake_world st \<or>
   (\<exists>t. intake_world (settle_tuning rv now st) =
      set_match ((world_match (intake_world st))\<lparr>movement := t\<rparr>) (intake_world st))"
  by (auto simp: settle_tuning_def Let_def split: option.split)

lemma intake_invar_settle:
  assumes "intake_invar (intake_world st)"
  shows "intake_invar (intake_world (settle_tuning rv now st))"
  using intake_world_settle [of rv now st] assms
  by (auto simp: intake_invar_def valid_world_def valid_stores_def set_match_def drivers_def)

lemma intake_invar_batch:
  assumes "intake_invar w" and "apply_input_batch batch n now w = Inr (w', ds)"
  shows "intake_invar w'"
proof (cases "batch_commands batch = []")
  case True
  with assms show ?thesis by (auto simp: apply_input_batch_def Let_def intake_invar_clear)
next
  case False
  with assms(2) obtain st where run: "try_fold (apply_command n
      (tuning_revision (movement (world_match w))) now) (batch_commands batch)
      \<lparr>intake_world = clear_recorded w, decisions = [], winner = None\<rparr> = Inr st"
    and w': "w' = intake_world (settle_tuning (tuning_revision (movement (world_match w))) now st)"
    by (auto simp: apply_input_batch_def Let_def try_then_Inr_iff)
  have "intake_invar (intake_world st)"
  proof (rule try_fold_invariant [OF run])
    show "intake_invar (intake_world \<lparr>intake_world = clear_recorded w, decisions = [], winner = None\<rparr>)"
      using assms(1) by (simp add: intake_invar_clear)
  next
    fix x s s'
    assume "intake_invar (intake_world s)"
      "apply_command n (tuning_revision (movement (world_match w))) now x s = Inr s'"
    then show "intake_invar (intake_world s')"
      using intake_world_apply_command intake_invar_world by metis
  qed
  then show ?thesis unfolding w' by (rule intake_invar_settle)
qed

section \<open>The tuning decisions\<close>

fun tuning_request :: "command \<Rightarrow> (controller_id \<times> u64) option" where
  "tuning_request (SetMovementTuningCommand c request expected tuning) = Some (c, request)"
| "tuning_request command = None"

lemma movement_record [simp]: "world_match (record_command command w) = world_match w"
  by (simp add: record_command_def split: option.split)

lemma movement_spawn: "apply_spawn c w = Inr w' \<Longrightarrow> world_match w' = world_match w"
  by (auto simp: apply_spawn_def create_entity_def try_then_Inr_iff split: if_splits)

lemma movement_join:
  "apply_join c i d w = Inr w' \<Longrightarrow> movement (world_match w') = movement (world_match w)"
  by (auto simp: apply_join_def Let_def try_then_Inr_iff split: if_splits)

lemma movement_lobby:
  "apply_lobby_command command n w = Inr (b, w') \<Longrightarrow> movement (world_match w') = movement (world_match w)"
  by (cases "(command, n, w)" rule: apply_lobby_command.cases)
    (auto simp: try_then_Inr_iff apply_set_seat_count_def apply_clear_seat_def apply_seat_npc_def Let_def
      split: if_splits)

lemma movement_leave [simp]: "movement (world_match (apply_leave c w)) = movement (world_match w)"
  by (simp add: apply_leave_def Let_def)

lemma movement_world:
  assumes "apply_to_world n command w = Inr w'"
  shows "movement (world_match w') = movement (world_match w)"
  using assms
  by (cases "(n, command, w)" rule: apply_to_world.cases)
    (auto simp: try_then_Inr_iff dest: movement_spawn movement_join movement_lobby
      simp del: apply_lobby_command.simps split: if_splits)

text \<open>The decisions while the batch runs: none is applied yet, and the winner is the last one that
  nothing refused.\<close>

definition tuning_invar :: "movement_tuning_state \<Rightarrow> intake \<Rightarrow> bool" where
  "tuning_invar m st \<longleftrightarrow> movement (world_match (intake_world st)) = m \<and>
     (\<forall>d\<in>set (decisions st). decided_status d \<noteq> kApplied) \<and>
     (case winner st of
        None \<Rightarrow> \<forall>d\<in>set (decisions st). decided_status d \<noteq> kSuperseded
      | Some (t, i) \<Rightarrow> i < length (decisions st) \<and> decided_status (decisions st ! i) = kSuperseded \<and>
          (\<forall>j<length (decisions st). decided_status (decisions st ! j) = kSuperseded \<longrightarrow> j \<le> i) \<and>
          admits m t \<and> tuning_revision m < kMaximumProtocolSafeInteger)"

lemma tuning_invar_decide:
  assumes "tuning_invar m st" and "entry_revision = tuning_revision m"
  shows "tuning_invar m (decide_tuning c request expected tuning entry_revision now st)"
proof (cases "tuning_verdict (intake_world st) c expected entry_revision tuning")
  case None
  then have "admits m tuning" and "tuning_revision m < kMaximumProtocolSafeInteger"
    using assms by (auto simp: tuning_verdict_def tuning_invar_def split: if_splits)
  then show ?thesis
    using assms None by (auto simp: tuning_invar_def decide_tuning_def Let_def nth_append)
next
  case (Some refused)
  then have "refused \<noteq> kApplied" and "refused \<noteq> kSuperseded"
    by (auto simp: tuning_verdict_def split: if_splits)
  then show ?thesis
    using assms Some
    by (auto simp: tuning_invar_def decide_tuning_def Let_def nth_append less_Suc_eq
        split: option.splits)
qed

lemma apply_command_decisions:
  assumes "apply_command n rv now command st = Inr st'"
  shows "map (\<lambda>d. (decided_controller d, decided_request d)) (decisions st') =
      map (\<lambda>d. (decided_controller d, decided_request d)) (decisions st) @
      (case tuning_request command of None \<Rightarrow> [] | Some p \<Rightarrow> [p])"
    and "tuning_invar m st \<Longrightarrow> rv = tuning_revision m \<Longrightarrow> tuning_invar m st'"
proof -
  have other: "tuning_request command = None \<Longrightarrow>
      \<exists>w. apply_to_world n command (intake_world st) = Inr w \<and> st' = st\<lparr>intake_world := w\<rparr>"
    using assms
    by (cases "(n, rv, now, command, st)" rule: apply_command.cases)
      (auto simp: try_then_Inr_iff simp del: apply_to_world.simps)
  have "map (\<lambda>d. (decided_controller d, decided_request d)) (decisions st') =
      map (\<lambda>d. (decided_controller d, decided_request d)) (decisions st) @
      (case tuning_request command of None \<Rightarrow> [] | Some p \<Rightarrow> [p]) \<and>
    (tuning_invar m st \<and> rv = tuning_revision m \<longrightarrow> tuning_invar m st')"
  proof (cases "tuning_request command")
    case None
    then obtain w where w: "apply_to_world n command (intake_world st) = Inr w"
      and st': "st' = st\<lparr>intake_world := w\<rparr>" using other by blast
    from movement_world [OF w] None show ?thesis
      by (simp add: st' tuning_invar_def split: option.split)
  next
    case (Some p)
    then obtain c q e t where "command = SetMovementTuningCommand c q e t" "p = (c, q)"
      by (cases command rule: tuning_request.cases) auto
    with assms Some show ?thesis
      using tuning_invar_decide by (auto simp: decide_tuning_def Let_def)
  qed
  then show "map (\<lambda>d. (decided_controller d, decided_request d)) (decisions st') =
      map (\<lambda>d. (decided_controller d, decided_request d)) (decisions st) @
      (case tuning_request command of None \<Rightarrow> [] | Some p \<Rightarrow> [p])"
    and "tuning_invar m st \<Longrightarrow> rv = tuning_revision m \<Longrightarrow> tuning_invar m st'"
    by blast+
qed

lemma fold_decisions:
  assumes "try_fold (apply_command n rv now) cs st = Inr st'"
  shows "map (\<lambda>d. (decided_controller d, decided_request d)) (decisions st') =
      map (\<lambda>d. (decided_controller d, decided_request d)) (decisions st) @
      List.map_filter tuning_request cs"
  using assms
proof (induction cs arbitrary: st)
  case Nil
  then show ?case by (simp add: List.map_filter_simps)
next
  case (Cons c cs)
  then obtain s1 where "apply_command n rv now c st = Inr s1"
    and "try_fold (apply_command n rv now) cs s1 = Inr st'"
    by (auto simp: try_then_Inr_iff)
  with Cons.IH show ?case
    using apply_command_decisions(1) by (auto simp: List.map_filter_simps split: option.split)
qed

text \<open>What a settled batch says about tuning.\<close>

definition tuning_settled ::
  "movement_tuning_state \<Rightarrow> tick \<Rightarrow> movement_tuning_state \<Rightarrow> tuning_decision list \<Rightarrow> bool" where
  "tuning_settled m now m' ds \<longleftrightarrow>
     (\<forall>i j. i < length ds \<and> j < length ds \<and> decided_status (ds ! i) = kApplied \<and>
        decided_status (ds ! j) = kApplied \<longrightarrow> i = j) \<and>
     (\<forall>i<length ds. decided_status (ds ! i) = kSuperseded \<longrightarrow>
        (\<exists>j<length ds. i < j \<and> decided_status (ds ! j) = kApplied)) \<and>
     (\<forall>d\<in>set ds. decision_revision d = tuning_revision m') \<and>
     (if \<exists>d\<in>set ds. decided_status d = kApplied
      then unat (tuning_revision m') = Suc (unat (tuning_revision m)) \<and>
        unat (tuning_revision m') \<le> 9007199254740991 \<and>
        effective_tick m' = now \<and> admits m (current_tuning m') \<and> default_tuning m' = default_tuning m
      else m' = m)"

lemma settle_tuning_settled:
  assumes "tuning_invar m st"
  shows "tuning_settled m now (movement (world_match (intake_world
      (settle_tuning (tuning_revision m) now st)))) (decisions (settle_tuning (tuning_revision m) now st))"
proof (cases "winner st")
  case None
  with assms have "\<forall>j<length (decisions st). decided_status (decisions st ! j) \<noteq> kApplied \<and>
      decided_status (decisions st ! j) \<noteq> kSuperseded"
    and "movement (world_match (intake_world st)) = m"
    by (auto simp: tuning_invar_def)
  with None show ?thesis
    by (auto simp: tuning_settled_def settle_tuning_def Let_def in_set_conv_nth)
next
  case (Some p)
  obtain t i where p: "p = (t, i)" by (cases p)
  from assms have i: "i < length (decisions st)"
    and last: "\<forall>j<length (decisions st). decided_status (decisions st ! j) = kSuperseded \<longrightarrow> j \<le> i"
    and none: "\<forall>j<length (decisions st). decided_status (decisions st ! j) \<noteq> kApplied"
    and m: "movement (world_match (intake_world st)) = m" and t: "admits m t"
    and below: "unat (tuning_revision m) < 9007199254740991"
    by (auto simp: tuning_invar_def Some p word_less_nat_alt)
  define ds where "ds = decisions (settle_tuning (tuning_revision m) now st)"
  have len: "length ds = length (decisions st)"
    by (simp add: ds_def settle_tuning_def Let_def Some p)
  have status: "decided_status (ds ! j) = (if j = i then kApplied else decided_status (decisions st ! j))"
    if "j < length ds" for j
    using that i by (simp add: ds_def settle_tuning_def Let_def Some p)
  have up: "unat (tuning_revision m + 1) = Suc (unat (tuning_revision m))"
    using below by (subst u64_add_unat) simp_all
  have m': "movement (world_match (intake_world (settle_tuning (tuning_revision m) now st))) =
      m\<lparr>current_tuning := t, tuning_revision := tuning_revision m + 1, effective_tick := now\<rparr>"
    by (simp add: settle_tuning_def Let_def Some p set_match_def m)
  have stamps: "\<forall>d\<in>set ds. decision_revision d = tuning_revision m + 1"
    by (auto simp: ds_def settle_tuning_def Let_def Some p set_match_def)
  have applied: "\<exists>d\<in>set ds. decided_status d = kApplied"
    using i len status by (intro bexI [of _ "ds ! i"]) simp_all
  have once: "\<forall>a b. a < length ds \<and> b < length ds \<and> decided_status (ds ! a) = kApplied \<and>
      decided_status (ds ! b) = kApplied \<longrightarrow> a = b"
    using status none len by (metis (full_types))
  have later: "\<forall>a<length ds. decided_status (ds ! a) = kSuperseded \<longrightarrow>
      (\<exists>b<length ds. a < b \<and> decided_status (ds ! b) = kApplied)"
  proof (intro allI impI)
    fix a
    assume a: "a < length ds" "decided_status (ds ! a) = kSuperseded"
    then have "a \<noteq> i" and "decided_status (decisions st ! a) = kSuperseded"
      using status [OF a(1)] by (auto split: if_splits)
    with last a(1) len have "a < i" by fastforce
    with i len status show "\<exists>b<length ds. a < b \<and> decided_status (ds ! b) = kApplied"
      by (intro exI [of _ i]) simp
  qed
  show ?thesis
    unfolding ds_def [symmetric] tuning_settled_def m'
    using once later stamps applied up below t by simp
qed


lemma map_update_same:
  "f y = f (xs ! i) \<Longrightarrow> map f (xs[i := y]) = map f xs"
  by (cases "i < length xs") (simp_all add: list_eq_iff_nth_eq nth_list_update)

lemma settled_requests:
  "map (\<lambda>d. (decided_controller d, decided_request d)) (decisions (settle_tuning r now st)) =
     map (\<lambda>d. (decided_controller d, decided_request d)) (decisions st)"
  by (cases "winner st")
    (auto simp: settle_tuning_def Let_def comp_def map_update_same)

section \<open>Leaving\<close>

lemma valid_stores_destroy_many: "valid_stores w \<Longrightarrow> valid_stores (fold destroy_entity es w)"
  by (induction es arbitrary: w) (simp_all add: valid_stores_destroy)

lemma entities_destroy_many:
  "valid_stores w \<Longrightarrow> entities (fold destroy_entity es w) = filter (\<lambda>e. e \<notin> set es) (entities w)"
proof (induction es arbitrary: w)
  case Nil
  then show ?case by simp
next
  case (Cons e es)
  then show ?case
    by (auto simp: entities_destroy valid_stores_destroy intro: filter_cong)
qed

lemma controllables_destroy_many:
  "valid_stores w \<Longrightarrow>
   controllables (fold destroy_entity es w) = filter (\<lambda>p. fst p \<notin> set es) (controllables w)"
proof (induction es arbitrary: w)
  case Nil
  then show ?case by simp
next
  case (Cons e es)
  have "ascending (store_ids (controllables w))"
    using Cons.prems by (simp add: valid_stores_def valid_store_def)
  with Cons show ?case
    by (auto simp: valid_stores_destroy ids_store_erase intro: filter_cong)
qed

lemma driven_by_ids:
  assumes "valid_stores w" and "p \<in> set (controllables w)"
  shows "fst p \<in> set (driven_by c w) \<longleftrightarrow> driving_controller (snd p) = c"
proof -
  have "distinct (store_ids (controllables w))"
    using assms(1) by (simp add: valid_stores_def valid_store_def ascending_distinct)
  then have "q = p" if "q \<in> set (controllables w)" "fst q = fst p" for q
    using that assms(2) by (auto simp: distinct_map inj_on_def)
  then have only: "driving_controller (snd q) = driving_controller (snd p)"
    if "q \<in> set (controllables w)" "fst q = fst p" for q
    using that by metis
  show ?thesis
  proof
    assume "fst p \<in> set (driven_by c w)"
    then obtain q where "q \<in> set (controllables w)" "driving_controller (snd q) = c" "fst q = fst p"
      by (auto simp: driven_by_def)
    with only show "driving_controller (snd p) = c" by metis
  next
    assume "driving_controller (snd p) = c"
    with assms(2) show "fst p \<in> set (driven_by c w)"
      by (simp add: driven_by_def)
  qed
qed

lemma controllables_leave:
  assumes "valid_stores w"
  shows "controllables (apply_leave c w) = filter (\<lambda>p. driving_controller (snd p) \<noteq> c) (controllables w)"
proof -
  have "controllables (apply_leave c w) = filter (\<lambda>p. fst p \<notin> set (driven_by c w)) (controllables w)"
    by (simp add: apply_leave_def Let_def controllables_destroy_many [OF assms])
  also have "\<dots> = filter (\<lambda>p. driving_controller (snd p) \<noteq> c) (controllables w)"
    by (rule filter_cong [OF refl]) (simp add: driven_by_ids [OF assms])
  finally show ?thesis .
qed

lemma entities_set_roster [simp]: "entities (set_roster r w) = entities w"
  by (simp add: entities_def store_id_lists_def set_roster_def set_match_def)

section \<open>What intake promises\<close>

text \<open>
  C6: applying a batch keeps the world well-formed: every store stays strictly ascending and within
  its bound, the reservation stays legal, no controller ever holds two seats of the roster and no
  controller ever drives two entities, whatever mixture of spawns, joins, leaves, lobby commands,
  despawns and tunings the batch holds.
\<close>

theorem intake_keeps_one_seat_one_body:
  assumes "valid_world w" and "distinct (drivers w)"
    and "apply_input_batch batch n now w = Inr (w', ds)"
  shows "valid_world w' \<and> distinct (drivers w') \<and> distinct (seated (roster (world_match w')))"
  using intake_invar_batch [of w batch n now w' ds] assms
  by (simp add: intake_invar_def valid_world_def valid_roster_def)

definition tuning_world :: game_world where
  "tuning_world = set_roster \<lparr>seats = [ControllerSeat (ControllerId 2), ControllerSeat (ControllerId 5)],
     start_requested = False\<rparr> sample_world"

definition tuning_batch :: input_batch where
  "tuning_batch = \<lparr>batch_commands =
     [SpawnCommand (ControllerId 9),
      SetMovementTuningCommand (ControllerId 2) 11 0 movement_tuning_defaults,
      SetMovementTuningCommand (ControllerId 5) 12 0 movement_tuning_defaults,
      SetMovementTuningCommand (ControllerId 9) 13 0 movement_tuning_defaults],
     batch_reservation = reservation_none\<rparr>"

lemma tuning_world_invar: "valid_world tuning_world" "distinct (drivers tuning_world)"
  using valid_world_set_roster [OF sample_world_valid]
  by (simp_all add: tuning_world_def valid_roster_def seated_def List.map_filter_simps
      kMaximumSeatCount_def)
    (simp add: drivers_def sample_world_def controllable_of_def)

lemma tuning_batch_applies:
  "\<exists>w'. apply_input_batch tuning_batch 4 (Tick 1) tuning_world = Inr (w',
     [\<lparr>decided_controller = ControllerId 2, decided_request = 11, decided_status = kSuperseded,
       decision_tick = Tick 1, decision_revision = 1\<rparr>,
      \<lparr>decided_controller = ControllerId 5, decided_request = 12, decided_status = kApplied,
       decision_tick = Tick 1, decision_revision = 1\<rparr>,
      \<lparr>decided_controller = ControllerId 9, decided_request = 13, decided_status = kNotSeated,
       decision_tick = Tick 1, decision_revision = 1\<rparr>])"
  by (simp add: apply_input_batch_def tuning_batch_def tuning_world_def Let_def sample_world_def
      clear_recorded_def set_roster_def set_match_def apply_spawn_def controller_holds_a_body_def
      create_entity_def draw_next_def entity_id_create_def world_contains_iff carried_kinds_def carries_def
      store_find_Cons world_empty_def insert_or_assign_def store_lower_bound_def less_entity_id_def
      kMaximumEntityCount_def store_map_values_def controllable_of_def decide_tuning_def
      tuning_verdict_def controller_holds_a_seat_def admits_def settle_tuning_def
      match_state_initial_def movement_tuning_state_default_def movement_tuning_defaults_def
      kMaximumProtocolSafeInteger_def kMinimumEntityId_def kMaximumEntityId_def
      kMaximumChargeSpeedFraction_def)

text \<open>
  C7: every tuning command of a batch is answered exactly once and in order, and the answers agree
  with the state. At most one decision is \<open>applied\<close>, a \<open>superseded\<close> one always loses to a later
  \<open>applied\<close> one, every decision carries the revision that holds after the batch; the revision goes
  up by exactly one, inside the protocol-safe range and with a tuning the bounds admit, if a command
  was applied, and otherwise the movement state is exactly what it was.
\<close>

theorem intake_settles_tuning:
  assumes "apply_input_batch batch n now w = Inr (w', ds)"
  shows "map (\<lambda>d. (decided_controller d, decided_request d)) ds =
      List.map_filter tuning_request (batch_commands batch) \<and>
    tuning_settled (movement (world_match w)) now (movement (world_match w')) ds"
proof (cases "batch_commands batch = []")
  case True
  with assms have "w' = clear_recorded w" and "ds = []" by (auto simp: apply_input_batch_def Let_def)
  with True show ?thesis by (simp add: tuning_settled_def clear_recorded_def List.map_filter_simps)
next
  case False
  let ?m = "movement (world_match w)"
  let ?st0 = "\<lparr>intake_world = clear_recorded w, decisions = [], winner = None\<rparr>"
  obtain st where run: "try_fold (apply_command n (tuning_revision ?m) now) (batch_commands batch) ?st0 = Inr st"
    and st: "w' = intake_world (settle_tuning (tuning_revision ?m) now st)"
      "ds = decisions (settle_tuning (tuning_revision ?m) now st)"
    using assms False by (auto simp: apply_input_batch_def Let_def try_then_Inr_iff)
  have "tuning_invar ?m st"
  proof (rule try_fold_invariant [OF run])
    show "tuning_invar ?m ?st0" by (simp add: tuning_invar_def clear_recorded_def)
  qed (rule apply_command_decisions(2), assumption+, rule refl)
  then have settled: "tuning_settled ?m now (movement (world_match w')) ds"
    unfolding st by (rule settle_tuning_settled)
  have same: "map (\<lambda>d. (decided_controller d, decided_request d)) ds =
      map (\<lambda>d. (decided_controller d, decided_request d)) (decisions st)"
    unfolding st(2) by (rule settled_requests)
  show ?thesis
    using fold_decisions [OF run] same settled by simp
qed

text \<open>
  a controller that leaves is gone from the match and nobody else is. After its leave command it
  holds no seat and drives no entity; exactly the entities it drove are destroyed; the seats keep
  their number and order, its own entrant seat is empty, its declared bot seat keeps the declaration,
  and every other seat is unchanged.
\<close>

theorem leave_removes_the_controller:
  assumes "valid_world w"
  shows "c \<notin> set (seated (roster (world_match (apply_leave c w)))) \<and>
    c \<notin> set (drivers (apply_leave c w)) \<and>
    entities (apply_leave c w) = filter (\<lambda>e. e \<notin> set (driven_by c w)) (entities w) \<and>
    seats (roster (world_match (apply_leave c w))) = map (vacated c) (seats (roster (world_match w))) \<and>
    seated (roster (world_match (apply_leave c w))) =
      filter (\<lambda>x. x \<noteq> c) (seated (roster (world_match w)))"
proof -
  have s: "valid_stores w" using assms by (rule valid_world_stores)
  have "seated (roster (world_match (apply_leave c w))) =
      filter (\<lambda>x. x \<noteq> c) (seated (roster (world_match w)))"
    by (simp add: apply_leave_def Let_def seated_vacated)
  moreover have "seats (roster (world_match (apply_leave c w))) =
      map (vacated c) (seats (roster (world_match w)))"
    by (simp add: apply_leave_def Let_def)
  moreover have "entities (apply_leave c w) = filter (\<lambda>e. e \<notin> set (driven_by c w)) (entities w)"
    by (simp add: apply_leave_def Let_def entities_destroy_many [OF s])
  moreover have "c \<notin> set (drivers (apply_leave c w))"
    by (auto simp: drivers_def controllables_leave [OF s])
  ultimately show ?thesis by simp
qed

theorem leave_removes_the_controller_witness:
  "seats (roster (world_match (apply_leave (ControllerId 2) tuning_world))) =
     [EmptySeat, ControllerSeat (ControllerId 5)]"
  using leave_removes_the_controller [OF tuning_world_invar(1), of "ControllerId 2"]
  by (simp add: tuning_world_def)

text \<open>
  outside the lobby phase the lobby commands do nothing. Resizing the roster, clearing a seat,
  declaring a bot and asking to start are recognised, and leave the world exactly as it was, so a
  countdown or a running match never changes shape from a late lobby command.
\<close>

theorem lobby_commands_frozen_outside_lobby:
  assumes "phase (world_match w) \<noteq> kLobby"
  shows "apply_to_world n (SetSeatCountCommand c k) w = Inr w \<and>
    apply_to_world n (ClearSeatCommand c i) w = Inr w \<and>
    apply_to_world n (SeatNpcCommand c i kind profile) w = Inr w \<and>
    apply_to_world n (StartMatchCommand c) w = Inr w"
  using assms by simp

theorem intake_keeps_one_seat_one_body_witness:
  "\<exists>w' ds. apply_input_batch tuning_batch 4 (Tick 1) tuning_world = Inr (w', ds) \<and> valid_world w' \<and>
     distinct (drivers w')"
  using tuning_batch_applies intake_keeps_one_seat_one_body [OF tuning_world_invar] by blast

theorem intake_settles_tuning_witness:
  "\<exists>w' ds. apply_input_batch tuning_batch 4 (Tick 1) tuning_world = Inr (w', ds) \<and> length ds = 3 \<and>
     tuning_settled (movement (world_match tuning_world)) (Tick 1) (movement (world_match w')) ds"
proof -
  obtain w' ds where run: "apply_input_batch tuning_batch 4 (Tick 1) tuning_world = Inr (w', ds)"
    and "length ds = 3"
    using tuning_batch_applies by fastforce
  with intake_settles_tuning [OF run] show ?thesis by blast
qed

theorem lobby_commands_frozen_outside_lobby_witness:
  "apply_to_world 4 (StartMatchCommand (ControllerId 2))
     (set_match ((world_match tuning_world)\<lparr>phase := kRunning\<rparr>) tuning_world) =
   Inr (set_match ((world_match tuning_world)\<lparr>phase := kRunning\<rparr>) tuning_world)"
  using lobby_commands_frozen_outside_lobby
    [of "set_match ((world_match tuning_world)\<lparr>phase := kRunning\<rparr>) tuning_world"]
  by (simp add: set_match_def)

section \<open>A validated batch is always applied\<close>

lemma first_index_less: "first_index p xs = Some i \<Longrightarrow> i < length xs"
  by (auto simp: first_index_Some)

lemma first_joinable_less: "first_joinable_seat r ph = Some i \<Longrightarrow> i < length (seats r)"
  by (auto simp: first_joinable_seat_def split: option.splits if_splits dest: first_index_less)

lemma apply_join_total: "\<exists>w'. apply_join c i d w = Inr w'"
proof -
  have "\<exists>r'. join_declared_seat c k d r = Inr r'" for k r
    by (simp add: join_declared_seat_def assign_seat_def split: seat.split)
  moreover have "\<exists>r'. join_first_seat c ph r = Inr r'" for ph r
    by (auto simp: join_first_seat_def assign_seat_def split: option.split dest: first_joinable_less)
  ultimately have "\<exists>r'. (case i of Some i \<Rightarrow> join_declared_seat c i d (roster (world_match w))
      | None \<Rightarrow> join_first_seat c (phase (world_match w)) (roster (world_match w))) = Inr r'"
    by (cases i) simp_all
  then show ?thesis by (auto simp: apply_join_def Let_def)
qed

text \<open>What a batch has checked of a command before it reaches the kernel.\<close>

fun seat_count_checked :: "command \<Rightarrow> bool" where
  "seat_count_checked (SetSeatCountCommand c n) \<longleftrightarrow> kMinimumSeatCount \<le> unat n \<and> unat n \<le> kMaximumSeatCount"
| "seat_count_checked command \<longleftrightarrow> True"

lemma validate_command_checked:
  "validate_command command accepted r = Inr () \<Longrightarrow> seat_count_checked command"
  by (cases "(command, r)" rule: validate_payload.cases)
    (auto simp: validate_command_def validate_seat_count_def split: if_splits)

lemma apply_lobby_total:
  assumes "seat_count_checked command"
  shows "\<exists>b w'. apply_lobby_command command n w = Inr (b, w')"
proof -
  have "\<exists>w'. apply_set_seat_count k n w = Inr w'"
    if "kMinimumSeatCount \<le> unat k" "unat k \<le> kMaximumSeatCount" for k
    using that by (auto simp: apply_set_seat_count_def try_set_seat_count_def)
  moreover have "\<exists>w'. apply_clear_seat i w = Inr w'" for i
    by (simp add: apply_clear_seat_def Let_def assign_seat_def)
  moreover have "\<exists>w'. apply_seat_npc i k p w = Inr w'" for i k p
    by (simp add: apply_seat_npc_def Let_def assign_seat_def)
  ultimately show ?thesis
    using assms by (cases "(command, n, w)" rule: apply_lobby_command.cases) (simp; metis try_then.simps(2))+
qed

text \<open>Room for the spawns a batch still holds: reserved ids above every live one, and free slots.\<close>

definition room :: "game_world \<Rightarrow> nat \<Rightarrow> bool" where
  "room w k \<longleftrightarrow> intake_invar w \<and> k \<le> unat (id_count (world_reservation w)) \<and>
     (id_count (world_reservation w) \<noteq> 0 \<longrightarrow>
        (\<forall>e\<in>set (entities w). e < first_id (world_reservation w))) \<and>
     length (controllables w) + k \<le> kMaximumEntityCount"

definition no_larger :: "game_world \<Rightarrow> game_world \<Rightarrow> bool" where
  "no_larger w w' \<longleftrightarrow> set (entities w') \<subseteq> set (entities w) \<and>
     length (controllables w') \<le> length (controllables w) \<and> world_reservation w' = world_reservation w"

lemma room_no_larger: "room w k \<Longrightarrow> no_larger w w' \<Longrightarrow> intake_invar w' \<Longrightarrow> room w' k"
  by (auto simp: room_def no_larger_def)

lemma no_larger_set_roster: "no_larger w (set_roster r w)"
  by (simp add: no_larger_def)

lemma no_larger_refl: "no_larger w w"
  by (simp add: no_larger_def)

lemma no_larger_destroy: "valid_stores w \<Longrightarrow> no_larger w (destroy_entity e w)"
  by (auto simp: no_larger_def entities_destroy ids_store_erase valid_stores_def valid_store_def)

lemma no_larger_leave: "valid_stores w \<Longrightarrow> no_larger w (apply_leave c w)"
  by (auto simp: no_larger_def controllables_leave)
    (auto simp: apply_leave_def Let_def entities_destroy_many)

lemma no_larger_record: "no_larger w (record_command command w)"
proof -
  have "store_ids (controllables (record_command command w)) = store_ids (controllables w)"
    by (simp add: record_command_def split: option.split)
  moreover have "entities (record_command command w) = entities w"
    by (simp add: record_command_def entities_def store_id_lists_def split: option.split)
  moreover have "world_reservation (record_command command w) = world_reservation w"
    by (simp add: record_command_def split: option.split)
  ultimately show ?thesis unfolding no_larger_def by (metis length_map order_refl subset_refl)
qed

lemma no_larger_join: "apply_join c i d w = Inr w' \<Longrightarrow> no_larger w w'"
  by (auto simp: apply_join_def Let_def try_then_Inr_iff no_larger_refl no_larger_set_roster
      split: if_splits)

lemma no_larger_lobby: "apply_lobby_command command n w = Inr (b, w') \<Longrightarrow> no_larger w w'"
  by (cases "(command, n, w)" rule: apply_lobby_command.cases)
    (auto simp: try_then_Inr_iff apply_set_seat_count_def apply_clear_seat_def apply_seat_npc_def Let_def
      no_larger_refl no_larger_set_roster split: if_splits)

lemma no_larger_trans: "no_larger u v \<Longrightarrow> no_larger v w \<Longrightarrow> no_larger u w"
  by (auto simp: no_larger_def)


definition is_spawn :: "command \<Rightarrow> bool" where
  "is_spawn command \<longleftrightarrow> (\<exists>c. command = SpawnCommand c)"

lemma room_spawn:
  assumes r: "room w (Suc k)"
  shows "\<exists>w'. apply_spawn c w = Inr w' \<and> room w' k"
proof (cases "controller_holds_a_body w c")
  case True
  with r show ?thesis by (auto simp: apply_spawn_def room_def)
next
  case False
  let ?r = "world_reservation w"
  have v: "valid_world w" and rv: "valid_reservation ?r"
    using r by (simp_all add: room_def intake_invar_def valid_world_def)
  have s: "valid_stores w" using v by (rule valid_world_stores)
  have n: "id_count ?r \<noteq> 0" using r by (auto simp: room_def)
  then obtain e r' where d: "draw_next ?r = Inr (e, r')" using draw_next_exists [OF rv] by blast
  note step = draw_next_step [OF rv d]
  have above: "\<forall>x\<in>set (entities w). x < e" using r n step(2) by (simp add: room_def)
  then have fresh: "\<not> world_contains w e" using entities_iff [OF s] by blast
  define w1 where "w1 = w\<lparr>world_reservation := r'\<rparr>"
  have created: "create_entity w = Inr (e, w1)" using d fresh by (simp add: create_entity_def w1_def)
  have vs: "valid_store (controllables w)" using s by (simp add: valid_stores_def)
  have none: "store_find (controllables w) e = None"
  proof -
    have "\<not> carries (controllables w) e" using fresh carries_controllables_contains by blast
    then show ?thesis by (simp add: carries_def)
  qed
  have slot: "length (controllables w) < kMaximumEntityCount" using r by (simp add: room_def)
  define cs where "cs = put_entry e (controllable_of c) (controllables w)"
  have ins: "insert_or_assign e (controllable_of c) (controllables w) = Inr cs"
    using slot by (simp add: insert_or_assign_valid [OF vs] cs_def)
  define w' where "w' = w1\<lparr>controllables := cs\<rparr>"
  have spawned: "apply_spawn c w = Inr w'"
    using False created ins by (simp add: apply_spawn_def w1_def w'_def)
  have inv: "intake_invar w'" using intake_invar_spawn spawned r by (auto simp: room_def)
  have len: "length cs = Suc (length (controllables w))"
    using length_put_entry [of e "controllable_of c" "controllables w"] none vs
    by (auto simp: cs_def valid_store_def)
  have contains: "world_contains w' x \<Longrightarrow> x = e \<or> world_contains w x" for x
    using stored.find_insert [OF vs ins, of x]
    by (auto simp: world_contains_iff carried_kinds_def w'_def w1_def carries_def split: if_splits)
  have s': "valid_stores w'" using inv by (simp add: intake_invar_def valid_world_def)
  have "x < first_id r'" if "id_count r' \<noteq> 0" "x \<in> set (entities w')" for x
  proof -
    have "x = e \<or> x \<in> set (entities w)"
      using contains that(2) entities_iff [OF s] entities_iff [OF s'] by blast
    then have "x \<le> e" using above by auto
    moreover have "e < first_id r'"
      using step(2,5) that(1) by (simp add: less_entity_id_def word_less_nat_alt)
    ultimately show ?thesis by simp
  qed
  moreover have "k \<le> unat (id_count r')" using r step(4) unfolding room_def by linarith
  ultimately have "room w' k"
    using inv r len by (auto simp: room_def w'_def w1_def)
  with spawned show ?thesis by blast
qed

lemma room_command:
  assumes r: "room w (if is_spawn command then Suc k else k)" and c: "seat_count_checked command"
  shows "\<exists>w'. apply_to_world n command w = Inr w' \<and> room w' k"
proof (cases "is_spawn command")
  case True
  with room_spawn r show ?thesis by (auto simp: is_spawn_def)
next
  case False
  then have r: "room w k" using r by simp
  then have s: "valid_stores w" and i: "intake_invar w"
    by (simp_all add: room_def intake_invar_def valid_world_def)
  have "\<exists>w'. apply_to_world n command w = Inr w' \<and> no_larger w w'"
  proof -
    consider (despawn) e where "command = DespawnCommand e"
      | (join) x y z where "command = JoinCommand x y z"
      | (leave) x where "command = LeaveCommand x"
      | (other) "apply_to_world n command w = try_then (apply_lobby_command command n w) (\<lambda>(lobby, w').
            Inr (if lobby then w' else record_command command w'))"
      using False by (cases command) (auto simp: is_spawn_def simp del: apply_lobby_command.simps)
    then show ?thesis
    proof cases
      case despawn
      with no_larger_destroy [OF s] show ?thesis by simp
    next
      case join
      obtain w' where "apply_join x y z w = Inr w'" using apply_join_total by blast
      with join no_larger_join show ?thesis by auto
    next
      case leave
      with no_larger_leave [OF s] show ?thesis by simp
    next
      case other
      obtain b w1 where lobby: "apply_lobby_command command n w = Inr (b, w1)"
        using apply_lobby_total [OF c] by blast
      have "no_larger w (if b then w1 else record_command command w1)"
        using no_larger_lobby [OF lobby] no_larger_record no_larger_trans by simp
      with other lobby show ?thesis by simp
    qed
  qed
  then show ?thesis using room_no_larger r intake_invar_world i by metis
qed

lemma room_fold:
  assumes "room (intake_world st) (length (filter is_spawn cs))"
    and "\<forall>command\<in>set cs. seat_count_checked command"
  shows "\<exists>st'. try_fold (apply_command n rv now) cs st = Inr st'"
  using assms
proof (induction cs arbitrary: st)
  case Nil
  then show ?case by simp
next
  case (Cons command cs)
  have "\<exists>st1. apply_command n rv now command st = Inr st1 \<and>
      room (intake_world st1) (length (filter is_spawn cs))"
  proof (cases "tuning_request command")
    case None
    have "room (intake_world st) (if is_spawn command then Suc (length (filter is_spawn cs))
        else length (filter is_spawn cs))"
      using Cons.prems(1) by (auto split: if_splits)
    then obtain w where "apply_to_world n command (intake_world st) = Inr w"
      and "room w (length (filter is_spawn cs))"
      using room_command Cons.prems(2) by (metis list.set_intros(1))
    with None show ?thesis
      by (cases "(n, rv, now, command, st)" rule: apply_command.cases)
        (auto simp del: apply_to_world.simps)
  next
    case (Some p)
    then obtain c q e t where "command = SetMovementTuningCommand c q e t"
      by (cases command rule: tuning_request.cases) auto
    moreover from this have "\<not> is_spawn command" by (simp add: is_spawn_def)
    ultimately show ?thesis
      using Cons.prems by (simp add: decide_tuning_def Let_def)
  qed
  with Cons show ?case by auto
qed

lemma room_clear: "room w k \<Longrightarrow> room (clear_recorded w) k"
proof -
  have "entities (clear_recorded w) = entities w"
    by (simp add: clear_recorded_def entities_def store_id_lists_def)
  moreover have "length (controllables (clear_recorded w)) = length (controllables w)"
    by (simp add: clear_recorded_def store_map_values_def)
  ultimately show "room w k \<Longrightarrow> room (clear_recorded w) k"
    using intake_invar_clear by (auto simp: room_def) (simp add: clear_recorded_def)+
qed


text \<open>
  C11: a validated batch is always applied. In a well-formed world whose reservation is the batch's,
  starts above every live entity, and covers the spawns of the batch, and with a controllable slot
  for each of them, applying a batch that \<open>InputBatch::create\<close> accepted never raises, whatever it
  holds: the seat indices and counts are checked, a spawn always finds its id fresh, and a join
  always names a seat that exists.
\<close>

theorem intake_never_fails_on_validated_batch:
  assumes created: "input_batch_create cs accepted r = Inr batch"
    and w: "valid_world w" "distinct (drivers w)" "world_reservation w = batch_reservation batch"
    and above: "\<forall>e\<in>set (entities w). e < first_id r"
    and spawns: "length (filter is_spawn (batch_commands batch)) \<le> unat (id_count r)"
    and slots: "length (controllables w) + length (filter is_spawn (batch_commands batch))
      \<le> kMaximumEntityCount"
  shows "\<exists>w' ds. apply_input_batch batch n now w = Inr (w', ds)"
proof (cases "batch_commands batch = []")
  case True
  then show ?thesis by (simp add: apply_input_batch_def Let_def)
next
  case False
  have res: "batch_reservation batch = r" by (rule batch_commands_spec(3) [OF created])
  have "room w (length (filter is_spawn (batch_commands batch)))"
    using w above spawns slots by (simp add: room_def intake_invar_def res)
  then have "room (clear_recorded w) (length (filter is_spawn (batch_commands batch)))"
    by (rule room_clear)
  then have start: "room (intake_world \<lparr>intake_world = clear_recorded w, decisions = [], winner = None\<rparr>)
      (length (filter is_spawn (batch_commands batch)))" by simp
  have "\<forall>command\<in>set (batch_commands batch). seat_count_checked command"
    using batch_members [OF created] batch_commands_spec(5) [OF created]
    by (auto simp: winning_command_last dest!: nth_mem intro: validate_command_checked)
  from room_fold [OF start this] obtain st where "try_fold (apply_command n (tuning_revision (movement (world_match w))) now)
      (batch_commands batch) \<lparr>intake_world = clear_recorded w, decisions = [], winner = None\<rparr> = Inr st"
    by blast
  with False show ?thesis by (simp add: apply_input_batch_def Let_def)
qed

definition spawn_batch :: input_batch where
  "spawn_batch = \<lparr>batch_commands = [SpawnCommand (ControllerId 9)],
     batch_reservation = \<lparr>first_id = EntityId 6, id_count = 2\<rparr>\<rparr>"

theorem intake_never_fails_on_validated_batch_witness:
  "\<exists>w' ds. apply_input_batch spawn_batch 4 (Tick 1) tuning_world = Inr (w', ds)"
proof -
  have created: "input_batch_create [SpawnCommand (ControllerId 9)] mask_all_bits
      \<lparr>first_id = EntityId 6, id_count = 2\<rparr> = Inr spawn_batch"
    by (simp add: input_batch_create_def spawn_batch_def validate_command_def
        kMaximumInputBatchCommandCount_def ordered_of_def of_controller_def)
  have live: "entities tuning_world = [EntityId 2, EntityId 5]"
    by (simp add: tuning_world_def) (simp add: entities_def sample_world_def world_empty_def
        store_id_lists_def roster_of_def roster_step_def less_entity_id_def)
  show ?thesis
    by (rule intake_never_fails_on_validated_batch [OF created tuning_world_invar])
      (simp_all add: live, simp_all add: tuning_world_def sample_world_def spawn_batch_def
        less_entity_id_def kMaximumEntityCount_def is_spawn_def)
qed

section \<open>The despawn sweep and the server-issued kinds\<close>

lemma despawned_mem:
  "e \<in> set (despawned w) \<longleftrightarrow> DespawnEvent e \<in> set (events w) \<and> world_contains w e"
proof -
  have "set (List.map_filter (\<lambda>event. case event of
       DespawnEvent e \<Rightarrow> if world_contains w e then Some e else None | _ \<Rightarrow> None) es) =
     {e. DespawnEvent e \<in> set es \<and> world_contains w e}" for es
    by (induction es) (auto simp: List.map_filter_simps split: world_event.split)
  then show ?thesis by (simp add: despawned_def)
qed

text \<open>
  the despawn sweep removes exactly the live entities the tick's systems asked to despawn, each
  from every kind, and reports whether it removed any: in a well-formed world the roster afterwards
  is the roster before without the entities named by a despawn event, an event for an entity that is
  not alive has no effect, and a repeated event is harmless.
\<close>

theorem despawn_sweep_removes_exactly:
  assumes "valid_world w"
  shows "valid_world (snd (apply_despawn_events w)) \<and>
    entities (snd (apply_despawn_events w)) =
      filter (\<lambda>e. DespawnEvent e \<notin> set (events w)) (entities w) \<and>
    (fst (apply_despawn_events w) \<longleftrightarrow> entities (snd (apply_despawn_events w)) \<noteq> entities w)"
proof -
  have s: "valid_stores w" using assms by (rule valid_world_stores)
  have "filter (\<lambda>e. e \<notin> set (despawned w)) (entities w) =
      filter (\<lambda>e. DespawnEvent e \<notin> set (events w)) (entities w)"
    using entities_iff [OF s] by (intro filter_cong refl) (simp add: despawned_mem)
  then have roster: "entities (snd (apply_despawn_events w)) =
      filter (\<lambda>e. DespawnEvent e \<notin> set (events w)) (entities w)"
    by (simp add: apply_despawn_events_def entities_destroy_many [OF s])
  have "valid_world (fold destroy_entity es w)" for es
    using assms by (induction es arbitrary: w) (simp_all add: valid_world_destroy)
  then have "valid_world (snd (apply_despawn_events w))" by (simp add: apply_despawn_events_def)
  moreover have "fst (apply_despawn_events w) \<longleftrightarrow> entities (snd (apply_despawn_events w)) \<noteq> entities w"
  proof -
    have "fst (apply_despawn_events w) \<longleftrightarrow> (\<exists>e. e \<in> set (despawned w))"
      by (cases "despawned w") (auto simp: apply_despawn_events_def)
    also have "\<dots> \<longleftrightarrow> (\<exists>e\<in>set (entities w). DespawnEvent e \<in> set (events w))"
      using entities_iff [OF s] by (auto simp: despawned_mem)
    also have "\<dots> \<longleftrightarrow> entities (snd (apply_despawn_events w)) \<noteq> entities w"
      unfolding roster filter_id_conv by blast
    finally show ?thesis .
  qed
  ultimately show ?thesis using roster by blast
qed

theorem despawn_sweep_removes_exactly_witness:
  "entities (snd (apply_despawn_events (sample_world\<lparr>events := [DespawnEvent (EntityId 5)]\<rparr>))) = [EntityId 2]"
proof -
  let ?w = "sample_world\<lparr>events := [DespawnEvent (EntityId 5)]\<rparr>"
  have v: "valid_world ?w"
    using sample_world_valid by (simp add: valid_world_def valid_stores_def kMaximumWorldEventCount_def
        kMaximumEntityCount_def)
  have "entities ?w = [EntityId 2, EntityId 5]"
    by (simp add: entities_def sample_world_def world_empty_def
        store_id_lists_def roster_of_def roster_step_def less_entity_id_def)
  with despawn_sweep_removes_exactly [OF v] show ?thesis by simp
qed

text \<open>
  a mode is accepted exactly if its command mask admits the three kinds the server issues itself
  (spawn, despawn and leave) and, when it lets a client start the match, also the join kind that
  fills the lobby.
\<close>

theorem server_issued_kinds_rule:
  "require_mode_accepts_server_issued_kinds accepted = Inr () \<longleftrightarrow>
     mask_contains accepted kSpawn \<and> mask_contains accepted kDespawn \<and> mask_contains accepted kLeave \<and>
     \<not> (mask_contains accepted kStartMatch \<and> \<not> mask_contains accepted kJoin)"
  by (auto simp: require_mode_accepts_server_issued_kinds_def Let_def)

end
