(* ===== verification/Match_Lifecycle.thy ===== *)
theory Match_Lifecycle
  imports Kernel_Intake
begin

text \<open>
  The match machine (match_lifecycle_system.cpp): the five transitions between lobby, countdown,
  running and ended, at most one per tick, driven by a mode's objective. The objective's interface
  (match_objective.hpp) is a locale; the promise that the machine needs of a lobby-gated mode is its
  assumption, and the modes that give it interpret it in Match_Objectives.
\<close>

section \<open>The machine\<close>

record durations =
  countdown_ticks :: u64
  restart_delay_ticks :: u64

definition commit_transition :: "match_phase \<Rightarrow> tick \<Rightarrow> match_state \<Rightarrow> match_state" where
  "commit_transition p now m =
     (let m' = m\<lparr>phase := p, phase_started_tick := now\<rparr> in
      if p = kLobby then m'\<lparr>roster := clear_start_request (roster m')\<rparr> else m')"

text \<open>\<open>apply\<close>: the observed phase is recorded first; \<open>ready\<close> and \<open>decided\<close> are the objective's
  answers for the world the system is given.\<close>

definition lifecycle_step :: "bool \<Rightarrow> match_outcome \<Rightarrow> durations \<Rightarrow> tick \<Rightarrow> match_state \<Rightarrow> match_state" where
  "lifecycle_step ready decided d now m0 =
     (let m = m0\<lparr>previous_phase := phase m0\<rparr> in
      case phase m of
        kLobby \<Rightarrow> if ready then commit_transition kCountdown now m else m
      | kCountdown \<Rightarrow>
          if \<not> ready then commit_transition kLobby now m
          else if ticks_since now (phase_started_tick m) \<ge> countdown_ticks d
          then (commit_transition kRunning now m)\<lparr>running_started_tick := now\<rparr>
          else m
      | kRunning \<Rightarrow>
          if is_decided decided then commit_transition kEnded now (m\<lparr>outcome := decided\<rparr>) else m
      | kEnded \<Rightarrow>
          if ticks_since now (phase_started_tick m) \<ge> restart_delay_ticks d
          then commit_transition kLobby now m
          else m)"

definition lifecycle_apply ::
  "(game_world \<Rightarrow> bool) \<Rightarrow> (game_world \<Rightarrow> tick \<Rightarrow> match_outcome) \<Rightarrow> durations \<Rightarrow> tick \<Rightarrow> game_world \<Rightarrow> game_world" where
  "lifecycle_apply can_start decide d now w =
     set_match (lifecycle_step (can_start (set_match ((world_match w)
                   \<lparr>previous_phase := phase (world_match w)\<rparr>) w))
                 (decide (set_match ((world_match w)
                   \<lparr>previous_phase := phase (world_match w)\<rparr>) w) now) d now (world_match w)) w"

section \<open>One step\<close>

lemma lifecycle_step_cases:
  fixes m :: match_state
  assumes "m' = lifecycle_step ready decided d now m"
  shows "previous_phase m' = phase m"
    and "phase m = kLobby \<Longrightarrow> phase m' = (if ready then kCountdown else kLobby)"
    and "phase m = kCountdown \<Longrightarrow> phase m' = (if \<not> ready then kLobby
      else if ticks_since now (phase_started_tick m) \<ge> countdown_ticks d then kRunning else kCountdown)"
    and "phase m = kRunning \<Longrightarrow> phase m' = (if is_decided decided then kEnded else kRunning)"
    and "phase m = kEnded \<Longrightarrow> phase m' =
      (if ticks_since now (phase_started_tick m) \<ge> restart_delay_ticks d then kLobby else kEnded)"
    and "phase_started_tick m' = (if phase m' = phase m then phase_started_tick m else now)"
    and "running_started_tick m' =
      (if phase m = kCountdown \<and> phase m' = kRunning then now else running_started_tick m)"
    and "outcome m' = (if phase m = kRunning \<and> phase m' = kEnded then decided else outcome m)"
    and "seats (roster m') = seats (roster m)"
    and "start_requested (roster m') \<longleftrightarrow>
      start_requested (roster m) \<and> \<not> (phase m \<noteq> kLobby \<and> phase m' = kLobby)"
    and "mode_state m' = mode_state m" "movement m' = movement m"
    and "spawn_rotation_counter m' = spawn_rotation_counter m"
  using assms
  by (cases "phase m"; simp add: lifecycle_step_def commit_transition_def Let_def clear_start_request_def)+

text \<open>The transitions of the machine.\<close>

inductive transition :: "match_phase \<Rightarrow> match_phase \<Rightarrow> bool" where
  lobby_opens: "transition kLobby kCountdown"
| countdown_aborts: "transition kCountdown kLobby"
| countdown_ends: "transition kCountdown kRunning"
| match_decided: "transition kRunning kEnded"
| match_restarts: "transition kEnded kLobby"

inductive_simps transition_from [simp]:
  "transition kLobby q" "transition kCountdown q" "transition kRunning q" "transition kEnded q"

code_pred transition .

section \<open>What holds of the match on every tick\<close>

definition lifecycle_invar :: "tick \<Rightarrow> match_state \<Rightarrow> bool" where
  "lifecycle_invar now m \<longleftrightarrow> phase_started_tick m \<le> now \<and> running_started_tick m \<le> now \<and>
     (phase m = kRunning \<longrightarrow> running_started_tick m = phase_started_tick m) \<and>
     (phase m = kEnded \<longrightarrow> is_decided (outcome m) \<and> running_started_tick m \<le> phase_started_tick m)"

lemma lifecycle_invar_step:
  assumes i: "lifecycle_invar before m" and "before \<le> now"
    and m': "m' = lifecycle_step ready decided d now m"
  shows "lifecycle_invar now m'"
proof -
  have le: "phase_started_tick m \<le> now" "running_started_tick m \<le> now"
    using i assms(2) by (auto simp: lifecycle_invar_def)
  note step = lifecycle_step_cases [OF m']
  show ?thesis
    using le i step(2-8)
    by (cases "phase m") (auto simp: lifecycle_invar_def split: if_splits)
qed

lemma lifecycle_invar_initial: "lifecycle_invar now match_state_initial"
  by (simp add: lifecycle_invar_def match_state_initial_def less_eq_tick_def tick_zero_def)

text \<open>What everything else of a tick may do to the match: intake and the modes' systems write the
  roster, the mode block, the tuning and the rotation counter, never the machine's own fields.\<close>

definition keeps_phase :: "match_state \<Rightarrow> match_state \<Rightarrow> bool" where
  "keeps_phase m m' \<longleftrightarrow> phase m' = phase m \<and> previous_phase m' = previous_phase m \<and>
     phase_started_tick m' = phase_started_tick m \<and> running_started_tick m' = running_started_tick m \<and>
     outcome m' = outcome m"

lemma keeps_phase_refl [simp]: "keeps_phase m m"
  by (simp add: keeps_phase_def)

lemma keeps_phase_trans: "keeps_phase a b \<Longrightarrow> keeps_phase b c \<Longrightarrow> keeps_phase a c"
  by (simp add: keeps_phase_def)

lemma lifecycle_invar_keeps: "lifecycle_invar now m \<Longrightarrow> keeps_phase m m' \<Longrightarrow> lifecycle_invar now m'"
  by (simp add: lifecycle_invar_def keeps_phase_def)

lemma keeps_phase_set_roster: "keeps_phase (world_match w) (world_match (set_roster r w))"
  by (simp add: keeps_phase_def set_roster_def set_match_def)

lemma keeps_phase_lobby:
  "apply_lobby_command command n w = Inr (b, w') \<Longrightarrow> keeps_phase (world_match w) (world_match w')"
  by (cases "(command, n, w)" rule: apply_lobby_command.cases)
    (auto simp: try_then_Inr_iff apply_set_seat_count_def apply_clear_seat_def apply_seat_npc_def Let_def
      keeps_phase_set_roster split: if_splits)

lemma keeps_phase_join: "apply_join c i d w = Inr w' \<Longrightarrow> keeps_phase (world_match w) (world_match w')"
  by (auto simp: apply_join_def Let_def try_then_Inr_iff keeps_phase_set_roster split: if_splits)

lemma keeps_phase_world:
  assumes "apply_to_world n command w = Inr w'"
  shows "keeps_phase (world_match w) (world_match w')"
proof -
  have leave: "keeps_phase (world_match w) (world_match (apply_leave c w))" for c
    using keeps_phase_set_roster [of "fold destroy_entity (driven_by c w) w"]
    by (simp add: apply_leave_def Let_def)
  show ?thesis
    using assms leave
    by (cases "(n, command, w)" rule: apply_to_world.cases)
      (auto simp: try_then_Inr_iff dest: movement_spawn keeps_phase_join keeps_phase_lobby
        simp del: apply_lobby_command.simps split: if_splits)
qed

lemma keeps_phase_batch:
  assumes "apply_input_batch batch n now w = Inr (w', ds)"
  shows "keeps_phase (world_match w) (world_match w')"
proof (cases "batch_commands batch = []")
  case True
  with assms have "w' = clear_recorded w" by (auto simp: apply_input_batch_def Let_def)
  then show ?thesis by (simp add: clear_recorded_def)
next
  case False
  then obtain st rv where run: "try_fold (apply_command n rv now) (batch_commands batch)
      \<lparr>intake_world = clear_recorded w, decisions = [], winner = None\<rparr> = Inr st"
    and w': "w' = intake_world (settle_tuning rv now st)"
    using assms by (auto simp: apply_input_batch_def Let_def try_then_Inr_iff)
  have "keeps_phase (world_match w) (world_match (intake_world st))"
  proof (rule try_fold_invariant [OF run])
    show "keeps_phase (world_match w) (world_match (intake_world
        \<lparr>intake_world = clear_recorded w, decisions = [], winner = None\<rparr>))"
      by (simp add: clear_recorded_def)
  next
    fix x s s'
    assume "keeps_phase (world_match w) (world_match (intake_world s))"
      "apply_command n rv now x s = Inr s'"
    then show "keeps_phase (world_match w) (world_match (intake_world s'))"
      using intake_world_apply_command keeps_phase_world keeps_phase_trans by metis
  qed
  then show ?thesis
    using intake_world_settle [of rv now st]
    by (auto simp: w' set_match_def keeps_phase_def)
qed

section \<open>Objectives that are gated by the lobby\<close>

lemma set_match_match [simp]: "world_match (set_match m w) = m"
  by (simp add: set_match_def)

text \<open>The interface of \<open>MatchObjective\<close> with the promise of the modes whose lobby starts a match:
  an objective that can start sees a full roster and a standing start request.\<close>

locale gated_objective =
  fixes can_start :: "game_world \<Rightarrow> bool"
    and decide :: "game_world \<Rightarrow> tick \<Rightarrow> match_outcome"
    and durs :: durations
  assumes can_start_gated: "can_start w \<Longrightarrow>
    is_full (roster (world_match w)) \<and> start_requested (roster (world_match w))"
begin

lemma leaves_lobby_only_when_requested:
  assumes "w' = lifecycle_apply can_start decide durs now w"
    and "phase (world_match w') = kCountdown \<or>
      phase (world_match w') = kRunning \<and> phase (world_match w) \<noteq> kRunning"
  shows "is_full (roster (world_match w)) \<and> start_requested (roster (world_match w))"
proof -
  let ?seen = "set_match ((world_match w)\<lparr>previous_phase := phase (world_match w)\<rparr>) w"
  have "can_start ?seen"
    using assms lifecycle_step_cases(2-5) [OF refl, of _ "can_start ?seen" "decide ?seen now" durs now]
    by (cases "phase (world_match w)") (auto simp: lifecycle_apply_def split: if_splits)
  then show ?thesis using can_start_gated by fastforce
qed

lemma lobby_needs_new_request:
  assumes "w' = lifecycle_apply can_start decide durs now w" and "phase (world_match w) \<noteq> kLobby"
    and "phase (world_match w') = kLobby" and "roster (world_match w2) = roster (world_match w')"
  shows "\<not> can_start w2"
proof -
  have "\<not> start_requested (roster (world_match w'))"
    using assms(1-3) lifecycle_step_cases(10) [OF refl] by (simp add: lifecycle_apply_def)
  then show ?thesis using assms(4) can_start_gated [of w2] by metis
qed

end

lemma tick_next_le: "tick_next now = Inr now' \<Longrightarrow> valid_tick now \<Longrightarrow> now \<le> now'"
  by (simp add: tick_next_Inr less_eq_tick_def word_le_nat_alt)

lemma fresh_world_match [simp]: "world_match (world_empty streams) = match_state_initial"
  by (simp add: world_empty_def)

section \<open>The timers\<close>

text \<open>The match at the end of each tick after tick \<open>s\<close>, with anything \<open>keeps_phase\<close> in between.\<close>

definition lifecycle_trace ::
  "durations \<Rightarrow> tick \<Rightarrow> (nat \<Rightarrow> bool) \<Rightarrow> (nat \<Rightarrow> match_outcome) \<Rightarrow> (nat \<Rightarrow> match_state) \<Rightarrow> bool" where
  "lifecycle_trace d s ready decided ms \<longleftrightarrow>
     (\<forall>k. \<exists>m. keeps_phase (ms k) m \<and>
       ms (Suc k) = lifecycle_step (ready k) (decided k) d (Tick (tick_value s + of_nat (Suc k))) m)"

lemma ticks_since_later:
  assumes "unat (tick_value s) + k < 18446744073709551616"
  shows "unat (ticks_since (Tick (tick_value s + of_nat k)) s) = k"
proof -
  have k: "unat (of_nat k :: u64) = k" using assms by (intro u64_of_nat_unat) simp
  then have "unat (tick_value s + of_nat k) = unat (tick_value s) + k"
    using assms by (subst u64_add_unat) simp_all
  then show ?thesis by (simp add: unat_ticks_since)
qed

lemma timer_holds:
  assumes trace: "lifecycle_trace d s ready decided ms"
    and start: "phase (ms 0) = p" "phase_started_tick (ms 0) = s"
    and p: "p = kEnded \<and> delay = restart_delay_ticks d \<and> q = kLobby \<or>
      p = kCountdown \<and> delay = countdown_ticks d \<and> q = kRunning \<and> (\<forall>k. ready k)"
    and bound: "unat (tick_value s) + max 1 (unat delay) < 18446744073709551616"
  shows "k < max 1 (unat delay) \<Longrightarrow> phase (ms k) = p \<and> phase_started_tick (ms k) = s"
    and "phase (ms (max 1 (unat delay))) = q"
proof -
  have step: "phase (ms (Suc k)) = (if Suc k = max 1 (unat delay) then q else p) \<and>
      (Suc k \<noteq> max 1 (unat delay) \<longrightarrow> phase_started_tick (ms (Suc k)) = s)"
    if held: "phase (ms k) = p" "phase_started_tick (ms k) = s" and k: "Suc k \<le> max 1 (unat delay)" for k
  proof -
    define now where "now = Tick (tick_value s + of_nat (Suc k))"
    obtain m where m: "keeps_phase (ms k) m"
      and next_m: "ms (Suc k) = lifecycle_step (ready k) (decided k) d now m"
      using trace unfolding lifecycle_trace_def now_def by blast
    have "unat (ticks_since now s) = Suc k"
      unfolding now_def by (rule ticks_since_later) (use bound k in linarith)
    then have elapsed: "ticks_since now s \<ge> delay \<longleftrightarrow> Suc k = max 1 (unat delay)"
      using k unfolding word_le_nat_alt by linarith
    have m': "phase m = p" "phase_started_tick m = s" using m held by (simp_all add: keeps_phase_def)
    note next_phase = lifecycle_step_cases(3,5,6) [OF next_m]
    have "phase (ms (Suc k)) = (if ticks_since now s \<ge> delay then q else p)"
      using p m' next_phase(1,2) by auto
    moreover have "p \<noteq> q" using p by auto
    ultimately show ?thesis using elapsed next_phase(3) m' by simp
  qed
  have hold: "phase (ms k) = p \<and> phase_started_tick (ms k) = s" if "k < max 1 (unat delay)" for k
    using that
  proof (induction k)
    case 0
    then show ?case using start by simp
  next
    case (Suc k)
    then have "phase (ms k) = p" "phase_started_tick (ms k) = s" by simp_all
    from step [OF this] Suc.prems show ?case by auto
  qed
  then show "k < max 1 (unat delay) \<Longrightarrow> phase (ms k) = p \<and> phase_started_tick (ms k) = s" by blast
  obtain k where k: "max 1 (unat delay) = Suc k" by (metis Suc_pred' max.strict_coboundedI1 zero_less_one)
  then have "phase (ms k) = p" "phase_started_tick (ms k) = s" using hold [of k] by simp_all
  from step [OF this] k show "phase (ms (max 1 (unat delay))) = q" by simp
qed

text \<open>A trace with nothing but the machine in it.\<close>

primrec lifecycle_iterate ::
  "durations \<Rightarrow> tick \<Rightarrow> bool \<Rightarrow> match_state \<Rightarrow> nat \<Rightarrow> match_state" where
  "lifecycle_iterate d s ready m 0 = m"
| "lifecycle_iterate d s ready m (Suc k) =
     lifecycle_step ready undecided d (Tick (tick_value s + of_nat (Suc k))) (lifecycle_iterate d s ready m k)"

lemma lifecycle_iterate_trace:
  "lifecycle_trace d s (\<lambda>k. ready) (\<lambda>k. undecided) (lifecycle_iterate d s ready m)"
  unfolding lifecycle_trace_def
proof
  fix k
  show "\<exists>m'. keeps_phase (lifecycle_iterate d s ready m k) m' \<and>
      lifecycle_iterate d s ready m (Suc k) =
        lifecycle_step ready undecided d (Tick (tick_value s + of_nat (Suc k))) m'"
    by (rule exI [of _ "lifecycle_iterate d s ready m k"]) simp
qed

definition short_durations :: durations where
  "short_durations = \<lparr>countdown_ticks = 4, restart_delay_ticks = 3\<rparr>"

text \<open>
  an ended match always restarts, exactly on time. From the tick it ended, whatever the rest of
  every tick does, it stays ended for the restart delay (one tick if the delay is zero) and is back
  in the lobby on the tick the delay is over.
\<close>

theorem ended_match_restarts:
  assumes "lifecycle_trace d s ready decided ms" and "phase (ms 0) = kEnded"
    and "phase_started_tick (ms 0) = s"
    and "unat (tick_value s) + max 1 (unat (restart_delay_ticks d)) \<le> 9007199254740991"
  shows "list_all (\<lambda>k. phase (ms k) = kEnded) [0..<max 1 (unat (restart_delay_ticks d))] \<and>
    phase (ms (max 1 (unat (restart_delay_ticks d)))) = kLobby"
  using timer_holds [OF assms(1-3), of "restart_delay_ticks d" kLobby] assms(4)
  by (simp add: list_all_iff)

theorem ended_match_restarts_witness:
  "phase (lifecycle_iterate short_durations (Tick 5) False
     (match_state_initial\<lparr>phase := kEnded, phase_started_tick := Tick 5\<rparr>) 3) = kLobby"
  using ended_match_restarts [OF lifecycle_iterate_trace, of short_durations "Tick 5" False
      "match_state_initial\<lparr>phase := kEnded, phase_started_tick := Tick 5\<rparr>"]
  by (simp add: short_durations_def del: lifecycle_iterate.simps(2))

text \<open>
  C25: a countdown that is never interrupted runs its full length and then starts the match: while
  the objective can start on every tick, the match counts down for exactly its countdown (one tick
  if it is zero) and is running on the tick the countdown is over.
\<close>

theorem uninterrupted_countdown_starts:
  assumes "lifecycle_trace d s ready decided ms" and "\<forall>k. ready k" and "phase (ms 0) = kCountdown"
    and "phase_started_tick (ms 0) = s"
    and "unat (tick_value s) + max 1 (unat (countdown_ticks d)) \<le> 9007199254740991"
  shows "list_all (\<lambda>k. phase (ms k) = kCountdown) [0..<max 1 (unat (countdown_ticks d))] \<and>
    phase (ms (max 1 (unat (countdown_ticks d)))) = kRunning"
  using timer_holds [OF assms(1,3,4), of "countdown_ticks d" kRunning] assms(2,5)
  by (simp add: list_all_iff)

theorem uninterrupted_countdown_starts_witness:
  "phase (lifecycle_iterate short_durations (Tick 5) True
     (match_state_initial\<lparr>phase := kCountdown, phase_started_tick := Tick 5\<rparr>) 4) = kRunning"
  using uninterrupted_countdown_starts [OF lifecycle_iterate_trace, of True short_durations "Tick 5"
      "match_state_initial\<lparr>phase := kCountdown, phase_started_tick := Tick 5\<rparr>"]
  by (simp add: short_durations_def del: lifecycle_iterate.simps(2))

end
