(* ===== verification/Match_Objectives.thy ===== *)
theory Match_Objectives
  imports Match_Lifecycle
begin

text \<open>
  The modes' objectives: who counts as alive and who participates (gameplay/shared/roster.hpp), the
  lobby start rule, and the idle, free-play, royale, race and king-of-the-hill objectives with the
  outcome each one decides. The lobby-gated ones interpret the machine's interface.
\<close>

section \<open>Rosters of a running match\<close>

definition alive_entities :: "game_world \<Rightarrow> entity_id list" where
  "alive_entities w = map fst (entities_with_both (bodies w) (controllables w))"

definition alive_count :: "game_world \<Rightarrow> nat" where
  "alive_count w = count_entities_with_both (bodies w) (controllables w)"

definition participant_count :: "game_world \<Rightarrow> nat" where
  "participant_count w = length (controllables w)"

definition participant_entities :: "game_world \<Rightarrow> entity_id list" where
  "participant_entities w = map fst (controllables w)"

definition lobby_ready_to_start :: "game_world \<Rightarrow> bool" where
  "lobby_ready_to_start w \<longleftrightarrow> is_full (roster (world_match w)) \<and> start_requested (roster (world_match w))"

lemma alive_count_length: "alive_count w = length (alive_entities w)"
  by (simp add: alive_count_def count_entities_with_both_def alive_entities_def)

lemma alive_entities_filter:
  assumes "valid_stores w"
  shows "alive_entities w = filter (carries (controllables w)) (store_ids (bodies w))"
proof -
  have "ascending (store_ids (bodies w))" "ascending (store_ids (controllables w))"
    using assms by (simp_all add: valid_stores_def valid_store_def)
  then have "alive_entities w =
      map fst (filter (\<lambda>(e, a). store_find (controllables w) e \<noteq> None) (bodies w))"
    by (simp add: alive_entities_def entities_with_both_filter case_prod_beta comp_def)
  also have "\<dots> = filter (carries (controllables w)) (store_ids (bodies w))"
    by (simp add: filter_map comp_def case_prod_unfold carries_def)
  finally show ?thesis .
qed

section \<open>Idle and free play\<close>

definition no_durations :: durations where
  "no_durations = \<lparr>countdown_ticks = 0, restart_delay_ticks = 0\<rparr>"

definition idle_can_start :: "game_world \<Rightarrow> bool" where "idle_can_start w = False"
definition idle_outcome :: "game_world \<Rightarrow> tick \<Rightarrow> match_outcome" where "idle_outcome w now = undecided"
definition free_play_can_start :: "game_world \<Rightarrow> bool" where "free_play_can_start w = True"
definition free_play_outcome :: "game_world \<Rightarrow> tick \<Rightarrow> match_outcome" where
  "free_play_outcome w now = undecided"

section \<open>Royale\<close>

definition royale_can_start :: "game_world \<Rightarrow> bool" where "royale_can_start w = lobby_ready_to_start w"

definition royale_outcome :: "game_world \<Rightarrow> tick \<Rightarrow> match_outcome" where
  "royale_outcome w now =
     (let alive = alive_entities w in
      if length alive = 1 then won_by_entity (hd alive)
      else if alive = [] then drawn
      else undecided)"

section \<open>Race\<close>

definition race_standings_of :: "game_world \<Rightarrow> race_standing list" where
  "race_standings_of w = (case mode_state (world_match w) of RaceState s \<Rightarrow> standings s | _ \<Rightarrow> [])"

definition progress_of :: "game_world \<Rightarrow> entity_id \<Rightarrow> u64" where
  "progress_of w e = (case store_find (race_progresses w) e of None \<Rightarrow> 0 | Some next \<Rightarrow> next)"

definition decided_by_leaders :: "entity_id list \<Rightarrow> match_outcome" where
  "decided_by_leaders leaders = (if length leaders = 1 then won_by_entity (hd leaders) else drawn)"

record race_timing =
  finish_window_ticks :: u64
  time_limit_ticks :: u64

definition race_can_start :: "game_world \<Rightarrow> bool" where "race_can_start w = lobby_ready_to_start w"

definition race_outcome :: "race_timing \<Rightarrow> game_world \<Rightarrow> tick \<Rightarrow> match_outcome" where
  "race_outcome cfg w now =
     (let participants = participant_entities w; finishers = race_standings_of w in
      if participants = [] then drawn
      else if finishers \<noteq> [] then
        (if list_all (\<lambda>e. list_ex (\<lambda>s. standing_entity s = e) finishers) participants \<or>
            ticks_since now (finished_tick (hd finishers)) \<ge> finish_window_ticks cfg
         then decided_by_leaders (map standing_entity (filter (\<lambda>s. standing_placement s = 1) finishers))
         else undecided)
      else if ticks_since now (running_started_tick (world_match w)) \<ge> time_limit_ticks cfg then
        (let best = fold (\<lambda>e best. max best (progress_of w e)) participants 0
         in decided_by_leaders (filter (\<lambda>e. progress_of w e = best) participants))
      else undecided)"

section \<open>King of the hill\<close>

text \<open>Scores are signed 64-bit values; they are compared as such.\<close>

definition score_of :: "game_world \<Rightarrow> entity_id \<Rightarrow> int" where
  "score_of w e = (case store_find (scores w) e of None \<Rightarrow> 0 | Some points \<Rightarrow> sint points)"

record hill_timing =
  points_to_win :: u64
  hill_time_limit :: u64

definition hill_can_start :: "game_world \<Rightarrow> bool" where "hill_can_start w = lobby_ready_to_start w"

definition hill_outcome :: "hill_timing \<Rightarrow> game_world \<Rightarrow> tick \<Rightarrow> match_outcome" where
  "hill_outcome cfg w now =
     (let participants = participant_entities w in
      if participants = [] then drawn
      else if length participants = 1 then won_by_entity (hd participants)
      else let best = fold (\<lambda>e best. if score_of w e > best then score_of w e else best) participants
                        (score_of w (hd participants));
               leaders = filter (\<lambda>e. score_of w e = best) participants
           in if best \<ge> 0 \<and> best \<ge> uint (points_to_win cfg) then decided_by_leaders leaders
              else if ticks_since now (running_started_tick (world_match w)) \<ge> hill_time_limit cfg
              then decided_by_leaders leaders
              else undecided)"

section \<open>The interface on the modes\<close>

interpretation idle: gated_objective idle_can_start idle_outcome no_durations
  by unfold_locales (simp add: idle_can_start_def)

interpretation royale: gated_objective royale_can_start royale_outcome d for d
  by unfold_locales (simp add: royale_can_start_def lobby_ready_to_start_def)

interpretation race: gated_objective race_can_start "race_outcome cfg" d for cfg d
  by unfold_locales (simp add: race_can_start_def lobby_ready_to_start_def)

interpretation hill: gated_objective hill_can_start "hill_outcome cfg" d for cfg d
  by unfold_locales (simp add: hill_can_start_def lobby_ready_to_start_def)

section \<open>What the objectives decide\<close>

lemma fold_max_Max:
  fixes f :: "'a \<Rightarrow> 'b :: linorder"
  shows "fold (\<lambda>e best. max best (f e)) xs b = Max (insert b (f ` set xs))"
proof (induction xs arbitrary: b)
  case Nil
  show ?case by simp
next
  case (Cons x xs)
  have "Max (insert (max b (f x)) (f ` set xs)) = Max (insert b (insert (f x) (f ` set xs)))"
    by (cases "xs = []") (simp_all add: max.assoc max.left_commute)
  with Cons show ?case by simp
qed

lemma fold_best_Max:
  fixes f :: "'a \<Rightarrow> 'b :: linorder"
  shows "fold (\<lambda>e best. if f e > best then f e else best) xs b = Max (insert b (f ` set xs))"
proof -
  have "(\<lambda>e best. if f e > best then f e else best) = (\<lambda>e best. max best (f e))"
    by (auto simp: fun_eq_iff max_def)
  then show ?thesis by (simp only: fold_max_Max)
qed

lemma filter_singleton:
  assumes "distinct xs"
  shows "filter P xs = [e] \<longleftrightarrow> {x \<in> set xs. P x} = {e}"
proof
  assume "filter P xs = [e]"
  then have "set (filter P xs) = {e}" by simp
  then show "{x \<in> set xs. P x} = {e}" by simp
next
  assume "{x \<in> set xs. P x} = {e}"
  then have "set (filter P xs) = set [e]" by simp
  moreover have "distinct (filter P xs)" using assms by simp
  ultimately show "filter P xs = [e]"
    by (metis distinct_card length_0_conv length_Cons list.set_intros(1) list.size(3) set_ConsD
        distinct.simps(2) list.distinct(1) length_Suc_conv empty_iff empty_set card_1_singleton_iff
        distinct_singleton)
qed

lemma winner_of_leaders:
  "winning_entity (decided_by_leaders xs) = Some e \<longleftrightarrow> xs = [e]"
  "is_decided (decided_by_leaders xs)"
  by (auto simp: decided_by_leaders_def length_Suc_conv won_by_entity_def drawn_def undecided_def
      is_decided_def)

text \<open>The unique leader of a score: who is strictly ahead of everybody else.\<close>

lemma unique_leader:
  fixes f :: "entity_id \<Rightarrow> 'b :: linorder"
  assumes "distinct xs" and "xs \<noteq> []"
  shows "winning_entity (decided_by_leaders (filter (\<lambda>e. f e = Max (f ` set xs)) xs)) = Some e \<longleftrightarrow>
    e \<in> set xs \<and> (\<forall>x\<in>set xs. x \<noteq> e \<longrightarrow> f x < f e)"
proof -
  have fin: "finite (f ` set xs)" "f ` set xs \<noteq> {}" using assms(2) by simp_all
  have le: "f x \<le> Max (f ` set xs)" if "x \<in> set xs" for x using fin that by simp
  have ex: "\<exists>x\<in>set xs. f x = Max (f ` set xs)" using Max_in [OF fin] by auto
  have "winning_entity (decided_by_leaders (filter (\<lambda>e. f e = Max (f ` set xs)) xs)) = Some e \<longleftrightarrow>
      {x \<in> set xs. f x = Max (f ` set xs)} = {e}"
    by (simp add: winner_of_leaders filter_singleton [OF assms(1)])
  also have "\<dots> \<longleftrightarrow> e \<in> set xs \<and> (\<forall>x\<in>set xs. x \<noteq> e \<longrightarrow> f x < f e)"
  proof
    assume s: "{x \<in> set xs. f x = Max (f ` set xs)} = {e}"
    then have e: "e \<in> set xs" "f e = Max (f ` set xs)" by auto
    then show "e \<in> set xs \<and> (\<forall>x\<in>set xs. x \<noteq> e \<longrightarrow> f x < f e)"
      using s le by (auto simp: order.strict_iff_order)
  next
    assume e: "e \<in> set xs \<and> (\<forall>x\<in>set xs. x \<noteq> e \<longrightarrow> f x < f e)"
    obtain m where m: "m \<in> set xs" "f m = Max (f ` set xs)" using ex by auto
    have "m = e"
    proof (rule ccontr)
      assume "m \<noteq> e"
      then have "f m < f e" using e m(1) by blast
      with le [of e] m(2) e show False by (metis leD)
    qed
    with m e show "{x \<in> set xs. f x = Max (f ` set xs)} = {e}" by auto
  qed
  finally show ?thesis .
qed

lemma participants_distinct: "valid_world w \<Longrightarrow> distinct (participant_entities w)"
  by (simp add: participant_entities_def valid_world_def valid_stores_def valid_store_def
      ascending_distinct)

text \<open>
  no lobby-gated match starts by itself. In royale, race and king of the hill, whatever the
  durations, the machine enters the countdown or the running phase only on a tick on which the
  roster is full and its start request stands; and when it arrives in the lobby the request is gone,
  so as long as nobody asks again no objective of these modes can start.
\<close>

theorem gated_match_starts_only_when_asked:
  assumes "can_start = royale_can_start \<and> decide = royale_outcome \<or>
      can_start = race_can_start \<and> decide = race_outcome rc \<or>
      can_start = hill_can_start \<and> decide = hill_outcome hc"
    and "w' = lifecycle_apply can_start decide d now w"
  shows "(phase (world_match w') = kCountdown \<or>
      phase (world_match w') = kRunning \<and> phase (world_match w) \<noteq> kRunning \<longrightarrow>
        is_full (roster (world_match w)) \<and> start_requested (roster (world_match w))) \<and>
    (phase (world_match w) \<noteq> kLobby \<and> phase (world_match w') = kLobby \<longrightarrow>
      (\<forall>w2. roster (world_match w2) = roster (world_match w') \<longrightarrow> \<not> can_start w2))"
  using assms(1)
proof (elim disjE conjE)
  assume "can_start = royale_can_start" "decide = royale_outcome"
  with assms(2) show ?thesis
    using royale.leaves_lobby_only_when_requested [of w' d now w]
      royale.lobby_needs_new_request [of w' d now w] by blast
next
  assume "can_start = race_can_start" "decide = race_outcome rc"
  with assms(2) show ?thesis
    using race.leaves_lobby_only_when_requested [of w' rc d now w]
      race.lobby_needs_new_request [of w' rc d now w] by blast
next
  assume "can_start = hill_can_start" "decide = hill_outcome hc"
  with assms(2) show ?thesis
    using hill.leaves_lobby_only_when_requested [of w' hc d now w]
      hill.lobby_needs_new_request [of w' hc d now w] by blast
qed

theorem gated_match_starts_only_when_asked_witness:
  "\<not> royale_can_start (lifecycle_apply royale_can_start royale_outcome short_durations (Tick 9)
     (set_match (match_state_initial\<lparr>phase := kEnded, phase_started_tick := Tick 5,
       roster := \<lparr>seats = [ControllerSeat (ControllerId 2)], start_requested = True\<rparr>\<rparr>) sample_world))"
proof -
  let ?w = "set_match (match_state_initial\<lparr>phase := kEnded, phase_started_tick := Tick 5,
       roster := \<lparr>seats = [ControllerSeat (ControllerId 2)], start_requested = True\<rparr>\<rparr>) sample_world"
  have "phase (world_match (lifecycle_apply royale_can_start royale_outcome short_durations (Tick 9) ?w)) = kLobby"
    by (simp add: lifecycle_apply_def lifecycle_step_def commit_transition_def short_durations_def
        ticks_since_def)
  with gated_match_starts_only_when_asked [OF _ refl, of royale_can_start royale_outcome _ _ short_durations
      "Tick 9" ?w]
  show ?thesis by auto
qed

text \<open>
  royale is decided exactly when at most one player is alive. In a well-formed world the outcome
  names the entity that is the only one with both a body and a controller, is a draw when none is
  left, and is undecided when two or more are; nobody else can be named the winner.
\<close>

theorem royale_outcome_last_one_alive:
  assumes "valid_world w" and "alive = {e. carries (bodies w) e \<and> carries (controllables w) e}"
  shows "(is_decided (royale_outcome w now) \<longleftrightarrow> card alive \<le> 1) \<and>
    (winning_entity (royale_outcome w now) = Some e \<longleftrightarrow> alive = {e}) \<and>
    (royale_outcome w now = drawn \<longleftrightarrow> alive = {}) \<and>
    alive_count w = card alive"
proof -
  have s: "valid_stores w" using assms(1) by (rule valid_world_stores)
  have vb: "valid_store (bodies w)" using s by (simp add: valid_stores_def)
  have list: "alive_entities w = filter (carries (controllables w)) (store_ids (bodies w))"
    by (rule alive_entities_filter [OF s])
  have d: "distinct (alive_entities w)"
    using vb by (simp add: list valid_store_def ascending_distinct)
  have set: "set (alive_entities w) = alive" using carries_ids [OF vb] by (auto simp: list assms(2))
  have card: "length (alive_entities w) = card alive" using d set distinct_card by metis
  have single: "alive_entities w = [e] \<longleftrightarrow> alive = {e}"
    using d set card by (metis card_1_singleton_iff empty_set length_0_conv length_Suc_conv
        list.simps(15) One_nat_def singleton_insert_inj_eq)
  have none: "alive_entities w = [] \<longleftrightarrow> alive = {}" using set by auto
  have finite: "finite alive" using set by (metis List.finite_set)
  have "winning_entity (royale_outcome w now) = Some e \<longleftrightarrow> alive_entities w = [e]"
    by (auto simp: royale_outcome_def Let_def won_by_entity_def drawn_def undecided_def length_Suc_conv)
  moreover have "is_decided (royale_outcome w now) \<longleftrightarrow> length (alive_entities w) \<le> 1"
    by (cases "alive_entities w") (auto simp: royale_outcome_def Let_def)
  moreover have "royale_outcome w now = drawn \<longleftrightarrow> alive_entities w = []"
    by (auto simp: royale_outcome_def Let_def won_by_entity_def drawn_def undecided_def)
  ultimately show ?thesis using single none card by (simp add: alive_count_length)
qed

theorem royale_outcome_last_one_alive_witness:
  "winning_entity (royale_outcome sample_world (Tick 4)) = Some (EntityId 2)"
proof -
  have "{e. carries (bodies sample_world) e \<and> carries (controllables sample_world) e} = {EntityId 2}"
    by (auto simp: carries_def sample_world_def store_find_Cons less_entity_id_def split: if_splits)
  with royale_outcome_last_one_alive [OF sample_world_valid refl, of "Tick 4" "EntityId 2"]
  show ?thesis by simp
qed


text \<open>
  the outcome of a race. With nobody left it is a draw. Until somebody finished, it is decided
  exactly when the time limit since the start is reached, and then the winner is the participant
  whose next gate is strictly ahead of everybody else's, a shared lead being a draw. Once somebody
  finished, it is decided exactly when every participant has a standing or the finish window since
  the first standing is over, and the winner is the only standing placed first.
\<close>

theorem race_outcome_rule:
  assumes "valid_world w"
  shows "(participant_entities w = [] \<longrightarrow> race_outcome cfg w now = drawn) \<and>
    (participant_entities w \<noteq> [] \<and> race_standings_of w = [] \<longrightarrow>
      (is_decided (race_outcome cfg w now) \<longleftrightarrow>
        ticks_since now (running_started_tick (world_match w)) \<ge> time_limit_ticks cfg) \<and>
      (winning_entity (race_outcome cfg w now) = Some e \<longleftrightarrow>
        ticks_since now (running_started_tick (world_match w)) \<ge> time_limit_ticks cfg \<and>
        e \<in> set (participant_entities w) \<and>
        (\<forall>x\<in>set (participant_entities w). x \<noteq> e \<longrightarrow> progress_of w x < progress_of w e))) \<and>
    (participant_entities w \<noteq> [] \<and> race_standings_of w \<noteq> [] \<longrightarrow>
      (is_decided (race_outcome cfg w now) \<longleftrightarrow>
        (\<forall>x\<in>set (participant_entities w). \<exists>s\<in>set (race_standings_of w). standing_entity s = x) \<or>
        ticks_since now (finished_tick (hd (race_standings_of w))) \<ge> finish_window_ticks cfg) \<and>
      (winning_entity (race_outcome cfg w now) = Some e \<longleftrightarrow> is_decided (race_outcome cfg w now) \<and>
        map standing_entity (filter (\<lambda>s. standing_placement s = 1) (race_standings_of w)) = [e]))"
proof -
  let ?ps = "participant_entities w" and ?st = "race_standings_of w"
  have undecided_none: "winning_entity undecided = None" by (simp add: undecided_def)
  have max: "fold (\<lambda>e best. max best (progress_of w e)) ?ps 0 = Max (progress_of w ` set ?ps)" if "?ps \<noteq> []"
  proof -
    have fin: "finite (progress_of w ` set ?ps)" "progress_of w ` set ?ps \<noteq> {}" using that by simp_all
    then have "Max (insert 0 (progress_of w ` set ?ps)) = max 0 (Max (progress_of w ` set ?ps))"
      by (rule Max_insert)
    also have "\<dots> = Max (progress_of w ` set ?ps)" by (simp add: max_def)
    finally show ?thesis by (simp only: fold_max_Max)
  qed
  have time: "race_outcome cfg w now =
      (if ticks_since now (running_started_tick (world_match w)) \<ge> time_limit_ticks cfg
       then decided_by_leaders (filter (\<lambda>e. progress_of w e = Max (progress_of w ` set ?ps)) ?ps)
       else undecided)" if "?ps \<noteq> []" "?st = []"
    using that max by (simp add: race_outcome_def Let_def)
  have finish: "race_outcome cfg w now =
      (if (\<forall>x\<in>set ?ps. \<exists>s\<in>set ?st. standing_entity s = x) \<or>
          ticks_since now (finished_tick (hd ?st)) \<ge> finish_window_ticks cfg
       then decided_by_leaders (map standing_entity (filter (\<lambda>s. standing_placement s = 1) ?st))
       else undecided)" if "?ps \<noteq> []" "?st \<noteq> []"
    using that by (simp add: race_outcome_def Let_def list_all_iff list_ex_iff)
  show ?thesis
  proof (intro conjI impI; (elim conjE)?)
    show "race_outcome cfg w now = drawn" if "?ps = []" using that by (simp add: race_outcome_def)
  next
    assume "?ps \<noteq> []" "?st = []"
    from time [OF this] show "is_decided (race_outcome cfg w now) \<longleftrightarrow>
        ticks_since now (running_started_tick (world_match w)) \<ge> time_limit_ticks cfg"
      by (simp add: winner_of_leaders)
  next
    assume ps: "?ps \<noteq> []" "?st = []"
    show "winning_entity (race_outcome cfg w now) = Some e \<longleftrightarrow>
        ticks_since now (running_started_tick (world_match w)) \<ge> time_limit_ticks cfg \<and>
        e \<in> set ?ps \<and> (\<forall>x\<in>set ?ps. x \<noteq> e \<longrightarrow> progress_of w x < progress_of w e)"
      using unique_leader [OF participants_distinct [OF assms] ps(1), of "progress_of w" e]
      by (simp add: time [OF ps] undecided_none)
  next
    assume "?ps \<noteq> []" "?st \<noteq> []"
    from finish [OF this] show "is_decided (race_outcome cfg w now) \<longleftrightarrow>
        (\<forall>x\<in>set ?ps. \<exists>s\<in>set ?st. standing_entity s = x) \<or>
        ticks_since now (finished_tick (hd ?st)) \<ge> finish_window_ticks cfg"
      by (simp only:) (simp add: winner_of_leaders)
  next
    assume "?ps \<noteq> []" "?st \<noteq> []"
    from finish [OF this] show "winning_entity (race_outcome cfg w now) = Some e \<longleftrightarrow>
        is_decided (race_outcome cfg w now) \<and>
        map standing_entity (filter (\<lambda>s. standing_placement s = 1) ?st) = [e]"
      by (simp only:) (simp add: winner_of_leaders undecided_none)
  qed
qed

theorem race_outcome_rule_witness:
  "winning_entity (race_outcome \<lparr>finish_window_ticks = 5, time_limit_ticks = 10\<rparr>
     (sample_world\<lparr>race_progresses := [(EntityId 5, 3)]\<rparr>) (Tick 12)) = Some (EntityId 5)"
proof -
  let ?w = "sample_world\<lparr>race_progresses := [(EntityId 5, 3)]\<rparr>"
  have v: "valid_world ?w"
    using sample_world_valid
    by (simp add: valid_world_def valid_stores_def valid_store_def kMaximumEntityCount_def)
  have "participant_entities ?w = [EntityId 2, EntityId 5]" "race_standings_of ?w = []"
    by (simp_all add: participant_entities_def sample_world_def race_standings_of_def
        match_state_initial_def world_empty_def)
  moreover have "progress_of ?w (EntityId 2) < progress_of ?w (EntityId 5)"
    by (simp add: progress_of_def store_find_Cons less_entity_id_def)
  moreover have "ticks_since (Tick 12) (running_started_tick (world_match ?w)) \<ge> 10"
    by (simp add: ticks_since_def sample_world_def world_empty_def match_state_initial_def tick_zero_def)
  ultimately show ?thesis
    using race_outcome_rule [OF v, of "\<lparr>finish_window_ticks = 5, time_limit_ticks = 10\<rparr>" "Tick 12" "EntityId 5"]
    by simp
qed

text \<open>
  the outcome of king of the hill with at least two participants. It is decided exactly when
  somebody's score has reached the points to win or the time limit since the start is reached, and
  then the winner is the participant whose score is strictly above everybody else's, a shared lead
  being a draw; an unscored participant counts as zero.
\<close>

theorem hill_outcome_rule:
  assumes "valid_world w" and "length (participant_entities w) \<ge> 2"
  shows "(is_decided (hill_outcome cfg w now) \<longleftrightarrow>
      (\<exists>x\<in>set (participant_entities w). score_of w x \<ge> 0 \<and> score_of w x \<ge> uint (points_to_win cfg)) \<or>
      ticks_since now (running_started_tick (world_match w)) \<ge> hill_time_limit cfg) \<and>
    (winning_entity (hill_outcome cfg w now) = Some e \<longleftrightarrow> is_decided (hill_outcome cfg w now) \<and>
      e \<in> set (participant_entities w) \<and>
      (\<forall>x\<in>set (participant_entities w). x \<noteq> e \<longrightarrow> score_of w x < score_of w e))"
proof -
  let ?ps = "participant_entities w"
  let ?best = "Max (score_of w ` set ?ps)"
  have ps: "?ps \<noteq> []" "length ?ps \<noteq> 1" using assms(2) by auto
  then have fin: "finite (score_of w ` set ?ps)" "score_of w ` set ?ps \<noteq> {}" by simp_all
  have "insert (score_of w (hd ?ps)) (score_of w ` set ?ps) = score_of w ` set ?ps"
    using ps(1) by (auto intro: insert_absorb)
  then have best: "fold (\<lambda>e best. if score_of w e > best then score_of w e else best) ?ps
      (score_of w (hd ?ps)) = ?best"
    by (simp only: fold_best_Max)
  have out: "hill_outcome cfg w now =
      (if ?best \<ge> 0 \<and> ?best \<ge> uint (points_to_win cfg) \<or>
          ticks_since now (running_started_tick (world_match w)) \<ge> hill_time_limit cfg
       then decided_by_leaders (filter (\<lambda>e. score_of w e = ?best) ?ps) else undecided)"
    unfolding hill_outcome_def Let_def best using ps by simp
  obtain m where m: "m \<in> set ?ps" "score_of w m = ?best" using Max_in [OF fin] by auto
  have le: "score_of w x \<le> score_of w m" if "x \<in> set ?ps" for x using fin that by (simp add: m(2))
  have "score_of w m \<ge> 0 \<and> score_of w m \<ge> uint (points_to_win cfg) \<longleftrightarrow>
      (\<exists>x\<in>set ?ps. score_of w x \<ge> 0 \<and> score_of w x \<ge> uint (points_to_win cfg))"
    using m(1) le by force
  then have reached: "?best \<ge> 0 \<and> ?best \<ge> uint (points_to_win cfg) \<longleftrightarrow>
      (\<exists>x\<in>set ?ps. score_of w x \<ge> 0 \<and> score_of w x \<ge> uint (points_to_win cfg))"
    by (simp only: m(2))
  have "winning_entity undecided = None" by (simp add: undecided_def)
  then show ?thesis
    using unique_leader [OF participants_distinct [OF assms(1)] ps(1), of "score_of w" e]
    unfolding out reached by (simp add: winner_of_leaders)
qed

theorem hill_outcome_rule_witness:
  "winning_entity (hill_outcome \<lparr>points_to_win = 5, hill_time_limit = 1000\<rparr>
     (sample_world\<lparr>scores := [(EntityId 2, 1), (EntityId 5, 5)]\<rparr>) (Tick 12)) = Some (EntityId 5)"
proof -
  let ?w = "sample_world\<lparr>scores := [(EntityId 2, 1), (EntityId 5, 5)]\<rparr>"
  have v: "valid_world ?w"
    using sample_world_valid
    by (simp add: valid_world_def valid_stores_def valid_store_def kMaximumEntityCount_def less_entity_id_def)
  have "participant_entities ?w = [EntityId 2, EntityId 5]"
    by (simp add: participant_entities_def sample_world_def)
  moreover have "score_of ?w (EntityId 2) = 1" "score_of ?w (EntityId 5) = 5"
    by (simp_all add: score_of_def store_find_Cons less_entity_id_def)
  ultimately show ?thesis
    using hill_outcome_rule [OF v, of "\<lparr>points_to_win = 5, hill_time_limit = 1000\<rparr>" "Tick 12" "EntityId 5"]
    by simp
qed

end
