(* ===== verification/Gameplay_Error.thy ===== *)
theory Gameplay_Error
  imports Validation_Error
begin

text \<open>
  The error vocabulary of the gameplay layer (src/src/gameplay/gameplay_validation_error.hpp) and the
  result of a gameplay operation, which may throw an error of either vocabulary. As with a
  simulation error, the human-readable detail is left out.
\<close>

section \<open>Codes\<close>

datatype gameplay_code =
    kGameModeNameUnknown
  | kThrustMaximumNotFinite
  | kThrustMaximumOutOfRange
  | kDurationNotFinite
  | kDurationNegative
  | kDurationTickOverflow
  | kAbilityDurationNotPositive
  | kAbilityPerfectWindowExceedsShield
  | kAbilityScalarNotFinite
  | kAbilityScalarOutOfRange
  | kAbilityChargeBurstExceedsSafetyEnvelope
  | kGuardedPairStunDefenderWithoutShield
  | kHazardKindNameInvalid
  | kHazardScalarNotFinite
  | kHazardScalarOutOfRange
  | kSandboxMapWithoutSpawnPoint
  | kRoyaleScalarNotFinite
  | kRoyaleScalarOutOfRange
  | kRoyaleMapArenaWithinZoneMinimum
  | kRoyaleZoneEntityUnreserved
  | kRoyaleZoneAbsent
  | kRoyalePlacementLimitExceeded
  | kRoyaleEliminatedEntityWithoutController
  | kKingOfTheHillScalarNotFinite
  | kKingOfTheHillScalarOutOfRange
  | kRaceScalarNotFinite
  | kRaceScalarOutOfRange
  | kRaceRoadNameInvalid_gameplay
  | kKingOfTheHillTourWithoutDuration
  | kKingOfTheHillPointsToWinZero
  | kKingOfTheHillMapWithoutHill
  | kKingOfTheHillMapWithoutSpawnPoint
  | kKingOfTheHillHillEntityUnreserved
  | kKingOfTheHillHillAbsent
  | kKingOfTheHillMotionPolicyInvalid
  | kKingOfTheHillMotionStateInvalid
  | kKingOfTheHillRetargetTickOverflow
  | kRaceMapRoadMissing
  | kRaceMapWithoutCheckpoint
  | kRaceMapCheckpointOutsideCorridor
  | kRaceMapSpawnPointOutsideCorridor
  | kRaceMapWithoutSpawnPoint
  | kRaceCourseUnbound
  | kRaceProgressBeyondCourse
  | kRaceStandingLimitExceeded
  | kLocomotionPrecisionLost
  | kStatusActivationTickZero
  | kSupportLossPhasePolicyInvalid
  | kRaceCheckpointEventInvalid
  | kRaceFinishEventInvalid

text \<open>The stable names, one for each constructor, as clients and operators read them.\<close>

primrec gameplay_code_name :: "gameplay_code \<Rightarrow> string" where
  "gameplay_code_name kGameModeNameUnknown = ''GAMEPLAY.GAME_MODE_NAME_UNKNOWN''"
| "gameplay_code_name kThrustMaximumNotFinite = ''GAMEPLAY.THRUST_MAXIMUM_NOT_FINITE''"
| "gameplay_code_name kThrustMaximumOutOfRange = ''GAMEPLAY.THRUST_MAXIMUM_OUT_OF_RANGE''"
| "gameplay_code_name kDurationNotFinite = ''GAMEPLAY.DURATION_NOT_FINITE''"
| "gameplay_code_name kDurationNegative = ''GAMEPLAY.DURATION_NEGATIVE''"
| "gameplay_code_name kDurationTickOverflow = ''GAMEPLAY.DURATION_TICK_OVERFLOW''"
| "gameplay_code_name kAbilityDurationNotPositive = ''GAMEPLAY.ABILITY_DURATION_NOT_POSITIVE''"
| "gameplay_code_name kAbilityPerfectWindowExceedsShield = ''GAMEPLAY.ABILITY_PERFECT_WINDOW_EXCEEDS_SHIELD''"
| "gameplay_code_name kAbilityScalarNotFinite = ''GAMEPLAY.ABILITY_SCALAR_NOT_FINITE''"
| "gameplay_code_name kAbilityScalarOutOfRange = ''GAMEPLAY.ABILITY_SCALAR_OUT_OF_RANGE''"
| "gameplay_code_name kAbilityChargeBurstExceedsSafetyEnvelope = ''GAMEPLAY.ABILITY_CHARGE_BURST_EXCEEDS_SAFETY_ENVELOPE''"
| "gameplay_code_name kGuardedPairStunDefenderWithoutShield = ''GAMEPLAY.GUARDED_PAIR_STUN_DEFENDER_WITHOUT_SHIELD''"
| "gameplay_code_name kHazardKindNameInvalid = ''GAMEPLAY.HAZARD_KIND_NAME_INVALID''"
| "gameplay_code_name kHazardScalarNotFinite = ''GAMEPLAY.HAZARD_SCALAR_NOT_FINITE''"
| "gameplay_code_name kHazardScalarOutOfRange = ''GAMEPLAY.HAZARD_SCALAR_OUT_OF_RANGE''"
| "gameplay_code_name kSandboxMapWithoutSpawnPoint = ''GAMEPLAY.SANDBOX_MAP_WITHOUT_SPAWN_POINT''"
| "gameplay_code_name kRoyaleScalarNotFinite = ''GAMEPLAY.ROYALE_SCALAR_NOT_FINITE''"
| "gameplay_code_name kRoyaleScalarOutOfRange = ''GAMEPLAY.ROYALE_SCALAR_OUT_OF_RANGE''"
| "gameplay_code_name kRoyaleMapArenaWithinZoneMinimum = ''GAMEPLAY.ROYALE_MAP_ARENA_WITHIN_ZONE_MINIMUM''"
| "gameplay_code_name kRoyaleZoneEntityUnreserved = ''GAMEPLAY.ROYALE_ZONE_ENTITY_UNRESERVED''"
| "gameplay_code_name kRoyaleZoneAbsent = ''GAMEPLAY.ROYALE_ZONE_ABSENT''"
| "gameplay_code_name kRoyalePlacementLimitExceeded = ''GAMEPLAY.ROYALE_PLACEMENT_LIMIT_EXCEEDED''"
| "gameplay_code_name kRoyaleEliminatedEntityWithoutController = ''GAMEPLAY.ROYALE_ELIMINATED_ENTITY_WITHOUT_CONTROLLER''"
| "gameplay_code_name kKingOfTheHillScalarNotFinite = ''GAMEPLAY.KING_OF_THE_HILL_SCALAR_NOT_FINITE''"
| "gameplay_code_name kKingOfTheHillScalarOutOfRange = ''GAMEPLAY.KING_OF_THE_HILL_SCALAR_OUT_OF_RANGE''"
| "gameplay_code_name kRaceScalarNotFinite = ''GAMEPLAY.RACE_SCALAR_NOT_FINITE''"
| "gameplay_code_name kRaceScalarOutOfRange = ''GAMEPLAY.RACE_SCALAR_OUT_OF_RANGE''"
| "gameplay_code_name kRaceRoadNameInvalid_gameplay = ''GAMEPLAY.RACE_ROAD_NAME_INVALID''"
| "gameplay_code_name kKingOfTheHillTourWithoutDuration = ''GAMEPLAY.KING_OF_THE_HILL_TOUR_WITHOUT_DURATION''"
| "gameplay_code_name kKingOfTheHillPointsToWinZero = ''GAMEPLAY.KING_OF_THE_HILL_POINTS_TO_WIN_ZERO''"
| "gameplay_code_name kKingOfTheHillMapWithoutHill = ''GAMEPLAY.KING_OF_THE_HILL_MAP_WITHOUT_HILL''"
| "gameplay_code_name kKingOfTheHillMapWithoutSpawnPoint = ''GAMEPLAY.KING_OF_THE_HILL_MAP_WITHOUT_SPAWN_POINT''"
| "gameplay_code_name kKingOfTheHillHillEntityUnreserved = ''GAMEPLAY.KING_OF_THE_HILL_HILL_ENTITY_UNRESERVED''"
| "gameplay_code_name kKingOfTheHillHillAbsent = ''GAMEPLAY.KING_OF_THE_HILL_HILL_ABSENT''"
| "gameplay_code_name kKingOfTheHillMotionPolicyInvalid = ''GAMEPLAY.KING_OF_THE_HILL_MOTION_POLICY_INVALID''"
| "gameplay_code_name kKingOfTheHillMotionStateInvalid = ''GAMEPLAY.KING_OF_THE_HILL_MOTION_STATE_INVALID''"
| "gameplay_code_name kKingOfTheHillRetargetTickOverflow = ''GAMEPLAY.KING_OF_THE_HILL_RETARGET_TICK_OVERFLOW''"
| "gameplay_code_name kRaceMapRoadMissing = ''GAMEPLAY.RACE_MAP_ROAD_MISSING''"
| "gameplay_code_name kRaceMapWithoutCheckpoint = ''GAMEPLAY.RACE_MAP_WITHOUT_CHECKPOINT''"
| "gameplay_code_name kRaceMapCheckpointOutsideCorridor = ''GAMEPLAY.RACE_MAP_CHECKPOINT_OUTSIDE_CORRIDOR''"
| "gameplay_code_name kRaceMapSpawnPointOutsideCorridor = ''GAMEPLAY.RACE_MAP_SPAWN_POINT_OUTSIDE_CORRIDOR''"
| "gameplay_code_name kRaceMapWithoutSpawnPoint = ''GAMEPLAY.RACE_MAP_WITHOUT_SPAWN_POINT''"
| "gameplay_code_name kRaceCourseUnbound = ''GAMEPLAY.RACE_COURSE_UNBOUND''"
| "gameplay_code_name kRaceProgressBeyondCourse = ''GAMEPLAY.RACE_PROGRESS_BEYOND_COURSE''"
| "gameplay_code_name kRaceStandingLimitExceeded = ''GAMEPLAY.RACE_STANDING_LIMIT_EXCEEDED''"
| "gameplay_code_name kLocomotionPrecisionLost = ''GAMEPLAY.LOCOMOTION_PRECISION_LOST''"
| "gameplay_code_name kStatusActivationTickZero = ''GAMEPLAY.STATUS_ACTIVATION_TICK_ZERO''"
| "gameplay_code_name kSupportLossPhasePolicyInvalid = ''GAMEPLAY.SUPPORT_LOSS_PHASE_POLICY_INVALID''"
| "gameplay_code_name kRaceCheckpointEventInvalid = ''GAMEPLAY.RACE_CHECKPOINT_EVENT_INVALID''"
| "gameplay_code_name kRaceFinishEventInvalid = ''GAMEPLAY.RACE_FINISH_EVENT_INVALID''"

section \<open>Errors of a gameplay operation\<close>

datatype system_error = Simulation sim_error | Gameplay gameplay_code string

type_synonym 'a system_result = "system_error + 'a"

definition raised :: "'a result \<Rightarrow> 'a system_result" where
  "raised r = (case r of Inl e \<Rightarrow> Inl (Simulation e) | Inr a \<Rightarrow> Inr a)"

lemma raised_Inr [simp]: "raised r = Inr a \<longleftrightarrow> r = Inr a"
  by (simp add: raised_def split: sum.split)

lemma raised_of_Inr [simp]: "raised (Inr a) = Inr a"
  by simp

lemma raised_of_Inl [simp]: "raised (Inl e) = Inl (Simulation e)"
  by (simp add: raised_def)

end
