(* ===== verification/Status_Effects.thy ===== *)
theory Status_Effects
  imports Match_Objectives Gameplay_Error
begin

text \<open>
  The systems every mode shares (gameplay/shared): the input lock, the expiry of lifetimes, stuns and
  what a stun suspends, respawn timers, the charge contact pass, the quarter-turn pulses and the reset
  of an ended match.
\<close>

section \<open>The input lock\<close>

definition input_is_locked :: "game_world \<Rightarrow> entity_id \<Rightarrow> tick \<Rightarrow> bool" where
  "input_is_locked w e now \<longleftrightarrow>
     (case store_find (stuns w) e of Some window \<Rightarrow> window_contains window now | None \<Rightarrow> False) \<or>
     (case (mode_state (world_match w), store_find (race_progresses w) e) of
        (RaceState race, Some next) \<Rightarrow>
          checkpoints race \<noteq> [] \<and> next = of_nat (length (checkpoints race))
      | _ \<Rightarrow> False)"

section \<open>Lifetimes\<close>

definition lifetime_expiry_apply :: "game_world \<Rightarrow> game_world result" where
  "lifetime_expiry_apply w =
     (let expired = map fst (filter (\<lambda>entry. snd entry \<le> 1) (lifetimes w));
          ticked = w\<lparr>lifetimes := store_map_values (\<lambda>n. if n > 1 then n - 1 else n) (lifetimes w)\<rparr>
      in try_fold (\<lambda>e. emit (DespawnEvent e)) expired ticked)"

section \<open>Stuns\<close>

text \<open>One stun request: what it does to the windows requested so far on this tick.\<close>

definition stun_request_effective :: "game_world \<Rightarrow> entity_id \<Rightarrow> u64 \<Rightarrow> bool" where
  "stun_request_effective w e duration \<longleftrightarrow> duration \<noteq> 0 \<and>
     (case store_find (bodies w) e of Some b \<Rightarrow> \<not> is_static b | None \<Rightarrow> False)"

definition stun_window :: "game_world \<Rightarrow> tick \<Rightarrow> entity_id \<Rightarrow> u64 \<Rightarrow> tick_window store \<Rightarrow> tick_window result" where
  "stun_window w now e duration requested =
     try_then (tick_window_create now duration) (\<lambda>window.
       case (case store_find requested e of Some pending \<Rightarrow> Some pending | None \<Rightarrow> store_find (stuns w) e) of
         Some previous \<Rightarrow>
           if window_contains previous now
           then tick_window_create (activation_tick previous)
             (tick_value (max (expiry_tick previous) (expiry_tick window)) - tick_value (activation_tick previous))
           else Inr window
       | None \<Rightarrow> Inr window)"

fun request_stun :: "game_world \<Rightarrow> tick \<Rightarrow> world_event \<Rightarrow> tick_window store \<Rightarrow> tick_window store system_result" where
  "request_stun w now (StunRequest e duration) requested =
     (if \<not> stun_request_effective w e duration then Inr requested
      else if now = tick_zero then Inl (Gameplay kStatusActivationTickZero ''status.activation_tick'')
      else try_then (raised (stun_window w now e duration requested)) (\<lambda>window.
        Inr (put_entry e window requested)))"
| "request_stun w now event requested = Inr requested"

definition erase_expired_stuns :: "tick \<Rightarrow> game_world \<Rightarrow> game_world" where
  "erase_expired_stuns now w =
     w\<lparr>stuns := fold store_erase (map fst (filter (\<lambda>entry. window_expired (snd entry) now) (stuns w))) (stuns w)\<rparr>"

definition commit_stun :: "tick \<Rightarrow> entity_id \<times> tick_window \<Rightarrow> game_world \<Rightarrow> game_world result" where
  "commit_stun now entry w =
     try_then (insert_or_assign (fst entry) (snd entry) (stuns w)) (\<lambda>s.
       Inr (w\<lparr>stuns := s, controllables := store_modify (fst entry)
            (\<lambda>c. c\<lparr>input_generation := Some now\<rparr>) (controllables w)\<rparr>))"

text \<open>What an active stun takes from its entity: intent, brake, acceleration, charge and shield.\<close>

definition pause :: "entity_id \<Rightarrow> game_world \<Rightarrow> game_world" where
  "pause e w = w\<lparr>
     controllables := store_modify e (\<lambda>c. c\<lparr>normalized_thrust_intent := Some zero_vector,
        braking_intent := False\<rparr>) (controllables w),
     bodies := store_modify e (\<lambda>b. if is_static b then b
        else b\<lparr>body_acceleration := zero_vector\<rparr>) (bodies w)\<rparr>"

definition cancel_charge :: "tick \<Rightarrow> entity_id \<Rightarrow> game_world \<Rightarrow> game_world result" where
  "cancel_charge now e w =
     (case store_find (charges w) e of
        None \<Rightarrow> Inr w
      | Some c \<Rightarrow> try_then (charge_canceled_at c now) (\<lambda>c'.
          try_then (insert_or_assign e c' (charges w)) (\<lambda>s. Inr (w\<lparr>charges := s\<rparr>))))"

definition cancel_shield :: "tick \<Rightarrow> entity_id \<Rightarrow> game_world \<Rightarrow> game_world result" where
  "cancel_shield now e w =
     (case store_find (shields w) e of
        None \<Rightarrow> Inr w
      | Some sh \<Rightarrow> try_then (shield_canceled_at sh now) (\<lambda>sh'.
          try_then (insert_or_assign e sh' (shields w)) (\<lambda>s. Inr (w\<lparr>shields := s\<rparr>))))"

definition suspend :: "tick \<Rightarrow> entity_id \<times> tick_window \<Rightarrow> game_world \<Rightarrow> game_world result" where
  "suspend now entry w =
     (if \<not> window_contains (snd entry) now then Inr w
      else try_then (cancel_charge now (fst entry) (pause (fst entry) w)) (cancel_shield now (fst entry)))"

definition status_apply :: "tick \<Rightarrow> game_world \<Rightarrow> game_world system_result" where
  "status_apply now w =
     try_then (try_fold (request_stun w now) (events w) []) (\<lambda>requested.
     try_then (raised (try_fold (commit_stun now) requested (erase_expired_stuns now w))) (\<lambda>w1.
       raised (try_fold (suspend now) (stuns w1) w1)))"

section \<open>Respawning\<close>

definition eliminated_entities_of :: "game_world \<Rightarrow> entity_id list" where
  "eliminated_entities_of w = remdups_adj (sort (List.map_filter (\<lambda>event. case event of
      EliminationEvent e \<Rightarrow> Some e | _ \<Rightarrow> None) (events w)))"

definition tick_respawn_timer :: "entity_id \<times> u64 \<Rightarrow> game_world \<Rightarrow> game_world result" where
  "tick_respawn_timer entry w =
     (if snd entry \<le> 1
      then Inr (w\<lparr>respawn_timers := store_erase (fst entry) (respawn_timers w)\<rparr>)
      else try_then (insert_or_assign (fst entry) (snd entry - 1) (respawn_timers w)) (\<lambda>s.
        Inr (w\<lparr>respawn_timers := s\<rparr>)))"

definition respawn_eliminated :: "u64 \<Rightarrow> entity_id \<Rightarrow> game_world \<Rightarrow> game_world result" where
  "respawn_eliminated delay e w =
     (if store_find (controllables w) e = None \<or> store_find (bodies w) e = None then Inr w
      else let w1 = w\<lparr>bodies := store_erase e (bodies w)\<rparr> in
        if delay > 0
        then try_then (insert_or_assign e delay (respawn_timers w1)) (\<lambda>s. Inr (w1\<lparr>respawn_timers := s\<rparr>))
        else Inr w1)"

definition respawn_apply :: "u64 \<Rightarrow> game_world \<Rightarrow> game_world result" where
  "respawn_apply delay w =
     try_then (try_fold tick_respawn_timer (respawn_timers w) w) (\<lambda>w1.
     try_then (try_fold (respawn_eliminated delay) (eliminated_entities_of w1) w1) (\<lambda>w2.
       Inr (erase_body_bound_components_without_body w2)))"

section \<open>Charge contacts\<close>

fun charge_contact :: "tick \<Rightarrow> world_event \<Rightarrow> game_world \<times> world_event list \<Rightarrow> (game_world \<times> world_event list) result" where
  "charge_contact now (ChargeContactCandidate cand) (w, requested) =
     (case store_find (charges w) (attacker cand) of
        None \<Rightarrow> Inr (w, requested)
      | Some c \<Rightarrow>
          if activation_tick (charge_cooldown_window c) \<noteq> attack_activation_tick cand \<or>
             \<not> window_contains (charge_active_window c) now
          then Inr (w, requested)
          else if contact_outcome cand = kSuccessfulHit
          then Inr (w\<lparr>charges := store_erase (attacker cand) (charges w)\<rparr>,
                    requested @ [StunRequest (target cand) (hit_stun_duration c)])
          else try_then (charge_canceled_at c now) (\<lambda>c'.
               try_then (insert_or_assign (attacker cand) c' (charges w)) (\<lambda>s.
                 Inr (w\<lparr>charges := s\<rparr>, requested))))"
| "charge_contact now event st = Inr st"

definition charge_contact_apply :: "tick \<Rightarrow> game_world \<Rightarrow> game_world result" where
  "charge_contact_apply now w =
     try_then (try_fold (charge_contact now) (events w) (w, [])) (\<lambda>(w1, requested).
       try_fold emit requested w1)"

section \<open>Quarter turns\<close>

definition rotated :: "bool \<Rightarrow> vector2 \<Rightarrow> vector2" where
  "rotated clockwise v = (if clockwise then \<lparr>vx = - vy v, vy = vx v\<rparr> else \<lparr>vx = vy v, vy = - vx v\<rparr>)"

fun rotate_pulse :: "entity_id \<Rightarrow> tick option \<Rightarrow> command \<Rightarrow> physics_body store \<Rightarrow> physics_body store" where
  "rotate_pulse e generation (RotateVelocityCommand addressed clockwise g) bs =
     (if g \<noteq> generation then bs
      else store_modify e (\<lambda>b. b\<lparr>body_velocity := rotated clockwise (body_velocity b)\<rparr>) bs)"
| "rotate_pulse e generation command bs = bs"

definition rotate_entity :: "tick \<Rightarrow> entity_id \<times> controllable \<times> physics_body \<Rightarrow> game_world \<Rightarrow> game_world" where
  "rotate_entity now joined w =
     (case joined of (e, c, b) \<Rightarrow>
       if is_static b \<or> input_is_locked w e now then w
       else w\<lparr>bodies := fold (rotate_pulse e (input_generation c)) (commands_this_tick c) (bodies w)\<rparr>)"

definition velocity_rotation_apply :: "tick \<Rightarrow> game_world \<Rightarrow> game_world" where
  "velocity_rotation_apply now w =
     (if phase (world_match w) \<noteq> kRunning then w
      else fold (rotate_entity now) (entities_with_both (controllables w) (bodies w)) w)"

section \<open>Resetting an ended match\<close>

definition match_reset_apply :: "game_world \<Rightarrow> game_world" where
  "match_reset_apply w =
     (if phase (world_match w) \<noteq> kLobby \<or> previous_phase (world_match w) \<noteq> kEnded then w
      else fold destroy_entity (participant_entities w) w)"

section \<open>Reading a modified store\<close>

lemma find_store_modify:
  "ascending (store_ids s) \<Longrightarrow>
   store_find (store_modify e f s) x = (if x = e then map_option f (store_find s x) else store_find s x)"
proof (induction s)
  case Nil
  then show ?case by simp
next
  case (Cons p s)
  obtain y c where p: "p = (y, c)" by (cases p)
  with Cons show ?case by (auto simp: store_modify_Cons store_find_Cons)
qed

lemma find_store_map_values:
  "ascending (store_ids s) \<Longrightarrow> store_find (store_map_values f s) x = map_option f (store_find s x)"
proof (induction s)
  case Nil
  then show ?case by (simp add: store_map_values_def)
next
  case (Cons p s)
  obtain y c where p: "p = (y, c)" by (cases p)
  with Cons show ?case by (auto simp: store_map_values_def store_find_Cons)
qed

lemma valid_store_ascending: "valid_store s \<Longrightarrow> ascending (store_ids s)"
  by (simp add: valid_store_def)

lemma store_find_mem_pair:
  assumes "valid_store s"
  shows "store_find s e = Some c \<longleftrightarrow> (e, c) \<in> set s"
proof -
  have "distinct (store_ids s)" using assms by (simp add: valid_store_def ascending_distinct)
  then show ?thesis using assms by (simp add: store_find_map_of valid_store_def)
qed

section \<open>The windows a tick's requests ask for\<close>

definition requested_durations :: "game_world \<Rightarrow> entity_id \<Rightarrow> world_event list \<Rightarrow> u64 list" where
  "requested_durations w e evs = List.map_filter (\<lambda>event. case event of
     StunRequest x d \<Rightarrow> if x = e \<and> stun_request_effective w e d then Some d else None
   | _ \<Rightarrow> None) evs"

text \<open>The stun that still runs when a tick's requests are read, if one does.\<close>

definition running_stun :: "game_world \<Rightarrow> tick \<Rightarrow> entity_id \<Rightarrow> tick_window option" where
  "running_stun w now e = (case store_find (stuns w) e of
     Some window \<Rightarrow> if window_contains window now then Some window else None | None \<Rightarrow> None)"

definition extended :: "game_world \<Rightarrow> tick \<Rightarrow> entity_id \<Rightarrow> u64 list \<Rightarrow> tick_window \<Rightarrow> bool" where
  "extended w now e ds window \<longleftrightarrow> valid_window window \<and>
     activation_tick window = (case running_stun w now e of Some p \<Rightarrow> activation_tick p | None \<Rightarrow> now) \<and>
     unat (tick_value (expiry_tick window)) =
       Max ((\<lambda>d. unat (tick_value now) + unat d) ` set ds \<union>
         (case running_stun w now e of Some p \<Rightarrow> {unat (tick_value (expiry_tick p))} | None \<Rightarrow> {}))"

lemma stun_window_extended:
  assumes now: "valid_tick now" and d: "d \<noteq> 0" and stuns: "\<forall>x win. store_find (stuns w) x = Some win \<longrightarrow> valid_window win"
    and pending: "store_find requested e = None \<and> ds = [] \<or>
      (\<exists>win. store_find requested e = Some win \<and> ds \<noteq> [] \<and> (0 \<notin> set ds) \<and> extended w now e ds win)"
    and win: "stun_window w now e d requested = Inr window"
  shows "extended w now e (ds @ [d]) window"
proof -
  define previous where "previous = (case store_find requested e of
      Some pending \<Rightarrow> Some pending | None \<Rightarrow> store_find (stuns w) e)"
  obtain fresh where fresh: "tick_window_create now d = Inr fresh"
    and window: "(case previous of
         Some previous \<Rightarrow>
           if window_contains previous now
           then tick_window_create (activation_tick previous)
             (tick_value (max (expiry_tick previous) (expiry_tick fresh)) - tick_value (activation_tick previous))
           else Inr fresh
       | None \<Rightarrow> Inr fresh) = Inr window"
    using win by (auto simp: stun_window_def try_then_Inr_iff previous_def)
  note fresh' = tick_window_create_valid [OF now fresh]
  show ?thesis
  proof (cases "\<exists>p. previous = Some p \<and> window_contains p now")
    case False
    then have "window = fresh" using window by (auto split: option.splits if_splits)
    moreover have "store_find requested e = None"
    proof (rule ccontr)
      assume "store_find requested e \<noteq> None"
      then obtain pend where pend: "store_find requested e = Some pend" "ds \<noteq> []" "0 \<notin> set ds"
        "extended w now e ds pend" using pending by auto
      then obtain d1 where d1: "d1 \<in> set ds" "d1 \<noteq> 0" by (metis hd_in_set)
      have "unat (tick_value now) + unat d1 \<le> unat (tick_value (expiry_tick pend))"
        using pend(4) d1(1) by (auto simp: extended_def split: option.splits intro!: Max_ge)
      moreover have "unat d1 \<noteq> 0" using d1(2) by (simp add: u64_eq_iff)
      moreover have "activation_tick pend \<le> now"
        using pend(4) by (auto simp: extended_def running_stun_def window_contains_def split: option.splits if_splits)
      ultimately have "window_contains pend now" by (simp add: window_contains_def tick_less_iff)
      with False pend(1) show False by (simp add: previous_def)
    qed
    moreover from this False have "running_stun w now e = None"
      by (auto simp: previous_def running_stun_def split: option.splits)
    ultimately show ?thesis
      using fresh' pending by (auto simp: extended_def)
  next
    case True
    then obtain p where p: "previous = Some p" "window_contains p now" by blast
    let ?top = "max (expiry_tick p) (expiry_tick fresh)"
    have "valid_window p \<and> activation_tick p = (case running_stun w now e of Some q \<Rightarrow> activation_tick q | None \<Rightarrow> now) \<and>
        unat (tick_value (expiry_tick p)) = Max ((\<lambda>d. unat (tick_value now) + unat d) ` set ds \<union>
         (case running_stun w now e of Some q \<Rightarrow> {unat (tick_value (expiry_tick q))} | None \<Rightarrow> {})) \<and>
        (ds \<noteq> [] \<or> running_stun w now e \<noteq> None)"
    proof (cases "store_find requested e")
      case None
      then have "store_find (stuns w) e = Some p" using p by (simp add: previous_def)
      with None p stuns pending show ?thesis by (auto simp: running_stun_def)
    next
      case (Some pend)
      then have "pend = p" using p by (simp add: previous_def)
      with Some pending show ?thesis by (auto simp: extended_def)
    qed
    then have vp: "valid_window p"
      and act: "activation_tick p = (case running_stun w now e of Some q \<Rightarrow> activation_tick q | None \<Rightarrow> now)"
      and exp: "unat (tick_value (expiry_tick p)) = Max ((\<lambda>d. unat (tick_value now) + unat d) ` set ds \<union>
         (case running_stun w now e of Some q \<Rightarrow> {unat (tick_value (expiry_tick q))} | None \<Rightarrow> {}))"
      and some: "ds \<noteq> [] \<or> running_stun w now e \<noteq> None" by blast+
    have create: "tick_window_create (activation_tick p) (tick_value ?top - tick_value (activation_tick p)) = Inr window"
      using window p by simp
    have va: "valid_tick (activation_tick p)" using vp by (simp add: valid_window_def)
    have le: "unat (tick_value (activation_tick p)) \<le> unat (tick_value ?top)"
      using vp by (auto simp: valid_window_def tick_le_iff max_def)
    then have "unat (tick_value ?top - tick_value (activation_tick p)) =
        unat (tick_value ?top) - unat (tick_value (activation_tick p))"
      by (intro u64_sub_unat) (simp add: word_le_nat_alt)
    then have top: "unat (tick_value (expiry_tick window)) = unat (tick_value ?top)"
      using tick_window_create_valid(3) [OF va create] le by simp
    have max: "unat (tick_value ?top) = max (unat (tick_value (expiry_tick p))) (unat (tick_value (expiry_tick fresh)))"
      by (simp add: max_def tick_le_iff)
    let ?S = "(\<lambda>d. unat (tick_value now) + unat d) ` set ds \<union>
         (case running_stun w now e of Some q \<Rightarrow> {unat (tick_value (expiry_tick q))} | None \<Rightarrow> {})"
    have "finite ?S" by (simp split: option.split)
    moreover have "?S \<noteq> {}" using some by (auto split: option.split)
    ultimately have "Max (insert (unat (tick_value now) + unat d) ?S) = max (unat (tick_value now) + unat d) (Max ?S)"
      by (rule Max_insert)
    then have "unat (tick_value (expiry_tick window)) = Max (insert (unat (tick_value now) + unat d) ?S)"
      using top max exp fresh'(3) by (simp add: max.commute)
    then show ?thesis
      using tick_window_create_valid(1,2) [OF va create] act by (simp add: extended_def)
  qed
qed


text \<open>What the requests of a prefix of the events have built.\<close>

definition requests_built :: "game_world \<Rightarrow> tick \<Rightarrow> world_event list \<Rightarrow> tick_window store \<Rightarrow> bool" where
  "requests_built w now evs requested \<longleftrightarrow> ascending (store_ids requested) \<and>
     (\<forall>e. store_find requested e = None \<and> requested_durations w e evs = [] \<or>
       (\<exists>win. store_find requested e = Some win \<and> requested_durations w e evs \<noteq> [] \<and>
          extended w now e (requested_durations w e evs) win))"

lemma requested_durations_nonzero: "0 \<notin> set (requested_durations w e evs)"
  by (auto simp: requested_durations_def List.map_filter_def stun_request_effective_def
      split: world_event.splits if_splits)

lemma requested_durations_snoc:
  "requested_durations w e (evs @ [ev]) = requested_durations w e evs @
     (case ev of StunRequest x d \<Rightarrow> if x = e \<and> stun_request_effective w e d then [d] else [] | _ \<Rightarrow> [])"
  by (simp add: requested_durations_def map_filter_append List.map_filter_simps split: world_event.split)

lemma request_stun_built:
  assumes now: "valid_tick now" and stuns: "\<forall>x win. store_find (stuns w) x = Some win \<longrightarrow> valid_window win"
    and built: "requests_built w now evs requested"
    and step: "request_stun w now ev requested = Inr requested'"
  shows "requests_built w now (evs @ [ev]) requested'"
proof (cases "\<exists>e d. ev = StunRequest e d \<and> stun_request_effective w e d")
  case False
  then have "requested' = requested"
    using step by (cases "(w, now, ev, requested)" rule: request_stun.cases) auto
  moreover have "requested_durations w x (evs @ [ev]) = requested_durations w x evs" for x
    using False by (auto simp: requested_durations_snoc split: world_event.split)
  ultimately show ?thesis using built by (simp add: requests_built_def)
next
  case True
  then obtain e d where ev: "ev = StunRequest e d" and eff: "stun_request_effective w e d" by blast
  from step obtain win where win: "stun_window w now e d requested = Inr win"
    and req: "requested' = put_entry e win requested"
    by (auto simp: ev eff try_then_Inr_iff split: if_splits)
  have asc: "ascending (store_ids requested)" using built by (simp add: requests_built_def)
  have d: "d \<noteq> 0" using eff by (simp add: stun_request_effective_def)
  have "extended w now e (requested_durations w e evs @ [d]) win"
    by (rule stun_window_extended [OF now d stuns _ win])
      (use built requested_durations_nonzero in \<open>auto simp: requests_built_def\<close>)
  then have "extended w now e (requested_durations w e (evs @ [ev])) win"
    by (simp add: requested_durations_snoc ev eff)
  moreover have "requested_durations w e (evs @ [ev]) \<noteq> []"
    by (simp add: requested_durations_snoc ev eff)
  moreover have "requested_durations w x (evs @ [ev]) = requested_durations w x evs" if "x \<noteq> e" for x
    using that by (simp add: requested_durations_snoc ev)
  ultimately show ?thesis
    using built unfolding requests_built_def req
    by (simp add: find_put_entry [OF asc] ascending_put_entry asc)
qed

lemma requests_fold:
  assumes "valid_tick now" and "\<forall>x win. store_find (stuns w) x = Some win \<longrightarrow> valid_window win"
    and "try_fold (request_stun w now) evs [] = Inr requested"
  shows "requests_built w now evs requested"
  using assms(3)
proof (induction evs arbitrary: requested rule: rev_induct)
  case Nil
  then show ?case by (simp add: requests_built_def requested_durations_def List.map_filter_simps)
next
  case (snoc ev evs)
  then obtain r where "try_fold (request_stun w now) evs [] = Inr r"
    and "request_stun w now ev r = Inr requested"
    by (auto simp: try_fold_append try_then_Inr_iff)
  with snoc.IH request_stun_built [OF assms(1,2)] show ?case by blast
qed

section \<open>Committing and suspending\<close>

lemma commit_fold:
  assumes "valid_store (stuns w)" and "distinct (store_ids requested)"
    and "try_fold (commit_stun now) requested w = Inr w'"
  shows "valid_store (stuns w') \<and> (\<forall>x. store_find (stuns w') x =
      (case map_of requested x of Some win \<Rightarrow> Some win | None \<Rightarrow> store_find (stuns w) x)) \<and>
    bodies w' = bodies w \<and> charges w' = charges w \<and> shields w' = shields w \<and>
    (valid_store (controllables w) \<longrightarrow> valid_store (controllables w'))"
  using assms
proof (induction requested arbitrary: w)
  case Nil
  then show ?case by simp
next
  case (Cons entry requested)
  obtain e win where entry: "entry = (e, win)" by (cases entry)
  from Cons.prems obtain w1 where w1: "commit_stun now entry w = Inr w1"
    and rest: "try_fold (commit_stun now) requested w1 = Inr w'"
    by (auto simp: try_then_Inr_iff)
  then obtain s where s: "insert_or_assign e win (stuns w) = Inr s"
    and w1_def: "w1 = w\<lparr>stuns := s, controllables := store_modify e
            (\<lambda>c. c\<lparr>input_generation := Some now\<rparr>) (controllables w)\<rparr>"
    by (auto simp: commit_stun_def entry try_then_Inr_iff)
  have v: "valid_store (stuns w1)"
    using stored.invar_insert [OF Cons.prems(1) s] by (simp add: w1_def)
  have find: "store_find (stuns w1) x = (if x = e then Some win else store_find (stuns w) x)" for x
    using stored.find_insert [OF Cons.prems(1) s] by (simp add: w1_def)
  have e: "map_of requested e = None"
    using Cons.prems(2) by (simp add: entry map_of_eq_None_iff)
  have "valid_store (controllables w1) = valid_store (controllables w)" by (simp add: w1_def)
  with Cons.IH [OF v _ rest] Cons.prems(2) find e show ?case
    by (auto simp: entry w1_def split: option.split)
qed

text \<open>An entity whose stun suspends everything it was doing.\<close>

definition suspended :: "tick \<Rightarrow> game_world \<Rightarrow> entity_id \<Rightarrow> bool" where
  "suspended now w e \<longleftrightarrow>
     (case store_find (charges w) e of None \<Rightarrow> True | Some c \<Rightarrow> \<not> window_contains (charge_active_window c) now) \<and>
     (case store_find (shields w) e of None \<Rightarrow> True | Some s \<Rightarrow> \<not> window_contains (shield_window s) now \<and>
        \<not> window_contains (perfect_window s) now) \<and>
     (case store_find (controllables w) e of None \<Rightarrow> True | Some c \<Rightarrow>
        normalized_thrust_intent c = Some zero_vector \<and> \<not> braking_intent c) \<and>
     (case store_find (bodies w) e of None \<Rightarrow> True | Some b \<Rightarrow> is_static b \<or> body_acceleration b = zero_vector)"

definition suspend_ready :: "tick \<Rightarrow> game_world \<Rightarrow> bool" where
  "suspend_ready now w \<longleftrightarrow> valid_store (charges w) \<and> valid_store (shields w) \<and>
     valid_store (controllables w) \<and> valid_store (bodies w) \<and>
     (\<forall>e c. store_find (charges w) e = Some c \<longrightarrow> valid_charge c) \<and>
     (\<forall>e s. store_find (shields w) e = Some s \<longrightarrow> valid_shield s)"

lemma charge_canceled_inactive:
  assumes "valid_charge c" and "charge_canceled_at c t = Inr c'"
  shows "valid_charge c' \<and> \<not> window_contains (charge_active_window c') t"
proof -
  have "activation_tick (charge_cooldown_window c) \<le> t"
    using assms(2) by (auto simp: charge_canceled_at_def not_less split: if_splits)
  with charge_canceled_at_spec [OF assms(1) this] assms(2) show ?thesis
    by (auto simp: window_contains_def)
qed

lemma shield_canceled_inactive:
  assumes "valid_shield s" and "shield_canceled_at s t = Inr s'"
  shows "valid_shield s' \<and> \<not> window_contains (shield_window s') t \<and> \<not> window_contains (perfect_window s') t"
proof -
  have "activation_tick (shield_window s) \<le> t"
    using assms(2) by (auto simp: shield_canceled_at_def not_less split: if_splits)
  with shield_canceled_at_spec [OF assms(1) this] assms(2) show ?thesis
    by (auto simp: window_contains_def)
qed

lemma suspend_step:
  assumes ready: "suspend_ready now w" and step: "suspend now (e, win) w = Inr w'"
  shows "suspend_ready now w' \<and> stuns w' = stuns w \<and> (window_contains win now \<longrightarrow> suspended now w' e) \<and>
    (\<forall>x. suspended now w x \<longrightarrow> suspended now w' x)"
proof (cases "window_contains win now")
  case False
  with assms show ?thesis by (simp add: suspend_def)
next
  case True
  define w1 where "w1 = pause e w"
  have same: "charges w1 = charges w" "shields w1 = shields w" "stuns w1 = stuns w"
    by (simp_all add: w1_def pause_def)
  obtain w2 where w2: "cancel_charge now e w1 = Inr w2" and w': "cancel_shield now e w2 = Inr w'"
    using step True by (auto simp: suspend_def try_then_Inr_iff w1_def)
  have vs: "valid_store (charges w)" "valid_store (shields w)" "valid_store (controllables w)"
    "valid_store (bodies w)"
    and vc: "\<forall>e c. store_find (charges w) e = Some c \<longrightarrow> valid_charge c"
    and vsh: "\<forall>e s. store_find (shields w) e = Some s \<longrightarrow> valid_shield s"
    using ready by (simp_all add: suspend_ready_def)
  have c2: "valid_store (charges w2) \<and> (\<forall>x c. store_find (charges w2) x = Some c \<longrightarrow>
        valid_charge c \<and> (x = e \<longrightarrow> \<not> window_contains (charge_active_window c) now)) \<and>
      (\<forall>x. x \<noteq> e \<longrightarrow> store_find (charges w2) x = store_find (charges w) x) \<and>
      shields w2 = shields w \<and> stuns w2 = stuns w \<and> controllables w2 = controllables w1 \<and> bodies w2 = bodies w1"
  proof (cases "store_find (charges w) e")
    case None
    then have "w2 = w1" using w2 by (simp add: cancel_charge_def same)
    moreover have "x \<noteq> e" if "store_find (charges w) x = Some c" for x c using that None by auto
    ultimately show ?thesis using vs vc by (simp add: same)
  next
    case (Some c)
    with w2 obtain c' s where c': "charge_canceled_at c now = Inr c'"
      and ins: "insert_or_assign e c' (charges w) = Inr s" and eq: "w2 = w1\<lparr>charges := s\<rparr>"
      by (auto simp: cancel_charge_def try_then_Inr_iff same)
    from charge_canceled_inactive [OF _ c'] Some vc
    have "valid_charge c' \<and> \<not> window_contains (charge_active_window c') now" by blast
    then show ?thesis
      using stored.find_insert [OF vs(1) ins] stored.invar_insert [OF vs(1) ins] vc
      by (auto simp: eq same split: if_splits)
  qed
  have s2: "valid_store (shields w') \<and> (\<forall>x s. store_find (shields w') x = Some s \<longrightarrow>
        valid_shield s \<and> (x = e \<longrightarrow> \<not> window_contains (shield_window s) now \<and> \<not> window_contains (perfect_window s) now)) \<and>
      (\<forall>x. x \<noteq> e \<longrightarrow> store_find (shields w') x = store_find (shields w) x) \<and>
      charges w' = charges w2 \<and> stuns w' = stuns w \<and> controllables w' = controllables w1 \<and> bodies w' = bodies w1"
  proof (cases "store_find (shields w2) e")
    case None
    with w' c2 vs vsh show ?thesis by (auto simp: cancel_shield_def)
  next
    case (Some sh)
    with w' obtain sh' s where sh': "shield_canceled_at sh now = Inr sh'"
      and ins: "insert_or_assign e sh' (shields w2) = Inr s" and eq: "w' = w2\<lparr>shields := s\<rparr>"
      by (auto simp: cancel_shield_def try_then_Inr_iff)
    have v2: "valid_store (shields w2)" using c2 vs by simp
    from shield_canceled_inactive [OF _ sh'] Some vsh c2
    have "valid_shield sh' \<and> \<not> window_contains (shield_window sh') now \<and> \<not> window_contains (perfect_window sh') now"
      by metis
    then show ?thesis
      using stored.find_insert [OF v2 ins] stored.invar_insert [OF v2 ins] vsh c2
      by (auto simp: eq split: if_splits)
  qed
  have controls: "store_find (controllables w1) x = (if x = e then map_option
        (\<lambda>c. c\<lparr>normalized_thrust_intent := Some zero_vector, braking_intent := False\<rparr>) (store_find (controllables w) x)
        else store_find (controllables w) x)" for x
    using vs by (simp add: w1_def pause_def find_store_modify valid_store_ascending)
  have body: "store_find (bodies w1) x = (if x = e then map_option
        (\<lambda>b. if is_static b then b else b\<lparr>body_acceleration := zero_vector\<rparr>) (store_find (bodies w) x)
        else store_find (bodies w) x)" for x
    using vs by (simp add: w1_def pause_def find_store_modify valid_store_ascending)
  have "suspend_ready now w'"
    using c2 s2 vs unfolding suspend_ready_def by (auto simp: w1_def pause_def)
  moreover have here: "suspended now w' e"
    using c2 s2 unfolding suspended_def by (auto simp: controls body split: option.splits)
  moreover have "suspended now w' x" if "suspended now w x" for x
  proof (cases "x = e")
    case True
    with here show ?thesis by simp
  next
    case False
    with that c2 s2 show ?thesis unfolding suspended_def by (simp add: controls body)
  qed
  ultimately show ?thesis using s2 by blast
qed

lemma suspend_fold:
  assumes "suspend_ready now w" and "try_fold (suspend now) entries w = Inr w'"
  shows "suspend_ready now w' \<and> stuns w' = stuns w \<and>
    (\<forall>x. suspended now w x \<longrightarrow> suspended now w' x) \<and>
    (\<forall>(e, win)\<in>set entries. window_contains win now \<longrightarrow> suspended now w' e)"
  using assms
proof (induction entries arbitrary: w)
  case Nil
  then show ?case by simp
next
  case (Cons entry entries)
  obtain e win where entry: "entry = (e, win)" by (cases entry)
  from Cons.prems(2) obtain w1 where w1: "suspend now (e, win) w = Inr w1"
    and rest: "try_fold (suspend now) entries w1 = Inr w'"
    by (auto simp: entry try_then_Inr_iff)
  note step = suspend_step [OF Cons.prems(1) w1]
  from Cons.IH [OF _ rest] step show ?case by (auto simp: entry)
qed


section \<open>What the shared systems promise\<close>

lemma find_erase_expired:
  assumes "valid_store (stuns w)"
  shows "valid_store (stuns (erase_expired_stuns now w)) \<and>
    store_find (stuns (erase_expired_stuns now w)) e =
      (case store_find (stuns w) e of
         Some win \<Rightarrow> if window_expired win now then None else Some win | None \<Rightarrow> None)"
proof -
  let ?gone = "map fst (filter (\<lambda>entry. window_expired (snd entry) now) (stuns w))"
  have "e \<in> set ?gone \<longleftrightarrow> (\<exists>win. store_find (stuns w) e = Some win \<and> window_expired win now)"
    using store_find_mem_pair [OF assms] by force
  then show ?thesis
    using stored.invar_erase_many [OF assms, of ?gone] stored.find_erase_many [OF assms, of ?gone e]
    by (auto simp: erase_expired_stuns_def split: option.split)
qed

text \<open>
  C9: a stun only ever gets longer, and while it runs its entity can do nothing. When the status
  system succeeds on a well-formed world, the stun of an entity with effective requests on this tick
  (a positive duration for a body that is not static) starts when the stun that was still running
  started, or now if none was, and ends at the latest of the running stun's end and of now plus each
  requested duration; an entity without one keeps its stun unless it has expired. Every entity whose
  stun covers the tick then has no active charge, no protection and no perfect opening, a zero
  thrust intent, no brake and, unless it is static, no acceleration.
\<close>

theorem status_apply_extends_and_suspends:
  assumes w: "valid_world w" and now: "valid_tick now"
    and windows: "\<forall>x win. store_find (stuns w) x = Some win \<longrightarrow> valid_window win"
    and abilities: "suspend_ready now w"
    and run: "status_apply now w = Inr w'"
  shows "(\<forall>e. if requested_durations w e (events w) \<noteq> []
      then \<exists>win. store_find (stuns w') e = Some win \<and> extended w now e (requested_durations w e (events w)) win
      else store_find (stuns w') e = (case store_find (stuns w) e of
        Some win \<Rightarrow> if window_expired win now then None else Some win | None \<Rightarrow> None)) \<and>
    (\<forall>e win. store_find (stuns w') e = Some win \<and> window_contains win now \<longrightarrow> suspended now w' e)"
proof -
  obtain requested w1 where req: "try_fold (request_stun w now) (events w) [] = Inr requested"
    and w1: "try_fold (commit_stun now) requested (erase_expired_stuns now w) = Inr w1"
    and w': "try_fold (suspend now) (stuns w1) w1 = Inr w'"
    using run by (auto simp: status_apply_def try_then_Inr_iff)
  have vs: "valid_store (stuns w)" using w by (simp add: valid_world_def valid_stores_def)
  have built: "requests_built w now (events w) requested" by (rule requests_fold [OF now windows req])
  then have asc: "ascending (store_ids requested)" by (simp add: requests_built_def)
  have erased: "valid_store (stuns (erase_expired_stuns now w))" using find_erase_expired [OF vs] by blast
  note commit = commit_fold [OF erased ascending_distinct [OF asc] w1]
  have find1: "store_find (stuns w1) e = (case store_find requested e of Some win \<Rightarrow> Some win
      | None \<Rightarrow> (case store_find (stuns w) e of
          Some win \<Rightarrow> if window_expired win now then None else Some win | None \<Rightarrow> None))" for e
    using commit find_erase_expired [OF vs, of now e] by (simp add: store_find_map_of asc split: option.split)
  have "suspend_ready now w1"
    using abilities commit by (simp add: suspend_ready_def erase_expired_stuns_def)
  note susp = suspend_fold [OF this w']
  have stuns: "stuns w' = stuns w1" using susp by blast
  have "suspended now w' e" if "store_find (stuns w') e = Some win" "window_contains win now" for e win
    using that susp store_find_mem_pair [of "stuns w1" e win] commit by (auto simp: stuns)
  moreover have "if requested_durations w e (events w) \<noteq> []
      then \<exists>win. store_find (stuns w') e = Some win \<and> extended w now e (requested_durations w e (events w)) win
      else store_find (stuns w') e = (case store_find (stuns w) e of
        Some win \<Rightarrow> if window_expired win now then None else Some win | None \<Rightarrow> None)" for e
  proof (cases "store_find requested e")
    case None
    then have "requested_durations w e (events w) = []" using built by (auto simp: requests_built_def)
    with None show ?thesis by (simp add: stuns find1)
  next
    case (Some win)
    then have "requested_durations w e (events w) \<noteq> []"
      and "extended w now e (requested_durations w e (events w)) win"
      using built unfolding requests_built_def by (metis option.distinct(1) option.inject)+
    with Some show ?thesis by (simp add: stuns find1)
  qed
  ultimately show ?thesis by blast
qed

text \<open>Entity 2 is stunned from tick 3 to 9 and is hit again on tick 5 for 10 ticks.\<close>

definition stunned_world :: game_world where
  "stunned_world = sample_world\<lparr>events := [StunRequest (EntityId 2) 10, StunRequest (EntityId 2) 2]\<rparr>"

lemma stunned_world_applies:
  "\<exists>w'. status_apply (Tick 5) stunned_world = Inr w' \<and> store_find (stuns w') (EntityId 2) =
     Some \<lparr>activation_tick = Tick 3, expiry_tick = Tick 15\<rparr>"
  by (simp add: status_apply_def stunned_world_def sample_world_def world_empty_def
      stun_request_effective_def sample_body_def store_find_Cons less_entity_id_def
      stun_window_def tick_window_create_total valid_tick_def window_contains_def less_eq_tick_def
      less_tick_def max_def tick_zero_def erase_expired_stuns_def window_expired_def commit_stun_def
      insert_or_assign_def store_lower_bound_def suspend_def pause_def cancel_charge_def
      cancel_shield_def)

theorem status_apply_extends_and_suspends_witness:
  "\<exists>w'. status_apply (Tick 5) stunned_world = Inr w' \<and> suspended (Tick 5) w' (EntityId 2)"
proof -
  obtain w' where run: "status_apply (Tick 5) stunned_world = Inr w'"
    and win: "store_find (stuns w') (EntityId 2) = Some \<lparr>activation_tick = Tick 3, expiry_tick = Tick 15\<rparr>"
    using stunned_world_applies by blast
  have w: "valid_world stunned_world"
    using sample_world_valid
    by (simp add: stunned_world_def valid_world_def valid_stores_def kMaximumWorldEventCount_def
        kMaximumEntityCount_def)
  have windows: "\<forall>x win. store_find (stuns stunned_world) x = Some win \<longrightarrow> valid_window win"
    by (simp add: stunned_world_def sample_world_def store_find_Cons valid_window_def valid_tick_def
        less_eq_tick_def)
  have "suspend_ready (Tick 5) stunned_world"
    using w by (simp add: suspend_ready_def valid_world_def valid_stores_def)
      (simp add: stunned_world_def sample_world_def world_empty_def)
  from status_apply_extends_and_suspends [OF w _ windows this run] win show ?thesis
    using run by (auto simp: valid_tick_def window_contains_def less_eq_tick_def less_tick_def)
qed

lemma length_store_erase_present:
  assumes "valid_store s" and "store_find s e = Some c"
  shows "Suc (length (store_erase e s)) = length s"
proof -
  have asc: "ascending (store_ids s)" using assms(1) by (rule valid_store_ascending)
  have d: "distinct (store_ids s)" using asc by (rule ascending_distinct)
  have "(e, c) \<in> set s" using assms(2) store_find_mem_pair [OF assms(1)] by simp
  then obtain xs ys where s: "s = xs @ (e, c) # ys" by (meson split_list)
  have "store_erase (fst (e, c)) (xs @ (e, c) # ys) = xs @ ys"
    using asc s by (intro store_erase_middle) simp
  then show ?thesis by (simp add: s)
qed

lemma length_insert_present:
  assumes "valid_store s" and "store_find s e = Some d" and "insert_or_assign e c s = Inr s'"
  shows "length s' = length s"
  using assms length_put_entry [of e c s]
  by (auto simp: insert_or_assign_valid valid_store_def split: if_splits)

lemma emit_fold:
  "try_fold emit evs w = Inr w' \<Longrightarrow> w' = w\<lparr>events := events w @ evs\<rparr>"
proof (induction evs arbitrary: w)
  case Nil
  then show ?case by simp
next
  case (Cons ev evs)
  then obtain w1 where "emit ev w = Inr w1" "try_fold emit evs w1 = Inr w'"
    by (auto simp: try_then_Inr_iff)
  moreover from this(1) have "w1 = w\<lparr>events := events w @ [ev]\<rparr>" by (auto simp: emit_def split: if_splits)
  ultimately show ?case using Cons.IH [of w1] by simp
qed

text \<open>What the pass over the contacts keeps: the charges left and the stuns requested add up, and
  every requested stun carries the duration of a charge that was there.\<close>

definition contacts_settled :: "game_world \<Rightarrow> game_world \<times> world_event list \<Rightarrow> bool" where
  "contacts_settled w0 st \<longleftrightarrow> valid_store (charges (fst st)) \<and>
     length (charges (fst st)) + length (snd st) = length (charges w0) \<and>
     fst st = w0\<lparr>charges := charges (fst st)\<rparr> \<and>
     (\<forall>a c. store_find (charges (fst st)) a = Some c \<longrightarrow> (\<exists>c0. store_find (charges w0) a = Some c0 \<and>
        hit_stun_duration c = hit_stun_duration c0 \<and>
        charge_cooldown_window c = charge_cooldown_window c0)) \<and>
     (\<forall>ev\<in>set (snd st). \<exists>a c0 e. store_find (charges w0) a = Some c0 \<and>
        store_find (charges (fst st)) a = None \<and> ev = StunRequest e (hit_stun_duration c0))"

lemma charge_canceled_keeps:
  "charge_canceled_at c t = Inr c' \<Longrightarrow>
   hit_stun_duration c' = hit_stun_duration c \<and> charge_cooldown_window c' = charge_cooldown_window c"
  by (auto simp: charge_canceled_at_def try_then_Inr_iff split: if_splits)

lemma charge_contact_settled:
  assumes settled: "contacts_settled w0 st" and step: "charge_contact now ev st = Inr st'"
  shows "contacts_settled w0 st'"
proof (cases "st' = st")
  case True
  with settled show ?thesis by simp
next
  case False
  obtain w reqs where st: "st = (w, reqs)" by (cases st)
  obtain cand where ev: "ev = ChargeContactCandidate cand"
    using False step by (cases "(now, ev, st)" rule: charge_contact.cases) auto
  obtain c where c: "store_find (charges w) (attacker cand) = Some c"
    using False step by (auto simp: ev st split: option.splits)
  have v: "valid_store (charges w)" and total: "length (charges w) + length reqs = length (charges w0)"
    and frame: "w = w0\<lparr>charges := charges w\<rparr>"
    and held: "\<forall>a c. store_find (charges w) a = Some c \<longrightarrow> (\<exists>c0. store_find (charges w0) a = Some c0 \<and>
        hit_stun_duration c = hit_stun_duration c0 \<and> charge_cooldown_window c = charge_cooldown_window c0)"
    and asked: "\<forall>ev\<in>set reqs. \<exists>a c0 e. store_find (charges w0) a = Some c0 \<and>
        store_find (charges w) a = None \<and> ev = StunRequest e (hit_stun_duration c0)"
    using settled unfolding contacts_settled_def st fst_conv snd_conv by blast+
  obtain c0 where c0: "store_find (charges w0) (attacker cand) = Some c0"
    "hit_stun_duration c = hit_stun_duration c0" "charge_cooldown_window c = charge_cooldown_window c0"
    using held c by blast
  show ?thesis
  proof (cases "contact_outcome cand = kSuccessfulHit")
    case True
    let ?s = "store_erase (attacker cand) (charges w)"
    have st': "st' = (w\<lparr>charges := ?s\<rparr>, reqs @ [StunRequest (target cand) (hit_stun_duration c)])"
      using False step True by (auto simp: ev st c split: if_splits)
    have frame': "w\<lparr>charges := ?s\<rparr> = w0\<lparr>charges := ?s\<rparr>" by (subst frame) simp
    have "Suc (length ?s) = length (charges w)" by (rule length_store_erase_present [OF v c])
    with total have total': "length ?s + length (reqs @ [StunRequest (target cand) (hit_stun_duration c)]) =
        length (charges w0)" by simp
    show ?thesis
      unfolding contacts_settled_def st' fst_conv snd_conv
    proof (intro conjI)
      show "w\<lparr>charges := ?s\<rparr> = w0\<lparr>charges := charges (w\<lparr>charges := ?s\<rparr>)\<rparr>" using frame' by simp
    next
      show "\<forall>ev\<in>set (reqs @ [StunRequest (target cand) (hit_stun_duration c)]).
          \<exists>a c0 e. store_find (charges w0) a = Some c0 \<and>
            store_find (charges (w\<lparr>charges := ?s\<rparr>)) a = None \<and> ev = StunRequest e (hit_stun_duration c0)"
      proof
        fix ev
        assume "ev \<in> set (reqs @ [StunRequest (target cand) (hit_stun_duration c)])"
        then consider "ev \<in> set reqs" | "ev = StunRequest (target cand) (hit_stun_duration c)" by auto
        then show "\<exists>a c0 e. store_find (charges w0) a = Some c0 \<and>
            store_find (charges (w\<lparr>charges := ?s\<rparr>)) a = None \<and> ev = StunRequest e (hit_stun_duration c0)"
        proof cases
          case 1
          then obtain a b e where "store_find (charges w0) a = Some b" "store_find (charges w) a = None"
            "ev = StunRequest e (hit_stun_duration b)" using asked by blast
          then show ?thesis by (intro exI [of _ a] exI [of _ b] exI [of _ e]) (simp add: stored.find_erase [OF v])
        next
          case 2
          with c0 show ?thesis
            by (intro exI [of _ "attacker cand"] exI [of _ c0] exI [of _ "target cand"])
              (simp add: stored.find_erase [OF v])
        qed
      qed
    qed (use total' held stored.invar_erase [OF v] in \<open>auto simp: stored.find_erase [OF v] split: if_splits\<close>)
  next
    case missed: False
    obtain c' s where c': "charge_canceled_at c now = Inr c'"
      and s: "insert_or_assign (attacker cand) c' (charges w) = Inr s"
      and st': "st' = (w\<lparr>charges := s\<rparr>, reqs)"
      using False step missed by (auto simp: ev st c try_then_Inr_iff split: if_splits)
    have frame': "w\<lparr>charges := s\<rparr> = w0\<lparr>charges := s\<rparr>" by (subst frame) simp
    have find: "store_find s x = (if x = attacker cand then Some c' else store_find (charges w) x)" for x
      by (rule stored.find_insert [OF v s])
    show ?thesis
      unfolding contacts_settled_def st' fst_conv snd_conv
    proof (intro conjI)
      show "w\<lparr>charges := s\<rparr> = w0\<lparr>charges := charges (w\<lparr>charges := s\<rparr>)\<rparr>" using frame' by simp
    next
      show "\<forall>ev\<in>set reqs. \<exists>a c0 e. store_find (charges w0) a = Some c0 \<and>
          store_find (charges (w\<lparr>charges := s\<rparr>)) a = None \<and> ev = StunRequest e (hit_stun_duration c0)"
      proof
        fix ev
        assume "ev \<in> set reqs"
        then obtain a b e where a: "store_find (charges w0) a = Some b" "store_find (charges w) a = None"
          "ev = StunRequest e (hit_stun_duration b)" using asked by blast
        then have "a \<noteq> attacker cand" using c by auto
        with a find show "\<exists>a c0 e. store_find (charges w0) a = Some c0 \<and>
            store_find (charges (w\<lparr>charges := s\<rparr>)) a = None \<and> ev = StunRequest e (hit_stun_duration c0)"
          by auto
      qed
    qed (use total held c0 charge_canceled_keeps [OF c'] find stored.invar_insert [OF v s]
        length_insert_present [OF v c s] in \<open>auto split: if_splits\<close>)
  qed
qed

text \<open>
  C10: a charge hits once. When the charge contact pass succeeds, the number of stuns it requests is
  exactly the number of charges it consumes, whatever contacts the tick reported and in whatever
  order, so one activation never stuns two targets or one target twice; each stun lasts as long as
  the hit stun of a charge that is then gone; and of the world only the charges and the events change,
  the requests being appended to the events.
\<close>

theorem charge_contacts_hit_once:
  assumes "valid_store (charges w)" and "charge_contact_apply now w = Inr w'"
  shows "\<exists>requested. events w' = events w @ requested \<and>
    length (charges w') + length requested = length (charges w) \<and>
    (\<forall>ev\<in>set requested. \<exists>a c e. store_find (charges w) a = Some c \<and> store_find (charges w') a = None \<and>
      ev = StunRequest e (hit_stun_duration c)) \<and>
    w' = w\<lparr>charges := charges w', events := events w'\<rparr>"
proof -
  obtain w1 reqs where fold: "try_fold (charge_contact now) (events w) (w, []) = Inr (w1, reqs)"
    and emitted: "try_fold emit reqs w1 = Inr w'"
    using assms(2) by (auto simp: charge_contact_apply_def try_then_Inr_iff)
  have "contacts_settled w (w1, reqs)"
  proof (rule try_fold_invariant [OF fold])
    show "contacts_settled w (w, [])" using assms(1) by (simp add: contacts_settled_def)
  qed (rule charge_contact_settled)
  then have total: "length (charges w1) + length reqs = length (charges w)"
    and frame: "w1 = w\<lparr>charges := charges w1\<rparr>"
    and asked: "\<forall>ev\<in>set reqs. \<exists>a c0 e. store_find (charges w) a = Some c0 \<and>
        store_find (charges w1) a = None \<and> ev = StunRequest e (hit_stun_duration c0)"
    unfolding contacts_settled_def fst_conv snd_conv by blast+
  have w': "w' = w1\<lparr>events := events w1 @ reqs\<rparr>" by (rule emit_fold [OF emitted])
  have "events w1 = events w" by (subst frame) simp
  moreover have "w' = w\<lparr>charges := charges w', events := events w'\<rparr>"
    unfolding w' by (subst (1) frame) simp
  moreover have "charges w' = charges w1" by (simp add: w')
  ultimately show ?thesis using total asked w' by auto
qed

text \<open>Entity 2 charges at tick 3; two contacts of the same activation are reported.\<close>

definition charging_world :: game_world where
  "charging_world = sample_world\<lparr>charges := [(EntityId 2,
       \<lparr>charge_cooldown_window = \<lparr>activation_tick = Tick 3, expiry_tick = Tick 90\<rparr>,
        charge_active_window = \<lparr>activation_tick = Tick 3, expiry_tick = Tick 20\<rparr>, hit_stun_duration = 7\<rparr>)],
     events := [ChargeContactCandidate \<lparr>attacker = EntityId 2, target = EntityId 5,
         attack_activation_tick = Tick 3, contact_outcome = kSuccessfulHit\<rparr>,
       ChargeContactCandidate \<lparr>attacker = EntityId 2, target = EntityId 8,
         attack_activation_tick = Tick 3, contact_outcome = kSuccessfulHit\<rparr>]\<rparr>"

theorem charge_contacts_hit_once_witness:
  "\<exists>w'. charge_contact_apply (Tick 5) charging_world = Inr w' \<and> charges w' = [] \<and>
     length (events w') = Suc (length (events charging_world))"
proof -
  have applies: "\<exists>w'. charge_contact_apply (Tick 5) charging_world = Inr w' \<and> charges w' = []"
    by (simp add: charge_contact_apply_def charging_world_def store_find_Cons less_entity_id_def
        window_contains_def less_eq_tick_def less_tick_def store_erase_Cons emit_def
        kMaximumWorldEventCount_def kMaximumEntityCount_def)
  then obtain w' where run: "charge_contact_apply (Tick 5) charging_world = Inr w'" "charges w' = []" by blast
  have "valid_store (charges charging_world)"
    by (simp add: charging_world_def valid_store_def kMaximumEntityCount_def)
  from charge_contacts_hit_once [OF this run(1)] run show ?thesis
    by (auto simp: charging_world_def)
qed


section \<open>Respawning and resetting\<close>

definition ticked_timer :: "u64 option \<Rightarrow> u64 option" where
  "ticked_timer timer = (case timer of None \<Rightarrow> None | Some n \<Rightarrow> if n \<le> 1 then None else Some (n - 1))"

lemma tick_timers_fold:
  assumes "valid_store (respawn_timers w)" and "distinct (store_ids entries)"
    and "\<forall>(e, n)\<in>set entries. store_find (respawn_timers w) e = Some n"
    and "try_fold tick_respawn_timer entries w = Inr w'"
  shows "valid_store (respawn_timers w') \<and> w' = w\<lparr>respawn_timers := respawn_timers w'\<rparr> \<and>
    (\<forall>x. store_find (respawn_timers w') x =
      (if x \<in> set (store_ids entries) then ticked_timer (store_find (respawn_timers w) x)
       else store_find (respawn_timers w) x))"
  using assms
proof (induction entries arbitrary: w)
  case Nil
  then show ?case by simp
next
  case (Cons entry entries)
  obtain e n where entry: "entry = (e, n)" by (cases entry)
  from Cons.prems(4) obtain w1 where w1: "tick_respawn_timer entry w = Inr w1"
    and rest: "try_fold tick_respawn_timer entries w1 = Inr w'"
    by (auto simp: try_then_Inr_iff)
  have en: "store_find (respawn_timers w) e = Some n" using Cons.prems(3) by (simp add: entry)
  have step: "valid_store (respawn_timers w1) \<and> (\<forall>x. store_find (respawn_timers w1) x =
      (if x = e then ticked_timer (Some n) else store_find (respawn_timers w) x))"
    using w1 Cons.prems(1) stored.find_insert [OF Cons.prems(1)] stored.invar_insert [OF Cons.prems(1)]
    by (auto simp: tick_respawn_timer_def entry ticked_timer_def stored.find_erase stored.invar_erase
        try_then_Inr_iff split: if_splits)
  have frame: "w1 = w\<lparr>respawn_timers := respawn_timers w1\<rparr>"
    using w1 by (auto simp: tick_respawn_timer_def try_then_Inr_iff split: if_splits)
  have fresh: "e \<notin> set (store_ids entries)" and d: "distinct (store_ids entries)"
    using Cons.prems(2) by (simp_all add: entry)
  have "\<forall>(x, m)\<in>set entries. store_find (respawn_timers w1) x = Some m"
    using Cons.prems(3) step fresh by force
  from Cons.IH [OF conjunct1 [OF step] d this rest]
  have ih: "valid_store (respawn_timers w')" "w' = w1\<lparr>respawn_timers := respawn_timers w'\<rparr>"
    "\<forall>x. store_find (respawn_timers w') x = (if x \<in> set (store_ids entries)
        then ticked_timer (store_find (respawn_timers w1) x) else store_find (respawn_timers w1) x)"
    by blast+
  have "w' = w\<lparr>respawn_timers := respawn_timers w'\<rparr>"
    by (subst ih(2), subst frame) simp
  then show ?case using ih(1,3) step en fresh by (auto simp: entry)
qed

lemma respawn_fold:
  assumes "valid_stores w" and "distinct es" and "try_fold (respawn_eliminated delay) es w = Inr w'"
  shows "valid_stores w' \<and> (\<forall>x.
     (if x \<in> set es \<and> carries (controllables w) x \<and> carries (bodies w) x
      then store_find (bodies w') x = None \<and> store_find (respawn_timers w') x =
        (if delay > 0 then Some delay else store_find (respawn_timers w) x)
      else store_find (bodies w') x = store_find (bodies w) x \<and>
        store_find (respawn_timers w') x = store_find (respawn_timers w) x)) \<and>
     controllables w' = controllables w \<and> world_match w' = world_match w \<and> events w' = events w"
  using assms
proof (induction es arbitrary: w)
  case Nil
  then show ?case by simp
next
  case (Cons e es)
  from Cons.prems(3) obtain w1 where w1: "respawn_eliminated delay e w = Inr w1"
    and rest: "try_fold (respawn_eliminated delay) es w1 = Inr w'"
    by (auto simp: try_then_Inr_iff)
  have vb: "valid_store (bodies w)" and vt: "valid_store (respawn_timers w)"
    using Cons.prems(1) by (simp_all add: valid_stores_def)
  let ?hit = "carries (controllables w) e \<and> carries (bodies w) e"
  have step: "valid_stores w1 \<and> controllables w1 = controllables w \<and> world_match w1 = world_match w \<and>
      events w1 = events w \<and>
      (\<forall>x. store_find (bodies w1) x = (if x = e \<and> ?hit then None else store_find (bodies w) x)) \<and>
      (\<forall>x. store_find (respawn_timers w1) x =
        (if x = e \<and> ?hit \<and> delay > 0 then Some delay else store_find (respawn_timers w) x))"
  proof (cases ?hit)
    case False
    then have "w1 = w" using w1 by (auto simp: respawn_eliminated_def carries_def)
    with False Cons.prems(1) show ?thesis by auto
  next
    case hit: True
    show ?thesis
    proof (cases "delay > 0")
      case False
      then have "w1 = w\<lparr>bodies := store_erase e (bodies w)\<rparr>"
        using w1 hit by (auto simp: respawn_eliminated_def carries_def Let_def)
      with False hit Cons.prems(1) vb show ?thesis
        by (auto simp: valid_stores_def stored.find_erase stored.invar_erase)
    next
      case True
      then obtain s where s: "insert_or_assign e delay (respawn_timers w) = Inr s"
        and "w1 = w\<lparr>bodies := store_erase e (bodies w), respawn_timers := s\<rparr>"
        using w1 hit by (auto simp: respawn_eliminated_def carries_def Let_def try_then_Inr_iff)
      with True hit Cons.prems(1) vb stored.find_insert [OF vt s] stored.invar_insert [OF vt s]
      show ?thesis by (auto simp: valid_stores_def stored.find_erase stored.invar_erase)
    qed
  qed
  have "distinct es" and e: "e \<notin> set es" using Cons.prems(2) by simp_all
  from Cons.IH [OF conjunct1 [OF step] this(1) rest] step e show ?case
    by (auto simp: carries_def)
qed

lemma eliminated_mem: "e \<in> set (eliminated_entities_of w) \<longleftrightarrow> EliminationEvent e \<in> set (events w)"
proof -
  have "set (List.map_filter (\<lambda>event. case event of EliminationEvent e \<Rightarrow> Some e | _ \<Rightarrow> None) es) =
      {e. EliminationEvent e \<in> set es}" for es
    by (induction es) (auto simp: List.map_filter_simps split: world_event.split)
  then show ?thesis by (simp add: eliminated_entities_of_def)
qed

lemma ascending_remdups_adj: "sorted xs \<Longrightarrow> ascending (remdups_adj xs)"
proof (induction xs rule: remdups_adj.induct)
  case (3 x y xs)
  then show ?case by (auto simp: order.strict_iff_order)
qed simp_all

lemma eliminated_ascending: "ascending (eliminated_entities_of w)"
  unfolding eliminated_entities_of_def by (rule ascending_remdups_adj) simp

text \<open>
  the respawn pass takes the body of exactly the eliminated participants. When it succeeds on a
  well-formed world, an eliminated entity that had a controller and a body has no body and, for a
  positive delay, a timer of exactly that delay; every other entity keeps its body, and its timer is
  one tick shorter, a timer of one tick or less being gone; every participant keeps its controller,
  and no component of a body-bound kind outlives its body.
\<close>

theorem respawn_takes_eliminated_bodies:
  assumes "valid_world w" and "respawn_apply delay w = Inr w'"
    and "hit = (\<lambda>e. EliminationEvent e \<in> set (events w) \<and> carries (controllables w) e \<and> carries (bodies w) e)"
  shows "(\<forall>e. store_find (bodies w') e = (if hit e then None else store_find (bodies w) e) \<and>
      store_find (respawn_timers w') e = (if hit e \<and> delay > 0 then Some delay
        else ticked_timer (store_find (respawn_timers w) e))) \<and>
    controllables w' = controllables w \<and> body_bound w'"
proof -
  obtain w1 w2 where w1: "try_fold tick_respawn_timer (respawn_timers w) w = Inr w1"
    and w2: "try_fold (respawn_eliminated delay) (eliminated_entities_of w1) w1 = Inr w2"
    and w': "w' = erase_body_bound_components_without_body w2"
    using assms(2) by (auto simp: respawn_apply_def try_then_Inr_iff)
  have s: "valid_stores w" using assms(1) by (rule valid_world_stores)
  then have vt: "valid_store (respawn_timers w)" by (simp add: valid_stores_def)
  have "\<forall>(e, n)\<in>set (respawn_timers w). store_find (respawn_timers w) e = Some n"
    using store_find_mem_pair [OF vt] by auto
  from tick_timers_fold [OF vt ascending_distinct [OF valid_store_ascending [OF vt]] this w1]
  have v1: "valid_store (respawn_timers w1)" and frame: "w1 = w\<lparr>respawn_timers := respawn_timers w1\<rparr>"
    and timers: "store_find (respawn_timers w1) x =
      (if x \<in> set (store_ids (respawn_timers w)) then ticked_timer (store_find (respawn_timers w) x)
       else store_find (respawn_timers w) x)" for x by blast+
  have timers1: "store_find (respawn_timers w1) x = ticked_timer (store_find (respawn_timers w) x)" for x
    using timers [of x] stored.ids_find [OF vt, of x] by (auto simp: ticked_timer_def)
  have same: "bodies w1 = bodies w" "controllables w1 = controllables w" "events w1 = events w"
    by (subst frame, simp)+
  have "valid_stores (w\<lparr>respawn_timers := respawn_timers w1\<rparr>)" using s v1 by (simp add: valid_stores_def)
  then have s1: "valid_stores w1" by (subst frame)
  note fold = respawn_fold [OF s1 ascending_distinct [OF eliminated_ascending] w2]
  then have s2: "valid_stores w2" by blast
  have keep: "bodies w' = bodies w2" "respawn_timers w' = respawn_timers w2" "controllables w' = controllables w2"
    by (simp_all add: w' erase_body_bound_components_without_body_def)
  have elim: "x \<in> set (eliminated_entities_of w1) \<longleftrightarrow> EliminationEvent x \<in> set (events w)" for x
    by (simp add: eliminated_mem same)
  have "body_bound w'" unfolding w' by (rule body_bound_sweep [OF s2])
  moreover have "controllables w' = controllables w" using fold keep same by simp
  moreover have "store_find (bodies w') e = (if hit e then None else store_find (bodies w) e) \<and>
      store_find (respawn_timers w') e = (if hit e \<and> delay > 0 then Some delay
        else ticked_timer (store_find (respawn_timers w) e))" for e
    using fold elim [of e] by (auto simp: assms(3) keep same timers1 split: if_splits)
  ultimately show ?thesis by blast
qed

theorem respawn_takes_eliminated_bodies_witness:
  "\<exists>w'. respawn_apply 3 (sample_world\<lparr>events := [EliminationEvent (EntityId 2)],
      respawn_timers := [(EntityId 5, 9)]\<rparr>) = Inr w' \<and>
    store_find (bodies w') (EntityId 2) = None \<and> store_find (respawn_timers w') (EntityId 5) = Some 8"
proof -
  let ?w = "sample_world\<lparr>events := [EliminationEvent (EntityId 2)], respawn_timers := [(EntityId 5, 9)]\<rparr>"
  have "\<exists>w'. respawn_apply 3 ?w = Inr w'"
    by (simp add: respawn_apply_def sample_world_def tick_respawn_timer_def insert_or_assign_def
        store_lower_bound_def less_entity_id_def eliminated_entities_of_def List.map_filter_simps
        respawn_eliminated_def store_find_Cons store_erase_Cons Let_def kMaximumEntityCount_def
        word_le_nat_alt)
  then obtain w' where run: "respawn_apply 3 ?w = Inr w'" by blast
  have "valid_world ?w"
    using sample_world_valid
    by (simp add: valid_world_def valid_stores_def valid_store_def kMaximumEntityCount_def
        kMaximumWorldEventCount_def)
  note spec = respawn_takes_eliminated_bodies [OF this run refl]
  have "carries (controllables ?w) (EntityId 2)" "carries (bodies ?w) (EntityId 2)"
    by (simp_all add: carries_def sample_world_def store_find_Cons)
  then have "store_find (bodies w') (EntityId 2) = None" using spec by simp
  moreover have "ticked_timer (store_find (respawn_timers ?w) (EntityId 5)) = Some 8"
    by (simp add: ticked_timer_def store_find_Cons word_le_nat_alt)
  then have "store_find (respawn_timers w') (EntityId 5) = Some 8" using spec by simp
  ultimately show ?thesis using run by blast
qed

text \<open>
  an ended match is reset exactly once, on its way back to the lobby. On the tick after the
  machine moved from ended to lobby every participant is destroyed and nothing else: the roster keeps
  exactly the entities no controller drives. On every other tick the world is untouched.
\<close>

theorem match_reset_clears_participants:
  assumes "valid_world w"
  shows "if phase (world_match w) = kLobby \<and> previous_phase (world_match w) = kEnded
    then controllables (match_reset_apply w) = [] \<and> world_match (match_reset_apply w) = world_match w \<and>
      entities (match_reset_apply w) = filter (\<lambda>e. \<not> carries (controllables w) e) (entities w)
    else match_reset_apply w = w"
proof (cases "phase (world_match w) = kLobby \<and> previous_phase (world_match w) = kEnded")
  case False
  then show ?thesis by (auto simp: match_reset_apply_def)
next
  case True
  have s: "valid_stores w" using assms by (rule valid_world_stores)
  then have vc: "valid_store (controllables w)" by (simp add: valid_stores_def)
  have r: "match_reset_apply w = fold destroy_entity (participant_entities w) w"
    using True by (simp add: match_reset_apply_def)
  have "filter (\<lambda>e. e \<notin> set (participant_entities w)) (entities w) =
      filter (\<lambda>e. \<not> carries (controllables w) e) (entities w)"
    by (intro filter_cong refl) (simp add: participant_entities_def carries_ids [OF vc])
  then show ?thesis
    using True
    by (simp add: r controllables_destroy_many [OF s] entities_destroy_many [OF s] participant_entities_def)
qed

theorem match_reset_clears_participants_witness:
  "controllables (match_reset_apply (set_match (match_state_initial\<lparr>previous_phase := kEnded\<rparr>) sample_world)) = []"
proof -
  let ?w = "set_match (match_state_initial\<lparr>previous_phase := kEnded\<rparr>) sample_world"
  have "valid_world ?w"
    using sample_world_valid
    by (simp add: set_match_def valid_world_def valid_stores_def)
      (simp add: sample_world_def world_empty_def match_state_initial_def)
  from match_reset_clears_participants [OF this] show ?thesis
    by (simp add: match_state_initial_def)
qed

end
