(* ===== verification/Controller_Directory.thy ===== *)
theory Controller_Directory
  imports Seat_Roster Component_Store
begin

text \<open>
  Who is connected (src/src/runtime/controller_directory.cpp, runtime_limits.hpp) and which bots a
  lobby may seat (src/src/simulation/npc_catalogue.cpp). The directory's \<open>std::map\<close> is an
  association list with distinct keys; nothing in the code depends on its iteration order. The mutex
  makes every operation one atomic step, so each is one function.
\<close>

section \<open>Presentation strings\<close>

definition kMaximumControllerDirectoryEntryCount :: nat where
  "kMaximumControllerDirectoryEntryCount = kMaximumEntityCount"

definition kMaximumControllerKindLength :: nat where "kMaximumControllerKindLength = 64"
definition kMaximumDisplayNameLength :: nat where "kMaximumDisplayNameLength = 64"

text \<open>A byte of a string is a character's code; control characters and DEL are refused.\<close>

definition is_printable_byte :: "char \<Rightarrow> bool" where
  "is_printable_byte c \<longleftrightarrow> \<not> (of_char c < (32 :: nat) \<or> of_char c = (127 :: nat))"

definition is_bounded_printable :: "string \<Rightarrow> nat \<Rightarrow> bool" where
  "is_bounded_printable s n \<longleftrightarrow> \<not> length s > n \<and> list_all is_printable_byte s"

definition is_valid_controller_kind :: "string \<Rightarrow> bool" where
  "is_valid_controller_kind kind \<longleftrightarrow>
     kind \<noteq> [] \<and> is_bounded_printable kind kMaximumControllerKindLength"

definition is_valid_display_name :: "string \<Rightarrow> bool" where
  "is_valid_display_name name \<longleftrightarrow> is_bounded_printable name kMaximumDisplayNameLength"

section \<open>The directory\<close>

record presentation =
  controller_kind :: string
  display_name :: string

type_synonym directory = "(controller_id \<times> presentation) list"

datatype registration_result =
  kRegistered | kRejectedDuplicateControllerId | kRejectedDirectoryFull
| kRejectedControllerKind | kRejectedDisplayName

primrec controller_registration_result_name :: "registration_result \<Rightarrow> string" where
  "controller_registration_result_name kRegistered = ''registered''"
| "controller_registration_result_name kRejectedDuplicateControllerId = ''rejected_duplicate_controller_id''"
| "controller_registration_result_name kRejectedDirectoryFull = ''rejected_directory_full''"
| "controller_registration_result_name kRejectedControllerKind = ''rejected_controller_kind''"
| "controller_registration_result_name kRejectedDisplayName = ''rejected_display_name''"

datatype close_result = kClosed | kUnknownControllerId

primrec controller_close_result_name :: "close_result \<Rightarrow> string" where
  "controller_close_result_name kClosed = ''closed''"
| "controller_close_result_name kUnknownControllerId = ''unknown_controller_id''"

definition directory_find :: "directory \<Rightarrow> controller_id \<Rightarrow> presentation option" where
  "directory_find d c = map_of d c"

definition directory_contains :: "directory \<Rightarrow> controller_id \<Rightarrow> bool" where
  "directory_contains d c \<longleftrightarrow> map_of d c \<noteq> None"

definition register_presentation ::
  "controller_id \<Rightarrow> string \<Rightarrow> string \<Rightarrow> directory \<Rightarrow> registration_result \<times> directory" where
  "register_presentation c kind name d =
     (if \<not> is_valid_controller_kind kind then (kRejectedControllerKind, d)
      else if \<not> is_valid_display_name name then (kRejectedDisplayName, d)
      else if directory_contains d c then (kRejectedDuplicateControllerId, d)
      else if length d \<ge> kMaximumControllerDirectoryEntryCount then (kRejectedDirectoryFull, d)
      else (kRegistered, (c, \<lparr>controller_kind = kind, display_name = name\<rparr>) # d))"

definition directory_close :: "controller_id \<Rightarrow> directory \<Rightarrow> close_result \<times> directory" where
  "directory_close c d =
     (if directory_contains d c then (kClosed, filter (\<lambda>entry. fst entry \<noteq> c) d) else (kUnknownControllerId, d))"

definition open_controllers :: "directory \<Rightarrow> controller_id set" where
  "open_controllers d = fst ` set d"

definition valid_directory :: "directory \<Rightarrow> bool" where
  "valid_directory d \<longleftrightarrow> distinct (map fst d) \<and> length d \<le> kMaximumControllerDirectoryEntryCount \<and>
     (\<forall>(c, p) \<in> set d. is_valid_controller_kind (controller_kind p) \<and> is_valid_display_name (display_name p))"

lemma directory_contains_iff: "directory_contains d c \<longleftrightarrow> c \<in> open_controllers d"
  by (auto simp: directory_contains_def open_controllers_def map_of_eq_None_iff)

lemma register_presentation_valid:
  assumes "valid_directory d" and "register_presentation c kind name d = (res, d')"
  shows "valid_directory d'"
    and "open_controllers d' = (if res = kRegistered then insert c (open_controllers d) else open_controllers d)"
    and "res = kRegistered \<Longrightarrow> c \<notin> open_controllers d \<and> length d' = Suc (length d)"
  using assms
  by (auto simp: register_presentation_def valid_directory_def open_controllers_def directory_contains_def
      map_of_eq_None_iff split: if_splits)

lemma directory_close_valid:
  assumes "valid_directory d" and "directory_close c d = (res, d')"
  shows "valid_directory d'" and "open_controllers d' = open_controllers d - {c}"
    and "res = kClosed \<longleftrightarrow> c \<in> open_controllers d"
proof -
  have d': "d' = filter (\<lambda>entry. fst entry \<noteq> c) d"
    using assms(2) by (auto simp: directory_close_def directory_contains_iff open_controllers_def
        intro!: filter_True [symmetric] split: if_splits)
  have "length d' \<le> length d" by (simp add: d')
  with assms(1) have "length d' \<le> kMaximumControllerDirectoryEntryCount"
    by (simp add: valid_directory_def)
  then show "valid_directory d'"
    using assms(1) by (auto simp: valid_directory_def d' distinct_map_filter)
  show "open_controllers d' = open_controllers d - {c}"
    by (auto simp: d' open_controllers_def)
  show "res = kClosed \<longleftrightarrow> c \<in> open_controllers d"
    using assms(2) by (auto simp: directory_close_def directory_contains_iff split: if_splits)
qed

section \<open>The bot catalogue\<close>

definition kMaximumUnprofiledNpcKindCount :: nat where "kMaximumUnprofiledNpcKindCount = 64"
definition kMaximumNpcProfileCount :: nat where "kMaximumNpcProfileCount = 16"

definition kMaximumNpcCatalogueChoiceCount :: nat where
  "kMaximumNpcCatalogueChoiceCount = kMaximumUnprofiledNpcKindCount + kMaximumNpcProfileCount"

record npc_catalogue =
  unprofiled_kinds :: "string list"
  npc_profiles :: "npc_declaration list"

text \<open>The two validation loops; \<open>seen\<close> is what the inner loop compares with.\<close>

fun check_unprofiled :: "string list \<Rightarrow> string list \<Rightarrow> unit result" where
  "check_unprofiled seen [] = Inr ()"
| "check_unprofiled seen (kind # kinds) =
     try_then (seat_kind_name_create kind) (\<lambda>_.
       if kind \<in> set seen then Inl (SimError kNpcCatalogueDuplicate ''npc_catalogue.unprofiled_kinds'')
       else check_unprofiled (seen @ [kind]) kinds)"

fun check_profiles :: "string list \<Rightarrow> npc_declaration list \<Rightarrow> npc_declaration list \<Rightarrow> unit result" where
  "check_profiles kinds seen [] = Inr ()"
| "check_profiles kinds seen (d # ds) =
     try_then (seat_kind_name_create (declared_kind d)) (\<lambda>_.
       if declared_profile d = None
       then Inl (SimError kNpcCatalogueProfileMissing ''npc_catalogue.profiles'')
       else if declared_kind d \<in> set kinds
       then Inl (SimError kNpcCatalogueMixedKind ''npc_catalogue.profiles'')
       else if d \<in> set seen
       then Inl (SimError kNpcCatalogueDuplicate ''npc_catalogue.profiles'')
       else check_profiles kinds (seen @ [d]) ds)"

definition npc_catalogue_create :: "string list \<Rightarrow> npc_declaration list \<Rightarrow> npc_catalogue result" where
  "npc_catalogue_create kinds profiles =
     (if length kinds > kMaximumUnprofiledNpcKindCount \<or> length profiles > kMaximumNpcProfileCount \<or>
         length kinds + length profiles > kMaximumNpcCatalogueChoiceCount
      then Inl (SimError kNpcCatalogueLimitExceeded ''npc_catalogue'')
      else try_then (check_unprofiled [] kinds) (\<lambda>_.
        try_then (check_profiles kinds [] profiles) (\<lambda>_.
          Inr \<lparr>unprofiled_kinds = kinds, npc_profiles = profiles\<rparr>)))"

definition npc_catalogue_empty :: npc_catalogue where
  "npc_catalogue_empty = \<lparr>unprofiled_kinds = [], npc_profiles = []\<rparr>"

definition catalogue_contains :: "npc_catalogue \<Rightarrow> npc_declaration \<Rightarrow> bool" where
  "catalogue_contains cat d =
     (case declared_profile d of
        None \<Rightarrow> List.member (unprofiled_kinds cat) (declared_kind d)
      | Some profile \<Rightarrow> list_ex (\<lambda>choice. declared_kind choice = declared_kind d \<and>
          declared_profile choice = Some profile) (npc_profiles cat))"

lemma check_unprofiled_Inr:
  "check_unprofiled seen kinds = Inr () \<longleftrightarrow>
     list_all is_wire_kind_name kinds \<and> distinct kinds \<and> set kinds \<inter> set seen = {}"
  by (induction kinds arbitrary: seen) (auto simp: seat_kind_name_create_def)

lemma check_profiles_Inr:
  "check_profiles kinds seen ds = Inr () \<longleftrightarrow>
     (\<forall>d\<in>set ds. is_wire_kind_name (declared_kind d) \<and> declared_profile d \<noteq> None \<and>
        declared_kind d \<notin> set kinds) \<and> distinct ds \<and> set ds \<inter> set seen = {}"
  by (induction ds arbitrary: seen) (auto simp: seat_kind_name_create_def)

lemma npc_declaration_eqI:
  fixes d e :: npc_declaration
  assumes "declared_kind d = declared_kind e" and "declared_profile d = declared_profile e"
  shows "d = e"
  using assms by simp

text \<open>A catalogue offers exactly the choices it was created from, and no kind both ways.\<close>

lemma catalogue_contains_choices:
  assumes "npc_catalogue_create kinds profiles = Inr cat"
  shows "catalogue_contains cat d \<longleftrightarrow>
      d \<in> (\<lambda>kind. \<lparr>declared_kind = kind, declared_profile = None\<rparr>) ` set kinds \<union> set profiles"
    and "(\<forall>d\<in>set profiles. declared_kind d \<notin> set kinds) \<and> distinct kinds \<and> distinct profiles"
proof -
  have cat: "cat = \<lparr>unprofiled_kinds = kinds, npc_profiles = profiles\<rparr>"
    and kinds: "check_unprofiled [] kinds = Inr ()" and profiles: "check_profiles kinds [] profiles = Inr ()"
    using assms by (auto simp: npc_catalogue_create_def try_then_Inr_iff split: if_splits)
  have named: "\<forall>p\<in>set profiles. declared_profile p \<noteq> None"
    using profiles by (simp add: check_profiles_Inr)
  show "(\<forall>d\<in>set profiles. declared_kind d \<notin> set kinds) \<and> distinct kinds \<and> distinct profiles"
    using kinds profiles by (simp add: check_profiles_Inr check_unprofiled_Inr)
  show "catalogue_contains cat d \<longleftrightarrow>
      d \<in> (\<lambda>kind. \<lparr>declared_kind = kind, declared_profile = None\<rparr>) ` set kinds \<union> set profiles"
  proof (cases "declared_profile d")
    case None
    then have "d \<notin> set profiles" using named by auto
    with None show ?thesis
      by (cases d) (auto simp: catalogue_contains_def cat)
  next
    case (Some profile)
    then show ?thesis
      by (auto simp: catalogue_contains_def cat list_ex_iff dest: npc_declaration_eqI [of _ d])
  qed
qed

end
