(* ===== verification/Command_Mailbox.thy ===== *)
theory Command_Mailbox
  imports Kernel_Intake Controller_Directory Entity_Id_Allocator
begin

text \<open>
  The bounded buffer between every command source and one tick (src/src/runtime/command_mailbox.cpp,
  command_mailbox.hpp, command_submission_result.hpp, movement_tuning_result.hpp,
  movement_tuning_result_delivery.cpp). One mutex guards the whole value, so every operation is one
  atomic step and is one function of the mailbox. The clock is an argument: a time point is its count
  of nanoseconds, as \<open>steady_clock\<close> keeps it. The counters are 64-bit and wrap.
\<close>

section \<open>Answers\<close>

datatype submission_result =
  kAccepted | kSupersededPending | kRejectedSessionNotOpen | kRejectedForeignController
| kRejectedUnacceptedKind | kRejectedThrustDirectionOutOfRange | kRejectedUnissuedEntityId
| kDroppedMailboxFull | kRejectedSeatIndexOutOfRange | kRejectedSeatCountOutOfRange
| kRejectedTuningRequestIdReused | kRejectedTuningRequestInFlight
| kRejectedTuningRequestIdOutOfRange | kRejectedTuningRevisionOutOfRange
| kRejectedTuningRateLimited | kRejectedThrustInputGenerationOutOfRange
| kRejectedNpcDeclarationUnknown | kRejectedJoinDeclarationInvalid
| kRejectedShieldInputGenerationOutOfRange | kRejectedChargeDirectionOutOfRange
| kRejectedChargeInputGenerationOutOfRange | kRejectedRotationInputGenerationOutOfRange

definition command_submission_accepted :: "submission_result \<Rightarrow> bool" where
  "command_submission_accepted res \<longleftrightarrow> res = kAccepted \<or> res = kSupersededPending"

text \<open>The stable name of an answer, which the log and the wire carry.\<close>

primrec command_submission_result_name :: "submission_result \<Rightarrow> string" where
  "command_submission_result_name kAccepted = ''accepted''"
| "command_submission_result_name kSupersededPending = ''superseded''"
| "command_submission_result_name kRejectedSessionNotOpen = ''rejected_session_not_open''"
| "command_submission_result_name kRejectedForeignController = ''rejected_foreign_controller''"
| "command_submission_result_name kRejectedUnacceptedKind = ''rejected_unaccepted_kind''"
| "command_submission_result_name kRejectedThrustDirectionOutOfRange = ''rejected_thrust_direction_out_of_range''"
| "command_submission_result_name kRejectedUnissuedEntityId = ''rejected_unissued_entity_id''"
| "command_submission_result_name kDroppedMailboxFull = ''dropped_mailbox_full''"
| "command_submission_result_name kRejectedSeatIndexOutOfRange = ''rejected_seat_index_out_of_range''"
| "command_submission_result_name kRejectedSeatCountOutOfRange = ''rejected_seat_count_out_of_range''"
| "command_submission_result_name kRejectedTuningRequestIdReused = ''rejected_tuning_request_id_reused''"
| "command_submission_result_name kRejectedTuningRequestInFlight = ''rejected_tuning_request_in_flight''"
| "command_submission_result_name kRejectedTuningRequestIdOutOfRange = ''rejected_tuning_request_id_out_of_range''"
| "command_submission_result_name kRejectedTuningRevisionOutOfRange = ''rejected_tuning_revision_out_of_range''"
| "command_submission_result_name kRejectedTuningRateLimited = ''rejected_tuning_rate_limited''"
| "command_submission_result_name kRejectedThrustInputGenerationOutOfRange = ''rejected_thrust_input_generation_out_of_range''"
| "command_submission_result_name kRejectedNpcDeclarationUnknown = ''rejected_npc_declaration_unknown''"
| "command_submission_result_name kRejectedJoinDeclarationInvalid = ''rejected_join_declaration_invalid''"
| "command_submission_result_name kRejectedShieldInputGenerationOutOfRange = ''rejected_shield_input_generation_out_of_range''"
| "command_submission_result_name kRejectedChargeDirectionOutOfRange = ''rejected_charge_direction_out_of_range''"
| "command_submission_result_name kRejectedChargeInputGenerationOutOfRange = ''rejected_charge_input_generation_out_of_range''"
| "command_submission_result_name kRejectedRotationInputGenerationOutOfRange = ''rejected_rotation_input_generation_out_of_range''"

datatype admission_status = kRateLimited | kMailboxFull | kMailboxEvicted

record admission_refusal =
  refused_controller :: controller_id
  refused_request :: u64
  refused_status :: admission_status
  retry_after_milliseconds :: "u64 option"

datatype tuning_result = Decided tuning_decision | Refused admission_refusal

primrec result_request :: "tuning_result \<Rightarrow> u64" where
  "result_request (Decided d) = decided_request d"
| "result_request (Refused f) = refused_request f"

definition kMovementTuningMinimumIntervalMilliseconds :: u64 where
  "kMovementTuningMinimumIntervalMilliseconds = 500"

section \<open>The mailbox\<close>

definition is_entity_lifecycle_command :: "command_kind \<Rightarrow> bool" where
  "is_entity_lifecycle_command kind \<longleftrightarrow> kind \<in> {kSpawn, kDespawn, kLeave, kJoin}"

text \<open>The counters the mailbox stores. The occupancy counts are computed when it is observed.\<close>

record mailbox_counters =
  submitted_command_count :: u64
  accepted_command_count :: u64
  superseded_command_count :: u64
  dropped_command_count :: u64
  dropped_entity_lifecycle_command_count :: u64
  rejected_unaccepted_kind_count :: u64
  drain_count :: u64
  drained_command_count :: u64
  rejected_tuning_command_count :: u64
  rate_limited_tuning_command_count :: u64

record exchange =
  exchange_controller :: controller_id
  request_high_water :: u64
  next_eligible_at :: "int option"
  exchange_request :: "u64 option"
  exchange_result :: "tuning_result option"

record mailbox =
  accepted_kinds :: command_kind_mask
  pending :: "command list"
  exchanges :: "exchange list"
  counters :: mailbox_counters

definition no_counters :: mailbox_counters where
  "no_counters =
     \<lparr>submitted_command_count = 0, accepted_command_count = 0, superseded_command_count = 0,
      dropped_command_count = 0, dropped_entity_lifecycle_command_count = 0,
      rejected_unaccepted_kind_count = 0, drain_count = 0, drained_command_count = 0,
      rejected_tuning_command_count = 0, rate_limited_tuning_command_count = 0\<rparr>"

definition mailbox_create :: "command_kind_mask \<Rightarrow> mailbox" where
  "mailbox_create accepted = \<lparr>accepted_kinds = accepted, pending = [], exchanges = [], counters = no_counters\<rparr>"

definition tally :: "(mailbox_counters \<Rightarrow> mailbox_counters) \<Rightarrow> mailbox \<Rightarrow> mailbox" where
  "tally f mb = mb\<lparr>counters := f (counters mb)\<rparr>"

text \<open>One increment per counter.\<close>

definition count_submitted :: "mailbox_counters \<Rightarrow> mailbox_counters" where
  "count_submitted s = s\<lparr>submitted_command_count := submitted_command_count s + 1\<rparr>"
definition count_accepted :: "mailbox_counters \<Rightarrow> mailbox_counters" where
  "count_accepted s = s\<lparr>accepted_command_count := accepted_command_count s + 1\<rparr>"
definition count_superseded :: "mailbox_counters \<Rightarrow> mailbox_counters" where
  "count_superseded s = s\<lparr>superseded_command_count := superseded_command_count s + 1\<rparr>"
definition count_dropped :: "mailbox_counters \<Rightarrow> mailbox_counters" where
  "count_dropped s = s\<lparr>dropped_command_count := dropped_command_count s + 1\<rparr>"
definition count_dropped_lifecycle :: "mailbox_counters \<Rightarrow> mailbox_counters" where
  "count_dropped_lifecycle s =
     s\<lparr>dropped_entity_lifecycle_command_count := dropped_entity_lifecycle_command_count s + 1\<rparr>"
definition count_unaccepted :: "mailbox_counters \<Rightarrow> mailbox_counters" where
  "count_unaccepted s = s\<lparr>rejected_unaccepted_kind_count := rejected_unaccepted_kind_count s + 1\<rparr>"
definition count_rejected_tuning :: "mailbox_counters \<Rightarrow> mailbox_counters" where
  "count_rejected_tuning s = s\<lparr>rejected_tuning_command_count := rejected_tuning_command_count s + 1\<rparr>"
definition count_rate_limited :: "mailbox_counters \<Rightarrow> mailbox_counters" where
  "count_rate_limited s =
     s\<lparr>rate_limited_tuning_command_count := rate_limited_tuning_command_count s + 1\<rparr>"

section \<open>Scans\<close>

text \<open>The index of the first element that satisfies \<open>P\<close>, or the length.\<close>

definition index_or_size :: "('a \<Rightarrow> bool) \<Rightarrow> 'a list \<Rightarrow> nat" where
  "index_or_size P xs = (case first_index P xs of Some i \<Rightarrow> i | None \<Rightarrow> length xs)"

definition find_pending_slot :: "command_kind \<Rightarrow> u64 \<Rightarrow> command list \<Rightarrow> nat" where
  "find_pending_slot kind key =
     index_or_size (\<lambda>c. command_kind_of c = kind \<and> ordering_key (addressed_identity_of c) = key)"

definition find_evictable_slot :: "command list \<Rightarrow> nat" where
  "find_evictable_slot = index_or_size (\<lambda>c. \<not> is_entity_lifecycle_command (command_kind_of c))"

definition find_exchange :: "controller_id \<Rightarrow> exchange list \<Rightarrow> exchange option" where
  "find_exchange c exs = List.find (\<lambda>x. exchange_controller x = c) exs"

text \<open>A write through the pointer \<open>find_exchange_locked\<close> returns: the first match is rewritten.\<close>

fun modify_exchange :: "controller_id \<Rightarrow> (exchange \<Rightarrow> exchange) \<Rightarrow> exchange list \<Rightarrow> exchange list" where
  "modify_exchange c f [] = []"
| "modify_exchange c f (x # xs) =
     (if exchange_controller x = c then f x # xs else x # modify_exchange c f xs)"

fun erase_exchange :: "controller_id \<Rightarrow> exchange list \<Rightarrow> exchange list" where
  "erase_exchange c [] = []"
| "erase_exchange c (x # xs) = (if exchange_controller x = c then xs else x # erase_exchange c xs)"

section \<open>Operations\<close>

text \<open>An answer is recorded only for the request that is pending, and only once.\<close>

definition answer :: "controller_id \<Rightarrow> u64 \<Rightarrow> tuning_result \<Rightarrow> exchange list \<Rightarrow> exchange list" where
  "answer c request res exs =
     (case find_exchange c exs of
        None \<Rightarrow> exs
      | Some x \<Rightarrow>
          if exchange_request x = Some request \<and> exchange_result x = None
          then modify_exchange c (\<lambda>x. x\<lparr>exchange_result := Some res\<rparr>) exs else exs)"

fun record_tuning_eviction :: "command \<Rightarrow> mailbox \<Rightarrow> mailbox" where
  "record_tuning_eviction (SetMovementTuningCommand c request expected tuning) mb =
     mb\<lparr>exchanges := answer c request (Refused \<lparr>refused_controller = c, refused_request = request,
          refused_status = kMailboxEvicted, retry_after_milliseconds = None\<rparr>) (exchanges mb)\<rparr>"
| "record_tuning_eviction command mb = mb"

definition submit_locked :: "command \<Rightarrow> mailbox \<Rightarrow> submission_result \<times> mailbox" where
  "submit_locked c mb =
     (let kind = command_kind_of c;
          slot = find_pending_slot kind (ordering_key (addressed_identity_of c)) (pending mb)
      in if \<not> mask_contains (accepted_kinds mb) kind
         then (kRejectedUnacceptedKind, tally count_unaccepted mb)
         else if slot \<noteq> length (pending mb)
         then (kSupersededPending,
               tally (count_superseded \<circ> count_accepted) (mb\<lparr>pending := (pending mb)[slot := c]\<rparr>))
         else if length (pending mb) < kMaximumMailboxCommandCount
         then (kAccepted, tally count_accepted (mb\<lparr>pending := pending mb @ [c]\<rparr>))
         else if is_entity_lifecycle_command kind
         then let evictable = find_evictable_slot (pending mb) in
           if evictable \<noteq> length (pending mb)
           then (kAccepted, tally (count_dropped \<circ> count_accepted)
                  ((record_tuning_eviction (pending mb ! evictable) mb)
                    \<lparr>pending := take evictable (pending mb) @ drop (Suc evictable) (pending mb) @ [c]\<rparr>))
           else (kDroppedMailboxFull, tally (count_dropped_lifecycle \<circ> count_dropped) mb)
         else (kDroppedMailboxFull, tally count_dropped mb))"

definition retry_after :: "int \<Rightarrow> int \<Rightarrow> u64" where
  "retry_after eligible now =
     (let remaining = word_of_int (- ((- (eligible - now)) div 1000000)) in
      if remaining < 1 then 1
      else if remaining > kMovementTuningMinimumIntervalMilliseconds
      then kMovementTuningMinimumIntervalMilliseconds else remaining)"

text \<open>An eligible request: the exchange takes it, the deadline starts, and a full mailbox is an answer.
  A tuning command evicts nothing, so the exchange written after the insertion is the same one.\<close>

definition admit_tuning ::
  "controller_id \<Rightarrow> u64 \<Rightarrow> u64 \<Rightarrow> movement_tuning \<Rightarrow> int \<Rightarrow> mailbox \<Rightarrow> submission_result \<times> mailbox" where
  "admit_tuning c request expected tuning now mb =
     (let (res, mb') = submit_locked (SetMovementTuningCommand c request expected tuning)
            (mb\<lparr>exchanges := modify_exchange c (\<lambda>x. x\<lparr>request_high_water := request,
               exchange_request := Some request,
               next_eligible_at := Some (now + uint kMovementTuningMinimumIntervalMilliseconds * 1000000)\<rparr>)
               (exchanges mb)\<rparr>)
      in if res = kDroppedMailboxFull
         then (res, mb'\<lparr>exchanges := modify_exchange c (\<lambda>x. x\<lparr>exchange_result := Some (Refused
                \<lparr>refused_controller = c, refused_request = request, refused_status = kMailboxFull,
                 retry_after_milliseconds = None\<rparr>)\<rparr>) (exchanges mb')\<rparr>)
         else (res, mb'))"

definition submit_tuning ::
  "controller_id \<Rightarrow> u64 \<Rightarrow> u64 \<Rightarrow> movement_tuning \<Rightarrow> int \<Rightarrow> mailbox \<Rightarrow> submission_result \<times> mailbox" where
  "submit_tuning c request expected tuning now mb0 =
     (let mb = tally count_submitted mb0; refuse = (\<lambda>res. (res, tally count_rejected_tuning mb)) in
      if \<not> mask_contains (accepted_kinds mb) kSetMovementTuning
      then (kRejectedUnacceptedKind, tally count_unaccepted mb)
      else case find_exchange c (exchanges mb) of
        None \<Rightarrow> refuse kRejectedSessionNotOpen
      | Some x \<Rightarrow>
          if request = 0 \<or> request > kMaximumProtocolSafeInteger
          then refuse kRejectedTuningRequestIdOutOfRange
          else if expected > kMaximumProtocolSafeInteger
          then refuse kRejectedTuningRevisionOutOfRange
          else if request \<le> request_high_water x
          then refuse kRejectedTuningRequestIdReused
          else if exchange_request x \<noteq> None
          then (kRejectedTuningRequestInFlight, tally count_rejected_tuning
                 (mb\<lparr>exchanges := modify_exchange c (\<lambda>x. x\<lparr>request_high_water := request\<rparr>) (exchanges mb)\<rparr>))
          else case next_eligible_at x of
            Some eligible \<Rightarrow>
              if now < eligible
              then (kRejectedTuningRateLimited, tally count_rate_limited
                     (mb\<lparr>exchanges := modify_exchange c (\<lambda>x. x\<lparr>request_high_water := request,
                        exchange_request := Some request,
                        exchange_result := Some (Refused \<lparr>refused_controller = c,
                          refused_request = request, refused_status = kRateLimited,
                          retry_after_milliseconds = Some (retry_after eligible now)\<rparr>)\<rparr>) (exchanges mb)\<rparr>))
              else admit_tuning c request expected tuning now mb
          | None \<Rightarrow> admit_tuning c request expected tuning now mb)"

fun submit :: "int \<Rightarrow> command \<Rightarrow> mailbox \<Rightarrow> submission_result \<times> mailbox" where
  "submit now (SetMovementTuningCommand c request expected tuning) mb =
     submit_tuning c request expected tuning now mb"
| "submit now command mb = submit_locked command (tally count_submitted mb)"

definition drain :: "mailbox \<Rightarrow> command list \<times> mailbox" where
  "drain mb = (pending mb,
     tally (\<lambda>s. s\<lparr>drain_count := drain_count s + 1,
                  drained_command_count := drained_command_count s + word_of_nat (length (pending mb))\<rparr>)
       (mb\<lparr>pending := []\<rparr>))"

definition register_exchange :: "controller_id \<Rightarrow> mailbox \<Rightarrow> bool \<times> mailbox" where
  "register_exchange c mb =
     (if find_exchange c (exchanges mb) \<noteq> None \<or>
         length (exchanges mb) = kMaximumControllerDirectoryEntryCount
      then (False, mb)
      else (True, mb\<lparr>exchanges := exchanges mb @
         [\<lparr>exchange_controller = c, request_high_water = 0, next_eligible_at = None,
           exchange_request = None, exchange_result = None\<rparr>]\<rparr>))"

definition retire_exchange :: "controller_id \<Rightarrow> mailbox \<Rightarrow> bool \<times> mailbox" where
  "retire_exchange c mb =
     (if find_exchange c (exchanges mb) = None then (False, mb)
      else (True, snd (submit_locked (LeaveCommand c)
        (tally count_submitted (mb\<lparr>exchanges := erase_exchange c (exchanges mb)\<rparr>)))))"

definition complete_tuning_decisions :: "tuning_decision list \<Rightarrow> mailbox \<Rightarrow> mailbox" where
  "complete_tuning_decisions ds mb =
     mb\<lparr>exchanges := fold (\<lambda>d. answer (decided_controller d) (decided_request d) (Decided d)) ds (exchanges mb)\<rparr>"

definition covered :: "tuning_result \<Rightarrow> tick \<Rightarrow> bool" where
  "covered res covering \<longleftrightarrow> (case res of Decided d \<Rightarrow> \<not> decision_tick d > covering | Refused f \<Rightarrow> True)"

definition claim_tuning_result :: "controller_id \<Rightarrow> tick \<Rightarrow> mailbox \<Rightarrow> tuning_result option \<times> mailbox" where
  "claim_tuning_result c covering mb =
     (case find_exchange c (exchanges mb) of
        None \<Rightarrow> (None, mb)
      | Some x \<Rightarrow>
          (case exchange_result x of
             None \<Rightarrow> (None, mb)
           | Some res \<Rightarrow>
               if covered res covering
               then (Some res, mb\<lparr>exchanges := modify_exchange c
                      (\<lambda>x. x\<lparr>exchange_result := None, exchange_request := None\<rparr>) (exchanges mb)\<rparr>)
               else (None, mb)))"

record mailbox_observation = mailbox_counters +
  pending_command_count :: nat
  open_tuning_exchange_count :: nat
  unresolved_tuning_exchange_count :: nat

definition observe :: "mailbox \<Rightarrow> mailbox_observation" where
  "observe mb = mailbox_counters.extend (counters mb)
     (mailbox_observation.fields (length (pending mb)) (length (exchanges mb))
       (length (filter (\<lambda>x. exchange_request x \<noteq> None) (exchanges mb))))"

section \<open>Reading the operations\<close>

lemma tally_simps [simp]:
  "pending (tally f mb) = pending mb" "exchanges (tally f mb) = exchanges mb"
  "accepted_kinds (tally f mb) = accepted_kinds mb" "counters (tally f mb) = f (counters mb)"
  by (simp_all add: tally_def)

lemma index_or_size_cases:
  obtains "index_or_size P xs = length xs" "\<forall>x\<in>set xs. \<not> P x"
  | "index_or_size P xs < length xs" "P (xs ! index_or_size P xs)"
proof (cases "first_index P xs")
  case None
  then have "\<forall>x\<in>set xs. \<not> P x" by (simp only: first_index_None)
  then show ?thesis using None that(1) by (simp add: index_or_size_def)
next
  case (Some i)
  then have "i < length xs \<and> P (xs ! i)" unfolding first_index_Some by blast
  then show ?thesis using Some that(2) by (simp add: index_or_size_def)
qed

lemma index_or_size_none: "index_or_size P xs = length xs \<longleftrightarrow> (\<forall>x\<in>set xs. \<not> P x)"
  by (rule index_or_size_cases [of P xs]) auto

lemma index_or_size_some:
  "index_or_size P xs \<noteq> length xs \<Longrightarrow> index_or_size P xs < length xs \<and> P (xs ! index_or_size P xs)"
  by (rule index_or_size_cases [of P xs]) auto

lemma pending_slot_iff:
  "command_kind_of d = command_kind_of c \<and>
     ordering_key (addressed_identity_of d) = ordering_key (addressed_identity_of c) \<longleftrightarrow>
   command_slot d = command_slot c"
  by (simp add: command_slot_def application_rank_inj)

lemma record_tuning_eviction_simps [simp]:
  "pending (record_tuning_eviction c mb) = pending mb"
  "accepted_kinds (record_tuning_eviction c mb) = accepted_kinds mb"
  "counters (record_tuning_eviction c mb) = counters mb"
  by (cases c; simp)+

lemma submit_locked_cases [consumes 1, case_names unaccepted superseded appended evicted full]:
  assumes "submit_locked c mb = (res, mb')"
  obtains (unaccepted) "\<not> mask_contains (accepted_kinds mb) (command_kind_of c)"
      "res = kRejectedUnacceptedKind" "mb' = tally count_unaccepted mb"
  | (superseded) i where "mask_contains (accepted_kinds mb) (command_kind_of c)"
      "i < length (pending mb)" "command_slot (pending mb ! i) = command_slot c"
      "res = kSupersededPending"
      "mb' = tally (count_superseded \<circ> count_accepted) (mb\<lparr>pending := (pending mb)[i := c]\<rparr>)"
  | (appended) "mask_contains (accepted_kinds mb) (command_kind_of c)"
      "command_slot c \<notin> command_slot ` set (pending mb)"
      "length (pending mb) < kMaximumMailboxCommandCount" "res = kAccepted"
      "mb' = tally count_accepted (mb\<lparr>pending := pending mb @ [c]\<rparr>)"
  | (evicted) i where "mask_contains (accepted_kinds mb) (command_kind_of c)"
      "command_slot c \<notin> command_slot ` set (pending mb)"
      "length (pending mb) \<ge> kMaximumMailboxCommandCount"
      "is_entity_lifecycle_command (command_kind_of c)"
      "i < length (pending mb)" "\<not> is_entity_lifecycle_command (command_kind_of (pending mb ! i))"
      "res = kAccepted"
      "mb' = tally (count_dropped \<circ> count_accepted) ((record_tuning_eviction (pending mb ! i) mb)
         \<lparr>pending := take i (pending mb) @ drop (Suc i) (pending mb) @ [c]\<rparr>)"
  | (full) "mask_contains (accepted_kinds mb) (command_kind_of c)"
      "command_slot c \<notin> command_slot ` set (pending mb)"
      "length (pending mb) \<ge> kMaximumMailboxCommandCount"
      "is_entity_lifecycle_command (command_kind_of c) \<longrightarrow>
         (\<forall>d\<in>set (pending mb). is_entity_lifecycle_command (command_kind_of d))"
      "res = kDroppedMailboxFull"
      "mb' = tally (if is_entity_lifecycle_command (command_kind_of c)
         then count_dropped_lifecycle \<circ> count_dropped else count_dropped) mb"
proof -
  define slot where "slot = find_pending_slot (command_kind_of c)
    (ordering_key (addressed_identity_of c)) (pending mb)"
  define ev where "ev = find_evictable_slot (pending mb)"
  note unfold = assms [unfolded submit_locked_def Let_def, folded slot_def ev_def]
  have found: "slot \<noteq> length (pending mb) \<Longrightarrow>
      slot < length (pending mb) \<and> command_slot (pending mb ! slot) = command_slot c"
    using index_or_size_some [of "\<lambda>d. command_kind_of d = command_kind_of c \<and>
        ordering_key (addressed_identity_of d) = ordering_key (addressed_identity_of c)" "pending mb"]
    by (simp add: slot_def find_pending_slot_def pending_slot_iff)
  have absent: "slot = length (pending mb) \<Longrightarrow> command_slot c \<notin> command_slot ` set (pending mb)"
    by (auto simp: slot_def find_pending_slot_def index_or_size_none pending_slot_iff)
  have evictable: "ev \<noteq> length (pending mb) \<Longrightarrow>
      ev < length (pending mb) \<and> \<not> is_entity_lifecycle_command (command_kind_of (pending mb ! ev))"
    using index_or_size_some [of "\<lambda>c. \<not> is_entity_lifecycle_command (command_kind_of c)" "pending mb"]
    by (simp add: ev_def find_evictable_slot_def)
  have none: "ev = length (pending mb) \<Longrightarrow>
      \<forall>d\<in>set (pending mb). is_entity_lifecycle_command (command_kind_of d)"
    by (simp add: ev_def find_evictable_slot_def index_or_size_none)
  consider "\<not> mask_contains (accepted_kinds mb) (command_kind_of c)"
    | "mask_contains (accepted_kinds mb) (command_kind_of c)" "slot \<noteq> length (pending mb)"
    | "mask_contains (accepted_kinds mb) (command_kind_of c)" "slot = length (pending mb)"
      "length (pending mb) < kMaximumMailboxCommandCount"
    | "mask_contains (accepted_kinds mb) (command_kind_of c)" "slot = length (pending mb)"
      "\<not> length (pending mb) < kMaximumMailboxCommandCount"
      "is_entity_lifecycle_command (command_kind_of c)" "ev \<noteq> length (pending mb)"
    | "mask_contains (accepted_kinds mb) (command_kind_of c)" "slot = length (pending mb)"
      "\<not> length (pending mb) < kMaximumMailboxCommandCount"
      "is_entity_lifecycle_command (command_kind_of c) \<longrightarrow> ev = length (pending mb)"
    by blast
  then show thesis
  proof cases
    case 1
    with unfold show ?thesis by (intro unaccepted) simp_all
  next
    case 2
    with unfold found show ?thesis by (intro superseded [of slot]) simp_all
  next
    case 3
    with unfold absent show ?thesis by (intro appended) simp_all
  next
    case 4
    with unfold absent evictable show ?thesis by (intro evicted [of ev]) simp_all
  next
    case 5
    with unfold absent none show ?thesis by (intro full) (simp_all split: if_splits)
  qed
qed

section \<open>What the pending buffer holds\<close>

text \<open>The buffer as a map from slots (a kind and an addressed identity) to commands.\<close>

definition pending_map :: "command list \<Rightarrow> nat \<times> u64 \<Rightarrow> command option" where
  "pending_map ps = map_of (slotted ps)"

definition valid_pending :: "mailbox \<Rightarrow> bool" where
  "valid_pending mb \<longleftrightarrow> distinct (map command_slot (pending mb)) \<and>
     length (pending mb) \<le> kMaximumMailboxCommandCount \<and>
     (\<forall>c\<in>set (pending mb). mask_contains (accepted_kinds mb) (command_kind_of c))"

lemma pending_map_iff:
  assumes "distinct (map command_slot ps)"
  shows "pending_map ps k = Some c \<longleftrightarrow> c \<in> set ps \<and> command_slot c = k"
proof -
  have "distinct (map fst (slotted ps))" using assms by (simp add: slotted_def comp_def)
  then have "pending_map ps k = Some c \<longleftrightarrow> (k, c) \<in> set (slotted ps)"
    by (simp add: pending_map_def)
  then show ?thesis by (auto simp: slotted_def)
qed

lemma pending_map_ext:
  assumes "distinct (map command_slot ps)"
    and "\<And>k c. m k = Some c \<longleftrightarrow> c \<in> set ps \<and> command_slot c = k"
  shows "pending_map ps = m"
proof
  fix k
  have "pending_map ps k = Some c \<longleftrightarrow> m k = Some c" for c
    using assms by (simp only: pending_map_iff)
  then show "pending_map ps k = m k" by (metis not_Some_eq)
qed

lemma pending_map_append:
  assumes "distinct (map command_slot ps)" and "command_slot c \<notin> command_slot ` set ps"
  shows "pending_map (ps @ [c]) = (pending_map ps)(command_slot c \<mapsto> c)"
proof (rule pending_map_ext)
  show "distinct (map command_slot (ps @ [c]))" using assms by auto
  show "((pending_map ps)(command_slot c \<mapsto> c)) k = Some d \<longleftrightarrow> d \<in> set (ps @ [c]) \<and> command_slot d = k" for k d
  proof -
    have "d \<in> set ps \<Longrightarrow> command_slot d \<noteq> command_slot c" using assms(2) by (metis image_eqI)
    then show ?thesis using assms(1) by (auto simp: pending_map_iff)
  qed
qed

lemma slots_update:
  "i < length ps \<Longrightarrow> command_slot (ps ! i) = command_slot c \<Longrightarrow>
     map command_slot (ps[i := c]) = map command_slot ps"
  by (simp add: map_update list_update_same_conv)

lemma set_update_slot:
  assumes "distinct (map command_slot ps)" and "i < length ps" and "command_slot (ps ! i) = command_slot c"
  shows "d \<in> set (ps[i := c]) \<longleftrightarrow> d = c \<or> d \<in> set ps \<and> command_slot d \<noteq> command_slot c"
proof
  assume "d \<in> set (ps[i := c])"
  then obtain j where j: "j < length ps" "d = ps[i := c] ! j" by (auto simp: in_set_conv_nth)
  show "d = c \<or> d \<in> set ps \<and> command_slot d \<noteq> command_slot c"
  proof (cases "j = i")
    case True
    with j show ?thesis by simp
  next
    case False
    then have "command_slot (ps ! j) \<noteq> command_slot (ps ! i)"
      using assms(1,2) j by (auto simp: distinct_conv_nth)
    with False j assms(3) show ?thesis by simp
  qed
next
  assume "d = c \<or> d \<in> set ps \<and> command_slot d \<noteq> command_slot c"
  then show "d \<in> set (ps[i := c])"
  proof
    assume "d = c"
    with assms(2) show ?thesis by (metis length_list_update nth_list_update_eq nth_mem)
  next
    assume d: "d \<in> set ps \<and> command_slot d \<noteq> command_slot c"
    then obtain j where "j < length ps" "ps ! j = d" by (auto simp: in_set_conv_nth)
    moreover from this d assms(3) have "j \<noteq> i" by auto
    ultimately have "ps[i := c] ! j = d" "j < length (ps[i := c])" by auto
    then show ?thesis by (metis nth_mem)
  qed
qed

lemma pending_map_update:
  assumes "distinct (map command_slot ps)" and "i < length ps" and "command_slot (ps ! i) = command_slot c"
  shows "pending_map (ps[i := c]) = (pending_map ps)(command_slot c \<mapsto> c)"
proof (rule pending_map_ext)
  show "distinct (map command_slot (ps[i := c]))" using assms by (simp add: slots_update)
  show "((pending_map ps)(command_slot c \<mapsto> c)) k = Some d \<longleftrightarrow> d \<in> set (ps[i := c]) \<and> command_slot d = k" for k d
    using assms(1) unfolding set_update_slot [OF assms] by (auto simp: pending_map_iff)
qed

lemma without_index:
  assumes "i < length ps"
  shows "set (take i ps @ drop (Suc i) ps) \<subseteq> set ps"
    and "mset ps = add_mset (ps ! i) (mset (take i ps @ drop (Suc i) ps))"
    and "length (take i ps @ drop (Suc i) ps) = length ps - 1"
proof -
  have split: "ps = take i ps @ ps ! i # drop (Suc i) ps" by (rule id_take_nth_drop [OF assms])
  show "mset ps = add_mset (ps ! i) (mset (take i ps @ drop (Suc i) ps))"
    by (subst split) simp
  then show "set (take i ps @ drop (Suc i) ps) \<subseteq> set ps"
    by (metis set_mset_add_mset_insert set_mset_mset subset_insertI)
  show "length (take i ps @ drop (Suc i) ps) = length ps - 1" using assms by simp
qed

lemma distinct_without_index:
  assumes "distinct (map f ps)" and "i < length ps"
  shows "distinct (map f (take i ps @ drop (Suc i) ps))"
    and "f (ps ! i) \<notin> f ` set (take i ps @ drop (Suc i) ps)"
proof -
  have "map f ps = map f (take i ps) @ f (ps ! i) # map f (drop (Suc i) ps)"
    using id_take_nth_drop [OF assms(2)] by (metis list.simps(9) map_append)
  with assms(1) show "distinct (map f (take i ps @ drop (Suc i) ps))"
    and "f (ps ! i) \<notin> f ` set (take i ps @ drop (Suc i) ps)" by auto
qed

lemma pending_map_without:
  assumes "distinct (map command_slot ps)" and "distinct (map command_slot qs)"
    and "\<And>x. x \<in> set qs \<longleftrightarrow> x \<in> set ps \<and> command_slot x \<noteq> k0"
  shows "pending_map qs = pending_map ps |` (- {k0})"
proof (rule pending_map_ext [OF assms(2)])
  fix k c
  show "(pending_map ps |` (- {k0})) k = Some c \<longleftrightarrow> c \<in> set qs \<and> command_slot c = k"
    unfolding assms(3) using assms(1) by (auto simp: restrict_map_def pending_map_iff)
qed

lemma remaining_keys:
  assumes "f d \<notin> f ` S" and "\<And>x. x \<in> P \<longleftrightarrow> x = d \<or> x \<in> S"
  shows "x \<in> S \<longleftrightarrow> x \<in> P \<and> f x \<noteq> f d"
proof -
  have "x \<in> S \<Longrightarrow> f x \<noteq> f d" using assms(1) imageI [of x S f] by argo
  then show ?thesis using assms(2) [of x] by blast
qed

lemma submit_locked_valid:
  assumes "valid_pending mb" and "submit_locked c mb = (res, mb')"
  shows "valid_pending mb' \<and> accepted_kinds mb' = accepted_kinds mb"
  using assms(2)
proof (cases rule: submit_locked_cases)
  case (superseded i)
  have "\<forall>d\<in>set ((pending mb)[i := c]). d = c \<or> d \<in> set (pending mb)"
    using set_update_subset_insert by fastforce
  with superseded assms(1) show ?thesis
    by (auto simp: valid_pending_def slots_update)
next
  case (evicted i)
  let ?ps = "take i (pending mb) @ drop (Suc i) (pending mb)"
  have "command_slot c \<notin> command_slot ` set ?ps" "set ?ps \<subseteq> set (pending mb)"
    using evicted without_index(1) [of i "pending mb"] by auto
  moreover have "length ?ps < length (pending mb)"
    using evicted by simp
  moreover have "distinct (map command_slot ?ps)"
    using evicted assms(1) by (intro distinct_without_index) (simp_all add: valid_pending_def)
  ultimately show ?thesis
    using evicted(1,8) assms(1) by (auto simp: valid_pending_def)
qed (use assms(1) in \<open>auto simp: valid_pending_def\<close>)

text \<open>An accepted command is stored in its slot; at most one other slot is given up for it, and never
  one of a lifecycle command.\<close>

lemma submit_locked_map:
  assumes v: "valid_pending mb" and s: "submit_locked c mb = (res, mb')"
  shows "if command_submission_accepted res
    then (\<exists>lost. pending_map (pending mb') = (pending_map (pending mb) |` (- lost))(command_slot c \<mapsto> c) \<and>
      (lost = {} \<or> length (pending mb) = kMaximumMailboxCommandCount \<and>
        is_entity_lifecycle_command (command_kind_of c) \<and> command_slot c \<notin> command_slot ` set (pending mb) \<and>
        (\<exists>d\<in>set (pending mb). lost = {command_slot d} \<and>
           \<not> is_entity_lifecycle_command (command_kind_of d))))
    else pending mb' = pending mb"
  using s
proof (cases rule: submit_locked_cases)
  case (superseded i)
  with v have "pending_map (pending mb') = (pending_map (pending mb))(command_slot c \<mapsto> c)"
    by (simp add: pending_map_update valid_pending_def)
  with superseded show ?thesis by (auto simp: command_submission_accepted_def intro!: exI [of _ "{}"])
next
  case appended
  then have "pending_map (pending mb') = (pending_map (pending mb))(command_slot c \<mapsto> c)"
    using v by (simp add: pending_map_append valid_pending_def)
  with appended show ?thesis by (auto simp: command_submission_accepted_def intro!: exI [of _ "{}"])
next
  case (evicted i)
  let ?ps = "take i (pending mb) @ drop (Suc i) (pending mb)" and ?d = "pending mb ! i"
  have dist: "distinct (map command_slot (pending mb))" using v by (simp add: valid_pending_def)
  have parts: "command_slot ?d \<notin> command_slot ` set ?ps" "distinct (map command_slot ?ps)"
    using distinct_without_index [OF dist evicted(5)] by blast+
  have mem: "x \<in> set (pending mb) \<longleftrightarrow> x = ?d \<or> x \<in> set ?ps" for x
    using without_index(2) [OF evicted(5)] by (metis insert_iff set_mset_add_mset_insert set_mset_mset)
  have "x \<in> set ?ps \<longleftrightarrow> x \<in> set (pending mb) \<and> command_slot x \<noteq> command_slot ?d" for x
    by (rule remaining_keys [OF parts(1) mem])
  then have "pending_map ?ps = pending_map (pending mb) |` (- {command_slot ?d})"
    by (rule pending_map_without [OF dist parts(2)])
  moreover have "command_slot c \<notin> command_slot ` set ?ps"
    using evicted without_index(1) [of i "pending mb"] by auto
  ultimately have "pending_map (pending mb') =
      (pending_map (pending mb) |` (- {command_slot ?d}))(command_slot c \<mapsto> c)"
    using evicted(8) pending_map_append [of ?ps c] parts(2) by simp
  moreover have "length (pending mb) = kMaximumMailboxCommandCount"
    using evicted v by (simp add: valid_pending_def)
  ultimately show ?thesis using evicted nth_mem [OF evicted(5)]
    by (auto simp: command_submission_accepted_def intro!: exI [of _ "{command_slot ?d}"])
qed (auto simp: command_submission_accepted_def)

section \<open>Runs of the mailbox\<close>

datatype mailbox_op =
    Submit int command
  | Register controller_id
  | Retire controller_id
  | Drain
  | Complete "tuning_decision list"
  | Claim controller_id tick

primrec mailbox_apply :: "mailbox_op \<Rightarrow> mailbox \<Rightarrow> mailbox" where
  "mailbox_apply (Submit now c) mb = snd (submit now c mb)"
| "mailbox_apply (Register c) mb = snd (register_exchange c mb)"
| "mailbox_apply (Retire c) mb = snd (retire_exchange c mb)"
| "mailbox_apply Drain mb = snd (drain mb)"
| "mailbox_apply (Complete ds) mb = complete_tuning_decisions ds mb"
| "mailbox_apply (Claim c covering) mb = snd (claim_tuning_result c covering mb)"

definition mailbox_run :: "mailbox_op list \<Rightarrow> mailbox \<Rightarrow> mailbox" where
  "mailbox_run ops mb = fold mailbox_apply ops mb"

lemma mailbox_run_simps [simp]:
  "mailbox_run [] mb = mb"
  "mailbox_run (op # ops) mb = mailbox_run ops (mailbox_apply op mb)"
  by (simp_all add: mailbox_run_def)

lemma mailbox_run_invariant:
  assumes "P mb" and "\<And>op mb. P mb \<Longrightarrow> P (mailbox_apply op mb)"
  shows "P (mailbox_run ops mb)"
  using assms by (induction ops arbitrary: mb) simp_all

lemma submit_not_tuning:
  "command_kind_of c \<noteq> kSetMovementTuning \<Longrightarrow> submit now c mb = submit_locked c (tally count_submitted mb)"
  by (cases c) simp_all

section \<open>No command is lost unseen\<close>

text \<open>Every command that reached the mailbox is pending, was handed to a tick, or is counted in exactly
  one of the counters of what became of it. The counters are machine words, so the sum is one too.\<close>

definition accounted :: "mailbox \<Rightarrow> bool" where
  "accounted mb \<longleftrightarrow> (let s = counters mb in
     submitted_command_count s = word_of_nat (length (pending mb)) + drained_command_count s +
       superseded_command_count s + dropped_command_count s + rejected_unaccepted_kind_count s +
       rejected_tuning_command_count s + rate_limited_tuning_command_count s)"

lemmas counter_defs = count_submitted_def count_accepted_def count_superseded_def count_dropped_def
  count_dropped_lifecycle_def count_unaccepted_def count_rejected_tuning_def count_rate_limited_def

text \<open>One more submission than accounted for: the state between the count and the insertion.\<close>

definition one_to_place :: "mailbox \<Rightarrow> bool" where
  "one_to_place mb \<longleftrightarrow> accounted (tally (\<lambda>s. s\<lparr>submitted_command_count := submitted_command_count s - 1\<rparr>) mb)"

lemma accounted_exchanges [simp]:
  "accounted (mb\<lparr>exchanges := exs\<rparr>) = accounted mb" "one_to_place (mb\<lparr>exchanges := exs\<rparr>) = one_to_place mb"
  by (simp_all add: accounted_def one_to_place_def tally_def)

lemma one_to_place_submitted: "accounted mb \<Longrightarrow> one_to_place (tally count_submitted mb)"
  by (simp add: accounted_def one_to_place_def counter_defs)

lemma submit_locked_accounted:
  assumes "one_to_place mb" and "submit_locked c mb = (res, mb')"
  shows "accounted mb'"
  using assms(2)
proof (cases rule: submit_locked_cases)
  case (evicted i)
  have "length (take i (pending mb) @ drop (Suc i) (pending mb) @ [c]) = length (pending mb)"
    using evicted by simp
  with evicted assms(1) show ?thesis
    by (simp add: accounted_def one_to_place_def Let_def counter_defs algebra_simps)
qed (use assms(1) in \<open>simp_all add: accounted_def one_to_place_def Let_def counter_defs algebra_simps split: if_splits\<close>)

lemma refused_accounted:
  assumes "one_to_place mb"
  shows "accounted (tally count_unaccepted mb)" "accounted (tally count_rejected_tuning mb)"
    "accounted (tally count_rate_limited mb)"
  using assms by (simp_all add: accounted_def one_to_place_def Let_def counter_defs algebra_simps)

lemma admit_tuning_accounted:
  assumes "one_to_place mb"
  shows "accounted (snd (admit_tuning c request expected tuning now mb))"
proof -
  obtain res mb' where s: "submit_locked (SetMovementTuningCommand c request expected tuning)
      (mb\<lparr>exchanges := modify_exchange c (\<lambda>x. x\<lparr>request_high_water := request,
        exchange_request := Some request,
        next_eligible_at := Some (now + uint kMovementTuningMinimumIntervalMilliseconds * 1000000)\<rparr>)
        (exchanges mb)\<rparr>) = (res, mb')"
    by (cases "submit_locked (SetMovementTuningCommand c request expected tuning)
      (mb\<lparr>exchanges := modify_exchange c (\<lambda>x. x\<lparr>request_high_water := request,
        exchange_request := Some request,
        next_eligible_at := Some (now + uint kMovementTuningMinimumIntervalMilliseconds * 1000000)\<rparr>)
        (exchanges mb)\<rparr>)")
  have "accounted mb'" by (rule submit_locked_accounted [OF _ s]) (simp add: assms)
  with s show ?thesis by (simp add: admit_tuning_def)
qed

lemma submit_tuning_accounted:
  assumes "accounted mb"
  shows "accounted (snd (submit_tuning c request expected tuning now mb))"
proof -
  note one = one_to_place_submitted [OF assms]
  note refused = refused_accounted [OF one]
  have "accounted (tally count_rejected_tuning ((tally count_submitted mb)\<lparr>exchanges := exs\<rparr>))"
    "accounted (tally count_rate_limited ((tally count_submitted mb)\<lparr>exchanges := exs\<rparr>))" for exs
    by (rule refused_accounted; simp add: one)+
  with refused admit_tuning_accounted [OF one] show ?thesis
    by (simp add: submit_tuning_def Let_def split: option.split)
qed

lemma submit_accounted:
  assumes "accounted mb"
  shows "accounted (snd (submit now c mb))"
proof (cases "command_kind_of c = kSetMovementTuning")
  case True
  then obtain ctl request expected tuning where "c = SetMovementTuningCommand ctl request expected tuning"
    by (cases c) simp_all
  with assms show ?thesis by (simp add: submit_tuning_accounted)
next
  case False
  obtain res mb' where s: "submit_locked c (tally count_submitted mb) = (res, mb')"
    by (cases "submit_locked c (tally count_submitted mb)")
  from submit_locked_accounted [OF one_to_place_submitted [OF assms] s] False s show ?thesis
    by (simp add: submit_not_tuning)
qed

lemma mailbox_apply_accounted:
  assumes "accounted mb"
  shows "accounted (mailbox_apply op mb)"
proof (cases op)
  case (Retire c)
  obtain res mb' where s: "submit_locked (LeaveCommand c)
      (tally count_submitted (mb\<lparr>exchanges := erase_exchange c (exchanges mb)\<rparr>)) = (res, mb')"
    by (cases "submit_locked (LeaveCommand c)
      (tally count_submitted (mb\<lparr>exchanges := erase_exchange c (exchanges mb)\<rparr>))")
  have "accounted mb'"
    by (rule submit_locked_accounted [OF one_to_place_submitted s]) (simp add: assms)
  with Retire s assms show ?thesis by (simp add: retire_exchange_def)
next
  case Drain
  with assms show ?thesis by (simp add: drain_def accounted_def Let_def algebra_simps)
qed (use assms in \<open>simp_all add: submit_accounted register_exchange_def complete_tuning_decisions_def
      claim_tuning_result_def split: option.split\<close>)

text \<open>
  C15: no command disappears unseen. After any sequence of submissions, session openings and
  closings, drains, completions and claims, the number of commands submitted is exactly the number
  pending plus those handed to ticks plus those counted as superseded, dropped, refused for their
  kind, refused as tuning or rate limited (modulo the width of the counters).
\<close>

theorem mailbox_accounts_for_every_command:
  "accounted (mailbox_run ops (mailbox_create accepted))"
proof (rule mailbox_run_invariant)
  show "accounted (mailbox_create accepted)"
    by (simp add: accounted_def mailbox_create_def no_counters_def)
qed (rule mailbox_apply_accounted)

section \<open>Superseding loses nothing\<close>

definition submit_all :: "int \<Rightarrow> command list \<Rightarrow> mailbox \<Rightarrow> mailbox" where
  "submit_all now cs mb = fold (\<lambda>c mb. snd (submit now c mb)) cs mb"

lemma submit_locked_room:
  assumes v: "valid_pending mb" and s: "submit_locked c mb = (res, mb')"
    and kind: "mask_contains (accepted_kinds mb) (command_kind_of c)"
    and room: "command_slot c \<in> command_slot ` set (pending mb) \<or> length (pending mb) < kMaximumMailboxCommandCount"
  shows "pending_map (pending mb') = (pending_map (pending mb))(command_slot c \<mapsto> c)"
  using s
proof (cases rule: submit_locked_cases)
  case (superseded i)
  with v show ?thesis by (simp add: pending_map_update valid_pending_def)
next
  case appended
  then show ?thesis using v by (simp add: pending_map_append valid_pending_def)
qed (use kind room in auto)

lemma pending_map_dom: "dom (pending_map ps) = command_slot ` set ps"
  by (simp add: pending_map_def dom_map_of_conv_image_fst slotted_def image_image)

lemma submit_all_map:
  assumes "valid_pending mb" and "\<forall>c\<in>set cs. command_kind_of c \<noteq> kSetMovementTuning"
    and "\<forall>c\<in>set cs. mask_contains (accepted_kinds mb) (command_kind_of c)"
    and "card (command_slot ` (set (pending mb) \<union> set cs)) \<le> kMaximumMailboxCommandCount"
  shows "valid_pending (submit_all now cs mb) \<and> accepted_kinds (submit_all now cs mb) = accepted_kinds mb \<and>
    pending_map (pending (submit_all now cs mb)) = pending_map (pending mb) ++ winning_command cs"
  using assms
proof (induction cs arbitrary: mb)
  case Nil
  then show ?case by (simp add: submit_all_def winning_command_def slotted_def)
next
  case (Cons c cs)
  define mb0 where "mb0 = tally count_submitted mb"
  obtain res mb' where s: "submit_locked c mb0 = (res, mb')" by (cases "submit_locked c mb0")
  have v0: "valid_pending mb0" and same: "pending mb0 = pending mb" "accepted_kinds mb0 = accepted_kinds mb"
    using Cons.prems(1) by (simp_all add: mb0_def valid_pending_def)
  have room: "command_slot c \<in> command_slot ` set (pending mb) \<or> length (pending mb) < kMaximumMailboxCommandCount"
  proof (rule disjCI)
    assume full: "\<not> length (pending mb) < kMaximumMailboxCommandCount"
    have dist: "card (command_slot ` set (pending mb)) = length (pending mb)"
      using Cons.prems(1) by (metis distinct_card length_map set_map valid_pending_def)
    let ?all = "command_slot ` (set (pending mb) \<union> set (c # cs))"
    have "command_slot ` set (pending mb) \<subseteq> ?all" and fin: "finite ?all" by auto
    moreover have "card ?all \<le> card (command_slot ` set (pending mb))"
      using Cons.prems(4) full dist by linarith
    ultimately have "command_slot ` set (pending mb) = ?all" by (metis card_subset_eq card_mono le_antisym)
    then show "command_slot c \<in> command_slot ` set (pending mb)" by auto
  qed
  have step: "pending_map (pending mb') = (pending_map (pending mb))(command_slot c \<mapsto> c)"
    using submit_locked_room [OF v0 s] Cons.prems(3) room by (simp add: same)
  note v' = submit_locked_valid [OF v0 s]
  have "command_slot ` set (pending mb') = insert (command_slot c) (command_slot ` set (pending mb))"
    using step by (metis dom_fun_upd option.distinct(1) pending_map_dom)
  then have "card (command_slot ` (set (pending mb') \<union> set cs)) \<le> kMaximumMailboxCommandCount"
    using Cons.prems(4) by (simp add: image_Un)
  with Cons.IH [of mb'] Cons.prems v' same
  have IH: "valid_pending (submit_all now cs mb') \<and>
      accepted_kinds (submit_all now cs mb') = accepted_kinds mb \<and>
      pending_map (pending (submit_all now cs mb')) = pending_map (pending mb') ++ winning_command cs"
    by simp
  have "submit_all now (c # cs) mb = submit_all now cs mb'"
    using s Cons.prems(2) by (simp add: submit_all_def submit_not_tuning mb0_def)
  moreover have "(pending_map (pending mb))(command_slot c \<mapsto> c) ++ winning_command cs =
      pending_map (pending mb) ++ winning_command (c # cs)"
    by (auto simp: map_add_def winning_command_Cons fun_eq_iff split: option.splits)
  ultimately show ?case using IH step by simp
qed

lemma winning_command_distinct:
  assumes "distinct (map command_slot ps)"
  shows "winning_command ps = pending_map ps"
proof (rule pending_map_ext [OF assms, symmetric])
  fix k c
  show "winning_command ps k = Some c \<longleftrightarrow> c \<in> set ps \<and> command_slot c = k"
  proof
    assume "winning_command ps k = Some c"
    then show "c \<in> set ps \<and> command_slot c = k" unfolding winning_command_last by auto
  next
    assume c: "c \<in> set ps \<and> command_slot c = k"
    then obtain i where i: "i < length ps" "ps ! i = c" by (auto simp: in_set_conv_nth)
    have "command_slot (ps ! j) \<noteq> k" if "i < j \<and> j < length ps" for j
      using assms c i that by (auto simp: distinct_conv_nth)
    with c i show "winning_command ps k = Some c" unfolding winning_command_last by blast
  qed
qed

text \<open>
  C13: superseding a pending command in place is lossless. If commands other than tuning commands are
  submitted to an empty mailbox and they address at most as many slots as the mailbox has room for,
  then the batch built from what the mailbox hands to the tick is the very batch that all the
  submissions in order would have made.
\<close>

theorem superseding_is_lossless:
  assumes "pending mb = []" and "\<forall>c\<in>set cs. command_kind_of c \<noteq> kSetMovementTuning"
    and "card (command_slot ` set cs) \<le> kMaximumMailboxCommandCount"
    and "input_batch_create cs (accepted_kinds mb) r = Inr b"
  shows "input_batch_create (fst (drain (submit_all now cs mb))) (accepted_kinds mb) r = Inr b"
proof -
  define ps where "ps = pending (submit_all now cs mb)"
  have valid: "\<forall>c\<in>set cs. validate_command c (accepted_kinds mb) r = Inr ()"
    by (rule batch_commands_spec(5) [OF assms(4)])
  then have kinds: "\<forall>c\<in>set cs. mask_contains (accepted_kinds mb) (command_kind_of c)"
    by (auto simp: validate_command_def split: if_splits)
  have start: "valid_pending mb" "pending_map (pending mb) = Map.empty"
    using assms(1) by (simp_all add: valid_pending_def pending_map_def slotted_def)
  have run: "valid_pending (submit_all now cs mb) \<and> pending_map ps = winning_command cs"
    using submit_all_map [OF _ assms(2) kinds, of now] assms(1,3) start by (simp add: ps_def)
  then have dist: "distinct (map command_slot ps)" and len: "length ps \<le> kMaximumInputBatchCommandCount"
    by (auto simp: valid_pending_def ps_def kMaximumMailboxCommandCount_def kMaximumInputBatchCommandCount_def)
  have "set ps \<subseteq> set cs"
  proof
    fix c assume "c \<in> set ps"
    then have "winning_command cs (command_slot c) = Some c"
      using run dist by (metis pending_map_iff)
    then show "c \<in> set cs" unfolding winning_command_last by auto
  qed
  with valid obtain b' where b': "input_batch_create ps (accepted_kinds mb) r = Inr b'"
    using input_batch_create_accepts [OF len] by blast
  have "winning_command ps = pending_map ps" by (rule winning_command_distinct [OF dist])
  then have "map_of (slotted (batch_commands b')) = map_of (slotted (batch_commands b))"
    using run batch_commands_spec(2) [OF b'] batch_commands_spec(2) [OF assms(4)] by simp
  then have "batch_commands b' = batch_commands b"
    by (rule slotted_determined [OF batch_commands_spec(1) [OF b'] batch_commands_spec(1) [OF assms(4)]])
  moreover have "batch_reservation b' = batch_reservation b"
    using batch_commands_spec(3) [OF b'] batch_commands_spec(3) [OF assms(4)] by simp
  ultimately have "b' = b" by simp
  with b' show ?thesis by (simp add: drain_def ps_def)
qed

section \<open>Lifecycle commands stay\<close>

text \<open>What one operation does to the buffer: nothing, or one insertion.\<close>

definition inserts :: "mailbox \<Rightarrow> mailbox \<Rightarrow> bool" where
  "inserts mb mb' \<longleftrightarrow> (\<exists>c mb0 res mb1. pending mb0 = pending mb \<and> accepted_kinds mb0 = accepted_kinds mb \<and>
     submit_locked c mb0 = (res, mb1) \<and> pending mb' = pending mb1 \<and> accepted_kinds mb' = accepted_kinds mb1)"

definition keeps_pending :: "mailbox \<Rightarrow> mailbox \<Rightarrow> bool" where
  "keeps_pending mb mb' \<longleftrightarrow> pending mb' = pending mb \<and> accepted_kinds mb' = accepted_kinds mb"

lemma insertsI:
  "submit_locked c mb0 = (res, mb1) \<Longrightarrow> pending mb0 = pending mb \<Longrightarrow> accepted_kinds mb0 = accepted_kinds mb \<Longrightarrow>
   pending mb' = pending mb1 \<Longrightarrow> accepted_kinds mb' = accepted_kinds mb1 \<Longrightarrow> inserts mb mb'"
  unfolding inserts_def by blast

lemma admit_tuning_inserts:
  assumes "pending mb0 = pending mb" and "accepted_kinds mb0 = accepted_kinds mb"
  shows "inserts mb (snd (admit_tuning c request expected tuning now mb0))"
proof -
  let ?mb1 = "mb0\<lparr>exchanges := modify_exchange c (\<lambda>x. x\<lparr>request_high_water := request,
        exchange_request := Some request,
        next_eligible_at := Some (now + uint kMovementTuningMinimumIntervalMilliseconds * 1000000)\<rparr>)
        (exchanges mb0)\<rparr>"
  obtain res mb' where s: "submit_locked (SetMovementTuningCommand c request expected tuning) ?mb1 = (res, mb')"
    by (cases "submit_locked (SetMovementTuningCommand c request expected tuning) ?mb1")
  then show ?thesis
    by (intro insertsI [OF s]) (simp_all add: assms admit_tuning_def)
qed

lemma submit_tuning_inserts:
  "keeps_pending mb (snd (submit_tuning c request expected tuning now mb)) \<or>
   inserts mb (snd (submit_tuning c request expected tuning now mb))"
  using admit_tuning_inserts [of "tally count_submitted mb" mb]
  by (simp add: submit_tuning_def Let_def keeps_pending_def split: option.split)

lemma mailbox_apply_inserts:
  assumes "op \<noteq> Drain"
  shows "keeps_pending mb (mailbox_apply op mb) \<or> inserts mb (mailbox_apply op mb)"
proof (cases op)
  case (Submit now c)
  show ?thesis
  proof (cases "command_kind_of c = kSetMovementTuning")
    case True
    then obtain ctl request expected tuning where "c = SetMovementTuningCommand ctl request expected tuning"
      by (cases c) simp_all
    then show ?thesis using submit_tuning_inserts Submit by simp
  next
    case False
    obtain res mb' where s: "submit_locked c (tally count_submitted mb) = (res, mb')"
      by (cases "submit_locked c (tally count_submitted mb)")
    with False Submit have "inserts mb (mailbox_apply op mb)"
      by (intro insertsI [OF s]) (simp_all add: submit_not_tuning)
    then show ?thesis ..
  qed
next
  case (Retire c)
  let ?mb0 = "tally count_submitted (mb\<lparr>exchanges := erase_exchange c (exchanges mb)\<rparr>)"
  obtain res mb' where s: "submit_locked (LeaveCommand c) ?mb0 = (res, mb')"
    by (cases "submit_locked (LeaveCommand c) ?mb0")
  show ?thesis
  proof (cases "find_exchange c (exchanges mb) = None")
    case True
    with Retire show ?thesis by (simp add: retire_exchange_def keeps_pending_def)
  next
    case False
    then obtain x where "find_exchange c (exchanges mb) = Some x" by blast
    then have "mailbox_apply op mb = mb'" using Retire s by (simp add: retire_exchange_def)
    then have "inserts mb (mailbox_apply op mb)" by (intro insertsI [OF s]) simp_all
    then show ?thesis ..
  qed
qed (use assms in \<open>simp_all add: keeps_pending_def register_exchange_def complete_tuning_decisions_def
      claim_tuning_result_def split: option.split\<close>)

lemma valid_pending_cong:
  "pending mb = pending mb' \<Longrightarrow> accepted_kinds mb = accepted_kinds mb' \<Longrightarrow> valid_pending mb = valid_pending mb'"
  by (simp add: valid_pending_def)

lemma inserts_valid:
  assumes "inserts mb mb'" and "valid_pending mb"
  shows "valid_pending mb' \<and> accepted_kinds mb' = accepted_kinds mb"
proof -
  obtain c mb0 res mb1 where s: "submit_locked c mb0 = (res, mb1)" and same: "pending mb0 = pending mb"
    "accepted_kinds mb0 = accepted_kinds mb" "pending mb' = pending mb1" "accepted_kinds mb' = accepted_kinds mb1"
    using assms(1) unfolding inserts_def by blast
  from assms(2) same have "valid_pending mb0" using valid_pending_cong by blast
  from submit_locked_valid [OF this s] same show ?thesis using valid_pending_cong [of mb' mb1] by simp
qed

lemma mailbox_apply_valid:
  assumes "valid_pending mb"
  shows "valid_pending (mailbox_apply op mb) \<and> accepted_kinds (mailbox_apply op mb) = accepted_kinds mb"
proof (cases "op = Drain")
  case True
  then show ?thesis by (simp add: drain_def valid_pending_def)
next
  case False
  with mailbox_apply_inserts [of op mb] inserts_valid assms show ?thesis
    by (auto simp: keeps_pending_def valid_pending_def)
qed

definition holds_slot :: "nat \<times> u64 \<Rightarrow> mailbox \<Rightarrow> bool" where
  "holds_slot k mb \<longleftrightarrow> (\<exists>d\<in>set (pending mb). command_slot d = k)"

lemma slot_lifecycle:
  "command_slot c = command_slot d \<Longrightarrow>
     is_entity_lifecycle_command (command_kind_of c) = is_entity_lifecycle_command (command_kind_of d)"
  by (simp add: command_slot_def application_rank_inj)

lemma inserts_keeps_slot:
  assumes "inserts mb mb'" and v: "valid_pending mb" and d: "d \<in> set (pending mb)"
    and lifecycle: "is_entity_lifecycle_command (command_kind_of d)"
  shows "holds_slot (command_slot d) mb'"
proof -
  obtain c mb0 res mb1 where s: "submit_locked c mb0 = (res, mb1)" and same: "pending mb0 = pending mb"
    "accepted_kinds mb0 = accepted_kinds mb" "pending mb' = pending mb1"
    using assms(1) unfolding inserts_def by blast
  have v0: "valid_pending mb0" using v same by (simp add: valid_pending_def)
  show ?thesis
  proof (cases "command_submission_accepted res")
    case False
    with submit_locked_map [OF v0 s] d same show ?thesis by (auto simp: holds_slot_def)
  next
    case True
    from submit_locked_map [OF v0 s, unfolded same, unfolded if_P [OF True]]
    obtain lost where m: "pending_map (pending mb1) =
          (pending_map (pending mb) |` (- lost))(command_slot c \<mapsto> c)"
      and lost: "lost = {} \<or> (\<exists>e\<in>set (pending mb). lost = {command_slot e} \<and>
           \<not> is_entity_lifecycle_command (command_kind_of e))"
      by blast
    have "command_slot d \<notin> lost"
      using lost lifecycle slot_lifecycle by blast
    moreover have "pending_map (pending mb) (command_slot d) = Some d"
      using v d by (simp add: pending_map_iff valid_pending_def)
    ultimately have "command_slot d \<in> dom (pending_map (pending mb1))"
      by (auto simp: m restrict_map_def)
    then show ?thesis by (auto simp: pending_map_dom holds_slot_def same)
  qed
qed

lemma mailbox_run_keeps_slot:
  assumes "valid_pending mb" and "Drain \<notin> set ops" and "d \<in> set (pending mb)"
    and "is_entity_lifecycle_command (command_kind_of d)"
  shows "holds_slot (command_slot d) (mailbox_run ops mb)"
  using assms
proof (induction ops arbitrary: mb d)
  case Nil
  then show ?case by (auto simp: holds_slot_def)
next
  case (Cons op ops)
  have "op \<noteq> Drain" using Cons.prems(2) by auto
  then have "holds_slot (command_slot d) (mailbox_apply op mb)"
    using mailbox_apply_inserts [of op mb] inserts_keeps_slot [OF _ Cons.prems(1,3,4)] Cons.prems(3)
    unfolding keeps_pending_def holds_slot_def by metis
  then obtain d' where "d' \<in> set (pending (mailbox_apply op mb))" "command_slot d' = command_slot d"
    by (auto simp: holds_slot_def)
  moreover from this have "is_entity_lifecycle_command (command_kind_of d')"
    using Cons.prems(4) slot_lifecycle by blast
  ultimately show ?case
    using Cons.IH [of "mailbox_apply op mb" d'] Cons.prems mailbox_apply_valid by simp
qed

lemma mailbox_create_valid: "valid_pending (mailbox_create accepted)"
  by (simp add: valid_pending_def mailbox_create_def)

lemma mailbox_run_valid:
  assumes "valid_pending mb"
  shows "valid_pending (mailbox_run ops mb) \<and> accepted_kinds (mailbox_run ops mb) = accepted_kinds mb"
  using assms mailbox_apply_valid by (induction ops arbitrary: mb) auto

text \<open>
  C14: pressure never costs a pending spawn, despawn, join or leave. Once such a command is pending,
  then whatever is submitted, opened, closed, completed or claimed before the next drain, its slot
  stays pending; and a submission of such a command is refused for lack of room only when the
  mailbox is full of commands of these four kinds.
\<close>

theorem lifecycle_commands_are_never_evicted:
  assumes "mb = mailbox_run before (mailbox_create accepted)"
  shows "(Drain \<notin> set ops \<and> d \<in> set (pending mb) \<and> is_entity_lifecycle_command (command_kind_of d) \<longrightarrow>
      (\<exists>d'\<in>set (pending (mailbox_run ops mb)). command_slot d' = command_slot d)) \<and>
    (is_entity_lifecycle_command (command_kind_of c) \<and> fst (submit now c mb) = kDroppedMailboxFull \<longrightarrow>
      length (pending mb) = kMaximumMailboxCommandCount \<and>
      (\<forall>e\<in>set (pending mb). is_entity_lifecycle_command (command_kind_of e)))"
proof -
  have v: "valid_pending mb" using assms mailbox_run_valid mailbox_create_valid by blast
  have "length (pending mb) = kMaximumMailboxCommandCount \<and>
      (\<forall>e\<in>set (pending mb). is_entity_lifecycle_command (command_kind_of e))"
    if c: "is_entity_lifecycle_command (command_kind_of c)" and full: "fst (submit now c mb) = kDroppedMailboxFull"
  proof -
    obtain mb' where s: "submit_locked c (tally count_submitted mb) = (kDroppedMailboxFull, mb')"
      using c full by (cases c) (auto simp: is_entity_lifecycle_command_def prod_eq_iff)
    show ?thesis
      using s by (cases rule: submit_locked_cases) (use v c in \<open>auto simp: valid_pending_def\<close>)
  qed
  with mailbox_run_keeps_slot [OF v] show ?thesis by (auto simp: holds_slot_def)
qed

section \<open>One answer per tuning request\<close>

definition exchange_of :: "mailbox \<Rightarrow> controller_id \<Rightarrow> exchange option" where
  "exchange_of mb c = find_exchange c (exchanges mb)"

definition valid_exchange :: "exchange \<Rightarrow> bool" where
  "valid_exchange x \<longleftrightarrow>
     (\<forall>res. exchange_result x = Some res \<longrightarrow> exchange_request x = Some (result_request res)) \<and>
     (\<forall>q. exchange_request x = Some q \<longrightarrow> q \<le> request_high_water x)"

lemma find_exchange_Cons [simp]:
  "find_exchange c [] = None"
  "find_exchange c (x # xs) = (if exchange_controller x = c then Some x else find_exchange c xs)"
  by (simp_all add: find_exchange_def)

lemma find_exchange_append:
  "find_exchange c (xs @ ys) = (case find_exchange c xs of Some x \<Rightarrow> Some x | None \<Rightarrow> find_exchange c ys)"
  by (induction xs) simp_all

lemma find_exchange_controller: "find_exchange c xs = Some x \<Longrightarrow> exchange_controller x = c"
  by (induction xs) (auto split: if_splits)

lemma find_exchange_None: "find_exchange c xs = None \<longleftrightarrow> c \<notin> exchange_controller ` set xs"
  by (induction xs) auto

lemma find_modify_exchange:
  assumes "\<And>x. exchange_controller (f x) = exchange_controller x"
  shows "find_exchange d (modify_exchange c f xs) =
    (if d = c then map_option f (find_exchange c xs) else find_exchange d xs)"
  using assms by (induction xs) auto

lemma map_modify_exchange [simp]:
  assumes "\<And>x. exchange_controller (f x) = exchange_controller x"
  shows "map exchange_controller (modify_exchange c f xs) = map exchange_controller xs"
  using assms by (induction xs) auto

lemma find_erase_exchange:
  assumes "distinct (map exchange_controller xs)"
  shows "find_exchange d (erase_exchange c xs) = (if d = c then None else find_exchange d xs)"
  using assms by (induction xs) (auto simp: find_exchange_None)

lemma map_erase_exchange: "map exchange_controller (erase_exchange c xs) = remove1 c (map exchange_controller xs)"
  by (induction xs) auto

definition valid_exchanges :: "mailbox \<Rightarrow> bool" where
  "valid_exchanges mb \<longleftrightarrow> distinct (map exchange_controller (exchanges mb)) \<and>
     (\<forall>c x. exchange_of mb c = Some x \<longrightarrow> valid_exchange x)"

text \<open>The ways one operation may change the exchange of \<open>c\<close>.\<close>

inductive exchange_moves :: "mailbox_op \<Rightarrow> controller_id \<Rightarrow> exchange \<Rightarrow> exchange \<Rightarrow> bool" where
  unchanged: "exchange_moves op c x x"
| answered: "exchange_request x = Some q \<Longrightarrow> exchange_result x = None \<Longrightarrow> result_request res = q \<Longrightarrow>
    exchange_moves op c x (x\<lparr>exchange_result := Some res\<rparr>)"
| opened: "exchange_request x = None \<Longrightarrow> request_high_water x < q \<Longrightarrow>
    exchange_result x' = None \<or> (\<exists>res. exchange_result x' = Some res \<and> result_request res = q) \<Longrightarrow>
    request_high_water x' = q \<Longrightarrow> exchange_request x' = Some q \<Longrightarrow> exchange_moves op c x x'"
| in_flight: "exchange_request x \<noteq> None \<Longrightarrow> request_high_water x < q \<Longrightarrow>
    exchange_moves op c x (x\<lparr>request_high_water := q\<rparr>)"
| claimed: "exchange_result x = Some res \<Longrightarrow> exchange_moves (Claim c covering) c x
    (x\<lparr>exchange_result := None, exchange_request := None\<rparr>)"

inductive_cases exchange_movesE: "exchange_moves op c x x'"

lemma find_answer:
  assumes "result_request res = request" and "find_exchange d xs = Some x"
  shows "\<exists>x'. find_exchange d (answer c request res xs) = Some x' \<and>
    (x' = x \<or> exchange_request x = Some request \<and> exchange_result x = None \<and> x' = x\<lparr>exchange_result := Some res\<rparr>)"
  using assms by (auto simp: answer_def find_modify_exchange split: option.split)

lemma map_answer [simp]:
  "map exchange_controller (answer c request res xs) = map exchange_controller xs"
  by (simp add: answer_def split: option.split)

lemma submit_locked_exchanges:
  assumes "submit_locked cmd mb = (res, mb')"
  shows "map exchange_controller (exchanges mb') = map exchange_controller (exchanges mb)"
    and "exchange_of mb c = Some x \<Longrightarrow> \<exists>x'. exchange_of mb' c = Some x' \<and> exchange_moves op c x x'"
    and "\<not> is_entity_lifecycle_command (command_kind_of cmd) \<Longrightarrow> exchanges mb' = exchanges mb"
proof -
  have on_eviction: "map exchange_controller (exchanges (record_tuning_eviction d mb)) = map exchange_controller (exchanges mb) \<and>
      (exchange_of mb c = Some x \<longrightarrow>
        (\<exists>x'. find_exchange c (exchanges (record_tuning_eviction d mb)) = Some x' \<and> exchange_moves op c x x'))" for d
  proof (cases "command_kind_of d = kSetMovementTuning")
    case True
    then obtain ctl request expected tuning where d: "d = SetMovementTuningCommand ctl request expected tuning"
      by (cases d) simp_all
    let ?res = "Refused \<lparr>refused_controller = ctl, refused_request = request,
      refused_status = kMailboxEvicted, retry_after_milliseconds = None\<rparr>"
    have "\<exists>x'. find_exchange c (answer ctl request ?res (exchanges mb)) = Some x' \<and> exchange_moves op c x x'"
      if "exchange_of mb c = Some x"
      using find_answer [of ?res request c "exchanges mb" x ctl] that
        exchange_moves.unchanged exchange_moves.answered [of x request ?res op c]
      by (auto simp: exchange_of_def)
    then show ?thesis by (simp add: d)
  next
    case False
    then show ?thesis by (cases d) (auto simp: exchange_of_def intro: exchange_moves.unchanged)
  qed
  show "map exchange_controller (exchanges mb') = map exchange_controller (exchanges mb)"
    using assms by (cases rule: submit_locked_cases) (use on_eviction in auto)
  show "\<exists>x'. exchange_of mb' c = Some x' \<and> exchange_moves op c x x'" if "exchange_of mb c = Some x"
    using assms
  proof (cases rule: submit_locked_cases)
    case (evicted i)
    with on_eviction [of "pending mb ! i"] that show ?thesis by (simp add: exchange_of_def)
  qed (use that in \<open>auto simp: exchange_of_def intro: exchange_moves.unchanged\<close>)
  show "exchanges mb' = exchanges mb" if "\<not> is_entity_lifecycle_command (command_kind_of cmd)"
    using assms by (cases rule: submit_locked_cases) (use that in auto)
qed

lemma submit_tuning_moves:
  assumes "exchange_of mb d = Some x" and valid: "valid_exchange x"
  shows "\<exists>x'. exchange_of (snd (submit_tuning c request expected tuning now mb)) d = Some x' \<and>
    exchange_moves op d x x'"
proof -
  let ?mb = "tally count_submitted mb"
  have same: "\<exists>x'. exchange_of (tally f ?mb) d = Some x' \<and> exchange_moves op d x x'" for f
    using assms exchange_moves.unchanged by (simp add: exchange_of_def)
  have other: "\<exists>x'. exchange_of (tally f (?mb\<lparr>exchanges := modify_exchange c g (exchanges ?mb)\<rparr>)) d = Some x' \<and>
      exchange_moves op d x x'"
    if g: "\<And>x. exchange_controller (g x) = exchange_controller x"
      and "d = c \<longrightarrow> exchange_moves op d x (g x)" for f g
    using assms that(2) exchange_moves.unchanged [of op d x]
    by (auto simp: exchange_of_def find_modify_exchange [OF g])
  have admit: "\<exists>x'. exchange_of (snd (admit_tuning c request expected tuning now ?mb)) d = Some x' \<and>
      exchange_moves op d x x'"
    if c: "d = c \<longrightarrow> exchange_request x = None \<and> request_high_water x < request \<and> exchange_result x = None"
  proof -
    let ?g = "\<lambda>x. x\<lparr>request_high_water := request, exchange_request := Some request,
        next_eligible_at := Some (now + uint kMovementTuningMinimumIntervalMilliseconds * 1000000)\<rparr>"
    let ?mb1 = "?mb\<lparr>exchanges := modify_exchange c ?g (exchanges ?mb)\<rparr>"
    let ?res = "Refused \<lparr>refused_controller = c, refused_request = request, refused_status = kMailboxFull,
        retry_after_milliseconds = None\<rparr>"
    let ?h = "\<lambda>x. x\<lparr>exchange_result := Some ?res\<rparr>"
    obtain res mb' where s: "submit_locked (SetMovementTuningCommand c request expected tuning) ?mb1 = (res, mb')"
      by (cases "submit_locked (SetMovementTuningCommand c request expected tuning) ?mb1")
    then have exs: "exchanges mb' = modify_exchange c ?g (exchanges mb)"
      using submit_locked_exchanges(3) [OF s] by (simp add: is_entity_lifecycle_command_def)
    have found: "find_exchange d (modify_exchange c ?g (exchanges mb)) = Some (if d = c then ?g x else x)"
      using assms by (auto simp: find_modify_exchange exchange_of_def)
    show ?thesis
    proof (cases "res = kDroppedMailboxFull")
      case True
      have "exchange_of (snd (admit_tuning c request expected tuning now ?mb)) d =
          Some (if d = c then ?h (?g x) else x)"
        using s True assms(1) by (auto simp: admit_tuning_def exchange_of_def exs find_modify_exchange)
      moreover have "exchange_moves op d x (if d = c then ?h (?g x) else x)"
        using c by (auto intro: exchange_moves.unchanged exchange_moves.opened [of x request])
      ultimately show ?thesis by blast
    next
      case False
      have "exchange_of (snd (admit_tuning c request expected tuning now ?mb)) d =
          Some (if d = c then ?g x else x)"
        using s False found by (simp add: admit_tuning_def exchange_of_def exs)
      moreover have "exchange_moves op d x (if d = c then ?g x else x)"
        using c by (auto intro: exchange_moves.unchanged exchange_moves.opened [of x request])
      ultimately show ?thesis by blast
    qed
  qed
  show ?thesis
  proof (cases "find_exchange c (exchanges ?mb)")
    case None
    with same show ?thesis by (simp add: submit_tuning_def Let_def)
  next
    case (Some y)
    have y: "d = c \<longrightarrow> y = x" using Some assms by (auto simp: exchange_of_def)
    show ?thesis
    proof (cases "\<not> mask_contains (accepted_kinds ?mb) kSetMovementTuning \<or> request = 0 \<or>
        request > kMaximumProtocolSafeInteger \<or> expected > kMaximumProtocolSafeInteger \<or>
        request \<le> request_high_water y")
      case True
      with same Some show ?thesis by (auto simp: submit_tuning_def Let_def)
    next
      case False
      then have high: "request_high_water y < request" by auto
      show ?thesis
      proof (cases "exchange_request y")
        case (Some q)
        have "d = c \<longrightarrow> exchange_moves op d x (x\<lparr>request_high_water := request\<rparr>)"
          using y high Some by (auto intro: exchange_moves.in_flight)
        from other [of "\<lambda>x. x\<lparr>request_high_water := request\<rparr>", OF _ this] False Some
          \<open>find_exchange c (exchanges ?mb) = Some y\<close>
        show ?thesis by (auto simp: submit_tuning_def Let_def)
      next
        case None
        have fresh: "d = c \<longrightarrow> exchange_request x = None \<and> request_high_water x < request \<and> exchange_result x = None"
          using y high None valid by (cases "exchange_result x") (auto simp: valid_exchange_def)
        note admitted = admit [OF fresh]
        let ?g = "\<lambda>eligible x. x\<lparr>request_high_water := request, exchange_request := Some request,
          exchange_result := Some (Refused \<lparr>refused_controller = c, refused_request = request,
            refused_status = kRateLimited, retry_after_milliseconds = Some (retry_after eligible now)\<rparr>)\<rparr>"
        have limited: "\<exists>x'. exchange_of (tally count_rate_limited (?mb\<lparr>exchanges := modify_exchange c (?g eligible) (exchanges ?mb)\<rparr>)) d = Some x' \<and>
            exchange_moves op d x x'" for eligible
          using fresh by (intro other) (auto intro: exchange_moves.opened [of x request])
        show ?thesis
          using False None \<open>find_exchange c (exchanges ?mb) = Some y\<close> admitted limited
          by (cases "next_eligible_at y") (auto simp: submit_tuning_def Let_def)
      qed
    qed
  qed
qed


lemma fold_answers:
  assumes "find_exchange d xs = Some x" and "valid_exchange x"
  shows "\<exists>x'. find_exchange d (fold (\<lambda>e. answer (decided_controller e) (decided_request e) (Decided e)) ds xs) = Some x' \<and>
    exchange_moves op d x x'"
  using assms
proof (induction ds arbitrary: xs x)
  case Nil
  then show ?case by (auto intro: exchange_moves.unchanged)
next
  case (Cons e ds)
  from find_answer [OF refl Cons.prems(1), of "decided_controller e" "Decided e"] obtain x1 where
    x1: "find_exchange d (answer (decided_controller e) (decided_request e) (Decided e) xs) = Some x1"
    and step: "x1 = x \<or> exchange_request x = Some (decided_request e) \<and> exchange_result x = None \<and>
      x1 = x\<lparr>exchange_result := Some (Decided e)\<rparr>"
    by auto
  show ?case
  proof (cases "exchange_result x1")
    case None
    with step have "x1 = x" by auto
    with Cons x1 show ?thesis by simp
  next
    case (Some res)
    have frozen: "find_exchange d zs = Some x1 \<Longrightarrow>
        find_exchange d (fold (\<lambda>e. answer (decided_controller e) (decided_request e) (Decided e)) ds zs) = Some x1" for zs
    proof (induction ds arbitrary: zs)
      case Nil
      then show ?case by simp
    next
      case (Cons e ds)
      have "find_exchange d (answer (decided_controller e) (decided_request e) (Decided e) zs) = Some x1"
        using find_answer [OF refl Cons.prems, of "decided_controller e" "Decided e"] Some by auto
      with Cons.IH show ?case by simp
    qed
    have "exchange_moves op d x x1"
      using step by (auto intro: exchange_moves.unchanged exchange_moves.answered [of x "decided_request e"])
    with frozen [OF x1] show ?thesis by auto
  qed
qed

lemma mailbox_apply_moves:
  assumes valid: "valid_exchanges mb" and x: "exchange_of mb c = Some x"
    and op: "op \<noteq> Retire c"
  shows "\<exists>x'. exchange_of (mailbox_apply op mb) c = Some x' \<and> exchange_moves op c x x'"
proof -
  have vx: "valid_exchange x" using valid x by (simp add: valid_exchanges_def)
  have same: "exchanges mb' = exchanges mb \<Longrightarrow> \<exists>x'. exchange_of mb' c = Some x' \<and> exchange_moves op c x x'" for mb'
    using x exchange_moves.unchanged by (simp add: exchange_of_def)
  show ?thesis
  proof (cases op)
    case (Submit now cmd)
    show ?thesis
    proof (cases "command_kind_of cmd = kSetMovementTuning")
      case True
      then obtain ctl request expected tuning where "cmd = SetMovementTuningCommand ctl request expected tuning"
        by (cases cmd) simp_all
      with submit_tuning_moves [OF x vx] Submit show ?thesis by simp
    next
      case False
      obtain res mb' where s: "submit_locked cmd (tally count_submitted mb) = (res, mb')"
        by (cases "submit_locked cmd (tally count_submitted mb)")
      from submit_locked_exchanges(2) [OF s, of c x op] x s False Submit
      show ?thesis by (simp add: submit_not_tuning exchange_of_def)
    qed
  next
    case (Register d)
    then show ?thesis
      using x by (auto simp: register_exchange_def exchange_of_def find_exchange_append
          intro: exchange_moves.unchanged)
  next
    case (Retire d)
    let ?mb0 = "tally count_submitted (mb\<lparr>exchanges := erase_exchange d (exchanges mb)\<rparr>)"
    obtain res mb' where s: "submit_locked (LeaveCommand d) ?mb0 = (res, mb')"
      by (cases "submit_locked (LeaveCommand d) ?mb0")
    have "exchange_of ?mb0 c = Some x"
      using valid x op Retire by (simp add: exchange_of_def find_erase_exchange valid_exchanges_def)
    from submit_locked_exchanges(2) [OF s this, of op] same [of mb] s Retire
    show ?thesis by (simp add: retire_exchange_def)
  next
    case Drain
    then show ?thesis using same by (simp add: drain_def)
  next
    case (Complete ds)
    with fold_answers [OF _ vx, of c "exchanges mb" ds op] x show ?thesis
      by (simp add: complete_tuning_decisions_def exchange_of_def)
  next
    case (Claim d covering)
    have "\<exists>x'. exchange_of (mb\<lparr>exchanges := modify_exchange d (\<lambda>x. x\<lparr>exchange_result := None, exchange_request := None\<rparr>) (exchanges mb)\<rparr>) c = Some x' \<and>
        exchange_moves op c x x'" if "find_exchange d (exchanges mb) = Some y" "exchange_result y = Some res" for y res
      using x that Claim by (auto simp: exchange_of_def find_modify_exchange
          intro: exchange_moves.unchanged exchange_moves.claimed)
    with same [of mb] Claim show ?thesis
      by (auto simp: claim_tuning_result_def split: option.split)
  qed
qed

lemma exchange_moves_valid:
  assumes "exchange_moves op c x x'" and "valid_exchange x"
  shows "valid_exchange x'"
  using assms by (induction rule: exchange_moves.induct) (auto simp: valid_exchange_def)

definition session_controllers :: "mailbox \<Rightarrow> controller_id list" where
  "session_controllers mb = map exchange_controller (exchanges mb)"

lemma exchange_of_None: "exchange_of mb c = None \<longleftrightarrow> c \<notin> set (session_controllers mb)"
  by (simp add: exchange_of_def find_exchange_None session_controllers_def)

lemma submit_tuning_controllers:
  "session_controllers (snd (submit_tuning c request expected tuning now mb)) = session_controllers mb"
proof -
  have "session_controllers (snd (admit_tuning c request expected tuning now mb)) = session_controllers mb" for mb
  proof -
    let ?mb1 = "mb\<lparr>exchanges := modify_exchange c (\<lambda>x. x\<lparr>request_high_water := request,
        exchange_request := Some request,
        next_eligible_at := Some (now + uint kMovementTuningMinimumIntervalMilliseconds * 1000000)\<rparr>)
        (exchanges mb)\<rparr>"
    obtain res mb' where s: "submit_locked (SetMovementTuningCommand c request expected tuning) ?mb1 = (res, mb')"
      by (cases "submit_locked (SetMovementTuningCommand c request expected tuning) ?mb1")
    from submit_locked_exchanges(3) [OF s] s show ?thesis
      by (simp add: admit_tuning_def session_controllers_def is_entity_lifecycle_command_def)
  qed
  then show ?thesis
    by (simp add: submit_tuning_def Let_def session_controllers_def split: option.split)
qed

lemma submit_controllers: "session_controllers (snd (submit now cmd mb)) = session_controllers mb"
proof (cases "command_kind_of cmd = kSetMovementTuning")
  case True
  then obtain ctl request expected tuning where "cmd = SetMovementTuningCommand ctl request expected tuning"
    by (cases cmd) simp_all
  then show ?thesis by (simp add: submit_tuning_controllers)
next
  case False
  obtain res mb' where s: "submit_locked cmd (tally count_submitted mb) = (res, mb')"
    by (cases "submit_locked cmd (tally count_submitted mb)")
  from submit_locked_exchanges(1) [OF s] s False show ?thesis
    by (simp add: submit_not_tuning session_controllers_def)
qed

lemma map_fold_answer [simp]:
  "map exchange_controller (fold (\<lambda>e. answer (decided_controller e) (decided_request e) (Decided e)) ds xs) =
     map exchange_controller xs"
  by (induction ds arbitrary: xs) simp_all

lemma retire_controllers:
  "session_controllers (snd (retire_exchange c mb)) = remove1 c (session_controllers mb)"
proof -
  let ?mb0 = "tally count_submitted (mb\<lparr>exchanges := erase_exchange c (exchanges mb)\<rparr>)"
  obtain res mb' where s: "submit_locked (LeaveCommand c) ?mb0 = (res, mb')"
    by (cases "submit_locked (LeaveCommand c) ?mb0")
  have "c \<notin> set (session_controllers mb) \<Longrightarrow> remove1 c (session_controllers mb) = session_controllers mb"
    by (rule remove1_idem)
  with submit_locked_exchanges(1) [OF s] s show ?thesis
    by (auto simp: retire_exchange_def session_controllers_def map_erase_exchange find_exchange_None)
qed

lemma register_controllers:
  "session_controllers (snd (register_exchange c mb)) =
     (if fst (register_exchange c mb) then session_controllers mb @ [c] else session_controllers mb)"
  "fst (register_exchange c mb) \<longleftrightarrow>
     c \<notin> set (session_controllers mb) \<and> length (session_controllers mb) \<noteq> kMaximumControllerDirectoryEntryCount"
  by (auto simp: register_exchange_def session_controllers_def find_exchange_None)

lemma claim_controllers: "session_controllers (snd (claim_tuning_result c covering mb)) = session_controllers mb"
  by (simp add: claim_tuning_result_def session_controllers_def split: option.split)

lemma other_controllers:
  assumes "\<And>c. op \<noteq> Register c" and "\<And>c. op \<noteq> Retire c"
  shows "session_controllers (mailbox_apply op mb) = session_controllers mb"
proof (cases op)
  case (Register c)
  with assms(1) [of c] show ?thesis by simp
next
  case (Retire c)
  with assms(2) [of c] show ?thesis by simp
qed (simp_all add: submit_controllers claim_controllers, simp_all add: session_controllers_def
    drain_def complete_tuning_decisions_def)

lemma mailbox_apply_controllers:
  assumes "op \<noteq> Register c" and "c \<notin> set (session_controllers mb)"
  shows "c \<notin> set (session_controllers (mailbox_apply op mb))"
proof (cases op)
  case (Register d)
  with assms show ?thesis by (simp add: register_controllers)
next
  case (Retire d)
  with assms show ?thesis by (auto simp: retire_controllers dest: notin_set_remove1)
qed (use assms other_controllers [of op mb] in simp_all)

lemma register_exchange_of:
  "exchange_of (snd (register_exchange c mb)) d =
    (if d = c \<and> fst (register_exchange c mb)
     then Some \<lparr>exchange_controller = c, request_high_water = 0, next_eligible_at = None,
           exchange_request = None, exchange_result = None\<rparr>
     else exchange_of mb d)"
  by (auto simp: register_exchange_def exchange_of_def find_exchange_append split: option.split)

lemma mailbox_apply_valid_exchanges:
  assumes v: "valid_exchanges mb"
  shows "valid_exchanges (mailbox_apply op mb)"
proof -
  have dist: "distinct (session_controllers mb)" using v by (simp add: valid_exchanges_def session_controllers_def)
  have "distinct (session_controllers (mailbox_apply op mb))"
  proof (cases op)
    case (Register c)
    show ?thesis
      using dist register_controllers(1) [of c mb] register_controllers(2) [of c mb]
      by (cases "fst (register_exchange c mb)") (simp_all add: Register)
  next
    case (Retire c)
    with dist show ?thesis by (simp add: retire_controllers)
  qed (use dist other_controllers [of op mb] in simp_all)
  moreover have "valid_exchange x" if x: "exchange_of (mailbox_apply op mb) c = Some x" for c x
  proof (cases "op = Retire c")
    case True
    then have "c \<notin> set (session_controllers (mailbox_apply op mb))"
      using dist by (simp add: retire_controllers)
    with x show ?thesis using exchange_of_None [of "mailbox_apply op mb" c] by simp
  next
    case False
    show ?thesis
    proof (cases "exchange_of mb c")
      case None
      then have out: "c \<notin> set (session_controllers mb)" unfolding exchange_of_None .
      have "op = Register c"
        using mailbox_apply_controllers [OF _ out, of op] x exchange_of_None [of "mailbox_apply op mb" c] by force
      with x None show ?thesis
        by (auto simp: register_exchange_of valid_exchange_def split: if_splits)
    next
      case (Some y)
      then have "valid_exchange y" using v by (simp add: valid_exchanges_def)
      with mailbox_apply_moves [OF v Some False] x exchange_moves_valid show ?thesis by auto
    qed
  qed
  ultimately show ?thesis by (simp add: valid_exchanges_def session_controllers_def)
qed

lemma mailbox_create_valid_exchanges: "valid_exchanges (mailbox_create accepted)"
  by (simp add: valid_exchanges_def mailbox_create_def exchange_of_def)

lemma mailbox_run_valid_exchanges: "valid_exchanges mb \<Longrightarrow> valid_exchanges (mailbox_run ops mb)"
  by (rule mailbox_run_invariant [where P = valid_exchanges]) (auto intro: mailbox_apply_valid_exchanges)

section \<open>The answers a session sees\<close>

text \<open>The request ids whose answers \<open>c\<close> claims along a run, in order.\<close>

definition claimed_now :: "controller_id \<Rightarrow> mailbox_op \<Rightarrow> mailbox \<Rightarrow> u64 list" where
  "claimed_now c op mb = (case op of
     Claim d covering \<Rightarrow>
       if d = c then (case fst (claim_tuning_result c covering mb) of
           Some res \<Rightarrow> [result_request res] | None \<Rightarrow> []) else []
   | _ \<Rightarrow> [])"

fun delivered :: "controller_id \<Rightarrow> mailbox_op list \<Rightarrow> mailbox \<Rightarrow> u64 list" where
  "delivered c [] mb = []"
| "delivered c (op # ops) mb = claimed_now c op mb @ delivered c ops (mailbox_apply op mb)"

text \<open>No request id below this can still be answered.\<close>

definition answer_floor :: "exchange \<Rightarrow> nat" where
  "answer_floor x = (case exchange_request x of Some q \<Rightarrow> unat q | None \<Rightarrow> Suc (unat (request_high_water x)))"

lemma exchange_moves_floor:
  assumes "exchange_moves op c x x'" and "valid_exchange x"
  shows "answer_floor x \<le> answer_floor x'"
  using assms
proof (induction rule: exchange_moves.induct)
  case (opened x q x' op c)
  then show ?case by (auto simp: answer_floor_def word_less_nat_alt)
next
  case (claimed x res c covering)
  then show ?case by (auto simp: answer_floor_def valid_exchange_def word_le_nat_alt le_Suc_eq)
qed (auto simp: answer_floor_def)

lemma claimed_floor:
  assumes "valid_exchanges mb" and "exchange_of mb c = Some x" and "claimed_now c op mb = q # qs"
  shows "qs = [] \<and> unat q = answer_floor x \<and>
    (\<exists>x'. exchange_of (mailbox_apply op mb) c = Some x' \<and> unat q < answer_floor x')"
proof -
  obtain covering res where op: "op = Claim c covering" and q: "q = result_request res" "qs = []"
    and claim: "fst (claim_tuning_result c covering mb) = Some res"
    using assms(3) by (auto simp: claimed_now_def split: mailbox_op.splits if_splits option.splits)
  have x: "find_exchange c (exchanges mb) = Some x" using assms(2) by (simp add: exchange_of_def)
  from claim have res: "exchange_result x = Some res" and cov: "covered res covering"
    using x by (auto simp: claim_tuning_result_def split: option.splits if_splits)
  have vx: "valid_exchange x" using assms(1,2) by (simp add: valid_exchanges_def)
  then have req: "exchange_request x = Some q" "unat q \<le> unat (request_high_water x)"
    using res q by (auto simp: valid_exchange_def word_le_nat_alt)
  have "exchange_of (mailbox_apply op mb) c = Some (x\<lparr>exchange_result := None, exchange_request := None\<rparr>)"
    using op x res cov by (simp add: claim_tuning_result_def exchange_of_def find_modify_exchange)
  with req q show ?thesis by (auto simp: answer_floor_def)
qed

lemma delivered_closed:
  assumes "exchange_of mb c = None" and "Register c \<notin> set ops"
  shows "delivered c ops mb = []"
  using assms
proof (induction ops arbitrary: mb)
  case Nil
  show ?case by simp
next
  case (Cons op ops)
  have out: "c \<notin> set (session_controllers mb)" using Cons.prems(1) unfolding exchange_of_None .
  have "claimed_now c op mb = []"
    using Cons.prems(1) by (auto simp: claimed_now_def claim_tuning_result_def exchange_of_def split: mailbox_op.split)
  moreover have "exchange_of (mailbox_apply op mb) c = None"
    unfolding exchange_of_None
    by (rule mailbox_apply_controllers [OF _ out]) (use Cons.prems(2) in auto)
  ultimately show ?case using Cons by simp
qed

lemma delivered_above_floor:
  assumes "valid_exchanges mb" and "exchange_of mb c = Some x" and "Register c \<notin> set ops"
  shows "ascending (delivered c ops mb) \<and> (\<forall>q\<in>set (delivered c ops mb). answer_floor x \<le> unat q)"
  using assms
proof (induction ops arbitrary: mb x)
  case Nil
  show ?case by simp
next
  case (Cons op ops)
  note v' = mailbox_apply_valid_exchanges [OF Cons.prems(1), of op]
  show ?case
  proof (cases "exchange_of (mailbox_apply op mb) c")
    case None
    then have rest: "delivered c ops (mailbox_apply op mb) = []"
      using Cons.prems(3) by (intro delivered_closed) simp_all
    show ?thesis
      using claimed_floor [OF Cons.prems(1,2), of op] None rest
      by (cases "claimed_now c op mb") simp_all
  next
    case (Some x')
    have IH: "ascending (delivered c ops (mailbox_apply op mb)) \<and>
        (\<forall>q\<in>set (delivered c ops (mailbox_apply op mb)). answer_floor x' \<le> unat q)"
      using Cons.IH [OF v' Some] Cons.prems(3) by simp
    have retire: "op \<noteq> Retire c"
    proof
      assume "op = Retire c"
      moreover have "distinct (session_controllers mb)"
        using Cons.prems(1) by (simp add: valid_exchanges_def session_controllers_def)
      ultimately have "exchange_of (mailbox_apply op mb) c = None"
        by (simp add: exchange_of_None retire_controllers)
      with Some show False by simp
    qed
    have "valid_exchange x" using Cons.prems(1,2) by (simp add: valid_exchanges_def)
    then have floor: "answer_floor x \<le> answer_floor x'"
      using mailbox_apply_moves [OF Cons.prems(1,2) retire] Some exchange_moves_floor by auto
    note prems = Cons.prems
    show ?thesis
    proof (cases "claimed_now c op mb")
      case Nil
      with IH floor show ?thesis by auto
    next
      case (Cons q qs)
      then have "qs = [] \<and> unat q = answer_floor x \<and> unat q < answer_floor x'"
        using claimed_floor [OF prems(1,2) Cons] Some by auto
      moreover have "\<forall>q'\<in>set (delivered c ops (mailbox_apply op mb)). q < q'"
        using IH calculation by (auto simp: word_less_nat_alt intro: less_le_trans)
      moreover have "delivered c (op # ops) mb = q # delivered c ops (mailbox_apply op mb)"
        using Cons calculation(1) by simp
      ultimately show ?thesis using IH floor by (auto intro: le_trans)
    qed
  qed
qed

lemma answer_stands:
  assumes "valid_exchanges mb" and "exchange_of mb c = Some x" and "exchange_result x = Some res"
    and "Retire c \<notin> set ops" and "\<forall>covering. Claim c covering \<notin> set ops"
  shows "\<exists>x'. exchange_of (mailbox_run ops mb) c = Some x' \<and> exchange_result x' = Some res"
  using assms
proof (induction ops arbitrary: mb x)
  case Nil
  then show ?case by simp
next
  case (Cons op ops)
  have "valid_exchange x" using Cons.prems by (simp add: valid_exchanges_def)
  then have req: "exchange_request x = Some (result_request res)"
    using Cons.prems(3) by (simp add: valid_exchange_def)
  have "op \<noteq> Retire c" using Cons.prems(4) by auto
  from mailbox_apply_moves [OF Cons.prems(1,2) this] obtain x' where
    x': "exchange_of (mailbox_apply op mb) c = Some x'" and moves: "exchange_moves op c x x'" by blast
  from moves have "exchange_result x' = Some res"
    using Cons.prems(3,5) req by (cases rule: exchange_moves.cases) auto
  with Cons.IH [OF mailbox_apply_valid_exchanges [OF Cons.prems(1)] x'] Cons.prems(4,5)
  show ?case by simp
qed

text \<open>
  C12: a session is told about each of its tuning requests at most once, and never about an older
  request after a newer one. If a controller id is registered once, then along any run the request
  ids whose answers it claims strictly increase; and the first answer recorded for a request stands,
  whatever else happens, until that session claims it or closes.
\<close>

theorem tuning_requests_answered_at_most_once:
  assumes "Register c \<notin> set before" and "Register c \<notin> set after"
  shows "ascending (delivered c (before @ Register c # after) (mailbox_create accepted)) \<and>
    (exchange_of (mailbox_run before (mailbox_create accepted)) d = Some x \<and> exchange_result x = Some res \<and>
       Retire d \<notin> set after \<and> (\<forall>covering. Claim d covering \<notin> set after) \<longrightarrow>
     (\<exists>x'. exchange_of (mailbox_run after (mailbox_run before (mailbox_create accepted))) d = Some x' \<and>
        exchange_result x' = Some res))"
proof -
  let ?start = "mailbox_create accepted"
  have split: "delivered c (xs @ ys) mb = delivered c xs mb @ delivered c ys (mailbox_run xs mb)" for xs ys mb
    by (induction xs arbitrary: mb) simp_all
  have none: "exchange_of ?start c = None" by (simp add: mailbox_create_def exchange_of_def)
  have absent: "exchange_of (mailbox_run ops mb) c = None" if "exchange_of mb c = None" "Register c \<notin> set ops" for ops mb
    using that
  proof (induction ops arbitrary: mb)
    case (Cons op ops)
    have "c \<notin> set (session_controllers mb)" using Cons.prems(1) unfolding exchange_of_None .
    then have "exchange_of (mailbox_apply op mb) c = None"
      unfolding exchange_of_None by (rule mailbox_apply_controllers [rotated]) (use Cons.prems(2) in auto)
    with Cons show ?case by simp
  qed simp
  define mb where "mb = mailbox_run before ?start"
  have mb: "valid_exchanges mb" "exchange_of mb c = None"
    using mailbox_run_valid_exchanges [OF mailbox_create_valid_exchanges] absent [OF none assms(1)]
    by (simp_all add: mb_def)
  have "delivered c before ?start = []" by (rule delivered_closed [OF none assms(1)])
  moreover have "ascending (delivered c after (mailbox_apply (Register c) mb))"
  proof (cases "exchange_of (mailbox_apply (Register c) mb) c")
    case None
    then show ?thesis unfolding delivered_closed [OF None assms(2)] by simp
  next
    case (Some y)
    with delivered_above_floor [OF mailbox_apply_valid_exchanges [OF mb(1)] Some assms(2)] show ?thesis by blast
  qed
  ultimately have "ascending (delivered c (before @ Register c # after) ?start)"
    by (simp add: split mb_def [symmetric] claimed_now_def)
  with answer_stands [OF mb(1)] show ?thesis by (auto simp: mb_def)
qed

section \<open>The mailbox at work\<close>

theorem superseding_is_lossless_witness:
  "\<exists>b. input_batch_create (fst (drain (submit_all 0 sample_submission (mailbox_create mask_all_bits))))
      mask_all_bits reservation_none = Inr b \<and> length (batch_commands b) = 3"
proof -
  have "card (command_slot ` set sample_submission) \<le> 4"
    by (rule order_trans [OF card_image_le]) (simp_all add: sample_submission_def card_insert_if)
  then have card: "card (command_slot ` set sample_submission) \<le> kMaximumMailboxCommandCount"
    by (simp add: kMaximumMailboxCommandCount_def)
  show ?thesis
    using superseding_is_lossless [of "mailbox_create mask_all_bits" sample_submission, OF _ _ card]
      sample_submission_batch
    by (auto simp: mailbox_create_def sample_submission_def)
qed

theorem lifecycle_commands_are_never_evicted_witness:
  "holds_slot (command_slot (SpawnCommand (ControllerId 7)))
     (mailbox_run [Submit 5 (LeaveCommand (ControllerId 8))]
       (mailbox_run [Submit 0 (SpawnCommand (ControllerId 7))] (mailbox_create mask_all_bits)))"
proof -
  let ?mb = "mailbox_run [Submit 0 (SpawnCommand (ControllerId 7))] (mailbox_create mask_all_bits)"
  have "SpawnCommand (ControllerId 7) \<in> set (pending ?mb)"
    by (simp add: mailbox_create_def submit_locked_def find_pending_slot_def index_or_size_def
        kMaximumMailboxCommandCount_def)
  with lifecycle_commands_are_never_evicted [of ?mb "[Submit 0 (SpawnCommand (ControllerId 7))]" mask_all_bits
      "[Submit 5 (LeaveCommand (ControllerId 8))]" "SpawnCommand (ControllerId 7)"]
  show ?thesis by (auto simp: is_entity_lifecycle_command_def holds_slot_def)
qed

definition tuning_session :: "mailbox_op list" where
  "tuning_session =
     [Submit 0 (SetMovementTuningCommand (ControllerId 7) 4 0 movement_tuning_defaults), Drain,
      Complete [\<lparr>decided_controller = ControllerId 7, decided_request = 4, decided_status = kApplied,
        decision_tick = Tick 1, decision_revision = 1\<rparr>],
      Claim (ControllerId 7) (Tick 0), Claim (ControllerId 7) (Tick 1), Claim (ControllerId 7) (Tick 2),
      Submit 100 (SetMovementTuningCommand (ControllerId 7) 6 1 movement_tuning_defaults),
      Claim (ControllerId 7) (Tick 2)]"

theorem tuning_requests_answered_at_most_once_witness:
  "delivered (ControllerId 7) ([] @ Register (ControllerId 7) # tuning_session) (mailbox_create mask_all_bits) = [4, 6] \<and>
   ascending (delivered (ControllerId 7) ([] @ Register (ControllerId 7) # tuning_session) (mailbox_create mask_all_bits))"
  using tuning_requests_answered_at_most_once [of "ControllerId 7" "[]" tuning_session mask_all_bits]
  by (simp add: tuning_session_def claimed_now_def mailbox_create_def register_exchange_def
      submit_tuning_def admit_tuning_def Let_def submit_locked_def find_pending_slot_def index_or_size_def
      kMaximumMailboxCommandCount_def kMaximumControllerDirectoryEntryCount_def kMaximumEntityCount_def
      kMaximumProtocolSafeInteger_def drain_def complete_tuning_decisions_def answer_def
      claim_tuning_result_def covered_def less_tick_def kMovementTuningMinimumIntervalMilliseconds_def)

end
