(* ===== verification/Tick_Deadline.thy ===== *)
theory Tick_Deadline
  imports Prelude
begin

text \<open>
  The worker's clock (src/src/runtime/tick_deadline.hpp, the clock part of simulation_runtime.cpp,
  simulation/fixed_delta.hpp): when the next tick is due, when the deadline is re-based, and the
  counters that record it. A time point and a duration are counts of nanoseconds. The
  \<open>steady_clock\<close> keeps them in 64 signed bits, which hold 292 years; they are unbounded integers
  here, and the theorem that involves a counter states the bound it needs. Counters are 64-bit words.
\<close>

section \<open>The quantum\<close>

definition kSimulationTicksPerSecond :: u64 where "kSimulationTicksPerSecond = 400"

definition kFixedDeltaNanoseconds :: int where "kFixedDeltaNanoseconds = 2500000"

definition kMaximumCatchUpTicks :: u64 where "kMaximumCatchUpTicks = 4"

text \<open>The assertion of simulation_limits.hpp: the ticks of a second last exactly a second.\<close>

lemma quantum_is_exact:
  "kFixedDeltaNanoseconds * uint kSimulationTicksPerSecond = 1000000000"
  by (simp add: kFixedDeltaNanoseconds_def kSimulationTicksPerSecond_def)

section \<open>The next deadline\<close>

record deadline_advance =
  deadline :: int
  rebased :: bool
  ticks_behind :: u64
  lateness :: int

definition advance_tick_deadline :: "int \<Rightarrow> int \<Rightarrow> int \<Rightarrow> u64 \<Rightarrow> deadline_advance" where
  "advance_tick_deadline previous now quantum maximum =
     (let advanced = previous + quantum;
          late = (if now > advanced then now - advanced else 0)
      in if now \<le> previous
         then \<lparr>deadline = advanced, rebased = False, ticks_behind = 0, lateness = late\<rparr>
         else let behind = word_of_int ((now - previous) div quantum)
           in if behind \<le> maximum
              then \<lparr>deadline = advanced, rebased = False, ticks_behind = behind, lateness = late\<rparr>
              else \<lparr>deadline = now, rebased = True, ticks_behind = behind, lateness = late\<rparr>)"

section \<open>What the clock did\<close>

record tick_statistics =
  committed_tick_count :: u64
  tick_overrun_count :: u64
  clock_rebase_count :: u64
  rebased_ticks_behind_total :: u64
  maximum_tick_duration_nanoseconds :: u64
  maximum_lateness_nanoseconds :: u64

definition no_ticks :: tick_statistics where
  "no_ticks =
     \<lparr>committed_tick_count = 0, tick_overrun_count = 0, clock_rebase_count = 0,
      rebased_ticks_behind_total = 0, maximum_tick_duration_nanoseconds = 0,
      maximum_lateness_nanoseconds = 0\<rparr>"

definition nanoseconds :: "int \<Rightarrow> u64" where
  "nanoseconds duration = word_of_int (max 0 duration)"

definition record_overrun :: "deadline_advance \<Rightarrow> tick_statistics \<Rightarrow> tick_statistics" where
  "record_overrun advance s =
     (if lateness advance > 0
      then s\<lparr>tick_overrun_count := tick_overrun_count s + 1,
             maximum_lateness_nanoseconds :=
               max (maximum_lateness_nanoseconds s) (nanoseconds (lateness advance))\<rparr>
      else s)"

definition record_rebase :: "deadline_advance \<Rightarrow> tick_statistics \<Rightarrow> tick_statistics" where
  "record_rebase advance s =
     (if rebased advance
      then s\<lparr>clock_rebase_count := clock_rebase_count s + 1,
             rebased_ticks_behind_total := rebased_ticks_behind_total s + ticks_behind advance\<rparr>
      else s)"

definition record_tick :: "int \<Rightarrow> deadline_advance \<Rightarrow> tick_statistics \<Rightarrow> tick_statistics" where
  "record_tick duration advance s =
     record_rebase advance (record_overrun advance
       (s\<lparr>committed_tick_count := committed_tick_count s + 1,
          maximum_tick_duration_nanoseconds :=
            max (maximum_tick_duration_nanoseconds s) (nanoseconds duration)\<rparr>))"

section \<open>The clock of one running stretch\<close>

text \<open>Between a start or resume and the next pause the worker keeps the deadline of the next tick.
  A tick is given by the moments its step started and ended.\<close>

record clock =
  next_tick :: int
  statistics :: tick_statistics

definition clock_tick :: "int \<times> int \<Rightarrow> clock \<Rightarrow> clock" where
  "clock_tick step c =
     (let advance = advance_tick_deadline (next_tick c) (snd step) kFixedDeltaNanoseconds
                      kMaximumCatchUpTicks
      in \<lparr>next_tick = deadline advance,
          statistics = record_tick (snd step - fst step) advance (statistics c)\<rparr>)"

definition clock_run :: "(int \<times> int) list \<Rightarrow> clock \<Rightarrow> clock" where
  "clock_run = fold clock_tick"

lemma clock_run_simps [simp]:
  "clock_run [] c = c"
  "clock_run (steps @ [s]) c = clock_tick s (clock_run steps c)"
  by (simp_all add: clock_run_def)

section \<open>One advance\<close>

text \<open>A tick that ended less than 292 years past its deadline, as every representable one did.\<close>

lemma ticks_behind_exact:
  assumes "previous < now" and "now - previous < 2 ^ 63" and "quantum > 0"
  shows "uint (word_of_int ((now - previous) div quantum) :: u64) = (now - previous) div quantum"
proof -
  have "(now - previous) div quantum \<le> now - previous"
    using assms zdiv_mono2 [of "now - previous" 1 quantum] by simp
  moreover have "0 \<le> (now - previous) div quantum"
    using assms by (simp add: pos_imp_zdiv_nonneg_iff)
  ultimately show ?thesis
    using assms(2) by (simp add: uint_word_of_int_eq take_bit_int_eq_self)
qed

lemma advance_cases:
  fixes previous now quantum :: int and maximum :: u64
  assumes "now - previous < 2 ^ 63" and "quantum > 0"
  obtains (cadence) "\<not> rebased (advance_tick_deadline previous now quantum maximum)"
      "deadline (advance_tick_deadline previous now quantum maximum) = previous + quantum"
      "now < previous + (uint maximum + 1) * quantum"
  | (rebase) "rebased (advance_tick_deadline previous now quantum maximum)"
      "deadline (advance_tick_deadline previous now quantum maximum) = now"
      "uint (ticks_behind (advance_tick_deadline previous now quantum maximum)) = (now - previous) div quantum"
      "uint maximum < (now - previous) div quantum"
proof (cases "now \<le> previous")
  case True
  then have "now < previous + (uint maximum + 1) * quantum"
  proof -
    have "0 < (uint maximum + 1) * quantum"
      by (rule mult_pos_pos) (use assms(2) uint_ge_0 [of maximum] in linarith)+
    with True show ?thesis by linarith
  qed
  with True that(1) show ?thesis by (simp add: advance_tick_deadline_def Let_def)
next
  case False
  define behind where "behind = (now - previous) div quantum"
  have exact: "uint (word_of_int behind :: u64) = behind"
    using ticks_behind_exact [of previous now quantum] False assms by (simp add: behind_def)
  show ?thesis
  proof (cases "behind \<le> uint maximum")
    case True
    have "now - previous = behind * quantum + (now - previous) mod quantum"
      by (simp add: behind_def)
    also have "\<dots> < (behind + 1) * quantum"
      using pos_mod_bound [OF assms(2), of "now - previous"] by (simp add: distrib_right)
    also have "\<dots> \<le> (uint maximum + 1) * quantum"
      using True assms(2) by (simp add: mult_right_mono)
    finally have "now < previous + (uint maximum + 1) * quantum" by simp
    with True False exact that(1) show ?thesis
      by (simp add: advance_tick_deadline_def Let_def behind_def [symmetric] word_le_def)
  next
    case below: False
    with False exact that(2) show ?thesis
      by (simp add: advance_tick_deadline_def Let_def behind_def [symmetric] word_le_def)
  qed
qed

lemma record_tick_rebase_counters:
  "clock_rebase_count (record_tick duration advance s) =
     (if rebased advance then clock_rebase_count s + 1 else clock_rebase_count s)"
  "rebased_ticks_behind_total (record_tick duration advance s) =
     (if rebased advance then rebased_ticks_behind_total s + ticks_behind advance
      else rebased_ticks_behind_total s)"
  "committed_tick_count (record_tick duration advance s) = committed_tick_count s + 1"
  by (simp_all add: record_tick_def record_rebase_def record_overrun_def)

section \<open>The whole stretch\<close>

text \<open>How far the clock has moved past the cadence a stretch started with, and what the counters gained
  over it. The counters live as long as the runtime and are never reset, so a stretch is measured
  against \<open>base\<close>, the statistics at its start; the difference of two words is their distance even
  where the counter has wrapped.\<close>

definition clock_drift :: "int \<Rightarrow> nat \<Rightarrow> clock \<Rightarrow> int" where
  "clock_drift start n c = next_tick c - (start + int n * kFixedDeltaNanoseconds)"

definition drift_counted :: "tick_statistics \<Rightarrow> int \<Rightarrow> nat \<Rightarrow> clock \<Rightarrow> bool" where
  "drift_counted base start n c \<longleftrightarrow>
     (let behind = uint (rebased_ticks_behind_total (statistics c) - rebased_ticks_behind_total base);
          rebases = uint (clock_rebase_count (statistics c) - clock_rebase_count base)
      in 0 \<le> clock_drift start n c \<and> rebases \<le> behind \<and> behind \<le> 2 ^ 62 \<and>
         (rebases = 0 \<longrightarrow> behind = 0) \<and>
         behind * kFixedDeltaNanoseconds \<le> next_tick c - start \<and>
         (behind - rebases) * kFixedDeltaNanoseconds \<le> clock_drift start n c \<and>
         clock_drift start n c \<le> behind * kFixedDeltaNanoseconds)"

lemma uint_add_small:
  fixes a b :: u64
  assumes "uint a + uint b < 2 ^ 64"
  shows "uint (a + b) = uint a + uint b"
  using assms by (simp add: uint_word_ariths)

lemma uint_gain:
  fixes a b t :: u64
  assumes "uint (a - t) + uint b < 2 ^ 64"
  shows "uint (a + b - t) = uint (a - t) + uint b"
  using uint_add_small [OF assms] by (simp add: algebra_simps)

lemma clock_tick_drift:
  assumes "drift_counted base start n c" and "snd step \<le> start + 2 ^ 62"
  shows "drift_counted base start (Suc n) (clock_tick step c)"
    and "snd step - next_tick (clock_tick step c) < 4 * kFixedDeltaNanoseconds"
proof -
  let ?Q = kFixedDeltaNanoseconds
  have Q: "?Q = 2500000" by (simp add: kFixedDeltaNanoseconds_def)
  have m: "uint kMaximumCatchUpTicks = 4" by (simp add: kMaximumCatchUpTicks_def)
  define T R d now where defs:
    "T = uint (rebased_ticks_behind_total (statistics c) - rebased_ticks_behind_total base)"
    "R = uint (clock_rebase_count (statistics c) - clock_rebase_count base)" "d = next_tick c" "now = snd step"
  have old: "0 \<le> d - (start + int n * ?Q)" "R \<le> T" "T \<le> 2 ^ 62" "R = 0 \<longrightarrow> T = 0" "T * ?Q \<le> d - start"
    "(T - R) * ?Q \<le> d - (start + int n * ?Q)" "d - (start + int n * ?Q) \<le> T * ?Q" "0 \<le> R"
    using assms(1) by (simp_all add: drift_counted_def clock_drift_def Let_def defs)
  let ?a = "advance_tick_deadline d now ?Q kMaximumCatchUpTicks"
  have tick: "next_tick (clock_tick step c) = deadline ?a"
    "statistics (clock_tick step c) = record_tick (now - fst step) ?a (statistics c)"
    by (simp_all add: clock_tick_def Let_def defs)
  have "drift_counted base start (Suc n) (clock_tick step c) \<and> now - deadline ?a < 4 * ?Q"
  proof (rule advance_cases [of now d ?Q kMaximumCatchUpTicks])
    show "now - d < 2 ^ 63" using old assms(2) by (simp add: defs Q)
    show "?Q > 0" by (simp add: Q)
  next
    assume *: "\<not> rebased ?a" "deadline ?a = d + ?Q" "now < d + (uint kMaximumCatchUpTicks + 1) * ?Q"
    then show ?thesis
      using old m unfolding drift_counted_def clock_drift_def tick record_tick_rebase_counters
      by (simp add: defs [symmetric] Q)
  next
    assume *: "rebased ?a" "deadline ?a = now" "uint (ticks_behind ?a) = (now - d) div ?Q"
      "uint kMaximumCatchUpTicks < (now - d) div ?Q"
    define b where "b = (now - d) div ?Q"
    have b: "b * ?Q \<le> now - d" "now - d < (b + 1) * ?Q" "4 < b"
      using *(4) by (simp_all add: b_def m Q)
    have "T + b \<le> 2 ^ 62" using b old assms(2) by (simp add: defs(4) [symmetric] Q)
    then have "uint (rebased_ticks_behind_total (statistics c) + ticks_behind ?a
        - rebased_ticks_behind_total base) = T + b"
      using *(3) by (subst uint_gain) (simp_all add: defs b_def)
    moreover have "uint (clock_rebase_count (statistics c) + 1 - clock_rebase_count base) = R + 1"
      using old by (subst uint_gain) (simp_all add: defs)
    ultimately show ?thesis
      using old b *(1,2) \<open>T + b \<le> 2 ^ 62\<close>
      unfolding drift_counted_def clock_drift_def tick record_tick_rebase_counters
      by (simp add: defs(1,2) [symmetric] Q)
  qed
  then show "drift_counted base start (Suc n) (clock_tick step c)"
    and "snd step - next_tick (clock_tick step c) < 4 * ?Q"
    by (simp_all add: tick(1) defs(4) [symmetric])
qed

text \<open>The beginning of a stretch: the worker leaves its gate and reads the clock. The statistics of the
  stretches before it stay.\<close>

definition clock_start :: "int \<Rightarrow> clock \<Rightarrow> clock" where
  "clock_start now c = c\<lparr>next_tick := now\<rparr>"

text \<open>The clock of a runtime: the value its members have when it is constructed, and the stretches it
  runs between a start or resume and the next pause, each with its ticks. The deadline that the last
  tick before a pause computes is dropped; the next stretch sets its own.\<close>

definition clock_built :: clock where
  "clock_built = \<lparr>next_tick = 0, statistics = no_ticks\<rparr>"

definition run_stretch :: "int \<times> (int \<times> int) list \<Rightarrow> clock \<Rightarrow> clock" where
  "run_stretch stretch c = clock_run (snd stretch) (clock_start (fst stretch) c)"

definition clock_life :: "(int \<times> (int \<times> int) list) list \<Rightarrow> clock \<Rightarrow> clock" where
  "clock_life = fold run_stretch"

lemma clock_run_drift:
  assumes "\<And>s. s \<in> set steps \<Longrightarrow> snd s \<le> start + 2 ^ 62"
  shows "drift_counted (statistics c) start (length steps) (clock_run steps (clock_start start c))"
  using assms
proof (induction steps rule: rev_induct)
  case Nil
  show ?case by (simp add: drift_counted_def clock_drift_def clock_start_def)
next
  case (snoc s steps)
  then have "drift_counted (statistics c) start (length steps) (clock_run steps (clock_start start c))" by simp
  from clock_tick_drift(1) [OF this, of s] snoc.prems show ?case by simp
qed

lemma clock_run_committed:
  "committed_tick_count (statistics (clock_run steps c)) =
     committed_tick_count (statistics c) + word_of_nat (length steps)"
  by (induction steps rule: rev_induct) (simp_all add: clock_tick_def Let_def record_tick_rebase_counters)

lemma clock_life_committed:
  "committed_tick_count (statistics (clock_life stretches c)) =
     committed_tick_count (statistics c) + word_of_nat (\<Sum>stretch\<leftarrow>stretches. length (snd stretch))"
  by (induction stretches arbitrary: c)
    (simp_all add: clock_life_def run_stretch_def clock_run_committed clock_start_def)

text \<open>
  C20: The bounded clock. Over any stretch of ticks between a start or resume and the next pause that
  ends within \<open>2 ^ 62\<close> nanoseconds of the moment it started, whatever stretches came before it: after
  every tick the worker is less than four quanta behind its next deadline, so a stall is followed by at
  most four back-to-back ticks; the deadline of tick \<open>n\<close> of the stretch is never earlier than \<open>n\<close> quanta
  after its start, so the room never runs ahead of the wall clock; it is exactly that moment when nothing
  was re-based in the stretch; and when something was, the distance is what \<open>rebased_ticks_behind_total\<close>
  gained over the stretch, to within one quantum for each re-base it counted. Every tick since the
  runtime was built is counted, those of earlier stretches included.
\<close>

theorem clock_drift_is_counted:
  fixes earlier :: "(int \<times> (int \<times> int) list) list" and steps :: "(int \<times> int) list" and start :: int
  assumes "\<forall>s\<in>set steps. snd s \<le> start + 2 ^ 62"
  defines "before \<equiv> clock_life earlier clock_built"
  defines "c \<equiv> clock_life (earlier @ [(start, steps)]) clock_built"
  defines "due \<equiv> start + int (length steps) * kFixedDeltaNanoseconds"
    and "behind \<equiv> uint (rebased_ticks_behind_total (statistics c) - rebased_ticks_behind_total (statistics before))"
    and "rebases \<equiv> uint (clock_rebase_count (statistics c) - clock_rebase_count (statistics before))"
  shows "(steps \<noteq> [] \<longrightarrow> snd (last steps) - next_tick c < 4 * kFixedDeltaNanoseconds) \<and>
    due \<le> next_tick c \<and>
    (rebases = 0 \<longrightarrow> next_tick c = due) \<and>
    (behind - rebases) * kFixedDeltaNanoseconds \<le> next_tick c - due \<and>
    next_tick c - due \<le> behind * kFixedDeltaNanoseconds \<and>
    committed_tick_count (statistics c) =
      word_of_nat ((\<Sum>stretch\<leftarrow>earlier. length (snd stretch)) + length steps)"
proof -
  have bound: "snd s \<le> start + 2 ^ 62" if "s \<in> set steps" for s using assms(1) that by blast
  have c: "c = clock_run steps (clock_start start before)"
    by (simp add: c_def before_def clock_life_def run_stretch_def)
  have "snd (last steps) - next_tick c < 4 * kFixedDeltaNanoseconds" if "steps \<noteq> []"
  proof -
    obtain some s where split: "steps = some @ [s]" using \<open>steps \<noteq> []\<close> by (metis rev_exhaust)
    then have "drift_counted (statistics before) start (length some) (clock_run some (clock_start start before))"
      using bound by (intro clock_run_drift) simp
    from clock_tick_drift(2) [OF this, of s] bound split show ?thesis by (simp add: c)
  qed
  moreover have "drift_counted (statistics before) start (length steps) c"
    unfolding c by (rule clock_run_drift [OF bound])
  then have "due \<le> next_tick c" "rebases = 0 \<longrightarrow> behind = 0"
    "(behind - rebases) * kFixedDeltaNanoseconds \<le> next_tick c - due"
    "next_tick c - due \<le> behind * kFixedDeltaNanoseconds"
    by (simp_all add: drift_counted_def clock_drift_def Let_def due_def behind_def rebases_def)
  moreover have "committed_tick_count (statistics c) =
      word_of_nat ((\<Sum>stretch\<leftarrow>earlier. length (snd stretch)) + length steps)"
    unfolding c_def clock_life_committed by (simp add: clock_built_def no_ticks_def)
  ultimately show ?thesis by auto
qed

text \<open>A stretch of one stalled tick; then, after a pause, a tick on time, a stall of eleven quanta, and the
  tick after it.\<close>

definition stalled_stretch :: "int \<times> (int \<times> int) list" where
  "stalled_stretch = (0, [(0, 20000000)])"

definition resumed_steps :: "(int \<times> int) list" where
  "resumed_steps = [(50000000, 51000000), (52500000, 80000000), (80000000, 81000000)]"

theorem clock_drift_is_counted_witness:
  "next_tick (clock_life [stalled_stretch, (50000000, resumed_steps)] clock_built) = 82500000 \<and>
   committed_tick_count (statistics (clock_life [stalled_stretch, (50000000, resumed_steps)] clock_built)) = 4 \<and>
   rebased_ticks_behind_total (statistics (clock_life [stalled_stretch] clock_built)) = 8 \<and>
   rebased_ticks_behind_total (statistics (clock_life [stalled_stretch, (50000000, resumed_steps)] clock_built)) = 19"
  using clock_drift_is_counted [of resumed_steps 50000000 "[stalled_stretch]"]
  by (simp add: clock_life_def run_stretch_def clock_run_def clock_start_def clock_tick_def advance_tick_deadline_def
      Let_def kFixedDeltaNanoseconds_def kMaximumCatchUpTicks_def record_tick_def record_rebase_def
      record_overrun_def no_ticks_def clock_built_def stalled_stretch_def resumed_steps_def)

end
