(* ===== verification/Runtime_Lifecycle.thy ===== *)
theory Runtime_Lifecycle
  imports Prelude
begin

text \<open>
  The lifecycle of the simulation runtime (src/src/runtime/simulation_runtime.cpp,
  simulation_runtime_state.hpp, snapshot_publication.cpp): one worker thread and the callers of
  start, pause, resume and stop. Every piece of code that runs under \<open>lifecycle_mutex_\<close> is one
  function of the shared state, and \<open>runtime_step\<close> interleaves those pieces. A caller holds
  \<open>lifecycle_transition_mutex_\<close> for the whole of its call, so there is one caller at a time and its
  position is part of the state. A wait on the condition variable ends in a state where its
  predicate holds, or, for a wait with the stop token, once stop was requested. The simulation is
  represented by the number of ticks it has committed.
\<close>

section \<open>State\<close>

datatype runtime_state =
  kRuntimeReady | kRuntimeRunning | kRuntimePausing | kRuntimePaused | kRuntimeStopping
| kRuntimeStopped | kRuntimeFailed

primrec simulation_runtime_state_name :: "runtime_state \<Rightarrow> string" where
  "simulation_runtime_state_name kRuntimeReady = ''ready''"
| "simulation_runtime_state_name kRuntimeRunning = ''running''"
| "simulation_runtime_state_name kRuntimePausing = ''pausing''"
| "simulation_runtime_state_name kRuntimePaused = ''paused''"
| "simulation_runtime_state_name kRuntimeStopping = ''stopping''"
| "simulation_runtime_state_name kRuntimeStopped = ''stopped''"
| "simulation_runtime_state_name kRuntimeFailed = ''failed''"

definition lifecycle_error_message :: "string \<Rightarrow> runtime_state \<Rightarrow> string" where
  "lifecycle_error_message operation s =
     ''cannot '' @ operation @ '' SimulationRuntime while it is '' @ simulation_runtime_state_name s"

text \<open>Where the worker is in \<open>run\<close>: in the outer wait, stepping without the lock, holding a
  completed snapshot before it takes the lock again, in the timed wait, or returned.\<close>

datatype worker_phase = AtGate | Stepping | Stepped | Sleeping | Exited

text \<open>Where the caller is: none, in the two waits of \<open>pause\<close>, or joining the worker in \<open>stop\<close>.\<close>

datatype caller_phase = NoCaller | AwaitingPause | AwaitingStop | Joining

datatype outcome = Returned | Rethrown | Refused string runtime_state | Waits

record runtime =
  lifecycle_state :: runtime_state
  stop_requested :: bool
  worker_failed :: bool
  worker_joined :: bool
  is_ready :: bool
  committed_tick :: nat
  published_tick :: nat
  worker :: worker_phase
  caller :: caller_phase

definition runtime_create :: "nat \<Rightarrow> runtime" where
  "runtime_create n =
     \<lparr>lifecycle_state = kRuntimeReady, stop_requested = False, worker_failed = False,
      worker_joined = False, is_ready = False, committed_tick = n, published_tick = n,
      worker = AtGate, caller = NoCaller\<rparr>"

definition publish :: "runtime \<Rightarrow> runtime" where
  "publish r = r\<lparr>published_tick := committed_tick r, is_ready := True\<rparr>"

definition mark_not_ready :: "runtime \<Rightarrow> runtime" where
  "mark_not_ready r = r\<lparr>is_ready := False\<rparr>"

definition is_terminal_state :: "runtime \<Rightarrow> bool" where
  "is_terminal_state r \<longleftrightarrow> lifecycle_state r = kRuntimeStopped \<or> lifecycle_state r = kRuntimeFailed"

section \<open>The callers\<close>

definition rethrow_if_failed :: "runtime \<Rightarrow> outcome" where
  "rethrow_if_failed r = (if worker_failed r then Rethrown else Returned)"

text \<open>\<open>start\<close> and \<open>resume\<close>, from the end of their wait for the state to leave pausing.\<close>

definition transition_to_running :: "string \<Rightarrow> runtime \<Rightarrow> outcome \<times> runtime" where
  "transition_to_running operation r =
     (if worker_failed r then (Rethrown, r)
      else if lifecycle_state r \<in> {kRuntimeStopped, kRuntimeStopping}
      then (Refused operation (lifecycle_state r), r)
      else if lifecycle_state r = kRuntimeRunning then (Returned, r)
      else (Returned, r\<lparr>lifecycle_state := kRuntimeRunning\<rparr>))"

text \<open>\<open>pause\<close> up to its first wait.\<close>

definition pause_begin :: "runtime \<Rightarrow> outcome \<times> runtime" where
  "pause_begin r =
     (if worker_failed r then (Rethrown, r)
      else if lifecycle_state r = kRuntimeReady
      then (Returned, (mark_not_ready r)\<lparr>lifecycle_state := kRuntimePaused\<rparr>)
      else if lifecycle_state r = kRuntimePaused then (Returned, r)
      else if lifecycle_state r \<in> {kRuntimeStopped, kRuntimeStopping}
      then (Refused ''pause'' (lifecycle_state r), r)
      else if lifecycle_state r = kRuntimeRunning
      then (Waits, r\<lparr>lifecycle_state := kRuntimePausing, caller := AwaitingPause\<rparr>)
      else (Waits, r\<lparr>caller := AwaitingPause\<rparr>))"

text \<open>\<open>pause\<close> after its first wait, and after its second.\<close>

definition pause_resumed :: "runtime \<Rightarrow> outcome \<times> runtime" where
  "pause_resumed r =
     (if lifecycle_state r = kRuntimeStopping then (Waits, r\<lparr>caller := AwaitingStop\<rparr>)
      else (rethrow_if_failed r, r\<lparr>caller := NoCaller\<rparr>))"

definition pause_end :: "runtime \<Rightarrow> outcome \<times> runtime" where
  "pause_end r = (rethrow_if_failed r, r\<lparr>caller := NoCaller\<rparr>)"

text \<open>\<open>stop\<close> up to the join, and after it.\<close>

definition stop_begin :: "runtime \<Rightarrow> outcome \<times> runtime" where
  "stop_begin r =
     (if worker_joined r then (Returned, r)
      else (Waits, (mark_not_ready r)
        \<lparr>lifecycle_state := (if lifecycle_state r \<noteq> kRuntimeFailed then kRuntimeStopping else kRuntimeFailed),
         stop_requested := True, caller := Joining\<rparr>))"

definition stop_end :: "runtime \<Rightarrow> outcome \<times> runtime" where
  "stop_end r = (Returned, r
     \<lparr>worker_joined := True,
      lifecycle_state := (if lifecycle_state r \<noteq> kRuntimeFailed then kRuntimeStopped else kRuntimeFailed),
      caller := NoCaller\<rparr>)"

section \<open>The worker\<close>

text \<open>The head of the outer loop and the outer wait, from a state in which that wait ends.\<close>

definition gate_open :: "runtime \<Rightarrow> bool" where
  "gate_open r \<longleftrightarrow> stop_requested r \<or> lifecycle_state r = kRuntimeRunning \<or> lifecycle_state r = kRuntimeStopping"

definition worker_enter :: "runtime \<Rightarrow> runtime" where
  "worker_enter r =
     (if stop_requested r \<or> lifecycle_state r = kRuntimeStopping then r\<lparr>worker := Exited\<rparr>
      else r\<lparr>worker := Stepping\<rparr>)"

text \<open>The step, without the lock: it commits a tick, throws, or throws while the committed tick is copied.\<close>

definition worker_complete :: "runtime \<Rightarrow> runtime" where
  "worker_complete r = r\<lparr>committed_tick := Suc (committed_tick r), worker := Stepped\<rparr>"

definition record_worker_failure :: "runtime \<Rightarrow> runtime" where
  "record_worker_failure r =
     (mark_not_ready r)\<lparr>worker_failed := True, lifecycle_state := kRuntimeFailed, worker := Exited\<rparr>"

definition acknowledge_pause :: "runtime \<Rightarrow> runtime" where
  "acknowledge_pause r = (mark_not_ready r)\<lparr>lifecycle_state := kRuntimePaused\<rparr>"

text \<open>The section under the lock that follows a completed step.\<close>

definition worker_commit :: "runtime \<Rightarrow> runtime" where
  "worker_commit r =
     (if stop_requested r \<or> lifecycle_state r = kRuntimeStopping then r\<lparr>worker := Exited\<rparr>
      else if lifecycle_state (publish r) = kRuntimePausing
      then (acknowledge_pause (publish r))\<lparr>worker := AtGate\<rparr>
      else (publish r)\<lparr>worker := Sleeping\<rparr>)"

text \<open>The end of the timed wait, at the deadline or because the state changed, and the test of the
  inner loop that follows it. A worker that leaves the inner loop is at the head of the outer one.\<close>

definition worker_awake :: "runtime \<Rightarrow> runtime" where
  "worker_awake r =
     (let r = (if lifecycle_state r = kRuntimePausing then acknowledge_pause r else r)
      in if \<not> stop_requested r \<and> lifecycle_state r = kRuntimeRunning
         then r\<lparr>worker := Stepping\<rparr> else r\<lparr>worker := AtGate\<rparr>)"

section \<open>Interleaving\<close>

text \<open>The worker's next piece of code; none is enabled at a closed gate or after it returned.\<close>

inductive worker_step :: "runtime \<Rightarrow> runtime \<Rightarrow> bool" where
  enter: "worker r = AtGate \<Longrightarrow> gate_open r \<Longrightarrow> worker_step r (worker_enter r)"
| step_ok: "worker r = Stepping \<Longrightarrow> worker_step r (worker_complete r)"
| step_throws: "worker r = Stepping \<Longrightarrow> worker_step r (record_worker_failure r)"
| snapshot_throws: "worker r = Stepping \<Longrightarrow> worker_step r (record_worker_failure (worker_complete r))"
| commit: "worker r = Stepped \<Longrightarrow> worker_step r (worker_commit r)"
| awake: "worker r = Sleeping \<Longrightarrow> worker_step r (worker_awake r)"

inductive caller_step :: "runtime \<Rightarrow> outcome \<Rightarrow> runtime \<Rightarrow> bool" where
  starts: "caller r = NoCaller \<Longrightarrow> lifecycle_state r \<noteq> kRuntimePausing \<Longrightarrow>
     transition_to_running ''start'' r = (out, r') \<Longrightarrow> caller_step r out r'"
| resumes: "caller r = NoCaller \<Longrightarrow> lifecycle_state r \<noteq> kRuntimePausing \<Longrightarrow>
     transition_to_running ''resume'' r = (out, r') \<Longrightarrow> caller_step r out r'"
| pauses: "caller r = NoCaller \<Longrightarrow> pause_begin r = (out, r') \<Longrightarrow> caller_step r out r'"
| pause_first: "caller r = AwaitingPause \<Longrightarrow> lifecycle_state r \<noteq> kRuntimePausing \<Longrightarrow>
     pause_resumed r = (out, r') \<Longrightarrow> caller_step r out r'"
| pause_second: "caller r = AwaitingStop \<Longrightarrow> is_terminal_state r \<Longrightarrow>
     pause_end r = (out, r') \<Longrightarrow> caller_step r out r'"
| stops: "caller r = NoCaller \<Longrightarrow> stop_begin r = (out, r') \<Longrightarrow> caller_step r out r'"
| joins: "caller r = Joining \<Longrightarrow> worker r = Exited \<Longrightarrow> stop_end r = (out, r') \<Longrightarrow> caller_step r out r'"

inductive runtime_step :: "runtime \<Rightarrow> runtime \<Rightarrow> bool" where
  by_worker: "worker_step r r' \<Longrightarrow> runtime_step r r'"
| by_caller: "caller_step r out r' \<Longrightarrow> runtime_step r r'"

inductive reachable :: "runtime \<Rightarrow> runtime \<Rightarrow> bool" where
  origin: "reachable r r"
| later: "reachable r s \<Longrightarrow> runtime_step s t \<Longrightarrow> reachable r t"

inductive_cases worker_stepE: "worker_step r r'"
inductive_cases caller_stepE: "caller_step r out r'"
inductive_cases runtime_stepE: "runtime_step r r'"

lemmas caller_defs = transition_to_running_def pause_begin_def pause_resumed_def pause_end_def
  stop_begin_def stop_end_def rethrow_if_failed_def mark_not_ready_def
lemmas worker_defs = worker_enter_def worker_complete_def record_worker_failure_def worker_commit_def
  worker_awake_def acknowledge_pause_def publish_def mark_not_ready_def

section \<open>The lifecycle invariant\<close>

definition lifecycle_invariant :: "runtime \<Rightarrow> bool" where
  "lifecycle_invariant r \<longleftrightarrow>
     (is_ready r \<longrightarrow> lifecycle_state r \<in> {kRuntimeRunning, kRuntimePausing}) \<and>
     (worker_failed r \<longleftrightarrow> lifecycle_state r = kRuntimeFailed) \<and>
     (lifecycle_state r \<in> {kRuntimeReady, kRuntimePaused} \<longrightarrow> worker r = AtGate) \<and>
     (worker r = Exited \<longrightarrow> lifecycle_state r \<in> {kRuntimeStopping, kRuntimeStopped, kRuntimeFailed}) \<and>
     (lifecycle_state r = kRuntimeFailed \<longrightarrow> worker r = Exited) \<and>
     (lifecycle_state r = kRuntimeStopped \<longrightarrow> worker_joined r) \<and>
     (worker_joined r \<longrightarrow> worker r = Exited \<and> lifecycle_state r \<in> {kRuntimeStopped, kRuntimeFailed}) \<and>
     (lifecycle_state r = kRuntimeStopping \<longrightarrow> stop_requested r \<and> caller r = Joining) \<and>
     (stop_requested r \<longrightarrow> lifecycle_state r \<in> {kRuntimeStopping, kRuntimeStopped, kRuntimeFailed}) \<and>
     (lifecycle_state r = kRuntimePausing \<longrightarrow> caller r = AwaitingPause) \<and>
     (caller r = AwaitingPause \<longrightarrow> lifecycle_state r \<in> {kRuntimePausing, kRuntimePaused, kRuntimeFailed}) \<and>
     (caller r = Joining \<longrightarrow> stop_requested r \<and> \<not> worker_joined r) \<and>
     caller r \<noteq> AwaitingStop \<and>
     published_tick r \<le> committed_tick r \<and> committed_tick r \<le> Suc (published_tick r) \<and>
     (worker r = Stepped \<longrightarrow> committed_tick r = Suc (published_tick r)) \<and>
     (worker r \<in> {AtGate, Stepping, Sleeping} \<longrightarrow> committed_tick r = published_tick r)"

lemma runtime_create_invariant: "lifecycle_invariant (runtime_create n)"
  by (simp add: lifecycle_invariant_def runtime_create_def)

lemma worker_step_invariant:
  assumes "worker_step r r'" and inv: "lifecycle_invariant r"
  shows "lifecycle_invariant r'"
  using assms(1)
proof (cases rule: worker_step.cases)
  case enter
  with inv show ?thesis
    by (cases "lifecycle_state r"; cases "stop_requested r";
        simp add: lifecycle_invariant_def worker_defs gate_open_def Let_def; auto?)
next
  case step_ok
  with inv show ?thesis
    by (cases "lifecycle_state r"; cases "stop_requested r";
        simp add: lifecycle_invariant_def worker_defs gate_open_def Let_def; auto?)
next
  case step_throws
  with inv show ?thesis
    by (cases "lifecycle_state r"; cases "stop_requested r";
        simp add: lifecycle_invariant_def worker_defs gate_open_def Let_def; auto?)
next
  case snapshot_throws
  with inv show ?thesis
    by (cases "lifecycle_state r"; cases "stop_requested r";
        simp add: lifecycle_invariant_def worker_defs gate_open_def Let_def; auto?)
next
  case commit
  with inv show ?thesis
    by (cases "lifecycle_state r"; cases "stop_requested r";
        simp add: lifecycle_invariant_def worker_defs gate_open_def Let_def; auto?)
next
  case awake
  with inv show ?thesis
    by (cases "lifecycle_state r"; cases "stop_requested r";
        simp add: lifecycle_invariant_def worker_defs gate_open_def Let_def; auto?)
qed

lemma transition_to_running_invariant:
  assumes "lifecycle_invariant r" and "caller r = NoCaller" and "lifecycle_state r \<noteq> kRuntimePausing"
    and "transition_to_running operation r = (out, r')"
  shows "lifecycle_invariant r'"
proof -
  have "r' = snd (transition_to_running operation r)" by (simp add: assms(4))
  with assms(1-3) show ?thesis
    by (cases "lifecycle_state r") (simp_all add: lifecycle_invariant_def transition_to_running_def)
qed

lemma caller_step_invariant:
  assumes "caller_step r out r'" and inv: "lifecycle_invariant r"
  shows "lifecycle_invariant r'"
  using assms(1)
proof (cases rule: caller_step.cases)
  case starts
  show ?thesis by (rule transition_to_running_invariant [OF inv starts])
next
  case resumes
  show ?thesis by (rule transition_to_running_invariant [OF inv resumes])
next
  case pauses
  then have r': "r' = snd (pause_begin r)" by simp
  have "lifecycle_state r \<noteq> kRuntimePausing" using inv pauses(1) by (auto simp: lifecycle_invariant_def)
  with inv pauses(1) r' show ?thesis
    by (cases "lifecycle_state r") (simp_all add: lifecycle_invariant_def pause_begin_def mark_not_ready_def)
next
  case pause_first
  with inv have "lifecycle_state r \<in> {kRuntimePaused, kRuntimeFailed}"
    by (simp add: lifecycle_invariant_def)
  with pause_first have "r' = r\<lparr>caller := NoCaller\<rparr>" by (auto simp: pause_resumed_def)
  with inv pause_first(1,2) show ?thesis
    by (cases "lifecycle_state r") (simp_all add: lifecycle_invariant_def)
next
  case pause_second
  with inv show ?thesis by (simp add: lifecycle_invariant_def)
next
  case stops
  show ?thesis
  proof (cases "worker_joined r")
    case True
    with stops inv show ?thesis by (simp add: stop_begin_def)
  next
    case False
    with stops have "r' = (mark_not_ready r)\<lparr>lifecycle_state := (if lifecycle_state r \<noteq> kRuntimeFailed
        then kRuntimeStopping else kRuntimeFailed), stop_requested := True, caller := Joining\<rparr>"
      by (simp add: stop_begin_def)
    with inv False stops(1) show ?thesis
      by (cases "lifecycle_state r") (simp_all add: lifecycle_invariant_def mark_not_ready_def)
  qed
next
  case joins
  then have "r' = snd (stop_end r)" by simp
  with inv joins(1,2) show ?thesis
    by (cases "lifecycle_state r") (simp_all add: lifecycle_invariant_def stop_end_def)
qed

lemma runtime_step_invariant:
  "runtime_step r r' \<Longrightarrow> lifecycle_invariant r \<Longrightarrow> lifecycle_invariant r'"
  by (erule runtime_stepE) (auto intro: worker_step_invariant caller_step_invariant)

lemma reachable_invariant:
  assumes "reachable (runtime_create n) r"
  shows "lifecycle_invariant r"
  using assms by (induction "runtime_create n" r rule: reachable.induct)
    (auto intro: runtime_create_invariant runtime_step_invariant)

section \<open>Quiescence, publication and failure\<close>

lemma quiescent_worker:
  assumes "lifecycle_invariant r"
    and "lifecycle_state r \<in> {kRuntimeReady, kRuntimePaused, kRuntimeStopped, kRuntimeFailed}"
  shows "\<not> worker_step r r'"
proof
  assume "worker_step r r'"
  then show False
    using assms by cases (auto simp: lifecycle_invariant_def gate_open_def)
qed

lemma caller_step_ticks:
  "caller_step r out r' \<Longrightarrow> published_tick r' = published_tick r \<and> committed_tick r' = committed_tick r"
  by (erule caller_stepE) (auto simp: caller_defs split: if_splits)

lemma worker_step_ticks:
  "worker_step r r' \<Longrightarrow> lifecycle_invariant r \<Longrightarrow>
     published_tick r \<le> published_tick r' \<and> committed_tick r \<le> committed_tick r'"
  by (erule worker_stepE) (simp_all add: worker_defs Let_def lifecycle_invariant_def)

lemma reachable_ticks:
  assumes "reachable r s" and "lifecycle_invariant r"
  shows "lifecycle_invariant s \<and> published_tick r \<le> published_tick s \<and> committed_tick r \<le> committed_tick s"
  using assms
proof induction
  case (later r s t)
  from later(2) show ?case
  proof cases
    case by_worker
    with later worker_step_ticks [OF by_worker] worker_step_invariant [OF by_worker] show ?thesis by force
  next
    case (by_caller out)
    with later caller_step_ticks [OF by_caller] caller_step_invariant [OF by_caller] show ?thesis by force
  qed
qed simp

lemma failure_is_permanent:
  assumes "reachable r s" and "lifecycle_invariant r" and "lifecycle_state r = kRuntimeFailed"
  shows "lifecycle_invariant s \<and> lifecycle_state s = kRuntimeFailed \<and> published_tick s = published_tick r"
  using assms
proof induction
  case (later r s t)
  then have s: "lifecycle_invariant s" "lifecycle_state s = kRuntimeFailed"
    "published_tick s = published_tick r" by simp_all
  from later(2) show ?case
  proof cases
    case by_worker
    with quiescent_worker [OF s(1), of t] s(2) show ?thesis by simp
  next
    case (by_caller out)
    moreover have "worker_failed s" using s by (simp add: lifecycle_invariant_def)
    ultimately have "lifecycle_state t = kRuntimeFailed"
      using s(2) by cases (auto simp: caller_defs split: if_splits)
    with s caller_step_ticks [OF by_caller] caller_step_invariant [OF by_caller] show ?thesis by simp
  qed
qed simp

text \<open>
  C16: The lifecycle of the runtime. In every state it can reach: readers see it ready only while it
  runs or is about to pause; while it is ready to start, paused, stopped or failed the worker has
  nothing to do, so no tick is committed or published once \<open>pause\<close> or \<open>stop\<close> has returned; the
  published snapshot is the last committed tick or the one before it, and never goes back; a failure
  of the worker is permanent and every later start, resume and pause rethrows it.
\<close>

theorem runtime_lifecycle_is_sound:
  assumes "reachable (runtime_create n) r"
  shows "(is_ready r \<longrightarrow> lifecycle_state r \<in> {kRuntimeRunning, kRuntimePausing}) \<and>
    (lifecycle_state r \<in> {kRuntimeReady, kRuntimePaused, kRuntimeStopped, kRuntimeFailed} \<longrightarrow>
       (\<nexists>r'. worker_step r r')) \<and>
    published_tick r \<le> committed_tick r \<and> committed_tick r \<le> Suc (published_tick r) \<and>
    (\<forall>s. reachable r s \<longrightarrow> published_tick r \<le> published_tick s) \<and>
    (lifecycle_state r = kRuntimeFailed \<longrightarrow>
       (\<forall>s. reachable r s \<longrightarrow> lifecycle_state s = kRuntimeFailed \<and> published_tick s = published_tick r \<and>
         transition_to_running ''start'' s = (Rethrown, s) \<and>
         transition_to_running ''resume'' s = (Rethrown, s) \<and> pause_begin s = (Rethrown, s)))"
proof -
  have inv: "lifecycle_invariant r" by (rule reachable_invariant [OF assms])
  have ready: "is_ready r \<longrightarrow> lifecycle_state r \<in> {kRuntimeRunning, kRuntimePausing}"
    and ticks: "published_tick r \<le> committed_tick r" "committed_tick r \<le> Suc (published_tick r)"
    using inv by (simp_all add: lifecycle_invariant_def)
  have "transition_to_running ''start'' s = (Rethrown, s) \<and>
      transition_to_running ''resume'' s = (Rethrown, s) \<and> pause_begin s = (Rethrown, s)"
    if "lifecycle_invariant s" "lifecycle_state s = kRuntimeFailed" for s
    using that by (simp add: lifecycle_invariant_def transition_to_running_def pause_begin_def)
  then show ?thesis
    using ready ticks quiescent_worker [OF inv] reachable_ticks [OF _ inv] failure_is_permanent [OF _ inv]
    by blast
qed

section \<open>A pause that never returns\<close>

text \<open>
  C17: Where \<open>pause\<close> blocks for ever. A caller that waits for its pause to be acknowledged is in a
  state from which nothing at all can happen exactly when the worker is still at its outer wait,
  whose predicate names running and stopping and not pausing. The witness reaches that state: a
  start and a pause before the worker has woken. The caller holds the transition mutex, so a later
  \<open>stop\<close>, and the destructor that calls it, wait for ever too.
\<close>

theorem pause_blocks_exactly:
  assumes "reachable (runtime_create n) r" and "caller r = AwaitingPause"
  shows "(\<nexists>r'. runtime_step r r') \<longleftrightarrow> lifecycle_state r = kRuntimePausing \<and> worker r = AtGate"
proof
  have inv: "lifecycle_invariant r" by (rule reachable_invariant [OF assms(1)])
  assume stuck: "\<nexists>r'. runtime_step r r'"
  have "lifecycle_state r = kRuntimePausing"
  proof (rule ccontr)
    assume "lifecycle_state r \<noteq> kRuntimePausing"
    then have "caller_step r (fst (pause_resumed r)) (snd (pause_resumed r))"
      using assms(2) by (intro pause_first) simp_all
    with stuck show False using by_caller by blast
  qed
  moreover have "worker r = AtGate"
    using stuck step_ok [of r] commit [of r] awake [of r] by_worker inv \<open>lifecycle_state r = kRuntimePausing\<close>
    by (cases "worker r") (auto simp: lifecycle_invariant_def)
  ultimately show "lifecycle_state r = kRuntimePausing \<and> worker r = AtGate" by blast
next
  have inv: "lifecycle_invariant r" by (rule reachable_invariant [OF assms(1)])
  assume closed: "lifecycle_state r = kRuntimePausing \<and> worker r = AtGate"
  show "\<nexists>r'. runtime_step r r'"
  proof
    assume "\<exists>r'. runtime_step r r'"
    then obtain r' where "runtime_step r r'" by blast
    then show False
    proof cases
      case by_worker
      then show ?thesis
        using closed inv by cases (auto simp: gate_open_def lifecycle_invariant_def)
    next
      case (by_caller out)
      then show ?thesis using closed assms(2) by cases simp_all
    qed
  qed
qed

definition paused_before_waking :: runtime where
  "paused_before_waking = snd (pause_begin (snd (transition_to_running ''start'' (runtime_create 0))))"

theorem pause_blocks_exactly_witness:
  "reachable (runtime_create 0) paused_before_waking \<and> caller paused_before_waking = AwaitingPause \<and>
   (\<nexists>r'. runtime_step paused_before_waking r')"
proof -
  let ?s = "snd (transition_to_running ''start'' (runtime_create 0))"
  have "caller_step (runtime_create 0) Returned ?s"
    by (rule starts) (simp_all add: runtime_create_def transition_to_running_def)
  then have "reachable (runtime_create 0) ?s" by (intro later [OF origin] by_caller)
  moreover have "caller_step ?s Waits paused_before_waking"
    by (rule pauses)
      (simp_all add: paused_before_waking_def runtime_create_def transition_to_running_def pause_begin_def)
  ultimately have reach: "reachable (runtime_create 0) paused_before_waking" by (blast intro: later by_caller)
  have state: "caller paused_before_waking = AwaitingPause" "lifecycle_state paused_before_waking = kRuntimePausing"
    "worker paused_before_waking = AtGate"
    by (simp_all add: paused_before_waking_def runtime_create_def transition_to_running_def pause_begin_def)
  from pause_blocks_exactly [OF reach state(1)] reach state show ?thesis by simp
qed

section \<open>Stop completes\<close>

text \<open>An upper bound on the pieces of code the worker still runs once stop was requested.\<close>

primrec worker_rank :: "worker_phase \<Rightarrow> nat" where
  "worker_rank Exited = 0"
| "worker_rank AtGate = 1"
| "worker_rank Stepped = 2"
| "worker_rank Sleeping = 2"
| "worker_rank Stepping = 3"

lemma worker_step_when_stopping:
  assumes "worker_step r r'" and "lifecycle_invariant r" and "caller r = Joining"
  shows "lifecycle_invariant r' \<and> caller r' = Joining \<and> worker_rank (worker r') < worker_rank (worker r)"
proof -
  have "stop_requested r" "lifecycle_state r \<noteq> kRuntimePausing"
    using assms(2,3) by (auto simp: lifecycle_invariant_def)
  with assms(1,3) have "caller r' = Joining \<and> worker_rank (worker r') < worker_rank (worker r)"
    by cases (simp_all add: worker_defs Let_def)
  with worker_step_invariant [OF assms(1,2)] show ?thesis by simp
qed

lemma worker_run_when_stopping:
  assumes "(worker_step ^^ k) r s" and "lifecycle_invariant r" and "caller r = Joining"
  shows "lifecycle_invariant s \<and> caller s = Joining \<and> worker_rank (worker s) + k \<le> worker_rank (worker r)"
  using assms
proof (induction k arbitrary: s)
  case (Suc k)
  then obtain m where "(worker_step ^^ k) r m" and step: "worker_step m s" by auto
  with Suc have "lifecycle_invariant m" "caller m = Joining" "worker_rank (worker m) + k \<le> worker_rank (worker r)"
    by auto
  with worker_step_when_stopping [OF step] show ?case by simp
qed simp

lemma worker_moves_when_stopping:
  assumes "stop_requested r" and "worker r \<noteq> Exited"
  shows "\<exists>r'. worker_step r r'"
  using assms enter [of r] step_ok [of r] commit [of r] awake [of r]
  by (cases "worker r") (auto simp: gate_open_def)

text \<open>
  A stop that has begun completes. Whatever the worker was doing, it runs at most three more
  pieces of code, whichever way its step ends; it is never left waiting; and once it has no more to
  run, the join returns and leaves the runtime stopped, or failed if the worker had failed, with
  every later stop returning at once.
\<close>

theorem stop_completes:
  assumes "reachable (runtime_create n) r" and "caller r = Joining" and "(worker_step ^^ k) r s"
  shows "k \<le> 3 \<and> ((\<nexists>t. worker_step s t) \<longrightarrow>
    (\<exists>t. caller_step s Returned t \<and> worker_joined t \<and> \<not> is_ready t \<and> stop_begin t = (Returned, t) \<and>
       lifecycle_state t = (if worker_failed s then kRuntimeFailed else kRuntimeStopped)))"
proof -
  have s: "lifecycle_invariant s" "caller s = Joining" "worker_rank (worker s) + k \<le> worker_rank (worker r)"
    using worker_run_when_stopping [OF assms(3) reachable_invariant [OF assms(1)] assms(2)] by simp_all
  moreover have "worker_rank (worker r) \<le> 3" by (cases "worker r") simp_all
  ultimately have "k \<le> 3" by simp
  moreover have "\<exists>t. caller_step s Returned t \<and> worker_joined t \<and> \<not> is_ready t \<and> stop_begin t = (Returned, t) \<and>
       lifecycle_state t = (if worker_failed s then kRuntimeFailed else kRuntimeStopped)"
    if stuck: "\<nexists>t. worker_step s t"
  proof (intro exI conjI)
    have "worker s = Exited"
      using worker_moves_when_stopping [of s] stuck s by (auto simp: lifecycle_invariant_def)
    with s(2) show "caller_step s Returned (snd (stop_end s))"
      by (intro joins) (simp_all add: stop_end_def)
    show "worker_joined (snd (stop_end s))" "stop_begin (snd (stop_end s)) = (Returned, snd (stop_end s))"
      by (simp_all add: stop_end_def stop_begin_def)
    show "\<not> is_ready (snd (stop_end s))"
      using s \<open>worker s = Exited\<close> by (auto simp: stop_end_def lifecycle_invariant_def)
    show "lifecycle_state (snd (stop_end s)) = (if worker_failed s then kRuntimeFailed else kRuntimeStopped)"
      using s by (simp add: stop_end_def lifecycle_invariant_def)
  qed
  ultimately show ?thesis by blast
qed

section \<open>A short life\<close>

text \<open>A runtime that starts, commits a tick, and is stopped during the next step.\<close>

definition first_tick :: runtime where
  "first_tick = worker_commit (worker_complete (worker_enter (snd (transition_to_running ''start'' (runtime_create 0)))))"

definition stopped_in_step :: runtime where
  "stopped_in_step = snd (stop_begin (worker_awake first_tick))"

lemmas short_life_defs = first_tick_def stopped_in_step_def runtime_create_def transition_to_running_def
  stop_begin_def worker_defs gate_open_def Let_def

lemma reachable_worker: "reachable r s \<Longrightarrow> worker_step s t \<Longrightarrow> reachable r t"
  by (rule later [OF _ by_worker])

lemma reachable_caller: "reachable r s \<Longrightarrow> caller_step s out t \<Longrightarrow> reachable r t"
  by (rule later [OF _ by_caller])

lemma first_tick_reachable: "reachable (runtime_create 0) first_tick"
proof -
  let ?s = "snd (transition_to_running ''start'' (runtime_create 0))"
  have "caller_step (runtime_create 0) Returned ?s" by (rule starts) (simp_all add: short_life_defs)
  moreover have "worker_step ?s (worker_enter ?s)" by (rule enter) (simp_all add: short_life_defs)
  moreover have "worker_step (worker_enter ?s) (worker_complete (worker_enter ?s))"
    by (rule step_ok) (simp add: short_life_defs)
  moreover have "worker_step (worker_complete (worker_enter ?s)) first_tick"
    unfolding first_tick_def by (rule commit) (simp add: short_life_defs)
  ultimately show ?thesis
    by (rule reachable_worker [OF reachable_worker [OF reachable_worker [OF reachable_caller [OF origin]]]])
qed

lemma stopped_in_step_reachable: "reachable (runtime_create 0) stopped_in_step"
proof -
  have "worker_step first_tick (worker_awake first_tick)" by (rule awake) (simp add: short_life_defs)
  moreover have "caller_step (worker_awake first_tick) Waits stopped_in_step"
    unfolding stopped_in_step_def by (rule stops) (simp_all add: short_life_defs)
  ultimately show ?thesis
    by (rule reachable_caller [OF reachable_worker [OF first_tick_reachable]])
qed

theorem runtime_lifecycle_is_sound_witness:
  "is_ready first_tick \<and> published_tick first_tick = 1 \<and> lifecycle_state first_tick = kRuntimeRunning"
  using runtime_lifecycle_is_sound [OF first_tick_reachable] by (simp add: short_life_defs)

theorem stop_completes_witness:
  "\<exists>t. caller_step (worker_commit (worker_complete stopped_in_step)) Returned t \<and>
     lifecycle_state t = kRuntimeStopped \<and> published_tick stopped_in_step = 1"
proof -
  let ?s = "worker_commit (worker_complete stopped_in_step)"
  have "worker_step stopped_in_step (worker_complete stopped_in_step)"
    by (rule step_ok) (simp add: short_life_defs)
  moreover have "worker_step (worker_complete stopped_in_step) ?s"
    by (rule commit) (simp add: short_life_defs)
  ultimately have run: "(worker_step ^^ 2) stopped_in_step ?s" by (auto simp: numeral_2_eq_2)
  have "worker ?s = Exited" "\<not> worker_failed ?s" "published_tick stopped_in_step = 1"
    by (simp_all add: short_life_defs)
  moreover from this(1) have "\<nexists>t. worker_step ?s t" by (auto elim: worker_stepE)
  ultimately show ?thesis
    using stop_completes [OF stopped_in_step_reachable _ run] by (auto simp: short_life_defs)
qed

end
