(* ===== verification/Command_Sink.thy ===== *)
theory Command_Sink
  imports Command_Mailbox
begin

text \<open>
  The write-only capability of a command source (src/src/runtime/command_sink.cpp,
  command_sink_error.hpp): opening a session, submitting for it and closing it. The sink holds
  references to the mailbox, the directory and the allocator of one runtime, so the state here is
  their product. The loop that draws a controller id retries a compare-and-exchange until it takes
  the current value; run to its end it is one increment.
\<close>

section \<open>State and errors\<close>

record sink =
  sink_mailbox :: mailbox
  sink_directory :: directory
  sink_allocator :: allocator
  next_controller_id :: u64
  sink_catalogue :: npc_catalogue

definition sink_create :: "command_kind_mask \<Rightarrow> allocator \<Rightarrow> u64 \<Rightarrow> npc_catalogue \<Rightarrow> sink" where
  "sink_create accepted a first catalogue =
     \<lparr>sink_mailbox = mailbox_create accepted, sink_directory = [], sink_allocator = a,
      next_controller_id = first, sink_catalogue = catalogue\<rparr>"

datatype sink_error_code =
  kControllerDirectoryFull | kControllerKindRejected | kDisplayNameRejected | kControllerIdExhausted

primrec command_sink_error_code_name :: "sink_error_code \<Rightarrow> string" where
  "command_sink_error_code_name kControllerDirectoryFull = ''RUNTIME.CONTROLLER_DIRECTORY_FULL''"
| "command_sink_error_code_name kControllerKindRejected = ''RUNTIME.CONTROLLER_KIND_REJECTED''"
| "command_sink_error_code_name kDisplayNameRejected = ''RUNTIME.DISPLAY_NAME_REJECTED''"
| "command_sink_error_code_name kControllerIdExhausted = ''RUNTIME.CONTROLLER_ID_EXHAUSTED''"

text \<open>What \<open>open_session\<close> throws: its own coded error, or the validation error of an id below the range.\<close>

datatype sink_error = CommandSinkError sink_error_code string | IdentityError sim_error

section \<open>Sessions\<close>

definition issue_controller_id :: "sink \<Rightarrow> (sink_error + controller_id) \<times> sink" where
  "issue_controller_id s =
     (let issued = next_controller_id s in
      if issued > kMaximumControllerId
      then (Inl (CommandSinkError kControllerIdExhausted ''command_sink.controller_id''), s)
      else (case controller_id_create issued of Inl e \<Rightarrow> Inl (IdentityError e) | Inr c \<Rightarrow> Inr c,
            s\<lparr>next_controller_id := issued + 1\<rparr>))"

text \<open>The locked sections of a call. Directory and mailbox have a lock each, and no call holds both: between
  two sections of one call any other operation can run (\<open>Session_Calls\<close> interleaves them).\<close>

definition present :: "controller_id \<Rightarrow> string \<Rightarrow> string \<Rightarrow> sink \<Rightarrow> registration_result \<times> sink" where
  "present c kind name s =
     (let (registration, directory) = register_presentation c kind name (sink_directory s)
      in (registration, s\<lparr>sink_directory := directory\<rparr>))"

definition admit :: "controller_id \<Rightarrow> sink \<Rightarrow> bool \<times> sink" where
  "admit c s = (let (registered, mb) = register_exchange c (sink_mailbox s) in (registered, s\<lparr>sink_mailbox := mb\<rparr>))"

definition withdraw :: "controller_id \<Rightarrow> sink \<Rightarrow> sink" where
  "withdraw c s = s\<lparr>sink_directory := snd (directory_close c (sink_directory s))\<rparr>"

definition resign :: "controller_id \<Rightarrow> sink \<Rightarrow> bool \<times> sink" where
  "resign c s = (let (retired, mb) = retire_exchange c (sink_mailbox s) in (retired, s\<lparr>sink_mailbox := mb\<rparr>))"

text \<open>The two calls, as one caller runs them.\<close>

definition enrol :: "controller_id \<Rightarrow> string \<Rightarrow> string \<Rightarrow> sink \<Rightarrow> (sink_error + controller_id) \<times> sink" where
  "enrol c kind name s =
     (let (registration, s) = present c kind name s
      in if registration \<noteq> kRegistered
         then (Inl (CommandSinkError kControllerDirectoryFull ''command_sink.controller_directory''), s)
         else let (registered, s) = admit c s
           in if \<not> registered
              then (Inl (CommandSinkError kControllerDirectoryFull ''command_sink.tuning_exchange''), withdraw c s)
              else (Inr c, s))"

definition open_session :: "string \<Rightarrow> string \<Rightarrow> sink \<Rightarrow> (sink_error + controller_id) \<times> sink" where
  "open_session kind name s =
     (if \<not> is_valid_controller_kind kind
      then (Inl (CommandSinkError kControllerKindRejected ''command_sink.controller_kind''), s)
      else if \<not> is_valid_display_name name
      then (Inl (CommandSinkError kDisplayNameRejected ''command_sink.display_name''), s)
      else case issue_controller_id s of
        (Inl e, s') \<Rightarrow> (Inl e, s')
      | (Inr c, s') \<Rightarrow> enrol c kind name s')"

definition close_session :: "controller_id \<Rightarrow> sink \<Rightarrow> close_result \<times> sink" where
  "close_session c s =
     (let (retired, s) = resign c s
      in if \<not> retired then (kUnknownControllerId, s) else (kClosed, withdraw c s))"

section \<open>Submission\<close>

fun stamped_controller_of :: "command \<Rightarrow> controller_id option" where
  "stamped_controller_of (SpawnCommand c) = Some c"
| "stamped_controller_of (SetSeatCountCommand c n) = Some c"
| "stamped_controller_of (ClearSeatCommand c i) = Some c"
| "stamped_controller_of (SeatNpcCommand c i k p) = Some c"
| "stamped_controller_of (StartMatchCommand c) = Some c"
| "stamped_controller_of (LeaveCommand c) = Some c"
| "stamped_controller_of (JoinCommand c i d) = Some c"
| "stamped_controller_of (SetMovementTuningCommand c q v t) = Some c"
| "stamped_controller_of (DespawnCommand e) = None"
| "stamped_controller_of (ThrustCommand e d g b) = None"
| "stamped_controller_of (ShieldCommand e g) = None"
| "stamped_controller_of (ChargeCommand e d g) = None"
| "stamped_controller_of (RotateVelocityCommand e w g) = None"

definition direction_in_range :: "vector2 \<Rightarrow> bool" where
  "direction_in_range d \<longleftrightarrow> \<bar>vx d\<bar> \<le> 1 \<and> \<bar>vy d\<bar> \<le> 1"

definition generation_is_zero :: "tick option \<Rightarrow> bool" where
  "generation_is_zero g \<longleftrightarrow> (case g of None \<Rightarrow> False | Some t \<Rightarrow> tick_value t = 0)"

definition check_directed ::
  "submission_result \<Rightarrow> submission_result \<Rightarrow> vector2 \<Rightarrow> tick option \<Rightarrow> submission_result" where
  "check_directed direction_refusal generation_refusal d g =
     (if \<not> direction_in_range d then direction_refusal
      else if generation_is_zero g then generation_refusal else kAccepted)"

definition check_join :: "u64 option \<Rightarrow> npc_declaration option \<Rightarrow> submission_result" where
  "check_join seat expected =
     (if expected \<noteq> None \<and> (seat = None \<or> \<not> declaration_is_valid (the expected))
      then kRejectedJoinDeclarationInvalid
      else case seat of
        None \<Rightarrow> kAccepted
      | Some i \<Rightarrow> if unat i \<ge> kMaximumSeatCount then kRejectedSeatIndexOutOfRange else kAccepted)"

text \<open>The value checks, against the catalogue and the cursor the allocator shows. The cursor is read
  through a \<open>noexcept\<close> accessor that constructs an id: once the id space is used up the construction
  throws and the process ends, which is \<open>None\<close> here.\<close>

fun validate_command_values :: "npc_catalogue \<Rightarrow> allocator \<Rightarrow> command \<Rightarrow> submission_result option" where
  "validate_command_values cat a (ThrustCommand e d g b) =
     Some (check_directed kRejectedThrustDirectionOutOfRange kRejectedThrustInputGenerationOutOfRange d g)"
| "validate_command_values cat a (ShieldCommand e g) =
     Some (if generation_is_zero g then kRejectedShieldInputGenerationOutOfRange else kAccepted)"
| "validate_command_values cat a (ChargeCommand e d g) =
     Some (check_directed kRejectedChargeDirectionOutOfRange kRejectedChargeInputGenerationOutOfRange d g)"
| "validate_command_values cat a (RotateVelocityCommand e w g) =
     Some (if g = Some tick_zero then kRejectedRotationInputGenerationOutOfRange else kAccepted)"
| "validate_command_values cat a (DespawnCommand e) =
     (case next_entity_id_of a of
        Inl err \<Rightarrow> None
      | Inr next \<Rightarrow> Some (if entity_value e \<ge> entity_value next then kRejectedUnissuedEntityId else kAccepted))"
| "validate_command_values cat a (JoinCommand c i d) = Some (check_join i d)"
| "validate_command_values cat a (ClearSeatCommand c i) =
     Some (if unat i \<ge> kMaximumSeatCount then kRejectedSeatIndexOutOfRange else kAccepted)"
| "validate_command_values cat a (SeatNpcCommand c i k p) =
     Some (if unat i \<ge> kMaximumSeatCount then kRejectedSeatIndexOutOfRange
           else if \<not> catalogue_contains cat \<lparr>declared_kind = k, declared_profile = p\<rparr>
           then kRejectedNpcDeclarationUnknown else kAccepted)"
| "validate_command_values cat a (SetSeatCountCommand c n) =
     Some (if unat n < kMinimumSeatCount \<or> unat n > kMaximumSeatCount
           then kRejectedSeatCountOutOfRange else kAccepted)"
| "validate_command_values cat a (SetMovementTuningCommand c q v t) =
     Some (if q = 0 \<or> q > kMaximumProtocolSafeInteger then kRejectedTuningRequestIdOutOfRange
           else if v > kMaximumProtocolSafeInteger then kRejectedTuningRevisionOutOfRange else kAccepted)"
| "validate_command_values cat a (SpawnCommand c) = Some kAccepted"
| "validate_command_values cat a (StartMatchCommand c) = Some kAccepted"
| "validate_command_values cat a (LeaveCommand c) = Some kAccepted"

definition sink_submit :: "int \<Rightarrow> controller_id \<Rightarrow> command \<Rightarrow> sink \<Rightarrow> submission_result option \<times> sink" where
  "sink_submit now controller command s =
     (if \<not> directory_contains (sink_directory s) controller then (Some kRejectedSessionNotOpen, s)
      else if stamped_controller_of command \<noteq> None \<and> stamped_controller_of command \<noteq> Some controller
      then (Some kRejectedForeignController, s)
      else case validate_command_values (sink_catalogue s) (sink_allocator s) command of
        None \<Rightarrow> (None, s)
      | Some res \<Rightarrow>
          if res \<noteq> kAccepted then (Some res, s)
          else let (res, mb) = submit now command (sink_mailbox s) in (Some res, s\<lparr>sink_mailbox := mb\<rparr>))"

section \<open>A tick takes its input\<close>

text \<open>The worker's side: it drains, reserves a block of the size the spawns need, and creates the
  batch (the part of \<open>SimulationRuntime::run\<close> before the step).\<close>

definition is_spawn_kind :: "command \<Rightarrow> bool" where
  "is_spawn_kind c \<longleftrightarrow> command_kind_of c = kSpawn"

definition spawn_command_count :: "command list \<Rightarrow> u64" where
  "spawn_command_count cs = fold (\<lambda>c n. if is_spawn_kind c then n + 1 else n) cs 0"

definition take_input :: "sink \<Rightarrow> input_batch result \<times> sink" where
  "take_input s =
     (let (cs, mb) = drain (sink_mailbox s); s = s\<lparr>sink_mailbox := mb\<rparr> in
      case reserve_for_tick (spawn_command_count cs) (sink_allocator s) of
        Inl e \<Rightarrow> (Inl e, s)
      | Inr (r, a) \<Rightarrow> (input_batch_create cs (accepted_kinds mb) r, s\<lparr>sink_allocator := a\<rparr>))"

section \<open>What a validated command can be relied on for\<close>

text \<open>A command that no reservation above the cursor \<open>k\<close> makes the engine refuse.\<close>

definition tick_safe :: "u64 \<Rightarrow> command \<Rightarrow> bool" where
  "tick_safe k c \<longleftrightarrow> (\<forall>r. k \<le> entity_value (first_id r) \<longrightarrow> validate_payload c r = Inr ())"

lemma tick_safe_later: "tick_safe k c \<Longrightarrow> k \<le> k' \<Longrightarrow> tick_safe k' c"
  unfolding tick_safe_def by (blast intro: order_trans)

lemma generation_checked: "\<not> generation_is_zero g \<longleftrightarrow> validate_generation g path = Inr ()"
  by (cases g) (auto simp: generation_is_zero_def validate_generation_def tick_zero_def tick.expand)

lemma direction_checked: "direction_in_range d \<longleftrightarrow> validate_direction_range d path = Inr ()"
  by (simp add: direction_in_range_def validate_direction_range_def within_direction_component_range_def)

lemma join_checked: "check_join i d = kAccepted \<longleftrightarrow> validate_join i d = Inr ()"
  by (auto simp: check_join_def validate_join_def validate_seat_index_def split: option.splits)

lemma despawn_checked:
  assumes "next_entity_id_of a = Inr next" and "\<not> entity_value e \<ge> entity_value next"
  shows "tick_safe (next_entity_id a) (DespawnCommand e)"
proof -
  have "entity_value next = next_entity_id a"
    using assms(1) by (simp add: next_entity_id_of_def entity_id_create_Inr)
  then show ?thesis
    using assms(2) by (auto simp: tick_safe_def validate_despawn_target_def reservation_contains_def)
qed

lemma validated_is_tick_safe:
  assumes "validate_command_values cat a c = Some kAccepted"
  shows "tick_safe (next_entity_id a) c"
proof (cases c)
  case (DespawnCommand e)
  with assms show ?thesis by (auto intro: despawn_checked split: sum.splits if_splits)
next
  case (SetSeatCountCommand c n)
  with assms show ?thesis by (auto simp: tick_safe_def validate_seat_count_def split: if_splits)
next
  case (RotateVelocityCommand e w g)
  with assms show ?thesis by (auto simp: tick_safe_def validate_generation_def split: if_splits)
qed (use assms in \<open>auto simp: tick_safe_def check_directed_def direction_checked [symmetric]
    generation_checked [symmetric] join_checked validate_seat_index_def validate_tuning_def
    generation_is_zero_def tick_zero_def try_then_Inr_iff split: if_splits option.splits\<close>)

section \<open>What a submission adds to the mailbox\<close>

lemma submit_locked_pending:
  assumes "submit_locked c mb = (res, mb')"
  shows "set (pending mb') \<subseteq> insert c (set (pending mb))"
  using assms
proof (cases rule: submit_locked_cases)
  case (superseded i)
  then show ?thesis using set_update_subset_insert [of "pending mb" i c] by simp
next
  case (evicted i)
  then show ?thesis
    using set_take_subset [of i "pending mb"] set_drop_subset [of "Suc i" "pending mb"] by auto
qed auto

lemma submit_pending:
  "set (pending (snd (submit now c mb))) \<subseteq> insert c (set (pending mb))"
proof (cases "command_kind_of c = kSetMovementTuning")
  case True
  then obtain ctl q v t where c: "c = SetMovementTuningCommand ctl q v t" by (cases c) simp_all
  have "set (pending (snd (admit_tuning ctl q v t now mb0))) \<subseteq> insert c (set (pending mb0))" for mb0
  proof -
    let ?mb1 = "mb0\<lparr>exchanges := modify_exchange ctl (\<lambda>x. x\<lparr>request_high_water := q,
        exchange_request := Some q,
        next_eligible_at := Some (now + uint kMovementTuningMinimumIntervalMilliseconds * 1000000)\<rparr>)
        (exchanges mb0)\<rparr>"
    obtain res mb' where s: "submit_locked c ?mb1 = (res, mb')" by (cases "submit_locked c ?mb1")
    with submit_locked_pending [OF s] show ?thesis by (simp add: admit_tuning_def c)
  qed
  from this [of "tally count_submitted mb"] show ?thesis
    by (auto simp: c submit_tuning_def Let_def split: option.split)
next
  case False
  obtain res mb' where s: "submit_locked c (tally count_submitted mb) = (res, mb')"
    by (cases "submit_locked c (tally count_submitted mb)")
  with submit_locked_pending [OF s] False show ?thesis by (simp add: submit_not_tuning)
qed

lemma retire_pending:
  "set (pending (snd (retire_exchange c mb))) \<subseteq> insert (LeaveCommand c) (set (pending mb))"
proof -
  let ?mb0 = "tally count_submitted (mb\<lparr>exchanges := erase_exchange c (exchanges mb)\<rparr>)"
  obtain res mb' where s: "submit_locked (LeaveCommand c) ?mb0 = (res, mb')"
    by (cases "submit_locked (LeaveCommand c) ?mb0")
  with submit_locked_pending [OF s] show ?thesis by (auto simp: retire_exchange_def)
qed

section \<open>Everything that can happen around one runtime\<close>

text \<open>The operations of the sources, of the worker and of the delivery, in any order. Each runs under
  the lock of what it touches, so opening and closing a session are their sections, here in any order and
  for any controller; \<open>SendLate\<close> is the second half of a submission whose checks were made earlier,
  against a cursor \<open>k\<close> the allocator has since moved past.\<close>

datatype runtime_op =
  DrawId
| Present controller_id string string
| Admit controller_id
| Withdraw controller_id
| Resign controller_id
| Send int controller_id command
| SendLate int u64 command
| TakeInput
| Publish "tuning_decision list"
| Deliver controller_id tick

definition on_mailbox :: "mailbox_op \<Rightarrow> sink \<Rightarrow> sink" where
  "on_mailbox op s = s\<lparr>sink_mailbox := mailbox_apply op (sink_mailbox s)\<rparr>"

primrec runtime_apply :: "runtime_op \<Rightarrow> sink \<Rightarrow> sink" where
  "runtime_apply DrawId s = snd (issue_controller_id s)"
| "runtime_apply (Present c kind name) s = snd (present c kind name s)"
| "runtime_apply (Admit c) s = snd (admit c s)"
| "runtime_apply (Withdraw c) s = withdraw c s"
| "runtime_apply (Resign c) s = snd (resign c s)"
| "runtime_apply (Send now c command) s = snd (sink_submit now c command s)"
| "runtime_apply (SendLate now k command) s =
     (if k \<le> next_entity_id (sink_allocator s) \<and>
         validate_command_values (sink_catalogue s) ((sink_allocator s)\<lparr>next_entity_id := k\<rparr>) command = Some kAccepted
      then on_mailbox (Submit now command) s else s)"
| "runtime_apply TakeInput s = snd (take_input s)"
| "runtime_apply (Publish ds) s = on_mailbox (Complete ds) s"
| "runtime_apply (Deliver c covering) s = on_mailbox (Claim c covering) s"

definition runtime_run :: "runtime_op list \<Rightarrow> sink \<Rightarrow> sink" where
  "runtime_run = fold runtime_apply"

lemma runtime_run_simps [simp]:
  "runtime_run [] s = s"
  "runtime_run (op # ops) s = runtime_run ops (runtime_apply op s)"
  by (simp_all add: runtime_run_def)

lemma runtime_run_invariant:
  assumes "P s" and "\<And>op s. P s \<Longrightarrow> P (runtime_apply op s)"
  shows "P (runtime_run ops s)"
  using assms by (induction ops arbitrary: s) simp_all

section \<open>Every operation as a mailbox operation\<close>

text \<open>What an operation does to the mailbox is one of the mailbox's own operations, or nothing.\<close>

fun mailbox_effect :: "runtime_op \<Rightarrow> sink \<Rightarrow> mailbox_op option" where
  "mailbox_effect DrawId s = None"
| "mailbox_effect (Present c kind name) s = None"
| "mailbox_effect (Admit c) s = Some (Register c)"
| "mailbox_effect (Withdraw c) s = None"
| "mailbox_effect (Resign c) s = Some (Retire c)"
| "mailbox_effect (Send now c command) s =
     (if directory_contains (sink_directory s) c \<and>
         (stamped_controller_of command \<noteq> None \<longrightarrow> stamped_controller_of command = Some c) \<and>
         validate_command_values (sink_catalogue s) (sink_allocator s) command = Some kAccepted
      then Some (Submit now command) else None)"
| "mailbox_effect (SendLate now k command) s =
     (if k \<le> next_entity_id (sink_allocator s) \<and>
         validate_command_values (sink_catalogue s) ((sink_allocator s)\<lparr>next_entity_id := k\<rparr>) command = Some kAccepted
      then Some (Submit now command) else None)"
| "mailbox_effect TakeInput s = Some Drain"
| "mailbox_effect (Publish ds) s = Some (Complete ds)"
| "mailbox_effect (Deliver c covering) s = Some (Claim c covering)"

lemma issue_keeps [simp]:
  "sink_mailbox (snd (issue_controller_id s)) = sink_mailbox s"
  "sink_directory (snd (issue_controller_id s)) = sink_directory s"
  "sink_allocator (snd (issue_controller_id s)) = sink_allocator s"
  "sink_catalogue (snd (issue_controller_id s)) = sink_catalogue s"
  by (simp_all add: issue_controller_id_def Let_def)

lemma sections_keep [simp]:
  "sink_mailbox (snd (present c kind name s)) = sink_mailbox s"
  "sink_mailbox (withdraw c s) = sink_mailbox s"
  "sink_directory (snd (admit c s)) = sink_directory s"
  "sink_directory (snd (resign c s)) = sink_directory s"
  "sink_allocator (snd (present c kind name s)) = sink_allocator s"
  "sink_allocator (snd (admit c s)) = sink_allocator s"
  "sink_allocator (withdraw c s) = sink_allocator s"
  "sink_allocator (snd (resign c s)) = sink_allocator s"
  "next_controller_id (snd (present c kind name s)) = next_controller_id s"
  "next_controller_id (snd (admit c s)) = next_controller_id s"
  "next_controller_id (withdraw c s) = next_controller_id s"
  "next_controller_id (snd (resign c s)) = next_controller_id s"
  by (simp_all add: present_def admit_def withdraw_def resign_def case_prod_beta)

lemma sections_mailbox [simp]:
  "sink_mailbox (snd (admit c s)) = snd (register_exchange c (sink_mailbox s))"
  "sink_mailbox (snd (resign c s)) = snd (retire_exchange c (sink_mailbox s))"
  by (simp_all add: admit_def resign_def case_prod_beta)

lemma runtime_apply_mailbox:
  "sink_mailbox (runtime_apply op s) =
     (case mailbox_effect op s of None \<Rightarrow> sink_mailbox s | Some m \<Rightarrow> mailbox_apply m (sink_mailbox s))"
proof (cases op)
  case TakeInput
  then show ?thesis by (simp add: take_input_def Let_def case_prod_beta split: sum.split prod.split)
qed (auto simp: sink_submit_def on_mailbox_def Let_def case_prod_beta split: option.splits)

section \<open>The input a tick takes\<close>

lemma is_spawn_kind_iff: "is_spawn_kind c \<longleftrightarrow> is_spawn c"
  by (cases c) (simp_all add: is_spawn_kind_def is_spawn_def)

lemma spawn_command_count_filter:
  "spawn_command_count cs = word_of_nat (length (filter is_spawn cs))"
proof -
  have "fold (\<lambda>c n. if is_spawn_kind c then n + 1 else n) cs (m :: u64) =
      m + word_of_nat (length (filter is_spawn cs))" for m
    by (induction cs arbitrary: m) (simp_all add: is_spawn_kind_iff)
  then show ?thesis by (simp add: spawn_command_count_def)
qed

lemma spawn_count_small:
  "length cs \<le> kMaximumMailboxCommandCount \<Longrightarrow> length (filter is_spawn cs) \<le> 2048"
  by (rule le_trans [OF length_filter_le]) (simp add: kMaximumMailboxCommandCount_def)

lemma spawn_command_count_unat:
  assumes "length cs \<le> kMaximumMailboxCommandCount"
  shows "unat (spawn_command_count cs) = length (filter is_spawn cs)"
  using spawn_count_small [OF assms] by (simp add: spawn_command_count_filter u64_of_nat_unat)

definition input_invariant :: "sink \<Rightarrow> bool" where
  "input_invariant s \<longleftrightarrow> valid_pending (sink_mailbox s) \<and> valid_allocator (sink_allocator s) \<and>
     (\<forall>c\<in>set (pending (sink_mailbox s)). tick_safe (next_entity_id (sink_allocator s)) c)"

lemma leave_is_tick_safe: "tick_safe k (LeaveCommand c)"
  by (simp add: tick_safe_def)

lemma mailbox_apply_pending:
  assumes "m \<noteq> Drain"
  shows "set (pending (mailbox_apply m mb)) \<subseteq> set (pending mb) \<union>
    (case m of Submit now c \<Rightarrow> {c} | Retire c \<Rightarrow> {LeaveCommand c} | _ \<Rightarrow> {})"
proof (cases m)
  case (Submit now c)
  then show ?thesis using submit_pending [of now c mb] by simp
next
  case (Retire c)
  then show ?thesis using retire_pending [of c mb] by simp
qed (use assms in \<open>simp_all add: register_exchange_def complete_tuning_decisions_def
      claim_tuning_result_def split: option.split\<close>)

lemma effect_is_safe:
  assumes "mailbox_effect op s = Some (Submit now c)"
  shows "tick_safe (next_entity_id (sink_allocator s)) c"
proof (cases op)
  case (Send now' ctl command)
  with assms validated_is_tick_safe show ?thesis by (auto split: if_splits)
next
  case (SendLate now' k command)
  with assms have "k \<le> next_entity_id (sink_allocator s)" and
    v: "validate_command_values (sink_catalogue s) ((sink_allocator s)\<lparr>next_entity_id := k\<rparr>) c = Some kAccepted"
    by (auto split: if_splits)
  from tick_safe_later [OF validated_is_tick_safe [OF v]] this(1) show ?thesis by simp
qed (use assms in \<open>auto split: if_splits prod.splits sum.splits\<close>)

lemma runtime_apply_allocator:
  assumes "op \<noteq> TakeInput"
  shows "sink_allocator (runtime_apply op s) = sink_allocator s"
  using assms by (cases op) (auto simp: sink_submit_def on_mailbox_def Let_def case_prod_beta split: option.splits)

lemma take_input_allocator:
  assumes "input_invariant s"
  shows "valid_allocator (sink_allocator (snd (take_input s)))"
proof (cases "reserve_for_tick (spawn_command_count (pending (sink_mailbox s))) (sink_allocator s)")
  case (Inl e)
  with assms show ?thesis by (simp add: take_input_def drain_def input_invariant_def)
next
  case (Inr b)
  obtain r a where b: "b = (r, a)" by (cases b)
  have v: "valid_allocator (sink_allocator s)" and len: "length (pending (sink_mailbox s)) \<le> kMaximumMailboxCommandCount"
    using assms by (simp_all add: input_invariant_def valid_pending_def)
  from spawn_count_small [OF len] have "unat (spawn_command_count (pending (sink_mailbox s))) < 18446744073709551615"
    using spawn_command_count_unat [OF len] by simp
  from reserve_for_tick_step(1) [OF v this, of r a] Inr b show ?thesis
    by (simp add: take_input_def drain_def)
qed

lemma runtime_apply_input_invariant:
  assumes inv: "input_invariant s"
  shows "input_invariant (runtime_apply op s)"
proof (cases "op = TakeInput")
  case True
  have "pending (sink_mailbox (runtime_apply op s)) = []"
    using True by (simp add: take_input_def drain_def Let_def split: sum.split prod.split)
  with True take_input_allocator [OF inv] show ?thesis
    by (simp add: input_invariant_def valid_pending_def)
next
  case False
  show ?thesis
  proof (cases "mailbox_effect op s")
    case None
    with inv show ?thesis
      by (simp add: input_invariant_def runtime_apply_mailbox runtime_apply_allocator [OF False])
  next
    case (Some m)
    have drain: "m \<noteq> Drain" using Some False by (cases op) (auto split: if_splits prod.splits sum.splits)
    have "tick_safe (next_entity_id (sink_allocator s)) c"
      if "c \<in> set (pending (mailbox_apply m (sink_mailbox s)))" for c
      using that mailbox_apply_pending [OF drain, of "sink_mailbox s"] inv leave_is_tick_safe
        effect_is_safe [of op s] Some
      by (cases m) (auto simp: input_invariant_def)
    moreover have "valid_pending (mailbox_apply m (sink_mailbox s))"
      using inv mailbox_apply_valid by (simp add: input_invariant_def)
    ultimately show ?thesis
      using inv by (simp add: input_invariant_def runtime_apply_mailbox Some runtime_apply_allocator [OF False])
  qed
qed

lemma reserve_fails_only_exhausted:
  assumes "valid_allocator a" and "unat spawns \<le> 2048" and "reserve_for_tick spawns a = Inl e"
  shows "9007199254740992 < unat (next_entity_id a) + unat spawns + 1"
proof (cases "valid_entity_id (EntityId (next_entity_id a))")
  case True
  have w: "unat (spawns + kSystemCreatedEntityHeadroom) = Suc (unat spawns)"
    using assms(2) by (subst u64_add_unat) (simp_all add: kSystemCreatedEntityHeadroom_def)
  then have "spawns + kSystemCreatedEntityHeadroom \<noteq> 0" by (metis nat.distinct(1) unsigned_0)
  moreover have "entity_id_create (next_entity_id a) = Inr (EntityId (next_entity_id a))"
    using True entity_id_create_Inr by blast
  ultimately show ?thesis
    using assms(2,3) True w
    by (auto simp: reserve_for_tick_def Let_def reservation_create_total split: if_splits)
next
  case False
  with assms(1) show ?thesis by (auto simp: valid_allocator_def valid_entity_id_def u64_order)
qed

lemma sink_create_input_invariant:
  "valid_allocator a \<Longrightarrow> input_invariant (sink_create accepted a first cat)"
  by (simp add: input_invariant_def sink_create_def mailbox_create_valid) (simp add: mailbox_create_def)

lemma winning_command_distinct_slots:
  assumes "distinct (map command_slot cs)"
  shows "winning_command cs (command_slot c) = Some c \<longleftrightarrow> c \<in> set cs"
proof -
  have "distinct (map fst (rev (slotted cs)))"
    using assms by (simp add: slotted_def comp_def rev_map [symmetric])
  then have "winning_command cs (command_slot c) = Some c \<longleftrightarrow> (command_slot c, c) \<in> set (slotted cs)"
    by (simp add: winning_command_def map_of_eq_Some_iff)
  then show ?thesis by (auto simp: slotted_def)
qed

lemma filter_spawn_length:
  assumes "distinct (map command_slot cs)" and "distinct ds" and "set ds = set cs"
  shows "length (filter P ds) = length (filter P cs)"
proof -
  have "distinct cs" using assms(1) by (simp add: distinct_map)
  have "set (filter P ds) = set (filter P cs)" using assms(3) by auto
  with \<open>distinct cs\<close> assms(2) show ?thesis by (metis distinct_card distinct_filter)
qed

lemma take_input_total:
  assumes "input_invariant s"
  defines "cs \<equiv> pending (sink_mailbox s)"
  shows "case fst (take_input s) of
      Inr b \<Rightarrow> set (batch_commands b) = set cs \<and>
        length (filter is_spawn (batch_commands b)) < unat (id_count (batch_reservation b)) \<and>
        unat (entity_value (first_id (batch_reservation b))) = unat (next_entity_id (sink_allocator s))
    | Inl e \<Rightarrow> 9007199254740992 < unat (next_entity_id (sink_allocator s)) + length (filter is_spawn cs) + 1"
proof -
  have a: "valid_allocator (sink_allocator s)" and p: "valid_pending (sink_mailbox s)"
    and safe: "\<forall>c\<in>set cs. tick_safe (next_entity_id (sink_allocator s)) c"
    using assms by (simp_all add: input_invariant_def)
  have len: "length cs \<le> kMaximumMailboxCommandCount" and slots: "distinct (map command_slot cs)"
    and kinds: "\<forall>c\<in>set cs. mask_contains (accepted_kinds (sink_mailbox s)) (command_kind_of c)"
    using p by (simp_all add: valid_pending_def cs_def)
  note spawns = spawn_command_count_unat [OF len]
  note small = spawn_count_small [OF len]
  show ?thesis
  proof (cases "reserve_for_tick (spawn_command_count cs) (sink_allocator s)")
    case (Inl e)
    from reserve_fails_only_exhausted [OF a _ Inl] spawns small
    have "9007199254740992 < unat (next_entity_id (sink_allocator s)) + length (filter is_spawn cs) + 1" by simp
    with Inl show ?thesis by (simp add: take_input_def drain_def cs_def)
  next
    case (Inr b)
    obtain r a' where b: "b = (r, a')" by (cases b)
    have "unat (spawn_command_count cs) < 18446744073709551615" using spawns small by simp
    note step = reserve_for_tick_step [OF a this Inr [unfolded b]]
    have "\<forall>c\<in>set cs. validate_command c (accepted_kinds (sink_mailbox s)) r = Inr ()"
      using safe kinds step(3) by (simp add: validate_command_def tick_safe_def)
    moreover have "length cs \<le> kMaximumInputBatchCommandCount"
      using len by (simp add: kMaximumInputBatchCommandCount_def kMaximumMailboxCommandCount_def)
    ultimately obtain batch where batch: "input_batch_create cs (accepted_kinds (sink_mailbox s)) r = Inr batch"
      using input_batch_create_accepts by blast
    have members: "set (batch_commands batch) = set cs"
      using batch_members [OF batch] winning_command_distinct_slots [OF slots] by blast
    moreover have "distinct (batch_commands batch)"
      using ascending_distinct [OF batch_commands_spec(1) [OF batch]] by (simp add: distinct_map)
    ultimately have "length (filter is_spawn (batch_commands batch)) = length (filter is_spawn cs)"
      by (intro filter_spawn_length [OF slots])
    moreover have "batch_reservation batch = r" by (rule batch_commands_spec(3) [OF batch])
    ultimately show ?thesis
      using Inr b batch members step(3,4) spawns
      by (simp add: take_input_def drain_def cs_def)
  qed
qed

text \<open>
  C18: No client can make a tick fail. After any sequence of the locked sections of sessions
  opened and closed, interleaved in any way with each other and with submissions (also ones that were
  checked against an older cursor), ticks, answers and deliveries, the worker's
  input for the next tick is created: the batch holds exactly the pending commands, and its
  reservation starts at the cursor and holds an id for every spawn and at least one more. The only
  exception is that the id space is used up.
\<close>

theorem sink_never_poisons_a_tick:
  fixes ops accepted a first cat
  assumes "valid_allocator a"
  defines "s \<equiv> runtime_run ops (sink_create accepted a first cat)"
  defines "cs \<equiv> pending (sink_mailbox s)"
  shows "case fst (take_input s) of
      Inr b \<Rightarrow> set (batch_commands b) = set cs \<and>
        length (filter is_spawn (batch_commands b)) < unat (id_count (batch_reservation b)) \<and>
        unat (entity_value (first_id (batch_reservation b))) = unat (next_entity_id (sink_allocator s))
    | Inl e \<Rightarrow> 9007199254740992 < unat (next_entity_id (sink_allocator s)) + length (filter is_spawn cs) + 1"
proof -
  have "input_invariant s"
    unfolding s_def
    by (rule runtime_run_invariant [OF sink_create_input_invariant [OF assms(1)] runtime_apply_input_invariant])
  from take_input_total [OF this] show ?thesis unfolding cs_def .
qed

section \<open>The sink at work\<close>

definition sink_session :: "runtime_op list" where
  "sink_session =
     [DrawId, DrawId, Present (ControllerId 5) ''human'' ''ada'', Present (ControllerId 6) ''human'' ''bob'',
      Admit (ControllerId 6), Admit (ControllerId 5),
      Send 0 (ControllerId 5) (SpawnCommand (ControllerId 5)),
      Send 0 (ControllerId 5) (SpawnCommand (ControllerId 6)),
      Send 0 (ControllerId 6) (DespawnCommand (EntityId 40)),
      SendLate 0 10 (DespawnCommand (EntityId 9)), Resign (ControllerId 5), Withdraw (ControllerId 5)]"

definition sink_start :: sink where
  "sink_start = sink_create mask_all_bits \<lparr>first_issuable = 10, next_entity_id = 10\<rparr> 5 npc_catalogue_empty"

lemmas sink_defs = sink_session_def sink_start_def sink_create_def issue_controller_id_def
  present_def admit_def withdraw_def resign_def sink_submit_def on_mailbox_def register_presentation_def directory_close_def
  directory_contains_def is_valid_controller_kind_def is_valid_display_name_def is_bounded_printable_def
  is_printable_byte_def register_exchange_def retire_exchange_def submit_locked_def find_pending_slot_def
  index_or_size_def mailbox_create_def kMaximumControllerKindLength_def kMaximumDisplayNameLength_def
  kMaximumControllerDirectoryEntryCount_def kMaximumEntityCount_def kMaximumMailboxCommandCount_def
  controller_id_create_def next_entity_id_of_def entity_id_create_def of_controller_def of_entity_def
  kMaximumControllerId_def kMinimumControllerId_def kMaximumEntityId_def kMinimumEntityId_def
  kMaximumProtocolSafeInteger_def kMaximumSeatCount_def

theorem sink_never_poisons_a_tick_witness:
  "case fst (take_input (runtime_run sink_session sink_start)) of
      Inr b \<Rightarrow> set (batch_commands b) =
        {SpawnCommand (ControllerId 5), DespawnCommand (EntityId 9), LeaveCommand (ControllerId 5)}
    | Inl e \<Rightarrow> False"
proof -
  have v: "valid_allocator \<lparr>first_issuable = 10, next_entity_id = 10\<rparr>" by (simp add: valid_allocator_def)
  have p: "pending (sink_mailbox (runtime_run sink_session sink_start)) =
      [SpawnCommand (ControllerId 5), DespawnCommand (EntityId 9), LeaveCommand (ControllerId 5)]"
    and n: "next_entity_id (sink_allocator (runtime_run sink_session sink_start)) = 10"
    by (simp_all add: sink_defs)
  from sink_never_poisons_a_tick [OF v, of sink_session mask_all_bits 5 npc_catalogue_empty, folded sink_start_def]
  show ?thesis by (simp add: p n is_spawn_def split: sum.splits)
qed

end
