(* ===== verification/System_Pipeline.thy ===== *)
theory System_Pipeline
  imports Validation_Error
begin

text \<open>
  The declared systems of a tick (src/src/simulation/system_pipeline.cpp, system_pipeline.hpp): a
  declaration is validated, then partitioned by stage with the declared order kept, and read back one
  stage at a time. A stage is the enumeration's underlying value, which a caller can manufacture
  outside the three enumerators. A system is a name and an action of any type; a row may hold none.
\<close>

section \<open>Stages and systems\<close>

type_synonym system_stage = nat

definition kPreKernel :: system_stage where "kPreKernel = 0"
definition kPostKernel :: system_stage where "kPostKernel = 1"
definition kLifecycle :: system_stage where "kLifecycle = 2"

definition kSystemStages :: "system_stage list" where
  "kSystemStages = [kPreKernel, kPostKernel, kLifecycle]"

definition kSystemStageCount :: nat where "kSystemStageCount = length kSystemStages"

definition system_stage_name :: "system_stage \<Rightarrow> string" where
  "system_stage_name stage =
     (if stage = kPreKernel then ''pre_kernel''
      else if stage = kPostKernel then ''post_kernel''
      else if stage = kLifecycle then ''lifecycle''
      else ''system_stage_invalid'')"

record 's simulation_system =
  system_name :: string
  system_apply :: 's

record 's staged_system =
  stage :: system_stage
  held :: "'s simulation_system option"

record 's system_pipeline =
  staged_systems :: "'s staged_system list"
  stage_offsets :: "nat list"

section \<open>Validation\<close>

definition validate_declared_system :: "'s staged_system \<Rightarrow> unit result" where
  "validate_declared_system row =
     (case held row of
        None \<Rightarrow> Inl (SimError kSystemPipelineSystemMissing ''system_pipeline.systems'')
      | Some s \<Rightarrow>
          if system_name s = []
          then Inl (SimError kSystemPipelineSystemNameEmpty ''system_pipeline.systems.name'')
          else Inr ())"

text \<open>The name of a row that passed the first check.\<close>

definition row_name :: "'s staged_system \<Rightarrow> string" where
  "row_name row = (case held row of Some s \<Rightarrow> system_name s | None \<Rightarrow> [])"

fun validate_unique_names :: "string list \<Rightarrow> 's staged_system list \<Rightarrow> unit result" where
  "validate_unique_names earlier [] = Inr ()"
| "validate_unique_names earlier (row # rows) =
     (if row_name row \<in> set earlier
      then Inl (SimError kSystemPipelineDuplicateSystemName ''system_pipeline.systems.name'')
      else validate_unique_names (earlier @ [row_name row]) rows)"

section \<open>The partition\<close>

text \<open>One pass per stage over the declaration; the offset of a stage is the size before its pass.\<close>

fun partition_stages ::
  "system_stage list \<Rightarrow> 's staged_system list \<Rightarrow> 's staged_system list \<times> nat list \<Rightarrow> 's staged_system list \<times> nat list" where
  "partition_stages [] declared (staged, offsets) = (staged, offsets)"
| "partition_stages (s # ss) declared (staged, offsets) =
     partition_stages ss declared
       (staged @ filter (\<lambda>row. held row \<noteq> None \<and> stage row = s) declared, offsets @ [length staged])"

definition pipeline_create :: "'s staged_system list \<Rightarrow> 's system_pipeline result" where
  "pipeline_create declared =
     try_then (try_fold (\<lambda>row _. validate_declared_system row) declared ()) (\<lambda>_.
     try_then (validate_unique_names [] declared) (\<lambda>_.
       let (staged, offsets) = partition_stages kSystemStages declared ([], []) in
       if length staged \<noteq> length declared
       then Inl (SimError kSystemPipelineStageUnknown ''system_pipeline.systems.stage'')
       else Inr \<lparr>staged_systems = staged, stage_offsets = offsets @ [length staged]\<rparr>))"

definition pipeline_empty :: "'s system_pipeline" where
  "pipeline_empty = \<lparr>staged_systems = [], stage_offsets = [0, 0, 0, 0]\<rparr>"

definition with_appended :: "'s staged_system \<Rightarrow> 's system_pipeline \<Rightarrow> 's system_pipeline result" where
  "with_appended row p = pipeline_create (staged_systems p @ [row])"

definition systems_at :: "'s system_pipeline \<Rightarrow> system_stage \<Rightarrow> 's staged_system list result" where
  "systems_at p s =
     (if s \<ge> kSystemStageCount
      then Inl (SimError kSystemPipelineStageUnknown ''system_pipeline.systems_at.stage'')
      else let first = stage_offsets p ! s; last = stage_offsets p ! Suc s
        in Inr (take (last - first) (drop first (staged_systems p))))"

section \<open>What a pipeline holds\<close>

definition at_stage :: "system_stage \<Rightarrow> 's staged_system list \<Rightarrow> 's staged_system list" where
  "at_stage s rows = filter (\<lambda>row. stage row = s) rows"

lemma validated_rows:
  "try_fold (\<lambda>row _. validate_declared_system row) rows () = Inr () \<longleftrightarrow>
     (\<forall>row\<in>set rows. held row \<noteq> None \<and> row_name row \<noteq> [])"
  by (induction rows) (auto simp: try_then_Inr_iff validate_declared_system_def row_name_def
      split: option.splits if_splits)

lemma unique_names:
  "validate_unique_names earlier rows = Inr () \<longleftrightarrow>
     distinct (map row_name rows) \<and> set earlier \<inter> row_name ` set rows = {}"
  by (induction rows arbitrary: earlier) auto

lemma filter_count:
  "length (at_stage 0 rows) + length (at_stage 1 rows) + length (at_stage 2 rows) = length rows \<longleftrightarrow>
     (\<forall>row\<in>set rows. stage row < 3)"
proof -
  have le: "length (at_stage 0 rows) + length (at_stage 1 rows) + length (at_stage 2 rows) \<le> length rows" for rows :: "'a staged_system list"
    by (induction rows) (auto simp: at_stage_def)
  show ?thesis
  proof (induction rows)
    case Nil
    then show ?case by (simp add: at_stage_def)
  next
    case (Cons row rows)
    consider "stage row = 0" | "stage row = 1" | "stage row = 2" | "\<not> stage row < 3" by linarith
    then show ?case
      using Cons le [of rows] by cases (auto simp: at_stage_def)
  qed
qed

text \<open>\<open>create\<close> accepts exactly the declarations whose rows hold a named system, under a name of its
  own, at a known stage, and what it builds is the stable partition.\<close>

lemma pipeline_create_Inr:
  "pipeline_create rows = Inr p \<longleftrightarrow>
     (\<forall>row\<in>set rows. held row \<noteq> None \<and> row_name row \<noteq> [] \<and> stage row < 3) \<and> distinct (map row_name rows) \<and>
     p = \<lparr>staged_systems = at_stage 0 rows @ at_stage 1 rows @ at_stage 2 rows,
          stage_offsets = [0, length (at_stage 0 rows), length (at_stage 0 rows) + length (at_stage 1 rows), length rows]\<rparr>"
proof (cases "\<forall>row\<in>set rows. held row \<noteq> None \<and> row_name row \<noteq> []")
  case False
  then have "try_fold (\<lambda>row _. validate_declared_system row) rows () \<noteq> Inr ()"
    using validated_rows by blast
  with False show ?thesis by (auto simp: pipeline_create_def try_then_Inr_iff)
next
  case True
  then have "filter (\<lambda>row. held row \<noteq> None \<and> stage row = s) rows = at_stage s rows" for s
    unfolding at_stage_def by (intro filter_cong) auto
  then have parts: "partition_stages kSystemStages rows ([], []) =
      (at_stage 0 rows @ at_stage 1 rows @ at_stage 2 rows,
       [0, length (at_stage 0 rows), length (at_stage 0 rows) + length (at_stage 1 rows)])"
    by (simp add: kSystemStages_def kPreKernel_def kPostKernel_def kLifecycle_def)
  have "try_fold (\<lambda>row _. validate_declared_system row) rows () = Inr ()" using True validated_rows by blast
  then show ?thesis
    using True unique_names [of "[]" rows] filter_count [of rows]
    by (auto simp: pipeline_create_def parts try_then_Inr_iff Let_def split: if_splits)
qed

lemma systems_at_created:
  assumes "pipeline_create rows = Inr p" and "s < 3"
  shows "systems_at p s = Inr (at_stage s rows)"
proof -
  have known: "\<forall>row\<in>set rows. stage row < 3" and
    p: "p = \<lparr>staged_systems = at_stage 0 rows @ at_stage 1 rows @ at_stage 2 rows,
          stage_offsets = [0, length (at_stage 0 rows), length (at_stage 0 rows) + length (at_stage 1 rows), length rows]\<rparr>"
    using assms(1) by (auto simp: pipeline_create_Inr)
  have "length rows = length (at_stage 0 rows) + length (at_stage 1 rows) + length (at_stage 2 rows)"
    using known filter_count [of rows] by simp
  moreover have "s = 0 \<or> s = 1 \<or> s = 2" using assms(2) by linarith
  ultimately show ?thesis
    by (elim disjE) (simp_all add: systems_at_def kSystemStageCount_def kSystemStages_def p Let_def)
qed

lemma at_stage_at_stage: "at_stage s (at_stage t rows) = (if s = t then at_stage t rows else [])"
  by (induction rows) (auto simp: at_stage_def)

lemma at_stage_append: "at_stage s (xs @ ys) = at_stage s xs @ at_stage s ys"
  by (simp add: at_stage_def)

lemma pipeline_empty_created: "pipeline_create [] = Inr pipeline_empty"
  by (simp add: pipeline_create_Inr pipeline_empty_def at_stage_def)

text \<open>
  The order of the systems of a tick. A declaration is accepted exactly when every row holds a
  system with a name of its own at one of the three stages; then each stage reads back its rows in
  declared order. A row appended to an accepted pipeline is the last of its stage and moves nothing
  else, so the engine's lifecycle system, appended last, runs after every lifecycle system of the mode.
\<close>

theorem pipeline_keeps_declared_order:
  fixes rows :: "'s staged_system list"
  assumes "pipeline_create rows = Inr p"
  shows "(\<forall>s. systems_at p s =
      (if s < 3 then Inr (at_stage s rows)
       else Inl (SimError kSystemPipelineStageUnknown ''system_pipeline.systems_at.stage''))) \<and>
    (\<forall>row. held row \<noteq> None \<and> row_name row \<noteq> [] \<and> stage row < 3 \<and> row_name row \<notin> row_name ` set rows \<longrightarrow>
      (\<exists>p'. with_appended row p = Inr p' \<and>
        (\<forall>s < 3. systems_at p' s = Inr (at_stage s rows @ (if s = stage row then [row] else [])))))"
proof (intro conjI allI impI)
  fix s
  show "systems_at p s = (if s < 3 then Inr (at_stage s rows)
       else Inl (SimError kSystemPipelineStageUnknown ''system_pipeline.systems_at.stage''))"
    using systems_at_created [OF assms, of s]
    by (auto simp: systems_at_def kSystemStageCount_def kSystemStages_def)
next
  fix row :: "'s staged_system"
  assume row: "held row \<noteq> None \<and> row_name row \<noteq> [] \<and> stage row < 3 \<and> row_name row \<notin> row_name ` set rows"
  let ?staged = "at_stage 0 rows @ at_stage 1 rows @ at_stage 2 rows"
  have rows: "\<forall>r\<in>set rows. held r \<noteq> None \<and> row_name r \<noteq> [] \<and> stage r < 3" "distinct (map row_name rows)"
    and p: "staged_systems p = ?staged"
    using assms by (auto simp: pipeline_create_Inr)
  have same: "set ?staged = set rows"
  proof
    show "set rows \<subseteq> set ?staged"
    proof
      fix r assume "r \<in> set rows"
      moreover from this rows have "stage r = 0 \<or> stage r = 1 \<or> stage r = 2" by force
      ultimately show "r \<in> set ?staged" by (auto simp: at_stage_def)
    qed
  qed (auto simp: at_stage_def)
  have "distinct (map row_name ?staged)"
  proof -
    have d: "distinct rows" "inj_on row_name (set rows)" using rows(2) by (simp_all add: distinct_map)
    have "distinct ?staged" using d(1) by (auto simp: at_stage_def)
    moreover have "inj_on row_name (set ?staged)" using d(2) same by simp
    ultimately show ?thesis unfolding distinct_map by blast
  qed
  then obtain p' where p': "pipeline_create (?staged @ [row]) = Inr p'"
    using row rows(1) same by (auto simp: pipeline_create_Inr)
  have "at_stage s (?staged @ [row]) = at_stage s rows @ (if s = stage row then [row] else [])" if "s < 3" for s
  proof -
    have "at_stage s [row] = (if s = stage row then [row] else [])" by (simp add: at_stage_def)
    moreover have "s = 0 \<or> s = 1 \<or> s = 2" using \<open>s < 3\<close> by linarith
    ultimately show ?thesis by (elim disjE) (simp_all add: at_stage_append at_stage_at_stage)
  qed
  with systems_at_created [OF p'] p' show "\<exists>p'. with_appended row p = Inr p' \<and>
        (\<forall>s < 3. systems_at p' s = Inr (at_stage s rows @ (if s = stage row then [row] else [])))"
    by (simp add: with_appended_def p)
qed

theorem pipeline_keeps_declared_order_witness:
  "\<exists>p. pipeline_create
      [\<lparr>stage = 2, held = Some \<lparr>system_name = ''b'', system_apply = (7 :: nat)\<rparr>\<rparr>,
       \<lparr>stage = 0, held = Some \<lparr>system_name = ''a'', system_apply = 5\<rparr>\<rparr>] = Inr p \<and>
     systems_at p 2 = Inr [\<lparr>stage = 2, held = Some \<lparr>system_name = ''b'', system_apply = 7\<rparr>\<rparr>]"
proof -
  let ?rows = "[\<lparr>stage = 2, held = Some \<lparr>system_name = ''b'', system_apply = (7 :: nat)\<rparr>\<rparr>,
       \<lparr>stage = 0, held = Some \<lparr>system_name = ''a'', system_apply = 5\<rparr>\<rparr>]"
  obtain p where p: "pipeline_create ?rows = Inr p"
    by (simp add: pipeline_create_Inr row_name_def)
  from pipeline_keeps_declared_order [OF p] p show ?thesis by (auto simp: at_stage_def)
qed

end
