(* ===== verification/Vector2.thy ===== *)
theory Vector2
  imports Match_State Binary64
begin

text \<open>
  Two-dimensional vectors (src/src/simulation/vector2.cpp) and the comparison tolerances of
  simulation_tolerance.hpp, in binary64 arithmetic. Every vector an operation returns has finite
  components within the physical limit; anything else is a validation error that names the operation
  and the axis.
\<close>

section \<open>Validated components\<close>

definition kMaximumPhysicalComponentMagnitude :: binary64 where
  "kMaximumPhysicalComponentMagnitude = 1000000000000"

definition validate_component :: "double \<Rightarrow> string \<Rightarrow> binary64 result" where
  "validate_component value context =
     (case value of
        Finite x \<Rightarrow>
          if \<bar>x\<bar> > kMaximumPhysicalComponentMagnitude then Inl (SimError kPhysicalScalarOutOfRange context)
          else Inr x
      | _ \<Rightarrow> Inl (SimError kPhysicalScalarNotFinite context))"

definition validate_scalar_operand :: "double \<Rightarrow> string \<Rightarrow> binary64 result" where
  "validate_scalar_operand value context =
     (case value of
        Finite x \<Rightarrow> Inr x
      | _ \<Rightarrow> Inl (SimError kPhysicalScalarNotFinite context))"

definition create_for_operation :: "double \<Rightarrow> double \<Rightarrow> string \<Rightarrow> vector2 result" where
  "create_for_operation x y operation =
     try_then (validate_component x (operation @ ''.x'')) (\<lambda>validated_x.
     try_then (validate_component y (operation @ ''.y'')) (\<lambda>validated_y.
       Inr \<lparr>vx = validated_x, vy = validated_y\<rparr>))"

section \<open>Operations\<close>

text \<open>The components of a vector as doubles.\<close>

definition fx :: "vector2 \<Rightarrow> double" where "fx v = Finite (vx v)"
definition fy :: "vector2 \<Rightarrow> double" where "fy v = Finite (vy v)"

definition vector_create :: "double \<Rightarrow> double \<Rightarrow> vector2 result" where
  "vector_create x y = create_for_operation x y ''vector2.create''"

definition vector_negate :: "vector2 \<Rightarrow> vector2 result" where
  "vector_negate v = create_for_operation (fneg (fx v)) (fneg (fy v)) ''vector2.negate''"

definition vector_add :: "vector2 \<Rightarrow> vector2 \<Rightarrow> vector2 result" where
  "vector_add v w = create_for_operation (fadd (fx v) (fx w)) (fadd (fy v) (fy w)) ''vector2.add''"

definition vector_subtract :: "vector2 \<Rightarrow> vector2 \<Rightarrow> vector2 result" where
  "vector_subtract v w =
     create_for_operation (fsub (fx v) (fx w)) (fsub (fy v) (fy w)) ''vector2.subtract''"

definition vector_scale :: "vector2 \<Rightarrow> double \<Rightarrow> vector2 result" where
  "vector_scale v scalar =
     try_then (validate_scalar_operand scalar ''vector2.scale.scalar'') (\<lambda>s.
       create_for_operation (fmul (fx v) (Finite s)) (fmul (fy v) (Finite s)) ''vector2.scale'')"

definition vector_divide :: "vector2 \<Rightarrow> double \<Rightarrow> vector2 result" where
  "vector_divide v scalar =
     try_then (validate_scalar_operand scalar ''vector2.divide.scalar'') (\<lambda>s.
       if s = 0 then Inl (SimError kVectorDivisionByZero ''vector2.divide.scalar'')
       else create_for_operation (fdiv (fx v) (Finite s)) (fdiv (fy v) (Finite s)) ''vector2.divide'')"

definition vector_dot :: "vector2 \<Rightarrow> vector2 \<Rightarrow> double" where
  "vector_dot v w = fadd (fmul (fx v) (fx w)) (fmul (fy v) (fy w))"

section \<open>Tolerances\<close>

definition kRelativeTolerance :: double where "kRelativeTolerance = to_double (1 / 10 ^ 12)"
definition kPositionTolerance :: double where "kPositionTolerance = to_double (1 / 10 ^ 9)"
definition kVelocityTolerance :: double where "kVelocityTolerance = to_double (1 / 10 ^ 9)"
definition kScalarTolerance :: double where "kScalarTolerance = to_double (1 / 10 ^ 9)"

definition comparison_tolerance :: "double \<Rightarrow> double \<Rightarrow> double \<Rightarrow> double" where
  "comparison_tolerance a b absolute =
     fadd absolute (fmul kRelativeTolerance (fmax (fabs a) (fabs b)))"

definition approximately_equal :: "double \<Rightarrow> double \<Rightarrow> double \<Rightarrow> bool" where
  "approximately_equal a b absolute = fle (fabs (fsub a b)) (comparison_tolerance a b absolute)"

definition less_than_or_approximately_equal :: "double \<Rightarrow> double \<Rightarrow> double \<Rightarrow> bool" where
  "less_than_or_approximately_equal a b absolute \<longleftrightarrow> fless a b \<or> approximately_equal a b absolute"

definition greater_than_or_approximately_equal :: "double \<Rightarrow> double \<Rightarrow> double \<Rightarrow> bool" where
  "greater_than_or_approximately_equal a b absolute \<longleftrightarrow> fless b a \<or> approximately_equal a b absolute"

section \<open>Valid doubles and vectors\<close>

primrec valid_double :: "double \<Rightarrow> bool" where
  "valid_double (Finite x) \<longleftrightarrow> representable x \<and> \<bar>x\<bar> \<le> largest_finite"
| "valid_double (Infinite s) \<longleftrightarrow> True"
| "valid_double NotANumber \<longleftrightarrow> True"

definition valid_component :: "binary64 \<Rightarrow> bool" where
  "valid_component x \<longleftrightarrow> representable x \<and> \<bar>x\<bar> \<le> kMaximumPhysicalComponentMagnitude"

definition valid_vector :: "vector2 \<Rightarrow> bool" where
  "valid_vector v \<longleftrightarrow> valid_component (vx v) \<and> valid_component (vy v)"

lemma valid_to_double [simp, intro]: "valid_double (to_double x)"
  by (simp add: to_double_def rounded_is_representable)

lemma valid_fneg [simp]: "valid_double (fneg d) = valid_double d"
  by (cases d) simp_all

lemma valid_fabs [simp]: "valid_double (fabs d) = valid_double d"
  by (cases d) simp_all

lemma valid_fadd [intro]: "valid_double (fadd d e)"
  by (cases d; cases e) simp_all

lemma valid_fsub [intro]: "valid_double (fsub d e)"
  by (simp add: fsub_def valid_fadd)

lemma valid_fmul [intro]: "valid_double (fmul d e)"
  by (cases d; cases e) simp_all

lemma valid_fdiv [intro]: "valid_double (fdiv d e)"
  by (cases d; cases e) simp_all

lemma component_below_largest: "kMaximumPhysicalComponentMagnitude \<le> largest_finite"
  by (simp add: kMaximumPhysicalComponentMagnitude_def largest_finite_def)

lemma valid_component_double: "valid_component x \<Longrightarrow> valid_double (Finite x)"
  using component_below_largest by (auto simp: valid_component_def)

lemma valid_component_minus [simp]: "valid_component (- x) = valid_component x"
  by (simp add: valid_component_def)

lemma valid_vector_double: "valid_vector v \<Longrightarrow> valid_double (fx v) \<and> valid_double (fy v)"
  by (simp add: valid_vector_def fx_def fy_def valid_component_double del: valid_double.simps)

lemma validate_component_Inr:
  "validate_component d path = Inr x \<longleftrightarrow> d = Finite x \<and> \<bar>x\<bar> \<le> kMaximumPhysicalComponentMagnitude"
  by (auto simp: validate_component_def split: double.splits)

lemma create_for_operation_Inr:
  "create_for_operation x y path = Inr v \<longleftrightarrow>
     x = Finite (vx v) \<and> y = Finite (vy v) \<and>
     \<bar>vx v\<bar> \<le> kMaximumPhysicalComponentMagnitude \<and> \<bar>vy v\<bar> \<le> kMaximumPhysicalComponentMagnitude"
  by (cases v) (auto simp: create_for_operation_def try_then_Inr_iff validate_component_Inr)

lemma create_for_operation_valid:
  assumes "create_for_operation x y path = Inr v" and "valid_double x" and "valid_double y"
  shows "valid_vector v"
  using assms by (auto simp: create_for_operation_Inr valid_vector_def valid_component_def)

lemma vector_operations_valid:
  "vector_add v w = Inr u \<Longrightarrow> valid_vector u"
  "vector_subtract v w = Inr u \<Longrightarrow> valid_vector u"
  "vector_scale v d = Inr u \<Longrightarrow> valid_vector u"
  "vector_divide v d = Inr u \<Longrightarrow> valid_vector u"
  by (auto simp: vector_add_def vector_subtract_def vector_scale_def vector_divide_def try_then_Inr_iff
      split: if_splits intro: create_for_operation_valid)

lemma vector_negate_total:
  assumes "valid_vector v"
  shows "vector_negate v = Inr \<lparr>vx = - vx v, vy = - vy v\<rparr>"
  using assms
  by (simp add: vector_negate_def create_for_operation_Inr fx_def fy_def valid_vector_def valid_component_def)

lemma tolerance_small:
  assumes "\<bar>a\<bar> \<le> 2 ^ 20" and "\<bar>b\<bar> \<le> 2 ^ 20"
  obtains t where "comparison_tolerance (Finite a) (Finite b) kVelocityTolerance = Finite t"
    and "0 \<le> t" and "t \<le> 1 / 2 ^ 18"
proof -
  have v: "(1 / 10 ^ 9 :: rat) \<le> 2 powi (- 29)" and r: "(1 / 10 ^ 12 :: rat) \<le> 2 powi (- 39)"
    by (simp_all add: power_int_minus)
  define m where "m = max \<bar>a\<bar> \<bar>b\<bar>"
  have m: "fmax (fabs (Finite a)) (fabs (Finite b)) = Finite m" "0 \<le> m" "m \<le> 2 ^ 20"
    using assms by (auto simp: fmax_def m_def max_def)
  note v = rounded_between [OF _ v, simplified] and r = rounded_between [OF _ r, simplified]
  define p where "p = rounded (1 / 10 ^ 12) * m"
  have "rounded (1 / 10 ^ 12) \<le> 2 powi (- 39)" using r(3) by (simp add: power_int_minus)
  then have "p \<le> 2 powi (- 39) * 2 ^ 20"
    unfolding p_def using r(2) m by (intro mult_mono) simp_all
  moreover have "0 \<le> p" using r(2) m(2) by (simp add: p_def)
  ultimately have p: "0 \<le> p" "p \<le> 2 powi (- 19)" by (simp_all add: power_int_minus)
  note p' = rounded_between [OF p, simplified]
  define q where "q = rounded (1 / 10 ^ 9) + rounded p"
  have q: "0 \<le> q" "q \<le> 2 powi (- 18)"
    using v(2,3) p'(2,3) by (simp_all add: q_def power_int_minus)
  note q' = rounded_between [OF q, simplified]
  show thesis
  proof (rule that [of "rounded q"])
    show "comparison_tolerance (Finite a) (Finite b) kVelocityTolerance = Finite (rounded q)"
      using v(1) r(1) p'(1) q'(1) m(1)
      by (simp add: comparison_tolerance_def kVelocityTolerance_def kRelativeTolerance_def p_def q_def)
  qed (use q' in \<open>simp_all add: power_int_minus\<close>)
qed

end
