(* ===== verification/Physics_Body.thy ===== *)
theory Physics_Body
  imports Vector2 Components
begin

text \<open>
  Construction of the one physical body value (src/src/simulation/physics_body.cpp). Every way to
  make a body goes through \<open>validated\<close>. The two enumerations are datatypes here, so the check for
  an undeclared ground attachment has nothing to reject.
\<close>

definition kUndeclaredRadius :: double where "kUndeclaredRadius = Finite 0"
definition kDefaultMass :: double where "kDefaultMass = Finite 1"
definition kDefaultRestitution :: double where "kDefaultRestitution = Finite 1"
definition kMinimumRestitution :: binary64 where "kMinimumRestitution = 0"
definition kMaximumRestitution :: binary64 where "kMaximumRestitution = 1"
definition kDefaultDragScale :: double where "kDefaultDragScale = Finite 1"
definition kMinimumDragScale :: binary64 where "kMinimumDragScale = 0"
definition kDefaultCollisionLayer :: u32 where "kDefaultCollisionLayer = 1"
definition kDefaultCollisionMask :: u32 where "kDefaultCollisionMask = 1"
definition kDefaultBoundsBehavior :: bounds_behavior where "kDefaultBoundsBehavior = kFold"
definition kDefaultGroundAttachment :: ground_attachment where "kDefaultGroundAttachment = kFloating"

section \<open>The three scalar rules\<close>

definition require_mass :: "double \<Rightarrow> bool \<Rightarrow> binary64 result" where
  "require_mass mass static =
     (case mass of
        Finite m \<Rightarrow>
          if m < 0 \<or> (m = 0 \<and> \<not> static) \<or> m > kMaximumPhysicalComponentMagnitude
          then Inl (SimError kPhysicsBodyMassOutOfRange ''physics_body.mass'') else Inr m
      | _ \<Rightarrow> Inl (SimError kPhysicsBodyMassOutOfRange ''physics_body.mass''))"

definition require_restitution :: "double \<Rightarrow> binary64 result" where
  "require_restitution restitution =
     (case restitution of
        Finite e \<Rightarrow>
          if e < kMinimumRestitution \<or> e > kMaximumRestitution
          then Inl (SimError kPhysicsBodyRestitutionOutOfRange ''physics_body.restitution'') else Inr e
      | _ \<Rightarrow> Inl (SimError kPhysicsBodyRestitutionOutOfRange ''physics_body.restitution''))"

definition require_drag_scale :: "double \<Rightarrow> binary64 result" where
  "require_drag_scale scale =
     (case scale of
        Finite s \<Rightarrow>
          if s < kMinimumDragScale
          then Inl (SimError kPhysicsBodyDragScaleOutOfRange ''physics_body.drag_scale'') else Inr s
      | _ \<Rightarrow> Inl (SimError kPhysicsBodyDragScaleOutOfRange ''physics_body.drag_scale''))"

section \<open>Construction\<close>

definition validated ::
  "vector2 \<Rightarrow> vector2 \<Rightarrow> vector2 \<Rightarrow> double \<Rightarrow> double \<Rightarrow> double \<Rightarrow> double \<Rightarrow> u32 \<Rightarrow> u32 \<Rightarrow> bool \<Rightarrow>
   bounds_behavior \<Rightarrow> ground_attachment \<Rightarrow> physics_body result" where
  "validated position velocity acceleration radius mass restitution drag_scale layer cmask static
     bounds ground =
     try_then (require_mass mass static) (\<lambda>m.
     try_then (require_restitution restitution) (\<lambda>e.
     try_then (require_drag_scale drag_scale) (\<lambda>s.
       Inr \<lparr>body_position = position, body_velocity = velocity, body_acceleration = acceleration,
            body_radius = radius, body_mass = m, body_restitution = e, body_drag_scale = s,
            collision_layer = layer, collision_mask = cmask, is_static = static,
            body_bounds_behavior = bounds, body_ground_attachment = ground\<rparr>)))"

text \<open>The wither of one field: the body is validated again with that field replaced.\<close>

definition revalidated :: "physics_body \<Rightarrow> physics_body result" where
  "revalidated b =
     validated (body_position b) (body_velocity b) (body_acceleration b) (body_radius b)
       (Finite (body_mass b)) (Finite (body_restitution b)) (Finite (body_drag_scale b))
       (collision_layer b) (collision_mask b) (is_static b) (body_bounds_behavior b)
       (body_ground_attachment b)"

definition body_create :: "vector2 \<Rightarrow> vector2 \<Rightarrow> vector2 \<Rightarrow> physics_body result" where
  "body_create position velocity acceleration =
     validated position velocity acceleration kUndeclaredRadius kDefaultMass kDefaultRestitution
       kDefaultDragScale kDefaultCollisionLayer kDefaultCollisionMask False kDefaultBoundsBehavior
       kDefaultGroundAttachment"

definition body_create_complete ::
  "vector2 \<Rightarrow> vector2 \<Rightarrow> vector2 \<Rightarrow> double \<Rightarrow> double \<Rightarrow> u32 \<Rightarrow> u32 \<Rightarrow> bool \<Rightarrow> physics_body result" where
  "body_create_complete position velocity acceleration radius mass layer cmask static =
     validated position velocity acceleration radius mass kDefaultRestitution kDefaultDragScale
       layer cmask static kDefaultBoundsBehavior kDefaultGroundAttachment"

definition body_create_static :: "vector2 \<Rightarrow> u32 \<Rightarrow> u32 \<Rightarrow> physics_body result" where
  "body_create_static position layer cmask =
     validated position zero_vector zero_vector kUndeclaredRadius kDefaultMass kDefaultRestitution
       kDefaultDragScale layer cmask True kDefaultBoundsBehavior kDefaultGroundAttachment"

definition with_position :: "vector2 \<Rightarrow> physics_body \<Rightarrow> physics_body result" where
  "with_position p b = revalidated (b\<lparr>body_position := p\<rparr>)"

definition with_velocity :: "vector2 \<Rightarrow> physics_body \<Rightarrow> physics_body result" where
  "with_velocity v b = revalidated (b\<lparr>body_velocity := v\<rparr>)"

definition with_acceleration :: "vector2 \<Rightarrow> physics_body \<Rightarrow> physics_body result" where
  "with_acceleration a b = revalidated (b\<lparr>body_acceleration := a\<rparr>)"

definition with_radius :: "double \<Rightarrow> physics_body \<Rightarrow> physics_body result" where
  "with_radius r b = revalidated (b\<lparr>body_radius := r\<rparr>)"

definition with_mass :: "double \<Rightarrow> physics_body \<Rightarrow> physics_body result" where
  "with_mass mass b =
     validated (body_position b) (body_velocity b) (body_acceleration b) (body_radius b) mass
       (Finite (body_restitution b)) (Finite (body_drag_scale b)) (collision_layer b)
       (collision_mask b) (is_static b) (body_bounds_behavior b) (body_ground_attachment b)"

definition with_restitution :: "double \<Rightarrow> physics_body \<Rightarrow> physics_body result" where
  "with_restitution restitution b =
     validated (body_position b) (body_velocity b) (body_acceleration b) (body_radius b)
       (Finite (body_mass b)) restitution (Finite (body_drag_scale b)) (collision_layer b)
       (collision_mask b) (is_static b) (body_bounds_behavior b) (body_ground_attachment b)"

definition with_drag_scale :: "double \<Rightarrow> physics_body \<Rightarrow> physics_body result" where
  "with_drag_scale drag_scale b =
     validated (body_position b) (body_velocity b) (body_acceleration b) (body_radius b)
       (Finite (body_mass b)) (Finite (body_restitution b)) drag_scale (collision_layer b)
       (collision_mask b) (is_static b) (body_bounds_behavior b) (body_ground_attachment b)"

definition with_bounds_behavior :: "bounds_behavior \<Rightarrow> physics_body \<Rightarrow> physics_body result" where
  "with_bounds_behavior x b = revalidated (b\<lparr>body_bounds_behavior := x\<rparr>)"

definition with_ground_attachment :: "ground_attachment \<Rightarrow> physics_body \<Rightarrow> physics_body result" where
  "with_ground_attachment x b = revalidated (b\<lparr>body_ground_attachment := x\<rparr>)"

definition crosses_bounds :: "physics_body \<Rightarrow> bool" where
  "crosses_bounds b \<longleftrightarrow> body_bounds_behavior b = kCross"

definition body_has_baseline_physics :: "physics_body \<Rightarrow> bool" where
  "body_has_baseline_physics b \<longleftrightarrow>
     Finite (body_mass b) = kDefaultMass \<and> Finite (body_restitution b) = kDefaultRestitution"

section \<open>Validity\<close>

text \<open>What the scalar rules establish of a body, and what no operation on a body can lose.\<close>

definition valid_scalars :: "physics_body \<Rightarrow> bool" where
  "valid_scalars b \<longleftrightarrow>
     0 \<le> body_mass b \<and> (body_mass b = 0 \<longrightarrow> is_static b) \<and>
     body_mass b \<le> kMaximumPhysicalComponentMagnitude \<and>
     0 \<le> body_restitution b \<and> body_restitution b \<le> 1 \<and> 0 \<le> body_drag_scale b"

definition valid_body :: "physics_body \<Rightarrow> bool" where
  "valid_body b \<longleftrightarrow> valid_scalars b \<and> valid_double (Finite (body_mass b)) \<and>
     valid_double (Finite (body_restitution b)) \<and> valid_double (Finite (body_drag_scale b)) \<and>
     valid_double (body_radius b) \<and>
     valid_vector (body_position b) \<and> valid_vector (body_velocity b) \<and> valid_vector (body_acceleration b)"

lemmas body_rules = require_mass_def require_restitution_def require_drag_scale_def
  kMinimumRestitution_def kMaximumRestitution_def kMinimumDragScale_def

lemma validated_Inr:
  assumes "validated p v a r m e s layer cmask static bounds ground = Inr b"
  shows "valid_scalars b \<and> body_position b = p \<and> body_velocity b = v \<and> body_acceleration b = a \<and>
    body_radius b = r \<and> Finite (body_mass b) = m \<and> Finite (body_restitution b) = e \<and>
    Finite (body_drag_scale b) = s \<and> collision_layer b = layer \<and> collision_mask b = cmask \<and>
    is_static b = static \<and> body_bounds_behavior b = bounds \<and> body_ground_attachment b = ground"
  using assms
  by (auto simp: validated_def try_then_Inr_iff body_rules valid_scalars_def
      split: double.splits if_splits)

lemma revalidated_valid:
  assumes "valid_scalars b"
  shows "revalidated b = Inr b"
  using assms
  by (auto simp: revalidated_def validated_def body_rules valid_scalars_def)

lemma withers [simp]:
  assumes "valid_scalars b"
  shows "with_position p b = Inr (b\<lparr>body_position := p\<rparr>)"
    "with_velocity v b = Inr (b\<lparr>body_velocity := v\<rparr>)"
    "with_acceleration a b = Inr (b\<lparr>body_acceleration := a\<rparr>)"
    "with_radius r b = Inr (b\<lparr>body_radius := r\<rparr>)"
  using assms
  by (simp_all add: with_position_def with_velocity_def with_acceleration_def with_radius_def
      revalidated_valid valid_scalars_def)

lemma valid_scalars_update [simp]:
  "valid_scalars (b\<lparr>body_position := p\<rparr>) = valid_scalars b"
  "valid_scalars (b\<lparr>body_velocity := v\<rparr>) = valid_scalars b"
  "valid_scalars (b\<lparr>body_acceleration := a\<rparr>) = valid_scalars b"
  by (simp_all add: valid_scalars_def)

lemma valid_body_update:
  assumes "valid_body b"
  shows "valid_vector p \<Longrightarrow> valid_body (b\<lparr>body_position := p\<rparr>)"
    "valid_vector p \<Longrightarrow> valid_body (b\<lparr>body_velocity := p\<rparr>)"
    "valid_vector p \<Longrightarrow> valid_body (b\<lparr>body_acceleration := p\<rparr>)"
  using assms by (auto simp: valid_body_def)

lemma valid_body_scalars: "valid_body b \<Longrightarrow> valid_scalars b"
  by (simp add: valid_body_def)

end
