(* ===== verification/Physics.thy ===== *)
theory Physics
  imports Physics_Body Tick_Deadline
begin

text \<open>
  The fixed-step equations (src/src/simulation/physics.cpp, fixed_delta.hpp), in the operation order
  the code writes them: integration, drag, pair impulses, reflection and folding at the walls. Only
  \<open>detect_pair_contact\<close> calls \<open>std::hypot\<close>, which is not required to be correctly rounded; it is the
  parameter \<open>hypot\<close> there.
\<close>

section \<open>Scalars\<close>

definition kFixedDeltaSeconds :: double where
  "kFixedDeltaSeconds = fdiv (Finite 1) (to_double (of_nat (unat kSimulationTicksPerSecond)))"

definition require_finite_result :: "double \<Rightarrow> string \<Rightarrow> binary64 result" where
  "require_finite_result value context =
     (case value of Finite x \<Rightarrow> Inr x | _ \<Rightarrow> Inl (SimError kPhysicalScalarNotFinite context))"

definition require_positive_physical_scalar :: "double \<Rightarrow> string \<Rightarrow> binary64 result" where
  "require_positive_physical_scalar value context =
     (case value of
        Finite x \<Rightarrow>
          if x \<le> 0 \<or> x > kMaximumPhysicalComponentMagnitude
          then Inl (SimError kPhysicalScalarOutOfRange context) else Inr x
      | _ \<Rightarrow> Inl (SimError kPhysicalScalarNotFinite context))"

section \<open>Integration and drag\<close>

definition integrate_accelerated_velocity :: "vector2 \<Rightarrow> vector2 \<Rightarrow> vector2 result" where
  "integrate_accelerated_velocity velocity acceleration =
     try_then (require_finite_result (fadd (fx velocity) (fmul (fx acceleration) kFixedDeltaSeconds))
                 ''physics.integrate_accelerated_velocity.x'') (\<lambda>x.
     try_then (require_finite_result (fadd (fy velocity) (fmul (fy acceleration) kFixedDeltaSeconds))
                 ''physics.integrate_accelerated_velocity.y'') (\<lambda>y.
       vector_create (Finite x) (Finite y)))"

definition apply_velocity_drag :: "vector2 \<Rightarrow> double \<Rightarrow> vector2 result" where
  "apply_velocity_drag accelerated drag =
     (if \<not> is_finite drag \<or> fless drag (Finite 0)
      then Inl (SimError kPhysicalScalarOutOfRange ''physics.apply_velocity_drag.drag_per_second'')
      else try_then (require_finite_result
                       (fmax (Finite 0) (fsub (Finite 1) (fmul drag kFixedDeltaSeconds)))
                       ''physics.apply_velocity_drag.factor'') (\<lambda>factor.
             vector_scale accelerated (Finite factor)))"

definition integrate_position :: "vector2 \<Rightarrow> vector2 \<Rightarrow> vector2 result" where
  "integrate_position position displacement =
     try_then (require_finite_result (fadd (fx position) (fx displacement))
                 ''physics.integrate_position.x'') (\<lambda>x.
     try_then (require_finite_result (fadd (fy position) (fy displacement))
                 ''physics.integrate_position.y'') (\<lambda>y.
       vector_create (Finite x) (Finite y)))"

section \<open>Contacts\<close>

record pair_contact =
  is_contact :: bool
  contact_normal :: vector2
  center_distance :: double
  relative_normal_speed :: double

definition contact_reversed :: "pair_contact \<Rightarrow> pair_contact result" where
  "contact_reversed c =
     try_then (vector_negate (contact_normal c)) (\<lambda>n. Inr (c\<lparr>contact_normal := n\<rparr>))"

definition pair_contact_distance :: "physics_body \<Rightarrow> physics_body \<Rightarrow> double \<Rightarrow> binary64 result" where
  "pair_contact_distance a b configured =
     try_then (require_positive_physical_scalar configured ''physics.pair_contact_distance.configured_radius'')
       (\<lambda>r.
     try_then (require_positive_physical_scalar (effective_radius a (Finite r))
                 ''physics.pair_contact_distance.first_radius'') (\<lambda>r1.
     try_then (require_positive_physical_scalar (effective_radius b (Finite r))
                 ''physics.pair_contact_distance.second_radius'') (\<lambda>r2.
       require_finite_result (fadd (Finite r1) (Finite r2))
         ''physics.pair_contact_distance.contact_distance'')))"

text \<open>The normal of two coincident centers: the direction of the relative velocity, or the x axis.\<close>

definition coincident_normal ::
  "(double \<Rightarrow> double \<Rightarrow> double) \<Rightarrow> vector2 \<Rightarrow> vector2 \<Rightarrow> (binary64 \<times> binary64) result" where
  "coincident_normal hypot v w =
     try_then (require_finite_result (fsub (fx v) (fx w))
                 ''physics.detect_player_pair_contact.coincident_relative_velocity_x'') (\<lambda>x.
     try_then (require_finite_result (fsub (fy v) (fy w))
                 ''physics.detect_player_pair_contact.coincident_relative_velocity_y'') (\<lambda>y.
     try_then (require_finite_result (hypot (Finite x) (Finite y))
                 ''physics.detect_player_pair_contact.coincident_relative_velocity_magnitude'') (\<lambda>m.
       if approximately_equal (Finite m) (Finite 0) kVelocityTolerance then Inr (1, 0)
       else try_then (require_finite_result (fdiv (Finite x) (Finite m))
                        ''physics.detect_player_pair_contact.coincident_normal_x'') (\<lambda>nx.
            try_then (require_finite_result (fdiv (Finite y) (Finite m))
                        ''physics.detect_player_pair_contact.coincident_normal_y'') (\<lambda>ny.
              Inr (nx, ny))))))"

definition detect_pair_contact ::
  "(double \<Rightarrow> double \<Rightarrow> double) \<Rightarrow> physics_body \<Rightarrow> physics_body \<Rightarrow> double \<Rightarrow> pair_contact result" where
  "detect_pair_contact hypot a b contact_distance =
     (if \<not> is_finite contact_distance
      then Inl (SimError kPhysicalScalarNotFinite ''physics.detect_pair_contact.contact_distance'')
      else if fle contact_distance (Finite 0)
      then Inl (SimError kPhysicalScalarOutOfRange ''physics.detect_pair_contact.contact_distance'')
      else
        try_then (require_finite_result (fsub (fx (body_position b)) (fx (body_position a)))
                    ''physics.detect_player_pair_contact.delta_x'') (\<lambda>dx.
        try_then (require_finite_result (fsub (fy (body_position b)) (fy (body_position a)))
                    ''physics.detect_player_pair_contact.delta_y'') (\<lambda>dy.
        try_then (require_finite_result (hypot (Finite dx) (Finite dy))
                    ''physics.detect_player_pair_contact.center_distance'') (\<lambda>distance.
        try_then
          (if \<not> approximately_equal (Finite distance) (Finite 0) kPositionTolerance
           then try_then (require_finite_result (fdiv (Finite dx) (Finite distance))
                            ''physics.detect_player_pair_contact.normal_x'') (\<lambda>nx.
                try_then (require_finite_result (fdiv (Finite dy) (Finite distance))
                            ''physics.detect_player_pair_contact.normal_y'') (\<lambda>ny.
                  Inr (nx, ny)))
           else coincident_normal hypot (body_velocity a) (body_velocity b)) (\<lambda>(nx, ny).
        try_then (vector_create (Finite nx) (Finite ny)) (\<lambda>normal.
        try_then (require_finite_result
                    (fadd (fmul (fsub (fx (body_velocity b)) (fx (body_velocity a))) (fx normal))
                          (fmul (fsub (fy (body_velocity b)) (fy (body_velocity a))) (fy normal)))
                    ''physics.detect_player_pair_contact.relative_normal_speed'') (\<lambda>speed.
          Inr \<lparr>is_contact = less_than_or_approximately_equal (Finite distance) contact_distance kPositionTolerance,
               contact_normal = normal, center_distance = Finite distance,
               relative_normal_speed = Finite speed\<rparr>)))))))"

definition detect_player_pair_contact ::
  "(double \<Rightarrow> double \<Rightarrow> double) \<Rightarrow> physics_body \<Rightarrow> physics_body \<Rightarrow> double \<Rightarrow> pair_contact result" where
  "detect_player_pair_contact hypot a b radius =
     try_then (require_positive_physical_scalar radius ''physics.player_pair.player_radius'') (\<lambda>r.
     try_then (require_finite_result (fmul (Finite 2) (Finite r))
                 ''physics.detect_player_pair_contact.contact_distance'') (\<lambda>distance.
       detect_pair_contact hypot a b (Finite distance)))"

section \<open>Impulses\<close>

record pair_collision =
  collision_contact :: pair_contact
  impulse_applied :: bool
  first_velocity :: vector2
  second_velocity :: vector2

definition combined_restitution :: "double \<Rightarrow> double \<Rightarrow> double" where
  "combined_restitution e1 e2 = fmin e1 e2"

definition separating :: "pair_contact \<Rightarrow> bool" where
  "separating c \<longleftrightarrow> \<not> is_contact c \<or>
     greater_than_or_approximately_equal (relative_normal_speed c) (Finite 0) kVelocityTolerance"

text \<open>A velocity plus, or minus, a multiple of the contact normal.\<close>

definition push_velocity ::
  "(double \<Rightarrow> double \<Rightarrow> double) \<Rightarrow> vector2 \<Rightarrow> binary64 \<Rightarrow> vector2 \<Rightarrow> string \<Rightarrow> vector2 result" where
  "push_velocity f v amount n context =
     try_then (require_finite_result (f (fx v) (fmul (Finite amount) (fx n))) (context @ ''.x'')) (\<lambda>x.
     try_then (require_finite_result (f (fy v) (fmul (Finite amount) (fy n))) (context @ ''.y'')) (\<lambda>y.
       vector_create (Finite x) (Finite y)))"

definition resolve_player_pair_collision ::
  "physics_body \<Rightarrow> physics_body \<Rightarrow> pair_contact \<Rightarrow> pair_collision result" where
  "resolve_player_pair_collision a b c =
     (if separating c
      then Inr \<lparr>collision_contact = c, impulse_applied = False,
                first_velocity = body_velocity a, second_velocity = body_velocity b\<rparr>
      else let v = body_velocity a; w = body_velocity b; n = contact_normal c in
        try_then (require_finite_result (vector_dot v n)
                    ''physics.resolve_player_pair_collision.first_normal_speed'') (\<lambda>s1.
        try_then (require_finite_result (vector_dot w n)
                    ''physics.resolve_player_pair_collision.second_normal_speed'') (\<lambda>s2.
        try_then (require_finite_result (fsub (Finite s2) (Finite s1))
                    ''physics.resolve_player_pair_collision.first_normal_delta'') (\<lambda>d1.
        try_then (require_finite_result (fsub (Finite s1) (Finite s2))
                    ''physics.resolve_player_pair_collision.second_normal_delta'') (\<lambda>d2.
        try_then (push_velocity fadd v d1 n ''physics.resolve_player_pair_collision.first_velocity'') (\<lambda>v'.
        try_then (push_velocity fadd w d2 n ''physics.resolve_player_pair_collision.second_velocity'') (\<lambda>w'.
          Inr \<lparr>collision_contact = c, impulse_applied = True,
               first_velocity = v', second_velocity = w'\<rparr>)))))))"

definition resolve_general_pair_collision ::
  "physics_body \<Rightarrow> physics_body \<Rightarrow> pair_contact \<Rightarrow> pair_collision result" where
  "resolve_general_pair_collision a b c =
     (if separating c
      then Inr \<lparr>collision_contact = c, impulse_applied = False,
                first_velocity = body_velocity a, second_velocity = body_velocity b\<rparr>
      else
        let ma = Finite (body_mass a); mb = Finite (body_mass b); n = contact_normal c;
            e = combined_restitution (Finite (body_restitution a)) (Finite (body_restitution b)) in
        try_then (require_finite_result (fdiv (Finite 1) ma)
                    ''physics.resolve_general_pair_collision.inverse_first_mass'') (\<lambda>i1.
        try_then (require_finite_result (fdiv (Finite 1) mb)
                    ''physics.resolve_general_pair_collision.inverse_second_mass'') (\<lambda>i2.
        try_then (require_finite_result (fadd (Finite i1) (Finite i2))
                    ''physics.resolve_general_pair_collision.inverse_mass_sum'') (\<lambda>i.
        try_then (require_finite_result
                    (fneg (fmul (fadd (Finite 1) e) (relative_normal_speed c)))
                    ''physics.resolve_general_pair_collision.impulse_numerator'') (\<lambda>j0.
        try_then (require_finite_result (fdiv (Finite j0) (Finite i))
                    ''physics.resolve_general_pair_collision.impulse_scalar'') (\<lambda>j.
        try_then (require_finite_result (fdiv (Finite j) ma)
                    ''physics.resolve_general_pair_collision.first_normal_delta'') (\<lambda>d1.
        try_then (require_finite_result (fdiv (Finite j) mb)
                    ''physics.resolve_general_pair_collision.second_normal_delta'') (\<lambda>d2.
        try_then (push_velocity fsub (body_velocity a) d1 n
                    ''physics.resolve_general_pair_collision.first_velocity'') (\<lambda>v'.
        try_then (push_velocity fadd (body_velocity b) d2 n
                    ''physics.resolve_general_pair_collision.second_velocity'') (\<lambda>w'.
          Inr \<lparr>collision_contact = c, impulse_applied = True,
               first_velocity = v', second_velocity = w'\<rparr>))))))))))"

text \<open>The overloads that detect the contact first.\<close>

definition detect_and_resolve_player_pair ::
  "(double \<Rightarrow> double \<Rightarrow> double) \<Rightarrow> physics_body \<Rightarrow> physics_body \<Rightarrow> double \<Rightarrow> pair_collision result" where
  "detect_and_resolve_player_pair hypot a b radius =
     try_then (detect_player_pair_contact hypot a b radius) (resolve_player_pair_collision a b)"

definition detect_and_resolve_general_pair ::
  "(double \<Rightarrow> double \<Rightarrow> double) \<Rightarrow> physics_body \<Rightarrow> physics_body \<Rightarrow> double \<Rightarrow> pair_collision result" where
  "detect_and_resolve_general_pair hypot a b radius =
     try_then (pair_contact_distance a b radius) (\<lambda>d.
     try_then (detect_pair_contact hypot a b (Finite d)) (resolve_general_pair_collision a b))"

definition reflect_static_contact_velocity :: "vector2 \<Rightarrow> vector2 \<Rightarrow> vector2 result" where
  "reflect_static_contact_velocity v n =
     (let speed = vector_dot v n in
      vector_create (fsub (fx v) (fmul (fmul (Finite 2) speed) (fx n)))
                    (fsub (fy v) (fmul (fmul (Finite 2) speed) (fy n))))"

section \<open>Walls\<close>

text \<open>The end of the folded motion on one axis, snapped to a wall it lies at: the endpoint and the
  terminal velocity from the reduced position in the doubled interval.\<close>

definition snap_to_wall ::
  "binary64 \<Rightarrow> binary64 \<Rightarrow> binary64 \<Rightarrow> binary64 \<Rightarrow> binary64 \<Rightarrow> binary64 \<times> binary64 \<Rightarrow> binary64 \<times> binary64" where
  "snap_to_wall lower upper width velocity reduced folded =
     (let endpoint = Finite (fst folded);
          near_lower = approximately_equal endpoint (Finite lower) kPositionTolerance;
          near_upper = approximately_equal endpoint (Finite upper) kPositionTolerance;
          lower_distance = fabs (fsub endpoint (Finite lower));
          upper_distance = fabs (fsub endpoint (Finite upper))
      in if reduced = 0 then (lower, \<bar>velocity\<bar>)
         else if reduced = width then (upper, - \<bar>velocity\<bar>)
         else if near_lower \<and> (\<not> near_upper \<or> fle lower_distance upper_distance)
         then (lower, \<bar>velocity\<bar>)
         else if near_upper then (upper, - \<bar>velocity\<bar>)
         else folded)"

definition fold_endpoint ::
  "binary64 \<Rightarrow> binary64 \<Rightarrow> binary64 \<Rightarrow> binary64 \<Rightarrow> binary64 \<Rightarrow> string \<Rightarrow> (binary64 \<times> binary64) result" where
  "fold_endpoint lower upper width velocity reduced context =
     (if reduced \<le> width
      then try_then (require_finite_result (fadd (Finite lower) (Finite reduced))
                       (context @ ''.ascending_endpoint'')) (\<lambda>endpoint. Inr (endpoint, velocity))
      else try_then (require_finite_result
                       (fsub (Finite upper) (fsub (Finite reduced) (Finite width)))
                       (context @ ''.descending_endpoint'')) (\<lambda>endpoint. Inr (endpoint, - velocity)))"

definition reduce_endpoint ::
  "binary64 \<Rightarrow> binary64 \<Rightarrow> binary64 \<Rightarrow> string \<Rightarrow> binary64 result" where
  "reduce_endpoint lower period proposed context =
     try_then (require_finite_result (fmod (fsub (Finite proposed) (Finite lower)) (Finite period))
                 (context @ ''.reduced_endpoint'')) (\<lambda>reduced.
       if reduced < 0
       then require_finite_result (fadd (Finite reduced) (Finite period))
              (context @ ''.positive_reduced_endpoint'')
       else Inr reduced)"

text \<open>One axis: the folded endpoint with the terminal velocity, before the displacement is formed.\<close>

definition wall_axis_endpoint ::
  "binary64 \<Rightarrow> binary64 \<Rightarrow> binary64 \<Rightarrow> binary64 \<Rightarrow> string \<Rightarrow> (binary64 \<times> binary64) result" where
  "wall_axis_endpoint position velocity lower upper context =
     try_then (require_finite_result (fsub (Finite upper) (Finite lower)) (context @ ''.span'')) (\<lambda>width.
     if width \<le> 0 then Inl (SimError kPhysicalScalarOutOfRange context)
     else if position < lower \<or> position > upper
     then Inl (SimError kPhysicalScalarOutOfRange (context @ ''.position''))
     else
       try_then (require_finite_result (fmul (Finite 2) (Finite width)) (context @ ''.period'')) (\<lambda>period.
       if period \<le> 0 then Inl (SimError kPhysicalScalarOutOfRange (context @ ''.period''))
       else
         try_then (require_finite_result
                     (fadd (Finite position) (fmul (Finite velocity) kFixedDeltaSeconds))
                     (context @ ''.proposed_endpoint'')) (\<lambda>proposed.
         try_then (reduce_endpoint lower period proposed context) (\<lambda>reduced.
         try_then (fold_endpoint lower upper width velocity reduced context) (\<lambda>folded.
           Inr (snap_to_wall lower upper width velocity reduced folded))))))"

definition resolve_wall_axis ::
  "binary64 \<Rightarrow> binary64 \<Rightarrow> binary64 \<Rightarrow> binary64 \<Rightarrow> string \<Rightarrow> (binary64 \<times> binary64) result" where
  "resolve_wall_axis position velocity lower upper context =
     try_then (wall_axis_endpoint position velocity lower upper context) (\<lambda>(endpoint, terminal).
     try_then (require_finite_result (fsub (Finite endpoint) (Finite position))
                 (context @ ''.displacement'')) (\<lambda>displacement.
       Inr (displacement, terminal)))"

text \<open>Both extents are validated, so the subtraction of the radius cannot overflow.\<close>

record wall_motion =
  wall_displacement :: vector2
  terminal_velocity :: vector2

definition resolve_player_wall_motion ::
  "vector2 \<Rightarrow> vector2 \<Rightarrow> double \<Rightarrow> double \<Rightarrow> double \<Rightarrow> wall_motion result" where
  "resolve_player_wall_motion position velocity width height radius =
     try_then (require_positive_physical_scalar width ''physics.resolve_player_wall_motion.world_width'') (\<lambda>w.
     try_then (require_positive_physical_scalar height ''physics.resolve_player_wall_motion.world_height'') (\<lambda>h.
     try_then (require_positive_physical_scalar radius ''physics.resolve_player_wall_motion.player_radius'') (\<lambda>r.
       if fle (Finite w) (fmul (Finite 2) (Finite r)) \<or> fle (Finite h) (fmul (Finite 2) (Finite r))
       then Inl (SimError kPhysicalScalarOutOfRange ''physics.resolve_player_wall_motion.geometry'')
       else
         try_then (resolve_wall_axis (vx position) (vx velocity) r (rounded (w - r))
                     ''physics.resolve_player_wall_motion.x'') (\<lambda>(dx, tx).
         try_then (resolve_wall_axis (vy position) (vy velocity) r (rounded (h - r))
                     ''physics.resolve_player_wall_motion.y'') (\<lambda>(dy, ty).
         try_then (vector_create (Finite dx) (Finite dy)) (\<lambda>d.
         try_then (vector_create (Finite tx) (Finite ty)) (\<lambda>t.
           Inr \<lparr>wall_displacement = d, terminal_velocity = t\<rparr>)))))))"

definition resolve_unbounded_motion :: "vector2 \<Rightarrow> wall_motion result" where
  "resolve_unbounded_motion velocity =
     try_then (require_finite_result (fmul (fx velocity) kFixedDeltaSeconds)
                 ''physics.resolve_unbounded_motion.displacement_x'') (\<lambda>x.
     try_then (require_finite_result (fmul (fy velocity) kFixedDeltaSeconds)
                 ''physics.resolve_unbounded_motion.displacement_y'') (\<lambda>y.
     try_then (vector_create (Finite x) (Finite y)) (\<lambda>d.
       Inr \<lparr>wall_displacement = d, terminal_velocity = velocity\<rparr>)))"

section \<open>Drag never accelerates\<close>

lemma require_finite_result_Inr [simp]:
  "require_finite_result d path = Inr x \<longleftrightarrow> d = Finite x"
  by (auto simp: require_finite_result_def split: double.splits)

lemma require_finite_result_Finite [simp]: "require_finite_result (Finite x) path = Inr x"
  by simp

lemma fixed_delta: "kFixedDeltaSeconds = Finite (rounded (1 / 400))"
proof -
  have "to_double 400 = Finite 400"
    using representable_of_int [of 400]
    by (intro to_double_representable) (simp_all add: largest_finite_def)
  moreover have "to_double (1 / 400 :: rat) = Finite (rounded (1 / 400))"
    by (rule to_double_within) (simp add: largest_finite_def)
  ultimately show ?thesis
    by (simp add: kFixedDeltaSeconds_def kSimulationTicksPerSecond_def)
qed

text \<open>The factor of one tick: a value of the unit interval, and exactly one for no drag at all.\<close>

lemma drag_factor:
  assumes "0 \<le> d"
  obtains f where "fmax (Finite 0) (fsub (Finite 1) (fmul (Finite d) kFixedDeltaSeconds)) = Finite f"
    and "0 \<le> f" and "f \<le> 1" and "d = 0 \<Longrightarrow> f = 1"
proof -
  define t where "t = d * rounded (1 / 400)"
  have t: "0 \<le> t" using assms rounded_nonneg [of "1 / 400"] by (simp add: t_def)
  show thesis
  proof (cases "to_double t")
    case (Finite u)
    then have u: "u = rounded t" by (simp add: to_double_Finite_iff)
    then have "0 \<le> u" using t rounded_nonneg by simp
    then have low: "rounded (1 - u) \<le> 1" by (intro rounded_le) simp_all
    consider (big) "largest_finite < \<bar>rounded (1 - u)\<bar>" | (small) "to_double (1 - u) = Finite (rounded (1 - u))"
      by (cases "largest_finite < \<bar>rounded (1 - u)\<bar>") (simp_all add: to_double_def)
    then show thesis
    proof cases
      case big
      with low have neg: "rounded (1 - u) < 0" by (auto simp: largest_finite_def abs_if split: if_splits)
      have "d \<noteq> 0" using neg u by (auto simp: t_def rounded_representable)
      have "0 \<le> rounded (1 - u)" if "1 - u > 0" using that by (intro rounded_nonneg) simp
      with neg have "\<not> 1 - u > 0" by fastforce
      with big have inf: "to_double (1 - u) = Infinite False" by (simp add: to_double_def)
      then show thesis
        using that [of 0] Finite inf \<open>d \<noteq> 0\<close> by (simp add: fixed_delta t_def fmax_def)
    next
      case small
      show thesis
      proof (rule that [of "max 0 (rounded (1 - u))"])
        show "fmax (Finite 0) (fsub (Finite 1) (fmul (Finite d) kFixedDeltaSeconds))
            = Finite (max 0 (rounded (1 - u)))"
          using Finite small by (simp add: fixed_delta t_def fmax_def max_def)
        show "max 0 (rounded (1 - u)) = 1" if "d = 0"
          using that u by (simp add: t_def rounded_representable)
      qed (use low in simp_all)
    qed
  next
    case (Infinite s)
    then have "s" using t largest_finite_nonneg
      by (cases "t = 0") (auto simp: to_double_def simp del: largest_finite_nonneg split: if_splits)
    moreover have "d \<noteq> 0" using Infinite largest_finite_nonneg
      by (auto simp: t_def to_double_def simp del: largest_finite_nonneg split: if_splits)
    ultimately show thesis using that [of 0] Infinite
      by (simp add: fixed_delta t_def fmax_def fsub_def)
  next
    case NotANumber
    then show thesis by (simp add: to_double_def split: if_splits)
  qed
qed

lemma scaled_component:
  assumes "valid_component x" and "0 \<le> f" and "f \<le> 1"
  shows "fmul (Finite x) (Finite f) = Finite (rounded (x * f))"
    and "\<bar>rounded (x * f)\<bar> \<le> \<bar>x\<bar>" and "0 \<le> x * rounded (x * f)"
proof -
  have "\<bar>x * f\<bar> \<le> \<bar>x\<bar>" using assms(2,3) mult_left_mono [of f 1 "\<bar>x\<bar>"] by (simp add: abs_mult)
  then have "rounded \<bar>x * f\<bar> \<le> \<bar>x\<bar>" using assms(1) by (intro rounded_le) (simp_all add: valid_component_def)
  then show le: "\<bar>rounded (x * f)\<bar> \<le> \<bar>x\<bar>" by (simp add: rounded_abs)
  have "\<bar>x\<bar> \<le> largest_finite" using valid_component_double [OF assms(1)] by simp
  with le show "fmul (Finite x) (Finite f) = Finite (rounded (x * f))"
    by (simp add: to_double_finite)
  show "0 \<le> x * rounded (x * f)"
  proof (cases "0 \<le> x")
    case True
    then show ?thesis using assms(2) rounded_nonneg [of "x * f"] by simp
  next
    case False
    then have "0 \<le> rounded (- x * f)" using assms(2) by (intro rounded_nonneg) (simp add: mult_nonpos_nonneg)
    then show ?thesis using False by (simp add: mult_nonpos_nonpos)
  qed
qed

text \<open>
  C29: drag slows a body and does nothing else. For every valid velocity and every drag the
  configuration admits, however large, the scaled velocity exists, no component grows or changes its
  sign, and without drag the velocity is returned bit for bit.
\<close>

theorem drag_only_slows:
  assumes "valid_vector v" and "0 \<le> d"
  shows "\<exists>v'. apply_velocity_drag v (Finite d) = Inr v' \<and> valid_vector v' \<and>
    \<bar>vx v'\<bar> \<le> \<bar>vx v\<bar> \<and> \<bar>vy v'\<bar> \<le> \<bar>vy v\<bar> \<and> 0 \<le> vx v * vx v' \<and> 0 \<le> vy v * vy v' \<and>
    (d = 0 \<longrightarrow> v' = v)"
proof -
  obtain f where f: "fmax (Finite 0) (fsub (Finite 1) (fmul (Finite d) kFixedDeltaSeconds)) = Finite f"
    "0 \<le> f" "f \<le> 1" "d = 0 \<Longrightarrow> f = 1" using drag_factor [OF assms(2)] by metis
  have x: "valid_component (vx v)" and y: "valid_component (vy v)"
    using assms(1) by (simp_all add: valid_vector_def)
  note sx = scaled_component [OF x f(2,3)] and sy = scaled_component [OF y f(2,3)]
  let ?v = "\<lparr>vx = rounded (vx v * f), vy = rounded (vy v * f)\<rparr>"
  have "\<bar>vx ?v\<bar> \<le> kMaximumPhysicalComponentMagnitude" "\<bar>vy ?v\<bar> \<le> kMaximumPhysicalComponentMagnitude"
    using sx(2) sy(2) x y by (simp_all add: valid_component_def)
  then have scaled: "vector_scale v (Finite f) = Inr ?v"
    using sx(1) sy(1)
    by (simp add: vector_scale_def validate_scalar_operand_def create_for_operation_Inr fx_def fy_def)
  then have "apply_velocity_drag v (Finite d) = Inr ?v"
    using f(1) assms(2) by (simp add: apply_velocity_drag_def)
  moreover have "valid_vector ?v" using scaled by (rule vector_operations_valid)
  moreover have "d = 0 \<longrightarrow> ?v = v"
    using f(4) x y by (simp add: valid_component_def rounded_representable)
  ultimately show ?thesis using sx(2,3) sy(2,3) by (intro exI [of _ ?v]) simp
qed

theorem drag_only_slows_witness:
  "\<exists>v'. apply_velocity_drag \<lparr>vx = 3, vy = - 4\<rparr> (Finite 2) = Inr v' \<and> \<bar>vx v'\<bar> \<le> 3 \<and> 0 \<le> vx v'"
proof -
  have "valid_vector \<lparr>vx = 3, vy = - 4\<rparr>"
    using representable_of_int [of 3] representable_of_int [of 4]
    by (simp add: valid_vector_def valid_component_def kMaximumPhysicalComponentMagnitude_def)
  from drag_only_slows [OF this, of 2] show ?thesis by (auto simp: zero_le_mult_iff)
qed

section \<open>Impulses are opposite\<close>

lemma push_velocity_Inr:
  assumes "push_velocity f v d n path = Inr v'"
  shows "f (fx v) (fmul (Finite d) (fx n)) = Finite (vx v')"
    and "f (fy v) (fmul (Finite d) (fy n)) = Finite (vy v')"
  using assms by (auto simp: push_velocity_def try_then_Inr_iff vector_create_def create_for_operation_Inr)

text \<open>Adding a rounded product to one value and its negation to another moves the sum by the two
  roundings alone.\<close>

lemma opposite_pushes:
  assumes "fadd (Finite x) (fmul (Finite d) (Finite n)) = Finite x'"
    and "fadd (Finite y) (fmul (Finite (- d)) (Finite n)) = Finite y'"
  shows "\<bar>(x' + y') - (x + y)\<bar> \<le> (quantum x' + quantum y') / 2"
proof -
  obtain p where p: "to_double (d * n) = Finite p"
    using assms(1) by (cases "to_double (d * n)") simp_all
  have x: "x' = rounded (x + p)" using assms(1) p by (simp add: to_double_FiniteD)
  have y: "y' = rounded (y - p)"
    using assms(2) p by (simp add: to_double_minus to_double_FiniteD)
  show ?thesis
    using rounded_error_ulp [of "x + p"] rounded_error_ulp [of "y - p"] unfolding x y abs_le_iff
    by (simp add: field_simps)
qed

text \<open>
  the equal-mass exchange conserves momentum up to the last rounding. Whatever the two bodies and
  the contact, if the resolution returns velocities then in each axis their sum differs from the sum
  before by at most half a unit in the last place of each new velocity: the two impulses are exact
  opposites.
\<close>

theorem pair_exchange_conserves_momentum:
  assumes "resolve_player_pair_collision a b c = Inr r"
  shows "\<bar>(vx (first_velocity r) + vx (second_velocity r)) - (vx (body_velocity a) + vx (body_velocity b))\<bar>
      \<le> (quantum (vx (first_velocity r)) + quantum (vx (second_velocity r))) / 2 \<and>
    \<bar>(vy (first_velocity r) + vy (second_velocity r)) - (vy (body_velocity a) + vy (body_velocity b))\<bar>
      \<le> (quantum (vy (first_velocity r)) + quantum (vy (second_velocity r))) / 2"
proof (cases "separating c")
  case True
  then show ?thesis using assms by (auto simp: resolve_player_pair_collision_def add_nonneg_nonneg)
next
  case False
  then obtain s1 s2 d1 d2 v w where
    d: "fsub (Finite s2) (Finite s1) = Finite d1" "fsub (Finite s1) (Finite s2) = Finite d2" and
    v: "push_velocity fadd (body_velocity a) d1 (contact_normal c)
         ''physics.resolve_player_pair_collision.first_velocity'' = Inr v" and
    w: "push_velocity fadd (body_velocity b) d2 (contact_normal c)
         ''physics.resolve_player_pair_collision.second_velocity'' = Inr w" and
    r: "first_velocity r = v" "second_velocity r = w"
    using assms by (auto simp: resolve_player_pair_collision_def Let_def try_then_Inr_iff)
  have "d2 = - d1"
    using d rounded_minus [of "s2 - s1"] by (auto dest!: to_double_FiniteD)
  then show ?thesis
    using push_velocity_Inr [OF v] push_velocity_Inr [OF w] unfolding r fx_def fy_def
    by (intro conjI opposite_pushes) simp_all
qed


definition disc_moving :: "binary64 \<Rightarrow> physics_body" where
  "disc_moving v =
     \<lparr>body_position = zero_vector, body_velocity = \<lparr>vx = v, vy = 0\<rparr>, body_acceleration = zero_vector,
      body_radius = Finite 1, body_mass = 1, body_restitution = 1, body_drag_scale = 1,
      collision_layer = 1, collision_mask = 1, is_static = False, body_bounds_behavior = kFold,
      body_ground_attachment = kFloating\<rparr>"

definition head_on :: pair_contact where
  "head_on = \<lparr>is_contact = True, contact_normal = \<lparr>vx = 1, vy = 0\<rparr>, center_distance = Finite 2,
     relative_normal_speed = Finite (- 3)\<rparr>"

text \<open>Arithmetic on small integers is exact, and the tolerances of small values are tiny.\<close>

lemma head_on_exchange:
  "resolve_player_pair_collision (disc_moving 2) (disc_moving (- 1)) head_on =
     Inr \<lparr>collision_contact = head_on, impulse_applied = True,
          first_velocity = \<lparr>vx = - 1, vy = 0\<rparr>, second_velocity = \<lparr>vx = 2, vy = 0\<rparr>\<rparr>"
proof -
  obtain t where "comparison_tolerance (Finite (- 3)) (Finite 0) kVelocityTolerance = Finite t" "t \<le> 1 / 2 ^ 18"
    by (rule tolerance_small [of "- 3" 0]) simp_all
  then have "\<not> separating head_on"
    by (simp add: separating_def head_on_def greater_than_or_approximately_equal_def approximately_equal_def)
  then show ?thesis
    by (simp add: resolve_player_pair_collision_def Let_def head_on_def disc_moving_def vector_dot_def
        fx_def fy_def push_velocity_def vector_create_def create_for_operation_def validate_component_def
        kMaximumPhysicalComponentMagnitude_def)
qed

theorem pair_exchange_conserves_momentum_witness:
  "\<bar>((- 1) + 2) - (2 + (- 1))\<bar> \<le> (quantum (- 1) + quantum 2) / 2 \<and>
   (\<exists>r. resolve_player_pair_collision (disc_moving 2) (disc_moving (- 1)) head_on = Inr r \<and> impulse_applied r)"
  using pair_exchange_conserves_momentum [OF head_on_exchange] head_on_exchange
  by (simp add: disc_moving_def)

end
