(* ===== verification/Error_Free.thy ===== *)
theory Error_Free
  imports Binary64
begin

text \<open>
  Error-free transformations: the rounding error of a binary64 sum or product is itself a binary64
  value, and the operation sequences of the program recover it exactly. These are the facts the
  exact-sign arithmetic of src/src/simulation/swept_geometry.cpp rests on; they concern \<open>rounded\<close>
  alone, so overflow is left to their users.
\<close>

section \<open>Multiples of a power of two\<close>

definition multiple :: "int \<Rightarrow> rat \<Rightarrow> bool" where
  "multiple k x \<longleftrightarrow> (\<exists>n. x = of_int n * 2 powi k)"

lemma multipleI: "x = of_int n * 2 powi k \<Longrightarrow> multiple k x"
  by (auto simp: multiple_def)

lemma multiple_zero [simp, intro]: "multiple k 0"
  by (rule multipleI [of _ 0]) simp

lemma multiple_add [intro]: "multiple k x \<Longrightarrow> multiple k y \<Longrightarrow> multiple k (x + y)"
  unfolding multiple_def by (metis distrib_right of_int_add)

lemma multiple_minus [simp]: "multiple k (- x) \<longleftrightarrow> multiple k x"
  unfolding multiple_def by (metis minus_minus mult_minus_left of_int_minus)

lemma multiple_diff [intro]: "multiple k x \<Longrightarrow> multiple k y \<Longrightarrow> multiple k (x - y)"
  using multiple_add [of k x "- y"] by simp

lemma multiple_mult: "multiple j x \<Longrightarrow> multiple k y \<Longrightarrow> multiple (j + k) (x * y)"
proof -
  assume "multiple j x" and "multiple k y"
  then obtain m n where "x = of_int m * 2 powi j" "y = of_int n * 2 powi k"
    by (auto simp: multiple_def)
  then have "x * y = of_int (m * n) * 2 powi (j + k)" by (simp add: power_int_add)
  then show ?thesis by (rule multipleI)
qed

lemma multiple_weaken:
  assumes "multiple k x" and "j \<le> k"
  shows "multiple j x"
proof -
  obtain n where "x = of_int n * 2 powi k" using assms(1) by (auto simp: multiple_def)
  also have "(2 :: rat) powi k = of_int (2 ^ nat (k - j)) * 2 powi j"
    using assms(2) by (simp add: power_int_nonneg_exp [symmetric] power_int_add [symmetric])
  finally have "x = of_int (n * 2 ^ nat (k - j)) * 2 powi j" by simp
  then show ?thesis by (rule multipleI)
qed

text \<open>A nonzero multiple is at least one unit, so two distinct magnitudes of one grid are a unit apart.\<close>

lemma multiple_ge:
  assumes "multiple k x" and "x \<noteq> 0"
  shows "2 powi k \<le> \<bar>x\<bar>"
proof -
  obtain n where x: "x = of_int n * 2 powi k" using assms(1) by (auto simp: multiple_def)
  with assms(2) have "1 \<le> \<bar>n\<bar>" by auto
  then have "(1 :: rat) \<le> of_int \<bar>n\<bar>" by (simp flip: of_int_le_iff)
  then have "1 * 2 powi k \<le> of_int \<bar>n\<bar> * (2 :: rat) powi k" by (intro mult_right_mono) simp_all
  then show ?thesis by (simp add: x abs_mult)
qed

lemma multiple_less_step:
  assumes "multiple k x" and "\<bar>x\<bar> < of_int m * 2 powi k"
  shows "\<bar>x\<bar> + 2 powi k \<le> of_int m * 2 powi k"
proof -
  obtain n where x: "x = of_int n * 2 powi k" using assms(1) by (auto simp: multiple_def)
  with assms(2) have "of_int \<bar>n\<bar> * (2 :: rat) powi k < of_int m * 2 powi k" by (simp add: abs_mult)
  then have "of_int \<bar>n\<bar> < (of_int m :: rat)" using powi_pos [of k] mult_less_cancel_right_pos by blast
  then have "\<bar>n\<bar> < m" by (simp only: of_int_less_iff)
  then have "of_int (\<bar>n\<bar> + 1) * (2 :: rat) powi k \<le> of_int m * 2 powi k"
    by (intro mult_right_mono) (simp_all flip: of_int_le_iff)
  then show ?thesis by (simp add: x abs_mult algebra_simps)
qed

section \<open>Representable values and their grids\<close>

lemma representable_multiple:
  assumes "multiple k x" and "\<bar>x\<bar> \<le> 2 ^ 53 * 2 powi k" and "- 1074 \<le> k"
  shows "representable x"
proof -
  obtain n where x: "x = of_int n * 2 powi k" using assms(1) by (auto simp: multiple_def)
  with assms(2) have "of_int \<bar>n\<bar> * (2 :: rat) powi k \<le> of_int (2 ^ 53) * 2 powi k" by (simp add: abs_mult)
  then have "of_int \<bar>n\<bar> \<le> (of_int (2 ^ 53) :: rat)" by (simp add: mult_le_cancel_right)
  then have "\<bar>n\<bar> \<le> 2 ^ 53" by (simp only: of_int_le_iff)
  then show ?thesis unfolding x by (intro representableI assms(3))
qed

lemma multiple_quantum:
  assumes "representable x"
  shows "multiple (quantum_exponent x) x"
proof (cases "x = 0")
  case False
  then obtain n where "x / quantum x = of_int n" using representable_quanta [OF assms] by blast
  then have "x = of_int n * quantum x" using quantum_pos [of x] by (simp add: field_simps)
  then show ?thesis unfolding quantum_def by (rule multipleI)
qed simp

lemma quantum_exponent_ge [simp]: "- 1074 \<le> quantum_exponent x"
  by (simp add: quantum_exponent_def)

lemma magnitude_quantum: "\<bar>x\<bar> < 2 ^ 53 * quantum x"
proof (cases "x = 0")
  case False
  then show ?thesis using exponent_of_quantum [of x] quantum_pos [of x] by (simp add: field_simps)
qed simp

text \<open>A value that lies below \<open>2 ^ 53\<close> units of a grid has a quantum of that grid at most.\<close>

lemma quantum_exponent_le:
  assumes "\<bar>x\<bar> < 2 ^ 53 * 2 powi k" and "x \<noteq> 0" and "- 1074 \<le> k"
  shows "quantum_exponent x \<le> k"
proof -
  have "2 powi exponent_of x \<le> \<bar>x\<bar>" using exponent_of_bounds(1) [OF assms(2)] .
  also have "\<dots> < 2 powi (k + 53)" using assms(1) by (simp add: power_int_add mult.commute)
  finally have "exponent_of x < k + 53" by (simp only: powi_less_iff)
  then show ?thesis using assms(3) by (simp add: quantum_exponent_def)
qed

lemma quantum_exponent_mono: "x \<noteq> 0 \<Longrightarrow> \<bar>x\<bar> \<le> \<bar>y\<bar> \<Longrightarrow> quantum_exponent x \<le> quantum_exponent y"
  using exponent_of_mono [of "\<bar>x\<bar>" "\<bar>y\<bar>"] by (auto simp: quantum_exponent_def)

lemma rounded_grid:
  assumes "multiple k x" and "quantum_exponent x \<le> k"
  shows "rounded x = x"
proof (cases "x = 0")
  case False
  obtain n where "x = of_int n * 2 powi quantum_exponent x"
    using multiple_weaken [OF assms] by (auto simp: multiple_def)
  then have x: "x = of_int n * quantum x" by (simp add: quantum_def)
  then have "x / quantum x = of_int n" using quantum_pos [of x] by (simp add: field_simps)
  then have "rounded x = of_int n * quantum x" using False by (simp add: rounded_def)
  then show ?thesis using x by simp
qed simp

lemma rounded_multiple_quantum: "multiple (quantum_exponent x) (rounded x)"
  by (cases "x = 0") (auto simp: rounded_def quantum_def intro: multipleI)

lemma rounded_multiple: "multiple k x \<Longrightarrow> multiple k (rounded x)"
  using rounded_grid [of k x] rounded_multiple_quantum [of x] multiple_weaken by (metis linorder_linear)

section \<open>Rounding goes to a nearest value\<close>

lemma round_half_even_nearest: "\<bar>of_int (round_half_even z) - z\<bar> \<le> \<bar>of_int n - z\<bar>"
proof (cases "\<bar>of_int n - z\<bar> < 1 / 2")
  case True
  then have "\<bar>of_int n - of_int (round_half_even z) :: rat\<bar> < 1"
    using round_half_even_near [of z] by arith
  then have "of_int \<bar>n - round_half_even z\<bar> < (of_int 1 :: rat)" by simp
  then have "\<bar>n - round_half_even z\<bar> < 1" by (simp only: of_int_less_iff)
  then have "n = round_half_even z" by simp
  then show ?thesis by simp
next
  case False
  then show ?thesis using round_half_even_near [of z] by simp
qed

lemma rounded_nearest_multiple:
  assumes "multiple (quantum_exponent x) y"
  shows "\<bar>rounded x - x\<bar> \<le> \<bar>y - x\<bar>"
proof (cases "x = 0")
  case False
  obtain n where y: "y = of_int n * quantum x" using assms by (auto simp: multiple_def quantum_def)
  define z where "z = x / quantum x"
  have x: "x = z * quantum x" using quantum_pos [of x] by (simp add: z_def)
  have scale: "\<bar>of_int m * quantum x - x\<bar> = \<bar>of_int m - z\<bar> * quantum x" for m
  proof -
    have "of_int m * quantum x - x = (of_int m - z) * quantum x" by (subst x) (simp add: left_diff_distrib)
    then show ?thesis by (simp add: abs_mult)
  qed
  have "rounded x = of_int (round_half_even z) * quantum x" using False by (simp add: rounded_def z_def)
  then have "\<bar>rounded x - x\<bar> = \<bar>of_int (round_half_even z) - z\<bar> * quantum x" by (simp only: scale)
  also have "\<dots> \<le> \<bar>of_int n - z\<bar> * quantum x"
    by (intro mult_right_mono round_half_even_nearest) simp
  also have "\<dots> = \<bar>y - x\<bar>" by (simp only: scale y)
  finally show ?thesis .
qed simp

lemma rounded_nearest:
  assumes "representable y"
  shows "\<bar>rounded x - x\<bar> \<le> \<bar>y - x\<bar>"
proof (cases "x = 0")
  case False
  show ?thesis
  proof (cases "2 powi exponent_of x \<le> \<bar>y\<bar>")
    case True
    have "y \<noteq> 0" using True powi_pos [of "exponent_of x"] by (metis abs_zero not_less)
    have "exponent_of x < exponent_of y + 1"
      using True exponent_of_bounds(2) [OF \<open>y \<noteq> 0\<close>] by (simp only: powi_less_iff [symmetric] le_less_trans)
    then have "quantum_exponent x \<le> quantum_exponent y" by (simp add: quantum_exponent_def)
    then show ?thesis
      using multiple_weaken [OF multiple_quantum [OF assms]] by (intro rounded_nearest_multiple)
  next
    case False
    define e where "e = sgn x * 2 powi exponent_of x"
    note low = exponent_of_bounds(1) [OF \<open>x \<noteq> 0\<close>]
    show ?thesis
    proof (cases "quantum_exponent x \<le> exponent_of x")
      case True
      have "multiple (exponent_of x) e"
        unfolding e_def by (rule multipleI [of _ "if x > 0 then 1 else - 1"]) (use \<open>x \<noteq> 0\<close> in \<open>auto simp: sgn_if\<close>)
      then have "\<bar>rounded x - x\<bar> \<le> \<bar>e - x\<bar>"
        using True by (intro rounded_nearest_multiple) (rule multiple_weaken)
      also have "\<dots> \<le> \<bar>y - x\<bar>" using low False \<open>x \<noteq> 0\<close> by (auto simp: e_def sgn_if abs_if split: if_splits)
      finally show ?thesis .
    next
      case below: False
      then have "quantum_exponent x = - 1074" by (auto simp: quantum_exponent_def max_def split: if_splits)
      then show ?thesis
        using multiple_weaken [OF multiple_quantum [OF assms]] by (intro rounded_nearest_multiple) simp
    qed
  qed
qed simp

corollary sum_error_le:
  assumes "representable a" and "representable b"
  shows "\<bar>rounded (a + b) - (a + b)\<bar> \<le> \<bar>a\<bar>" and "\<bar>rounded (a + b) - (a + b)\<bar> \<le> \<bar>b\<bar>"
  using rounded_nearest [OF assms(2), of "a + b"] rounded_nearest [OF assms(1), of "a + b"] by simp_all

section \<open>The error of a sum\<close>

lemma representable_difference_of_sum:
  assumes "representable a" and "representable b" and "quantum_exponent b \<le> quantum_exponent a"
  shows "representable (rounded (a + b) - (a + b))"
proof (cases "b = 0")
  case True
  then show ?thesis using assms(1) by (simp add: rounded_representable)
next
  case False
  have "multiple (quantum_exponent b) (a + b)"
    using multiple_weaken [OF multiple_quantum [OF assms(1)] assms(3)] multiple_quantum [OF assms(2)]
    by (rule multiple_add)
  then have "multiple (quantum_exponent b) (rounded (a + b) - (a + b))"
    by (intro multiple_diff rounded_multiple)
  moreover have "\<bar>rounded (a + b) - (a + b)\<bar> \<le> 2 ^ 53 * 2 powi quantum_exponent b"
    using sum_error_le(2) [OF assms(1,2)] magnitude_quantum [of b] by (simp add: quantum_def)
  ultimately show ?thesis by (rule representable_multiple) simp
qed

lemma representable_sum_error:
  assumes "representable a" and "representable b"
  shows "representable (rounded (a + b) - (a + b))"
  using representable_difference_of_sum [OF assms] representable_difference_of_sum [OF assms(2,1)]
  by (cases "quantum_exponent b \<le> quantum_exponent a") (simp_all add: add.commute)

text \<open>The rounded sum less the operand of the coarser grid is representable, so the program's
  subtraction of it is exact.\<close>

lemma representable_sum_minus:
  assumes a: "representable a" and b: "representable b" and le: "quantum_exponent b \<le> quantum_exponent a"
  shows "representable (rounded (a + b) - a)"
proof -
  define x where "x = a + b"
  define k where "k = quantum_exponent b"
  have ak: "multiple k a" using multiple_weaken [OF multiple_quantum [OF a] le] by (simp add: k_def)
  have bk: "multiple k b" using multiple_quantum [OF b] by (simp add: k_def)
  have xk: "multiple k x" unfolding x_def using ak bk by (rule multiple_add)
  have k: "- 1074 \<le> k" by (simp add: k_def)
  have bsmall: "\<bar>b\<bar> < of_int (2 ^ 53) * 2 powi k" using magnitude_quantum [of b] by (simp add: k_def quantum_def)
  show ?thesis
  proof (cases "x = 0 \<or> quantum_exponent x \<le> k")
    case True
    then have "rounded x = x" using rounded_grid [OF xk] by auto
    then show ?thesis using b by (simp add: x_def)
  next
    case inexact: False
    then have s: "multiple (k + 1) (rounded x)"
      by (intro multiple_weaken [OF rounded_multiple_quantum]) simp
    have sa: "\<bar>rounded x - a\<bar> \<le> \<bar>rounded x - x\<bar> + \<bar>b\<bar>" by (simp add: x_def)
    show ?thesis
    proof (cases "k < quantum_exponent a")
      case True
      then have "multiple (k + 1) a" by (intro multiple_weaken [OF multiple_quantum [OF a]]) simp
      with s have "multiple (k + 1) (rounded x - a)" by (rule multiple_diff)
      moreover have "\<bar>rounded x - a\<bar> \<le> 2 ^ 53 * 2 powi (k + 1)"
        using sa sum_error_le(2) [OF a b] bsmall by (simp add: x_def powi_Suc)
      ultimately have "representable (rounded x - a)" using k by (intro representable_multiple [of "k + 1"]) simp_all
      then show ?thesis by (simp add: x_def)
    next
      case False
      then have same: "quantum_exponent a = k" using le by (simp add: k_def)
      have "\<bar>a\<bar> < 2 ^ 53 * 2 powi k" using magnitude_quantum [of a] same by (simp add: quantum_def)
      then have "\<bar>x\<bar> < 2 ^ 53 * 2 powi (k + 1)" using bsmall by (simp add: x_def powi_Suc)
      moreover have "x \<noteq> 0" using inexact by simp
      ultimately have "quantum_exponent x \<le> k + 1" using k by (intro quantum_exponent_le) simp_all
      then have "quantum x \<le> 2 powi (k + 1)" by (simp only: quantum_def powi_le_iff)
      then have "\<bar>rounded x - x\<bar> \<le> 2 powi k" using rounded_near [of x] by (simp add: powi_Suc)
      moreover have "\<bar>b\<bar> + 2 powi k \<le> of_int (2 ^ 53) * 2 powi k"
        using bk bsmall by (rule multiple_less_step)
      ultimately have "\<bar>rounded x - a\<bar> \<le> 2 ^ 53 * 2 powi k" using sa by simp
      moreover have "multiple k (rounded x - a)"
        using multiple_weaken [OF s, of k] ak by (intro multiple_diff) simp_all
      ultimately have "representable (rounded x - a)" using k by (intro representable_multiple)
      then show ?thesis by (simp add: x_def)
    qed
  qed
qed

section \<open>The six operations of a two-sum\<close>

definition sum_error :: "rat \<Rightarrow> rat \<Rightarrow> rat" where
  "sum_error carry addend =
     (let s = rounded (carry + addend);
          addend_virtual = rounded (s - carry);
          carry_virtual = rounded (s - addend_virtual);
          addend_error = rounded (addend - addend_virtual);
          carry_error = rounded (carry - carry_virtual)
      in rounded (carry_error + addend_error))"

lemma representable_diff_commute: "representable (x - y) = representable (y - x)" for x y :: rat
  using representable_minus [of "x - y"] by simp

lemma sum_error_exact_virtual:
  assumes "representable a" and "representable b"
    and bv: "rounded (rounded (a + b) - a) = rounded (a + b) - a"
  shows "sum_error a b = (a + b) - rounded (a + b)"
  using assms representable_sum_error [OF assms(1,2)]
    rounded_representable [of "(a + b) - rounded (a + b)"]
  by (simp add: sum_error_def Let_def bv rounded_representable representable_diff_commute algebra_simps)

text \<open>The sequence recovers the rounding error of every sum, whatever the magnitudes.\<close>

lemma two_sum:
  assumes a: "representable a" and b: "representable b"
  shows "sum_error a b = (a + b) - rounded (a + b)"
proof -
  define s where "s = rounded (a + b)"
  define e where "e = (a + b) - s"
  have s: "representable s" by (simp add: s_def rounded_is_representable)
  have e: "representable e"
    using representable_sum_error [OF a b] by (simp add: e_def s_def representable_diff_commute)
  show ?thesis
  proof (cases "quantum_exponent b \<le> quantum_exponent a \<or> e = 0 \<or> a = 0")
    case True
    then have "representable (s - a)"
      using representable_sum_minus [OF a b] b s by (auto simp: s_def e_def)
    then show ?thesis by (intro sum_error_exact_virtual a b) (simp add: s_def rounded_representable)
  next
    case False
    then have ab: "quantum_exponent a < quantum_exponent b" and "e \<noteq> 0" and "a \<noteq> 0" by auto
    define bv where "bv = rounded (s - a)"
    have grid: "multiple (quantum_exponent a) (a + b)"
      using multiple_quantum [OF a] multiple_weaken [OF multiple_quantum [OF b]] ab by (intro multiple_add) simp_all
    have "\<not> quantum_exponent (a + b) \<le> quantum_exponent a"
      using rounded_grid [OF grid] \<open>e \<noteq> 0\<close> by (auto simp: e_def s_def)
    moreover have "a + b \<noteq> 0" using \<open>e \<noteq> 0\<close> by (auto simp: e_def s_def)
    moreover have "s \<noteq> 0"
    proof
      assume "s = 0"
      then have "\<bar>a + b\<bar> \<le> \<bar>a\<bar>" using sum_error_le(1) [OF a b] by (simp add: s_def)
      then have "quantum_exponent (a + b) \<le> quantum_exponent a"
        using \<open>a + b \<noteq> 0\<close> by (intro quantum_exponent_mono)
      then show False using \<open>\<not> quantum_exponent (a + b) \<le> quantum_exponent a\<close> by simp
    qed
    ultimately have as: "quantum_exponent a \<le> quantum_exponent s"
      using exponent_of_rounded_le [of "a + b"] by (simp add: s_def quantum_def powi_le_iff)
    have "representable (rounded (s + (- a)) - s)"
      by (intro representable_sum_minus s) (use a as in \<open>simp_all add: quantum_exponent_def\<close>)
    then have av: "rounded (s - bv) = s - bv"
      by (simp add: bv_def rounded_representable representable_diff_commute)
    have "representable (rounded (s + (- a)) - (s + (- a)))"
      by (intro representable_sum_error s) (simp add: a)
    then have ae: "rounded (a - (s - bv)) = a - (s - bv)"
      by (intro rounded_representable) (simp add: bv_def algebra_simps)
    have "\<bar>e\<bar> \<le> \<bar>b\<bar>" using sum_error_le(2) [OF a b] by (simp add: e_def s_def abs_minus_commute)
    then have "quantum_exponent (- e) \<le> quantum_exponent b"
      using \<open>e \<noteq> 0\<close> by (intro quantum_exponent_mono) simp_all
    then have "representable (rounded (b + (- e)) - b)"
      using b e by (intro representable_sum_minus) simp_all
    moreover have "b + (- e) = s - a" by (simp add: e_def)
    ultimately have be: "rounded (b - bv) = b - bv"
      by (simp add: bv_def rounded_representable representable_diff_commute)
    have "sum_error a b = rounded ((a - (s - bv)) + (b - bv))"
      by (simp add: sum_error_def Let_def s_def [symmetric] bv_def [symmetric] av ae be)
    also have "(a - (s - bv)) + (b - bv) = e" by (simp add: e_def)
    finally show ?thesis using e by (simp add: rounded_representable e_def s_def)
  qed
qed

section \<open>The error of a product\<close>

lemma representable_product_error:
  assumes a: "multiple j a" "\<bar>a\<bar> \<le> 2 ^ 53 * 2 powi j" and b: "multiple k b" "\<bar>b\<bar> \<le> 2 ^ 53 * 2 powi k"
    and jk: "- 1074 \<le> j + k"
  shows "representable (a * b - rounded (a * b))"
proof (cases "a * b = 0 \<or> quantum_exponent (a * b) \<le> j + k")
  case True
  have "multiple (j + k) (a * b)" using a(1) b(1) by (rule multiple_mult)
  then have "rounded (a * b) = a * b" using True rounded_grid by fastforce
  then show ?thesis by simp
next
  case False
  define p where "p = a * b"
  have grid: "multiple (j + k) p" unfolding p_def using a(1) b(1) by (rule multiple_mult)
  have "\<bar>p\<bar> \<le> (2 ^ 53 * 2 powi j) * (2 ^ 53 * 2 powi k)"
    unfolding p_def abs_mult using a(2) b(2) by (intro mult_mono) simp_all
  also have "\<dots> = 2 powi (j + k + 106)" by (simp add: power_int_add)
  finally have size: "\<bar>p\<bar> \<le> 2 powi (j + k + 106)" .
  have "quantum p \<le> 2 powi (j + k + 54)"
  proof -
    have "\<bar>p\<bar> < 2 ^ 53 * 2 powi (j + k + 54)"
    proof -
      have "(2 :: rat) powi (j + k + 106) < 2 powi (j + k + 107)" by (simp add: powi_less_iff)
      also have "\<dots> = 2 ^ 53 * 2 powi (j + k + 54)" by (simp add: power_int_add)
      finally show ?thesis using size by simp
    qed
    then have "quantum_exponent p \<le> j + k + 54"
      using False jk by (intro quantum_exponent_le) (simp_all add: p_def)
    then show ?thesis by (simp only: quantum_def powi_le_iff)
  qed
  then have "\<bar>rounded p - p\<bar> \<le> 2 powi (j + k + 54) / 2" using rounded_near [of p] by simp
  also have "\<dots> = 2 ^ 53 * 2 powi (j + k)" by (simp add: power_int_add)
  finally have "\<bar>p - rounded p\<bar> \<le> 2 ^ 53 * 2 powi (j + k)" by (simp add: abs_minus_commute)
  moreover have "multiple (j + k) (p - rounded p)" using grid by (intro multiple_diff rounded_multiple)
  ultimately show ?thesis using jk unfolding p_def by (intro representable_multiple)
qed

end
