(* ===== verification/Expansion.thy ===== *)
theory Expansion
  imports Error_Free Vector2
begin

text \<open>
  The exact-sign arithmetic of src/src/simulation/swept_geometry.cpp (class Expansion): a polynomial
  is held as a list of doubles, low to high, whose exact sum is its value. The list is bounded by the
  capacity of the code's array.
\<close>

section \<open>Operations\<close>

definition kExpansionCapacity :: nat where "kExpansionCapacity = 160"

text \<open>\<open>std::fma\<close>: the product and the sum are rounded once.\<close>

fun ffma :: "double \<Rightarrow> double \<Rightarrow> double \<Rightarrow> double" where
  "ffma (Finite x) (Finite y) (Finite z) = to_double (x * y + z)"
| "ffma (Finite x) (Finite y) (Infinite s) = Infinite s"
| "ffma a b c = fadd (fmul a b) c"

text \<open>One turn of the loop of \<open>add\<close>: the new carry and the error it leaves behind.\<close>

definition carry_step :: "double \<Rightarrow> double \<Rightarrow> double \<times> double" where
  "carry_step carry addend =
     (let s = fadd carry addend;
          addend_virtual = fsub s carry;
          carry_virtual = fsub s addend_virtual;
          addend_error = fsub addend addend_virtual;
          carry_error = fsub carry carry_virtual
      in (s, fadd carry_error addend_error))"

primrec carry_through :: "double list \<Rightarrow> double \<Rightarrow> double list \<times> double" where
  "carry_through [] carry = ([], carry)"
| "carry_through (t # ts) carry =
     (let (s, error) = carry_step carry t; (errors, last_carry) = carry_through ts s
      in (if \<not> feq error (Finite 0) then error # errors else errors, last_carry))"

definition expansion_add :: "double \<Rightarrow> double list \<Rightarrow> double list result" where
  "expansion_add value xs =
     (let (errors, carry) = carry_through xs value
      in if \<not> feq carry (Finite 0)
         then if length errors = kExpansionCapacity
              then Inl (SimError kPhysicalScalarOutOfRange ''swept_geometry.expansion'')
              else Inr (errors @ [carry])
         else Inr errors)"

definition expansion_add_product :: "double \<Rightarrow> double \<Rightarrow> double list \<Rightarrow> double list result" where
  "expansion_add_product a b xs =
     (let product = fmul a b; error = ffma a b (fneg product)
      in try_then (expansion_add error xs) (expansion_add product))"

definition expansion_add_expansion :: "double list \<Rightarrow> double \<Rightarrow> double list \<Rightarrow> double list result" where
  "expansion_add_expansion other sign = try_fold (\<lambda>t. expansion_add (fmul sign t)) other"

definition expansion_add_products :: "double list \<Rightarrow> double list \<Rightarrow> double \<Rightarrow> double list \<Rightarrow> double list result" where
  "expansion_add_products firsts seconds sign =
     try_fold (\<lambda>l. try_fold (\<lambda>r. expansion_add_product (fmul sign l) r) seconds) firsts"

definition expansion_zero :: "double list \<Rightarrow> bool" where
  "expansion_zero xs \<longleftrightarrow> xs = []"

definition expansion_negative :: "double list \<Rightarrow> bool" where
  "expansion_negative xs \<longleftrightarrow> xs \<noteq> [] \<and> fless (last xs) (Finite 0)"

definition expansion_rounded :: "double list \<Rightarrow> double" where
  "expansion_rounded xs = foldl fadd (Finite 0) xs"

section \<open>Nonoverlapping sequences\<close>

text \<open>A value lies below another when the other is a multiple of a power of two above it.\<close>

definition below :: "rat \<Rightarrow> rat \<Rightarrow> bool" where
  "below x y \<longleftrightarrow> (\<exists>k. multiple k y \<and> \<bar>x\<bar> < 2 powi k)"

lemma below_sum:
  assumes "below h a" and "below h b"
  shows "below h (rounded (a + b))" and "below h ((a + b) - rounded (a + b))"
proof -
  obtain j k where j: "multiple j a" "\<bar>h\<bar> < 2 powi j" and k: "multiple k b" "\<bar>h\<bar> < 2 powi k"
    using assms by (auto simp: below_def)
  define m where "m = min j k"
  have "multiple m (a + b)"
    using j(1) k(1) by (intro multiple_add) (auto simp: m_def intro: multiple_weaken)
  moreover have "\<bar>h\<bar> < 2 powi m" using j(2) k(2) by (simp add: m_def min_def)
  ultimately show "below h (rounded (a + b))" "below h ((a + b) - rounded (a + b))"
    unfolding below_def by (blast intro: rounded_multiple multiple_diff)+
qed

lemma below_trans_small: "below y z \<Longrightarrow> \<bar>x\<bar> \<le> \<bar>y\<bar> \<Longrightarrow> below x z"
  unfolding below_def by (meson le_less_trans)

lemma below_rounding_error: "below ((a + b) - rounded (a + b)) (rounded (a + b))"
proof -
  have "\<bar>(a + b) - rounded (a + b)\<bar> \<le> quantum (a + b) / 2"
    using rounded_near [of "a + b"] by (simp add: abs_minus_commute)
  also have "\<dots> < quantum (a + b)" by simp
  finally show ?thesis unfolding below_def quantum_def using rounded_multiple_quantum by blast
qed

text \<open>The sum of a nonoverlapping sequence that lies below a value lies below it too.\<close>

lemma below_sum_list:
  assumes "sorted_wrt below xs" and "\<And>x. x \<in> set xs \<Longrightarrow> below x y" and "xs \<noteq> []"
  shows "below (sum_list xs) y"
  using assms
proof (induction xs arbitrary: y rule: rev_induct)
  case (snoc x xs)
  show ?case
  proof (cases "xs = [] \<or> x = 0")
    case True
    then show ?thesis using snoc by (cases "xs = []") (auto simp: sorted_wrt_append)
  next
    case False
    then have "below (sum_list xs) x" using snoc by (intro snoc.IH) (simp_all add: sorted_wrt_append)
    then obtain k where k: "multiple k x" "\<bar>sum_list xs\<bar> < 2 powi k" by (auto simp: below_def)
    obtain m where m: "multiple m y" "\<bar>x\<bar> < 2 powi m" using snoc.prems(2) [of x] by (auto simp: below_def)
    have "2 powi k < (2 :: rat) powi m" using multiple_ge [OF k(1)] False m(2) by simp
    then have "k < m" by (simp only: powi_less_iff)
    then have split: "(2 :: rat) powi m = of_int (2 ^ nat (m - k)) * 2 powi k"
      by (simp add: power_int_nonneg_exp [symmetric] power_int_add [symmetric])
    then have "\<bar>x\<bar> + 2 powi k \<le> 2 powi m"
      using multiple_less_step [OF k(1), of "2 ^ nat (m - k)"] m(2) by simp
    then have "\<bar>sum_list (xs @ [x])\<bar> < 2 powi m" using k(2) by simp
    then show ?thesis using m(1) unfolding below_def by blast
  qed
qed simp

lemma below_less:
  assumes "below x y" and "y \<noteq> 0"
  shows "\<bar>x\<bar> < \<bar>y\<bar>"
  using assms multiple_ge by (force simp: below_def)

text \<open>So a nonoverlapping sequence of nonzero values has the sign of its last one.\<close>

lemma nonoverlapping_sign:
  assumes "sorted_wrt below xs" and "\<And>x. x \<in> set xs \<Longrightarrow> x \<noteq> 0" and "xs \<noteq> []"
  shows "sum_list xs \<noteq> 0" and "sum_list xs < 0 \<longleftrightarrow> last xs < 0"
proof -
  obtain ys y where xs: "xs = ys @ [y]" using assms(3) by (metis append_butlast_last_id)
  have y: "y \<noteq> 0" using assms(2) xs by simp
  have "\<bar>sum_list ys\<bar> < \<bar>y\<bar>"
  proof (cases "ys = []")
    case False
    then have "below (sum_list ys) y"
      using assms(1) xs by (intro below_sum_list) (auto simp: sorted_wrt_append)
    then show ?thesis using y by (rule below_less)
  qed (use y in simp)
  then show "sum_list xs \<noteq> 0" and "sum_list xs < 0 \<longleftrightarrow> last xs < 0" by (auto simp: xs)
qed

section \<open>Growing a sequence, on rationals\<close>

primrec grow :: "rat list \<Rightarrow> rat \<Rightarrow> rat list \<times> rat" where
  "grow [] carry = ([], carry)"
| "grow (t # ts) carry =
     (let e = (carry + t) - rounded (carry + t); (errors, last_carry) = grow ts (rounded (carry + t))
      in (if e \<noteq> 0 then e # errors else errors, last_carry))"

lemma grow_sum: "grow ts c = (es, q) \<Longrightarrow> sum_list es + q = c + sum_list ts"
  by (induction ts arbitrary: c es q) (auto simp: Let_def split: prod.splits if_splits)

lemma grow_length: "grow ts c = (es, q) \<Longrightarrow> length es \<le> length ts"
  by (induction ts arbitrary: c es q) (auto simp: Let_def split: prod.splits if_splits intro: le_SucI)

lemma grow_nonzero: "grow ts c = (es, q) \<Longrightarrow> 0 \<notin> set es"
  by (induction ts arbitrary: c es q) (auto simp: Let_def split: prod.splits if_splits)

lemma grow_representable:
  "grow ts c = (es, q) \<Longrightarrow> representable c \<Longrightarrow> \<forall>t\<in>set ts. representable t \<Longrightarrow>
   representable q \<and> (\<forall>e\<in>set es. representable e)"
proof (induction ts arbitrary: c es q)
  case (Cons t ts)
  obtain es' where g: "grow ts (rounded (c + t)) = (es', q)"
    and es: "set es \<subseteq> insert ((c + t) - rounded (c + t)) (set es')"
    using Cons.prems(1) by (auto simp: Let_def split: prod.splits if_splits)
  have "representable ((c + t) - rounded (c + t))"
    using representable_sum_error [of c t] Cons.prems by (simp add: representable_diff_commute)
  then show ?case using Cons.IH [OF g rounded_is_representable] Cons.prems(3) es by auto
qed auto

lemma grow_multiple:
  "grow ts c = (es, q) \<Longrightarrow> multiple k c \<Longrightarrow> \<forall>t\<in>set ts. multiple k t \<Longrightarrow>
   multiple k q \<and> (\<forall>e\<in>set es. multiple k e)"
proof (induction ts arbitrary: c es q)
  case (Cons t ts)
  obtain es' where g: "grow ts (rounded (c + t)) = (es', q)"
    and es: "set es \<subseteq> insert ((c + t) - rounded (c + t)) (set es')"
    using Cons.prems(1) by (auto simp: Let_def split: prod.splits if_splits)
  have sum: "multiple k (c + t)" using Cons.prems by (intro multiple_add) simp_all
  then show ?case using Cons.IH [OF g rounded_multiple [OF sum]] Cons.prems(3) es multiple_diff [OF sum rounded_multiple [OF sum]]
    by auto
qed auto

lemma grow_below:
  "grow ts c = (es, q) \<Longrightarrow> below h c \<Longrightarrow> \<forall>t\<in>set ts. below h t \<Longrightarrow> below h q \<and> (\<forall>e\<in>set es. below h e)"
proof (induction ts arbitrary: c es q)
  case (Cons t ts)
  obtain es' where g: "grow ts (rounded (c + t)) = (es', q)"
    and es: "set es \<subseteq> insert ((c + t) - rounded (c + t)) (set es')"
    using Cons.prems(1) by (auto simp: Let_def split: prod.splits if_splits)
  show ?case
    using Cons.IH [OF g] below_sum [of h c t] Cons.prems es by auto
qed auto

lemma grow_nonoverlapping:
  "grow ts c = (es, q) \<Longrightarrow> representable c \<Longrightarrow> \<forall>t\<in>set ts. representable t \<Longrightarrow> sorted_wrt below ts \<Longrightarrow>
   sorted_wrt below (es @ [q])"
proof (induction ts arbitrary: c es q)
  case (Cons t ts)
  define e where "e = (c + t) - rounded (c + t)"
  obtain es' where g: "grow ts (rounded (c + t)) = (es', q)" and es: "es = (if e \<noteq> 0 then e # es' else es')"
    using Cons.prems(1) by (auto simp: Let_def e_def split: prod.splits)
  have tail: "sorted_wrt below (es' @ [q])"
    using Cons.IH [OF g rounded_is_representable] Cons.prems by simp
  have small: "\<bar>e\<bar> \<le> \<bar>t\<bar>"
    using sum_error_le(2) [of c t] Cons.prems by (simp add: e_def abs_minus_commute)
  have "below e q \<and> (\<forall>x\<in>set es'. below e x)"
  proof (rule grow_below [OF g])
    show "below e (rounded (c + t))" unfolding e_def by (rule below_rounding_error)
    show "\<forall>t'\<in>set ts. below e t'" using Cons.prems(4) small below_trans_small by auto
  qed
  with tail show ?case by (auto simp: es)
qed simp

lemma grow_norm:
  "grow ts c = (es, q) \<Longrightarrow> representable c \<Longrightarrow> \<forall>t\<in>set ts. representable t \<Longrightarrow>
   sum_list (map abs es) + \<bar>q\<bar> \<le> \<bar>c\<bar> + 3 * sum_list (map abs ts)"
proof (induction ts arbitrary: c es q)
  case (Cons t ts)
  define e where "e = (c + t) - rounded (c + t)"
  obtain es' where g: "grow ts (rounded (c + t)) = (es', q)" and es: "es = (if e \<noteq> 0 then e # es' else es')"
    using Cons.prems(1) by (auto simp: Let_def e_def split: prod.splits)
  have "sum_list (map abs es') + \<bar>q\<bar> \<le> \<bar>rounded (c + t)\<bar> + 3 * sum_list (map abs ts)"
    using Cons.IH [OF g rounded_is_representable] Cons.prems by simp
  moreover have "\<bar>e\<bar> \<le> \<bar>t\<bar>"
    using sum_error_le(2) [of c t] Cons.prems by (simp add: e_def abs_minus_commute)
  moreover have "\<bar>rounded (c + t)\<bar> \<le> \<bar>c\<bar> + \<bar>t\<bar> + \<bar>e\<bar>" by (simp add: e_def)
  ultimately show ?case by (auto simp: es)
qed simp

section \<open>The double operations compute the rational ones\<close>

lemma rounded_double: "\<bar>rounded x\<bar> \<le> 2 * \<bar>x\<bar>"
  using rounded_nearest [of 0 x] by simp

lemma largest_above: "2 ^ 1010 \<le> largest_finite"
  by (simp add: largest_finite_def)

lemma to_double_small: "\<bar>x\<bar> \<le> 2 ^ 1010 \<Longrightarrow> to_double x = Finite (rounded x)"
  using largest_above by (intro to_double_within) simp

lemma carry_step_exact:
  assumes "representable c" and "representable t" and bound: "\<bar>c\<bar> + \<bar>t\<bar> \<le> 2 ^ 1000"
  shows "carry_step (Finite c) (Finite t) = (Finite (rounded (c + t)), Finite ((c + t) - rounded (c + t)))"
proof -
  define B where "B = \<bar>c\<bar> + \<bar>t\<bar>"
  define s where "s = rounded (c + t)"
  define tv where "tv = rounded (s - c)"
  define cv where "cv = rounded (s - tv)"
  define te where "te = rounded (t - tv)"
  define ce where "ce = rounded (c - cv)"
  have B: "64 * B \<le> 2 ^ 1010" and c: "\<bar>c\<bar> \<le> B" and t: "\<bar>t\<bar> \<le> B" using bound by (simp_all add: B_def)
  have ct: "\<bar>c + t\<bar> \<le> B" by (simp add: B_def)
  have s: "\<bar>s\<bar> \<le> 2 * B" using rounded_double [of "c + t"] ct by (simp add: s_def)
  have sc: "\<bar>s - c\<bar> \<le> 3 * B" using s c by arith
  have tv: "\<bar>tv\<bar> \<le> 6 * B" using rounded_double [of "s - c"] sc by (simp add: tv_def)
  have stv: "\<bar>s - tv\<bar> \<le> 8 * B" using s tv by arith
  have cv: "\<bar>cv\<bar> \<le> 16 * B" using rounded_double [of "s - tv"] stv by (simp add: cv_def)
  have ttv: "\<bar>t - tv\<bar> \<le> 7 * B" using t tv by arith
  have te: "\<bar>te\<bar> \<le> 14 * B" using rounded_double [of "t - tv"] ttv by (simp add: te_def)
  have ccv: "\<bar>c - cv\<bar> \<le> 17 * B" using c cv by arith
  have ce: "\<bar>ce\<bar> \<le> 34 * B" using rounded_double [of "c - cv"] ccv by (simp add: ce_def)
  have cete: "\<bar>ce + te\<bar> \<le> 48 * B" using ce te by arith
  have exact: "to_double (c + t) = Finite s" "to_double (s - c) = Finite tv" "to_double (s - tv) = Finite cv"
    "to_double (t - tv) = Finite te" "to_double (c - cv) = Finite ce"
    "to_double (ce + te) = Finite (rounded (ce + te))"
    using ct sc stv ttv ccv cete B
    by (simp_all add: to_double_small s_def [symmetric] tv_def [symmetric] cv_def [symmetric]
        te_def [symmetric] ce_def [symmetric])
  have "sum_error c t = rounded (ce + te)"
    by (simp add: sum_error_def Let_def s_def [symmetric] tv_def [symmetric] cv_def [symmetric]
        te_def [symmetric] ce_def [symmetric])
  then have "rounded (ce + te) = (c + t) - s" using two_sum [OF assms(1,2)] by (simp add: s_def)
  then show ?thesis by (simp add: carry_step_def Let_def exact s_def [symmetric])
qed

lemma carry_through_exact:
  assumes "\<forall>t\<in>set ts. representable t" and "representable c"
    and "3 * sum_list (map abs ts) + \<bar>c\<bar> \<le> 2 ^ 1000"
  shows "carry_through (map Finite ts) (Finite c) = apfst (map Finite) (apsnd Finite (grow ts c))"
  using assms
proof (induction ts arbitrary: c)
  case (Cons t ts)
  define e where "e = (c + t) - rounded (c + t)"
  have nonneg: "0 \<le> sum_list (map abs ts)" by (induction ts) simp_all
  have "\<bar>e\<bar> \<le> \<bar>t\<bar>"
    using sum_error_le(2) [of c t] Cons.prems by (simp add: e_def abs_minus_commute)
  then have s: "\<bar>rounded (c + t)\<bar> \<le> \<bar>c\<bar> + 2 * \<bar>t\<bar>" by (simp add: e_def)
  have step: "carry_step (Finite c) (Finite t) = (Finite (rounded (c + t)), Finite e)"
    unfolding e_def using Cons.prems nonneg by (intro carry_step_exact) simp_all
  have "carry_through (map Finite ts) (Finite (rounded (c + t)))
      = apfst (map Finite) (apsnd Finite (grow ts (rounded (c + t))))"
    using Cons.prems s by (intro Cons.IH rounded_is_representable) simp_all
  then show ?case
    by (cases "grow ts (rounded (c + t))") (simp add: step Let_def flip: e_def)
qed simp

section \<open>Sound expansions\<close>

text \<open>\<open>n\<close> counts the additions an expansion was built by, \<open>V\<close> bounds each of them and \<open>g\<close> is a grid
  all terms lie on.\<close>

definition sound_terms :: "int \<Rightarrow> rat \<Rightarrow> nat \<Rightarrow> rat list \<Rightarrow> bool" where
  "sound_terms g V n rs \<longleftrightarrow>
     (\<forall>r\<in>set rs. representable r \<and> multiple g r \<and> r \<noteq> 0) \<and> sorted_wrt below rs \<and>
     sum_list (map abs rs) \<le> V * (3 ^ n - 1) \<and> length rs \<le> n"

definition denotes :: "int \<Rightarrow> rat \<Rightarrow> nat \<Rightarrow> double list \<Rightarrow> rat \<Rightarrow> bool" where
  "denotes g V n xs v \<longleftrightarrow> (\<exists>rs. xs = map Finite rs \<and> sound_terms g V n rs \<and> sum_list rs = v)"

lemma denotes_empty [simp, intro]: "0 \<le> V \<Longrightarrow> denotes g V n [] 0"
  by (simp add: denotes_def sound_terms_def)

lemma denotes_weaken:
  assumes "denotes g V m xs v" and "V \<le> W" and "m \<le> n" and "0 \<le> V"
  shows "denotes g W n xs v"
proof -
  have "(3 :: rat) ^ m \<le> 3 ^ n" using assms(3) by (intro power_increasing) simp_all
  then have le: "V * (3 ^ m - 1) \<le> W * (3 ^ n - 1)"
    using assms(2,4) one_le_power [of "3 :: rat" m] by (intro mult_mono) simp_all
  obtain rs where "xs = map Finite rs" "sound_terms g V m rs" "sum_list rs = v"
    using assms(1) by (auto simp: denotes_def)
  moreover from this(2) have "sound_terms g W n rs"
    using le assms(3) by (auto simp: sound_terms_def simp del: of_nat_power)
  ultimately show ?thesis unfolding denotes_def by blast
qed

text \<open>The sign predicates decide the exact value.\<close>

lemma denotes_sign:
  assumes "denotes g V n xs v"
  shows denotes_zero: "expansion_zero xs \<longleftrightarrow> v = 0" and denotes_negative: "expansion_negative xs \<longleftrightarrow> v < 0"
proof -
  obtain rs where rs: "xs = map Finite rs" "sound_terms g V n rs" "sum_list rs = v"
    using assms by (auto simp: denotes_def)
  have srt: "sorted_wrt below rs" and nz: "\<And>r. r \<in> set rs \<Longrightarrow> r \<noteq> 0"
    using rs(2) by (simp_all add: sound_terms_def)
  show "expansion_zero xs \<longleftrightarrow> v = 0"
    using nonoverlapping_sign(1) [OF srt nz] rs(1,3) by (cases "rs = []") (simp_all add: expansion_zero_def)
  show "expansion_negative xs \<longleftrightarrow> v < 0"
    using nonoverlapping_sign(2) [OF srt nz] rs(1,3)
    by (cases "rs = []") (auto simp: expansion_negative_def last_map)
qed

lemma expansion_add_denotes:
  assumes xs: "denotes g V n xs v" and r: "representable r" "multiple g r" "\<bar>r\<bar> \<le> V"
    and n: "n < kExpansionCapacity" and V: "V * 3 ^ Suc n \<le> 2 ^ 1000"
  shows "\<exists>ys. expansion_add (Finite r) xs = Inr ys \<and> denotes g V (Suc n) ys (v + r)"
proof -
  obtain rs where rs: "xs = map Finite rs" "sound_terms g V n rs" "sum_list rs = v"
    using xs by (auto simp: denotes_def)
  obtain es q where gr: "grow rs r = (es, q)" by (cases "grow rs r")
  have V0: "0 \<le> V" using r(3) by simp
  have norm: "sum_list (map abs rs) \<le> V * (3 ^ n - 1)" using rs(2) by (simp add: sound_terms_def)
  have "3 * sum_list (map abs rs) + \<bar>r\<bar> \<le> V * 3 ^ Suc n"
    using norm r(3) V0 by (simp add: algebra_simps)
  then have ct: "carry_through xs (Finite r) = (map Finite es, Finite q)"
    using carry_through_exact [of rs r] rs r(1) V by (simp add: gr sound_terms_def)
  have sum: "sum_list es + q = v + r" using grow_sum [OF gr] rs(3) by simp
  have len: "length es \<le> n" using grow_length [OF gr] rs(2) by (simp add: sound_terms_def)
  have srt: "sorted_wrt below (es @ [q])"
    using grow_nonoverlapping [OF gr r(1)] rs(2) by (simp add: sound_terms_def)
  have mul: "multiple g q \<and> (\<forall>e\<in>set es. multiple g e)"
    using grow_multiple [OF gr r(2)] rs(2) by (simp add: sound_terms_def)
  have rep: "representable q \<and> (\<forall>e\<in>set es. representable e)"
    using grow_representable [OF gr r(1)] rs(2) by (simp add: sound_terms_def)
  have "sum_list (map abs es) + \<bar>q\<bar> \<le> \<bar>r\<bar> + 3 * sum_list (map abs rs)"
    using grow_norm [OF gr r(1)] rs(2) by (simp add: sound_terms_def)
  then have nm: "sum_list (map abs es) + \<bar>q\<bar> \<le> V * (3 ^ Suc n - 1)"
    using norm r(3) V0 by (simp add: algebra_simps)
  define zs where "zs = (if q = 0 then es else es @ [q])"
  have "sound_terms g V (Suc n) zs"
    using srt mul rep nm len grow_nonzero [OF gr]
    by (auto simp: sound_terms_def zs_def sorted_wrt_append)
  moreover have "sum_list zs = v + r" using sum by (simp add: zs_def)
  moreover have "expansion_add (Finite r) xs = Inr (map Finite zs)"
    using len n by (simp add: expansion_add_def ct zs_def)
  ultimately show ?thesis unfolding denotes_def by blast
qed

section \<open>Sums and products of expansions\<close>

lemma finer_grid:
  assumes "representable a" and "multiple j a"
  obtains i where "j \<le> i" and "multiple i a" and "\<bar>a\<bar> \<le> 2 ^ 53 * 2 powi i"
proof (cases "j \<le> quantum_exponent a")
  case True
  then show thesis
    using that [OF True multiple_quantum [OF assms(1)]] magnitude_quantum [of a] by (simp add: quantum_def less_imp_le)
next
  case False
  then have "quantum a \<le> 2 powi j" unfolding quantum_def powi_le_iff by simp
  then have "\<bar>a\<bar> \<le> 2 ^ 53 * 2 powi j" using magnitude_quantum [of a] by simp
  then show thesis by (intro that [of j] assms(2)) simp_all
qed

lemma expansion_add_product_denotes:
  assumes xs: "denotes g V n xs v"
    and a: "representable a" "multiple j a" and b: "representable b" "multiple k b"
    and grid: "g \<le> j + k" "- 1074 \<le> j + k" and size: "2 * \<bar>a * b\<bar> \<le> V"
    and n: "Suc n < kExpansionCapacity" and V: "V * 3 ^ Suc (Suc n) \<le> 2 ^ 1000"
  shows "\<exists>ys. expansion_add_product (Finite a) (Finite b) xs = Inr ys \<and> denotes g V (Suc (Suc n)) ys (v + a * b)"
proof -
  define p where "p = rounded (a * b)"
  have V0: "0 \<le> V" using size by (meson abs_ge_zero mult_nonneg_nonneg order_trans zero_le_numeral)
  have V1: "V \<le> 2 ^ 1000"
  proof -
    have "V * 1 \<le> V * 3 ^ Suc (Suc n)" using V0 by (intro mult_left_mono one_le_power) simp_all
    with V show ?thesis by simp
  qed
  have V2: "V * 3 ^ Suc n \<le> 2 ^ 1000"
  proof -
    have "V * 3 ^ Suc n \<le> V * 3 ^ Suc (Suc n)" using V0 by (intro mult_left_mono power_increasing) simp_all
    with V show ?thesis by simp
  qed
  have grid_ab: "multiple g (a * b)" using multiple_weaken [OF multiple_mult [OF a(2) b(2)] grid(1)] .
  have grid_p: "multiple g p" unfolding p_def using grid_ab by (rule rounded_multiple)
  obtain i where i: "j \<le> i" "multiple i a" "\<bar>a\<bar> \<le> 2 ^ 53 * 2 powi i" using finer_grid [OF a] .
  obtain l where l: "k \<le> l" "multiple l b" "\<bar>b\<bar> \<le> 2 ^ 53 * 2 powi l" using finer_grid [OF b] .
  have err: "representable (a * b - p)"
    unfolding p_def using i l grid(2) by (intro representable_product_error [of i a l b]) simp_all
  have small: "\<bar>a * b - p\<bar> \<le> V" "\<bar>p\<bar> \<le> V"
    using rounded_nearest [of 0 "a * b"] rounded_double [of "a * b"] size V0 by (simp_all add: p_def abs_minus_commute)
  have "\<bar>a * b\<bar> \<le> 2 ^ 1010" "\<bar>a * b - p\<bar> \<le> 2 ^ 1010" using size small(1) V1 by simp_all
  then have ops: "fmul (Finite a) (Finite b) = Finite p"
    "ffma (Finite a) (Finite b) (fneg (Finite p)) = Finite (a * b - p)"
    using rounded_representable [OF err] by (simp_all add: to_double_small p_def)
  obtain ys where ys: "expansion_add (Finite (a * b - p)) xs = Inr ys" "denotes g V (Suc n) ys (v + (a * b - p))"
    using expansion_add_denotes [OF xs err multiple_diff [OF grid_ab grid_p] small(1) _ V2] n by auto
  obtain zs where "expansion_add (Finite p) ys = Inr zs" "denotes g V (Suc (Suc n)) zs (v + (a * b - p) + p)"
    using expansion_add_denotes [OF ys(2) _ grid_p small(2) n V] by (auto simp: p_def rounded_is_representable)
  then show ?thesis by (simp add: expansion_add_product_def Let_def ops ys(1) del: fmul.simps ffma.simps fneg.simps)
qed

lemma abs_le_sum_list: "x \<in> set xs \<Longrightarrow> \<bar>x\<bar> \<le> sum_list (map abs xs)" for x :: rat
proof (induction xs)
  case (Cons y ys)
  have "0 \<le> sum_list (map abs ys)" by (induction ys) simp_all
  with Cons show ?case by auto
qed simp

text \<open>Folding a sound operation over a list: \<open>m\<close> additions and the value \<open>f t\<close> for each element.\<close>

lemma try_fold_denotes:
  assumes step: "\<And>t n xs v. t \<in> set ts \<Longrightarrow> n + m \<le> N \<Longrightarrow> denotes g V n xs v \<Longrightarrow>
      \<exists>ys. op t xs = Inr ys \<and> denotes g V (n + m) ys (v + f t)"
    and "n + m * length ts \<le> N" and "denotes g V n xs v"
  shows "\<exists>ys. try_fold op ts xs = Inr ys \<and> denotes g V (n + m * length ts) ys (v + sum_list (map f ts))"
  using assms
proof (induction ts arbitrary: n xs v)
  case (Cons t ts)
  have "n + m \<le> N" using Cons.prems(2) by simp
  then obtain ys where ys: "op t xs = Inr ys" "denotes g V (n + m) ys (v + f t)"
    using Cons.prems(1) [of t n xs v] Cons.prems(3) by auto
  have "\<exists>zs. try_fold op ts ys = Inr zs \<and> denotes g V (n + m + m * length ts) zs (v + f t + sum_list (map f ts))"
    using Cons.prems(1,2) ys(2) by (intro Cons.IH) simp_all
  then show ?case by (auto simp: ys(1) algebra_simps)
qed simp

text \<open>A sound expansion scaled by a power of two keeps its grid up to that power.\<close>

lemma expansion_add_expansion_denotes:
  assumes xs: "denotes g V n xs v" and other: "denotes g W m os w"
    and s: "s = 1 \<or> s = - 1 \<or> s = 2" and size: "2 * (W * 3 ^ m) \<le> V"
    and N: "n + m \<le> kExpansionCapacity" and V: "V * 3 ^ (n + m) \<le> 2 ^ 1000" and g: "- 1074 \<le> g" and W: "0 \<le> W"
  shows "\<exists>ys. expansion_add_expansion os (Finite s) xs = Inr ys \<and> denotes g V (n + m) ys (v + s * w)"
proof -
  obtain rs where rs: "os = map Finite rs" "sound_terms g W m rs" "sum_list rs = w"
    using other by (auto simp: denotes_def)
  have tm: "representable (s * r) \<and> multiple g (s * r) \<and> \<bar>s * r\<bar> \<le> V" if "r \<in> set rs" for r
  proof -
    have r: "representable r" "multiple g r" using rs(2) that by (simp_all add: sound_terms_def)
    have "\<bar>r\<bar> \<le> W * (3 ^ m - 1)"
      using abs_le_sum_list [OF that] rs(2) by (simp add: sound_terms_def)
    moreover have "W * (3 ^ m - 1) \<le> W * 3 ^ m" using W by (intro mult_left_mono) simp_all
    moreover have "0 \<le> \<bar>r\<bar>" by simp
    ultimately have "2 * \<bar>r\<bar> \<le> V" using size by linarith
    then have "\<bar>s * r\<bar> \<le> V" using s by (auto simp: abs_mult)
    moreover obtain i where i: "g \<le> i" "multiple i r" "\<bar>r\<bar> \<le> 2 ^ 53 * 2 powi i" using finer_grid [OF r] .
    have "multiple (1 + i) (2 * r)" using multiple_mult [OF _ i(2), of 1 2] multipleI [of 2 1 1] by simp
    then have "representable (2 * r) \<and> multiple g (2 * r)"
      using i g multiple_weaken [of "1 + i" "2 * r" g]
      by (auto intro!: representable_multiple [of "1 + i"] simp: abs_mult power_int_add)
    ultimately show ?thesis using s r by auto
  qed
  have "\<exists>ys. try_fold (\<lambda>t. expansion_add (fmul (Finite s) t)) (map Finite rs) xs = Inr ys \<and>
      denotes g V (n + 1 * length (map Finite rs)) ys
        (v + sum_list (map (\<lambda>t. s * (case t of Finite r \<Rightarrow> r | _ \<Rightarrow> 0)) (map Finite rs)))"
  proof (rule try_fold_denotes [where N = "n + m"])
    fix t n' xs' v' assume t: "t \<in> set (map Finite rs)" and n': "n' + 1 \<le> n + m" and d: "denotes g V n' xs' v'"
    then obtain r where r: "t = Finite r" "r \<in> set rs" by auto
    note tr = tm [OF r(2)]
    have V0: "0 \<le> V" using tr by (meson abs_ge_zero order_trans)
    have "V * 3 ^ Suc n' \<le> V * 3 ^ (n + m)" using n' V0 by (intro mult_left_mono power_increasing) simp_all
    then have bound: "V * 3 ^ Suc n' \<le> 2 ^ 1000" using V by (rule order_trans)
    moreover have "V * 1 \<le> V * 3 ^ Suc n'" using V0 by (intro mult_left_mono one_le_power) simp_all
    ultimately have "V \<le> 2 ^ 1000" by simp
    then have "fmul (Finite s) (Finite r) = Finite (s * r)"
      using tr by (simp add: to_double_small rounded_representable)
    then show "\<exists>ys. expansion_add (fmul (Finite s) t) xs' = Inr ys \<and>
        denotes g V (n' + 1) ys (v' + s * (case t of Finite r \<Rightarrow> r | _ \<Rightarrow> 0))"
      using expansion_add_denotes [OF d, of "s * r"] tr bound n' N by (auto simp: r(1))
  qed (use rs xs in \<open>simp_all add: sound_terms_def\<close>)
  then obtain ys where "expansion_add_expansion os (Finite s) xs = Inr ys"
    "denotes g V (n + length rs) ys (v + sum_list (map ((*) s) rs))"
    by (auto simp: expansion_add_expansion_def rs(1) o_def)
  moreover have "sum_list (map ((*) s) rs) = s * w" using rs(3) by (simp add: sum_list_const_mult)
  moreover have "length rs \<le> m" using rs(2) by (simp add: sound_terms_def)
  moreover have "0 \<le> W * 3 ^ m" using W by simp
  ultimately show ?thesis
    using denotes_weaken [of g V "n + length rs" ys "v + s * w" V "n + m"] size by auto
qed

lemma denotes_terms:
  assumes "denotes g V n xs v" and "0 \<le> V"
  obtains rs where "xs = map Finite rs" and "sum_list rs = v" and "length rs \<le> n"
    and "\<And>r. r \<in> set rs \<Longrightarrow> representable r \<and> multiple g r \<and> \<bar>r\<bar> \<le> V * 3 ^ n"
proof -
  obtain rs where rs: "xs = map Finite rs" "sound_terms g V n rs" "sum_list rs = v"
    using assms(1) by (auto simp: denotes_def)
  have "\<bar>r\<bar> \<le> V * 3 ^ n" if "r \<in> set rs" for r
  proof -
    have "\<bar>r\<bar> \<le> V * (3 ^ n - 1)"
      using abs_le_sum_list [OF that] rs(2) by (simp add: sound_terms_def)
    also have "\<dots> \<le> V * 3 ^ n" using assms(2) by (intro mult_left_mono) simp_all
    finally show ?thesis .
  qed
  then show thesis using that rs by (simp add: sound_terms_def)
qed

lemma expansion_add_products_denotes:
  assumes xs: "denotes g V n xs v" and first: "denotes j A k as a" and second: "denotes h B l bs b"
    and s: "s = 1 \<or> s = - 1" and AB: "0 \<le> A" "0 \<le> B" and size: "2 * ((A * 3 ^ k) * (B * 3 ^ l)) \<le> V"
    and grid: "g \<le> j + h" "- 1074 \<le> j + h" and small: "A * 3 ^ k \<le> 2 ^ 1000"
    and N: "n + 2 * l * k \<le> kExpansionCapacity" and V: "V * 3 ^ (n + 2 * l * k) \<le> 2 ^ 1000"
  shows "\<exists>ys. expansion_add_products as bs (Finite s) xs = Inr ys \<and>
    denotes g V (n + 2 * l * k) ys (v + s * (a * b))"
proof -
  obtain rs where rs: "as = map Finite rs" "sum_list rs = a" "length rs \<le> k"
    and r: "\<And>r. r \<in> set rs \<Longrightarrow> representable r \<and> multiple j r \<and> \<bar>r\<bar> \<le> A * 3 ^ k"
    using first AB(1) by (rule denotes_terms) blast
  obtain ts where ts: "bs = map Finite ts" "sum_list ts = b" "length ts \<le> l"
    and t: "\<And>t. t \<in> set ts \<Longrightarrow> representable t \<and> multiple h t \<and> \<bar>t\<bar> \<le> B * 3 ^ l"
    using second AB(2) by (rule denotes_terms) blast
  have P: "0 \<le> (A * 3 ^ k) * (B * 3 ^ l)" using AB by simp
  then have V0: "0 \<le> V" using size by linarith
  define f where "f = (\<lambda>d. case d of Finite r \<Rightarrow> r | _ \<Rightarrow> 0)"
  have inner: "\<exists>ys. try_fold (\<lambda>r. expansion_add_product (fmul (Finite s) (Finite p)) r) bs zs = Inr ys \<and>
      denotes g V (m + 2 * length bs) ys (u + sum_list (map (\<lambda>d. s * p * f d) bs))"
    if p: "p \<in> set rs" and m: "m + 2 * length bs \<le> n + 2 * l * k" and d: "denotes g V m zs u" for p m zs u
  proof (rule try_fold_denotes [OF _ m d])
    fix d m' zs' u' assume "d \<in> set bs" and m': "m' + 2 \<le> n + 2 * l * k" and dd: "denotes g V m' zs' u'"
    then obtain q where q: "d = Finite q" "q \<in> set ts" by (auto simp: ts(1))
    have "\<bar>p\<bar> * \<bar>q\<bar> \<le> (A * 3 ^ k) * (B * 3 ^ l)"
      using r [OF p] t [OF q(2)] AB by (intro mult_mono) simp_all
    then have sz: "2 * \<bar>(s * p) * q\<bar> \<le> V" using size s by (auto simp: abs_mult)
    have "V * 3 ^ Suc (Suc m') \<le> V * 3 ^ (n + 2 * l * k)"
      using m' V0 by (intro mult_left_mono power_increasing) simp_all
    then have bound: "V * 3 ^ Suc (Suc m') \<le> 2 ^ 1000" using V by (rule order_trans)
    have sp: "representable (s * p)" "multiple j (s * p)" using r [OF p] s by auto
    have "\<bar>s * p\<bar> \<le> 2 ^ 1000" using r [OF p] small s by auto
    then have "fmul (Finite s) (Finite p) = Finite (s * p)"
      using sp(1) largest_above by (simp add: to_double_representable)
    then show "\<exists>ys. expansion_add_product (fmul (Finite s) (Finite p)) d zs' = Inr ys \<and>
        denotes g V (m' + 2) ys (u' + s * p * f d)"
      using expansion_add_product_denotes [OF dd sp _ _ grid sz _ bound, of] t [OF q(2)] m' N
      by (simp add: q(1) f_def)
  qed
  have total: "2 * length bs * length as \<le> 2 * l * k"
    using rs(1,3) ts(1,3) by (auto intro: mult_le_mono)
  have "\<exists>ys. expansion_add_products as bs (Finite s) xs = Inr ys \<and>
      denotes g V (n + 2 * length bs * length as) ys
        (v + sum_list (map (\<lambda>c. sum_list (map (\<lambda>d. s * f c * f d) bs)) as))"
    unfolding expansion_add_products_def
  proof (rule try_fold_denotes [where N = "n + 2 * l * k", OF _ _ xs])
    fix c m zs u assume "c \<in> set as" and m: "m + 2 * length bs \<le> n + 2 * l * k" and d: "denotes g V m zs u"
    then obtain p where "c = Finite p" "p \<in> set rs" by (auto simp: rs(1))
    then show "\<exists>ys. try_fold (\<lambda>r. expansion_add_product (fmul (Finite s) c) r) bs zs = Inr ys \<and>
        denotes g V (m + 2 * length bs) ys (u + sum_list (map (\<lambda>d. s * f c * f d) bs))"
      using inner [of p m zs u] m d by (simp add: f_def)
  qed (use total in simp)
  moreover have "sum_list (map (\<lambda>c. sum_list (map (\<lambda>d. s * f c * f d) bs)) as) = s * (a * b)"
  proof -
    have "map f as = rs" "map f bs = ts" by (simp_all add: f_def rs(1) ts(1) o_def)
    then have "sum_list (map f as) = a" "sum_list (map f bs) = b" by (simp_all add: rs(2) ts(2))
    moreover have "sum_list (map (\<lambda>c. sum_list (map (\<lambda>d. s * f c * f d) bs)) as)
        = s * (sum_list (map f as) * sum_list (map f bs))"
      by (simp add: sum_list_const_mult sum_list_mult_const mult.assoc)
    ultimately show ?thesis by simp
  qed
  ultimately obtain ys where ys: "expansion_add_products as bs (Finite s) xs = Inr ys"
    "denotes g V (n + 2 * length bs * length as) ys (v + s * (a * b))" by auto
  have "denotes g V (n + 2 * l * k) ys (v + s * (a * b))"
    using total V0 by (intro denotes_weaken [OF ys(2)]) simp_all
  with ys(1) show ?thesis by blast
qed

end
