(* ===== verification/Motion_Event.thy ===== *)
theory Motion_Event
  imports Physics
begin

text \<open>
  Event times and the total order of motion events (src/src/simulation/motion_event_order.hpp), with
  the responses and observations the solver exchanges with its callbacks (motion_response.hpp,
  motion_contact_observation.hpp, contact_rule.hpp).
\<close>

section \<open>Motion times\<close>

text \<open>A normalized parameter of a motion segment: a binary64 value of the unit interval.\<close>

type_synonym motion_time = binary64

definition motion_time_create :: "double \<Rightarrow> motion_time result" where
  "motion_time_create value =
     (case value of
        Finite t \<Rightarrow>
          if t < 0 \<or> t > 1 then Inl (SimError kPhysicalScalarOutOfRange ''motion_time'') else Inr t
      | _ \<Rightarrow> Inl (SimError kPhysicalScalarNotFinite ''motion_time''))"

definition motion_start :: motion_time where "motion_start = 0"
definition motion_end :: motion_time where "motion_end = 1"

section \<open>Event keys\<close>

datatype event_priority = kSupportLoss | kBodyContact | kWallX | kWallY | kCheckpoint

primrec priority_rank :: "event_priority \<Rightarrow> nat" where
  "priority_rank kSupportLoss = 0"
| "priority_rank kBodyContact = 1"
| "priority_rank kWallX = 2"
| "priority_rank kWallY = 3"
| "priority_rank kCheckpoint = 4"

record event_key =
  key_time :: motion_time
  key_priority :: event_priority
  key_entity :: entity_id
  key_second :: u64

definition contact_key :: "motion_time \<Rightarrow> candidate_pair \<Rightarrow> event_key" where
  "contact_key t pair =
     \<lparr>key_time = t, key_priority = kBodyContact, key_entity = lower_id pair,
      key_second = entity_value (higher_id pair)\<rparr>"

definition boundary_key :: "motion_time \<Rightarrow> event_priority \<Rightarrow> entity_id \<Rightarrow> u64 \<Rightarrow> event_key result" where
  "boundary_key t priority entity feature =
     (if priority = kBodyContact then Inl (SimError kPhysicalScalarOutOfRange ''motion_event.priority'')
      else Inr \<lparr>key_time = t, key_priority = priority, key_entity = entity, key_second = feature\<rparr>)"

text \<open>The defaulted comparison: member by member, in declaration order.\<close>

definition key_less :: "event_key \<Rightarrow> event_key \<Rightarrow> bool" where
  "key_less a b \<longleftrightarrow>
     key_time a < key_time b \<or> key_time a = key_time b \<and>
     (priority_rank (key_priority a) < priority_rank (key_priority b) \<or>
      key_priority a = key_priority b \<and>
      (entity_value (key_entity a) < entity_value (key_entity b) \<or>
       key_entity a = key_entity b \<and> key_second a < key_second b))"

lemma priority_rank_inj [simp]: "priority_rank p = priority_rank q \<longleftrightarrow> p = q"
  by (cases p; cases q) simp_all

lemma key_less_irrefl [simp]: "\<not> key_less k k"
  by (simp add: key_less_def)

lemma lexicographic_trans:
  fixes f :: "'a \<Rightarrow> 'b :: order"
  assumes "f x < f y \<or> x = y \<and> P" and "f y < f z \<or> y = z \<and> Q" and "P \<Longrightarrow> Q \<Longrightarrow> R"
  shows "f x < f z \<or> x = z \<and> R"
  using assms by (auto intro: less_trans)

lemma key_less_trans:
  assumes "key_less a b" and "key_less b c"
  shows "key_less a c"
  unfolding key_less_def
  by (rule lexicographic_trans [where f = "\<lambda>x. x", OF assms [unfolded key_less_def]],
      erule (1) lexicographic_trans [where f = priority_rank],
      erule (1) lexicographic_trans [where f = entity_value], erule (1) less_trans)

lemma key_less_total: "key_less a b \<or> key_less b a \<or> a = b"
proof (rule disjCI)
  assume "\<not> (key_less b a \<or> a = b)"
  then have "a \<noteq> b" and n: "\<not> key_less b a" by simp_all
  show "key_less a b"
  proof (rule ccontr)
    assume n': "\<not> key_less a b"
    have t: "key_time a = key_time b" using n n' by (auto simp: key_less_def)
    then have "\<not> priority_rank (key_priority a) < priority_rank (key_priority b)"
      "\<not> priority_rank (key_priority b) < priority_rank (key_priority a)"
      using n n' by (auto simp: key_less_def)
    then have p: "key_priority a = key_priority b" using linorder_neqE_nat priority_rank_inj by blast
    then have "\<not> entity_value (key_entity a) < entity_value (key_entity b)"
      "\<not> entity_value (key_entity b) < entity_value (key_entity a)"
      using n n' t by (auto simp: key_less_def)
    then have e: "key_entity a = key_entity b" by (simp add: not_less entity_id.expand)
    then have "key_second a = key_second b" using n n' t p by (auto simp: key_less_def)
    with t p e \<open>a \<noteq> b\<close> show False by (simp add: event_key.equality)
  qed
qed

section \<open>Subjects, observations and responses\<close>

record contact_subject =
  subject_entity :: entity_id
  subject_body :: physics_body

record contact_observation =
  touch :: pair_contact
  impact :: "pair_contact option"
  first_effect_eligible :: bool
  second_effect_eligible :: bool

definition observation_reversed :: "contact_observation \<Rightarrow> contact_observation result" where
  "observation_reversed o' =
     try_then (contact_reversed (touch o')) (\<lambda>t.
     try_then (case impact o' of None \<Rightarrow> Inr None | Some c \<Rightarrow> try_then (contact_reversed c) (\<lambda>c'. Inr (Some c')))
       (\<lambda>i. Inr \<lparr>touch = t, impact = i, first_effect_eligible = second_effect_eligible o',
                second_effect_eligible = first_effect_eligible o'\<rparr>))"

datatype motion_disposition = kContinue | kTerminate

record motion_body_result =
  result_body :: physics_body
  disposition :: motion_disposition

record 'e pair_motion_response =
  response_first :: motion_body_result
  response_second :: motion_body_result
  response_effects :: "'e list"

end
