(* ===== verification/Swept_Geometry.thy ===== *)
theory Swept_Geometry
  imports Expansion Motion_Event
begin

text \<open>
  The analytic event roots (src/src/simulation/swept_geometry.cpp): the times at which a point moving
  on a segment crosses a line, a circle or a capsule. Positions are \<open>start + displacement * t\<close>. The
  code tests signs with the exact expansions and evaluates the roots in plain binary64; both are
  modelled operation by operation.
\<close>

section \<open>Collecting roots\<close>

text \<open>The accumulator keeps the extrema of what it was given: no root, one, or two in order.\<close>

datatype swept_roots = NoRoot | OneRoot motion_time | TwoRoots motion_time motion_time

primrec root_times :: "swept_roots \<Rightarrow> motion_time list" where
  "root_times NoRoot = []"
| "root_times (OneRoot t) = [t]"
| "root_times (TwoRoots s t) = [s, t]"

fun insert_root :: "motion_time \<Rightarrow> swept_roots \<Rightarrow> swept_roots" where
  "insert_root t NoRoot = OneRoot t"
| "insert_root t (OneRoot a) = (if t < a then TwoRoots t a else if t > a then TwoRoots a t else OneRoot a)"
| "insert_root t (TwoRoots a b) = (if t < a then TwoRoots t b else if t > b then TwoRoots a t else TwoRoots a b)"

definition add_root :: "double \<Rightarrow> swept_roots \<Rightarrow> swept_roots result" where
  "add_root value roots =
     (case value of
        Finite t \<Rightarrow>
          if t < 0 \<or> t > 1 then Inr roots
          else try_then (motion_time_create (Finite t)) (\<lambda>time. Inr (insert_root time roots))
      | _ \<Rightarrow> Inl (SimError kPhysicalScalarNotFinite ''swept_geometry.root''))"

definition add_roots :: "double list \<Rightarrow> swept_roots \<Rightarrow> swept_roots result" where
  "add_roots = try_fold add_root"

section \<open>Checked scalars\<close>

definition swept_require_finite :: "double \<Rightarrow> string \<Rightarrow> unit result" where
  "swept_require_finite value context =
     (if is_finite value then Inr () else Inl (SimError kPhysicalScalarNotFinite context))"

definition require_radius :: "double \<Rightarrow> double \<Rightarrow> string \<Rightarrow> unit result" where
  "require_radius radius maximum context =
     try_then (swept_require_finite radius context) (\<lambda>_.
       if fless radius (Finite 0) \<or> fless maximum radius
       then Inl (SimError kPhysicalScalarOutOfRange context) else Inr ())"

definition kPrecisionFloor :: double where "kPrecisionFloor = Finite (2 powi (- 200))"

definition require_precision_component :: "double \<Rightarrow> bool \<Rightarrow> string \<Rightarrow> unit result" where
  "require_precision_component value nonzero context =
     (if nonzero \<and> fless (fabs value) kPrecisionFloor
      then Inl (SimError kPhysicalScalarOutOfRange context) else Inr ())"

text \<open>\<open>std::frexp\<close> gives the exponent of a scale in the half-open unit above one half;
  \<open>std::scalbn\<close> multiplies by a power of two and rounds once.\<close>

fun frexp_exponent :: "double \<Rightarrow> int" where
  "frexp_exponent (Finite x) = (if x = 0 then 0 else exponent_of x + 1)"
| "frexp_exponent _ = 0"

fun scalbn :: "double \<Rightarrow> int \<Rightarrow> double" where
  "scalbn (Finite x) k = to_double (x * 2 powi k)"
| "scalbn d k = d"

definition fmaximum :: "double list \<Rightarrow> double" where
  "fmaximum ds = foldl fmax (hd ds) (tl ds)"

definition throw_collapsed_roots :: "'a result" where
  "throw_collapsed_roots = Inl (SimError kPhysicalScalarOutOfRange ''swept_geometry.root_separation'')"

section \<open>Lines\<close>

definition swept_line_boundary_roots :: "double \<Rightarrow> double \<Rightarrow> double \<Rightarrow> swept_roots result" where
  "swept_line_boundary_roots start displacement boundary =
     try_then (swept_require_finite start ''swept_geometry.line.start'') (\<lambda>_.
     try_then (swept_require_finite displacement ''swept_geometry.line.displacement'') (\<lambda>_.
     try_then (swept_require_finite boundary ''swept_geometry.line.boundary'') (\<lambda>_.
       let offset = fsub boundary start in
       try_then (swept_require_finite offset ''swept_geometry.line.offset'') (\<lambda>_.
         if feq displacement (Finite 0)
         then (if feq offset (Finite 0) then add_roots [Finite 0, Finite 1] NoRoot else Inr NoRoot)
         else if fless (Finite 0) displacement \<and> (fless offset (Finite 0) \<or> fless displacement offset) \<or>
                 fless displacement (Finite 0) \<and> (fless (Finite 0) offset \<or> fless offset displacement)
         then Inr NoRoot
         else add_root (fdiv offset displacement) NoRoot))))"

section \<open>Circles\<close>

datatype circle_initial_relation = kInside | kOnBoundary | kOutside
datatype circle_line_topology = kStationary | kMiss | kTangent | kSecant
datatype circle_radial_motion = kApproaching | kOrthogonal | kReceding

record circle_sweep =
  sweep_roots :: swept_roots
  initial_relation :: circle_initial_relation
  line_topology :: circle_line_topology
  initial_radial_motion :: circle_radial_motion
  initial_centers_coincident :: bool

text \<open>The polynomial of one query in its normalized lengths: the squared displacement, the radial
  term, the squared radius and the squared offset less it.\<close>

record circle_polynomial =
  poly_a :: "double list"
  poly_b :: "double list"
  poly_radius_squared :: "double list"
  poly_c :: "double list"

definition circle_polynomial_of :: "double \<Rightarrow> double \<Rightarrow> double \<Rightarrow> double \<Rightarrow> double \<Rightarrow> circle_polynomial result" where
  "circle_polynomial_of mx my dx dy radius =
     try_then (try_then (expansion_add_product dx dx []) (expansion_add_product dy dy)) (\<lambda>a.
     try_then (try_then (expansion_add_product mx dx []) (expansion_add_product my dy)) (\<lambda>b.
     try_then (expansion_add_product radius radius []) (\<lambda>r.
     try_then (try_then (try_then (expansion_add_product mx mx []) (expansion_add_product my my))
                 (expansion_add_expansion r (Finite (- 1)))) (\<lambda>c.
       Inr \<lparr>poly_a = a, poly_b = b, poly_radius_squared = r, poly_c = c\<rparr>))))"

definition relation_of :: "double list \<Rightarrow> circle_initial_relation" where
  "relation_of c = (if expansion_zero c then kOnBoundary else if expansion_negative c then kInside else kOutside)"

definition radial_motion_of :: "double list \<Rightarrow> circle_radial_motion" where
  "radial_motion_of b =
     (if expansion_zero b then kOrthogonal else if expansion_negative b then kApproaching else kReceding)"

text \<open>The roots and the topology of the three cases that divide: the start on the circle, the end on
  it, and the general quadratic.\<close>

definition circle_from_boundary :: "circle_polynomial \<Rightarrow> (swept_roots \<times> circle_line_topology) result" where
  "circle_from_boundary p =
     (let a = expansion_rounded (poly_a p); b = expansion_rounded (poly_b p)
      in try_then (add_roots [Finite 0, fdiv (fmul (Finite (- 2)) b) a] NoRoot) (\<lambda>roots.
           Inr (roots, if expansion_zero (poly_b p) then kTangent else kSecant)))"

definition circle_to_boundary :: "circle_polynomial \<Rightarrow> (swept_roots \<times> circle_line_topology) result" where
  "circle_to_boundary p =
     (let other = fdiv (expansion_rounded (poly_c p)) (expansion_rounded (poly_a p)) in
      try_then (expansion_add_expansion (poly_a p) (Finite (- 1)) (poly_c p)) (\<lambda>difference.
        if fle (Finite 1) other \<and> expansion_negative difference then throw_collapsed_roots
        else try_then (add_root (Finite 1) NoRoot) (\<lambda>roots.
          if \<not> expansion_negative difference \<and> \<not> expansion_zero difference then Inr (roots, kSecant)
          else try_then (add_root other roots) (\<lambda>roots.
            Inr (roots, if expansion_zero difference then kTangent else kSecant)))))"

definition circle_discriminant ::
  "double \<Rightarrow> double \<Rightarrow> double \<Rightarrow> double \<Rightarrow> circle_polynomial \<Rightarrow> double list result" where
  "circle_discriminant mx my dx dy p =
     try_then (try_then (expansion_add_product mx dy []) (expansion_add_product (fneg my) dx)) (\<lambda>cross.
     try_then (expansion_add_products (poly_a p) (poly_radius_squared p) (Finite 1) [])
       (expansion_add_products cross cross (Finite (- 1))))"

definition circle_general ::
  "double list \<Rightarrow> circle_polynomial \<Rightarrow> (swept_roots \<times> circle_line_topology) result" where
  "circle_general discriminant p =
     (let a = expansion_rounded (poly_a p); b = expansion_rounded (poly_b p); c = expansion_rounded (poly_c p)
      in if expansion_negative discriminant then Inr (NoRoot, kMiss)
         else if expansion_zero discriminant
         then try_then (add_root (fdiv (fneg b) a) NoRoot) (\<lambda>roots. Inr (roots, kTangent))
         else let square_root = fsqrt (expansion_rounded discriminant);
                  q = (if fle (Finite 0) b then fsub (fneg b) square_root else fadd (fneg b) square_root);
                  first = fdiv q a; second = fdiv c q
              in if feq first second \<and> fle (Finite 0) first \<and> fle first (Finite 1) then throw_collapsed_roots
                 else try_then (add_roots [first, second] NoRoot) (\<lambda>roots. Inr (roots, kSecant)))"

definition circle_roots ::
  "double \<Rightarrow> double \<Rightarrow> double \<Rightarrow> double \<Rightarrow> circle_polynomial \<Rightarrow> (swept_roots \<times> circle_line_topology) result" where
  "circle_roots mx my dx dy p =
     (if expansion_zero (poly_a p)
      then try_then (if expansion_zero (poly_c p) then add_roots [Finite 0, Finite 1] NoRoot else Inr NoRoot)
             (\<lambda>roots. Inr (roots, kStationary))
      else if expansion_zero (poly_c p) then circle_from_boundary p
      else
        try_then (try_then (try_then (expansion_add_expansion (poly_a p) (Finite 1) [])
                    (expansion_add_expansion (poly_b p) (Finite 2)))
                    (expansion_add_expansion (poly_c p) (Finite 1))) (\<lambda>endpoint.
          if expansion_zero endpoint then circle_to_boundary p
          else try_then (circle_discriminant mx my dx dy p) (\<lambda>discriminant. circle_general discriminant p)))"

definition normalized_query ::
  "double \<Rightarrow> double \<Rightarrow> vector2 \<Rightarrow> double \<Rightarrow> bool \<Rightarrow> circle_sweep result" where
  "normalized_query offset_x offset_y displacement radius coincident =
     (let scale = fmaximum [fabs offset_x, fabs offset_y, fabs (fx displacement), fabs (fy displacement), radius];
          e = - frexp_exponent scale;
          mx = scalbn offset_x e; my = scalbn offset_y e;
          dx = scalbn (fx displacement) e; dy = scalbn (fy displacement) e; r = scalbn radius e
      in try_then (require_precision_component mx (\<not> feq offset_x (Finite 0)) ''swept_geometry.offset_x'') (\<lambda>_.
         try_then (require_precision_component my (\<not> feq offset_y (Finite 0)) ''swept_geometry.offset_y'') (\<lambda>_.
         try_then (require_precision_component dx (\<not> feq (fx displacement) (Finite 0)) ''swept_geometry.displacement_x'') (\<lambda>_.
         try_then (require_precision_component dy (\<not> feq (fy displacement) (Finite 0)) ''swept_geometry.displacement_y'') (\<lambda>_.
         try_then (require_precision_component r (\<not> feq radius (Finite 0)) ''swept_geometry.radius'') (\<lambda>_.
         try_then (circle_polynomial_of mx my dx dy r) (\<lambda>p.
         try_then (circle_roots mx my dx dy p) (\<lambda>(roots, topology).
           Inr \<lparr>sweep_roots = roots, initial_relation = relation_of (poly_c p), line_topology = topology,
                initial_radial_motion = radial_motion_of (poly_b p),
                initial_centers_coincident = coincident\<rparr>))))))))"

definition kMaximumBoundaryRadius :: double where
  "kMaximumBoundaryRadius = fmul (Finite 2) (Finite kMaximumPhysicalComponentMagnitude)"

definition swept_circle_boundary_query ::
  "vector2 \<Rightarrow> vector2 \<Rightarrow> vector2 \<Rightarrow> double \<Rightarrow> circle_sweep result" where
  "swept_circle_boundary_query start displacement center boundary_radius =
     try_then (require_radius boundary_radius kMaximumBoundaryRadius ''swept_geometry.boundary_radius'') (\<lambda>_.
       let offset_x = fsub (fx start) (fx center); offset_y = fsub (fy start) (fy center);
           coincident = (feq offset_x (Finite 0) \<and> feq offset_y (Finite 0));
           scale = fmaximum [fabs offset_x, fabs offset_y, fabs (fx displacement), fabs (fy displacement), boundary_radius]
       in if feq scale (Finite 0)
          then try_then (add_roots [Finite 0, Finite 1] NoRoot) (\<lambda>roots.
                 Inr \<lparr>sweep_roots = roots, initial_relation = kOnBoundary, line_topology = kStationary,
                      initial_radial_motion = kOrthogonal, initial_centers_coincident = coincident\<rparr>)
          else normalized_query offset_x offset_y displacement boundary_radius coincident)"

definition swept_circle_boundary_roots :: "vector2 \<Rightarrow> vector2 \<Rightarrow> vector2 \<Rightarrow> double \<Rightarrow> swept_roots result" where
  "swept_circle_boundary_roots start displacement center radius =
     try_then (swept_circle_boundary_query start displacement center radius) (\<lambda>s. Inr (sweep_roots s))"

section \<open>Remapping\<close>

definition map_motion_time :: "motion_time \<Rightarrow> motion_time \<Rightarrow> motion_time \<Rightarrow> motion_time result" where
  "map_motion_time local begin_time end_time =
     (if end_time < begin_time then Inl (SimError kPhysicalScalarOutOfRange ''motion_time.interval'')
      else if local = motion_start then Inr begin_time
      else if local = motion_end then Inr end_time
      else let remaining = fsub (Finite end_time) (Finite begin_time)
           in motion_time_create (fadd (Finite begin_time) (fmul remaining (Finite local))))"

section \<open>Normalization is exact\<close>

lemma fmax_Finite [simp]: "fmax (Finite a) (Finite b) = Finite (max a b)"
  by (simp add: fmax_def max_def)

lemma quantum_exponent_scaled: "exponent_of x - 52 \<le> quantum_exponent x"
  by (simp add: quantum_exponent_def)

lemma exponent_of_scaled:
  assumes "x \<noteq> 0"
  shows "exponent_of (x * 2 powi k) = exponent_of x + k"
proof (rule exponent_of_unique)
  show "2 powi (exponent_of x + k) \<le> \<bar>x * 2 powi k\<bar>"
    using exponent_of_bounds(1) [OF assms] by (simp add: abs_mult power_int_add)
  have "\<bar>x\<bar> * 2 powi k < 2 powi (exponent_of x + 1) * 2 powi k"
    using exponent_of_bounds(2) [OF assms] by (intro mult_strict_right_mono) simp_all
  also have "\<dots> = 2 powi (exponent_of x + k + 1)" by (simp add: power_int_add)
  finally show "\<bar>x * 2 powi k\<bar> < 2 powi (exponent_of x + k + 1)" by (simp add: abs_mult)
qed

text \<open>A normalized length: within the unit, zero or at least \<open>2 ^ -200\<close>, on the grid of that floor.\<close>

definition normalized :: "rat \<Rightarrow> bool" where
  "normalized x \<longleftrightarrow> representable x \<and> multiple (- 252) x \<and> \<bar>x\<bar> \<le> 1"

lemma normalized_minus [simp]: "normalized (- x) = normalized x"
  by (simp add: normalized_def)

lemma scalbn_normalized:
  assumes x: "representable x" and small: "\<bar>x * 2 powi k\<bar> \<le> 1"
    and checked: "require_precision_component (scalbn (Finite x) k) (\<not> feq (Finite x) (Finite 0)) path = Inr u"
  shows "scalbn (Finite x) k = Finite (x * 2 powi k)" and "normalized (x * 2 powi k)"
proof -
  define y where "y = x * 2 powi k"
  have "\<bar>y\<bar> \<le> 2 ^ 1010" using small by (simp add: y_def)
  then have s: "scalbn (Finite x) k = Finite (rounded y)" by (simp add: y_def to_double_small)
  have "rounded y = y \<and> normalized y"
  proof (cases "x = 0")
    case True
    then show ?thesis by (simp add: y_def normalized_def)
  next
    case False
    then have y0: "y \<noteq> 0" by (simp add: y_def)
    have "\<not> fless (fabs (Finite (rounded y))) kPrecisionFloor"
      using checked False unfolding s by (auto simp: require_precision_component_def split: if_splits)
    then have "2 powi (- 200) \<le> \<bar>rounded y\<bar>" by (simp add: kPrecisionFloor_def)
    then have "2 powi (- 201) \<le> \<bar>y\<bar>"
      using rounded_double [of y] by (simp add: power_int_minus)
    also have "\<bar>y\<bar> < 2 powi (exponent_of y + 1)" using exponent_of_bounds(2) [OF y0] .
    finally have "- 201 \<le> exponent_of y" unfolding powi_less_iff by simp
    then have qy: "quantum_exponent y = exponent_of y - 52" "- 253 \<le> quantum_exponent y"
      by (simp_all add: quantum_exponent_def)
    have "multiple (exponent_of x - 52) x"
      using multiple_weaken [OF multiple_quantum [OF x] quantum_exponent_scaled] .
    then have "multiple (exponent_of x - 52 + k) y"
      unfolding y_def by (rule multiple_mult) (rule multipleI [of _ 1], simp)
    moreover have "exponent_of x - 52 + k = quantum_exponent y"
      using qy(1) exponent_of_scaled [OF False, of k] by (simp add: y_def)
    ultimately have grid: "multiple (quantum_exponent y) y" by (simp only:)
    then have ry: "rounded y = y" by (rule rounded_grid) simp
    then have "2 powi (- 200) \<le> \<bar>y\<bar>" using \<open>2 powi (- 200) \<le> \<bar>rounded y\<bar>\<close> by simp
    also have "\<bar>y\<bar> < 2 powi (exponent_of y + 1)" using exponent_of_bounds(2) [OF y0] .
    finally have "- 200 \<le> exponent_of y" unfolding powi_less_iff by simp
    then have "- 252 \<le> quantum_exponent y" using qy(1) by simp
    then show ?thesis
      using ry grid small rounded_is_representable [of y] multiple_weaken
      by (auto simp: normalized_def y_def)
  qed
  with s show "scalbn (Finite x) k = Finite (x * 2 powi k)" "normalized (x * 2 powi k)"
    by (simp_all add: y_def)
qed

section \<open>The polynomial of a query\<close>

lemma product_denotes:
  assumes "normalized x" and "normalized y" and "denotes (- 504) 2 n xs v" and "n \<le> 100"
  shows "\<exists>ys. expansion_add_product (Finite x) (Finite y) xs = Inr ys \<and> denotes (- 504) 2 (Suc (Suc n)) ys (v + x * y)"
proof (rule expansion_add_product_denotes [OF assms(3), where j = "- 252" and k = "- 252"])
  have "\<bar>x\<bar> * \<bar>y\<bar> \<le> 1 * 1" using assms(1,2) by (intro mult_mono) (simp_all add: normalized_def)
  then show "2 * \<bar>x * y\<bar> \<le> 2" by (simp add: abs_mult)
  have "(3 :: rat) ^ Suc (Suc n) \<le> 3 ^ 102" using assms(4) by (intro power_increasing) simp_all
  then show "2 * 3 ^ Suc (Suc n) \<le> (2 ^ 1000 :: rat)" by (rule order_trans [OF mult_left_mono]) simp_all
qed (use assms in \<open>simp_all add: normalized_def kExpansionCapacity_def\<close>)

lemma two_products_denote:
  assumes "normalized x" and "normalized y" and "normalized z" and "normalized w"
  shows "\<exists>ys. try_then (expansion_add_product (Finite x) (Finite y) []) (expansion_add_product (Finite z) (Finite w)) = Inr ys \<and>
    denotes (- 504) 2 4 ys (x * y + z * w)"
proof -
  obtain ys where ys: "expansion_add_product (Finite x) (Finite y) [] = Inr ys" "denotes (- 504) 2 2 ys (x * y)"
    using product_denotes [OF assms(1,2), of 0 "[]" 0] by (auto simp: numeral_2_eq_2)
  obtain zs where "expansion_add_product (Finite z) (Finite w) ys = Inr zs" "denotes (- 504) 2 4 zs (x * y + z * w)"
    using product_denotes [OF assms(3,4) ys(2)] by (auto simp: eval_nat_numeral)
  then show ?thesis by (simp add: ys(1))
qed

lemma capacity_numeral: "kExpansionCapacity = 160"
  by (simp add: kExpansionCapacity_def)

lemma circle_polynomial_denotes:
  assumes n: "normalized mx" "normalized my" "normalized dx" "normalized dy" "normalized r"
  obtains p where "circle_polynomial_of (Finite mx) (Finite my) (Finite dx) (Finite dy) (Finite r) = Inr p"
    and "denotes (- 504) 2 4 (poly_a p) (dx * dx + dy * dy)"
    and "denotes (- 504) 2 4 (poly_b p) (mx * dx + my * dy)"
    and "denotes (- 504) 2 2 (poly_radius_squared p) (r * r)"
    and "denotes (- 504) 64 6 (poly_c p) (mx * mx + my * my - r * r)"
proof -
  obtain a where a: "try_then (expansion_add_product (Finite dx) (Finite dx) []) (expansion_add_product (Finite dy) (Finite dy)) = Inr a"
    "denotes (- 504) 2 4 a (dx * dx + dy * dy)" using two_products_denote n by blast
  obtain b where b: "try_then (expansion_add_product (Finite mx) (Finite dx) []) (expansion_add_product (Finite my) (Finite dy)) = Inr b"
    "denotes (- 504) 2 4 b (mx * dx + my * dy)" using two_products_denote n by blast
  obtain q where q: "expansion_add_product (Finite r) (Finite r) [] = Inr q" "denotes (- 504) 2 2 q (r * r)"
    using product_denotes [OF n(5,5), of 0 "[]" 0] by (auto simp: numeral_2_eq_2)
  obtain m where m: "try_then (expansion_add_product (Finite mx) (Finite mx) []) (expansion_add_product (Finite my) (Finite my)) = Inr m"
    "denotes (- 504) 2 4 m (mx * mx + my * my)" using two_products_denote n by blast
  have m': "denotes (- 504) 64 4 m (mx * mx + my * my)" by (rule denotes_weaken [OF m(2)]) simp_all
  obtain c where c: "expansion_add_expansion q (Finite (- 1)) m = Inr c"
    "denotes (- 504) 64 6 c (mx * mx + my * my - r * r)"
    using expansion_add_expansion_denotes [OF m' q(2), of "- 1"] by (auto simp: capacity_numeral)
  show thesis
    using that [of "\<lparr>poly_a = a, poly_b = b, poly_radius_squared = q, poly_c = c\<rparr>"] a b q m(1) c
    by (simp add: circle_polynomial_of_def)
qed

lemma capacity_arith: "(2 :: rat) ^ 20 * 3 ^ 48 \<le> 2 ^ 1000"
  by simp

lemma circle_endpoint_denotes:
  assumes a: "denotes (- 504) 2 4 as a" and b: "denotes (- 504) 2 4 bs b" and c: "denotes (- 504) 64 6 cs c"
  obtains es where "try_then (try_then (expansion_add_expansion as (Finite 1) [])
      (expansion_add_expansion bs (Finite 2))) (expansion_add_expansion cs (Finite 1)) = Inr es"
    and "denotes (- 504) (2 ^ 20) 14 es (a + 2 * b + c)"
proof -
  obtain x where x: "expansion_add_expansion as (Finite 1) [] = Inr x" "denotes (- 504) (2 ^ 20) 4 x a"
    using expansion_add_expansion_denotes [OF denotes_empty a, where n = 0 and V = "2 ^ 20" and s = 1] by (auto simp: capacity_numeral)
  obtain y where y: "expansion_add_expansion bs (Finite 2) x = Inr y" "denotes (- 504) (2 ^ 20) 8 y (a + 2 * b)"
    using expansion_add_expansion_denotes [OF x(2) b, of 2] by (auto simp: capacity_numeral)
  obtain z where "expansion_add_expansion cs (Finite 1) y = Inr z" "denotes (- 504) (2 ^ 20) 14 z (a + 2 * b + c)"
    using expansion_add_expansion_denotes [OF y(2) c, of 1] by (auto simp: capacity_numeral)
  then show thesis using that x(1) y(1) by simp
qed

lemma circle_difference_denotes:
  assumes a: "denotes (- 504) 2 4 as a" and c: "denotes (- 504) 64 6 cs c"
  obtains ds where "expansion_add_expansion as (Finite (- 1)) cs = Inr ds"
    and "denotes (- 504) 1024 10 ds (c - a)"
proof -
  have c': "denotes (- 504) 1024 6 cs c" by (rule denotes_weaken [OF c]) simp_all
  show thesis
    using expansion_add_expansion_denotes [OF c' a, of "- 1"] that by (auto simp: capacity_numeral)
qed

lemma circle_discriminant_denotes:
  assumes n: "normalized mx" "normalized my" "normalized dx" "normalized dy"
    and a: "denotes (- 504) 2 4 (poly_a p) a" and r: "denotes (- 504) 2 2 (poly_radius_squared p) q"
  obtains ds where "circle_discriminant (Finite mx) (Finite my) (Finite dx) (Finite dy) p = Inr ds"
    and "denotes (- 1008) (2 ^ 20) 48 ds (a * q - (mx * dy - my * dx) * (mx * dy - my * dx))"
proof -
  obtain cr where cr: "try_then (expansion_add_product (Finite mx) (Finite dy) [])
      (expansion_add_product (Finite (- my)) (Finite dx)) = Inr cr"
    "denotes (- 504) 2 4 cr (mx * dy + - my * dx)"
    using two_products_denote [of mx dy "- my" dx] n by auto
  have "\<exists>x. expansion_add_products (poly_a p) (poly_radius_squared p) (Finite 1) [] = Inr x \<and>
      denotes (- 1008) (2 ^ 20) (0 + 2 * 2 * 4) x (0 + 1 * (a * q))"
    by (rule expansion_add_products_denotes [OF denotes_empty a r]) (simp_all add: capacity_numeral)
  then obtain x where x: "expansion_add_products (poly_a p) (poly_radius_squared p) (Finite 1) [] = Inr x"
    "denotes (- 1008) (2 ^ 20) 16 x (a * q)" by auto
  have "\<exists>y. expansion_add_products cr cr (Finite (- 1)) x = Inr y \<and>
      denotes (- 1008) (2 ^ 20) (16 + 2 * 4 * 4) y
        (a * q + - 1 * ((mx * dy + - my * dx) * (mx * dy + - my * dx)))"
    by (rule expansion_add_products_denotes [OF x(2) cr(2) cr(2)]) (simp_all add: capacity_numeral)
  then show thesis using that cr(1) x(1) by (auto simp: circle_discriminant_def)
qed

section \<open>Exact classification\<close>

text \<open>The topology of the supporting line from the exact signs of the half-quadratic
  \<open>a t\<^sup>2 + 2 b t + c\<close>.\<close>

definition exact_relation :: "rat \<Rightarrow> circle_initial_relation" where
  "exact_relation c = (if c = 0 then kOnBoundary else if c < 0 then kInside else kOutside)"

definition exact_radial_motion :: "rat \<Rightarrow> circle_radial_motion" where
  "exact_radial_motion b = (if b = 0 then kOrthogonal else if b < 0 then kApproaching else kReceding)"

definition exact_topology :: "rat \<Rightarrow> rat \<Rightarrow> rat \<Rightarrow> circle_line_topology" where
  "exact_topology a b c =
     (if a = 0 then kStationary else if b * b < a * c then kMiss else if b * b = a * c then kTangent else kSecant)"

lemma cross_identity:
  fixes mx my dx dy r :: rat
  shows "(dx * dx + dy * dy) * (r * r) - (mx * dy - my * dx) * (mx * dy - my * dx)
    = (mx * dx + my * dy) * (mx * dx + my * dy) - (dx * dx + dy * dy) * (mx * mx + my * my - r * r)"
  by (simp add: algebra_simps)

lemma circle_roots_topology:
  assumes n: "normalized mx" "normalized my" "normalized dx" "normalized dy"
    and a: "denotes (- 504) 2 4 (poly_a p) (dx * dx + dy * dy)"
    and b: "denotes (- 504) 2 4 (poly_b p) (mx * dx + my * dy)"
    and r: "denotes (- 504) 2 2 (poly_radius_squared p) (r * r)"
    and c: "denotes (- 504) 64 6 (poly_c p) (mx * mx + my * my - r * r)"
    and ok: "circle_roots (Finite mx) (Finite my) (Finite dx) (Finite dy) p = Inr (roots, topology)"
  shows "topology = exact_topology (dx * dx + dy * dy) (mx * dx + my * dy) (mx * mx + my * my - r * r)"
proof -
  define A where "A = dx * dx + dy * dy"
  define B where "B = mx * dx + my * dy"
  define C where "C = mx * mx + my * my - r * r"
  have zero: "expansion_zero (poly_a p) \<longleftrightarrow> A = 0" "expansion_zero (poly_c p) \<longleftrightarrow> C = 0"
    "expansion_zero (poly_b p) \<longleftrightarrow> B = 0"
    using denotes_zero [OF a] denotes_zero [OF c] denotes_zero [OF b] by (simp_all add: A_def B_def C_def)
  have A: "0 \<le> A" by (simp add: A_def)
  obtain es where es: "try_then (try_then (expansion_add_expansion (poly_a p) (Finite 1) [])
      (expansion_add_expansion (poly_b p) (Finite 2))) (expansion_add_expansion (poly_c p) (Finite 1)) = Inr es"
    "denotes (- 504) (2 ^ 20) 14 es (A + 2 * B + C)"
    using circle_endpoint_denotes [OF a b c] by (auto simp: A_def B_def C_def)
  obtain ds where ds: "expansion_add_expansion (poly_a p) (Finite (- 1)) (poly_c p) = Inr ds"
    "denotes (- 504) 1024 10 ds (C - A)"
    using circle_difference_denotes [OF a c] by (auto simp: A_def C_def)
  obtain qs where qs: "circle_discriminant (Finite mx) (Finite my) (Finite dx) (Finite dy) p = Inr qs"
    "denotes (- 1008) (2 ^ 20) 48 qs (B * B - A * C)"
    using circle_discriminant_denotes [OF n a r] cross_identity by (metis A_def B_def C_def)
  show ?thesis
  proof (cases "A = 0")
    case True
    then show ?thesis
      using ok zero unfolding A_def [symmetric] B_def [symmetric] C_def [symmetric]
      by (auto simp: circle_roots_def exact_topology_def try_then_Inr_iff)
  next
    case a0: False
    show ?thesis
    proof (cases "C = 0")
      case True
      then show ?thesis
        using ok zero a0 unfolding A_def [symmetric] B_def [symmetric] C_def [symmetric]
        by (auto simp: circle_roots_def circle_from_boundary_def exact_topology_def try_then_Inr_iff Let_def
            mult_less_0_iff)
    next
      case c0: False
      show ?thesis
      proof (cases "A + 2 * B + C = 0")
        case True
        then have "2 * B = - (A + C)" by simp
        then have "4 * (B * B - A * C) = (C - A) * (C - A)"
          using arg_cong [of "2 * B" "- (A + C)" "\<lambda>x. x * x"] by (simp add: algebra_simps)
        then have D: "B * B = A * C + (C - A) * (C - A) / 4" by simp
        have "0 \<le> (C - A) * (C - A) / 4" by simp
        then have "A * C \<le> B * B" unfolding D by (rule le_add_same_cancel1 [THEN iffD2])
        moreover have "B * B = A * C \<longleftrightarrow> C = A" by (simp add: D)
        ultimately have sq: "A * C \<le> B * B" "B * B = A * C \<longleftrightarrow> C = A" by blast+
        have "circle_to_boundary p = Inr (roots, topology)"
          using ok zero a0 c0 True denotes_zero [OF es(2)] by (simp add: circle_roots_def es(1))
        then have "topology = (if expansion_zero ds then kTangent else kSecant)"
          using denotes_zero [OF ds(2)]
          by (auto simp: circle_to_boundary_def ds(1) throw_collapsed_roots_def Let_def try_then_Inr_iff split: if_splits)
        then show ?thesis
          using denotes_zero [OF ds(2)] sq a0 unfolding A_def [symmetric] B_def [symmetric] C_def [symmetric]
          by (auto simp: exact_topology_def)
      next
        case False
        then have "circle_general qs p = Inr (roots, topology)"
          using ok zero a0 c0 denotes_zero [OF es(2)] by (simp add: circle_roots_def es(1) qs(1))
        then have "topology = (if expansion_negative qs then kMiss else if expansion_zero qs then kTangent else kSecant)"
          by (auto simp: circle_general_def throw_collapsed_roots_def Let_def try_then_Inr_iff split: if_splits)
        then show ?thesis
          using denotes_zero [OF qs(2)] denotes_negative [OF qs(2)] a0
          unfolding A_def [symmetric] B_def [symmetric] C_def [symmetric]
          by (auto simp: exact_topology_def)
      qed
    qed
  qed
qed

lemma exact_scaling:
  assumes "0 < t"
  shows "exact_relation (c * (t * t)) = exact_relation c"
    and "exact_radial_motion (b * (t * t)) = exact_radial_motion b"
    and "exact_topology (a * (t * t)) (b * (t * t)) (c * (t * t)) = exact_topology a b c"
proof -
  have tt: "0 < t * t" "t \<noteq> 0" using assms by simp_all
  show "exact_relation (c * (t * t)) = exact_relation c"
    "exact_radial_motion (b * (t * t)) = exact_radial_motion b"
    using tt mult_less_cancel_right_pos [OF tt(1), of _ 0] by (simp_all add: exact_relation_def exact_radial_motion_def)
  define T where "T = t * t * (t * t)"
  have T: "0 < T" using tt(1) by (simp add: T_def)
  have e: "(b * (t * t)) * (b * (t * t)) = (b * b) * T" "(a * (t * t)) * (c * (t * t)) = (a * c) * T"
    by (simp_all add: T_def algebra_simps)
  have "(b * b) * T < (a * c) * T \<longleftrightarrow> b * b < a * c" using T by (rule mult_less_cancel_right_pos)
  moreover have "(b * b) * T = (a * c) * T \<longleftrightarrow> b * b = a * c" using T by simp
  moreover have "a * (t * t) = 0 \<longleftrightarrow> a = 0" using tt by simp
  ultimately show "exact_topology (a * (t * t)) (b * (t * t)) (c * (t * t)) = exact_topology a b c"
    unfolding exact_topology_def e by presburger
qed

lemma below_scale:
  assumes "\<bar>x\<bar> \<le> S" and "S \<noteq> 0"
  shows "\<bar>x * 2 powi (- (exponent_of S + 1))\<bar> \<le> 1"
proof -
  have "\<bar>x\<bar> < 2 powi (exponent_of S + 1)"
    using assms exponent_of_bounds(2) [OF assms(2)] by linarith
  then have "\<bar>x\<bar> * 2 powi (- (exponent_of S + 1)) < 2 powi (exponent_of S + 1) * 2 powi (- (exponent_of S + 1))"
    by (intro mult_strict_right_mono) simp_all
  also have "\<dots> = (1 :: rat)" by (simp add: power_int_add [symmetric])
  finally show ?thesis by (simp add: abs_mult)
qed

section \<open>The capacity is enough\<close>

definition expansion_overflow :: sim_error where
  "expansion_overflow = SimError kPhysicalScalarOutOfRange ''swept_geometry.expansion''"

lemma add_root_fit: "add_root value roots \<noteq> Inl expansion_overflow"
  by (auto simp: add_root_def expansion_overflow_def motion_time_create_def try_then_Inl_iff split: double.split)

lemma add_roots_fit: "add_roots values roots \<noteq> Inl expansion_overflow"
  using add_root_fit by (induction "values" arbitrary: roots) (auto simp: add_roots_def try_then_Inl_iff)

lemma circle_roots_fit:
  assumes n: "normalized mx" "normalized my" "normalized dx" "normalized dy"
    and a: "denotes (- 504) 2 4 (poly_a p) (dx * dx + dy * dy)"
    and b: "denotes (- 504) 2 4 (poly_b p) (mx * dx + my * dy)"
    and r: "denotes (- 504) 2 2 (poly_radius_squared p) (r * r)"
    and c: "denotes (- 504) 64 6 (poly_c p) (mx * mx + my * my - r * r)"
  shows "circle_roots (Finite mx) (Finite my) (Finite dx) (Finite dy) p \<noteq> Inl expansion_overflow"
proof -
  obtain es where es: "try_then (try_then (expansion_add_expansion (poly_a p) (Finite 1) [])
      (expansion_add_expansion (poly_b p) (Finite 2))) (expansion_add_expansion (poly_c p) (Finite 1)) = Inr es"
    using circle_endpoint_denotes [OF a b c] by blast
  obtain ds where ds: "expansion_add_expansion (poly_a p) (Finite (- 1)) (poly_c p) = Inr ds"
    using circle_difference_denotes [OF a c] by blast
  obtain qs where qs: "circle_discriminant (Finite mx) (Finite my) (Finite dx) (Finite dy) p = Inr qs"
    using circle_discriminant_denotes [OF n a r] by blast
  have collapsed: "throw_collapsed_roots \<noteq> Inl expansion_overflow"
    by (simp add: throw_collapsed_roots_def expansion_overflow_def)
  have "circle_from_boundary p \<noteq> Inl expansion_overflow"
    using add_roots_fit by (auto simp: circle_from_boundary_def Let_def try_then_Inl_iff)
  moreover have "circle_to_boundary p \<noteq> Inl expansion_overflow"
    using add_root_fit collapsed by (auto simp: circle_to_boundary_def Let_def ds try_then_Inl_iff)
  moreover have "circle_general qs p \<noteq> Inl expansion_overflow"
    using add_root_fit add_roots_fit collapsed by (auto simp: circle_general_def Let_def try_then_Inl_iff)
  ultimately show ?thesis using add_roots_fit by (auto simp: circle_roots_def es qs try_then_Inl_iff)
qed

text \<open>The lengths of a query that passed the precision checks are normalized, and their polynomial denotes
  the exact one.\<close>

lemma normalized_query_polynomial:
  assumes rep: "representable mx" "representable my" "representable dx" "representable dy" "representable r"
    and S: "\<bar>mx\<bar> \<le> S" "\<bar>my\<bar> \<le> S" "\<bar>dx\<bar> \<le> S" "\<bar>dy\<bar> \<le> S" "\<bar>r\<bar> \<le> S" "S \<noteq> 0"
    and e: "e = - (exponent_of S + 1)" and t: "t = 2 powi e"
    and checks: "require_precision_component (scalbn (Finite mx) e) (\<not> feq (Finite mx) (Finite 0)) ''swept_geometry.offset_x'' = Inr ()"
      "require_precision_component (scalbn (Finite my) e) (\<not> feq (Finite my) (Finite 0)) ''swept_geometry.offset_y'' = Inr ()"
      "require_precision_component (scalbn (Finite dx) e) (\<not> feq (Finite dx) (Finite 0)) ''swept_geometry.displacement_x'' = Inr ()"
      "require_precision_component (scalbn (Finite dy) e) (\<not> feq (Finite dy) (Finite 0)) ''swept_geometry.displacement_y'' = Inr ()"
      "require_precision_component (scalbn (Finite r) e) (\<not> feq (Finite r) (Finite 0)) ''swept_geometry.radius'' = Inr ()"
  obtains p where "scalbn (Finite mx) e = Finite (mx * t)" "scalbn (Finite my) e = Finite (my * t)"
    "scalbn (Finite dx) e = Finite (dx * t)" "scalbn (Finite dy) e = Finite (dy * t)" "scalbn (Finite r) e = Finite (r * t)"
    and "normalized (mx * t)" "normalized (my * t)" "normalized (dx * t)" "normalized (dy * t)"
    and "circle_polynomial_of (Finite (mx * t)) (Finite (my * t)) (Finite (dx * t)) (Finite (dy * t)) (Finite (r * t)) = Inr p"
    and "denotes (- 504) 2 4 (poly_a p) (dx * t * (dx * t) + dy * t * (dy * t))"
      "denotes (- 504) 2 4 (poly_b p) (mx * t * (dx * t) + my * t * (dy * t))"
      "denotes (- 504) 2 2 (poly_radius_squared p) (r * t * (r * t))"
      "denotes (- 504) 64 6 (poly_c p) (mx * t * (mx * t) + my * t * (my * t) - r * t * (r * t))"
proof -
  note n = scalbn_normalized [OF rep(1) below_scale [OF S(1,6)] checks(1) [unfolded e]]
    scalbn_normalized [OF rep(2) below_scale [OF S(2,6)] checks(2) [unfolded e]]
    scalbn_normalized [OF rep(3) below_scale [OF S(3,6)] checks(3) [unfolded e]]
    scalbn_normalized [OF rep(4) below_scale [OF S(4,6)] checks(4) [unfolded e]]
    scalbn_normalized [OF rep(5) below_scale [OF S(5,6)] checks(5) [unfolded e]]
  note n = n [folded e, folded t]
  show thesis using circle_polynomial_denotes [OF n(2,4,6,8,10)] that n by metis
qed

lemma normalized_query_exact:
  assumes rep: "representable mx" "representable my" "valid_vector displacement" "representable r"
    and S: "S = Max {\<bar>mx\<bar>, \<bar>my\<bar>, \<bar>vx displacement\<bar>, \<bar>vy displacement\<bar>, r}" "S \<noteq> 0" and r: "0 \<le> r"
    and a: "a = vx displacement * vx displacement + vy displacement * vy displacement"
    and b: "b = mx * vx displacement + my * vy displacement" and c: "c = mx * mx + my * my - r * r"
  shows "normalized_query (Finite mx) (Finite my) displacement (Finite r) coincident \<noteq> Inl expansion_overflow"
    and "normalized_query (Finite mx) (Finite my) displacement (Finite r) coincident = Inr s \<Longrightarrow>
      initial_relation s = exact_relation c \<and> initial_radial_motion s = exact_radial_motion b \<and>
      line_topology s = exact_topology a b c \<and> initial_centers_coincident s = coincident"
proof -
  define dx where "dx = vx displacement"
  define dy where "dy = vy displacement"
  define e where "e = - (exponent_of S + 1)"
  define t where "t = (2 :: rat) powi e"
  have dxy: "representable dx" "representable dy"
    using rep(3) by (simp_all add: valid_vector_def valid_component_def dx_def dy_def)
  have le: "\<bar>mx\<bar> \<le> S" "\<bar>my\<bar> \<le> S" "\<bar>dx\<bar> \<le> S" "\<bar>dy\<bar> \<le> S" "\<bar>r\<bar> \<le> S"
    using r unfolding S(1) dx_def dy_def by (auto simp: abs_of_nonneg le_max_iff_disj)
  have "fmaximum [fabs (Finite mx), fabs (Finite my), fabs (fx displacement), fabs (fy displacement), Finite r] = Finite S"
    unfolding S(1) by (simp add: fmaximum_def fx_def fy_def max.assoc)
  then have ex: "- frexp_exponent (fmaximum [fabs (Finite mx), fabs (Finite my), fabs (fx displacement),
      fabs (fy displacement), Finite r]) = e" using S(2) by (simp add: e_def)
  note query = normalized_query_def [of "Finite mx" "Finite my" displacement "Finite r" coincident,
      unfolded Let_def ex, unfolded fx_def fy_def dx_def [symmetric] dy_def [symmetric]]
  note polynomial = normalized_query_polynomial [OF rep(1,2) dxy rep(4) le S(2) e_def t_def]
  show "normalized_query (Finite mx) (Finite my) displacement (Finite r) coincident \<noteq> Inl expansion_overflow"
  proof
    assume bad: "normalized_query (Finite mx) (Finite my) displacement (Finite r) coincident = Inl expansion_overflow"
    have checks: "require_precision_component (scalbn (Finite mx) e) (\<not> feq (Finite mx) (Finite 0)) ''swept_geometry.offset_x'' = Inr ()"
      "require_precision_component (scalbn (Finite my) e) (\<not> feq (Finite my) (Finite 0)) ''swept_geometry.offset_y'' = Inr ()"
      "require_precision_component (scalbn (Finite dx) e) (\<not> feq (Finite dx) (Finite 0)) ''swept_geometry.displacement_x'' = Inr ()"
      "require_precision_component (scalbn (Finite dy) e) (\<not> feq (Finite dy) (Finite 0)) ''swept_geometry.displacement_y'' = Inr ()"
      "require_precision_component (scalbn (Finite r) e) (\<not> feq (Finite r) (Finite 0)) ''swept_geometry.radius'' = Inr ()"
      using bad unfolding query
      by (auto simp: try_then_Inl_iff expansion_overflow_def require_precision_component_def
          simp del: scalbn.simps feq.simps split: if_split_asm)
    from polynomial [OF this] obtain p where n: "scalbn (Finite mx) e = Finite (mx * t)" "scalbn (Finite my) e = Finite (my * t)"
        "scalbn (Finite dx) e = Finite (dx * t)" "scalbn (Finite dy) e = Finite (dy * t)" "scalbn (Finite r) e = Finite (r * t)"
      and nn: "normalized (mx * t)" "normalized (my * t)" "normalized (dx * t)" "normalized (dy * t)"
      and p: "circle_polynomial_of (Finite (mx * t)) (Finite (my * t)) (Finite (dx * t)) (Finite (dy * t)) (Finite (r * t)) = Inr p"
      and d: "denotes (- 504) 2 4 (poly_a p) (dx * t * (dx * t) + dy * t * (dy * t))"
        "denotes (- 504) 2 4 (poly_b p) (mx * t * (dx * t) + my * t * (dy * t))"
        "denotes (- 504) 2 2 (poly_radius_squared p) (r * t * (r * t))"
        "denotes (- 504) 64 6 (poly_c p) (mx * t * (mx * t) + my * t * (my * t) - r * t * (r * t))" by blast
    have "circle_roots (Finite (mx * t)) (Finite (my * t)) (Finite (dx * t)) (Finite (dy * t)) p \<noteq> Inl expansion_overflow"
      by (rule circle_roots_fit [OF nn d])
    with bad checks show False
      unfolding query by (auto simp: n p try_then_Inl_iff simp del: scalbn.simps feq.simps)
  qed
  show "initial_relation s = exact_relation c \<and> initial_radial_motion s = exact_radial_motion b \<and>
      line_topology s = exact_topology a b c \<and> initial_centers_coincident s = coincident"
    if ok: "normalized_query (Finite mx) (Finite my) displacement (Finite r) coincident = Inr s"
  proof -
    obtain p roots topology where
      checks: "require_precision_component (scalbn (Finite mx) e) (\<not> feq (Finite mx) (Finite 0)) ''swept_geometry.offset_x'' = Inr ()"
        "require_precision_component (scalbn (Finite my) e) (\<not> feq (Finite my) (Finite 0)) ''swept_geometry.offset_y'' = Inr ()"
        "require_precision_component (scalbn (Finite dx) e) (\<not> feq (Finite dx) (Finite 0)) ''swept_geometry.displacement_x'' = Inr ()"
        "require_precision_component (scalbn (Finite dy) e) (\<not> feq (Finite dy) (Finite 0)) ''swept_geometry.displacement_y'' = Inr ()"
        "require_precision_component (scalbn (Finite r) e) (\<not> feq (Finite r) (Finite 0)) ''swept_geometry.radius'' = Inr ()" and
      poly: "circle_polynomial_of (scalbn (Finite mx) e) (scalbn (Finite my) e) (scalbn (Finite dx) e)
        (scalbn (Finite dy) e) (scalbn (Finite r) e) = Inr p" and
      roots: "circle_roots (scalbn (Finite mx) e) (scalbn (Finite my) e) (scalbn (Finite dx) e)
        (scalbn (Finite dy) e) p = Inr (roots, topology)" and
      s: "s = \<lparr>sweep_roots = roots, initial_relation = relation_of (poly_c p), line_topology = topology,
        initial_radial_motion = radial_motion_of (poly_b p), initial_centers_coincident = coincident\<rparr>"
      using ok unfolding query
      by (auto simp: try_then_Inr_iff simp del: scalbn.simps feq.simps)
    from polynomial [OF checks] obtain p' where n: "scalbn (Finite mx) e = Finite (mx * t)" "scalbn (Finite my) e = Finite (my * t)"
        "scalbn (Finite dx) e = Finite (dx * t)" "scalbn (Finite dy) e = Finite (dy * t)" "scalbn (Finite r) e = Finite (r * t)"
      and nn: "normalized (mx * t)" "normalized (my * t)" "normalized (dx * t)" "normalized (dy * t)"
      and p': "circle_polynomial_of (Finite (mx * t)) (Finite (my * t)) (Finite (dx * t)) (Finite (dy * t)) (Finite (r * t)) = Inr p'"
      and d: "denotes (- 504) 2 4 (poly_a p') (dx * t * (dx * t) + dy * t * (dy * t))"
        "denotes (- 504) 2 4 (poly_b p') (mx * t * (dx * t) + my * t * (dy * t))"
        "denotes (- 504) 2 2 (poly_radius_squared p') (r * t * (r * t))"
        "denotes (- 504) 64 6 (poly_c p') (mx * t * (mx * t) + my * t * (my * t) - r * t * (r * t))" by blast
    have "p' = p" using poly p' by (simp add: n del: scalbn.simps)
    note d = d [unfolded this]
    have top: "topology = exact_topology (dx * t * (dx * t) + dy * t * (dy * t)) (mx * t * (dx * t) + my * t * (dy * t))
        (mx * t * (mx * t) + my * t * (my * t) - r * t * (r * t))"
      using roots by (intro circle_roots_topology [OF nn d]) (simp add: n del: scalbn.simps)
    have scaled: "dx * t * (dx * t) + dy * t * (dy * t) = a * (t * t)"
      "mx * t * (dx * t) + my * t * (dy * t) = b * (t * t)"
      "mx * t * (mx * t) + my * t * (my * t) - r * t * (r * t) = c * (t * t)"
      by (simp_all add: a b c dx_def dy_def algebra_simps)
    have t: "0 < t" by (simp add: t_def)
    note d = d [unfolded scaled]
    have "relation_of (poly_c p) = exact_relation (c * (t * t))"
      unfolding relation_of_def exact_relation_def denotes_zero [OF d(4)] denotes_negative [OF d(4)] ..
    moreover have "radial_motion_of (poly_b p) = exact_radial_motion (b * (t * t))"
      unfolding radial_motion_of_def exact_radial_motion_def denotes_zero [OF d(2)] denotes_negative [OF d(2)] ..
    moreover have "topology = exact_topology (a * (t * t)) (b * (t * t)) (c * (t * t))" using top unfolding scaled .
    ultimately show ?thesis unfolding s exact_scaling [OF t] by simp
  qed
qed

text \<open>
  C28: what a swept-circle query says about its geometry is exact. No query on valid vectors and a
  representable radius ever overflows the capacity of the code's expansions, so none is refused for that
  reason. And of every answer, the initial relation, the radial
  direction of the motion and the topology of the supporting line are the exact signs of the polynomial of
  the offset the code subtracts: no rounding, cancellation or scaling changes a classification.
\<close>

theorem circle_classification_is_exact:
  assumes valid: "valid_vector start" "valid_vector displacement" "valid_vector center"
    and r: "representable r"
    and mx: "mx = rounded (vx start - vx center)" and my: "my = rounded (vy start - vy center)"
    and a: "a = vx displacement * vx displacement + vy displacement * vy displacement"
    and b: "b = mx * vx displacement + my * vy displacement" and c: "c = mx * mx + my * my - r * r"
  shows "swept_circle_boundary_query start displacement center (Finite r) \<noteq>
      Inl (SimError kPhysicalScalarOutOfRange ''swept_geometry.expansion'') \<and>
    (\<forall>s. swept_circle_boundary_query start displacement center (Finite r) = Inr s \<longrightarrow>
      initial_relation s = exact_relation c \<and> initial_radial_motion s = exact_radial_motion b \<and>
      line_topology s = exact_topology a b c \<and> initial_centers_coincident s = (mx = 0 \<and> my = 0))"
proof (cases "require_radius (Finite r) kMaximumBoundaryRadius ''swept_geometry.boundary_radius'' = Inr ()")
  case False
  then show ?thesis
    by (auto simp: swept_circle_boundary_query_def try_then_Inr_iff try_then_Inl_iff require_radius_def
        swept_require_finite_def split: if_split_asm)
next
  case rad: True
  define S where "S = Max {\<bar>mx\<bar>, \<bar>my\<bar>, \<bar>vx displacement\<bar>, \<bar>vy displacement\<bar>, r}"
  have sub: "to_double (x - y) = Finite (rounded (x - y))" if "valid_component x" "valid_component y" for x y
  proof -
    have "\<bar>x - y\<bar> \<le> 2 * 1000000000000"
      using that unfolding valid_component_def kMaximumPhysicalComponentMagnitude_def by linarith
    also have "\<dots> \<le> 2 ^ 1010" by simp
    finally show ?thesis by (rule to_double_small)
  qed
  have off: "fsub (fx start) (fx center) = Finite mx" "fsub (fy start) (fy center) = Finite my"
    using valid by (simp_all add: fx_def fy_def mx my sub valid_vector_def)
  have r0: "0 \<le> r" using rad by (auto simp: require_radius_def swept_require_finite_def split: if_splits)
  have scale: "fmaximum [fabs (Finite mx), fabs (Finite my), fabs (fx displacement), fabs (fy displacement), Finite r] = Finite S"
    by (simp add: S_def fmaximum_def fx_def fy_def max.assoc)
  show ?thesis
  proof (cases "S = 0")
    case True
    have "\<bar>mx\<bar> \<le> S" "\<bar>my\<bar> \<le> S" "\<bar>vx displacement\<bar> \<le> S" "\<bar>vy displacement\<bar> \<le> S" "r \<le> S"
      unfolding S_def by (auto simp: le_max_iff_disj)
    then have "mx = 0" "my = 0" "vx displacement = 0" "vy displacement = 0" "r = 0" using True r0 by simp_all
    then show ?thesis
      using rad scale True add_roots_fit [of "[Finite 0, Finite 1]" NoRoot]
      by (auto simp: swept_circle_boundary_query_def off Let_def try_then_Inr_iff try_then_Inl_iff a b c exact_relation_def
          exact_radial_motion_def exact_topology_def expansion_overflow_def)
  next
    case False
    then have "swept_circle_boundary_query start displacement center (Finite r) =
        normalized_query (Finite mx) (Finite my) displacement (Finite r) (mx = 0 \<and> my = 0)"
      using rad scale by (simp add: swept_circle_boundary_query_def off Let_def)
    then show ?thesis
      using normalized_query_exact [OF _ _ valid(2) r S_def False r0 a b c, of "mx = 0 \<and> my = 0"]
      by (simp add: mx my rounded_is_representable expansion_overflow_def)
  qed
qed

lemma dyadic:
  assumes "\<bar>n\<bar> \<le> 2 ^ 53" and "- 200 \<le> k" and "\<bar>of_int n * 2 powi k\<bar> \<le> (1 :: rat)" and "n \<noteq> 0"
  shows "to_double (of_int n * 2 powi k) = Finite (of_int n * 2 powi k)"
    and "normalized (of_int n * 2 powi k)" and "\<not> fless (Finite \<bar>of_int n * 2 powi k\<bar>) kPrecisionFloor"
proof -
  have rep: "representable (of_int n * 2 powi k)" using assms by (intro representableI) simp_all
  have grid: "multiple k (of_int n * 2 powi k)" by (rule multipleI) (rule refl)
  have "1 \<le> largest_finite" by (simp add: largest_finite_def)
  then show "to_double (of_int n * 2 powi k) = Finite (of_int n * 2 powi k)"
    using rep assms(3) by (intro to_double_representable) simp_all
  show "normalized (of_int n * 2 powi k)"
    using rep assms(2,3) multiple_weaken [OF grid, of "- 252"] by (simp add: normalized_def)
  have "2 powi (- 200) \<le> (2 :: rat) powi k" using assms(2) by (simp only: powi_le_iff)
  also have "\<dots> \<le> \<bar>of_int n * 2 powi k\<bar>" using assms(4) by (intro multiple_ge [OF grid]) simp
  finally show "\<not> fless (Finite \<bar>of_int n * 2 powi k\<bar>) kPrecisionFloor" by (simp add: kPrecisionFloor_def)
qed

lemma missing_query:
  "\<exists>s. swept_circle_boundary_query \<lparr>vx = 0, vy = 0\<rparr> \<lparr>vx = 4, vy = 0\<rparr> \<lparr>vx = 2, vy = 3\<rparr> (Finite 2) = Inr s"
proof -
  note d = dyadic [of "- 1" "- 2", simplified] dyadic [of "- 3" "- 3", simplified] dyadic [of 1 "- 1", simplified]
    dyadic [of 1 "- 2", simplified]
  have n0: "normalized 0" by (simp add: normalized_def)
  have e4: "exponent_of 4 = 2" by (rule exponent_of_unique) simp_all
  obtain p where p: "circle_polynomial_of (Finite (- 1 / 4)) (Finite (- 3 / 8)) (Finite (1 / 2)) (Finite 0) (Finite (1 / 4)) = Inr p"
    and a: "denotes (- 504) 2 4 (poly_a p) (1 / 2 * (1 / 2) + 0 * 0)"
    and b: "denotes (- 504) 2 4 (poly_b p) (- 1 / 4 * (1 / 2) + - 3 / 8 * 0)"
    and r: "denotes (- 504) 2 2 (poly_radius_squared p) (1 / 4 * (1 / 4))"
    and c: "denotes (- 504) 64 6 (poly_c p) (- 1 / 4 * (- 1 / 4) + - 3 / 8 * (- 3 / 8) - 1 / 4 * (1 / 4))"
    using circle_polynomial_denotes [of "- 1 / 4" "- 3 / 8" "1 / 2" 0 "1 / 4"] d n0
    by (auto simp: power_int_minus)
  obtain es where es: "try_then (try_then (expansion_add_expansion (poly_a p) (Finite 1) [])
      (expansion_add_expansion (poly_b p) (Finite 2))) (expansion_add_expansion (poly_c p) (Finite 1)) = Inr es"
    and ez: "denotes (- 504) (2 ^ 20) 14 es (1 / 2 * (1 / 2) + 0 * 0 + 2 * (- 1 / 4 * (1 / 2) + - 3 / 8 * 0) +
      (- 1 / 4 * (- 1 / 4) + - 3 / 8 * (- 3 / 8) - 1 / 4 * (1 / 4)))"
    by (rule circle_endpoint_denotes [OF a b c])
  have nn: "normalized (- 1 / 4)" "normalized (- 3 / 8)" "normalized (1 / 2)"
    using d by (simp_all add: power_int_minus)
  obtain ds where ds: "circle_discriminant (Finite (- 1 / 4)) (Finite (- 3 / 8)) (Finite (1 / 2)) (Finite 0) p = Inr ds"
    and dz: "denotes (- 1008) (2 ^ 20) 48 ds ((1 / 2 * (1 / 2) + 0 * 0) * (1 / 4 * (1 / 4)) -
      (- 1 / 4 * 0 - - 3 / 8 * (1 / 2)) * (- 1 / 4 * 0 - - 3 / 8 * (1 / 2)))"
    by (rule circle_discriminant_denotes [OF nn n0 a r])
  have az: "\<not> expansion_zero (poly_a p)" and cz: "\<not> expansion_zero (poly_c p)"
    and ezz: "\<not> expansion_zero es" and dn: "expansion_negative ds"
    using denotes_zero [OF a] denotes_zero [OF c] denotes_zero [OF ez] denotes_negative [OF dz] by simp_all
  have roots: "circle_roots (Finite (- 1 / 4)) (Finite (- 3 / 8)) (Finite (1 / 2)) (Finite 0) p = Inr (NoRoot, kMiss)"
    using az cz ezz dn by (simp add: circle_roots_def es ds [simplified] circle_general_def Let_def)
  have sc: "scalbn (Finite (- 2)) (- 3) = Finite (- 1 / 4)" "scalbn (Finite (- 3)) (- 3) = Finite (- 3 / 8)"
    "scalbn (Finite 4) (- 3) = Finite (1 / 2)" "scalbn (Finite 0) (- 3) = Finite 0" "scalbn (Finite 2) (- 3) = Finite (1 / 4)"
    using d by (simp_all add: power_int_minus)
  have "normalized_query (Finite (- 2)) (Finite (- 3)) \<lparr>vx = 4, vy = 0\<rparr> (Finite 2) False =
      Inr \<lparr>sweep_roots = NoRoot, initial_relation = relation_of (poly_c p), line_topology = kMiss,
        initial_radial_motion = radial_motion_of (poly_b p), initial_centers_coincident = False\<rparr>"
    using d unfolding normalized_query_def Let_def
    by (simp add: fmaximum_def fx_def fy_def e4 sc p [simplified] roots [simplified] require_precision_component_def power_int_minus
        del: scalbn.simps)
  then show ?thesis
    by (simp add: swept_circle_boundary_query_def require_radius_def swept_require_finite_def kMaximumBoundaryRadius_def
        kMaximumPhysicalComponentMagnitude_def fmaximum_def fx_def fy_def Let_def del: normalized_query_def)
qed

theorem circle_classification_is_exact_witness:
  "\<exists>s. swept_circle_boundary_query \<lparr>vx = 0, vy = 0\<rparr> \<lparr>vx = 4, vy = 0\<rparr> \<lparr>vx = 2, vy = 3\<rparr> (Finite 2) = Inr s \<and>
    initial_relation s = kOutside \<and> initial_radial_motion s = kApproaching \<and> line_topology s = kMiss"
proof -
  obtain s where s: "swept_circle_boundary_query \<lparr>vx = 0, vy = 0\<rparr> \<lparr>vx = 4, vy = 0\<rparr> \<lparr>vx = 2, vy = 3\<rparr> (Finite 2) = Inr s"
    using missing_query by blast
  have i: "representable 0" "representable 2" "representable 3" "representable 4"
    using representable_of_int [of 0] representable_of_int [of 2] representable_of_int [of 3] representable_of_int [of 4]
    by simp_all
  have v: "valid_vector \<lparr>vx = 0, vy = 0\<rparr>" "valid_vector \<lparr>vx = 4, vy = 0\<rparr>" "valid_vector \<lparr>vx = 2, vy = 3\<rparr>"
    using i by (simp_all add: valid_vector_def valid_component_def kMaximumPhysicalComponentMagnitude_def)
  have ro: "- 2 = rounded (vx \<lparr>vx = 0, vy = 0\<rparr> - vx \<lparr>vx = 2, vy = 3\<rparr>)"
    "- 3 = rounded (vy \<lparr>vx = 0, vy = 0\<rparr> - vy \<lparr>vx = 2, vy = 3\<rparr>)"
    using i by (simp_all add: rounded_representable)
  have "initial_relation s = exact_relation 9 \<and> initial_radial_motion s = exact_radial_motion (- 8) \<and>
      line_topology s = exact_topology 16 (- 8) 9 \<and> initial_centers_coincident s = ((- 2 :: rat) = 0 \<and> (- 3 :: rat) = 0)"
    using circle_classification_is_exact [OF v i(2) ro refl refl refl] s by simp
  with s show ?thesis by (simp add: exact_relation_def exact_radial_motion_def exact_topology_def)
qed

end
