(* ===== verification/Swept_Capsule.thy ===== *)
theory Swept_Capsule
  imports Swept_Geometry
begin

text \<open>
  The capsule query of src/src/simulation/swept_geometry.cpp: the two side lines of a segment and its
  two end circles, combined by the projection on the segment. The last section shows that every
  query of the file returns a well-formed list of roots.
\<close>

section \<open>The two side lines\<close>

record capsule_side =
  cross_start :: "double list"
  cross_motion :: "double list"
  side_squared :: "double list"
  start_boundary :: "double list"

definition capsule_side_expansions ::
  "double \<Rightarrow> double \<Rightarrow> double \<Rightarrow> double \<Rightarrow> double \<Rightarrow> double \<Rightarrow> double \<Rightarrow> capsule_side result" where
  "capsule_side_expansions x y dx dy r sx sy =
     try_then (try_then (expansion_add_product x sy []) (expansion_add_product (fneg y) sx)) (\<lambda>start.
     try_then (try_then (expansion_add_product dx sy []) (expansion_add_product (fneg dy) sx)) (\<lambda>motion.
     try_then (expansion_add_product r r []) (\<lambda>radius_squared.
     try_then (try_then (expansion_add_product sx sx []) (expansion_add_product sy sy)) (\<lambda>length_squared.
     try_then (expansion_add_products radius_squared length_squared (Finite 1) []) (\<lambda>side.
     try_then (try_then (expansion_add_products start start (Finite 1) [])
                 (expansion_add_expansion side (Finite (- 1)))) (\<lambda>boundary.
       Inr \<lparr>cross_start = start, cross_motion = motion, side_squared = side, start_boundary = boundary\<rparr>))))))"

definition capsule_side_inputs ::
  "double \<Rightarrow> double \<Rightarrow> double \<Rightarrow> double \<Rightarrow> double \<Rightarrow> double \<Rightarrow> double \<Rightarrow> capsule_side result" where
  "capsule_side_inputs mx my dx dy radius sx sy =
     (let scale = fmaximum [fabs mx, fabs my, fabs dx, fabs dy, radius];
          e = - frexp_exponent scale;
          x = scalbn mx e; y = scalbn my e; vx = scalbn dx e; vy = scalbn dy e; r = scalbn radius e
      in try_then (require_precision_component x (\<not> feq mx (Finite 0)) ''swept_geometry.side.offset_x'') (\<lambda>_.
         try_then (require_precision_component y (\<not> feq my (Finite 0)) ''swept_geometry.side.offset_y'') (\<lambda>_.
         try_then (require_precision_component vx (\<not> feq dx (Finite 0)) ''swept_geometry.side.displacement_x'') (\<lambda>_.
         try_then (require_precision_component vy (\<not> feq dy (Finite 0)) ''swept_geometry.side.displacement_y'') (\<lambda>_.
         try_then (require_precision_component r (\<not> feq radius (Finite 0)) ''swept_geometry.side.radius'') (\<lambda>_.
           capsule_side_expansions x y vx vy r sx sy))))))"

text \<open>One side of the loop over the two offsets carries the roots and the root of the previous side;
  the inner fold visits the roots of one side line.\<close>

definition capsule_side_line ::
  "bool \<Rightarrow> motion_time \<Rightarrow> swept_roots \<times> motion_time option \<Rightarrow> (swept_roots \<times> motion_time option) result" where
  "capsule_side_line positive_radius time st =
     (case st of (roots, prior_side) \<Rightarrow>
        if positive_radius \<and> prior_side = Some time then throw_collapsed_roots
        else try_then (add_root (Finite time) roots) (\<lambda>roots. Inr (roots, Some time)))"

definition capsule_side_step ::
  "bool \<Rightarrow> capsule_side \<Rightarrow> double list \<Rightarrow> double list \<Rightarrow> double \<Rightarrow>
    swept_roots \<times> motion_time option \<Rightarrow> (swept_roots \<times> motion_time option) result" where
  "capsule_side_step positive_radius c cross_end end_boundary side st =
     (case st of (roots, prior_side) \<Rightarrow>
        let negative_side = fless side (Finite 0) in
        if expansion_zero (start_boundary c) \<and> negative_side = expansion_negative (cross_start c)
        then try_then (add_root (Finite 0) roots) (\<lambda>roots. Inr (roots, prior_side))
        else if expansion_zero end_boundary \<and> negative_side = expansion_negative cross_end
        then try_then (add_root (Finite 1) roots) (\<lambda>roots. Inr (roots, prior_side))
        else try_then (swept_line_boundary_roots (expansion_rounded (cross_start c))
                         (expansion_rounded (cross_motion c)) side) (\<lambda>side_roots.
               try_fold (capsule_side_line positive_radius) (root_times side_roots) (roots, prior_side)))"

definition capsule_side_moving :: "bool \<Rightarrow> capsule_side \<Rightarrow> swept_roots result" where
  "capsule_side_moving positive_radius c =
     try_then (expansion_add_expansion (cross_motion c) (Finite 1) (cross_start c)) (\<lambda>cross_end.
     try_then (try_then (expansion_add_products cross_end cross_end (Finite 1) [])
                 (expansion_add_expansion (side_squared c) (Finite (- 1)))) (\<lambda>end_boundary.
       let side_offset = fsqrt (expansion_rounded (side_squared c))
       in try_then (try_fold (capsule_side_step positive_radius c cross_end end_boundary)
                      [fneg side_offset, side_offset] (NoRoot, None)) (\<lambda>(roots, _). Inr roots)))"

definition capsule_side_roots ::
  "double \<Rightarrow> double \<Rightarrow> double \<Rightarrow> double \<Rightarrow> double \<Rightarrow> double \<Rightarrow> double \<Rightarrow> swept_roots result" where
  "capsule_side_roots mx my dx dy radius sx sy =
     try_then (capsule_side_inputs mx my dx dy radius sx sy) (\<lambda>c.
       if expansion_zero (cross_motion c)
       then (if expansion_zero (start_boundary c) then add_roots [Finite 0, Finite 1] NoRoot else Inr NoRoot)
       else capsule_side_moving (fless (Finite 0) radius) c)"

section \<open>The capsule\<close>

text \<open>A root of a side or of a cap counts where its projection on the segment admit it.\<close>

definition add_projected ::
  "double \<Rightarrow> double \<Rightarrow> (double \<Rightarrow> bool) \<Rightarrow> motion_time \<Rightarrow> swept_roots \<Rightarrow> swept_roots result" where
  "add_projected projection_start projection_motion admit time roots =
     (if admit (fadd projection_start (fmul projection_motion (Finite time)))
      then add_root (Finite time) roots else Inr roots)"

definition swept_capsule_boundary_roots ::
  "vector2 \<Rightarrow> vector2 \<Rightarrow> vector2 \<Rightarrow> vector2 \<Rightarrow> double \<Rightarrow> swept_roots result" where
  "swept_capsule_boundary_roots start displacement segment_start segment_end boundary_radius =
     try_then (require_radius boundary_radius kMaximumBoundaryRadius ''swept_geometry.boundary_radius'') (\<lambda>_.
       let segment_x = fsub (fx segment_end) (fx segment_start);
           segment_y = fsub (fy segment_end) (fy segment_start);
           segment_scale = fmax (fabs segment_x) (fabs segment_y)
       in if feq segment_scale (Finite 0)
          then swept_circle_boundary_roots start displacement segment_start boundary_radius
          else
            let e = - frexp_exponent segment_scale; sx = scalbn segment_x e; sy = scalbn segment_y e in
            try_then (require_precision_component sx (\<not> feq segment_x (Finite 0)) ''swept_geometry.segment_x'') (\<lambda>_.
            try_then (require_precision_component sy (\<not> feq segment_y (Finite 0)) ''swept_geometry.segment_y'') (\<lambda>_.
              let end_projection = fadd (fmul segment_x sx) (fmul segment_y sy);
                  mx = fsub (fx start) (fx segment_start); my = fsub (fy start) (fy segment_start);
                  projected = add_projected (fadd (fmul mx sx) (fmul my sy))
                    (fadd (fmul (fx displacement) sx) (fmul (fy displacement) sy))
              in try_then (capsule_side_roots mx my (fx displacement) (fy displacement) boundary_radius sx sy) (\<lambda>side_roots.
                 try_then (try_fold (projected (\<lambda>p. fle (Finite 0) p \<and> fle p end_projection))
                             (root_times side_roots) NoRoot) (\<lambda>roots.
                 try_then (swept_circle_boundary_roots start displacement segment_start boundary_radius) (\<lambda>start_roots.
                 try_then (try_fold (projected (\<lambda>p. fle p (Finite 0))) (root_times start_roots) roots) (\<lambda>roots.
                 try_then (swept_circle_boundary_roots start displacement segment_end boundary_radius) (\<lambda>end_roots.
                   try_fold (projected (\<lambda>p. fle end_projection p)) (root_times end_roots) roots))))))))"

section \<open>Discs\<close>

definition disc_boundary_radius :: "double \<Rightarrow> double \<Rightarrow> double result" where
  "disc_boundary_radius disc_radius obstacle_radius =
     try_then (require_radius disc_radius (Finite kMaximumPhysicalComponentMagnitude) ''swept_geometry.disc_radius'') (\<lambda>_.
     try_then (require_radius obstacle_radius (Finite kMaximumPhysicalComponentMagnitude)
                 ''swept_geometry.obstacle_radius'') (\<lambda>_.
       Inr (fadd obstacle_radius disc_radius)))"

definition swept_disc_circle_boundary_roots ::
  "vector2 \<Rightarrow> vector2 \<Rightarrow> double \<Rightarrow> vector2 \<Rightarrow> double \<Rightarrow> swept_roots result" where
  "swept_disc_circle_boundary_roots start displacement disc_radius center obstacle_radius =
     try_then (disc_boundary_radius disc_radius obstacle_radius) (swept_circle_boundary_roots start displacement center)"

definition swept_disc_capsule_boundary_roots ::
  "vector2 \<Rightarrow> vector2 \<Rightarrow> double \<Rightarrow> vector2 \<Rightarrow> vector2 \<Rightarrow> double \<Rightarrow> swept_roots result" where
  "swept_disc_capsule_boundary_roots start displacement disc_radius segment_start segment_end obstacle_radius =
     try_then (disc_boundary_radius disc_radius obstacle_radius)
       (swept_capsule_boundary_roots start displacement segment_start segment_end)"

section \<open>Roots are well formed\<close>

definition ordered_roots :: "swept_roots \<Rightarrow> bool" where
  "ordered_roots r \<longleftrightarrow> list_all (\<lambda>t. 0 \<le> t \<and> t \<le> 1) (root_times r) \<and> sorted_wrt (<) (root_times r)"

lemma ordered_NoRoot [simp]: "ordered_roots NoRoot"
  by (simp add: ordered_roots_def)

lemma insert_root_ordered:
  "ordered_roots r \<Longrightarrow> 0 \<le> t \<Longrightarrow> t \<le> 1 \<Longrightarrow> ordered_roots (insert_root t r)"
  by (cases "(t, r)" rule: insert_root.cases) (auto simp: ordered_roots_def)

lemma add_root_ordered:
  "add_root v r = Inr r' \<Longrightarrow> ordered_roots r \<Longrightarrow> ordered_roots r'"
  by (auto simp: add_root_def motion_time_create_def try_then_Inr_iff insert_root_ordered split: double.splits if_splits)

lemma add_roots_ordered:
  "add_roots vs r = Inr r' \<Longrightarrow> ordered_roots r \<Longrightarrow> ordered_roots r'"
  unfolding add_roots_def by (rule try_fold_invariant [where P = ordered_roots]) (auto intro: add_root_ordered)

lemma swept_line_ordered: "swept_line_boundary_roots s d b = Inr r \<Longrightarrow> ordered_roots r"
  by (auto simp: swept_line_boundary_roots_def try_then_Inr_iff Let_def
      dest!: add_root_ordered add_roots_ordered split: if_splits)

lemma circle_roots_ordered:
  assumes "circle_roots mx my dx dy p = Inr (r, t)" shows "ordered_roots r"
proof -
  have "circle_from_boundary p = Inr (r, t) \<Longrightarrow> ordered_roots r"
    by (auto simp: circle_from_boundary_def try_then_Inr_iff Let_def dest!: add_roots_ordered)
  moreover have "circle_to_boundary p = Inr (r, t) \<Longrightarrow> ordered_roots r"
    by (auto simp: circle_to_boundary_def try_then_Inr_iff Let_def throw_collapsed_roots_def
        dest!: add_root_ordered split: if_splits)
  moreover have "circle_general q p = Inr (r, t) \<Longrightarrow> ordered_roots r" for q
    by (auto simp: circle_general_def try_then_Inr_iff Let_def throw_collapsed_roots_def
        dest!: add_root_ordered add_roots_ordered split: if_splits)
  ultimately show ?thesis
    using assms by (auto simp: circle_roots_def try_then_Inr_iff intro: add_roots_ordered split: if_splits)
qed

lemma swept_circle_ordered: "swept_circle_boundary_query s d c r = Inr q \<Longrightarrow> ordered_roots (sweep_roots q)"
  by (auto simp: swept_circle_boundary_query_def normalized_query_def try_then_Inr_iff Let_def
      intro: add_roots_ordered circle_roots_ordered split: if_splits)

lemma swept_circle_roots_ordered: "swept_circle_boundary_roots s d c r = Inr q \<Longrightarrow> ordered_roots q"
  by (auto simp: swept_circle_boundary_roots_def try_then_Inr_iff intro: swept_circle_ordered)

lemma capsule_line_ordered:
  "capsule_side_line b t (r, prior) = Inr (r', prior') \<Longrightarrow> ordered_roots r \<Longrightarrow> ordered_roots r'"
  by (auto simp: capsule_side_line_def try_then_Inr_iff throw_collapsed_roots_def dest!: add_root_ordered split: if_splits)

lemma capsule_step_ordered:
  assumes "capsule_side_step b c e eb side (r, prior) = Inr (r', prior')" and "ordered_roots r"
  shows "ordered_roots r'"
proof -
  have "ordered_roots (fst st')"
    if "try_fold (capsule_side_line b) ts st = Inr st'" "ordered_roots (fst st)" for ts st st'
    using that by (rule try_fold_invariant [where P = "\<lambda>s. ordered_roots (fst s)"])
      (metis capsule_line_ordered prod.collapse)
  from this [of _ "(r, prior)" "(r', prior')"] show ?thesis
    using assms by (auto simp: capsule_side_step_def try_then_Inr_iff Let_def dest!: add_root_ordered split: if_splits)
qed

lemma capsule_side_roots_ordered:
  assumes "capsule_side_roots mx my dx dy radius sx sy = Inr r" shows "ordered_roots r"
proof -
  have "ordered_roots r" if moving: "capsule_side_moving b c = Inr r" for b c
  proof -
    obtain e eb prior sides where
      fold: "try_fold (capsule_side_step b c e eb) sides (NoRoot, None) = Inr (r, prior)"
      using moving unfolding capsule_side_moving_def Let_def by (auto simp: try_then_Inr_iff simp del: try_fold.simps)
    have "ordered_roots (fst (r, prior))"
      by (rule try_fold_invariant [where P = "\<lambda>s. ordered_roots (fst s)", OF fold])
        (auto dest: capsule_step_ordered)
    then show ?thesis by simp
  qed
  then show ?thesis
    using assms by (auto simp: capsule_side_roots_def try_then_Inr_iff intro: add_roots_ordered split: if_splits)
qed

lemma add_projected_ordered:
  "try_fold (add_projected a b f) ts r = Inr r' \<Longrightarrow> ordered_roots r \<Longrightarrow> ordered_roots r'"
  by (rule try_fold_invariant [where P = ordered_roots])
    (auto simp: add_projected_def dest!: add_root_ordered split: if_splits)

text \<open>
  every query returns well-formed roots. Whatever vectors and radii are given, a line, circle or
  capsule query that returns gives at most two times, strictly increasing and inside the closed unit
  interval: the contract every consumer of the roots relies on.
\<close>

theorem swept_roots_are_ordered:
  assumes "r = swept_line_boundary_roots p d b \<or> r = swept_circle_boundary_roots start displacement center radius \<or>
      r = swept_capsule_boundary_roots start displacement segment_start segment_end radius"
    and "r = Inr roots"
  shows "sorted_wrt (<) (root_times roots) \<and> list_all (\<lambda>t. 0 \<le> t \<and> t \<le> 1) (root_times roots) \<and>
    length (root_times roots) \<le> 2"
proof -
  have "swept_capsule_boundary_roots start displacement segment_start segment_end radius = Inr roots \<Longrightarrow> ordered_roots roots"
    unfolding swept_capsule_boundary_roots_def Let_def
    by (auto simp: try_then_Inr_iff split: if_splits
        intro: swept_circle_roots_ordered dest!: add_projected_ordered)
  then have "ordered_roots roots"
    using assms by (auto intro: swept_line_ordered swept_circle_roots_ordered)
  moreover have "length (root_times roots) \<le> 2" by (cases roots) simp_all
  ultimately show ?thesis by (simp add: ordered_roots_def)
qed

lemma endpoint_roots: "swept_line_boundary_roots (Finite 0) (Finite 0) (Finite 0) = Inr (TwoRoots 0 1)"
  by (simp add: swept_line_boundary_roots_def swept_require_finite_def add_roots_def add_root_def motion_time_create_def)

theorem swept_roots_are_ordered_witness:
  "swept_line_boundary_roots (Finite 0) (Finite 0) (Finite 0) = Inr (TwoRoots 0 1) \<and>
    sorted_wrt (<) (root_times (TwoRoots 0 1)) \<and> length (root_times (TwoRoots 0 1)) \<le> 2"
  using swept_roots_are_ordered [OF disjI1 [OF endpoint_roots [symmetric]] refl] endpoint_roots by simp

end
