(* ===== verification/Motion_Limits.thy ===== *)
theory Motion_Limits
  imports Motion_Event Component_Store
begin

text \<open>
  The resource limits and work counters of the motion solver (src/src/simulation/continuous_motion.hpp
  and .cpp), the arena rectangle (arena_bounds.cpp) and the envelope a moving body must fit
  (motion_body_envelope.cpp). Counters are \<open>std::size_t\<close> in the code and natural numbers here: each is
  compared with its limit, at most a million, at every increment, so none can wrap.
\<close>

section \<open>The arena\<close>

record arena_bounds =
  bounds_width :: binary64
  bounds_height :: binary64

definition kMaximumWorldDimension :: binary64 where "kMaximumWorldDimension = 1000000000"

definition require_arena_scalar :: "double \<Rightarrow> string \<Rightarrow> binary64 result" where
  "require_arena_scalar value context =
     (case value of
        Finite v \<Rightarrow>
          if v \<le> 0 \<or> v > kMaximumWorldDimension then Inl (SimError kArenaBoundsScalarOutOfRange context)
          else Inr v
      | _ \<Rightarrow> Inl (SimError kArenaBoundsScalarNotFinite context))"

definition arena_bounds_create :: "double \<Rightarrow> double \<Rightarrow> arena_bounds result" where
  "arena_bounds_create width height =
     try_then (require_arena_scalar width ''map_definition.bounds.width_world_units'') (\<lambda>w.
     try_then (require_arena_scalar height ''map_definition.bounds.height_world_units'') (\<lambda>h.
       Inr \<lparr>bounds_width = w, bounds_height = h\<rparr>))"

definition bounds_contains :: "arena_bounds \<Rightarrow> vector2 \<Rightarrow> bool" where
  "bounds_contains b p \<longleftrightarrow> 0 \<le> vx p \<and> vx p \<le> bounds_width b \<and> 0 \<le> vy p \<and> vy p \<le> bounds_height b"

definition contains_disc_center :: "arena_bounds \<Rightarrow> vector2 \<Rightarrow> double \<Rightarrow> bool" where
  "contains_disc_center b p radius \<longleftrightarrow>
     fle radius (fx p) \<and> fle (fx p) (fsub (Finite (bounds_width b)) radius) \<and>
     fle radius (fy p) \<and> fle (fy p) (fsub (Finite (bounds_height b)) radius)"

section \<open>The envelope of a moving body\<close>

datatype envelope_violation = kStaticOutsideEnvelope | kFoldingBodyDoesNotFitEnvelope

definition motion_body_envelope_violation ::
  "physics_body \<Rightarrow> arena_bounds \<Rightarrow> double \<Rightarrow> envelope_violation option" where
  "motion_body_envelope_violation body bounds configured_radius =
     (let diameter = fmul (Finite 2) (effective_radius body configured_radius);
          width = Finite (bounds_width bounds); height = Finite (bounds_height bounds)
      in if is_static body
         then (if bounds_contains bounds (body_position body) then None else Some kStaticOutsideEnvelope)
         else if \<not> crosses_bounds body \<and>
           (\<not> bounds_contains bounds (body_position body) \<or> fless width diameter \<or> fless height diameter \<or>
            feq width diameter \<and> \<not> feq (fx (body_velocity body)) (Finite 0) \<or>
            feq height diameter \<and> \<not> feq (fy (body_velocity body)) (Finite 0))
         then Some kFoldingBodyDoesNotFitEnvelope
         else None)"

section \<open>Limits\<close>

record motion_limits =
  limit_bodies :: nat
  limit_candidate_pairs :: nat
  limit_pair_examinations :: nat
  limit_root_queries :: nat
  limit_events :: nat
  limit_trigger_queries :: nat
  limit_paths :: nat
  limit_effects :: nat
  limit_trigger_declarations :: nat
  limit_trigger_cursor :: u64

definition kMaximumMotionBodyCount :: nat where "kMaximumMotionBodyCount = 256"
definition kMaximumMotionCandidatePairCount :: nat where
  "kMaximumMotionCandidatePairCount = kMaximumMotionBodyCount * (kMaximumMotionBodyCount - 1) div 2"
definition kMaximumMotionPairExaminationCount :: nat where "kMaximumMotionPairExaminationCount = 1000000"
definition kMaximumMotionRootQueryCount :: nat where "kMaximumMotionRootQueryCount = 250000"
definition kMaximumMotionEventCount :: nat where "kMaximumMotionEventCount = 2048"
definition kMaximumMotionTriggerQueryCount :: nat where "kMaximumMotionTriggerQueryCount = 250000"
definition kMaximumMotionPathSegmentCount :: nat where
  "kMaximumMotionPathSegmentCount = kMaximumMotionBodyCount + 2 * kMaximumMotionEventCount"
definition kMaximumMotionEffectCount :: nat where "kMaximumMotionEffectCount = 8192"
definition kMaximumMotionTriggerDeclarationCount :: nat where "kMaximumMotionTriggerDeclarationCount = 512"
definition kMaximumMotionTriggerCursorValue :: u64 where "kMaximumMotionTriggerCursorValue = word_of_nat kMaximumEntityCount"

definition default_motion_limits :: motion_limits where
  "default_motion_limits =
     \<lparr>limit_bodies = kMaximumMotionBodyCount, limit_candidate_pairs = kMaximumMotionCandidatePairCount,
      limit_pair_examinations = kMaximumMotionPairExaminationCount,
      limit_root_queries = kMaximumMotionRootQueryCount, limit_events = kMaximumMotionEventCount,
      limit_trigger_queries = kMaximumMotionTriggerQueryCount, limit_paths = kMaximumMotionPathSegmentCount,
      limit_effects = kMaximumMotionEffectCount,
      limit_trigger_declarations = kMaximumMotionTriggerDeclarationCount,
      limit_trigger_cursor = kMaximumMotionTriggerCursorValue\<rparr>"

definition fail_motion :: "validation_code \<Rightarrow> 'a result" where
  "fail_motion code = Inl (SimError code ''continuous_motion'')"

definition require_motion_budget :: "nat \<Rightarrow> nat \<Rightarrow> unit result" where
  "require_motion_budget amount maximum =
     (if amount > maximum then fail_motion kContinuousMotionBudgetExceeded else Inr ())"

definition validate_motion_limits :: "motion_limits \<Rightarrow> unit result" where
  "validate_motion_limits l =
     (if list_ex (\<lambda>(requested, ceiling). requested > ceiling)
           [(limit_bodies l, kMaximumMotionBodyCount),
            (limit_candidate_pairs l, kMaximumMotionCandidatePairCount),
            (limit_pair_examinations l, kMaximumMotionPairExaminationCount),
            (limit_root_queries l, kMaximumMotionRootQueryCount),
            (limit_events l, kMaximumMotionEventCount),
            (limit_trigger_queries l, kMaximumMotionTriggerQueryCount),
            (limit_paths l, kMaximumMotionPathSegmentCount),
            (limit_effects l, kMaximumMotionEffectCount),
            (limit_trigger_declarations l, kMaximumMotionTriggerDeclarationCount)]
      then fail_motion kContinuousMotionInvalidInput
      else if limit_trigger_cursor l > kMaximumMotionTriggerCursorValue
      then fail_motion kContinuousMotionInvalidInput
      else Inr ())"

section \<open>Work\<close>

record motion_work =
  work_pair_examinations :: nat
  work_root_queries :: nat
  work_events :: nat
  work_trigger_queries :: nat
  work_broad_phase_rebuilds :: nat
  work_maximum_candidate_pairs :: nat

definition motion_work_none :: motion_work where
  "motion_work_none =
     \<lparr>work_pair_examinations = 0, work_root_queries = 0, work_events = 0, work_trigger_queries = 0,
      work_broad_phase_rebuilds = 0, work_maximum_candidate_pairs = 0\<rparr>"

text \<open>The meter a trigger query is lent: the class exposes these two charges and nothing else of the
  counters, so the meter carries exactly the two counts they change and their limits.\<close>

record query_budget =
  budget_root_limit :: nat
  budget_trigger_limit :: nat
  budget_roots :: nat
  budget_triggers :: nat

definition charge_roots :: "nat \<Rightarrow> query_budget \<Rightarrow> query_budget result" where
  "charge_roots amount b =
     (if amount > budget_root_limit b - budget_roots b then fail_motion kContinuousMotionBudgetExceeded
      else Inr (b\<lparr>budget_roots := budget_roots b + amount\<rparr>))"

definition charge_trigger :: "query_budget \<Rightarrow> query_budget result" where
  "charge_trigger b =
     try_then (require_motion_budget (budget_triggers b + 1) (budget_trigger_limit b)) (\<lambda>_.
       Inr (b\<lparr>budget_triggers := budget_triggers b + 1\<rparr>))"

definition budget_of :: "motion_work \<Rightarrow> motion_limits \<Rightarrow> query_budget" where
  "budget_of w l =
     \<lparr>budget_root_limit = limit_root_queries l, budget_trigger_limit = limit_trigger_queries l,
      budget_roots = work_root_queries w, budget_triggers = work_trigger_queries w\<rparr>"

definition charged :: "query_budget \<Rightarrow> motion_work \<Rightarrow> motion_work" where
  "charged b w = w\<lparr>work_root_queries := budget_roots b, work_trigger_queries := budget_triggers b\<rparr>"

definition charge_one_root :: "motion_limits \<Rightarrow> motion_work \<Rightarrow> motion_work result" where
  "charge_one_root l w = try_then (charge_roots 1 (budget_of w l)) (\<lambda>b. Inr (charged b w))"

end
