(* ===== verification/Motion_Solver.thy ===== *)
theory Motion_Solver
  imports Motion_Limits Swept_Geometry
begin

text \<open>
  The geometry of the continuous motion solver (src/src/simulation/continuous_motion.cpp): bodies on
  velocity epochs, the caches of their next contacts and wall hits, and the operations the event loop
  applies. The members of \<open>ContinuousMotionSolver::State\<close> are the fields of \<open>solver\<close>.
\<close>

section \<open>State\<close>

record epoch_body =
  epoch_subject :: contact_subject
  epoch_anchor :: motion_time
  epoch_revision :: u64
  epoch_disposition :: motion_disposition
  epoch_effect_policy :: contact_effect_policy

record geometry_event =
  event_key_of :: event_key
  event_first :: nat
  event_second :: "nat option"
  event_normal :: vector2
  event_distance :: double
  event_first_revision :: u64
  event_second_revision :: u64
  event_impact_admitted :: bool

record pair_cache =
  cache_first :: nat
  cache_second :: nat
  cache_first_revision :: u64
  cache_second_revision :: u64
  cache_suppressed :: "(u64 \<times> u64) option"
  cache_event :: "geometry_event option"
  cache_candidate :: bool

definition fresh_pair :: "nat \<Rightarrow> nat \<Rightarrow> pair_cache" where
  "fresh_pair i j =
     \<lparr>cache_first = i, cache_second = j, cache_first_revision = - 1, cache_second_revision = - 1,
      cache_suppressed = None, cache_event = None, cache_candidate = False\<rparr>"

record path_segment =
  path_entity :: entity_id
  path_begin :: motion_time
  path_end :: motion_time
  path_start :: vector2
  path_finish :: vector2

record solver =
  solver_limits :: motion_limits
  solver_work :: motion_work
  solver_seconds :: double
  solver_radius :: double
  solver_bounds :: arena_bounds
  solver_now :: motion_time
  epochs :: "epoch_body list"
  pair_caches :: "pair_cache list"
  wall_events :: "(geometry_event option \<times> geometry_event option) list"
  motion_paths :: "path_segment list"
  motion_events :: "event_key list"
  solver_dirty :: bool

abbreviation epoch_motion :: "epoch_body \<Rightarrow> physics_body" where
  "epoch_motion e \<equiv> subject_body (epoch_subject e)"

abbreviation epoch_entity :: "epoch_body \<Rightarrow> entity_id" where
  "epoch_entity e \<equiv> subject_entity (epoch_subject e)"

section \<open>Evaluation\<close>

definition geometric_velocity :: "physics_body \<Rightarrow> vector2" where
  "geometric_velocity b = (if is_static b then zero_vector else body_velocity b)"

definition relative_speed :: "physics_body \<Rightarrow> physics_body \<Rightarrow> vector2 \<Rightarrow> double" where
  "relative_speed a b n =
     (let v = geometric_velocity a; w = geometric_velocity b in
      fadd (fmul (fsub (fx w) (fx v)) (fx n)) (fmul (fsub (fy w) (fy v)) (fy n)))"

definition closing :: "double \<Rightarrow> bool" where
  "closing speed \<longleftrightarrow> \<not> greater_than_or_approximately_equal speed (Finite 0) kVelocityTolerance"

definition contact_geometry :: "physics_body \<Rightarrow> physics_body \<Rightarrow> (vector2 \<times> double) result" where
  "contact_geometry a b =
     (let dx = fsub (fx (body_position b)) (fx (body_position a));
          dy = fsub (fy (body_position b)) (fy (body_position a));
          distance = fsqrt (fadd (fmul dx dx) (fmul dy dy));
          v = geometric_velocity a; w = geometric_velocity b;
          x = fsub (fx v) (fx w); y = fsub (fy v) (fy w);
          magnitude = fsqrt (fadd (fmul x x) (fmul y y))
      in try_then
           (if \<not> feq dx (Finite 0) \<or> \<not> feq dy (Finite 0)
            then vector_create (fdiv dx distance) (fdiv dy distance)
            else if \<not> approximately_equal magnitude (Finite 0) kVelocityTolerance
            then vector_create (fdiv x magnitude) (fdiv y magnitude)
            else vector_create (Finite 1) (Finite 0)) (\<lambda>n. Inr (n, distance)))"

definition body_at :: "solver \<Rightarrow> nat \<Rightarrow> motion_time \<Rightarrow> contact_subject result" where
  "body_at s i t =
     (let e = epochs s ! i; b = epoch_motion e in
      if t < epoch_anchor e then fail_motion kContinuousMotionInvalidInput
      else if is_static b \<or> epoch_disposition e = kTerminate \<or> t = epoch_anchor e
      then Inr (epoch_subject e)
      else
        let elapsed = fmul (solver_seconds s) (fsub (Finite t) (Finite (epoch_anchor e))) in
        try_then (vector_scale (body_velocity b) elapsed) (\<lambda>d.
        try_then (vector_add (body_position b) d) (\<lambda>p.
        try_then (with_position p b) (\<lambda>b'.
          Inr \<lparr>subject_entity = epoch_entity e, subject_body = b'\<rparr>))))"

definition pair_index :: "nat \<Rightarrow> nat \<Rightarrow> nat \<Rightarrow> nat" where
  "pair_index n a b =
     (let i = min a b; j = max a b in i * (2 * n - i - 1) div 2 + j - i - 1)"

definition add_path :: "nat \<Rightarrow> motion_time \<Rightarrow> solver \<Rightarrow> solver result" where
  "add_path i t s =
     (let e = epochs s ! i in
      if is_static (epoch_motion e) \<or> t = epoch_anchor e then Inr s
      else
        try_then (require_motion_budget (length (motion_paths s) + 1) (limit_paths (solver_limits s))) (\<lambda>_.
        try_then (body_at s i t) (\<lambda>endpoint.
          Inr (s\<lparr>motion_paths := motion_paths s @
            [\<lparr>path_entity = epoch_entity e, path_begin = epoch_anchor e, path_end = t,
              path_start = body_position (epoch_motion e),
              path_finish = body_position (subject_body endpoint)\<rparr>]\<rparr>))))"

section \<open>The next contact of a pair\<close>

definition observes_touch :: "solver \<Rightarrow> pair_cache \<Rightarrow> bool" where
  "observes_touch s p \<longleftrightarrow>
     epoch_effect_policy (epochs s ! cache_first p) = kAnyTouch \<or>
     epoch_effect_policy (epochs s ! cache_second p) = kAnyTouch"

definition make_pair_event :: "solver \<Rightarrow> pair_cache \<Rightarrow> motion_time \<Rightarrow> bool \<Rightarrow> geometry_event option result" where
  "make_pair_event s p time admitted =
     (if \<not> observes_touch s p \<and> \<not> admitted then Inr None
      else
        try_then (body_at s (cache_first p) time) (\<lambda>a.
        try_then (body_at s (cache_second p) time) (\<lambda>b.
        try_then (contact_geometry (subject_body a) (subject_body b)) (\<lambda>(normal, distance).
          if \<not> observes_touch s p \<and> \<not> closing (relative_speed (subject_body a) (subject_body b) normal)
          then Inr None
          else
            try_then (candidate_pair_create (subject_entity a) (subject_entity b)) (\<lambda>pair.
              Inr (Some \<lparr>event_key_of = contact_key time pair, event_first = cache_first p,
                event_second = Some (cache_second p), event_normal = normal, event_distance = distance,
                event_first_revision = epoch_revision (epochs s ! cache_first p),
                event_second_revision = epoch_revision (epochs s ! cache_second p),
                event_impact_admitted = admitted\<rparr>))))))"

text \<open>The query of a pair on the line of its relative motion from the later of the two anchors.\<close>

definition relative_displacement :: "physics_body \<Rightarrow> physics_body \<Rightarrow> double \<Rightarrow> vector2 result" where
  "relative_displacement a b duration =
     (let v = geometric_velocity a; w = geometric_velocity b in
      vector_create (fmul (fsub (fx v) (fx w)) duration) (fmul (fsub (fy v) (fy w)) duration))"

definition pair_decision ::
  "solver \<Rightarrow> pair_cache \<Rightarrow> motion_time \<Rightarrow> circle_sweep \<Rightarrow> geometry_event option result" where
  "pair_decision s p begin_time query =
     (let impact_topology = (line_topology query \<noteq> kStationary \<and> line_topology query \<noteq> kTangent) in
      if initial_relation query \<noteq> kOutside
      then make_pair_event s p begin_time
             (impact_topology \<and> (initial_centers_coincident query \<or> initial_radial_motion query = kApproaching))
      else if begin_time = motion_end \<or>
        (line_topology query \<noteq> kSecant \<and> line_topology query \<noteq> kTangent) \<or>
        root_times (sweep_roots query) = [] \<or> (\<not> observes_touch s p \<and> \<not> impact_topology)
      then Inr None
      else
        try_then (map_motion_time (hd (root_times (sweep_roots query))) begin_time motion_end) (\<lambda>time.
          if time \<ge> solver_now s then make_pair_event s p time impact_topology else Inr None))"

definition pair_event ::
  "solver \<Rightarrow> pair_cache \<Rightarrow> motion_work \<Rightarrow> (motion_work \<times> geometry_event option) result" where
  "pair_event s p w =
     (let begin_time = max (epoch_anchor (epochs s ! cache_first p)) (epoch_anchor (epochs s ! cache_second p))
      in try_then (body_at s (cache_first p) begin_time) (\<lambda>a.
         try_then (body_at s (cache_second p) begin_time) (\<lambda>b.
         try_then (pair_contact_distance (subject_body a) (subject_body b) (solver_radius s)) (\<lambda>distance.
           let remaining = (if begin_time = motion_end then solver_seconds s
                            else fmul (solver_seconds s) (fsub (Finite 1) (Finite begin_time)))
           in try_then (relative_displacement (subject_body a) (subject_body b) remaining) (\<lambda>displacement.
              try_then (charge_one_root (solver_limits s) w) (\<lambda>w.
              try_then (swept_circle_boundary_query (body_position (subject_body a)) displacement
                          (body_position (subject_body b)) (Finite distance)) (\<lambda>query.
              try_then (pair_decision s p begin_time query) (\<lambda>event. Inr (w, event)))))))))"

section \<open>The broad phase\<close>

record swept_aabb =
  box_body :: nat
  box_minimum_x :: double
  box_maximum_x :: double
  box_minimum_y :: double
  box_maximum_y :: double

definition swept_box :: "solver \<Rightarrow> nat \<Rightarrow> swept_aabb" where
  "swept_box s i =
     (let e = epochs s ! i; b = epoch_motion e; start = body_position b; velocity = geometric_velocity b;
          remaining = fmul (solver_seconds s) (fsub (Finite 1) (Finite (epoch_anchor e)));
          finish_x = fadd (fx start) (fmul (fx velocity) remaining);
          finish_y = fadd (fy start) (fmul (fy velocity) remaining);
          extent = effective_radius b (solver_radius s)
      in \<lparr>box_body = i, box_minimum_x = fsub (fmin (fx start) finish_x) extent,
          box_maximum_x = fadd (fmax (fx start) finish_x) extent,
          box_minimum_y = fsub (fmin (fy start) finish_y) extent,
          box_maximum_y = fadd (fmax (fy start) finish_y) extent\<rparr>)"

text \<open>The order of the sort: the left edge, then the identity of the body. It is total on the boxes of
  distinct bodies, so the sorted sequence is the only one.\<close>

definition box_before :: "solver \<Rightarrow> swept_aabb \<Rightarrow> swept_aabb \<Rightarrow> bool" where
  "box_before s a b \<longleftrightarrow>
     fless (box_minimum_x a) (box_minimum_x b) \<or>
     feq (box_minimum_x a) (box_minimum_x b) \<and>
     epoch_entity (epochs s ! box_body a) < epoch_entity (epochs s ! box_body b)"

fun insert_box :: "solver \<Rightarrow> swept_aabb \<Rightarrow> swept_aabb list \<Rightarrow> swept_aabb list" where
  "insert_box s x [] = [x]"
| "insert_box s x (y # ys) = (if box_before s y x then y # insert_box s x ys else x # y # ys)"

definition swept_boxes :: "solver \<Rightarrow> swept_aabb list" where
  "swept_boxes s =
     foldr (insert_box s)
       (map (swept_box s) (filter (\<lambda>i. epoch_disposition (epochs s ! i) \<noteq> kTerminate) [0..<length (epochs s)])) []"

text \<open>What the sweep carries: the work, the number of candidates and the pair caches.\<close>

record broad_phase =
  phase_work :: motion_work
  phase_candidates :: nat
  phase_pairs :: "pair_cache list"

definition boxes_skip :: "solver \<Rightarrow> swept_aabb \<Rightarrow> swept_aabb \<Rightarrow> bool" where
  "boxes_skip s a b \<longleftrightarrow>
     (let x = epoch_motion (epochs s ! box_body a); y = epoch_motion (epochs s ! box_body b) in
      is_static x \<and> is_static y \<or> \<not> collision_masks_admit x y \<or>
      fless (box_maximum_y a) (box_minimum_y b) \<or> fless (box_maximum_y b) (box_minimum_y a))"

fun sweep_row :: "solver \<Rightarrow> swept_aabb \<Rightarrow> swept_aabb list \<Rightarrow> broad_phase \<Rightarrow> broad_phase result" where
  "sweep_row s a [] ph = Inr ph"
| "sweep_row s a (b # bs) ph =
     (let w = phase_work ph; examined = work_pair_examinations w + 1;
          ph = ph\<lparr>phase_work := w\<lparr>work_pair_examinations := examined\<rparr>\<rparr>
      in try_then (require_motion_budget examined (limit_pair_examinations (solver_limits s))) (\<lambda>_.
           if fless (box_maximum_x a) (box_minimum_x b) then Inr ph
           else if boxes_skip s a b then sweep_row s a bs ph
           else
             try_then (require_motion_budget (phase_candidates ph + 1) (limit_candidate_pairs (solver_limits s))) (\<lambda>_.
               let k = pair_index (length (epochs s)) (box_body a) (box_body b)
               in sweep_row s a bs
                    (ph\<lparr>phase_candidates := phase_candidates ph + 1,
                        phase_pairs := (phase_pairs ph)[k := (phase_pairs ph ! k)\<lparr>cache_candidate := True\<rparr>]\<rparr>))))"

fun sweep_rows :: "solver \<Rightarrow> swept_aabb list \<Rightarrow> broad_phase \<Rightarrow> broad_phase result" where
  "sweep_rows s [] ph = Inr ph"
| "sweep_rows s (b # bs) ph = try_then (sweep_row s b bs ph) (sweep_rows s bs)"

section \<open>Refreshing the caches\<close>

definition event_due :: "geometry_event option \<Rightarrow> motion_time \<Rightarrow> bool" where
  "event_due event now = (case event of None \<Rightarrow> False | Some e \<Rightarrow> key_time (event_key_of e) = now)"

definition pair_live :: "solver \<Rightarrow> pair_cache \<Rightarrow> bool" where
  "pair_live s p \<longleftrightarrow>
     epoch_disposition (epochs s ! cache_first p) = kContinue \<and>
     epoch_disposition (epochs s ! cache_second p) = kContinue"

definition pair_revisions :: "solver \<Rightarrow> pair_cache \<Rightarrow> u64 \<times> u64" where
  "pair_revisions s p =
     (epoch_revision (epochs s ! cache_first p), epoch_revision (epochs s ! cache_second p))"

definition refresh_pair :: "solver \<Rightarrow> pair_cache \<Rightarrow> motion_work \<Rightarrow> (motion_work \<times> pair_cache) result" where
  "refresh_pair s p w =
     (let revisions = pair_revisions s p;
          keep = (\<lambda>p. p\<lparr>cache_first_revision := fst revisions, cache_second_revision := snd revisions\<rparr>)
      in if \<not> pair_live s p \<or> cache_suppressed p = Some revisions
         then Inr (w, keep (p\<lparr>cache_event := None\<rparr>))
         else if event_due (cache_event p) (solver_now s) then Inr (w, keep p)
         else if \<not> cache_candidate p then Inr (w, keep (p\<lparr>cache_event := None\<rparr>))
         else if (cache_first_revision p, cache_second_revision p) \<noteq> revisions
         then try_then (pair_event s p w) (\<lambda>(w, event). Inr (w, keep (p\<lparr>cache_event := event\<rparr>)))
         else Inr (w, keep p))"

fun refresh_pairs :: "solver \<Rightarrow> pair_cache list \<Rightarrow> motion_work \<Rightarrow> (motion_work \<times> pair_cache list) result" where
  "refresh_pairs s [] w = Inr (w, [])"
| "refresh_pairs s (p # ps) w =
     try_then (refresh_pair s p w) (\<lambda>(w, p'). try_then (refresh_pairs s ps w) (\<lambda>(w, ps'). Inr (w, p' # ps')))"

text \<open>The wall hit of one axis; \<open>False\<close> is the x axis of the code's index 0, \<open>True\<close> the y axis.\<close>

definition axis_component :: "bool \<Rightarrow> vector2 \<Rightarrow> double" where
  "axis_component y v = (if y then fy v else fx v)"

definition make_wall :: "solver \<Rightarrow> nat \<Rightarrow> bool \<Rightarrow> double \<Rightarrow> motion_time \<Rightarrow> geometry_event result" where
  "make_wall s i y speed time =
     (let side = (if fless speed (Finite 0) then Finite 1 else Finite (- 1)) in
      try_then (if y then vector_create (Finite 0) side else vector_create side (Finite 0)) (\<lambda>normal.
      try_then (boundary_key time (if y then kWallY else kWallX) (epoch_entity (epochs s ! i))
                  (if fless speed (Finite 0) then 0 else 1)) (\<lambda>key.
        Inr \<lparr>event_key_of = key, event_first = i, event_second = None, event_normal = normal,
             event_distance = Finite 0, event_first_revision = 0, event_second_revision = 0,
             event_impact_admitted = False\<rparr>)))"

fun first_wall_time :: "solver \<Rightarrow> motion_time \<Rightarrow> motion_time list \<Rightarrow> motion_time option result" where
  "first_wall_time s anchor [] = Inr None"
| "first_wall_time s anchor (local # ts) =
     try_then (map_motion_time local anchor motion_end) (\<lambda>time.
       if time \<ge> solver_now s then Inr (Some time) else first_wall_time s anchor ts)"

definition next_wall :: "solver \<Rightarrow> nat \<Rightarrow> bool \<Rightarrow> motion_work \<Rightarrow> (motion_work \<times> geometry_event option) result" where
  "next_wall s i y w =
     (let e = epochs s ! i; b = epoch_motion e; speed = axis_component y (body_velocity b);
          extent = effective_radius b (solver_radius s);
          width = (if y then bounds_height (solver_bounds s) else bounds_width (solver_bounds s));
          boundary = (if fless speed (Finite 0) then extent else fsub (Finite width) extent);
          start = axis_component y (body_position b)
      in if feq speed (Finite 0) then Inr (w, None)
         else if fless speed (Finite 0) \<and> fle start boundary \<or> fless (Finite 0) speed \<and> fle boundary start
         then try_then (map_motion_time motion_start (epoch_anchor e) motion_end) (\<lambda>time.
              try_then (make_wall s i y speed time) (\<lambda>event. Inr (w, Some event)))
         else
           try_then (charge_one_root (solver_limits s) w) (\<lambda>w.
           try_then (swept_line_boundary_roots start
                       (fmul speed (fmul (solver_seconds s) (fsub (Finite 1) (Finite (epoch_anchor e))))) boundary) (\<lambda>roots.
           try_then (first_wall_time s (epoch_anchor e) (root_times roots)) (\<lambda>found.
             case found of None \<Rightarrow> Inr (w, None)
             | Some time \<Rightarrow> try_then (make_wall s i y speed time) (\<lambda>event. Inr (w, Some event))))))"

definition refresh_wall ::
  "solver \<Rightarrow> nat \<Rightarrow> bool \<Rightarrow> geometry_event option \<Rightarrow> motion_work \<Rightarrow> (motion_work \<times> geometry_event option) result" where
  "refresh_wall s i y event w =
     (let e = epochs s ! i; b = epoch_motion e in
      if epoch_disposition e = kTerminate \<or> is_static b \<or> crosses_bounds b then Inr (w, None)
      else if event_due event (solver_now s) then Inr (w, event)
      else next_wall s i y w)"

fun refresh_walls ::
  "solver \<Rightarrow> nat list \<Rightarrow> motion_work \<Rightarrow>
    (motion_work \<times> (geometry_event option \<times> geometry_event option) list) result" where
  "refresh_walls s [] w = Inr (w, [])"
| "refresh_walls s (i # is) w =
     try_then (refresh_wall s i False (fst (wall_events s ! i)) w) (\<lambda>(w, x).
     try_then (refresh_wall s i True (snd (wall_events s ! i)) w) (\<lambda>(w, y).
     try_then (refresh_walls s is w) (\<lambda>(w, rest). Inr (w, (x, y) # rest))))"

definition rebuild :: "solver \<Rightarrow> solver result" where
  "rebuild s =
     (if \<not> solver_dirty s then Inr s
      else
        let w = (solver_work s)\<lparr>work_broad_phase_rebuilds := work_broad_phase_rebuilds (solver_work s) + 1\<rparr>;
            phase = \<lparr>phase_work = w, phase_candidates = 0,
                      phase_pairs = map (\<lambda>p. p\<lparr>cache_candidate := False\<rparr>) (pair_caches s)\<rparr>
        in try_then (sweep_rows s (swept_boxes s) phase) (\<lambda>phase.
           let w = phase_work phase;
               w = w\<lparr>work_maximum_candidate_pairs := max (work_maximum_candidate_pairs w) (phase_candidates phase)\<rparr>
           in try_then (refresh_pairs s (phase_pairs phase) w) (\<lambda>(w, ps).
              try_then (refresh_walls s [0..<length (epochs s)] w) (\<lambda>(w, walls).
                Inr (s\<lparr>solver_work := w, pair_caches := ps, wall_events := walls, solver_dirty := False\<rparr>)))))"

end
