(* ===== verification/Motion_Operations.thy ===== *)
theory Motion_Operations
  imports Motion_Solver
begin

text \<open>
  The operations of \<open>ContinuousMotionSolver\<close> (src/src/simulation/continuous_motion.cpp): construction,
  the next event, the observation of a contact, the replacement of a body and the final result.
\<close>

section \<open>Construction\<close>

record effect_policy_entry =
  policy_entity :: entity_id
  policy_value :: contact_effect_policy

definition index_of_body :: "solver \<Rightarrow> entity_id \<Rightarrow> nat result" where
  "index_of_body s entity =
     (let i = length (takeWhile (\<lambda>e. epoch_entity e < entity) (epochs s)) in
      if i = length (epochs s) \<or> epoch_entity (epochs s ! i) \<noteq> entity
      then fail_motion kContinuousMotionInvalidInput else Inr i)"

definition fresh_epoch :: "contact_subject \<Rightarrow> epoch_body" where
  "fresh_epoch subject =
     \<lparr>epoch_subject = subject, epoch_anchor = motion_start, epoch_revision = 0,
      epoch_disposition = kContinue, epoch_effect_policy = kClosingImpact\<rparr>"

definition admit_body :: "solver \<Rightarrow> nat \<Rightarrow> unit \<Rightarrow> unit result" where
  "admit_body s i _ =
     (if i \<noteq> 0 \<and> epoch_entity (epochs s ! (i - 1)) = epoch_entity (epochs s ! i)
      then fail_motion kContinuousMotionInvalidInput
      else
        case motion_body_envelope_violation (epoch_motion (epochs s ! i)) (solver_bounds s) (solver_radius s) of
          Some _ \<Rightarrow> fail_motion kContinuousMotionInvalidInput
        | None \<Rightarrow> Inr ())"

definition assign_policy ::
  "effect_policy_entry \<Rightarrow> solver \<times> bool list \<Rightarrow> (solver \<times> bool list) result" where
  "assign_policy p st =
     (case st of (s, assigned) \<Rightarrow>
        try_then (index_of_body s (policy_entity p)) (\<lambda>i.
          if assigned ! i then fail_motion kContinuousMotionInvalidInput
          else Inr (s\<lparr>epochs := (epochs s)[i := (epochs s ! i)\<lparr>epoch_effect_policy := policy_value p\<rparr>]\<rparr>,
                    assigned[i := True])))"

definition solver_initial ::
  "motion_limits \<Rightarrow> double \<Rightarrow> double \<Rightarrow> arena_bounds \<Rightarrow> contact_subject list \<Rightarrow> solver" where
  "solver_initial limits seconds radius bounds input =
     (let bodies = sort_key subject_entity input; n = length bodies in
      \<lparr>solver_limits = limits, solver_work = motion_work_none, solver_seconds = seconds,
       solver_radius = radius, solver_bounds = bounds, solver_now = motion_start,
       epochs = map fresh_epoch bodies,
       pair_caches = concat (map (\<lambda>i. map (fresh_pair i) [i + 1..<n]) [0..<n]),
       wall_events = replicate n (None, None), motion_paths = [], motion_events = [], solver_dirty = True\<rparr>)"

definition solver_create ::
  "motion_limits \<Rightarrow> double \<Rightarrow> double \<Rightarrow> arena_bounds \<Rightarrow> contact_subject list \<Rightarrow> effect_policy_entry list \<Rightarrow>
    solver result" where
  "solver_create limits seconds radius bounds input policies =
     try_then (validate_motion_limits limits) (\<lambda>_.
     try_then (require_motion_budget (length input) (limit_bodies limits)) (\<lambda>_.
       let s = solver_initial limits seconds radius bounds input in
       try_then (try_fold (admit_body s) [0..<length (epochs s)] ()) (\<lambda>_.
         if length policies > length (epochs s) then fail_motion kContinuousMotionInvalidInput
         else
           try_then (try_fold assign_policy policies (s, replicate (length (epochs s)) False)) (\<lambda>(s, _).
             rebuild s))))"

section \<open>The next event\<close>

definition consider_event :: "geometry_event option \<Rightarrow> geometry_event option \<Rightarrow> geometry_event option" where
  "consider_event event next_event =
     (case event of None \<Rightarrow> next_event
      | Some e \<Rightarrow>
          (case next_event of None \<Rightarrow> Some e
           | Some n \<Rightarrow> if key_less (event_key_of e) (event_key_of n) then Some e else next_event))"

definition cached_events :: "solver \<Rightarrow> geometry_event option list" where
  "cached_events s = map cache_event (pair_caches s) @ concat (map (\<lambda>(x, y). [x, y]) (wall_events s))"

definition next_geometry_event :: "solver \<Rightarrow> geometry_event option" where
  "next_geometry_event s = fold consider_event (cached_events s) None"

definition body_terminated :: "solver \<Rightarrow> nat \<Rightarrow> bool" where
  "body_terminated s i \<longleftrightarrow> epoch_disposition (epochs s ! i) = kTerminate"

record anchored_motion =
  motion_subject :: contact_subject
  motion_begin :: motion_time
  motion_displacement :: vector2

definition anchored_motion_of :: "solver \<Rightarrow> nat \<Rightarrow> anchored_motion result" where
  "anchored_motion_of s i =
     (let e = epochs s ! i in
      try_then (vector_scale (geometric_velocity (epoch_motion e))
                  (fmul (solver_seconds s) (fsub (Finite 1) (Finite (epoch_anchor e))))) (\<lambda>d.
        Inr \<lparr>motion_subject = epoch_subject e, motion_begin = epoch_anchor e, motion_displacement = d\<rparr>))"

section \<open>Observing a contact\<close>

definition certified_contact :: "vector2 \<Rightarrow> double \<Rightarrow> double \<Rightarrow> pair_contact result" where
  "certified_contact normal distance speed =
     (if \<not> is_finite distance \<or> fless distance (Finite 0) \<or> \<not> is_finite speed \<or>
         \<not> approximately_equal (fadd (fmul (fx normal) (fx normal)) (fmul (fy normal) (fy normal)))
             (Finite 1) kScalarTolerance
      then fail_motion kContinuousMotionPrecisionLost
      else Inr \<lparr>is_contact = True, contact_normal = normal, center_distance = distance,
                relative_normal_speed = speed\<rparr>)"

definition impact_still_admitted ::
  "solver \<Rightarrow> geometry_event \<Rightarrow> nat \<Rightarrow> physics_body \<Rightarrow> physics_body \<Rightarrow> motion_work \<Rightarrow> (motion_work \<times> bool) result" where
  "impact_still_admitted s event j a b w =
     (if event_first_revision event \<noteq> epoch_revision (epochs s ! event_first event) \<or>
         event_second_revision event \<noteq> epoch_revision (epochs s ! j)
      then
        try_then (relative_displacement a b (solver_seconds s)) (\<lambda>reference.
        try_then (charge_one_root (solver_limits s) w) (\<lambda>w.
        try_then (pair_contact_distance a b (solver_radius s)) (\<lambda>distance.
        try_then (swept_circle_boundary_query (body_position a) reference (body_position b) (Finite distance)) (\<lambda>query.
          Inr (w, initial_centers_coincident query \<or> initial_radial_motion query = kApproaching)))))
      else Inr (w, event_impact_admitted event))"

definition observe_contact ::
  "geometry_event \<Rightarrow> nat \<Rightarrow> solver \<Rightarrow> (solver \<times> contact_observation option) result" where
  "observe_contact event j s =
     try_then (body_at s (event_first event) (key_time (event_key_of event))) (\<lambda>first_at.
     try_then (body_at s j (key_time (event_key_of event))) (\<lambda>second_at.
       let a = subject_body first_at; b = subject_body second_at in
       try_then (impact_still_admitted s event j a b (solver_work s)) (\<lambda>(w, admitted).
         let s = s\<lparr>solver_work := w\<rparr>;
             speed = relative_speed a b (event_normal event);
             impact_admitted = (admitted \<and> closing speed);
             first_eligible = (impact_admitted \<or> epoch_effect_policy (epochs s ! event_first event) = kAnyTouch);
             second_eligible = (impact_admitted \<or> epoch_effect_policy (epochs s ! j) = kAnyTouch)
         in if \<not> first_eligible \<and> \<not> second_eligible then Inr (s, None)
            else
              try_then (certified_contact (event_normal event) (event_distance event) speed) (\<lambda>t.
                Inr (s, Some \<lparr>touch = t, impact = if impact_admitted then Some t else None,
                              first_effect_eligible = first_eligible, second_effect_eligible = second_eligible\<rparr>)))))"

section \<open>Committing an event\<close>

definition begin_event :: "event_key \<Rightarrow> solver \<Rightarrow> solver result" where
  "begin_event key s =
     (if key_time key < solver_now s then fail_motion kContinuousMotionNoProgress
      else
        let w = solver_work s; n = work_events w + 1 in
        try_then (require_motion_budget n (limit_events (solver_limits s))) (\<lambda>_.
          Inr (s\<lparr>solver_work := w\<lparr>work_events := n\<rparr>, solver_now := key_time key,
                 motion_events := motion_events s @ [key]\<rparr>)))"

text \<open>The defaulted equality of two bodies compares the radius as a binary64 value, so a body whose
  radius is not a number differs from itself.\<close>

definition same_body :: "physics_body \<Rightarrow> physics_body \<Rightarrow> bool" where
  "same_body a b \<longleftrightarrow> feq (body_radius a) (body_radius b) \<and> a\<lparr>body_radius := body_radius b\<rparr> = b"

definition with_motion :: "physics_body \<Rightarrow> physics_body \<Rightarrow> physics_body result" where
  "with_motion b replacement =
     try_then (with_velocity (body_velocity replacement) b) (with_acceleration (body_acceleration replacement))"

definition replace_body :: "nat \<Rightarrow> motion_body_result \<Rightarrow> solver \<Rightarrow> solver result" where
  "replace_body i r s =
     try_then (body_at s i (solver_now s)) (\<lambda>current.
     try_then (with_motion (subject_body current) (result_body r)) (\<lambda>expected.
       let e = epochs s ! i; b = subject_body current in
       if \<not> same_body expected (result_body r) then fail_motion kContinuousMotionInvalidResponse
       else if (\<not> is_static b \<and> body_velocity b \<noteq> body_velocity (result_body r)) \<or> disposition r = kTerminate
       then
         try_then (add_path i (solver_now s) s) (\<lambda>s.
           Inr (s\<lparr>epochs := (epochs s)[i := e\<lparr>epoch_subject := (epoch_subject e)\<lparr>subject_body := result_body r\<rparr>,
                    epoch_anchor := solver_now s, epoch_revision := epoch_revision e + 1,
                    epoch_disposition := disposition r\<rparr>], solver_dirty := True\<rparr>))
       else
         try_then (with_motion (epoch_motion e) (result_body r)) (\<lambda>b'.
           Inr (s\<lparr>epochs := (epochs s)[i := e\<lparr>epoch_subject := (epoch_subject e)\<lparr>subject_body := b'\<rparr>\<rparr>]\<rparr>))))"

definition reflect_wall :: "geometry_event \<Rightarrow> solver \<Rightarrow> solver result" where
  "reflect_wall event s =
     (let i = event_first event; y = (key_priority (event_key_of event) \<noteq> kWallX);
          s = s\<lparr>wall_events := (wall_events s)[i :=
                  (if y then (fst (wall_events s ! i), None) else (None, snd (wall_events s ! i)))],
                solver_dirty := True\<rparr>
      in try_then (body_at s i (solver_now s)) (\<lambda>current.
           let v = body_velocity (subject_body current) in
           if fle (Finite 0) (vector_dot v (event_normal event)) then Inr s
           else
             try_then (if y then vector_create (fx v) (fneg (fy v)) else vector_create (fneg (fx v)) (fy v)) (\<lambda>velocity.
             try_then (with_velocity velocity (subject_body current)) (\<lambda>body.
               replace_body i \<lparr>result_body = body, disposition = kContinue\<rparr> s))))"

definition finish_event :: "geometry_event option \<Rightarrow> solver \<Rightarrow> solver result" where
  "finish_event pair s =
     rebuild (case pair of
       Some event \<Rightarrow>
         (case event_second event of
            Some j \<Rightarrow>
              let k = pair_index (length (epochs s)) (event_first event) j in
              s\<lparr>pair_caches := (pair_caches s)[k := (pair_caches s ! k)\<lparr>cache_suppressed :=
                  Some (epoch_revision (epochs s ! event_first event), epoch_revision (epochs s ! j)),
                  cache_event := None\<rparr>]\<rparr>
          | None \<Rightarrow> s)
     | None \<Rightarrow> s)"

section \<open>The result\<close>

record resolved_body =
  resolved_entity :: entity_id
  resolved_result :: motion_body_result

record motion_result =
  result_bodies :: "resolved_body list"
  result_paths :: "path_segment list"
  result_events :: "event_key list"
  result_work :: motion_work

definition finish_body :: "nat \<Rightarrow> solver \<times> resolved_body list \<Rightarrow> (solver \<times> resolved_body list) result" where
  "finish_body i st =
     (case st of (s, resolved) \<Rightarrow>
        let e = epochs s ! i in
        try_then (if epoch_disposition e = kContinue then add_path i motion_end s else Inr s) (\<lambda>s.
        try_then (body_at s i motion_end) (\<lambda>end_at.
          Inr (s, resolved @ [\<lparr>resolved_entity = epoch_entity e,
            resolved_result = \<lparr>result_body = subject_body end_at, disposition = epoch_disposition e\<rparr>\<rparr>]))))"

definition finish_motion :: "solver \<Rightarrow> motion_result result" where
  "finish_motion s =
     try_then (try_fold finish_body [0..<length (epochs s)] (s, [])) (\<lambda>(s, resolved).
       Inr \<lparr>result_bodies = resolved, result_paths = motion_paths s, result_events = motion_events s,
            result_work = solver_work s\<rparr>)"

end
