(* ===== verification/Continuous_Motion.thy ===== *)
theory Continuous_Motion
  imports Motion_Operations
begin

text \<open>
  The event loop of the solver (\<open>solve_continuous_motion\<close>, src/src/simulation/continuous_motion.hpp).
  The callbacks of the code receive the committed world, the tick context and the facts of the solve,
  all of which are constant during it; here a callback is a function that already has them, so a
  trigger carries its own facts. The code's checks for a null callback have nothing to test.

  The loop runs on fuel: one unit for each event the limits allow and one for the final round.
  \<open>motion_solve_returns\<close> shows that this is always enough.
\<close>

section \<open>Errors\<close>

text \<open>A callback may throw anything; what it throws leaves the solve as it is. An error of the solver
  itself is a validation error.\<close>

datatype 'x motion_error = MotionError sim_error | CallbackError 'x

definition solved :: "'a result \<Rightarrow> 'x motion_error + 'a" where
  "solved r = map_sum MotionError id r"

definition called :: "'x + 'a \<Rightarrow> 'x motion_error + 'a" where
  "called r = map_sum CallbackError id r"

lemma solved_Inr_iff [simp]: "solved r = Inr a \<longleftrightarrow> r = Inr a" "solved (Inr a) = Inr a" "Inr a = solved r \<longleftrightarrow> r = Inr a"
  by (cases r; auto simp: solved_def)+

lemma called_Inr_iff [simp]: "called r = Inr a \<longleftrightarrow> r = Inr a" "called (Inr a) = Inr a"
  by (cases r; auto simp: called_def)+

section \<open>Triggers\<close>

record trigger_window =
  window_motion :: anchored_motion
  window_eligible_from :: motion_time

record trigger_proposal =
  proposal_time :: motion_time
  proposal_priority :: event_priority

record trigger_event =
  trigger_key :: event_key
  trigger_cursor :: u64

record 'e trigger_response =
  trigger_result :: motion_body_result
  response_cursor :: u64
  trigger_effects :: "'e list"

record ('x, 'e) motion_trigger =
  trigger_entity :: entity_id
  feature_base :: u64
  initial_cursor :: u64
  cursor_limit :: u64
  trigger_query :: "contact_subject \<Rightarrow> trigger_window \<Rightarrow> u64 \<Rightarrow> query_budget \<Rightarrow>
    'x + query_budget \<times> trigger_proposal option"
  trigger_respond :: "contact_subject \<Rightarrow> trigger_event \<Rightarrow> 'x + 'e trigger_response"

type_synonym ('x, 'e) pair_respond =
  "contact_subject \<Rightarrow> contact_subject \<Rightarrow> contact_observation \<Rightarrow> 'x + 'e pair_motion_response"

record trigger_cache =
  cached_body :: nat
  cached_cursor :: u64
  cached_revision :: u64
  cached_initialized :: bool
  cached_key :: "event_key option"

definition ranges_overlap :: "('x, 'e) motion_trigger \<Rightarrow> ('x, 'e) motion_trigger \<Rightarrow> bool" where
  "ranges_overlap a b \<longleftrightarrow>
     trigger_entity a = trigger_entity b \<and>
     feature_base b \<le> feature_base a + cursor_limit a \<and> feature_base a \<le> feature_base b + cursor_limit b"

fun declare_triggers ::
  "motion_limits \<Rightarrow> solver \<Rightarrow> ('x, 'e) motion_trigger list \<Rightarrow> ('x, 'e) motion_trigger list \<Rightarrow> trigger_cache list result" where
  "declare_triggers limits s earlier [] = Inr []"
| "declare_triggers limits s earlier (t # ts) =
     (if initial_cursor t > cursor_limit t \<or> cursor_limit t > limit_trigger_cursor limits \<or>
         feature_base t > kMaximumProtocolSafeInteger - cursor_limit t \<or>
         list_ex (\<lambda>other. ranges_overlap other t) earlier
      then fail_motion kContinuousMotionInvalidInput
      else
        try_then (index_of_body s (trigger_entity t)) (\<lambda>i.
        try_then (declare_triggers limits s (earlier @ [t]) ts) (\<lambda>caches.
          Inr (\<lparr>cached_body = i, cached_cursor = initial_cursor t, cached_revision = 0,
                cached_initialized = False, cached_key = None\<rparr> # caches))))"

definition cache_stands :: "solver \<Rightarrow> trigger_cache \<Rightarrow> bool" where
  "cache_stands s c \<longleftrightarrow>
     cached_initialized c \<and>
     (cached_revision c = epoch_revision (epochs s ! cached_body c) \<or>
      (case cached_key c of None \<Rightarrow> False | Some k \<Rightarrow> key_time k = solver_now s))"

definition accept_proposal ::
  "solver \<Rightarrow> ('x, 'e) motion_trigger \<Rightarrow> u64 \<Rightarrow> trigger_proposal option \<Rightarrow> event_key option result" where
  "accept_proposal s t cursor proposal =
     (case proposal of None \<Rightarrow> Inr None
      | Some p \<Rightarrow>
          if proposal_time p < solver_now s \<or>
             (proposal_priority p \<noteq> kSupportLoss \<and> proposal_priority p \<noteq> kCheckpoint)
          then fail_motion kContinuousMotionInvalidResponse
          else
            try_then (boundary_key (proposal_time p) (proposal_priority p) (trigger_entity t)
                        (feature_base t + cursor)) (\<lambda>key. Inr (Some key)))"

definition refresh_trigger ::
  "('x, 'e) motion_trigger \<Rightarrow> trigger_cache \<Rightarrow> solver \<Rightarrow> 'x motion_error + solver \<times> trigger_cache" where
  "refresh_trigger t c s =
     (if body_terminated s (cached_body c) then Inr (s, c\<lparr>cached_key := None\<rparr>)
      else if cache_stands s c then Inr (s, c)
      else
        try_then (solved (charge_trigger (budget_of (solver_work s) (solver_limits s)))) (\<lambda>budget.
        try_then (solved (anchored_motion_of s (cached_body c))) (\<lambda>motion.
        try_then (solved (body_at s (cached_body c) (solver_now s))) (\<lambda>subject.
        try_then (called (trigger_query t subject \<lparr>window_motion = motion, window_eligible_from = solver_now s\<rparr>
                    (cached_cursor c) budget)) (\<lambda>(budget, proposal).
        try_then (solved (accept_proposal s t (cached_cursor c) proposal)) (\<lambda>key.
          Inr (s\<lparr>solver_work := charged budget (solver_work s)\<rparr>,
               c\<lparr>cached_key := key, cached_revision := epoch_revision (epochs s ! cached_body c),
                 cached_initialized := True\<rparr>)))))))"

fun refresh_triggers ::
  "('x, 'e) motion_trigger list \<Rightarrow> trigger_cache list \<Rightarrow> solver \<Rightarrow> 'x motion_error + solver \<times> trigger_cache list" where
  "refresh_triggers (t # ts) (c # cs) s =
     try_then (refresh_trigger t c s) (\<lambda>(s, c). try_then (refresh_triggers ts cs s) (\<lambda>(s, cs). Inr (s, c # cs)))"
| "refresh_triggers _ _ s = Inr (s, [])"

section \<open>One round\<close>

record 'e motion_loop =
  loop_solver :: solver
  loop_caches :: "trigger_cache list"
  loop_effects :: "(event_key \<times> 'e) list"

definition select_trigger :: "trigger_cache list \<Rightarrow> event_key option \<Rightarrow> event_key option \<times> nat option" where
  "select_trigger caches geometry_key =
     fold (\<lambda>i (selected, which).
        case cached_key (caches ! i) of None \<Rightarrow> (selected, which)
        | Some k \<Rightarrow>
            (case selected of None \<Rightarrow> (Some k, Some i)
             | Some other \<Rightarrow> if key_less k other then (Some k, Some i) else (selected, which)))
       [0..<length caches] (geometry_key, None)"

definition append_effects ::
  "motion_limits \<Rightarrow> event_key \<Rightarrow> 'e list \<Rightarrow> (event_key \<times> 'e) list \<Rightarrow> (event_key \<times> 'e) list result" where
  "append_effects limits key effects produced =
     (if length effects > limit_effects limits - length produced then fail_motion kContinuousMotionBudgetExceeded
      else Inr (produced @ map (\<lambda>e. (key, e)) effects))"

definition trigger_round ::
  "motion_limits \<Rightarrow> ('x, 'e) motion_trigger list \<Rightarrow> event_key \<Rightarrow> nat \<Rightarrow> 'e motion_loop \<Rightarrow> 'x motion_error + 'e motion_loop" where
  "trigger_round limits triggers key k st =
     (let c = loop_caches st ! k; t = triggers ! k; s = loop_solver st in
      try_then (solved (body_at s (cached_body c) (key_time key))) (\<lambda>current.
      try_then (called (trigger_respond t current \<lparr>trigger_key = key, trigger_cursor = cached_cursor c\<rparr>)) (\<lambda>response.
        let r = trigger_result response;
            changes_motion = (\<not> is_static (subject_body current) \<and>
              body_velocity (result_body r) \<noteq> body_velocity (subject_body current))
        in if response_cursor response < cached_cursor c \<or> response_cursor response > cursor_limit t \<or>
              (response_cursor response = cached_cursor c \<and> \<not> changes_motion \<and> disposition r \<noteq> kTerminate)
           then solved (fail_motion kContinuousMotionNoProgress)
           else
             try_then (solved (append_effects limits key (trigger_effects response) (loop_effects st))) (\<lambda>effects.
             try_then (solved (replace_body (cached_body c) r s)) (\<lambda>s.
             try_then (solved (finish_event None s)) (\<lambda>s.
               Inr \<lparr>loop_solver = s,
                    loop_caches = (loop_caches st)[k := c\<lparr>cached_cursor := response_cursor response,
                      cached_initialized := False, cached_key := None\<rparr>],
                    loop_effects = effects\<rparr>))))))"

definition contact_round ::
  "motion_limits \<Rightarrow> ('x, 'e) pair_respond \<Rightarrow> geometry_event \<Rightarrow> nat \<Rightarrow> 'e motion_loop \<Rightarrow> 'x motion_error + 'e motion_loop" where
  "contact_round limits respond event j st =
     (let key = event_key_of event; i = event_first event in
      try_then (solved (observe_contact event j (loop_solver st))) (\<lambda>(s, observation).
        case observation of
          None \<Rightarrow> try_then (solved (finish_event (Some event) s)) (\<lambda>s. Inr (st\<lparr>loop_solver := s\<rparr>))
        | Some o' \<Rightarrow>
            try_then (solved (body_at s i (key_time key))) (\<lambda>a.
            try_then (solved (body_at s j (key_time key))) (\<lambda>b.
            try_then (called (respond a b o')) (\<lambda>response.
            try_then (solved (append_effects limits key (response_effects response) (loop_effects st))) (\<lambda>effects.
            try_then (solved (replace_body i (response_first response) s)) (\<lambda>s.
            try_then (solved (replace_body j (response_second response) s)) (\<lambda>s.
            try_then (solved (finish_event (Some event) s)) (\<lambda>s.
              Inr (st\<lparr>loop_solver := s, loop_effects := effects\<rparr>))))))))))"

definition wall_round :: "geometry_event \<Rightarrow> 'e motion_loop \<Rightarrow> 'e motion_loop result" where
  "wall_round event st =
     try_then (reflect_wall event (loop_solver st)) (\<lambda>s.
     try_then (finish_event None s) (\<lambda>s. Inr (st\<lparr>loop_solver := s\<rparr>)))"

text \<open>One iteration of the loop, and whether it found an event: without one the loop ends.\<close>

definition motion_round ::
  "motion_limits \<Rightarrow> ('x, 'e) pair_respond \<Rightarrow> ('x, 'e) motion_trigger list \<Rightarrow> 'e motion_loop \<Rightarrow> 'x motion_error + bool \<times> 'e motion_loop" where
  "motion_round limits respond triggers st =
     try_then (refresh_triggers triggers (loop_caches st) (loop_solver st)) (\<lambda>(s, caches).
       let geometry = next_geometry_event s; st = st\<lparr>loop_solver := s, loop_caches := caches\<rparr> in
       case select_trigger caches (map_option event_key_of geometry) of
         (None, _) \<Rightarrow> Inr (False, st)
       | (Some key, which) \<Rightarrow>
           try_then (solved (begin_event key s)) (\<lambda>s.
             let st = st\<lparr>loop_solver := s\<rparr> in
             try_then
               (case which of
                  Some k \<Rightarrow> trigger_round limits triggers key k st
                | None \<Rightarrow>
                    (case event_second (the geometry) of
                       Some j \<Rightarrow> contact_round limits respond (the geometry) j st
                     | None \<Rightarrow> solved (wall_round (the geometry) st)))
               (\<lambda>st. Inr (True, st))))"

section \<open>The solve\<close>

fun motion_rounds ::
  "motion_limits \<Rightarrow> ('x, 'e) pair_respond \<Rightarrow> ('x, 'e) motion_trigger list \<Rightarrow> nat \<Rightarrow> 'e motion_loop \<Rightarrow> ('x motion_error + 'e motion_loop) option" where
  "motion_rounds limits respond triggers 0 st = None"
| "motion_rounds limits respond triggers (Suc fuel) st =
     (case motion_round limits respond triggers st of
        Inl e \<Rightarrow> Some (Inl e)
      | Inr (found, st') \<Rightarrow> if found then motion_rounds limits respond triggers fuel st' else Some (Inr st'))"

record 'e solve_result =
  solve_motion :: motion_result
  solve_effects :: "(event_key \<times> 'e) list"
  solve_cursors :: "u64 list"

definition motion_start_loop ::
  "motion_limits \<Rightarrow> double \<Rightarrow> double \<Rightarrow> arena_bounds \<Rightarrow> contact_subject list \<Rightarrow> effect_policy_entry list \<Rightarrow>
    ('x, 'e) motion_trigger list \<Rightarrow> 'e motion_loop result" where
  "motion_start_loop limits seconds radius bounds input policies triggers =
     try_then (require_motion_budget (length triggers) (limit_trigger_declarations limits)) (\<lambda>_.
     try_then (solver_create limits seconds radius bounds input policies) (\<lambda>s.
     try_then (declare_triggers limits s [] triggers) (\<lambda>caches.
       Inr \<lparr>loop_solver = s, loop_caches = caches, loop_effects = []\<rparr>)))"

definition solve_continuous_motion ::
  "motion_limits \<Rightarrow> double \<Rightarrow> double \<Rightarrow> arena_bounds \<Rightarrow> contact_subject list \<Rightarrow> effect_policy_entry list \<Rightarrow>
    ('x, 'e) pair_respond \<Rightarrow> ('x, 'e) motion_trigger list \<Rightarrow> ('x motion_error + 'e solve_result) option" where
  "solve_continuous_motion limits seconds radius bounds input policies respond triggers =
     (case motion_start_loop limits seconds radius bounds input policies triggers of
        Inl e \<Rightarrow> Some (solved (Inl e))
      | Inr st \<Rightarrow>
          (case motion_rounds limits respond triggers (limit_events limits + 1) st of
             None \<Rightarrow> None
           | Some (Inl e) \<Rightarrow> Some (Inl e)
           | Some (Inr st) \<Rightarrow>
               Some (try_then (solved (finish_motion (loop_solver st))) (\<lambda>motion.
                 Inr \<lparr>solve_motion = motion, solve_effects = loop_effects st,
                      solve_cursors = map cached_cursor (loop_caches st)\<rparr>))))"

end
