(* ===== verification/Motion_Invariants.thy ===== *)
theory Motion_Invariants
  imports Continuous_Motion
begin

text \<open>
  What the operations of the motion solver preserve: the clock and the event trace, the validity of
  cached indices, and the progress of every body along its path segments.
\<close>

section \<open>What an operation may change\<close>

text \<open>The part of the state that outlives a rebuild: everything but the caches, the dirty flag and the
  counters of geometric work.\<close>

definition observables ::
  "solver \<Rightarrow> motion_limits \<times> double \<times> double \<times> arena_bounds \<times> motion_time \<times> epoch_body list \<times>
    path_segment list \<times> event_key list \<times> nat" where
  "observables s =
     (solver_limits s, solver_seconds s, solver_radius s, solver_bounds s, solver_now s, epochs s,
      motion_paths s, motion_events s, work_events (solver_work s))"

lemma charge_one_root_events: "charge_one_root l w = Inr w' \<Longrightarrow> work_events w' = work_events w"
  by (auto simp: charge_one_root_def charge_roots_def charged_def fail_motion_def try_then_Inr_iff split: if_splits)

lemma charged_events [simp]: "work_events (charged b w) = work_events w"
  by (simp add: charged_def)

lemma sweep_row_events: "sweep_row s a bs ph = Inr ph' \<Longrightarrow> work_events (phase_work ph') = work_events (phase_work ph)"
  by (induction s a bs ph rule: sweep_row.induct)
    (fastforce simp: Let_def try_then_Inr_iff split: if_splits)+

lemma sweep_rows_events: "sweep_rows s bs ph = Inr ph' \<Longrightarrow> work_events (phase_work ph') = work_events (phase_work ph)"
  by (induction s bs ph rule: sweep_rows.induct) (fastforce simp: try_then_Inr_iff dest: sweep_row_events)+

lemma pair_event_events: "pair_event s p w = Inr (w', e) \<Longrightarrow> work_events w' = work_events w"
  by (auto simp: pair_event_def Let_def try_then_Inr_iff dest: charge_one_root_events)

lemma refresh_pair_events: "refresh_pair s p w = Inr (w', p') \<Longrightarrow> work_events w' = work_events w"
  by (auto simp: refresh_pair_def Let_def try_then_Inr_iff dest: pair_event_events split: if_splits)

lemma refresh_pairs_events: "refresh_pairs s ps w = Inr (w', ps') \<Longrightarrow> work_events w' = work_events w"
  by (induction s ps w arbitrary: w' ps' rule: refresh_pairs.induct)
    (fastforce simp: try_then_Inr_iff dest: refresh_pair_events)+

lemma next_wall_events: "next_wall s i y w = Inr (w', e) \<Longrightarrow> work_events w' = work_events w"
  by (auto simp: next_wall_def Let_def try_then_Inr_iff dest: charge_one_root_events split: if_splits option.splits)

lemma refresh_wall_events: "refresh_wall s i y e w = Inr (w', e') \<Longrightarrow> work_events w' = work_events w"
  by (auto simp: refresh_wall_def Let_def dest: next_wall_events split: if_splits)

lemma refresh_walls_events: "refresh_walls s is w = Inr (w', es) \<Longrightarrow> work_events w' = work_events w"
  by (induction s "is" w arbitrary: w' es rule: refresh_walls.induct)
    (fastforce simp: try_then_Inr_iff dest: refresh_wall_events)+

lemma rebuild_observables: "rebuild s = Inr s' \<Longrightarrow> observables s' = observables s"
  by (auto simp: rebuild_def Let_def try_then_Inr_iff observables_def
      dest!: sweep_rows_events refresh_pairs_events refresh_walls_events split: if_splits)

lemma finish_event_observables: "finish_event e s = Inr s' \<Longrightarrow> observables s' = observables s"
  by (auto simp: finish_event_def Let_def observables_def dest!: rebuild_observables split: option.splits)

lemma impact_still_admitted_events:
  "impact_still_admitted s e j a b w = Inr (w', adm) \<Longrightarrow> work_events w' = work_events w"
  unfolding impact_still_admitted_def
  by (auto simp: try_then_Inr_iff dest: charge_one_root_events split: if_split_asm simp del: disj_not1 disj_not2)

lemma observe_contact_observables:
  assumes "observe_contact e j s = Inr (s', o')" shows "observables s' = observables s"
proof -
  obtain a b where ab: "body_at s (event_first e) (key_time (event_key_of e)) = Inr a"
    "body_at s j (key_time (event_key_of e)) = Inr b"
    using assms unfolding observe_contact_def by (auto simp only: try_then_Inr_iff)
  obtain w adm where w: "impact_still_admitted s e j (subject_body a) (subject_body b) (solver_work s) = Inr (w, adm)"
    using assms unfolding observe_contact_def ab try_then.simps Let_def by (auto simp only: try_then_Inr_iff)
  have "s' = s\<lparr>solver_work := w\<rparr>"
    using assms unfolding observe_contact_def ab try_then.simps Let_def w prod.case
    by (simp only: split: if_split_asm) (auto simp: try_then_Inr_iff)
  then show ?thesis using impact_still_admitted_events [OF w] by (simp add: observables_def)
qed

lemma refresh_trigger_observables: "refresh_trigger t c s = Inr (s', c') \<Longrightarrow> observables s' = observables s"
  by (auto simp: refresh_trigger_def Let_def try_then_Inr_iff observables_def split: if_splits)

lemma refresh_triggers_observables: "refresh_triggers ts cs s = Inr (s', cs') \<Longrightarrow> observables s' = observables s"
  by (induction ts cs s arbitrary: s' cs' rule: refresh_triggers.induct)
    (fastforce simp: try_then_Inr_iff dest: refresh_trigger_observables)+

text \<open>A replacement changes bodies and paths only, never the clock.\<close>

definition clock :: "solver \<Rightarrow> motion_limits \<times> double \<times> double \<times> arena_bounds \<times> motion_time \<times> event_key list \<times> nat" where
  "clock s =
     (solver_limits s, solver_seconds s, solver_radius s, solver_bounds s, solver_now s, motion_events s,
      work_events (solver_work s))"

lemma clock_observables: "observables s' = observables s \<Longrightarrow> clock s' = clock s"
  by (simp add: observables_def clock_def)

lemma add_path_clock: "add_path i t s = Inr s' \<Longrightarrow> clock s' = clock s"
  by (auto simp: add_path_def Let_def try_then_Inr_iff clock_def split: if_splits)

lemma replace_body_clock: "replace_body i r s = Inr s' \<Longrightarrow> clock s' = clock s"
  by (auto simp: replace_body_def Let_def try_then_Inr_iff fail_motion_def clock_def
      dest!: add_path_clock split: if_splits)

lemma reflect_wall_clock: "reflect_wall e s = Inr s' \<Longrightarrow> clock s' = clock s"
  by (auto simp: reflect_wall_def Let_def try_then_Inr_iff clock_def dest!: replace_body_clock split: if_splits)

lemma trigger_round_clock:
  "trigger_round l ts k i st = Inr st' \<Longrightarrow> clock (loop_solver st') = clock (loop_solver st)"
  by (auto simp: trigger_round_def Let_def try_then_Inr_iff fail_motion_def
      dest!: replace_body_clock finish_event_observables clock_observables split: if_splits)

lemma contact_round_clock:
  "contact_round l r e j st = Inr st' \<Longrightarrow> clock (loop_solver st') = clock (loop_solver st)"
  by (auto simp: contact_round_def Let_def try_then_Inr_iff
      dest!: replace_body_clock finish_event_observables clock_observables observe_contact_observables
      split: option.splits)

lemma wall_round_clock: "wall_round e st = Inr st' \<Longrightarrow> clock (loop_solver st') = clock (loop_solver st)"
  by (auto simp: wall_round_def try_then_Inr_iff
      dest!: reflect_wall_clock finish_event_observables clock_observables)

section \<open>The loop always returns\<close>

definition events_so_far :: "'e motion_loop \<Rightarrow> nat" where
  "events_so_far st = work_events (solver_work (loop_solver st))"

lemma begin_event_cases:
  assumes "begin_event key s = Inr s'"
  shows "solver_now s \<le> key_time key" and "work_events (solver_work s) < limit_events (solver_limits s)"
    and "clock s' = (solver_limits s, solver_seconds s, solver_radius s, solver_bounds s, key_time key,
      motion_events s @ [key], Suc (work_events (solver_work s)))"
    and "epochs s' = epochs s" and "motion_paths s' = motion_paths s"
  using assms
  by (auto simp: begin_event_def Let_def require_motion_budget_def fail_motion_def try_then_Inr_iff clock_def
      split: if_splits)

text \<open>Without a selected trigger, the selected key is that of the next geometric event; a selected
  trigger is one of the declared ones.\<close>

lemma fold_select:
  fixes f :: "nat \<Rightarrow> event_key option \<times> nat option \<Rightarrow> event_key option \<times> nat option"
  assumes f: "\<And>i acc. f i acc = acc \<or> (\<exists>k. f i acc = (k, Some i))"
  shows "fold f is acc = acc \<or> (\<exists>i\<in>set is. snd (fold f is acc) = Some i)"
proof (induction "is" arbitrary: acc)
  case (Cons i "is")
  have "fold f (i # is) acc = f i acc \<or> (\<exists>j\<in>set is. snd (fold f (i # is) acc) = Some j)"
    using Cons.IH [of "f i acc"] by simp
  then show ?case using f [of i acc] by auto
qed simp

lemma select_trigger_cases:
  assumes "select_trigger caches g = (Some key, which)"
  shows "(which = None \<and> g = Some key) \<or> (\<exists>k. which = Some k \<and> k < length caches)"
proof -
  have "select_trigger caches g = (g, None) \<or> (\<exists>i\<in>set [0..<length caches]. snd (select_trigger caches g) = Some i)"
    unfolding select_trigger_def by (rule fold_select) (auto split: option.splits)
  then show ?thesis using assms by auto
qed

text \<open>One round that found an event: the clock took exactly that event, and the rest of the round is one
  of the three responses.\<close>

lemma motion_round_step:
  assumes "motion_round l r ts st = Inr (True, st')"
  obtains key s0 caches s1 st1 where "refresh_triggers ts (loop_caches st) (loop_solver st) = Inr (s0, caches)"
    and "begin_event key s0 = Inr s1" and "st1 = st\<lparr>loop_caches := caches, loop_solver := s1\<rparr>"
    and "(\<exists>k. k < length caches \<and> trigger_round l ts key k st1 = Inr st') \<or>
      (\<exists>e. next_geometry_event s0 = Some e \<and> event_key_of e = key \<and>
        ((\<exists>j. event_second e = Some j \<and> contact_round l r e j st1 = Inr st') \<or> wall_round e st1 = Inr st'))"
proof -
  obtain s0 caches where r: "refresh_triggers ts (loop_caches st) (loop_solver st) = Inr (s0, caches)"
    using assms unfolding motion_round_def by (auto simp only: try_then_Inr_iff)
  let ?g = "next_geometry_event s0"
  obtain key which where sel: "select_trigger caches (map_option event_key_of ?g) = (Some key, which)"
    using assms unfolding motion_round_def r try_then.simps Let_def prod.case
    by (cases "select_trigger caches (map_option event_key_of ?g)") (auto split: option.splits)
  obtain s1 where s1: "begin_event key s0 = Inr s1"
    using assms unfolding motion_round_def r try_then.simps Let_def prod.case sel option.case
    by (auto simp only: try_then_Inr_iff solved_Inr_iff)
  note body = assms [unfolded motion_round_def r try_then.simps Let_def prod.case sel option.case s1]
  show thesis
  proof (cases which)
    case None
    then obtain g where "?g = Some g" "event_key_of g = key" using select_trigger_cases [OF sel] by auto
    then show thesis
      using body that [OF r s1 refl] None by (auto simp: try_then_Inr_iff split: option.splits)
  next
    case (Some k)
    then have "k < length caches" using select_trigger_cases [OF sel] by auto
    then show thesis using body that [OF r s1 refl] Some by (auto simp: try_then_Inr_iff)
  qed
qed

lemma motion_round_clock:
  assumes "motion_round l r ts st = Inr (True, st')"
  shows "\<exists>key. solver_now (loop_solver st) \<le> key_time key \<and>
    events_so_far st < limit_events (solver_limits (loop_solver st)) \<and>
    clock (loop_solver st') = (solver_limits (loop_solver st), solver_seconds (loop_solver st),
      solver_radius (loop_solver st), solver_bounds (loop_solver st), key_time key,
      motion_events (loop_solver st) @ [key], Suc (events_so_far st))"
proof (rule motion_round_step [OF assms])
  fix key s0 caches s1 st1
  assume r: "refresh_triggers ts (loop_caches st) (loop_solver st) = Inr (s0, caches)" and b: "begin_event key s0 = Inr s1"
    and st1: "st1 = st\<lparr>loop_caches := caches, loop_solver := s1\<rparr>"
    and resp: "(\<exists>k. k < length caches \<and> trigger_round l ts key k st1 = Inr st') \<or>
      (\<exists>e. next_geometry_event s0 = Some e \<and> event_key_of e = key \<and>
        ((\<exists>j. event_second e = Some j \<and> contact_round l r e j st1 = Inr st') \<or> wall_round e st1 = Inr st'))"
  have "clock (loop_solver st') = clock s1"
    using resp by (auto simp: st1 dest!: trigger_round_clock contact_round_clock wall_round_clock)
  moreover have "clock s0 = clock (loop_solver st)"
    using refresh_triggers_observables [OF r] by (rule clock_observables)
  ultimately show ?thesis
    using begin_event_cases [OF b] by (auto simp: clock_def events_so_far_def intro!: exI [of _ key])
qed

lemma motion_rounds_return:
  assumes "solver_limits (loop_solver st) = l" and "limit_events l < fuel + events_so_far st"
    and "events_so_far st \<le> limit_events l"
  shows "motion_rounds l r ts fuel st \<noteq> None"
  using assms
proof (induction fuel arbitrary: st)
  case (Suc fuel)
  show ?case
  proof (cases "motion_round l r ts st")
    case (Inr res)
    obtain found st' where res: "res = (found, st')" by (cases res)
    show ?thesis
    proof (cases found)
      case True
      then have step: "motion_round l r ts st = Inr (True, st')" using Inr res by simp
      from motion_round_clock [OF step] have "solver_limits (loop_solver st') = l"
        "events_so_far st' = Suc (events_so_far st)" "events_so_far st < limit_events l"
        using Suc.prems(1) by (auto simp: clock_def events_so_far_def)
      then show ?thesis using Suc.IH [of st'] Suc.prems step by simp
    qed (simp add: Inr res)
  qed simp
qed simp

section \<open>Cached indices\<close>

text \<open>Every index a cache or a cached event holds names a body.\<close>

definition event_within :: "nat \<Rightarrow> geometry_event option \<Rightarrow> bool" where
  "event_within n event =
     (case event of None \<Rightarrow> True
      | Some e \<Rightarrow> event_first e < n \<and> (case event_second e of None \<Rightarrow> True | Some j \<Rightarrow> j < n))"

definition pair_within :: "nat \<Rightarrow> pair_cache \<Rightarrow> bool" where
  "pair_within n p \<longleftrightarrow> cache_first p < n \<and> cache_second p < n \<and> event_within n (cache_event p)"

definition caches_within :: "solver \<Rightarrow> bool" where
  "caches_within s \<longleftrightarrow>
     list_all (pair_within (length (epochs s))) (pair_caches s) \<and>
     list_all (\<lambda>(x, y). event_within (length (epochs s)) x \<and> event_within (length (epochs s)) y) (wall_events s) \<and>
     length (wall_events s) = length (epochs s)"

lemma event_within_None [simp]: "event_within n None"
  by (simp add: event_within_def)

lemma list_all_update: "list_all P xs \<Longrightarrow> (k < length xs \<Longrightarrow> P x) \<Longrightarrow> list_all P (xs[k := x])"
  by (cases "k < length xs") (auto simp: list_all_length nth_list_update)

lemma make_pair_event_within:
  assumes "make_pair_event s p t adm = Inr e" and "pair_within n p" shows "event_within n e"
  using assms unfolding make_pair_event_def
  by (auto simp: try_then_Inr_iff event_within_def pair_within_def split: if_splits)

lemma pair_event_within:
  assumes "pair_event s p w = Inr (w', e)" and "pair_within n p" shows "event_within n e"
proof -
  have "event_within n e" if "pair_decision s p b q = Inr e" for b q
    using that assms(2) unfolding pair_decision_def Let_def
    by (auto simp: try_then_Inr_iff dest: make_pair_event_within split: if_split_asm)
  then show ?thesis using assms(1) unfolding pair_event_def Let_def by (auto simp only: try_then_Inr_iff)
qed

lemma refresh_pair_within:
  assumes "refresh_pair s p w = Inr (w', p')" and "pair_within n p" shows "pair_within n p'"
  using assms unfolding refresh_pair_def Let_def
  by (auto simp: try_then_Inr_iff pair_within_def dest: pair_event_within [unfolded pair_within_def] split: if_splits)

lemma refresh_pairs_within:
  "refresh_pairs s ps w = Inr (w', ps') \<Longrightarrow> list_all (pair_within n) ps \<Longrightarrow> list_all (pair_within n) ps'"
  by (induction s ps w arbitrary: w' ps' rule: refresh_pairs.induct)
    (fastforce simp: try_then_Inr_iff dest: refresh_pair_within)+

lemma sweep_row_within:
  "sweep_row s a bs ph = Inr ph' \<Longrightarrow> list_all (pair_within n) (phase_pairs ph) \<Longrightarrow> list_all (pair_within n) (phase_pairs ph')"
proof (induction s a bs ph rule: sweep_row.induct)
  case (2 s a b bs ph)
  let ?k = "pair_index (length (epochs s)) (box_body a) (box_body b)"
  have "list_all (pair_within n) ((phase_pairs ph)[?k := (phase_pairs ph ! ?k)\<lparr>cache_candidate := True\<rparr>])"
    using 2(4) by (intro list_all_update) (auto simp: pair_within_def list_all_length)
  then show ?case using 2 by (auto simp: Let_def try_then_Inr_iff split: if_splits)
qed simp

lemma sweep_rows_within:
  "sweep_rows s bs ph = Inr ph' \<Longrightarrow> list_all (pair_within n) (phase_pairs ph) \<Longrightarrow> list_all (pair_within n) (phase_pairs ph')"
  by (induction s bs ph rule: sweep_rows.induct) (fastforce simp: try_then_Inr_iff dest: sweep_row_within)+

lemma refresh_wall_within:
  assumes "refresh_wall s i y e w = Inr (w', e')" and "i < n" and "event_within n e" shows "event_within n e'"
proof -
  have m: "event_within n (Some ev)" if "make_wall s i y' v t = Inr ev" for y' v t ev
    using that assms(2) by (auto simp: make_wall_def Let_def try_then_Inr_iff event_within_def)
  have "event_within n e'" if "next_wall s i y w = Inr (w', e')"
    using that unfolding next_wall_def Let_def
    by (auto simp: try_then_Inr_iff dest!: m split: if_split_asm option.splits)
  then show ?thesis using assms(1,3) by (auto simp: refresh_wall_def Let_def split: if_splits)
qed

lemma refresh_walls_within:
  assumes "refresh_walls s is w = Inr (w', es)" and "\<And>i. i \<in> set is \<Longrightarrow> i < n"
    and "\<And>i. i \<in> set is \<Longrightarrow> event_within n (fst (wall_events s ! i)) \<and> event_within n (snd (wall_events s ! i))"
  shows "list_all (\<lambda>(x, y). event_within n x \<and> event_within n y) es \<and> length es = length is"
  using assms
proof (induction "is" arbitrary: w w' es)
  case (Cons i "is")
  then obtain w1 x w2 y w3 rest where r: "refresh_wall s i False (fst (wall_events s ! i)) w = Inr (w1, x)"
    "refresh_wall s i True (snd (wall_events s ! i)) w1 = Inr (w2, y)"
    "refresh_walls s is w2 = Inr (w3, rest)" "es = (x, y) # rest"
    by (auto simp: try_then_Inr_iff)
  have "list_all (\<lambda>(x, y). event_within n x \<and> event_within n y) rest \<and> length rest = length is"
    by (rule Cons.IH [OF r(3)]) (use Cons.prems(2,3) in auto)
  moreover have "event_within n x" "event_within n y"
    using refresh_wall_within [OF r(1), of n] refresh_wall_within [OF r(2), of n] Cons.prems(2,3) [of i] by auto
  ultimately show ?case by (simp add: r(4))
qed simp

lemma rebuild_within:
  assumes "rebuild s = Inr s'" and "caches_within s" shows "caches_within s'"
proof (cases "solver_dirty s")
  case True
  define n where "n = length (epochs s)"
  define ph where "ph = \<lparr>phase_work = (solver_work s)\<lparr>work_broad_phase_rebuilds := work_broad_phase_rebuilds (solver_work s) + 1\<rparr>,
    phase_candidates = 0, phase_pairs = map (\<lambda>p. p\<lparr>cache_candidate := False\<rparr>) (pair_caches s)\<rparr>"
  obtain ph' w1 w2 ps w3 walls where r: "sweep_rows s (swept_boxes s) ph = Inr ph'"
    "refresh_pairs s (phase_pairs ph') w1 = Inr (w2, ps)"
    "refresh_walls s [0..<length (epochs s)] w2 = Inr (w3, walls)"
    "s' = s\<lparr>solver_work := w3, pair_caches := ps, wall_events := walls, solver_dirty := False\<rparr>"
    using assms(1) True unfolding rebuild_def Let_def ph_def by (auto simp: try_then_Inr_iff)
  have "list_all (pair_within n) (phase_pairs ph)"
    using assms(2) by (auto simp: ph_def caches_within_def n_def pair_within_def list_all_iff)
  then have "list_all (pair_within n) ps"
    using refresh_pairs_within [OF r(2)] sweep_rows_within [OF r(1)] by blast
  moreover have "list_all (\<lambda>(x, y). event_within n x \<and> event_within n y) walls \<and> length walls = length [0..<n]"
    unfolding n_def
    by (rule refresh_walls_within [OF r(3)]) (use assms(2) in \<open>auto simp: caches_within_def list_all_length n_def case_prod_beta\<close>)
  ultimately show ?thesis by (simp add: r(4) caches_within_def n_def)
qed (use assms in \<open>auto simp: rebuild_def\<close>)

lemma caches_within_epochs:
  assumes "caches_within s" and "length (epochs s') = length (epochs s)" and "pair_caches s' = pair_caches s"
    and "wall_events s' = wall_events s"
  shows "caches_within s'"
  using assms by (simp add: caches_within_def)

lemma finish_event_within:
  assumes "finish_event e s = Inr s'" and "caches_within s" shows "caches_within s'"
proof -
  have "caches_within (s\<lparr>pair_caches := (pair_caches s)[k := (pair_caches s ! k)\<lparr>cache_suppressed := x, cache_event := None\<rparr>]\<rparr>)" for k x
    using assms(2)
    by (cases "k < length (pair_caches s)") (auto simp: caches_within_def pair_within_def list_all_length nth_list_update)
  then show ?thesis
    using assms by (auto simp: finish_event_def Let_def split: option.splits intro: rebuild_within)
qed

lemma add_path_shape:
  assumes "add_path i t s = Inr s'"
  obtains ps where "s' = s\<lparr>motion_paths := ps\<rparr>"
  using assms that [of "motion_paths s"] by (auto simp: add_path_def Let_def try_then_Inr_iff split: if_splits)

lemma replace_body_within:
  assumes "replace_body i r s = Inr s'" and "caches_within s"
  shows "caches_within s' \<and> length (epochs s') = length (epochs s)"
proof -
  have "length (epochs s') = length (epochs s) \<and> pair_caches s' = pair_caches s \<and> wall_events s' = wall_events s"
    using assms(1) unfolding replace_body_def Let_def
    by (auto simp: try_then_Inr_iff fail_motion_def split: if_split_asm elim!: add_path_shape)
  then show ?thesis using caches_within_epochs [OF assms(2)] by auto
qed

text \<open>A wall round clears one cached hit and then either stops or replaces the body.\<close>

lemma reflect_wall_cases:
  assumes "reflect_wall e s = Inr s'"
  obtains walls s1 where "s1 = s\<lparr>wall_events := walls, solver_dirty := True\<rparr>"
    and "caches_within s \<Longrightarrow> caches_within s1"
    and "s' = s1 \<or> (\<exists>r. replace_body (event_first e) r s1 = Inr s')"
proof -
  define y where "y = (key_priority (event_key_of e) \<noteq> kWallX)"
  define walls where "walls = (wall_events s)[event_first e :=
      (if y then (fst (wall_events s ! event_first e), None) else (None, snd (wall_events s ! event_first e)))]"
  define s1 where "s1 = s\<lparr>wall_events := walls, solver_dirty := True\<rparr>"
  have w: "caches_within s1" if "caches_within s"
    using that
    by (cases "event_first e < length (wall_events s)")
      (auto simp: s1_def walls_def caches_within_def list_all_length nth_list_update case_prod_beta)
  have "s' = s1 \<or> (\<exists>r. replace_body (event_first e) r s1 = Inr s')"
    using assms unfolding reflect_wall_def Let_def y_def [symmetric] walls_def [symmetric] s1_def [symmetric]
    by (auto simp: try_then_Inr_iff split: if_split_asm)
  with w show thesis using that s1_def by blast
qed

lemma reflect_wall_within:
  assumes "reflect_wall e s = Inr s'" and "caches_within s"
  shows "caches_within s' \<and> length (epochs s') = length (epochs s)"
  using assms(2) by (rule_tac reflect_wall_cases [OF assms(1)]) (auto dest: replace_body_within)

section \<open>Paths\<close>

text \<open>The segments of one body, in order, lead from one instant and position to another.\<close>

fun path_chain :: "path_segment list \<Rightarrow> motion_time \<Rightarrow> vector2 \<Rightarrow> motion_time \<Rightarrow> vector2 \<Rightarrow> bool" where
  "path_chain [] t x t' x' \<longleftrightarrow> t = t' \<and> x = x'"
| "path_chain (p # ps) t x t' x' \<longleftrightarrow>
     path_begin p = t \<and> path_start p = x \<and> t < path_end p \<and> path_chain ps (path_end p) (path_finish p) t' x'"

definition own_paths :: "entity_id \<Rightarrow> path_segment list \<Rightarrow> path_segment list" where
  "own_paths e = filter (\<lambda>p. path_entity p = e)"

lemma own_paths_append [simp]: "own_paths e (ps @ qs) = own_paths e ps @ own_paths e qs"
  by (simp add: own_paths_def)

lemma path_chain_snoc:
  "path_chain (ps @ [p]) t x t' x' \<longleftrightarrow>
     (\<exists>u y. path_chain ps t x u y \<and> path_begin p = u \<and> path_start p = y \<and> u < path_end p \<and>
       path_end p = t' \<and> path_finish p = x')"
  by (induction ps arbitrary: t x) auto

text \<open>What the solver may not change of a body: everything but position, velocity and acceleration.\<close>

definition same_frame :: "physics_body \<Rightarrow> physics_body \<Rightarrow> bool" where
  "same_frame a b \<longleftrightarrow>
     a\<lparr>body_position := body_position b, body_velocity := body_velocity b, body_acceleration := body_acceleration b\<rparr> = b"

lemma same_frame_refl [simp]: "same_frame b b"
  by (simp add: same_frame_def)

lemma same_frame_static: "same_frame a b \<Longrightarrow> is_static b = is_static a"
  by (auto simp: same_frame_def dest: arg_cong [where f = is_static])

lemma same_frame_update [simp]:
  "same_frame a (b\<lparr>body_position := p\<rparr>) = same_frame a b"
  "same_frame a (b\<lparr>body_velocity := v\<rparr>) = same_frame a b"
  "same_frame a (b\<lparr>body_acceleration := c\<rparr>) = same_frame a b"
  by (cases a; cases b; simp add: same_frame_def)+

lemma revalidated_Inr: "revalidated b = Inr b' \<Longrightarrow> b' = b"
  by (cases b; cases b') (auto simp: revalidated_def dest!: validated_Inr)

lemma wither_Inr:
  "with_position p b = Inr b' \<Longrightarrow> b' = b\<lparr>body_position := p\<rparr>"
  "with_velocity v b = Inr b' \<Longrightarrow> b' = b\<lparr>body_velocity := v\<rparr>"
  "with_acceleration a b = Inr b' \<Longrightarrow> b' = b\<lparr>body_acceleration := a\<rparr>"
  by (auto simp: with_position_def with_velocity_def with_acceleration_def dest: revalidated_Inr)

lemma with_motion_Inr:
  "with_motion b r = Inr b' \<Longrightarrow> b' = b\<lparr>body_velocity := body_velocity r, body_acceleration := body_acceleration r\<rparr>"
  by (auto simp: with_motion_def try_then_Inr_iff dest!: wither_Inr)

lemma body_at_cases:
  assumes "body_at s i t = Inr c"
  shows "epoch_anchor (epochs s ! i) \<le> t" and "subject_entity c = epoch_entity (epochs s ! i)"
    and "\<And>b. same_frame b (subject_body c) = same_frame b (epoch_motion (epochs s ! i))"
    and "is_static (epoch_motion (epochs s ! i)) \<or> t = epoch_anchor (epochs s ! i) \<or>
      epoch_disposition (epochs s ! i) = kTerminate \<Longrightarrow> c = epoch_subject (epochs s ! i)"
    and "body_velocity (subject_body c) = body_velocity (epoch_motion (epochs s ! i))"
  using assms unfolding body_at_def Let_def fail_motion_def
  by (auto simp: try_then_Inr_iff dest!: wither_Inr split: if_split_asm)

section \<open>Progress of the bodies\<close>

definition body_progress :: "contact_subject \<Rightarrow> epoch_body \<Rightarrow> path_segment list \<Rightarrow> bool" where
  "body_progress sub e ps \<longleftrightarrow>
     epoch_entity e = subject_entity sub \<and> same_frame (subject_body sub) (epoch_motion e) \<and>
     (if is_static (subject_body sub)
      then own_paths (subject_entity sub) ps = [] \<and> body_position (epoch_motion e) = body_position (subject_body sub)
      else path_chain (own_paths (subject_entity sub) ps) 0 (body_position (subject_body sub))
             (epoch_anchor e) (body_position (epoch_motion e)))"

definition motion_progress :: "contact_subject list \<Rightarrow> solver \<Rightarrow> bool" where
  "motion_progress bs s \<longleftrightarrow>
     length (epochs s) = length bs \<and> distinct (map subject_entity bs) \<and>
     (\<forall>i < length bs. body_progress (bs ! i) (epochs s ! i) (motion_paths s))"

lemma progress_observables: "observables s' = observables s \<Longrightarrow> motion_progress bs s \<Longrightarrow> motion_progress bs s'"
  by (simp add: motion_progress_def observables_def)

lemma progress_entity: "body_progress sub e ps \<Longrightarrow> epoch_entity e = subject_entity sub"
  by (simp add: body_progress_def)

lemma progress_others:
  "body_progress sub e ps \<Longrightarrow> own_paths (subject_entity sub) qs = [] \<Longrightarrow> body_progress sub e (ps @ qs)"
  by (simp add: body_progress_def)

lemma add_path_progress:
  assumes prog: "body_progress sub (epochs s ! i) (motion_paths s)"
    and add: "add_path i t s = Inr s'" and at: "body_at s i t = Inr c"
  obtains ps where "s' = s\<lparr>motion_paths := motion_paths s @ ps\<rparr>"
    and "\<And>e'. e' \<noteq> subject_entity sub \<Longrightarrow> own_paths e' ps = []"
    and "\<And>e. epoch_subject e = \<lparr>subject_entity = subject_entity sub, subject_body = subject_body c\<rparr> \<Longrightarrow>
      epoch_anchor e = t \<Longrightarrow> body_progress sub e (motion_paths s @ ps)"
proof -
  let ?e = "epochs s ! i"
  have static: "is_static (epoch_motion ?e) = is_static (subject_body sub)"
    using prog same_frame_static by (auto simp: body_progress_def)
  have frame: "same_frame (subject_body sub) (subject_body c)"
    using prog body_at_cases(3) [OF at] by (simp add: body_progress_def)
  show thesis
  proof (cases "is_static (epoch_motion ?e) \<or> t = epoch_anchor ?e")
    case True
    then have "s' = s" "c = epoch_subject ?e"
      using add body_at_cases(4) [OF at] by (auto simp: add_path_def Let_def)
    then show thesis
      using that [of "[]"] prog True static by (auto simp: body_progress_def own_paths_def)
  next
    case False
    define p where "p = \<lparr>path_entity = epoch_entity ?e, path_begin = epoch_anchor ?e, path_end = t,
      path_start = body_position (epoch_motion ?e), path_finish = body_position (subject_body c)\<rparr>"
    have "s' = s\<lparr>motion_paths := motion_paths s @ [p]\<rparr>"
      using add at False by (auto simp: add_path_def Let_def try_then_Inr_iff p_def)
    moreover have "own_paths e' [p] = []" if "e' \<noteq> subject_entity sub" for e'
      using that progress_entity [OF prog] by (auto simp: own_paths_def p_def)
    moreover have "body_progress sub e (motion_paths s @ [p])"
      if e: "epoch_subject e = \<lparr>subject_entity = subject_entity sub, subject_body = subject_body c\<rparr>" "epoch_anchor e = t" for e
    proof -
      have "own_paths (subject_entity sub) [p] = [p]" using progress_entity [OF prog] by (simp add: own_paths_def p_def)
      moreover have "epoch_anchor ?e < t" using body_at_cases(1) [OF at] False by simp
      ultimately show ?thesis
        using prog False static frame by (simp add: body_progress_def e path_chain_snoc p_def)
    qed
    ultimately show thesis by (rule that)
  qed
qed

lemma same_body_eq: "same_body a b \<Longrightarrow> b = a"
proof -
  assume s: "same_body a b"
  then have "body_radius b = body_radius a"
    unfolding same_body_def by (cases "(body_radius a, body_radius b)" rule: feq.cases) auto
  then show ?thesis using s by (simp add: same_body_def)
qed

text \<open>A replacement either leaves the epoch's path alone or closes it at the current instant.\<close>

lemma replace_body_cases:
  assumes rep: "replace_body i r s = Inr s'"
  obtains (stays) "s' = s\<lparr>epochs := (epochs s)[i := (epochs s ! i)\<lparr>epoch_subject := (epoch_subject (epochs s ! i))\<lparr>subject_body :=
      (epoch_motion (epochs s ! i))\<lparr>body_velocity := body_velocity (result_body r),
        body_acceleration := body_acceleration (result_body r)\<rparr>\<rparr>\<rparr>]\<rparr>"
    and "body_velocity (result_body r) = body_velocity (epoch_motion (epochs s ! i)) \<or> is_static (epoch_motion (epochs s ! i))"
    and "disposition r \<noteq> kTerminate"
  | (turns) c s1 where "body_at s i (solver_now s) = Inr c"
    and "result_body r = (subject_body c)\<lparr>body_velocity := body_velocity (result_body r),
      body_acceleration := body_acceleration (result_body r)\<rparr>"
    and "add_path i (solver_now s) s = Inr s1"
    and "s' = s1\<lparr>epochs := (epochs s1)[i := (epochs s ! i)\<lparr>epoch_subject := (epoch_subject (epochs s ! i))\<lparr>subject_body := result_body r\<rparr>,
      epoch_anchor := solver_now s, epoch_revision := epoch_revision (epochs s ! i) + 1,
      epoch_disposition := disposition r\<rparr>], solver_dirty := True\<rparr>"
proof -
  let ?e = "epochs s ! i"
  obtain c where c: "body_at s i (solver_now s) = Inr c" using rep by (auto simp: replace_body_def try_then_Inr_iff)
  obtain b where b: "with_motion (subject_body c) (result_body r) = Inr b"
    using rep unfolding replace_body_def c try_then.simps by (auto simp only: try_then_Inr_iff)
  note rest = rep [unfolded replace_body_def c try_then.simps b Let_def]
  have same: "same_body b (result_body r)" using rest by (auto simp: fail_motion_def split: if_splits)
  have result: "result_body r = (subject_body c)\<lparr>body_velocity := body_velocity (result_body r),
      body_acceleration := body_acceleration (result_body r)\<rparr>"
    using same_body_eq [OF same] with_motion_Inr [OF b] by simp
  have static: "is_static (subject_body c) = is_static (epoch_motion ?e)"
    using body_at_cases(3) [OF c] same_frame_static same_frame_refl by blast
  show thesis
  proof (cases "(\<not> is_static (subject_body c) \<and> body_velocity (subject_body c) \<noteq> body_velocity (result_body r)) \<or>
      disposition r = kTerminate")
    case True
    then obtain s1 where s1: "add_path i (solver_now s) s = Inr s1"
      "s' = s1\<lparr>epochs := (epochs s1)[i := ?e\<lparr>epoch_subject := (epoch_subject ?e)\<lparr>subject_body := result_body r\<rparr>,
        epoch_anchor := solver_now s1, epoch_revision := epoch_revision ?e + 1,
        epoch_disposition := disposition r\<rparr>], solver_dirty := True\<rparr>"
      using rest same by (auto simp: try_then_Inr_iff)
    moreover have "solver_now s1 = solver_now s" using add_path_clock [OF s1(1)] by (simp add: clock_def)
    ultimately show thesis using turns c result by metis
  next
    case False
    then obtain b' where "with_motion (epoch_motion ?e) (result_body r) = Inr b'"
      "s' = s\<lparr>epochs := (epochs s)[i := ?e\<lparr>epoch_subject := (epoch_subject ?e)\<lparr>subject_body := b'\<rparr>\<rparr>]\<rparr>"
      using rest same by (auto simp: try_then_Inr_iff)
    then show thesis
      using stays with_motion_Inr False static body_at_cases(5) [OF c] by fastforce
  qed
qed

lemma progress_update:
  assumes "length (epochs s) = length bs" and "distinct (map subject_entity bs)" and "i < length bs"
    and "\<And>j. j < length bs \<Longrightarrow> j \<noteq> i \<Longrightarrow> body_progress (bs ! j) (epochs s ! j) ps"
    and "body_progress (bs ! i) e ps"
    and "epochs s' = (epochs s)[i := e]" and "motion_paths s' = ps"
  shows "motion_progress bs s'"
  using assms by (auto simp: motion_progress_def nth_list_update)

lemma replace_body_progress:
  assumes prog: "motion_progress bs s" and i: "i < length bs" and rep: "replace_body i r s = Inr s'"
  shows "motion_progress bs s'"
proof -
  have p: "length (epochs s) = length bs" "distinct (map subject_entity bs)"
    "\<And>j. j < length bs \<Longrightarrow> body_progress (bs ! j) (epochs s ! j) (motion_paths s)"
    using prog by (auto simp: motion_progress_def)
  show ?thesis
    using rep
  proof (cases rule: replace_body_cases)
    case stays
    show ?thesis
      by (rule progress_update [OF p(1,2) i p(3), of _ s']) (use p(3) [OF i] in \<open>simp_all add: stays(1) body_progress_def\<close>)
  next
    case (turns c s1)
    obtain v a where result: "result_body r = (subject_body c)\<lparr>body_velocity := v, body_acceleration := a\<rparr>"
      using turns(2) by blast
    have entity: "subject_entity (epoch_subject (epochs s ! i)) = subject_entity (bs ! i)"
      using p(3) [OF i] by (simp add: body_progress_def)
    show ?thesis
    proof (rule add_path_progress [OF p(3) [OF i] turns(3) turns(1)])
      fix ps
      assume ps: "s1 = s\<lparr>motion_paths := motion_paths s @ ps\<rparr>"
        and foreign: "\<And>e'. e' \<noteq> subject_entity (bs ! i) \<Longrightarrow> own_paths e' ps = []"
        and own: "\<And>e. epoch_subject e = \<lparr>subject_entity = subject_entity (bs ! i), subject_body = subject_body c\<rparr> \<Longrightarrow>
          epoch_anchor e = solver_now s \<Longrightarrow> body_progress (bs ! i) e (motion_paths s @ ps)"
      have other: "body_progress (bs ! j) (epochs s ! j) (motion_paths s @ ps)" if "j < length bs" "j \<noteq> i" for j
        using p(2) p(3) [OF that(1)] that i nth_eq_iff_index_eq [of "map subject_entity bs" j i]
        by (intro progress_others foreign) auto
    have "body_progress (bs ! i) ((epochs s ! i)\<lparr>epoch_subject := \<lparr>subject_entity = subject_entity (bs ! i), subject_body = subject_body c\<rparr>,
        epoch_anchor := solver_now s\<rparr>) (motion_paths s @ ps)" by (rule own) simp_all
    then have "body_progress (bs ! i) ((epochs s ! i)\<lparr>epoch_subject := (epoch_subject (epochs s ! i))\<lparr>subject_body := result_body r\<rparr>,
        epoch_anchor := solver_now s, epoch_revision := epoch_revision (epochs s ! i) + 1, epoch_disposition := disposition r\<rparr>) (motion_paths s @ ps)"
      by (auto simp: body_progress_def entity result split: if_split_asm)
    then show "motion_progress bs s'"
      by (intro progress_update [OF p(1,2) i other]) (simp_all add: turns(4) ps)
    qed
  qed
qed

end
