(* ===== verification/Motion_Chronology.thy ===== *)
theory Motion_Chronology
  imports Motion_Invariants
begin

text \<open>
  The invariant of the event loop and the properties of a whole solve: it returns, its events are a
  chronology, and its paths are continuous.
\<close>

section \<open>The state a solve starts from\<close>

lemma next_geometry_event_mem:
  assumes "next_geometry_event s = Some e" shows "Some e \<in> set (cached_events s)"
proof -
  have "fold consider_event es acc = Some e \<Longrightarrow> Some e \<in> set es \<or> acc = Some e" for es acc
    by (induction es arbitrary: acc)
      (fastforce simp: consider_event_def split: option.splits if_splits)+
  then show ?thesis using assms unfolding next_geometry_event_def by fastforce
qed

lemma next_geometry_event_within:
  assumes "caches_within s" and "next_geometry_event s = Some e" shows "event_within (length (epochs s)) (Some e)"
  using next_geometry_event_mem [OF assms(2)] assms(1)
  by (force simp: cached_events_def caches_within_def pair_within_def list_all_iff)

definition epoch_frames :: "solver \<Rightarrow> (contact_subject \<times> motion_time) list" where
  "epoch_frames s = map (\<lambda>e. (epoch_subject e, epoch_anchor e)) (epochs s)"

lemma assign_policy_keeps:
  assumes "assign_policy p (s, a) = Inr (s', a')"
  shows "epoch_frames s' = epoch_frames s \<and> clock s' = clock s \<and> motion_paths s' = motion_paths s \<and>
    pair_caches s' = pair_caches s \<and> wall_events s' = wall_events s"
proof -
  obtain i where i: "s' = s\<lparr>epochs := (epochs s)[i := (epochs s ! i)\<lparr>epoch_effect_policy := policy_value p\<rparr>]\<rparr>"
    using assms by (auto simp: assign_policy_def try_then_Inr_iff fail_motion_def split: if_splits)
  have "epoch_frames s' = epoch_frames s"
    by (cases "i < length (epochs s)") (auto simp: epoch_frames_def i nth_list_update intro!: nth_equalityI)
  then show ?thesis by (simp add: i clock_def)
qed

lemma epoch_frames_length: "epoch_frames s' = epoch_frames s \<Longrightarrow> length (epochs s') = length (epochs s)"
  unfolding epoch_frames_def by (metis length_map)

lemma initial_solver:
  defines "bs \<equiv> \<lambda>input. sort_key subject_entity input"
  shows "epoch_frames (solver_initial l sec r b input) = map (\<lambda>x. (x, 0)) (bs input)"
    and "clock (solver_initial l sec r b input) = (l, sec, r, b, 0, [], 0)"
    and "motion_paths (solver_initial l sec r b input) = []"
    and "caches_within (solver_initial l sec r b input)"
  by (auto simp: solver_initial_def epoch_frames_def fresh_epoch_def clock_def motion_start_def bs_def Let_def
      motion_work_none_def caches_within_def list_all_iff pair_within_def fresh_pair_def)

lemma admitted_distinct:
  assumes "try_fold (admit_body s) [0..<length (epochs s)] () = Inr u"
    and sorted: "sorted (map epoch_entity (epochs s))"
  shows "distinct (map epoch_entity (epochs s))"
proof -
  have each: "try_fold (admit_body s) is () = Inr u' \<Longrightarrow> i \<in> set is \<Longrightarrow> admit_body s i () = Inr ()" for "is" i u'
    by (induction "is") (auto simp: try_then_Inr_iff)
  have step: "epoch_entity (epochs s ! i) \<noteq> epoch_entity (epochs s ! Suc i)" if "Suc i < length (epochs s)" for i
    using each [OF assms(1), of "Suc i"] that by (auto simp: admit_body_def fail_motion_def split: if_splits)
  have "sorted_wrt (<) (map epoch_entity (epochs s))"
    unfolding sorted_wrt_iff_nth_Suc_transp [OF transp_on_less]
    using step sorted by (fastforce simp: sorted_iff_nth_Suc order.strict_iff_order)
  then show ?thesis by (rule ascending_distinct)
qed

lemma solver_create_start:
  assumes "solver_create l sec r b input policies = Inr s"
  shows "motion_progress (sort_key subject_entity input) s" and "caches_within s" and "clock s = (l, sec, r, b, 0, [], 0)"
proof -
  define s0 where "s0 = solver_initial l sec r b input"
  define bs where "bs = sort_key subject_entity input"
  obtain u s1 a1 where admit: "try_fold (admit_body s0) [0..<length (epochs s0)] () = Inr u"
    and assign: "try_fold assign_policy policies (s0, replicate (length (epochs s0)) False) = Inr (s1, a1)"
    and reb: "rebuild s1 = Inr s"
    using assms unfolding solver_create_def Let_def s0_def [symmetric]
    by (auto simp: try_then_Inr_iff fail_motion_def split: if_splits)
  note init = initial_solver [of l sec r b input, folded s0_def bs_def]
  have keep: "epoch_frames s1 = epoch_frames s0 \<and> clock s1 = clock s0 \<and> motion_paths s1 = motion_paths s0 \<and>
    pair_caches s1 = pair_caches s0 \<and> wall_events s1 = wall_events s0"
    using try_fold_invariant [OF assign, where P = "\<lambda>(s', _). epoch_frames s' = epoch_frames s0 \<and> clock s' = clock s0 \<and>
      motion_paths s' = motion_paths s0 \<and> pair_caches s' = pair_caches s0 \<and> wall_events s' = wall_events s0"]
      assign_policy_keeps by fastforce
  have entities: "map epoch_entity (epochs s0) = map subject_entity bs"
    using arg_cong [OF init(1), of "map (subject_entity \<circ> fst)"] by (simp add: epoch_frames_def o_def)
  have "distinct (map epoch_entity (epochs s0))"
    using admit by (rule admitted_distinct) (simp add: entities bs_def)
  then have d: "distinct (map subject_entity bs)" by (simp add: entities)
  have f: "epoch_frames s1 = map (\<lambda>x. (x, 0)) bs" using keep init(1) by simp
  then have len: "length (epochs s1) = length bs" by (metis epoch_frames_def length_map)
  have "epoch_subject (epochs s1 ! i) = bs ! i \<and> epoch_anchor (epochs s1 ! i) = 0" if "i < length bs" for i
    using arg_cong [OF f, of "\<lambda>xs. xs ! i"] that len by (simp add: epoch_frames_def)
  then have "motion_progress bs s1"
    using len d keep init(3) by (simp add: motion_progress_def body_progress_def own_paths_def)
  then show "motion_progress (sort_key subject_entity input) s"
    using progress_observables [OF rebuild_observables [OF reb]] by (simp add: bs_def)
  have "caches_within s1"
    using caches_within_epochs [OF init(4)] keep epoch_frames_length by blast
  then show "caches_within s" using rebuild_within reb by blast
  show "clock s = (l, sec, r, b, 0, [], 0)"
    using clock_observables [OF rebuild_observables [OF reb]] keep init(2) by simp
qed

lemma index_of_body_within: "index_of_body s e = Inr i \<Longrightarrow> i < length (epochs s)"
  using length_takeWhile_le [of "\<lambda>b. epoch_entity b < e" "epochs s"]
  by (auto simp: index_of_body_def Let_def fail_motion_def split: if_splits)

lemma declare_triggers_within:
  "declare_triggers l s earlier ts = Inr cs \<Longrightarrow> list_all (\<lambda>c. cached_body c < length (epochs s)) cs"
  by (induction l s earlier ts arbitrary: cs rule: declare_triggers.induct)
    (auto simp: try_then_Inr_iff fail_motion_def index_of_body_within split: if_splits)

section \<open>The invariant of the loop\<close>

definition chronological :: "'e motion_loop \<Rightarrow> bool" where
  "chronological st \<longleftrightarrow>
     (let s = loop_solver st in
      sorted (map key_time (motion_events s)) \<and> list_all (\<lambda>k. key_time k \<le> solver_now s) (motion_events s) \<and>
      length (motion_events s) = work_events (solver_work s) \<and>
      length (motion_events s) \<le> limit_events (solver_limits s) \<and> 0 \<le> solver_now s \<and>
      list_all (\<lambda>k. 0 \<le> key_time k) (motion_events s) \<and>
      sorted (map (key_time \<circ> fst) (loop_effects st)) \<and> fst ` set (loop_effects st) \<subseteq> set (motion_events s))"

definition loop_invariant :: "contact_subject list \<Rightarrow> 'e motion_loop \<Rightarrow> bool" where
  "loop_invariant bs st \<longleftrightarrow>
     motion_progress bs (loop_solver st) \<and> caches_within (loop_solver st) \<and>
     list_all (\<lambda>c. cached_body c < length bs) (loop_caches st) \<and> chronological st"

lemma motion_start_loop_invariant:
  assumes "motion_start_loop l sec r b input policies ts = Inr st"
  shows "loop_invariant (sort_key subject_entity input) st" and "solver_limits (loop_solver st) = l" and "events_so_far st = 0"
proof -
  obtain s cs where s: "solver_create l sec r b input policies = Inr s" "declare_triggers l s [] ts = Inr cs"
    "st = \<lparr>loop_solver = s, loop_caches = cs, loop_effects = []\<rparr>"
    using assms by (auto simp: motion_start_loop_def try_then_Inr_iff)
  note start = solver_create_start [OF s(1)]
  have "length (epochs s) = length (sort_key subject_entity input)" using start(1) by (simp add: motion_progress_def)
  then show "loop_invariant (sort_key subject_entity input) st" "solver_limits (loop_solver st) = l" "events_so_far st = 0"
    using start declare_triggers_within [OF s(2)]
    by (auto simp: s(3) loop_invariant_def chronological_def clock_def Let_def events_so_far_def)
qed


lemma refresh_trigger_keeps:
  assumes "refresh_trigger t c s = Inr (s', c')"
  shows "cached_body c' = cached_body c" and "caches_within s \<Longrightarrow> caches_within s'"
  using assms unfolding refresh_trigger_def caches_within_def
  by (auto simp: try_then_Inr_iff split: if_splits)

lemma refresh_triggers_keep:
  assumes "refresh_triggers ts cs s = Inr (s', cs')"
  shows "(list_all (\<lambda>c. cached_body c < n) cs \<longrightarrow> list_all (\<lambda>c. cached_body c < n) cs') \<and>
    (caches_within s \<longrightarrow> caches_within s')"
  using assms
proof (induction ts arbitrary: cs s cs')
  case (Cons t ts)
  show ?case
  proof (cases cs)
    case (Cons c cs0)
    then obtain s1 c1 cs1 where r: "refresh_trigger t c s = Inr (s1, c1)" "refresh_triggers ts cs0 s1 = Inr (s', cs1)"
      "cs' = c1 # cs1" using Cons.prems by (auto simp: try_then_Inr_iff)
    show ?thesis using refresh_trigger_keeps [OF r(1)] Cons.IH [OF r(2)] by (simp add: Cons r(3))
  qed (use Cons.prems in simp)
qed simp

text \<open>What the three responses do to the bodies, the caches and the effects.\<close>

lemma append_effects_Inr: "append_effects l key es produced = Inr r \<Longrightarrow> r = produced @ map (\<lambda>e. (key, e)) es"
  by (auto simp: append_effects_def fail_motion_def split: if_splits)

definition response_step :: "contact_subject list \<Rightarrow> event_key \<Rightarrow> 'e motion_loop \<Rightarrow> 'e motion_loop \<Rightarrow> bool" where
  "response_step bs key st st' \<longleftrightarrow>
     motion_progress bs (loop_solver st') \<and> caches_within (loop_solver st') \<and>
     list_all (\<lambda>c. cached_body c < length bs) (loop_caches st') \<and>
     (\<exists>es. loop_effects st' = loop_effects st @ map (\<lambda>e. (key, e)) es)"

lemma no_effects: "\<exists>es. loop_effects st = loop_effects st @ map (\<lambda>e. (key, e)) es"
  by (intro exI [of _ "[]"]) simp

lemma progress_finish:
  assumes "motion_progress bs s" and "caches_within s" and "finish_event e s = Inr s'"
  shows "motion_progress bs s' \<and> caches_within s'"
  using assms progress_observables [OF finish_event_observables] finish_event_within by blast

lemma trigger_round_step:
  assumes "trigger_round l ts key k st = Inr st'" and "k < length (loop_caches st)"
    and "motion_progress bs (loop_solver st)" and "caches_within (loop_solver st)"
    and b: "list_all (\<lambda>c. cached_body c < length bs) (loop_caches st)"
  shows "response_step bs key st st'"
proof -
  let ?c = "loop_caches st ! k"
  have c: "cached_body ?c < length bs" using assms(2) b by (simp add: list_all_length)
  obtain r s1 s2 es cursor where r: "replace_body (cached_body ?c) r (loop_solver st) = Inr s1"
    and s2: "finish_event None s1 = Inr s2"
    and st': "st' = \<lparr>loop_solver = s2, loop_caches = (loop_caches st)[k := ?c\<lparr>cached_cursor := cursor,
      cached_initialized := False, cached_key := None\<rparr>], loop_effects = loop_effects st @ map (\<lambda>e. (key, e)) es\<rparr>"
    using assms(1) unfolding trigger_round_def Let_def
    by (auto simp: try_then_Inr_iff fail_motion_def dest!: append_effects_Inr split: if_split_asm)
  have "motion_progress bs s1" "caches_within s1"
    using replace_body_progress [OF assms(3) c r] replace_body_within [OF r assms(4)] by auto
  then have "motion_progress bs s2 \<and> caches_within s2" using s2 by (rule progress_finish)
  moreover have "list_all (\<lambda>c. cached_body c < length bs) (loop_caches st')"
    using b c by (auto simp: st' intro!: list_all_update)
  ultimately show ?thesis by (auto simp: response_step_def st')
qed

lemma contact_round_step:
  assumes "contact_round l r e j st = Inr st'" and "event_key_of e = key" and "event_first e < length bs" and "j < length bs"
    and "motion_progress bs (loop_solver st)" and "caches_within (loop_solver st)"
    and b: "list_all (\<lambda>c. cached_body c < length bs) (loop_caches st)"
  shows "response_step bs key st st'"
proof -
  obtain s0 ob where o: "observe_contact e j (loop_solver st) = Inr (s0, ob)"
    using assms(1) unfolding contact_round_def Let_def by (auto simp only: try_then_Inr_iff solved_Inr_iff)
  have p: "motion_progress bs s0" using progress_observables [OF observe_contact_observables [OF o]] assms(5) by simp
  have "length (epochs s0) = length (epochs (loop_solver st))"
    using observe_contact_observables [OF o] by (simp add: observables_def)
  moreover have "pair_caches s0 = pair_caches (loop_solver st) \<and> wall_events s0 = wall_events (loop_solver st)"
    using o unfolding observe_contact_def Let_def by (auto simp: try_then_Inr_iff split: if_split_asm)
  ultimately have w: "caches_within s0" using caches_within_epochs [OF assms(6)] by simp
  show ?thesis
  proof (cases ob)
    case None
    then obtain s1 where "finish_event (Some e) s0 = Inr s1" "st' = st\<lparr>loop_solver := s1\<rparr>"
      using assms(1) unfolding contact_round_def Let_def o by (auto simp: try_then_Inr_iff)
    then show ?thesis using progress_finish [OF p w] b no_effects [of st] by (simp add: response_step_def)
  next
    case (Some ob')
    then obtain a c s1 s2 s3 es where s1: "replace_body (event_first e) a s0 = Inr s1"
      and s2: "replace_body j c s1 = Inr s2" and s3: "finish_event (Some e) s2 = Inr s3"
      and st': "st' = st\<lparr>loop_solver := s3, loop_effects := loop_effects st @ map (\<lambda>e. (key, e)) es\<rparr>"
      using assms(1,2) unfolding contact_round_def Let_def o
      by (auto simp: try_then_Inr_iff dest!: append_effects_Inr)
    have "motion_progress bs s1" "caches_within s1"
      using replace_body_progress [OF p assms(3) s1] replace_body_within [OF s1 w] by auto
    then have "motion_progress bs s2" "caches_within s2"
      using replace_body_progress [OF _ assms(4) s2] replace_body_within [OF s2] by auto
    then have "motion_progress bs s3 \<and> caches_within s3" using s3 by (rule progress_finish)
    then show ?thesis using b by (auto simp: response_step_def st')
  qed
qed

lemma wall_round_step:
  assumes "wall_round e st = Inr st'" and i: "event_first e < length bs"
    and "motion_progress bs (loop_solver st)" and "caches_within (loop_solver st)"
    and b: "list_all (\<lambda>c. cached_body c < length bs) (loop_caches st)"
  shows "response_step bs key st st'"
proof -
  obtain s1 s2 where s1: "reflect_wall e (loop_solver st) = Inr s1" and s2: "finish_event None s1 = Inr s2"
    and st': "st' = st\<lparr>loop_solver := s2\<rparr>" using assms(1) by (auto simp: wall_round_def try_then_Inr_iff)
  have "motion_progress bs s1"
    using s1
  proof (rule reflect_wall_cases)
    fix walls s0
    assume s0: "s0 = (loop_solver st)\<lparr>wall_events := walls, solver_dirty := True\<rparr>"
      and r: "s1 = s0 \<or> (\<exists>r. replace_body (event_first e) r s0 = Inr s1)"
    have "motion_progress bs s0" using assms(3) by (simp add: s0 motion_progress_def)
    then show ?thesis using r replace_body_progress [OF _ i] by blast
  qed
  moreover have "caches_within s1" using reflect_wall_within [OF s1 assms(4)] by simp
  ultimately have "motion_progress bs s2 \<and> caches_within s2" using s2 by (rule progress_finish)
  then show ?thesis using b no_effects [of st] by (simp add: response_step_def st')
qed

lemma refreshed_invariant:
  assumes "loop_invariant bs st" and r: "refresh_triggers ts (loop_caches st) (loop_solver st) = Inr (s, caches)"
  shows "loop_invariant bs (st\<lparr>loop_caches := caches, loop_solver := s\<rparr>)"
proof -
  have o: "observables s = observables (loop_solver st)" using r by (rule refresh_triggers_observables)
  have "chronological (st\<lparr>loop_caches := caches, loop_solver := s\<rparr>)"
    using assms(1) o unfolding loop_invariant_def chronological_def Let_def by (simp add: observables_def)
  then show ?thesis
    using assms(1) progress_observables [OF o] refresh_triggers_keep [OF r, of "length bs"]
    by (simp add: loop_invariant_def)
qed

lemma sorted_snoc_le: "sorted (map f xs) \<Longrightarrow> (\<And>x. x \<in> set xs \<Longrightarrow> f x \<le> f y) \<Longrightarrow> sorted (map f (xs @ [y]))"
  by (simp add: sorted_append)

lemma chronological_step:
  assumes "chronological st" and now: "solver_now (loop_solver st) \<le> key_time key"
    and clock: "clock (loop_solver st') = (solver_limits (loop_solver st), solver_seconds (loop_solver st),
      solver_radius (loop_solver st), solver_bounds (loop_solver st), key_time key,
      motion_events (loop_solver st) @ [key], Suc (events_so_far st))"
    and room: "events_so_far st < limit_events (solver_limits (loop_solver st))"
    and effects: "loop_effects st' = loop_effects st @ map (\<lambda>e. (key, e)) es"
  shows "chronological st'"
proof -
  define s where "s = loop_solver st"
  have c: "sorted (map key_time (motion_events s))" "\<And>k. k \<in> set (motion_events s) \<Longrightarrow> key_time k \<le> solver_now s"
    "length (motion_events s) = work_events (solver_work s)" "0 \<le> solver_now s"
    "\<And>k. k \<in> set (motion_events s) \<Longrightarrow> 0 \<le> key_time k"
    "sorted (map (key_time \<circ> fst) (loop_effects st))" "fst ` set (loop_effects st) \<subseteq> set (motion_events s)"
    using assms(1) by (auto simp: chronological_def Let_def s_def list_all_iff)
  have le: "key_time k \<le> key_time key" if "k \<in> set (motion_events s)" for k
    using c(2) [OF that] now by (simp add: s_def)
  have "sorted (map (key_time \<circ> fst) (loop_effects st @ map (\<lambda>e. (key, e)) es))"
    using c(6,7) le by (auto simp: sorted_append o_def map_replicate_const)
  moreover have "sorted (map key_time (motion_events s @ [key]))" using c(1) le by (intro sorted_snoc_le)
  ultimately show ?thesis
    using c clock now room le unfolding chronological_def Let_def effects s_def [symmetric]
    by (auto simp: clock_def events_so_far_def s_def list_all_iff)
qed

lemma motion_round_idle:
  assumes "motion_round l r ts st = Inr (False, st')"
  shows "\<exists>s caches. refresh_triggers ts (loop_caches st) (loop_solver st) = Inr (s, caches) \<and>
    st' = st\<lparr>loop_caches := caches, loop_solver := s\<rparr> \<and> solver_limits (loop_solver st') = solver_limits (loop_solver st)"
proof -
  obtain s caches where r: "refresh_triggers ts (loop_caches st) (loop_solver st) = Inr (s, caches)"
    using assms unfolding motion_round_def by (auto simp only: try_then_Inr_iff)
  have "st' = st\<lparr>loop_caches := caches, loop_solver := s\<rparr>"
    using assms unfolding motion_round_def Let_def r
    by (cases "select_trigger caches (map_option event_key_of (next_geometry_event s))")
      (auto simp: try_then_Inr_iff split: option.splits)
  then show ?thesis using r refresh_triggers_observables [OF r] by (auto simp: observables_def)
qed

lemma motion_round_invariant:
  assumes inv: "loop_invariant bs st" and round: "motion_round l r ts st = Inr (found, st')"
  shows "loop_invariant bs st'"
proof (cases found)
  case False
  then have "motion_round l r ts st = Inr (False, st')" using round by simp
  from motion_round_idle [OF this] show ?thesis using refreshed_invariant [OF inv] by auto
next
  case True
  then have step: "motion_round l r ts st = Inr (True, st')" using round by simp
  show ?thesis
    using step
  proof (rule motion_round_step)
    fix key s0 caches s1 st1
    assume refresh: "refresh_triggers ts (loop_caches st) (loop_solver st) = Inr (s0, caches)"
      and b: "begin_event key s0 = Inr s1" and st1: "st1 = st\<lparr>loop_caches := caches, loop_solver := s1\<rparr>"
      and resp: "(\<exists>k. k < length caches \<and> trigger_round l ts key k st1 = Inr st') \<or>
        (\<exists>e. next_geometry_event s0 = Some e \<and> event_key_of e = key \<and>
          ((\<exists>j. event_second e = Some j \<and> contact_round l r e j st1 = Inr st') \<or> wall_round e st1 = Inr st'))"
    note begin' = begin_event_cases [OF b]
    have "loop_invariant bs (st\<lparr>loop_caches := caches, loop_solver := s0\<rparr>)"
      using inv refresh by (rule refreshed_invariant)
    then have p0: "motion_progress bs s0" "caches_within s0" "list_all (\<lambda>c. cached_body c < length bs) caches"
      by (simp_all add: loop_invariant_def)
    have p1: "motion_progress bs s1" using p0(1) begin'(4,5) by (simp add: motion_progress_def)
    have "pair_caches s1 = pair_caches s0 \<and> wall_events s1 = wall_events s0"
      using b by (auto simp: begin_event_def Let_def try_then_Inr_iff fail_motion_def split: if_splits)
    then have w1: "caches_within s1" using caches_within_epochs [OF p0(2)] begin'(4) by simp
    have len: "length (epochs s0) = length bs" using p0(1) by (simp add: motion_progress_def)
    have rs: "response_step bs key st1 st'"
      using resp
    proof (elim disjE exE conjE)
      fix k assume "k < length caches" "trigger_round l ts key k st1 = Inr st'"
      then show ?thesis using trigger_round_step [of l ts key k st1 st' bs] p1 w1 p0(3) by (simp add: st1)
    next
      fix e j assume e: "next_geometry_event s0 = Some e" "event_key_of e = key" "event_second e = Some j"
        "contact_round l r e j st1 = Inr st'"
      then have "event_first e < length bs" "j < length bs"
        using next_geometry_event_within [OF p0(2) e(1)] len by (auto simp: event_within_def)
      then show ?thesis using contact_round_step [OF e(4,2)] p1 w1 p0(3) by (simp add: st1)
    next
      fix e assume e: "next_geometry_event s0 = Some e" "wall_round e st1 = Inr st'"
      then have "event_first e < length bs"
        using next_geometry_event_within [OF p0(2) e(1)] len by (auto simp: event_within_def)
      then show ?thesis using wall_round_step [OF e(2)] p1 w1 p0(3) by (simp add: st1)
    qed
    have "clock (loop_solver st') = clock s1"
      using resp by (auto simp: st1 dest!: trigger_round_clock contact_round_clock wall_round_clock)
    moreover have "clock s0 = clock (loop_solver st)"
      using refresh_triggers_observables [OF refresh] by (rule clock_observables)
    ultimately have "chronological st'"
      using rs inv begin'(1,2,3)
      by (auto simp: response_step_def st1 clock_def loop_invariant_def events_so_far_def
          intro!: chronological_step [of st key st'])
    then show ?thesis using rs by (simp add: loop_invariant_def response_step_def)
  qed
qed

lemma motion_rounds_invariant:
  assumes "motion_rounds l r ts fuel st = Some (Inr st')" and "loop_invariant bs st"
  shows "loop_invariant bs st'"
  using assms
proof (induction fuel arbitrary: st)
  case (Suc fuel)
  then obtain found st1 where round: "motion_round l r ts st = Inr (found, st1)"
    and rest: "if found then motion_rounds l r ts fuel st1 = Some (Inr st') else st' = st1"
    by (auto split: sum.splits prod.splits if_splits)
  have "loop_invariant bs st1" using motion_round_invariant [OF Suc.prems(2) round] .
  then show ?case using rest Suc.IH by (auto split: if_splits)
qed simp

section \<open>The final result\<close>

definition body_resolved :: "contact_subject \<Rightarrow> resolved_body \<Rightarrow> path_segment list \<Rightarrow> bool" where
  "body_resolved sub res ps \<longleftrightarrow>
     resolved_entity res = subject_entity sub \<and>
     same_frame (subject_body sub) (result_body (resolved_result res)) \<and>
     (if is_static (subject_body sub)
      then own_paths (subject_entity sub) ps = [] \<and>
        body_position (result_body (resolved_result res)) = body_position (subject_body sub)
      else \<exists>t \<le> 1. path_chain (own_paths (subject_entity sub) ps) 0 (body_position (subject_body sub)) t
             (body_position (result_body (resolved_result res))) \<and>
           (disposition (resolved_result res) = kContinue \<longrightarrow> t = 1))"

definition finish_invariant :: "contact_subject list \<Rightarrow> epoch_body list \<Rightarrow> nat \<Rightarrow> solver \<Rightarrow> resolved_body list \<Rightarrow> bool" where
  "finish_invariant bs es k s resolved \<longleftrightarrow>
     epochs s = es \<and> length resolved = k \<and>
     (\<forall>i < k. body_resolved (bs ! i) (resolved ! i) (motion_paths s)) \<and>
     (\<forall>i < length bs. k \<le> i \<longrightarrow> body_progress (bs ! i) (es ! i) (motion_paths s))"

lemma body_at_paths [simp]: "body_at (s\<lparr>motion_paths := ps\<rparr>) i t = body_at s i t"
  by (simp add: body_at_def Let_def)

lemma finish_body_step:
  assumes inv: "finish_invariant bs es k s resolved" and "length es = length bs" and k: "k < length bs"
    and d: "distinct (map subject_entity bs)" and fin: "finish_body k (s, resolved) = Inr (s', resolved')"
  shows "finish_invariant bs es (Suc k) s' resolved' \<and> clock s' = clock s"
proof -
  let ?e = "es ! k"
  have es: "epochs s = es" and prog: "body_progress (bs ! k) (epochs s ! k) (motion_paths s)"
    using inv k by (auto simp: finish_invariant_def)
  define s1 where "s1 = s'"
  obtain c where add: "(if epoch_disposition ?e = kContinue then add_path k motion_end s else Inr s) = Inr s'"
    and c: "body_at s' k motion_end = Inr c"
    and res: "resolved' = resolved @ [\<lparr>resolved_entity = epoch_entity ?e,
      resolved_result = \<lparr>result_body = subject_body c, disposition = epoch_disposition ?e\<rparr>\<rparr>]"
    using fin es unfolding finish_body_def Let_def prod.case by (auto simp: try_then_Inr_iff)
  have at: "body_at s k motion_end = Inr c"
  proof (cases "epoch_disposition ?e = kContinue")
    case True
    then obtain ps where "s' = s\<lparr>motion_paths := ps\<rparr>" using add by (auto elim: add_path_shape)
    then show ?thesis using c by simp
  qed (use add c in simp)
  note at' = body_at_cases [OF at, unfolded es]
  have frame: "same_frame (subject_body (bs ! k)) (subject_body c)"
    using prog at'(3) by (simp add: body_progress_def es)
  have "\<exists>ps. s' = s\<lparr>motion_paths := motion_paths s @ ps\<rparr> \<and>
      (\<forall>e'. e' \<noteq> subject_entity (bs ! k) \<longrightarrow> own_paths e' ps = []) \<and>
      body_resolved (bs ! k) (last resolved') (motion_paths s @ ps)"
  proof (cases "epoch_disposition ?e = kContinue")
    case True
    then have a: "add_path k motion_end s = Inr s'" using add by simp
    show ?thesis
      using prog a at
    proof (rule add_path_progress)
      fix ps assume ps: "s' = s\<lparr>motion_paths := motion_paths s @ ps\<rparr>"
        and foreign: "\<And>e'. e' \<noteq> subject_entity (bs ! k) \<Longrightarrow> own_paths e' ps = []"
        and own: "\<And>e. epoch_subject e = \<lparr>subject_entity = subject_entity (bs ! k), subject_body = subject_body c\<rparr> \<Longrightarrow>
          epoch_anchor e = motion_end \<Longrightarrow> body_progress (bs ! k) e (motion_paths s @ ps)"
      have "body_progress (bs ! k) (?e\<lparr>epoch_subject := \<lparr>subject_entity = subject_entity (bs ! k), subject_body = subject_body c\<rparr>,
          epoch_anchor := motion_end\<rparr>) (motion_paths s @ ps)" by (rule own) simp_all
      then have "body_resolved (bs ! k) (last resolved') (motion_paths s @ ps)"
        using progress_entity [OF prog]
        by (auto simp: body_progress_def body_resolved_def res es motion_end_def split: if_split_asm)
      then show ?thesis using ps foreign by blast
    qed
  next
    case False
    then have t: "epoch_disposition ?e = kTerminate" by (cases "epoch_disposition ?e") simp_all
    then have "c = epoch_subject ?e" using at'(4) by simp
    then have "body_resolved (bs ! k) (last resolved') (motion_paths s)"
      using prog t at'(1) by (auto simp: body_progress_def body_resolved_def res es motion_end_def)
    then show ?thesis using add False by (intro exI [of _ "[]"]) (simp add: own_paths_def)
  qed
  then obtain ps where ps: "s' = s\<lparr>motion_paths := motion_paths s @ ps\<rparr>"
    and foreign: "\<And>e'. e' \<noteq> subject_entity (bs ! k) \<Longrightarrow> own_paths e' ps = []"
    and own: "body_resolved (bs ! k) (last resolved') (motion_paths s @ ps)" by blast
  have other: "own_paths (subject_entity (bs ! i)) ps = []" if "i < length bs" "i \<noteq> k" for i
    using d that k nth_eq_iff_index_eq [of "map subject_entity bs" i k] by (intro foreign) auto
  have len: "length resolved = k" using inv by (simp add: finish_invariant_def)
  have "body_resolved (bs ! i) (resolved' ! i) (motion_paths s')" if "i < Suc k" for i
  proof (cases "i = k")
    case True
    then show ?thesis using own by (simp add: ps res len nth_append)
  next
    case False
    then have "i < k" "own_paths (subject_entity (bs ! i)) ps = []" using that k other by auto
    then show ?thesis using inv by (simp add: finish_invariant_def ps res nth_append body_resolved_def)
  qed
  moreover have "body_progress (bs ! i) (es ! i) (motion_paths s')" if "i < length bs" "Suc k \<le> i" for i
    using inv that other [of i] progress_others by (auto simp: finish_invariant_def ps)
  ultimately show ?thesis using es len by (simp add: finish_invariant_def res ps clock_def)
qed

lemma finish_fold:
  assumes "try_fold finish_body [k..<length bs] (s, resolved) = Inr (s', resolved')"
    and "finish_invariant bs es k s resolved" and "k \<le> length bs" and "length es = length bs"
    and "distinct (map subject_entity bs)"
  shows "finish_invariant bs es (length bs) s' resolved' \<and> clock s' = clock s"
  using assms
proof (induction "length bs - k" arbitrary: k s resolved)
  case 0
  then show ?case by simp
next
  case (Suc m)
  then have k: "k < length bs" by simp
  then obtain s1 resolved1 where f: "finish_body k (s, resolved) = Inr (s1, resolved1)"
    "try_fold finish_body [Suc k..<length bs] (s1, resolved1) = Inr (s', resolved')"
    using Suc.prems(1) by (auto simp: upt_conv_Cons try_then_Inr_iff)
  from finish_body_step [OF Suc.prems(2,4) k Suc.prems(5) f(1)] show ?case
    using Suc.hyps(1) [of "Suc k" s1 resolved1] Suc.hyps(2) Suc.prems f(2) k by simp
qed

lemma finish_motion_resolved:
  assumes fin: "finish_motion s = Inr r" and prog: "motion_progress bs s"
  shows "list_all2 (\<lambda>sub res. body_resolved sub res (result_paths r)) bs (result_bodies r) \<and>
    result_events r = motion_events s"
proof -
  have len: "length (epochs s) = length bs" and d: "distinct (map subject_entity bs)"
    using prog by (simp_all add: motion_progress_def)
  obtain s' resolved where f: "try_fold finish_body [0..<length bs] (s, []) = Inr (s', resolved)"
    and r: "r = \<lparr>result_bodies = resolved, result_paths = motion_paths s', result_events = motion_events s',
      result_work = solver_work s'\<rparr>"
    using fin len by (auto simp: finish_motion_def try_then_Inr_iff)
  have "finish_invariant bs (epochs s) 0 s []" using prog by (simp add: finish_invariant_def motion_progress_def)
  from finish_fold [OF f this _ len d] have "finish_invariant bs (epochs s) (length bs) s' resolved" "clock s' = clock s"
    by simp_all
  then show ?thesis by (auto simp: r finish_invariant_def list_all2_conv_all_nth clock_def)
qed

lemma solve_cases:
  assumes "solve_continuous_motion l sec r b input policies respond triggers = Some (Inr res)"
  shows "\<exists>st. loop_invariant (sort_key subject_entity input) st \<and> solver_limits (loop_solver st) = l \<and>
    finish_motion (loop_solver st) = Inr (solve_motion res) \<and> solve_effects res = loop_effects st"
proof -
  obtain st0 st where st0: "motion_start_loop l sec r b input policies triggers = Inr st0"
    and run: "motion_rounds l respond triggers (limit_events l + 1) st0 = Some (Inr st)"
    and fin: "finish_motion (loop_solver st) = Inr (solve_motion res)" "solve_effects res = loop_effects st"
    using assms unfolding solve_continuous_motion_def
    by (auto simp: try_then_Inr_iff split: sum.splits option.splits)
  note start = motion_start_loop_invariant [OF st0]
  have limits: "motion_rounds l respond triggers fuel st1 = Some (Inr st') \<Longrightarrow>
      solver_limits (loop_solver st') = solver_limits (loop_solver st1)" for fuel st1 st'
  proof (induction fuel arbitrary: st1)
    case (Suc fuel)
    then obtain found st2 where round: "motion_round l respond triggers st1 = Inr (found, st2)"
      and rest: "if found then motion_rounds l respond triggers fuel st2 = Some (Inr st') else st' = st2"
      by (auto split: sum.splits prod.splits if_splits)
    have "solver_limits (loop_solver st2) = solver_limits (loop_solver st1)"
    proof (cases found)
      case True
      then show ?thesis using motion_round_clock [of l respond triggers st1 st2] round by (auto simp: clock_def)
    next
      case False
      then have "motion_round l respond triggers st1 = Inr (False, st2)" using round by simp
      from motion_round_idle [OF this] show ?thesis by auto
    qed
    then show ?case using rest Suc.IH by (auto split: if_splits)
  qed simp
  show ?thesis
    using motion_rounds_invariant [OF run start(1)] limits [OF run] start(2) fin by (intro exI [of _ st]) simp
qed

text \<open>
  the continuous motion solver always returns. For every input, every response and every trigger
  the loop ends within one round more than the event limit: each round either finds no event or spends
  one unit of the event budget, and an exhausted budget is an error. No response or trigger can make a
  tick hang.
\<close>

theorem motion_solve_returns:
  "solve_continuous_motion l sec r b input policies respond triggers \<noteq> None"
proof (cases "motion_start_loop l sec r b input policies triggers")
  case (Inr st)
  note start = motion_start_loop_invariant [OF Inr]
  have "motion_rounds l respond triggers (limit_events l + 1) st \<noteq> None"
    using start(2,3) by (intro motion_rounds_return) simp_all
  then show ?thesis by (auto simp: solve_continuous_motion_def Inr split: option.splits sum.splits)
qed (simp add: solve_continuous_motion_def)

text \<open>
  C26: a solved tick is a chronology. When the solver returns a result, its events are in order of time,
  none before the start of the tick, no more than the event limit, and every effect a response or a
  trigger emitted belongs to one of those events, the effects in order of time too.
\<close>

theorem motion_is_chronological:
  assumes "solve_continuous_motion l sec r b input policies respond triggers = Some (Inr res)"
  shows "sorted (map key_time (result_events (solve_motion res))) \<and>
    list_all (\<lambda>k. 0 \<le> key_time k) (result_events (solve_motion res)) \<and>
    length (result_events (solve_motion res)) \<le> limit_events l \<and>
    sorted (map (key_time \<circ> fst) (solve_effects res)) \<and>
    fst ` set (solve_effects res) \<subseteq> set (result_events (solve_motion res))"
proof -
  obtain st where inv: "loop_invariant (sort_key subject_entity input) st" "solver_limits (loop_solver st) = l"
    and fin: "finish_motion (loop_solver st) = Inr (solve_motion res)" "solve_effects res = loop_effects st"
    using solve_cases [OF assms] by blast
  have "motion_progress (sort_key subject_entity input) (loop_solver st)" using inv(1) by (simp add: loop_invariant_def)
  then have "result_events (solve_motion res) = motion_events (loop_solver st)"
    using finish_motion_resolved [OF fin(1)] by blast
  then show ?thesis
    using inv fin(2) by (auto simp: loop_invariant_def chronological_def Let_def)
qed

text \<open>
  C27: motion is continuous and changes nothing else. Of every body the solver was given, in order of
  identity, it returns exactly one value with the same geometry, mass, response and collision fields.
  A static body stays where it was and has no path. The path segments of any other body lead from its
  initial position at time zero to its final position without a gap in space or time, each of positive
  duration, and last the whole tick unless a response took the body out.
\<close>

theorem motion_is_continuous:
  fixes res :: "'e solve_result"
  assumes "solve_continuous_motion l sec r b input policies respond triggers = Some (Inr res)"
  shows "list_all2 (\<lambda>sub body. body_resolved sub body (result_paths (solve_motion res)))
    (sort_key subject_entity input) (result_bodies (solve_motion res))"
proof -
  obtain st :: "'e motion_loop" where "loop_invariant (sort_key subject_entity input) st"
    and "finish_motion (loop_solver st) = Inr (solve_motion res)" using solve_cases [OF assms] by blast
  then show ?thesis using finish_motion_resolved by (auto simp: loop_invariant_def)
qed

text \<open>The witness: a disc that touches the left wall and moves out, in a solve whose quantum is one second.
  It is reflected at time zero and travels two units to the right.\<close>

definition leaving_body :: "binary64 \<Rightarrow> physics_body" where
  "leaving_body v =
     \<lparr>body_position = \<lparr>vx = 1, vy = 1\<rparr>, body_velocity = \<lparr>vx = v, vy = 0\<rparr>, body_acceleration = zero_vector,
      body_radius = Finite 1, body_mass = 1, body_restitution = 1, body_drag_scale = 1,
      collision_layer = 1, collision_mask = 1, is_static = False, body_bounds_behavior = kFold,
      body_ground_attachment = kFloating\<rparr>"

definition leaving_subject :: contact_subject where
  "leaving_subject = \<lparr>subject_entity = EntityId 7, subject_body = leaving_body (- 2)\<rparr>"

definition wall_hit :: geometry_event where
  "wall_hit =
     \<lparr>event_key_of = \<lparr>key_time = 0, key_priority = kWallX, key_entity = EntityId 7, key_second = 0\<rparr>,
      event_first = 0, event_second = None, event_normal = \<lparr>vx = 1, vy = 0\<rparr>, event_distance = Finite 0,
      event_first_revision = 0, event_second_revision = 0, event_impact_admitted = False\<rparr>"

definition leaving_solver :: solver where
  "leaving_solver =
     (solver_initial default_motion_limits (Finite 1) (Finite 1) \<lparr>bounds_width = 9, bounds_height = 9\<rparr> [leaving_subject])
       \<lparr>solver_work := motion_work_none\<lparr>work_broad_phase_rebuilds := 1\<rparr>, wall_events := [(Some wall_hit, None)],
        solver_dirty := False\<rparr>"

lemma unit_vectors [simp]:
  "vector_create (Finite 1) (Finite 0) = Inr \<lparr>vx = 1, vy = 0\<rparr>"
  by (simp add: vector_create_def create_for_operation_def validate_component_def kMaximumPhysicalComponentMagnitude_def)

lemma leaving_create:
  "solver_create default_motion_limits (Finite 1) (Finite 1) \<lparr>bounds_width = 9, bounds_height = 9\<rparr> [leaving_subject] [] =
    Inr leaving_solver"
  by (simp add: solver_create_def solver_initial_def Let_def validate_motion_limits_def default_motion_limits_def
      require_motion_budget_def kMaximumMotionBodyCount_def admit_body_def motion_body_envelope_violation_def
      leaving_subject_def leaving_body_def fresh_epoch_def crosses_bounds_def rebuild_def swept_boxes_def
      refresh_wall_def leaving_solver_def motion_work_none_def kMaximumMotionTriggerCursorValue_def kMaximumEntityCount_def
      bounds_contains_def effective_radius_def fx_def fy_def event_due_def next_wall_def axis_component_def
      make_wall_def boundary_key_def map_motion_time_def motion_start_def motion_end_def wall_hit_def)


definition begun_solver :: solver where
  "begun_solver = leaving_solver\<lparr>solver_work := (solver_work leaving_solver)\<lparr>work_events := 1\<rparr>,
     motion_events := [event_key_of wall_hit]\<rparr>"

definition turned_epoch :: epoch_body where
  "turned_epoch = (fresh_epoch leaving_subject)\<lparr>epoch_subject := \<lparr>subject_entity = EntityId 7, subject_body = leaving_body 2\<rparr>,
     epoch_revision := 1\<rparr>"

definition turned_solver :: solver where
  "turned_solver = begun_solver\<lparr>solver_work := (solver_work begun_solver)\<lparr>work_broad_phase_rebuilds := 2, work_root_queries := 1\<rparr>,
     epochs := [turned_epoch], wall_events := [(None, None)]\<rparr>"

lemma leaving_begins: "begin_event (event_key_of wall_hit) leaving_solver = Inr begun_solver"
  by (simp add: begin_event_def Let_def leaving_solver_def begun_solver_def solver_initial_def wall_hit_def motion_start_def
      motion_work_none_def require_motion_budget_def default_motion_limits_def kMaximumMotionEventCount_def)

lemma leaving_valid: "valid_scalars (leaving_body v)"
  by (simp add: valid_scalars_def leaving_body_def kMaximumPhysicalComponentMagnitude_def)

lemma leaving_turns:
  "reflect_wall wall_hit begun_solver =
     Inr (begun_solver\<lparr>epochs := [turned_epoch], wall_events := [(None, None)], solver_dirty := True\<rparr>)"
proof -
  have u: "(leaving_body v)\<lparr>body_velocity := \<lparr>vx = w, vy = 0\<rparr>\<rparr> = leaving_body w" for v w by (simp add: leaving_body_def)
  have a: "body_acceleration (leaving_body v) = zero_vector" "(leaving_body v)\<lparr>body_acceleration := zero_vector\<rparr> = leaving_body v"
    "body_radius (leaving_body v) = Finite 1" "is_static (leaving_body v) = False"
    "body_velocity (leaving_body v) = \<lparr>vx = v, vy = 0\<rparr>" "(leaving_body v)\<lparr>body_radius := Finite 1\<rparr> = leaving_body v" for v
    by (simp_all add: leaving_body_def)
  have two: "vector_create (Finite 2) (Finite 0) = Inr \<lparr>vx = 2, vy = 0\<rparr>"
    by (simp add: vector_create_def create_for_operation_def validate_component_def kMaximumPhysicalComponentMagnitude_def)
  show ?thesis
    by (simp add: reflect_wall_def Let_def begun_solver_def leaving_solver_def solver_initial_def wall_hit_def body_at_def
        fresh_epoch_def leaving_subject_def motion_start_def vector_dot_def fx_def fy_def a two leaving_valid u
        replace_body_def with_motion_def same_body_def add_path_def turned_epoch_def)
qed

lemma turned_rebuilds:
  "rebuild (begun_solver\<lparr>epochs := [turned_epoch], wall_events := [(None, None)], solver_dirty := True\<rparr>) = Inr turned_solver"
  by (simp add: rebuild_def swept_boxes_def begun_solver_def leaving_solver_def solver_initial_def Let_def turned_epoch_def
      leaving_subject_def fresh_epoch_def leaving_body_def refresh_wall_def crosses_bounds_def event_due_def next_wall_def
      axis_component_def fx_def fy_def effective_radius_def charge_one_root_def charge_roots_def budget_of_def charged_def
      motion_work_none_def default_motion_limits_def kMaximumMotionRootQueryCount_def swept_line_boundary_roots_def
      swept_require_finite_def motion_start_def turned_solver_def)


definition leaving_result :: "unit solve_result" where
  "leaving_result =
    \<lparr>solve_motion = \<lparr>result_bodies = [\<lparr>resolved_entity = EntityId 7, resolved_result =
       \<lparr>result_body = (leaving_body 2)\<lparr>body_position := \<lparr>vx = 3, vy = 1\<rparr>\<rparr>, disposition = kContinue\<rparr>\<rparr>],
     result_paths = [\<lparr>path_entity = EntityId 7, path_begin = 0, path_end = 1, path_start = \<lparr>vx = 1, vy = 1\<rparr>,
       path_finish = \<lparr>vx = 3, vy = 1\<rparr>\<rparr>],
     result_events = [event_key_of wall_hit], result_work = solver_work turned_solver\<rparr>, solve_effects = [], solve_cursors = []\<rparr>"

lemma leaving_finishes: "finish_motion turned_solver = Inr (solve_motion leaving_result)"
proof -
  have at: "body_at turned_solver 0 1 = Inr \<lparr>subject_entity = EntityId 7,
      subject_body = (leaving_body 2)\<lparr>body_position := \<lparr>vx = 3, vy = 1\<rparr>\<rparr>\<rparr>"
    using leaving_valid [of 2]
    by (simp add: body_at_def Let_def turned_solver_def begun_solver_def leaving_solver_def solver_initial_def turned_epoch_def
        leaving_subject_def fresh_epoch_def motion_start_def vector_scale_def vector_add_def validate_scalar_operand_def
        create_for_operation_def validate_component_def fx_def fy_def kMaximumPhysicalComponentMagnitude_def leaving_body_def)
  have fields: "epochs turned_solver = [turned_epoch]" "motion_paths turned_solver = []"
    "motion_events turned_solver = [event_key_of wall_hit]" "solver_limits turned_solver = default_motion_limits"
    by (simp_all add: turned_solver_def begun_solver_def leaving_solver_def solver_initial_def)
  have epoch: "epoch_subject turned_epoch = \<lparr>subject_entity = EntityId 7, subject_body = leaving_body 2\<rparr>"
    "epoch_anchor turned_epoch = 0" "epoch_disposition turned_epoch = kContinue" "is_static (leaving_body 2) = False"
    "body_position (leaving_body 2) = \<lparr>vx = 1, vy = 1\<rparr>" "limit_paths default_motion_limits = 4352"
    by (simp_all add: turned_epoch_def fresh_epoch_def motion_start_def leaving_body_def default_motion_limits_def
        kMaximumMotionPathSegmentCount_def kMaximumMotionBodyCount_def kMaximumMotionEventCount_def)
  show ?thesis
    by (simp add: fields epoch at require_motion_budget_def finish_motion_def finish_body_def add_path_def motion_end_def
        leaving_result_def)
qed

lemma leaving_solve:
  "solve_continuous_motion default_motion_limits (Finite 1) (Finite 1) \<lparr>bounds_width = 9, bounds_height = 9\<rparr>
     [leaving_subject] [] (\<lambda>_ _ _. fail_motion kContinuousMotionInvalidInput) [] = Some (Inr leaving_result)"
proof -
  have caches: "pair_caches leaving_solver = []" "wall_events leaving_solver = [(Some wall_hit, None)]"
    "pair_caches turned_solver = []" "wall_events turned_solver = [(None, None)]"
    by (simp_all add: turned_solver_def begun_solver_def leaving_solver_def solver_initial_def)
  then have next_events: "next_geometry_event leaving_solver = Some wall_hit" "next_geometry_event turned_solver = None"
    by (simp_all add: next_geometry_event_def cached_events_def consider_event_def)
  have wall: "event_second wall_hit = None" by (simp add: wall_hit_def)
  have run: "motion_rounds default_motion_limits (\<lambda>_ _ _. fail_motion kContinuousMotionInvalidInput) [] (Suc (Suc n))
      \<lparr>loop_solver = leaving_solver, loop_caches = [], loop_effects = [] :: (event_key \<times> unit) list\<rparr> =
    Some (Inr \<lparr>loop_solver = turned_solver, loop_caches = [], loop_effects = []\<rparr>)" for n
    by (simp add: motion_round_def select_trigger_def next_events wall leaving_begins wall_round_def leaving_turns
        finish_event_def turned_rebuilds)
  have limit: "limit_events default_motion_limits + 1 = Suc (Suc 2047)"
    by (simp add: default_motion_limits_def kMaximumMotionEventCount_def)
  show ?thesis
    unfolding solve_continuous_motion_def limit
    by (simp only: motion_start_loop_def require_motion_budget_def leaving_create declare_triggers.simps run
        leaving_finishes sum.case option.case try_then.simps list.size if_False not_less_zero motion_loop.simps)
      (simp add: leaving_result_def)
qed

theorem motion_is_chronological_witness:
  "result_events (solve_motion leaving_result) = [event_key_of wall_hit] \<and>
   sorted (map key_time (result_events (solve_motion leaving_result))) \<and>
   length (result_events (solve_motion leaving_result)) \<le> limit_events default_motion_limits"
  using motion_is_chronological [OF leaving_solve] by (simp add: leaving_result_def)

theorem motion_is_continuous_witness:
  "list_all2 (\<lambda>sub body. body_resolved sub body (result_paths (solve_motion leaving_result)))
    [leaving_subject] (result_bodies (solve_motion leaving_result)) \<and>
   length (result_paths (solve_motion leaving_result)) = 1"
  using motion_is_continuous [OF leaving_solve] by (simp add: leaving_result_def)

end
