(* ===== verification/Contact_Rules.thy ===== *)
theory Contact_Rules
  imports Status_Effects Motion_Chronology
begin

text \<open>
  What a contact does (src/src/simulation/contact_rule.hpp, contact_rule_table.cpp,
  contact_effect_admission.cpp): the effect policy of a body, the rows of the contact chain, the
  table that walks them and the three built-in rows. Of the tick context a response reads only the
  tick. A response or a predicate of a row is a function here, so an absent one is \<open>None\<close>.
\<close>

section \<open>Contact effect policies\<close>

text \<open>The enumeration is a datatype, so the check for an undeclared policy has nothing to reject.\<close>

definition reject_admission :: "'a result" where
  "reject_admission = Inl (SimError kContinuousMotionInvalidInput ''contact_effect_admission'')"

definition require_contact_body :: "game_world \<Rightarrow> entity_id \<Rightarrow> unit result" where
  "require_contact_body w e = (if store_find (bodies w) e = None then reject_admission else Inr ())"

definition validate_contact_effect_admission :: "contact_effect_policy \<Rightarrow> unit result" where
  "validate_contact_effect_admission p = (if p \<noteq> kAnyTouch then reject_admission else Inr ())"

definition contact_effect_policy_name :: "contact_effect_policy \<Rightarrow> string" where
  "contact_effect_policy_name p = (if p = kAnyTouch then ''any_touch'' else ''closing_impact'')"

definition parse_contact_effect_policy :: "string \<Rightarrow> contact_effect_policy result" where
  "parse_contact_effect_policy name =
     (if name = ''closing_impact'' then Inr kClosingImpact
      else if name = ''any_touch'' then Inr kAnyTouch
      else reject_admission)"

definition policy_or :: "contact_effect_policy option \<Rightarrow> contact_effect_policy \<Rightarrow> contact_effect_policy" where
  "policy_or p fallback = (case p of None \<Rightarrow> fallback | Some q \<Rightarrow> q)"

definition assign_contact_effect_policy ::
  "entity_id \<Rightarrow> contact_effect_policy option \<Rightarrow> contact_effect_policy option \<Rightarrow> game_world \<Rightarrow> game_world result" where
  "assign_contact_effect_policy e instance_override archetype_default w =
     try_then (require_contact_body w e) (\<lambda>_.
     try_then (case store_find (admissions w) e of None \<Rightarrow> Inr ()
               | Some stored \<Rightarrow> validate_contact_effect_admission stored) (\<lambda>_.
       let p = policy_or instance_override (policy_or archetype_default kClosingImpact) in
       if p = kClosingImpact then Inr (w\<lparr>admissions := store_erase e (admissions w)\<rparr>)
       else try_then (insert_or_assign e p (admissions w)) (\<lambda>s. Inr (w\<lparr>admissions := s\<rparr>))))"

definition effective_contact_effect_policy :: "game_world \<Rightarrow> entity_id \<Rightarrow> contact_effect_policy result" where
  "effective_contact_effect_policy w e =
     try_then (require_contact_body w e) (\<lambda>_.
       case store_find (admissions w) e of
         None \<Rightarrow> Inr kClosingImpact
       | Some p \<Rightarrow> try_then (validate_contact_effect_admission p) (\<lambda>_. Inr p))"

fun project_policies :: "game_world \<Rightarrow> entity_id list \<Rightarrow> effect_policy_entry list result" where
  "project_policies w [] = Inr []"
| "project_policies w (e # es) =
     try_then (effective_contact_effect_policy w e) (\<lambda>p.
     try_then (project_policies w es) (\<lambda>ps. Inr (\<lparr>policy_entity = e, policy_value = p\<rparr> # ps)))"

definition project_contact_effect_policies :: "game_world \<Rightarrow> effect_policy_entry list result" where
  "project_contact_effect_policies w = project_policies w (store_ids (admissions w))"

section \<open>Responses\<close>

record contact_response =
  contact_bodies :: "(motion_body_result \<times> motion_body_result) option"
  contact_events :: "world_event list"

definition contact_unchanged :: contact_response where
  "contact_unchanged = \<lparr>contact_bodies = None, contact_events = []\<rparr>"

definition contact_response_create ::
  "motion_body_result \<Rightarrow> motion_body_result \<Rightarrow> world_event list \<Rightarrow> contact_response" where
  "contact_response_create a b es = \<lparr>contact_bodies = Some (a, b), contact_events = es\<rparr>"

definition replaces_bodies :: "contact_response \<Rightarrow> bool" where
  "replaces_bodies r \<longleftrightarrow> contact_bodies r \<noteq> None"

definition require_bodies :: "contact_response \<Rightarrow> (motion_body_result \<times> motion_body_result) result" where
  "require_bodies r =
     (case contact_bodies r of
        None \<Rightarrow> Inl (SimError kContactResponseBodiesAbsent ''contact_response.bodies'')
      | Some p \<Rightarrow> Inr p)"

definition first_result :: "contact_response \<Rightarrow> motion_body_result result" where
  "first_result r = try_then (require_bodies r) (\<lambda>p. Inr (fst p))"

definition second_result :: "contact_response \<Rightarrow> motion_body_result result" where
  "second_result r = try_then (require_bodies r) (\<lambda>p. Inr (snd p))"

definition continuing :: "physics_body \<Rightarrow> motion_body_result" where
  "continuing b = \<lparr>result_body = b, disposition = kContinue\<rparr>"

section \<open>Rows\<close>

definition kMaximumContactRuleNameLength :: nat where
  "kMaximumContactRuleNameLength = 64"

definition contact_rule_name_create :: "string \<Rightarrow> string result" where
  "contact_rule_name_create value =
     (if value = [] \<or> length value > kMaximumContactRuleNameLength \<or> \<not> is_snake_case_identity value
      then Inl (SimError kContactRuleNameInvalid ''contact_rule.name'') else Inr value)"

type_synonym contact_predicate = "game_world \<Rightarrow> entity_id \<Rightarrow> bool"
type_synonym contact_reply =
  "game_world \<Rightarrow> contact_subject \<Rightarrow> contact_subject \<Rightarrow> contact_observation \<Rightarrow> tick \<Rightarrow> contact_response system_result"

record contact_rule =
  rule_name :: string
  first_predicate :: contact_predicate
  second_predicate :: contact_predicate
  rule_reply :: contact_reply

definition contact_rule_create ::
  "string \<Rightarrow> contact_predicate option \<Rightarrow> contact_predicate option \<Rightarrow> contact_reply option \<Rightarrow> contact_rule result" where
  "contact_rule_create name first second reply =
     try_then (contact_rule_name_create name) (\<lambda>validated_name.
       case (first, second) of
         (Some p, Some q) \<Rightarrow>
           (case reply of
              None \<Rightarrow> Inl (SimError kContactRuleResponseMissing ''contact_rule.response'')
            | Some r \<Rightarrow> Inr \<lparr>rule_name = validated_name, first_predicate = p, second_predicate = q, rule_reply = r\<rparr>)
       | _ \<Rightarrow> Inl (SimError kContactRulePredicateMissing ''contact_rule.predicate''))"

text \<open>The event of a matched contact: the canonical pair, and the normal from its lower to its
  higher entity.\<close>

definition contact_event_of ::
  "contact_subject \<Rightarrow> contact_subject \<Rightarrow> pair_contact \<Rightarrow> string \<Rightarrow> world_event result" where
  "contact_event_of a b c name =
     try_then (candidate_pair_create (subject_entity a) (subject_entity b)) (\<lambda>pair.
     try_then (if subject_entity a < subject_entity b then Inr (contact_normal c)
               else vector_negate (contact_normal c)) (\<lambda>normal.
       Inr (ContactEvent pair normal (relative_normal_speed c) name)))"

section \<open>The table\<close>

type_synonym contact_table = "contact_rule list"

datatype contact_orientation = kCanonical | kSwapped

primrec contact_orientation_name :: "contact_orientation \<Rightarrow> string" where
  "contact_orientation_name kCanonical = ''canonical''"
| "contact_orientation_name kSwapped = ''swapped''"

definition contact_table_create :: "contact_rule list \<Rightarrow> contact_table result" where
  "contact_table_create rows =
     (if list_ex (\<lambda>i. list_ex (\<lambda>j. rule_name (rows ! j) = rule_name (rows ! i)) [0..<i]) [1..<length rows]
      then Inl (SimError kContactRuleTableDuplicateRuleName ''contact_rule_table.rows.name'')
      else Inr rows)"

definition contact_table_empty :: contact_table where
  "contact_table_empty = []"

definition row_matches :: "contact_rule \<Rightarrow> game_world \<Rightarrow> entity_id \<Rightarrow> entity_id \<Rightarrow> bool" where
  "row_matches row w a b \<longleftrightarrow> first_predicate row w a \<and> second_predicate row w b"

fun first_match_from ::
  "nat \<Rightarrow> contact_rule list \<Rightarrow> game_world \<Rightarrow> entity_id \<Rightarrow> entity_id \<Rightarrow> (nat \<times> contact_orientation) option" where
  "first_match_from i [] w a b = None"
| "first_match_from i (row # rows) w a b =
     (if row_matches row w a b then Some (i, kCanonical)
      else if row_matches row w b a then Some (i, kSwapped)
      else first_match_from (Suc i) rows w a b)"

definition first_match :: "contact_table \<Rightarrow> game_world \<Rightarrow> entity_id \<Rightarrow> entity_id \<Rightarrow> (nat \<times> contact_orientation) option" where
  "first_match table w a b = first_match_from 0 table w a b"

definition table_respond ::
  "contact_table \<Rightarrow> game_world \<Rightarrow> tick \<Rightarrow> contact_subject \<Rightarrow> contact_subject \<Rightarrow> contact_observation \<Rightarrow>
    world_event pair_motion_response system_result" where
  "table_respond table w now a b observation =
     (let result = \<lparr>response_first = continuing (subject_body a), response_second = continuing (subject_body b),
                    response_effects = []\<rparr> in
      case first_match table w (subject_entity a) (subject_entity b) of
        None \<Rightarrow> Inr result
      | Some (i, orientation) \<Rightarrow>
          let swapped = (orientation = kSwapped) in
          try_then (if swapped then raised (observation_reversed observation) else Inr observation) (\<lambda>row_observation.
          try_then (rule_reply (table ! i) w (if swapped then b else a) (if swapped then a else b) row_observation now)
            (\<lambda>response.
          try_then
            (if replaces_bodies response
             then
               try_then (raised (if swapped then second_result response else first_result response)) (\<lambda>x.
               try_then (raised (if swapped then first_result response else second_result response)) (\<lambda>y.
                 Inr (result\<lparr>response_first := x, response_second := y\<rparr>)))
             else Inr result)
            (\<lambda>result. Inr (result\<lparr>response_effects := contact_events response\<rparr>)))))"

section \<open>The built-in rows\<close>

definition body_is_dynamic :: contact_predicate where
  "body_is_dynamic w e \<longleftrightarrow> (case store_find (bodies w) e of None \<Rightarrow> False | Some b \<Rightarrow> \<not> is_static b)"

definition body_is_static :: contact_predicate where
  "body_is_static w e \<longleftrightarrow> (case store_find (bodies w) e of None \<Rightarrow> False | Some b \<Rightarrow> is_static b)"

definition body_is_variable_dynamic :: contact_predicate where
  "body_is_variable_dynamic w e \<longleftrightarrow>
     (case store_find (bodies w) e of None \<Rightarrow> False
      | Some b \<Rightarrow> \<not> is_static b \<and> \<not> body_has_baseline_physics b)"

text \<open>The two bodies after a collision equation, when the observation admits an impact.\<close>

definition exchanged ::
  "(physics_body \<Rightarrow> physics_body \<Rightarrow> pair_contact \<Rightarrow> pair_collision result) \<Rightarrow> physics_body \<Rightarrow> physics_body \<Rightarrow>
    pair_contact option \<Rightarrow> (physics_body \<times> physics_body) result" where
  "exchanged equation a b admitted =
     (case admitted of
        None \<Rightarrow> Inr (a, b)
      | Some c \<Rightarrow>
          try_then (equation a b c) (\<lambda>collision.
          try_then (with_velocity (first_velocity collision) a) (\<lambda>a'.
          try_then (with_velocity (second_velocity collision) b) (\<lambda>b'. Inr (a', b')))))"

definition pair_response ::
  "(physics_body \<times> physics_body) result \<Rightarrow> contact_subject \<Rightarrow> contact_subject \<Rightarrow> contact_observation \<Rightarrow> string \<Rightarrow>
    contact_response system_result" where
  "pair_response resolved a b observation name =
     raised (try_then resolved (\<lambda>(a', b').
       try_then (contact_rule_name_create name) (\<lambda>rule.
       try_then (contact_event_of a b (touch observation) rule) (\<lambda>event.
         Inr (contact_response_create (continuing a') (continuing b') [event])))))"

definition elastic_disc_response :: contact_reply where
  "elastic_disc_response w a b observation now =
     pair_response (exchanged resolve_player_pair_collision (subject_body a) (subject_body b) (impact observation))
       a b observation ''elastic_disc''"

definition variable_impulse_response :: contact_reply where
  "variable_impulse_response w a b observation now =
     pair_response (exchanged resolve_general_pair_collision (subject_body a) (subject_body b) (impact observation))
       a b observation ''variable_impulse''"

definition reflect_static_response :: contact_reply where
  "reflect_static_response w a b observation now =
     pair_response
       (case impact observation of None \<Rightarrow> Inr (subject_body a, subject_body b)
        | Some c \<Rightarrow>
            try_then (reflect_static_contact_velocity (body_velocity (subject_body a)) (contact_normal c)) (\<lambda>v.
            try_then (with_velocity v (subject_body a)) (\<lambda>a'. Inr (a', subject_body b))))
       a b observation ''reflect_static''"

definition built_in_rows :: "contact_rule list result" where
  "built_in_rows =
     try_then (contact_rule_create ''variable_impulse'' (Some body_is_variable_dynamic) (Some body_is_dynamic)
                 (Some variable_impulse_response)) (\<lambda>variable_row.
     try_then (contact_rule_create ''elastic_disc'' (Some body_is_dynamic) (Some body_is_dynamic)
                 (Some elastic_disc_response)) (\<lambda>elastic_row.
     try_then (contact_rule_create ''reflect_static'' (Some body_is_dynamic) (Some body_is_static)
                 (Some reflect_static_response)) (\<lambda>static_row.
       Inr [variable_row, elastic_row, static_row])))"

definition contact_table_built_in :: "contact_table result" where
  "contact_table_built_in = try_then built_in_rows contact_table_create"

definition with_rows_above_built_in :: "contact_rule list \<Rightarrow> contact_table result" where
  "with_rows_above_built_in rows =
     try_then contact_table_built_in (\<lambda>built_in. contact_table_create (rows @ built_in))"

section \<open>The contract of a response\<close>

text \<open>What the solver requires of a replacement: the motion of the same body.\<close>

definition moves_only :: "physics_body \<Rightarrow> physics_body \<Rightarrow> bool" where
  "moves_only a b \<longleftrightarrow> b = a\<lparr>body_velocity := body_velocity b, body_acceleration := body_acceleration b\<rparr>"

lemma moves_only_refl [simp]: "moves_only b b"
  by (simp add: moves_only_def)

lemma moves_only_velocity [simp]: "moves_only a (b\<lparr>body_velocity := v\<rparr>) \<longleftrightarrow> moves_only a b"
  by (cases a; cases b) (simp add: moves_only_def)

lemma moves_only_acceleration [simp]: "moves_only a (b\<lparr>body_acceleration := v\<rparr>) \<longleftrightarrow> moves_only a b"
  by (cases a; cases b) (simp add: moves_only_def)

lemma moves_only_trans: "moves_only a b \<Longrightarrow> moves_only b c \<Longrightarrow> moves_only a c"
  by (cases a; cases b; cases c) (simp add: moves_only_def)

lemma with_velocity_moves: "with_velocity v b = Inr b' \<Longrightarrow> moves_only a b \<Longrightarrow> moves_only a b'"
  by (auto dest!: wither_Inr)

lemma with_acceleration_moves: "with_acceleration v b = Inr b' \<Longrightarrow> moves_only a b \<Longrightarrow> moves_only a b'"
  by (auto dest!: wither_Inr)

definition moves_pair :: "contact_subject \<Rightarrow> contact_subject \<Rightarrow> motion_body_result \<Rightarrow> motion_body_result \<Rightarrow> bool" where
  "moves_pair a b x y \<longleftrightarrow> moves_only (subject_body a) (result_body x) \<and> moves_only (subject_body b) (result_body y)"

locale contact_responder =
  fixes reply :: contact_reply
  assumes moves_bodies: "reply w a b observation now = Inr r \<Longrightarrow> contact_bodies r = Some (x, y) \<Longrightarrow> moves_pair a b x y"
begin

lemma results_move:
  assumes "reply w a b observation now = Inr r" and "first_result r = Inr x" and "second_result r = Inr y"
  shows "moves_pair a b x y"
  using assms moves_bodies by (auto simp: first_result_def second_result_def require_bodies_def split: option.splits)

end

text \<open>A table of such rows answers every pair with motions of its own two bodies, whichever row and
  orientation matched.\<close>

definition responsible :: "contact_table \<Rightarrow> bool" where
  "responsible table \<longleftrightarrow> (\<forall>row\<in>set table. contact_responder (rule_reply row))"

lemma first_match_from_within:
  "first_match_from i rows w a b = Some (k, side) \<Longrightarrow> i \<le> k \<and> k < i + length rows"
  by (induction i rows w a b rule: first_match_from.induct) (auto split: if_splits)

lemma first_match_from_row:
  "first_match_from i rows w a b = Some (k, side) \<Longrightarrow>
     row_matches (rows ! (k - i)) w (if side = kSwapped then b else a) (if side = kSwapped then a else b)"
proof (induction i rows w a b rule: first_match_from.induct)
  case (2 i row rows w a b)
  then show ?case
    using first_match_from_within [of "Suc i" rows w a b k side]
    by (auto split: if_splits simp: nth_Cons')
qed simp

lemma table_respond_moves:
  assumes "responsible table" and "table_respond table w now a b observation = Inr r"
  shows "moves_pair a b (response_first r) (response_second r)"
proof (cases "first_match table w (subject_entity a) (subject_entity b)")
  case None
  then show ?thesis using assms(2) by (auto simp: table_respond_def continuing_def moves_pair_def)
next
  case (Some p)
  obtain k side where p: "p = (k, side)" by (cases p)
  have "k < length table" using Some first_match_from_within [of 0 table] p by (auto simp: first_match_def)
  then have row: "contact_responder (rule_reply (table ! k))"
    using assms(1) by (simp add: responsible_def)
  note rest = assms(2) [unfolded table_respond_def Some p option.case prod.case Let_def]
  show ?thesis
    using rest row
    by (cases side) (auto simp: try_then_Inr_iff continuing_def moves_pair_def
        dest: contact_responder.results_move split: if_splits)
qed

section \<open>The built-in rows keep the contract\<close>

lemma exchanged_moves:
  "exchanged equation (subject_body a) (subject_body b) c = Inr (x, y) \<Longrightarrow> moves_pair a b (continuing x) (continuing y)"
  by (auto simp: exchanged_def try_then_Inr_iff moves_pair_def continuing_def split: option.splits
      intro: with_velocity_moves)

lemma pair_response_moves:
  assumes "pair_response resolved a b observation name = Inr r" and "contact_bodies r = Some (x, y)"
    and "\<And>a' b'. resolved = Inr (a', b') \<Longrightarrow> moves_pair a b (continuing a') (continuing b')"
  shows "moves_pair a b x y"
  using assms by (auto simp: pair_response_def try_then_Inr_iff contact_response_create_def)

interpretation elastic: contact_responder elastic_disc_response
  by unfold_locales (auto simp: elastic_disc_response_def intro: pair_response_moves exchanged_moves)

interpretation impulse: contact_responder variable_impulse_response
  by unfold_locales (auto simp: variable_impulse_response_def intro: pair_response_moves exchanged_moves)

interpretation reflecting: contact_responder reflect_static_response
  by unfold_locales
    (auto simp: reflect_static_response_def moves_pair_def continuing_def try_then_Inr_iff
      split: option.splits elim!: pair_response_moves [unfolded moves_pair_def continuing_def]
      dest!: with_velocity_moves [OF _ moves_only_refl])

definition variable_impulse_row :: contact_rule where
  "variable_impulse_row = \<lparr>rule_name = ''variable_impulse'', first_predicate = body_is_variable_dynamic,
     second_predicate = body_is_dynamic, rule_reply = variable_impulse_response\<rparr>"

definition elastic_disc_row :: contact_rule where
  "elastic_disc_row = \<lparr>rule_name = ''elastic_disc'', first_predicate = body_is_dynamic,
     second_predicate = body_is_dynamic, rule_reply = elastic_disc_response\<rparr>"

definition reflect_static_row :: contact_rule where
  "reflect_static_row = \<lparr>rule_name = ''reflect_static'', first_predicate = body_is_dynamic,
     second_predicate = body_is_static, rule_reply = reflect_static_response\<rparr>"

lemmas rule_name_rules = contact_rule_name_create_def kMaximumContactRuleNameLength_def
  is_snake_case_identity_def is_identity_char_def is_lower_letter_def

lemma built_in_table:
  "contact_table_built_in = Inr [variable_impulse_row, elastic_disc_row, reflect_static_row]"
  by (simp add: contact_table_built_in_def built_in_rows_def contact_rule_create_def rule_name_rules less_char_def
      less_eq_char_def of_char_def contact_table_create_def variable_impulse_row_def elastic_disc_row_def
      reflect_static_row_def upt_rec)

lemma built_in_responsible: "responsible [variable_impulse_row, elastic_disc_row, reflect_static_row]"
  by (simp add: responsible_def variable_impulse_row_def elastic_disc_row_def reflect_static_row_def
      elastic.contact_responder_axioms impulse.contact_responder_axioms reflecting.contact_responder_axioms)

lemma above_built_in_responsible:
  assumes "with_rows_above_built_in rows = Inr table" and "responsible rows"
  shows "responsible table"
  using assms built_in_responsible
  by (auto simp: with_rows_above_built_in_def built_in_table contact_table_create_def responsible_def split: if_splits)

section \<open>The solver accepts them\<close>

definition numbered_radius :: "physics_body \<Rightarrow> bool" where
  "numbered_radius b \<longleftrightarrow> feq (body_radius b) (body_radius b)"

lemma same_frame_scalars: "same_frame a b \<Longrightarrow> valid_scalars b = valid_scalars a \<and> numbered_radius b = numbered_radius a"
  by (cases a; cases b) (simp add: same_frame_def valid_scalars_def numbered_radius_def)

lemma with_motion_valid:
  "valid_scalars b \<Longrightarrow> with_motion b r = Inr (b\<lparr>body_velocity := body_velocity r, body_acceleration := body_acceleration r\<rparr>)"
  by (simp add: with_motion_def)

lemma add_path_room:
  assumes "body_at s i t = Inr c" and "length (motion_paths s) < limit_paths (solver_limits s)"
  shows "\<exists>ps. add_path i t s = Inr (s\<lparr>motion_paths := ps\<rparr>) \<and> length ps \<le> Suc (length (motion_paths s))"
proof (cases "is_static (epoch_motion (epochs s ! i)) \<or> t = epoch_anchor (epochs s ! i)")
  case True
  then have "add_path i t s = Inr (s\<lparr>motion_paths := motion_paths s\<rparr>)" by (simp add: add_path_def Let_def)
  then show ?thesis by fastforce
next
  case False
  then show ?thesis using assms by (auto simp: add_path_def Let_def require_motion_budget_def)
qed

definition keeps_elsewhere :: "nat \<Rightarrow> solver \<Rightarrow> solver \<Rightarrow> bool" where
  "keeps_elsewhere i s s' \<longleftrightarrow> (\<forall>j. j \<noteq> i \<longrightarrow> epochs s' ! j = epochs s ! j) \<and> solver_now s' = solver_now s \<and>
     solver_limits s' = solver_limits s \<and> solver_seconds s' = solver_seconds s"

lemma keeps_elsewhere_body_at: "keeps_elsewhere i s s' \<Longrightarrow> j \<noteq> i \<Longrightarrow> body_at s' j t = body_at s j t"
  by (simp add: keeps_elsewhere_def body_at_def Let_def)

lemma replace_body_accepts:
  assumes c: "body_at s i (solver_now s) = Inr c"
    and ok: "valid_scalars (epoch_motion (epochs s ! i))" "numbered_radius (epoch_motion (epochs s ! i))"
    and moves: "moves_only (subject_body c) (result_body r)"
    and room: "length (motion_paths s) < limit_paths (solver_limits s)"
  shows "\<exists>s'. replace_body i r s = Inr s' \<and> length (motion_paths s') \<le> Suc (length (motion_paths s)) \<and> keeps_elsewhere i s s'"
proof -
  have "same_frame (epoch_motion (epochs s ! i)) (subject_body c)" using body_at_cases(3) [OF c] by simp
  then have scalars: "valid_scalars (subject_body c)" "numbered_radius (subject_body c)"
    using ok same_frame_scalars by blast+
  have expected: "with_motion (subject_body c) (result_body r) = Inr (result_body r)"
    using moves with_motion_valid [OF scalars(1)] by (simp add: moves_only_def)
  have "body_radius (result_body r) = body_radius (subject_body c)"
    using moves unfolding moves_only_def by (metis physics_body.select_convs(4) physics_body.surjective physics_body.update_convs(2,3))
  then have same: "same_body (result_body r) (result_body r)"
    using scalars(2) by (simp add: same_body_def numbered_radius_def)
  obtain ps where path: "add_path i (solver_now s) s = Inr (s\<lparr>motion_paths := ps\<rparr>)" "length ps \<le> Suc (length (motion_paths s))"
    using add_path_room [OF c room] by blast
  show ?thesis
    using same path with_motion_valid [OF ok(1)]
    by (simp add: replace_body_def c expected Let_def keeps_elsewhere_def)
qed


section \<open>Properties\<close>

text \<open>Of two bodies that meet, the built-in rows leave nothing to chance and nothing to the order of
  the ids: two static bodies match no row, a static one is bounced off by the other, and two dynamic
  bodies exchange momentum by the general equation exactly when one of them is not a baseline body.
  The orientation is swapped only where the row's own first predicate needs it.\<close>

theorem built_in_rows_partition_the_pairs:
  assumes "contact_table_built_in = Inr table"
    and "store_find (bodies w) e = Some a" and "store_find (bodies w) f = Some b"
  shows "first_match table w e f =
    (if is_static a \<and> is_static b then None
     else if is_static b then Some (2, kCanonical)
     else if is_static a then Some (2, kSwapped)
     else if \<not> body_has_baseline_physics a then Some (0, kCanonical)
     else if \<not> body_has_baseline_physics b then Some (0, kSwapped)
     else Some (1, kCanonical))"
  using assms
  by (auto simp: built_in_table first_match_def row_matches_def variable_impulse_row_def elastic_disc_row_def
      reflect_static_row_def body_is_dynamic_def body_is_static_def body_is_variable_dynamic_def)

theorem built_in_rows_partition_the_pairs_witness:
  "first_match [variable_impulse_row, elastic_disc_row, reflect_static_row]
     (world_empty []\<lparr>bodies := [(EntityId 3, leaving_body 2), (EntityId 4, (leaving_body 0)\<lparr>is_static := True\<rparr>)]\<rparr>)
     (EntityId 4) (EntityId 3) = Some (2, kSwapped)"
  using built_in_rows_partition_the_pairs [OF built_in_table,
      of "world_empty []\<lparr>bodies := [(EntityId 3, leaving_body 2), (EntityId 4, (leaving_body 0)\<lparr>is_static := True\<rparr>)]\<rparr>"
        "EntityId 4" "(leaving_body 0)\<lparr>is_static := True\<rparr>" "EntityId 3" "leaving_body 2"]
  by (simp add: world_empty_def store_find_Cons leaving_body_def less_entity_id_def)

lemma policy_cases: "p \<noteq> kClosingImpact \<longleftrightarrow> p = kAnyTouch"
  by (cases p) simp_all

lemma assigned_policy_is_read_back:
  assumes "valid_store (admissions w)" and "assign_contact_effect_policy e own archetype w = Inr w'"
  shows "effective_contact_effect_policy w' e = Inr (policy_or own (policy_or archetype kClosingImpact))"
    and "f \<noteq> e \<Longrightarrow> effective_contact_effect_policy w' f = effective_contact_effect_policy w f"
  using assms
  by (auto simp: assign_contact_effect_policy_def effective_contact_effect_policy_def Let_def try_then_Inr_iff
      require_contact_body_def insert_or_assign_valid valid_store_def find_put_entry find_store_erase
      reject_admission_def validate_contact_effect_admission_def policy_cases split: if_splits option.splits)

lemma policy_names_parse:
  "parse_contact_effect_policy name = Inr p \<longleftrightarrow> name = contact_effect_policy_name p"
  by (cases p) (auto simp: parse_contact_effect_policy_def contact_effect_policy_name_def reject_admission_def)

text \<open>The policy an author writes for a body comes back under the same name. A text that parses,
  assigned to a body as its own policy, is what the effective policy of that body prints; the policy
  of every other body is unchanged.\<close>

theorem authored_contact_policy_round_trips:
  assumes "parse_contact_effect_policy name = Inr p" and "valid_store (admissions w)"
    and "assign_contact_effect_policy e (Some p) archetype w = Inr w'"
  shows "map_sum id contact_effect_policy_name (effective_contact_effect_policy w' e) = Inr name \<and>
    (\<forall>f. f \<noteq> e \<longrightarrow> effective_contact_effect_policy w' f = effective_contact_effect_policy w f)"
  using assigned_policy_is_read_back [OF assms(2,3)] assms(1) by (simp add: policy_names_parse policy_or_def)

theorem authored_contact_policy_round_trips_witness:
  "map_sum id contact_effect_policy_name
     (effective_contact_effect_policy
        (world_empty []\<lparr>bodies := [(EntityId 3, leaving_body 2)], admissions := [(EntityId 3, kAnyTouch)]\<rparr>) (EntityId 3))
   = Inr ''any_touch''"
  using authored_contact_policy_round_trips [of "''any_touch''" kAnyTouch
      "world_empty []\<lparr>bodies := [(EntityId 3, leaving_body 2)]\<rparr>" "EntityId 3" None
      "world_empty []\<lparr>bodies := [(EntityId 3, leaving_body 2)], admissions := [(EntityId 3, kAnyTouch)]\<rparr>"]
  by (simp add: policy_names_parse contact_effect_policy_name_def assign_contact_effect_policy_def require_contact_body_def
      world_empty_def store_find_Cons valid_store_def insert_or_assign_def kMaximumEntityCount_def policy_or_def
      store_lower_bound_def)

end
