(* ===== verification/Guarded_Pair.thy ===== *)
theory Guarded_Pair
  imports Contact_Rules
begin

text \<open>
  The one contact rule of the shipped modes (src/src/gameplay/shared/guarded_pair_contact.cpp and
  guarded_pair_contact_rule.cpp): a lethal touch, a shielded or perfect defence, the separation of
  the pair and the charge candidates, composed from facts frozen at the start of the kernel.
\<close>

section \<open>Facts\<close>

datatype guard_state = kNoGuard | kOrdinaryGuard | kPerfectGuard

record pair_guard_facts =
  first_guard :: guard_state
  second_guard :: guard_state

record pair_charge_facts =
  first_activation :: "tick option"
  second_activation :: "tick option"

datatype guarded_consequence =
    GuardedPairContactFact world_event
  | GuardedPairEliminationFact entity_id
  | GuardedPairStunFact entity_id
  | GuardedChargeCandidate charge_contact_candidate

definition is_guarded :: "guard_state \<Rightarrow> bool" where
  "is_guarded g \<longleftrightarrow> g \<noteq> kNoGuard"

definition require_guard_facts :: "contact_subject \<Rightarrow> guard_state \<Rightarrow> unit result" where
  "require_guard_facts subject g =
     (if is_static (subject_body subject) \<and> is_guarded g
      then Inl (SimError kGuardedPairFactsInvalid ''guarded_pair.static_body'') else Inr ())"

definition body_is_lethal_hazard :: contact_predicate where
  "body_is_lethal_hazard w e \<longleftrightarrow> phase (world_match w) = kRunning \<and> store_find (lethals w) e \<noteq> None"

definition body_is_player_driven :: contact_predicate where
  "body_is_player_driven w e \<longleftrightarrow> store_find (controllables w) e \<noteq> None"

section \<open>Separation\<close>

definition motion_velocity :: "physics_body \<Rightarrow> vector2" where
  "motion_velocity b = (if is_static b then zero_vector else body_velocity b)"

definition normal_speed :: "vector2 \<Rightarrow> vector2 \<Rightarrow> double" where
  "normal_speed v n = fadd (fmul (fx v) (fx n)) (fmul (fy v) (fy n))"

definition pair_normal_speed :: "physics_body \<Rightarrow> physics_body \<Rightarrow> vector2 \<Rightarrow> double" where
  "pair_normal_speed a b n =
     fadd (fmul (fsub (fx (motion_velocity b)) (fx (motion_velocity a))) (fx n))
          (fmul (fsub (fy (motion_velocity b)) (fy (motion_velocity a))) (fy n))"

definition non_closing :: "double \<Rightarrow> bool" where
  "non_closing speed \<longleftrightarrow> greater_than_or_approximately_equal speed (Finite 0) kVelocityTolerance"

definition fail_separation :: "'a result" where
  "fail_separation = Inl (SimError kGuardedPairSeparationFailed ''guarded_pair.separation'')"

definition require_finite_correction :: "double \<Rightarrow> double result" where
  "require_finite_correction value = (if is_finite value then Inr value else fail_separation)"

definition quarter_received_delta :: "vector2 \<Rightarrow> vector2 \<Rightarrow> vector2 result" where
  "quarter_received_delta before ordinary =
     vector_create (fadd (fx before) (fmul (fsub (fx ordinary) (fx before)) (Finite (1 / 4))))
                   (fadd (fy before) (fmul (fsub (fy ordinary) (fy before)) (Finite (1 / 4))))"

definition correction_weight :: "physics_body \<Rightarrow> bool \<Rightarrow> double result" where
  "correction_weight b stopped =
     (if is_static b \<or> stopped then Inr (Finite 0)
      else require_finite_correction (fdiv (Finite 1) (Finite (body_mass b))))"

text \<open>The body pushed along the normal, unless it has no weight in the correction.\<close>

definition corrected ::
  "(double \<Rightarrow> double \<Rightarrow> double) \<Rightarrow> physics_body \<Rightarrow> double \<Rightarrow> double \<Rightarrow> vector2 \<Rightarrow> physics_body result" where
  "corrected f b weight delta n =
     (if feq weight (Finite 0) then Inr b
      else try_then (vector_create (f (fx (body_velocity b)) (fmul delta (fx n)))
                                   (f (fy (body_velocity b)) (fmul delta (fy n)))) (\<lambda>v.
           with_velocity v b))"

definition separate_pair ::
  "physics_body \<Rightarrow> physics_body \<Rightarrow> bool \<Rightarrow> bool \<Rightarrow> vector2 \<Rightarrow> (physics_body \<times> physics_body) result" where
  "separate_pair a b first_stopped second_stopped n =
     (let speed = pair_normal_speed a b n in
      if non_closing speed then Inr (a, b)
      else
        try_then (correction_weight a first_stopped) (\<lambda>first_weight.
        try_then (correction_weight b second_stopped) (\<lambda>second_weight.
        try_then (require_finite_correction (fadd first_weight second_weight)) (\<lambda>weight_sum.
        try_then (require_finite_correction (fadd (fmul (fx n) (fx n)) (fmul (fy n) (fy n)))) (\<lambda>normal_squared.
        try_then (require_finite_correction (fmul weight_sum normal_squared)) (\<lambda>denominator.
          if fle denominator (Finite 0) then fail_separation
          else
            try_then (require_finite_correction (fdiv (fneg speed) denominator)) (\<lambda>impulse.
            try_then (require_finite_correction (fmul impulse first_weight)) (\<lambda>first_delta.
            try_then (require_finite_correction (fmul impulse second_weight)) (\<lambda>second_delta.
            try_then (corrected fsub a first_weight first_delta n) (\<lambda>a'.
            try_then (corrected fadd b second_weight second_delta n) (\<lambda>b'.
              let residual = pair_normal_speed a' b' n in
              if \<not> is_finite residual \<or> \<not> non_closing residual then fail_separation
              else Inr (a', b'))))))))))))"

text \<open>The recipients of a fact, in ascending order of entity.\<close>

definition recipients :: "entity_id \<Rightarrow> bool \<Rightarrow> entity_id \<Rightarrow> bool \<Rightarrow> entity_id list" where
  "recipients a include_a b include_b =
     (let xs = (if include_a then [a] else []); ys = (if include_b then [b] else []) in
      if a < b then xs @ ys else ys @ xs)"

section \<open>The composition\<close>

definition eliminates :: "game_world \<Rightarrow> bool \<Rightarrow> guard_state \<Rightarrow> entity_id \<Rightarrow> entity_id \<Rightarrow> bool" where
  "eliminates w eligible guard victim hazard \<longleftrightarrow>
     eligible \<and> \<not> is_guarded guard \<and> body_is_player_driven w victim \<and> body_is_lethal_hazard w hazard"

definition lethal_outcome ::
  "contact_subject \<Rightarrow> contact_subject \<Rightarrow> contact_observation \<Rightarrow> bool \<Rightarrow> bool \<Rightarrow>
    guarded_consequence pair_motion_response result" where
  "lethal_outcome a b observation first_eliminated second_eliminated =
     try_then (contact_rule_name_create ''lethal_hazard'') (\<lambda>rule.
     try_then (contact_event_of a b (touch observation) rule) (\<lambda>event.
       Inr \<lparr>response_first = \<lparr>result_body = subject_body a,
              disposition = (if first_eliminated then kTerminate else kContinue)\<rparr>,
            response_second = \<lparr>result_body = subject_body b,
              disposition = (if second_eliminated then kTerminate else kContinue)\<rparr>,
            response_effects =
              map GuardedPairEliminationFact
                (recipients (subject_entity a) first_eliminated (subject_entity b) second_eliminated)
              @ [GuardedPairContactFact event]\<rparr>))"

text \<open>The collision a pair of any bodies has without a guard.\<close>

definition reflected_unless_static :: "physics_body \<Rightarrow> pair_contact \<Rightarrow> physics_body result" where
  "reflected_unless_static b c =
     (if is_static b then Inr b
      else try_then (reflect_static_contact_velocity (body_velocity b) (contact_normal c)) (\<lambda>v.
           with_velocity v b))"

definition ordinary_bodies ::
  "physics_body \<Rightarrow> physics_body \<Rightarrow> pair_contact \<Rightarrow> (physics_body \<times> physics_body) result" where
  "ordinary_bodies a b c =
     (if \<not> is_static a \<and> \<not> is_static b
      then exchanged
             (if body_has_baseline_physics a \<and> body_has_baseline_physics b
              then resolve_player_pair_collision else resolve_general_pair_collision) a b (Some c)
      else if \<not> non_closing (relative_normal_speed c)
      then try_then (reflected_unless_static a c) (\<lambda>a'.
           try_then (reflected_unless_static b c) (\<lambda>b'. Inr (a', b')))
      else Inr (a, b))"

definition defended :: "guard_state \<Rightarrow> physics_body \<Rightarrow> physics_body \<Rightarrow> physics_body result" where
  "defended g before ordinary =
     (if is_guarded g
      then try_then (quarter_received_delta (body_velocity before) (body_velocity ordinary)) (\<lambda>v.
           with_velocity v ordinary)
      else Inr ordinary)"

definition stopped_if :: "bool \<Rightarrow> physics_body \<Rightarrow> physics_body result" where
  "stopped_if stunned b =
     (if stunned then try_then (with_velocity zero_vector b) (with_acceleration zero_vector) else Inr b)"

definition first_is_stunned :: "physics_body \<Rightarrow> pair_contact \<Rightarrow> pair_guard_facts \<Rightarrow> bool" where
  "first_is_stunned a c guards \<longleftrightarrow>
     second_guard guards = kPerfectGuard \<and> \<not> is_static a \<and> \<not> non_closing (relative_normal_speed c) \<and>
     fless kVelocityTolerance (normal_speed (motion_velocity a) (contact_normal c))"

definition second_is_stunned :: "physics_body \<Rightarrow> pair_contact \<Rightarrow> pair_guard_facts \<Rightarrow> bool" where
  "second_is_stunned b c guards \<longleftrightarrow>
     first_guard guards = kPerfectGuard \<and> \<not> is_static b \<and> \<not> non_closing (relative_normal_speed c) \<and>
     fless (normal_speed (motion_velocity b) (contact_normal c)) (fneg kVelocityTolerance)"

definition impact_bodies ::
  "physics_body \<Rightarrow> physics_body \<Rightarrow> pair_contact \<Rightarrow> pair_guard_facts \<Rightarrow> (physics_body \<times> physics_body) result" where
  "impact_bodies a b c guards =
     try_then (ordinary_bodies a b c) (\<lambda>(a1, b1).
     try_then (defended (first_guard guards) a a1) (\<lambda>a2.
     try_then (defended (second_guard guards) b b1) (\<lambda>b2.
     try_then (stopped_if (first_is_stunned a c guards) a2) (\<lambda>a3.
     try_then (stopped_if (second_is_stunned b c guards) b2) (\<lambda>b3.
       if is_guarded (first_guard guards) \<or> is_guarded (second_guard guards)
       then separate_pair a3 b3 (first_is_stunned a c guards) (second_is_stunned b c guards) (contact_normal c)
       else Inr (a3, b3))))))"

definition charge_hit :: "entity_id \<Rightarrow> entity_id \<Rightarrow> tick option \<Rightarrow> bool \<Rightarrow> guard_state \<Rightarrow> guarded_consequence list" where
  "charge_hit attacking attacked activation closing_in target_guard =
     (case activation of
        Some t \<Rightarrow>
          if closing_in
          then [GuardedChargeCandidate \<lparr>attacker = attacking, target = attacked, attack_activation_tick = t,
                  contact_outcome = (if is_guarded target_guard then kBlockedByShield else kSuccessfulHit)\<rparr>]
          else []
      | None \<Rightarrow> [])"

definition charge_candidates ::
  "game_world \<Rightarrow> contact_subject \<Rightarrow> contact_subject \<Rightarrow> contact_observation \<Rightarrow> pair_contact \<Rightarrow> pair_guard_facts \<Rightarrow>
    pair_charge_facts \<Rightarrow> guarded_consequence list" where
  "charge_candidates w a b observation c guards activations =
     (if \<not> non_closing (relative_normal_speed c) \<and> phase (world_match w) = kRunning \<and>
         \<not> is_static (subject_body a) \<and> \<not> is_static (subject_body b) \<and>
         body_is_player_driven w (subject_entity a) \<and> body_is_player_driven w (subject_entity b)
      then
        let first_hit = charge_hit (subject_entity a) (subject_entity b) (first_activation activations)
              (first_effect_eligible observation \<and>
               fless kVelocityTolerance (normal_speed (body_velocity (subject_body a)) (contact_normal c)))
              (second_guard guards);
            second_hit = charge_hit (subject_entity b) (subject_entity a) (second_activation activations)
              (second_effect_eligible observation \<and>
               fless (normal_speed (body_velocity (subject_body b)) (contact_normal c)) (fneg kVelocityTolerance))
              (first_guard guards)
        in if subject_entity a < subject_entity b then first_hit @ second_hit else second_hit @ first_hit
      else [])"

definition guarded_contact_fact :: "contact_subject \<Rightarrow> contact_subject \<Rightarrow> contact_observation \<Rightarrow> guarded_consequence result" where
  "guarded_contact_fact a b observation =
     try_then (contact_rule_name_create ''guarded_pair'') (\<lambda>rule.
     try_then (contact_event_of a b (touch observation) rule) (\<lambda>event. Inr (GuardedPairContactFact event)))"

definition untouched_outcome :: "contact_subject \<Rightarrow> contact_subject \<Rightarrow> guarded_consequence list \<Rightarrow> guarded_consequence pair_motion_response" where
  "untouched_outcome a b effects =
     \<lparr>response_first = continuing (subject_body a), response_second = continuing (subject_body b),
      response_effects = effects\<rparr>"

definition impact_outcome ::
  "game_world \<Rightarrow> contact_subject \<Rightarrow> contact_subject \<Rightarrow> contact_observation \<Rightarrow> pair_contact \<Rightarrow> pair_guard_facts \<Rightarrow>
    pair_charge_facts \<Rightarrow> guarded_consequence pair_motion_response result" where
  "impact_outcome w a b observation c guards activations =
     try_then (impact_bodies (subject_body a) (subject_body b) c guards) (\<lambda>(a', b').
     try_then (guarded_contact_fact a b observation) (\<lambda>fact.
       Inr \<lparr>response_first = continuing a', response_second = continuing b',
            response_effects =
              map GuardedPairStunFact
                (recipients (subject_entity a) (first_is_stunned (subject_body a) c guards)
                            (subject_entity b) (second_is_stunned (subject_body b) c guards))
              @ charge_candidates w a b observation c guards activations @ [fact]\<rparr>))"

definition compose_guarded_pair ::
  "game_world \<Rightarrow> contact_subject \<Rightarrow> contact_subject \<Rightarrow> contact_observation \<Rightarrow> pair_guard_facts \<Rightarrow> pair_charge_facts \<Rightarrow>
    guarded_consequence pair_motion_response result" where
  "compose_guarded_pair w a b observation guards activations =
     try_then (require_guard_facts a (first_guard guards)) (\<lambda>_.
     try_then (require_guard_facts b (second_guard guards)) (\<lambda>_.
       if subject_entity a = subject_entity b
       then Inl (SimError kGuardedPairFactsInvalid ''guarded_pair.subjects'')
       else if \<not> is_contact (touch observation) \<or>
         (impact observation = None \<and> \<not> first_effect_eligible observation \<and> \<not> second_effect_eligible observation)
       then Inr (untouched_outcome a b [])
       else
         let first_eliminated = eliminates w (second_effect_eligible observation) (first_guard guards)
               (subject_entity a) (subject_entity b);
             second_eliminated = eliminates w (first_effect_eligible observation) (second_guard guards)
               (subject_entity b) (subject_entity a)
         in if first_eliminated \<or> second_eliminated
            then lethal_outcome a b observation first_eliminated second_eliminated
            else
              (case impact observation of
                 None \<Rightarrow> try_then (guarded_contact_fact a b observation) (\<lambda>fact. Inr (untouched_outcome a b [fact]))
               | Some c \<Rightarrow> impact_outcome w a b observation c guards activations)))"

section \<open>The rule\<close>

definition guard_state_of :: "game_world \<Rightarrow> contact_subject \<Rightarrow> tick \<Rightarrow> guard_state" where
  "guard_state_of w subject now =
     (if is_static (subject_body subject) then kNoGuard
      else
        case store_find (shields w) (subject_entity subject) of
          None \<Rightarrow> kNoGuard
        | Some sh \<Rightarrow>
            if window_contains (perfect_window sh) now then kPerfectGuard
            else if window_contains (shield_window sh) now then kOrdinaryGuard
            else kNoGuard)"

definition captured_parry_duration_ticks :: "game_world \<Rightarrow> contact_subject \<Rightarrow> u64 system_result" where
  "captured_parry_duration_ticks w defender =
     (case store_find (shields w) (subject_entity defender) of
        None \<Rightarrow> Inl (Gameplay kGuardedPairStunDefenderWithoutShield ''guarded_pair_contact_rule.stun.defender'')
      | Some sh \<Rightarrow> Inr (parry_stun_duration sh))"

definition charge_activation_of :: "game_world \<Rightarrow> contact_subject \<Rightarrow> tick \<Rightarrow> tick option" where
  "charge_activation_of w subject now =
     (if is_static (subject_body subject) \<or> \<not> body_is_player_driven w (subject_entity subject) \<or>
         input_is_locked w (subject_entity subject) now
      then None
      else
        case store_find (charges w) (subject_entity subject) of
          None \<Rightarrow> None
        | Some c \<Rightarrow>
            if window_contains (charge_active_window c) now then Some (activation_tick (charge_cooldown_window c)) else None)"

definition body_has_contact_presence :: contact_predicate where
  "body_has_contact_presence w e \<longleftrightarrow> store_find (bodies w) e \<noteq> None"

primrec world_event_of ::
  "game_world \<Rightarrow> contact_subject \<Rightarrow> contact_subject \<Rightarrow> guarded_consequence \<Rightarrow> world_event system_result" where
  "world_event_of w a b (GuardedPairContactFact event) = Inr event"
| "world_event_of w a b (GuardedPairEliminationFact e) = Inr (EliminationEvent e)"
| "world_event_of w a b (GuardedChargeCandidate c) = Inr (ChargeContactCandidate c)"
| "world_event_of w a b (GuardedPairStunFact e) =
     try_then (captured_parry_duration_ticks w (if e = subject_entity a then b else a)) (\<lambda>duration.
       Inr (StunRequest e duration))"

fun world_events_of ::
  "game_world \<Rightarrow> contact_subject \<Rightarrow> contact_subject \<Rightarrow> guarded_consequence list \<Rightarrow> world_event list system_result" where
  "world_events_of w a b [] = Inr []"
| "world_events_of w a b (c # cs) =
     try_then (world_event_of w a b c) (\<lambda>event.
     try_then (world_events_of w a b cs) (\<lambda>es. Inr (event # es)))"

definition pair_guards_of :: "game_world \<Rightarrow> contact_subject \<Rightarrow> contact_subject \<Rightarrow> tick \<Rightarrow> pair_guard_facts" where
  "pair_guards_of w a b now =
     \<lparr>first_guard = guard_state_of w a now, second_guard = guard_state_of w b now\<rparr>"

definition guarded_pair_response :: contact_reply where
  "guarded_pair_response w a b observation now =
     try_then (raised (compose_guarded_pair w a b observation (pair_guards_of w a b now)
         \<lparr>first_activation = charge_activation_of w a now, second_activation = charge_activation_of w b now\<rparr>))
       (\<lambda>outcome.
     try_then (world_events_of w a b (response_effects outcome)) (\<lambda>es.
       Inr (contact_response_create (response_first outcome) (response_second outcome) es)))"

definition guarded_pair_contact_rule :: "contact_rule result" where
  "guarded_pair_contact_rule =
     contact_rule_create ''guarded_pair'' (Some body_has_contact_presence) (Some body_has_contact_presence)
       (Some guarded_pair_response)"

section \<open>The bodies of an outcome\<close>

lemma defended_moves: "defended g x y = Inr z \<Longrightarrow> moves_only a y \<Longrightarrow> moves_only a z"
  by (auto simp: defended_def try_then_Inr_iff split: if_splits intro: with_velocity_moves)

lemma stopped_if_moves: "stopped_if g y = Inr z \<Longrightarrow> moves_only a y \<Longrightarrow> moves_only a z"
  by (auto simp: stopped_if_def try_then_Inr_iff split: if_splits intro: with_velocity_moves with_acceleration_moves)

lemma corrected_moves: "corrected f y weight delta n = Inr z \<Longrightarrow> moves_only a y \<Longrightarrow> moves_only a z"
  by (auto simp: corrected_def try_then_Inr_iff split: if_splits intro: with_velocity_moves)

lemma separate_pair_moves:
  "separate_pair x y f g n = Inr (x', y') \<Longrightarrow> moves_only a x \<Longrightarrow> moves_only b y \<Longrightarrow> moves_only a x' \<and> moves_only b y'"
  by (auto simp: separate_pair_def Let_def try_then_Inr_iff fail_separation_def split: if_splits intro: corrected_moves)

lemma ordinary_bodies_moves:
  "ordinary_bodies x y c = Inr (x', y') \<Longrightarrow> moves_only x x' \<and> moves_only y y'"
  by (auto simp: ordinary_bodies_def exchanged_def reflected_unless_static_def try_then_Inr_iff split: if_splits
      intro: with_velocity_moves)

lemma impact_bodies_moves:
  assumes "impact_bodies x y c g = Inr (x', y')"
  shows "moves_only x x' \<and> moves_only y y'"
proof -
  obtain x1 y1 where o1: "ordinary_bodies x y c = Inr (x1, y1)"
    using assms by (auto simp: impact_bodies_def try_then_Inr_iff)
  note moved = ordinary_bodies_moves [OF o1]
  show ?thesis
    using assms moved
    by (auto simp: impact_bodies_def o1 try_then_Inr_iff split: if_splits
        dest!: separate_pair_moves dest: defended_moves stopped_if_moves)
qed

lemma composed_moves:
  assumes "compose_guarded_pair w a b observation guards acts = Inr out"
  shows "moves_pair a b (response_first out) (response_second out)"
  using assms
  by (auto simp: compose_guarded_pair_def lethal_outcome_def impact_outcome_def untouched_outcome_def Let_def
      moves_pair_def continuing_def try_then_Inr_iff dest: impact_bodies_moves split: if_splits option.splits)

interpretation guarded: contact_responder guarded_pair_response
  by unfold_locales (auto simp: guarded_pair_response_def try_then_Inr_iff contact_response_create_def dest!: composed_moves)

section \<open>The effects of an outcome\<close>

lemma recipients_set: "set (recipients a p b q) = (if p then {a} else {}) \<union> (if q then {b} else {})"
  by (auto simp: recipients_def Let_def)

lemma charge_candidates_set:
  "x \<in> set (charge_candidates w a b observation c guards acts) \<Longrightarrow> \<exists>k. x = GuardedChargeCandidate k"
  by (auto simp: charge_candidates_def charge_hit_def Let_def split: if_splits option.splits)

lemma world_events_of_error:
  "world_events_of w a b cs = Inl e \<Longrightarrow> \<exists>c\<in>set cs. world_event_of w a b c = Inl e"
  by (induction cs) (auto simp: try_then_Inl_iff)

lemma world_events_of_map:
  "world_events_of w a b cs = Inr es \<Longrightarrow> list_all2 (\<lambda>c e. world_event_of w a b c = Inr e) cs es"
  by (induction cs arbitrary: es) (auto simp: try_then_Inr_iff)

lemma stun_fact_has_shield:
  assumes "compose_guarded_pair w a b observation (pair_guards_of w a b now) acts = Inr out"
    and "GuardedPairStunFact e \<in> set (response_effects out)"
  shows "\<exists>d. captured_parry_duration_ticks w (if e = subject_entity a then b else a) = Inr d"
proof -
  have distinct: "subject_entity a \<noteq> subject_entity b"
    using assms(1) by (auto simp: compose_guarded_pair_def try_then_Inr_iff)
  obtain c where "impact observation = Some c"
    and "e \<in> set (recipients (subject_entity a) (first_is_stunned (subject_body a) c (pair_guards_of w a b now))
                (subject_entity b) (second_is_stunned (subject_body b) c (pair_guards_of w a b now)))"
    using assms
    by (auto simp: compose_guarded_pair_def lethal_outcome_def impact_outcome_def untouched_outcome_def Let_def
        guarded_contact_fact_def try_then_Inr_iff dest!: charge_candidates_set split: if_splits option.splits)
  then have "(e = subject_entity a \<and> guard_state_of w b now = kPerfectGuard) \<or>
      (e = subject_entity b \<and> guard_state_of w a now = kPerfectGuard)"
    by (auto simp: recipients_set first_is_stunned_def second_is_stunned_def pair_guards_of_def split: if_splits)
  then show ?thesis
    using distinct
    by (auto simp: guard_state_of_def captured_parry_duration_ticks_def split: if_splits option.splits)
qed

text \<open>The error the rule reserves for a parry without a shield is unreachable: whatever the world,
  the two bodies and the observation, the response of the rule fails, if at all, with a simulation
  error, because a stun is only ever owed to a subject whose shield was in its perfect window.\<close>

theorem parry_always_has_its_shield:
  "guarded_pair_response w a b observation now \<noteq> Inl (Gameplay code context)"
proof
  assume "guarded_pair_response w a b observation now = Inl (Gameplay code context)"
  then obtain acts out where out: "compose_guarded_pair w a b observation (pair_guards_of w a b now) acts = Inr out"
    and "world_events_of w a b (response_effects out) = Inl (Gameplay code context)"
    by (auto simp: guarded_pair_response_def try_then_Inl_iff raised_def split: sum.splits)
  then obtain c where c: "c \<in> set (response_effects out)" "world_event_of w a b c = Inl (Gameplay code context)"
    using world_events_of_error by blast
  obtain e where "GuardedPairStunFact e \<in> set (response_effects out)"
    and "captured_parry_duration_ticks w (if e = subject_entity a then b else a) = Inl (Gameplay code context)"
  proof -
    have "\<exists>e. c = GuardedPairStunFact e" using c(2) by (cases c) simp_all
    then show ?thesis using that c by (auto simp: try_then_Inl_iff)
  qed
  then show False using stun_fact_has_shield [OF out] by fastforce
qed

lemma contact_event_is_contact: "contact_event_of a b c name = Inr ev \<Longrightarrow> \<exists>p n s. ev = ContactEvent p n s name"
  by (auto simp: contact_event_of_def try_then_Inr_iff)

text \<open>What an outcome holds, for each way the composition can end.\<close>

lemma compose_cases:
  assumes "compose_guarded_pair w a b observation guards acts = Inr out"
  obtains (none) "\<not> is_contact (touch observation) \<or> (impact observation = None \<and> \<not> first_effect_eligible observation \<and>
      \<not> second_effect_eligible observation)" and "out = untouched_outcome a b []"
  | (lethal) "is_contact (touch observation)"
      and "eliminates w (second_effect_eligible observation) (first_guard guards) (subject_entity a) (subject_entity b) \<or>
        eliminates w (first_effect_eligible observation) (second_guard guards) (subject_entity b) (subject_entity a)"
      and "lethal_outcome a b observation
        (eliminates w (second_effect_eligible observation) (first_guard guards) (subject_entity a) (subject_entity b))
        (eliminates w (first_effect_eligible observation) (second_guard guards) (subject_entity b) (subject_entity a)) = Inr out"
  | (touched) fact where "is_contact (touch observation)"
      and "\<not> eliminates w (second_effect_eligible observation) (first_guard guards) (subject_entity a) (subject_entity b)"
      and "\<not> eliminates w (first_effect_eligible observation) (second_guard guards) (subject_entity b) (subject_entity a)"
      and "impact observation = None" and "guarded_contact_fact a b observation = Inr fact"
      and "out = untouched_outcome a b [fact]"
  | (struck) c where "is_contact (touch observation)"
      and "\<not> eliminates w (second_effect_eligible observation) (first_guard guards) (subject_entity a) (subject_entity b)"
      and "\<not> eliminates w (first_effect_eligible observation) (second_guard guards) (subject_entity b) (subject_entity a)"
      and "impact observation = Some c" and "impact_outcome w a b observation c guards acts = Inr out"
  using assms unfolding compose_guarded_pair_def Let_def
  by (auto simp: try_then_Inr_iff split: if_splits option.splits)

definition elimination_recipients :: "guarded_consequence list \<Rightarrow> entity_id set" where
  "elimination_recipients cs = {e. GuardedPairEliminationFact e \<in> set cs}"

lemma composed_eliminations:
  assumes "compose_guarded_pair w a b observation guards acts = Inr out"
  shows "GuardedPairEliminationFact e \<in> set (response_effects out) \<longleftrightarrow> is_contact (touch observation) \<and>
      (e = subject_entity a \<and>
         eliminates w (second_effect_eligible observation) (first_guard guards) (subject_entity a) (subject_entity b) \<or>
       e = subject_entity b \<and>
         eliminates w (first_effect_eligible observation) (second_guard guards) (subject_entity b) (subject_entity a))"
    and "disposition (response_first out) = kTerminate \<longleftrightarrow> GuardedPairEliminationFact (subject_entity a) \<in> set (response_effects out)"
    and "disposition (response_second out) = kTerminate \<longleftrightarrow> GuardedPairEliminationFact (subject_entity b) \<in> set (response_effects out)"
proof -
  have "subject_entity a \<noteq> subject_entity b"
    using assms by (auto simp: compose_guarded_pair_def try_then_Inr_iff)
  moreover have "\<not> eliminates w False g x y" for g x y by (simp add: eliminates_def)
  ultimately show
    "GuardedPairEliminationFact e \<in> set (response_effects out) \<longleftrightarrow> is_contact (touch observation) \<and>
      (e = subject_entity a \<and>
         eliminates w (second_effect_eligible observation) (first_guard guards) (subject_entity a) (subject_entity b) \<or>
       e = subject_entity b \<and>
         eliminates w (first_effect_eligible observation) (second_guard guards) (subject_entity b) (subject_entity a))"
    "disposition (response_first out) = kTerminate \<longleftrightarrow> GuardedPairEliminationFact (subject_entity a) \<in> set (response_effects out)"
    "disposition (response_second out) = kTerminate \<longleftrightarrow> GuardedPairEliminationFact (subject_entity b) \<in> set (response_effects out)"
    by (cases rule: compose_cases [OF assms];
        auto simp: untouched_outcome_def lethal_outcome_def impact_outcome_def continuing_def guarded_contact_fact_def
          try_then_Inr_iff recipients_set split: if_splits dest!: charge_candidates_set)+
qed

lemma world_events_eliminations:
  assumes "world_events_of w a b cs = Inr es" and "GuardedPairContactFact (EliminationEvent e) \<notin> set cs"
  shows "EliminationEvent e \<in> set es \<longleftrightarrow> GuardedPairEliminationFact e \<in> set cs"
  using assms
proof (induction cs arbitrary: es)
  case (Cons c cs)
  show ?case
    using Cons.prems(1) Cons.prems(2) Cons.IH by (cases c) (auto simp: try_then_Inr_iff)
qed simp

lemma composed_contact_facts:
  assumes "compose_guarded_pair w a b observation guards acts = Inr out"
  shows "GuardedPairContactFact (EliminationEvent e) \<notin> set (response_effects out)"
  by (cases rule: compose_cases [OF assms])
    (auto simp: untouched_outcome_def lethal_outcome_def impact_outcome_def guarded_contact_fact_def try_then_Inr_iff
      dest!: contact_event_is_contact charge_candidates_set)

text \<open>Who is eliminated, in terms of the world: the guard is read from the shield's windows, the driver and
  the hazard from their stores.\<close>

lemma eliminates_iff:
  "eliminates w eligible (guard_state_of w s now) (subject_entity s) hazard \<longleftrightarrow>
     eligible \<and>
     (is_static (subject_body s) \<or>
      (case store_find (shields w) (subject_entity s) of
         None \<Rightarrow> True
       | Some sh \<Rightarrow> \<not> window_contains (perfect_window sh) now \<and> \<not> window_contains (shield_window sh) now)) \<and>
     store_find (controllables w) (subject_entity s) \<noteq> None \<and>
     store_find (lethals w) hazard \<noteq> None \<and> phase (world_match w) = kRunning"
  by (auto simp: eliminates_def is_guarded_def guard_state_of_def body_is_player_driven_def body_is_lethal_hazard_def
      split: option.splits)

text \<open>C31: Exactly who dies of a contact. A subject is eliminated exactly if the two touch, its opponent's
  effect is admitted, no window of its shield holds the tick (a static body has no guard), a controller
  drives it, the opponent carries the lethal component, and the match is running. Its body, and no other,
  leaves the motion at this instant.\<close>

theorem guarded_pair_eliminates_exactly:
  assumes "guarded_pair_response w a b observation now = Inr r" and "contact_bodies r = Some (x, y)"
  shows "(let dies = (\<lambda>eligible victim hazard.
        eligible \<and>
        (is_static (subject_body victim) \<or>
         (case store_find (shields w) (subject_entity victim) of
            None \<Rightarrow> True
          | Some sh \<Rightarrow> \<not> window_contains (perfect_window sh) now \<and> \<not> window_contains (shield_window sh) now)) \<and>
        store_find (controllables w) (subject_entity victim) \<noteq> None \<and>
        store_find (lethals w) (subject_entity hazard) \<noteq> None \<and> phase (world_match w) = kRunning)
    in (EliminationEvent e \<in> set (contact_events r) \<longleftrightarrow> is_contact (touch observation) \<and>
          (e = subject_entity a \<and> dies (second_effect_eligible observation) a b \<or>
           e = subject_entity b \<and> dies (first_effect_eligible observation) b a)) \<and>
       (disposition x = kTerminate \<longleftrightarrow> EliminationEvent (subject_entity a) \<in> set (contact_events r)) \<and>
       (disposition y = kTerminate \<longleftrightarrow> EliminationEvent (subject_entity b) \<in> set (contact_events r)))"
proof -
  obtain acts out where out: "compose_guarded_pair w a b observation (pair_guards_of w a b now) acts = Inr out"
    and es: "world_events_of w a b (response_effects out) = Inr (contact_events r)"
    and xy: "x = response_first out" "y = response_second out"
    using assms by (auto simp: guarded_pair_response_def try_then_Inr_iff contact_response_create_def)
  have "EliminationEvent f \<in> set (contact_events r) \<longleftrightarrow> GuardedPairEliminationFact f \<in> set (response_effects out)" for f
    by (rule world_events_eliminations [OF es composed_contact_facts [OF out]])
  then show ?thesis
    unfolding Let_def eliminates_iff [symmetric]
    using composed_eliminations [OF out] xy by (simp add: pair_guards_of_def)
qed

section \<open>Separation\<close>

lemma separate_pair_separates:
  assumes "separate_pair x y f g n = Inr (x', y')"
  shows "non_closing (pair_normal_speed x' y' n)"
  using assms by (auto simp: separate_pair_def Let_def try_then_Inr_iff fail_separation_def split: if_splits)

text \<open>C32: A defended impact never leaves the pair closing: whenever one of the two had a guard up and
  neither body left the motion, the bodies handed back to the solver do not approach each other
  along the normal of the impact.\<close>

theorem defended_impacts_separate:
  assumes "guarded_pair_response w a b observation now = Inr r" and "contact_bodies r = Some (x, y)"
    and "is_contact (touch observation)" and "impact observation = Some c"
    and "guard_state_of w a now \<noteq> kNoGuard \<or> guard_state_of w b now \<noteq> kNoGuard"
    and "disposition x = kContinue" and "disposition y = kContinue"
  shows "non_closing (pair_normal_speed (result_body x) (result_body y) (contact_normal c))"
proof -
  obtain acts out where out: "compose_guarded_pair w a b observation (pair_guards_of w a b now) acts = Inr out"
    and xy: "x = response_first out" "y = response_second out"
    using assms(1,2) by (auto simp: guarded_pair_response_def try_then_Inr_iff contact_response_create_def)
  from out show ?thesis
  proof (cases rule: compose_cases)
    case (struck d)
    then show ?thesis
      using assms(4,5) xy
      by (auto simp: impact_outcome_def impact_bodies_def continuing_def try_then_Inr_iff pair_guards_of_def is_guarded_def
          dest!: separate_pair_separates)
  qed (use assms xy in \<open>auto simp: lethal_outcome_def try_then_Inr_iff split: if_splits\<close>)
qed


section \<open>The solver and the table\<close>

definition guarded_pair_row :: contact_rule where
  "guarded_pair_row = \<lparr>rule_name = ''guarded_pair'', first_predicate = body_has_contact_presence,
     second_predicate = body_has_contact_presence, rule_reply = guarded_pair_response\<rparr>"

definition shipped_table :: contact_table where
  "shipped_table = [guarded_pair_row, variable_impulse_row, elastic_disc_row, reflect_static_row]"

lemma guarded_pair_rule: "guarded_pair_contact_rule = Inr guarded_pair_row"
  by (simp add: guarded_pair_contact_rule_def contact_rule_create_def rule_name_rules less_char_def
      less_eq_char_def of_char_def guarded_pair_row_def)

lemma shipped_table_creates: "with_rows_above_built_in [guarded_pair_row] = Inr shipped_table"
  by (simp add: with_rows_above_built_in_def built_in_table contact_table_create_def shipped_table_def
      guarded_pair_row_def variable_impulse_row_def elastic_disc_row_def reflect_static_row_def upt_rec)

lemma guarded_row_responsible: "responsible [guarded_pair_row]"
  by (simp add: responsible_def guarded_pair_row_def guarded.contact_responder_axioms)

definition admitted_body :: "physics_body \<Rightarrow> bool" where
  "admitted_body b \<longleftrightarrow> valid_scalars b \<and> numbered_radius b"

text \<open>C30: Nothing the contact table of the shipped modes answers can make the solver reject the answer:
  for two distinct bodies the solver holds, whatever the world, the guards and the observation, both
  returned bodies are the solver's own bodies with another motion, so that both replacements succeed
  as long as the path budget has room for them. The bodies are admitted ones: \<open>admitted_body\<close> says that a
  body's mass, restitution and drag scale are inside the ranges its constructor enforces and that its
  radius is a number, which every body built by \<open>PhysicsBody\<close> has.\<close>

theorem contact_answers_are_accepted:
  assumes table: "try_then guarded_pair_contact_rule (\<lambda>row. with_rows_above_built_in [row]) = Inr table"
    and "body_at s i (solver_now s) = Inr a" and "body_at s j (solver_now s) = Inr b" and "i \<noteq> j"
    and "admitted_body (epoch_motion (epochs s ! i))" and "admitted_body (epoch_motion (epochs s ! j))"
    and "table_respond table w now a b observation = Inr r"
    and "length (motion_paths s) + 2 \<le> limit_paths (solver_limits s)"
  shows "\<exists>s' s''. replace_body i (response_first r) s = Inr s' \<and> replace_body j (response_second r) s' = Inr s''"
proof -
  have "responsible table"
    using table above_built_in_responsible [OF _ guarded_row_responsible] by (simp add: guarded_pair_rule)
  then have moves: "moves_pair a b (response_first r) (response_second r)"
    using assms(7) by (rule table_respond_moves)
  obtain s' where s': "replace_body i (response_first r) s = Inr s'" and paths: "length (motion_paths s') \<le> Suc (length (motion_paths s))"
    and keeps: "keeps_elsewhere i s s'"
    using replace_body_accepts [OF assms(2), of "response_first r"] assms moves
    by (auto simp: moves_pair_def admitted_body_def)
  have "solver_now s' = solver_now s" "solver_limits s' = solver_limits s" "epochs s' ! j = epochs s ! j"
    using keeps \<open>i \<noteq> j\<close> by (auto simp: keeps_elsewhere_def)
  moreover have "body_at s' j (solver_now s) = Inr b"
    using keeps_elsewhere_body_at [OF keeps] assms(3,4) by simp
  ultimately obtain s'' where "replace_body j (response_second r) s' = Inr s''"
    using replace_body_accepts [of s' j b "response_second r"] assms moves paths
    by (auto simp: moves_pair_def admitted_body_def)
  with s' show ?thesis by blast
qed

section \<open>A player against a wall and against a hazard\<close>

definition wall_subject :: contact_subject where
  "wall_subject = \<lparr>subject_entity = EntityId 9, subject_body = (leaving_body 0)\<lparr>is_static := True\<rparr>\<rparr>"

definition ramming_subject :: contact_subject where
  "ramming_subject = \<lparr>subject_entity = EntityId 7, subject_body = leaving_body 4\<rparr>"

definition ramming_contact :: pair_contact where
  "ramming_contact = \<lparr>is_contact = True, contact_normal = \<lparr>vx = 1, vy = 0\<rparr>, center_distance = Finite 2,
     relative_normal_speed = Finite (- 4)\<rparr>"

definition lethal_touch :: contact_observation where
  "lethal_touch = \<lparr>touch = ramming_contact, impact = None, first_effect_eligible = False, second_effect_eligible = True\<rparr>"

definition ramming_impact :: contact_observation where
  "ramming_impact = \<lparr>touch = ramming_contact, impact = Some ramming_contact, first_effect_eligible = True, second_effect_eligible = True\<rparr>"

definition duel_world :: game_world where
  "duel_world = (world_empty [])\<lparr>bodies := [(EntityId 7, leaving_body 4), (EntityId 9, (leaving_body 0)\<lparr>is_static := True\<rparr>)],
     controllables := [(EntityId 7, controllable_of (ControllerId 1))], lethals := [(EntityId 9, ())],
     world_match := match_state_initial\<lparr>phase := kRunning\<rparr>\<rparr>"

definition raised_shield :: shield where
  "raised_shield = \<lparr>shield_window = \<lparr>activation_tick = Tick 1, expiry_tick = Tick 9\<rparr>,
     perfect_window = \<lparr>activation_tick = Tick 1, expiry_tick = Tick 2\<rparr>,
     shield_cooldown_window = \<lparr>activation_tick = Tick 1, expiry_tick = Tick 20\<rparr>, parry_stun_duration = 5\<rparr>"

lemmas duel_defs = duel_world_def wall_subject_def ramming_subject_def ramming_contact_def leaving_body_def world_empty_def
  store_find_Cons less_entity_id_def

lemma names_are_valid: "contact_rule_name_create ''lethal_hazard'' = Inr ''lethal_hazard''"
  "contact_rule_name_create ''guarded_pair'' = Inr ''guarded_pair''"
  by (simp_all add: rule_name_rules less_char_def less_eq_char_def of_char_def)

lemma small_speeds:
  assumes "\<bar>x\<bar> \<le> 2 ^ 20"
  shows "0 \<le> x \<Longrightarrow> non_closing (Finite x)" and "x \<le> - 1 \<Longrightarrow> \<not> non_closing (Finite x)"
proof -
  obtain t where t: "comparison_tolerance (Finite x) (Finite 0) kVelocityTolerance = Finite t" "0 \<le> t" "t \<le> 1 / 2 ^ 18"
    by (rule tolerance_small [of x 0]) (use assms in simp_all)
  show "0 \<le> x \<Longrightarrow> non_closing (Finite x)"
    using t by (cases "x = 0") (auto simp: non_closing_def greater_than_or_approximately_equal_def approximately_equal_def)
  assume "x \<le> - 1"
  moreover have "fsub (Finite x) (Finite 0) = Finite (rounded x)"
    using assms by (simp add: to_double_within largest_finite_def)
  moreover have "rounded x \<le> - 1" using \<open>x \<le> - 1\<close> by (rule rounded_le) simp
  ultimately show "\<not> non_closing (Finite x)"
    using t by (simp add: non_closing_def greater_than_or_approximately_equal_def approximately_equal_def)
qed

lemma lethal_response:
  "guarded_pair_response duel_world ramming_subject wall_subject lethal_touch (Tick 3) =
     Inr (contact_response_create \<lparr>result_body = leaving_body 4, disposition = kTerminate\<rparr>
       (continuing ((leaving_body 0)\<lparr>is_static := True\<rparr>))
       [EliminationEvent (EntityId 7),
        ContactEvent \<lparr>lower_id = EntityId 7, higher_id = EntityId 9\<rparr> \<lparr>vx = 1, vy = 0\<rparr> (Finite (- 4)) ''lethal_hazard''])"
  by (simp add: guarded_pair_response_def compose_guarded_pair_def require_guard_facts_def pair_guards_of_def
      guard_state_of_def is_guarded_def lethal_touch_def eliminates_def body_is_player_driven_def body_is_lethal_hazard_def
      lethal_outcome_def names_are_valid contact_event_of_def candidate_pair_create_def recipients_def continuing_def
      duel_defs match_state_initial_def)

theorem guarded_pair_eliminates_exactly_witness:
  "\<exists>r. guarded_pair_response duel_world ramming_subject wall_subject lethal_touch (Tick 3) = Inr r \<and>
     EliminationEvent (EntityId 7) \<in> set (contact_events r)"
proof (intro exI conjI)
  show "EliminationEvent (EntityId 7) \<in> set (contact_events (contact_response_create
      \<lparr>result_body = leaving_body 4, disposition = kTerminate\<rparr> (continuing ((leaving_body 0)\<lparr>is_static := True\<rparr>))
      [EliminationEvent (EntityId 7), ContactEvent \<lparr>lower_id = EntityId 7, higher_id = EntityId 9\<rparr> \<lparr>vx = 1, vy = 0\<rparr>
        (Finite (- 4)) ''lethal_hazard'']))"
    using guarded_pair_eliminates_exactly [OF lethal_response, of _ _ "EntityId 7"]
    by (simp add: contact_response_create_def Let_def)
qed (rule lethal_response)

lemma quarter_of_a_bounce:
  "quarter_received_delta \<lparr>vx = 4, vy = 0\<rparr> \<lparr>vx = - 4, vy = 0\<rparr> = Inr \<lparr>vx = 2, vy = 0\<rparr>"
  by (simp add: quarter_received_delta_def fx_def fy_def vector_create_def create_for_operation_def validate_component_def
      kMaximumPhysicalComponentMagnitude_def)

lemma ramming_scalars: "valid_scalars (leaving_body v)" "valid_scalars ((leaving_body v)\<lparr>is_static := s\<rparr>)"
  by (simp_all add: valid_scalars_def leaving_body_def kMaximumPhysicalComponentMagnitude_def)

lemma leaving_velocity: "(leaving_body v)\<lparr>body_velocity := \<lparr>vx = u, vy = 0\<rparr>\<rparr> = leaving_body u"
  by (simp add: leaving_body_def)

lemma ramming_separates:
  "separate_pair (leaving_body 2) ((leaving_body 0)\<lparr>is_static := True\<rparr>) False False \<lparr>vx = 1, vy = 0\<rparr> =
     Inr (leaving_body 0, (leaving_body 0)\<lparr>is_static := True\<rparr>)"
proof -
  have speeds: "pair_normal_speed (leaving_body v) ((leaving_body 0)\<lparr>is_static := True\<rparr>) \<lparr>vx = 1, vy = 0\<rparr> = fsub (Finite 0) (Finite v)"
    if "v = 0 \<or> v = 2" for v
    using that by (auto simp: pair_normal_speed_def motion_velocity_def leaving_body_def fx_def fy_def zero_vector_def)
  have "corrected fsub (leaving_body 2) (Finite 1) (Finite 2) \<lparr>vx = 1, vy = 0\<rparr> = Inr (leaving_body 0)"
    using leaving_velocity [of 2 0]
    by (simp add: corrected_def ramming_scalars) (simp add: leaving_body_def fx_def fy_def vector_create_def
      create_for_operation_def validate_component_def kMaximumPhysicalComponentMagnitude_def)
  moreover have "correction_weight (leaving_body 2) False = Inr (Finite 1)"
    "correction_weight ((leaving_body 0)\<lparr>is_static := True\<rparr>) False = Inr (Finite 0)"
    by (simp_all add: correction_weight_def leaving_body_def require_finite_correction_def)
  ultimately show ?thesis
    using small_speeds [of "- 2"] small_speeds [of 0]
    by (simp add: separate_pair_def speeds Let_def require_finite_correction_def fx_def fy_def corrected_def)
qed

lemma ramming_bodies:
  "impact_bodies (leaving_body 4) ((leaving_body 0)\<lparr>is_static := True\<rparr>) ramming_contact
     \<lparr>first_guard = kOrdinaryGuard, second_guard = kNoGuard\<rparr> = Inr (leaving_body 0, (leaving_body 0)\<lparr>is_static := True\<rparr>)"
proof -
  have "reflect_static_contact_velocity \<lparr>vx = 4, vy = 0\<rparr> \<lparr>vx = 1, vy = 0\<rparr> = Inr \<lparr>vx = - 4, vy = 0\<rparr>"
    by (simp add: reflect_static_contact_velocity_def vector_dot_def fx_def fy_def vector_create_def
        create_for_operation_def validate_component_def kMaximumPhysicalComponentMagnitude_def)
  moreover have "is_static (leaving_body v) = False" "body_velocity (leaving_body v) = \<lparr>vx = v, vy = 0\<rparr>" for v
    by (simp_all add: leaving_body_def)
  ultimately show ?thesis
    using small_speeds [of "- 4"] quarter_of_a_bounce
    by (simp add: impact_bodies_def ordinary_bodies_def reflected_unless_static_def ramming_contact_def defended_def is_guarded_def
        ramming_scalars leaving_velocity stopped_if_def first_is_stunned_def second_is_stunned_def ramming_separates)
qed

lemma defended_response:
  "guarded_pair_response (duel_world\<lparr>lethals := [], shields := [(EntityId 7, raised_shield)]\<rparr>) ramming_subject
       wall_subject ramming_impact (Tick 3) =
   Inr (contact_response_create (continuing (leaving_body 0)) (continuing ((leaving_body 0)\<lparr>is_static := True\<rparr>))
     [ContactEvent \<lparr>lower_id = EntityId 7, higher_id = EntityId 9\<rparr> \<lparr>vx = 1, vy = 0\<rparr> (Finite (- 4)) ''guarded_pair''])"
proof -
  have guards: "pair_guards_of (duel_world\<lparr>lethals := [], shields := [(EntityId 7, raised_shield)]\<rparr>) ramming_subject
      wall_subject (Tick 3) = \<lparr>first_guard = kOrdinaryGuard, second_guard = kNoGuard\<rparr>"
    by (simp add: pair_guards_of_def guard_state_of_def duel_defs raised_shield_def window_contains_def less_eq_tick_def
        less_tick_def)
  have bodies: "subject_body ramming_subject = leaving_body 4" "subject_body wall_subject = (leaving_body 0)\<lparr>is_static := True\<rparr>"
    "subject_entity ramming_subject = EntityId 7" "subject_entity wall_subject = EntityId 9"
    "is_static (leaving_body v) = False" for v
    by (simp_all add: ramming_subject_def wall_subject_def leaving_body_def)
  have speed: "contact_normal ramming_contact = \<lparr>vx = 1, vy = 0\<rparr>" "is_contact ramming_contact"
    "relative_normal_speed ramming_contact = Finite (- 4)" by (simp_all add: ramming_contact_def)
  show ?thesis
    by (simp add: guarded_pair_response_def compose_guarded_pair_def require_guard_facts_def guards bodies ramming_impact_def
        eliminates_def is_guarded_def body_is_lethal_hazard_def impact_outcome_def ramming_bodies names_are_valid speed
        guarded_contact_fact_def contact_event_of_def candidate_pair_create_def less_entity_id_def recipients_def
        first_is_stunned_def second_is_stunned_def charge_candidates_def)
qed

theorem defended_impacts_separate_witness:
  "\<exists>r. guarded_pair_response (duel_world\<lparr>lethals := [], shields := [(EntityId 7, raised_shield)]\<rparr>) ramming_subject
       wall_subject ramming_impact (Tick 3) = Inr r \<and>
     non_closing (pair_normal_speed (leaving_body 0) ((leaving_body 0)\<lparr>is_static := True\<rparr>) (contact_normal ramming_contact))"
  using defended_impacts_separate [OF defended_response, of "continuing (leaving_body 0)"
      "continuing ((leaving_body 0)\<lparr>is_static := True\<rparr>)" ramming_contact] defended_response
  by (simp add: contact_response_create_def ramming_impact_def continuing_def ramming_contact_def guard_state_of_def duel_defs
      raised_shield_def window_contains_def less_eq_tick_def less_tick_def)

definition ramming_solver :: solver where
  "ramming_solver = solver_initial default_motion_limits (Finite 1) (Finite 1) \<lparr>bounds_width = 9, bounds_height = 9\<rparr>
     [ramming_subject, wall_subject]"

definition defended_answer :: "world_event pair_motion_response" where
  "defended_answer = \<lparr>response_first = continuing (leaving_body 0),
     response_second = continuing ((leaving_body 0)\<lparr>is_static := True\<rparr>),
     response_effects = [ContactEvent \<lparr>lower_id = EntityId 7, higher_id = EntityId 9\<rparr> \<lparr>vx = 1, vy = 0\<rparr> (Finite (- 4)) ''guarded_pair'']\<rparr>"

lemma ramming_answer:
  "table_respond shipped_table (duel_world\<lparr>lethals := [], shields := [(EntityId 7, raised_shield)]\<rparr>) (Tick 3) ramming_subject
       wall_subject ramming_impact = Inr defended_answer"
proof -
  have "first_match shipped_table (duel_world\<lparr>lethals := [], shields := [(EntityId 7, raised_shield)]\<rparr>) (EntityId 7) (EntityId 9)
      = Some (0, kCanonical)"
    by (simp add: first_match_def shipped_table_def row_matches_def guarded_pair_row_def body_has_contact_presence_def duel_defs)
  moreover have "subject_entity ramming_subject = EntityId 7" "subject_entity wall_subject = EntityId 9"
    by (simp_all add: ramming_subject_def wall_subject_def)
  moreover have "rule_reply (shipped_table ! 0) = guarded_pair_response" by (simp add: shipped_table_def guarded_pair_row_def)
  ultimately show ?thesis
    by (simp add: table_respond_def defended_response contact_response_create_def replaces_bodies_def first_result_def
        second_result_def require_bodies_def defended_answer_def)
qed

lemma ramming_epochs: "epochs ramming_solver = [fresh_epoch ramming_subject, fresh_epoch wall_subject]"
  by (simp add: ramming_solver_def solver_initial_def Let_def ramming_subject_def wall_subject_def less_eq_entity_id_def)

theorem contact_answers_are_accepted_witness:
  "\<exists>s' s''. replace_body 0 (continuing (leaving_body 0)) ramming_solver = Inr s' \<and>
     replace_body 1 (continuing ((leaving_body 0)\<lparr>is_static := True\<rparr>)) s' = Inr s''"
proof -
  have bodies: "body_at ramming_solver 0 (solver_now ramming_solver) = Inr ramming_subject"
    "body_at ramming_solver 1 (solver_now ramming_solver) = Inr wall_subject"
    by (simp_all add: body_at_def ramming_epochs fresh_epoch_def)
      (simp_all add: ramming_solver_def solver_initial_def Let_def)
  have admitted: "admitted_body (epoch_motion (epochs ramming_solver ! 0))" "admitted_body (epoch_motion (epochs ramming_solver ! 1))"
    by (simp_all add: ramming_epochs fresh_epoch_def admitted_body_def ramming_subject_def wall_subject_def ramming_scalars
        numbered_radius_def)
      (simp_all add: leaving_body_def)
  have room: "length (motion_paths ramming_solver) + 2 \<le> limit_paths (solver_limits ramming_solver)"
    by (simp add: ramming_solver_def solver_initial_def Let_def default_motion_limits_def kMaximumMotionPathSegmentCount_def kMaximumMotionEventCount_def)
  show ?thesis
    using contact_answers_are_accepted [OF _ bodies _ admitted ramming_answer room]
    by (simp add: guarded_pair_rule shipped_table_creates defended_answer_def)
qed

end
