(* ===== verification/Nextafter.thy ===== *)
theory Nextafter
  imports Vector2
begin

text \<open>
  \<open>std::nextafter\<close>, as the terrain queries (src/src/simulation/terrain_queries.cpp) and the coverage of
  the spatial grid (spatial_grid.cpp) use it, and what makes it a directed rounding: one step beyond a
  rounded result is never short of the exact one.
\<close>

section \<open>Neighbouring values\<close>

text \<open>\<open>std::nextafter\<close>. The spacing below a power of two is half the spacing above it, unless both are
  that of the subnormals.\<close>

definition spacing_below :: "rat \<Rightarrow> rat" where
  "spacing_below m =
     (if m = 2 powi exponent_of m \<and> quantum_exponent m > - 1074 then quantum m / 2 else quantum m)"

definition value_above :: "rat \<Rightarrow> rat" where
  "value_above x =
     (if x = 0 then 2 powi (- 1074)
      else if x > 0 then x + quantum x else x + spacing_below (- x))"

fun nextafter :: "double \<Rightarrow> double \<Rightarrow> double" where
  "nextafter NotANumber y = NotANumber"
| "nextafter x NotANumber = NotANumber"
| "nextafter (Infinite s) y =
     (if feq (Infinite s) y then y else Finite (if s then largest_finite else - largest_finite))"
| "nextafter (Finite x) y =
     (if feq (Finite x) y then y
      else if fless (Finite x) y
      then (if x = largest_finite then Infinite True else Finite (value_above x))
      else (if x = - largest_finite then Infinite False else Finite (- value_above (- x))))"

section \<open>One step beyond a rounded result\<close>

lemma rounded_zero_small:
  assumes "rounded x = 0" shows "\<bar>x\<bar> \<le> 2 powi (- 1074)"
proof (cases "x = 0")
  case False
  show ?thesis
  proof (rule ccontr)
    assume "\<not> \<bar>x\<bar> \<le> 2 powi (- 1074)"
    then have "2 powi (- 1074) \<le> \<bar>x\<bar>" by simp
    moreover have "representable (2 powi (- 1074))" by (rule representable_powi) simp
    ultimately have "2 powi (- 1074) \<le> rounded \<bar>x\<bar>" by (rule rounded_ge)
    with assms show False using powi_pos [of "- 1074"] by (simp add: rounded_abs)
  qed
qed simp

lemma spacing_below_half: "quantum m / 2 \<le> spacing_below m"
  by (simp add: spacing_below_def)

lemma spacing_below_pos: "0 < spacing_below m"
  by (simp add: spacing_below_def)

lemma value_above_greater: "x < value_above x"
  using spacing_below_pos [of "- x"] by (simp add: value_above_def)

lemma value_above_rounded: "v \<le> value_above (rounded v)"
proof (cases "rounded v = 0")
  case True
  then show ?thesis using rounded_zero_small [OF True] by (simp add: value_above_def)
next
  case False
  have "v - rounded v \<le> quantum (rounded v) / 2" using rounded_error_ulp [of v] by linarith
  moreover have "0 < quantum (rounded v)" by simp
  moreover have "quantum (rounded v) / 2 \<le> spacing_below (- rounded v)"
    using spacing_below_half [of "- rounded v"] by simp
  ultimately show ?thesis using False by (cases "rounded v > 0") (simp_all add: value_above_def del: quantum_pos)
qed

lemma representable_above_rounded:
  assumes "representable z" and "rounded v < z" shows "v \<le> z"
  using assms rounded_ge [of z v] by (cases "v \<le> z") auto

text \<open>A sum that only grows from the rounded value it starts with, nudged up once, is above the exact
  value; and dually below.\<close>

lemma overflow_below:
  assumes "largest_finite < \<bar>rounded v\<bar>" and "v \<le> 0" shows "v \<le> - largest_finite" and "rounded v < - largest_finite"
proof -
  show r: "rounded v < - largest_finite" using assms rounded_le [of v 0] by simp
  show "v \<le> - largest_finite"
    using r rounded_ge [of "- largest_finite" v] representable_largest_finite by (cases "v \<le> - largest_finite") auto
qed

lemma nextafter_up:
  assumes "fle (to_double v) d" and "valid_double d" shows "fle (Finite v) (nextafter d (Infinite True))"
proof (cases d)
  case (Finite z)
  with assms(2) have rep: "representable z" and large: "\<bar>z\<bar> \<le> largest_finite" by simp_all
  have "v \<le> value_above z"
  proof (cases "rounded v \<le> z")
    case True
    show ?thesis
    proof (cases "rounded v = z")
      case True
      then show ?thesis using value_above_rounded [of v] by simp
    next
      case False
      with \<open>rounded v \<le> z\<close> rep have "v \<le> z" by (intro representable_above_rounded) auto
      then show ?thesis using value_above_greater [of z] by linarith
    qed
  next
    case False
    then have "\<bar>rounded v\<bar> > largest_finite" and "v \<le> 0"
      using assms(1) Finite by (auto simp: to_double_def split: if_split_asm)
    then have "rounded v < - largest_finite" by (rule overflow_below)
    then have "rounded v \<le> z" using large by linarith
    with False show ?thesis by simp
  qed
  then show ?thesis using Finite by simp
next
  case (Infinite s)
  then show ?thesis using assms(1) overflow_below(1) [of v] by (auto simp: to_double_def split: if_split_asm)
next
  case NotANumber
  then show ?thesis using assms(1) by (cases "to_double v") simp_all
qed

text \<open>The mirror image.\<close>

lemma fneg_less: "fless (fneg a) (fneg b) = fless b a"
  by (cases a; cases b) auto

lemma fle_fneg: "fle (fneg a) (fneg b) = fle b a"
  by (cases a; cases b) auto

lemma fneg_fneg: "fneg (fneg d) = d"
  by (cases d) simp_all

lemma nextafter_fneg: "nextafter (fneg d) (Infinite False) = fneg (nextafter d (Infinite True))"
  by (cases d) auto

lemma nextafter_down:
  assumes "fle d (to_double v)" and "valid_double d" shows "fle (nextafter d (Infinite False)) (Finite v)"
proof -
  have "fle (to_double (- v)) (fneg d)" using assms(1) by (simp add: to_double_minus fle_fneg)
  then have "fle (Finite (- v)) (nextafter (fneg d) (Infinite True))"
    using assms(2) by (intro nextafter_up) simp_all
  then have "fle (fneg (Finite v)) (nextafter (fneg d) (Infinite True))" by simp
  then have "fle (fneg (nextafter (fneg d) (Infinite True))) (fneg (fneg (Finite v)))" by (simp only: fle_fneg)
  then show ?thesis unfolding nextafter_fneg [symmetric] by (simp only: fneg_fneg)
qed

section \<open>Exact square roots\<close>

lemma integer_sqrt_square: "integer_sqrt (k * k) = k"
proof -
  have "integer_sqrt (k * k) \<le> k"
    using integer_sqrt_bounds [of "k * k"] mult_strict_mono [of k "integer_sqrt (k * k)" k "integer_sqrt (k * k)"]
    by (cases "k < integer_sqrt (k * k)") auto
  moreover have "k \<le> integer_sqrt (k * k)"
    using integer_sqrt_bounds [of "k * k"] mult_le_mono [of "integer_sqrt (k * k) + 1" k "integer_sqrt (k * k) + 1" k]
    by (cases "integer_sqrt (k * k) < k") auto
  ultimately show ?thesis by simp
qed


lemma exponent_of_one: "exponent_of 1 = 0"
  by (rule exponent_of_unique) simp_all

lemma fsqrt_one: "fsqrt (Finite 1) = Finite 1"
proof -
  have "sqrt_exponent 1 = - 52" by (simp add: sqrt_exponent_def exponent_of_one)
  moreover have "nat \<lfloor>1 / (2 powi (- 52) * 2 powi (- 52) :: rat)\<rfloor> = 2 ^ 52 * 2 ^ 52"
    by (simp add: power_int_minus)
  moreover have "integer_sqrt (2 ^ 52 * 2 ^ 52) = 2 ^ 52" by (rule integer_sqrt_square)
  ultimately have "rounded_sqrt 1 = 1" by (simp add: rounded_sqrt_def Let_def power_int_minus)
  then show ?thesis by simp
qed

end
