(* ===== verification/Terrain_Geometry.thy ===== *)
theory Terrain_Geometry
  imports Swept_Capsule Motion_Limits Seat_Roster "HOL-Library.Product_Lexorder"
begin

text \<open>
  Authored terrain and the geometry under its queries (src/src/simulation/terrain_definition.cpp, the
  first part of terrain_queries.cpp): corridors, holes, exact comparison of directions, distances, and
  the intervals of a sweep that are supported. Arithmetic is binary64 in the order of the code. A
  \<open>Vector2\<close> operation throws when a component leaves its range, so whatever uses one has a result.
\<close>

section \<open>Texts and loops\<close>

text \<open>\<open>std::to_string\<close> of an unsigned integer, and the path of an element of a list.\<close>

fun decimal :: "nat \<Rightarrow> string" where
  "decimal n = (if n < 10 then [char_of (48 + n)] else decimal (n div 10) @ [char_of (48 + n mod 10)])"

definition at_index :: "string \<Rightarrow> nat \<Rightarrow> string \<Rightarrow> string" where
  "at_index list_path i rest = list_path @ ''['' @ decimal i @ '']'' @ rest"

text \<open>\<open>std::any_of\<close> and \<open>std::find_if\<close> with a predicate that may throw: evaluated in order, up to the
  first element that satisfies it.\<close>

fun try_find :: "('a \<Rightarrow> 'e + bool) \<Rightarrow> 'a list \<Rightarrow> 'e + 'a option" where
  "try_find p [] = Inr None"
| "try_find p (x # xs) = try_then (p x) (\<lambda>found. if found then Inr (Some x) else try_find p xs)"

definition try_any :: "('a \<Rightarrow> 'e + bool) \<Rightarrow> 'a list \<Rightarrow> 'e + bool" where
  "try_any p xs = try_then (try_find p xs) (\<lambda>found. Inr (found \<noteq> None))"

fun try_map :: "('a \<Rightarrow> 'e + 'b) \<Rightarrow> 'a list \<Rightarrow> 'e + 'b list" where
  "try_map f [] = Inr []"
| "try_map f (x # xs) = try_then (f x) (\<lambda>y. try_then (try_map f xs) (\<lambda>ys. Inr (y # ys)))"

text \<open>\<open>std::sort\<close> with a comparison. The library leaves the order of equivalent elements open; here they
  keep their order.\<close>

fun insert_by :: "('a \<Rightarrow> 'a \<Rightarrow> bool) \<Rightarrow> 'a \<Rightarrow> 'a list \<Rightarrow> 'a list" where
  "insert_by before x [] = [x]"
| "insert_by before x (y # ys) = (if before y x then y # insert_by before x ys else x # y # ys)"

definition sort_by :: "('a \<Rightarrow> 'a \<Rightarrow> bool) \<Rightarrow> 'a list \<Rightarrow> 'a list" where
  "sort_by before xs = foldr (insert_by before) xs []"

text \<open>\<open>std::unique\<close>: an element equivalent to the one kept before it is dropped.\<close>

fun unique_by :: "('a \<Rightarrow> 'a \<Rightarrow> bool) \<Rightarrow> 'a list \<Rightarrow> 'a list" where
  "unique_by same [] = []"
| "unique_by same [x] = [x]"
| "unique_by same (x # y # ys) = (if same x y then unique_by same (x # ys) else x # unique_by same (y # ys))"

section \<open>Authored shapes\<close>

definition kMaximumTerrainCorridorCount :: nat where "kMaximumTerrainCorridorCount = 8"
definition kMaximumTerrainSegmentCount :: nat where "kMaximumTerrainSegmentCount = 32"
definition kMaximumTerrainPointCount :: nat where "kMaximumTerrainPointCount = 40"
definition kMaximumTerrainHoleCount :: nat where "kMaximumTerrainHoleCount = 32"
definition kMaximumTerrainBoundaryElementCount :: nat where "kMaximumTerrainBoundaryElementCount = 8192"
definition kMaximumTerrainArrangementElementCount :: nat where "kMaximumTerrainArrangementElementCount = 60000"
definition kMaximumTerrainWitnessRoundingStepCount :: nat where "kMaximumTerrainWitnessRoundingStepCount = 4"

datatype terrain_ground = kSolid | kCorridors

record terrain_corridor =
  corridor_name :: string
  half_width :: binary64
  corridor_points :: "vector2 list"

record terrain_hole =
  hole_name :: string
  hole_center :: vector2
  hole_radius :: binary64

definition require_terrain_name :: "string \<Rightarrow> string \<Rightarrow> unit result" where
  "require_terrain_name name context =
     (if \<not> is_wire_kind_name name then Inl (SimError kTerrainDefinitionInvalid context) else Inr ())"

definition require_terrain_extent :: "double \<Rightarrow> string \<Rightarrow> binary64 result" where
  "require_terrain_extent value context =
     (case value of
        Finite x \<Rightarrow>
          if x \<le> 0 \<or> x > kMaximumWorldDimension then Inl (SimError kTerrainDefinitionInvalid context) else Inr x
      | _ \<Rightarrow> Inl (SimError kTerrainDefinitionInvalid context))"

definition require_terrain_count :: "nat \<Rightarrow> nat \<Rightarrow> string \<Rightarrow> unit result" where
  "require_terrain_count actual limit context =
     (if actual > limit then Inl (SimError kTerrainShapeLimitExceeded context) else Inr ())"

definition corridor_segment :: "vector2 list \<Rightarrow> nat \<Rightarrow> unit \<Rightarrow> unit result" where
  "corridor_segment points i _ =
     (let a = points ! (i - 1); b = points ! i in
      if a = b then Inl (SimError kTerrainDefinitionInvalid (at_index ''terrain_corridor.points'' i ''''))
      else
        let dx = fsub (fx b) (fx a); dy = fsub (fy b) (fy a); squared = fadd (fmul dx dx) (fmul dy dy) in
        if \<not> is_finite squared \<or> feq squared (Finite 0)
        then Inl (SimError kTerrainGeometryPrecisionLost (at_index ''terrain_corridor.points'' i ''''))
        else Inr ())"

definition corridor_create :: "string \<Rightarrow> double \<Rightarrow> vector2 list \<Rightarrow> terrain_corridor result" where
  "corridor_create name width points =
     try_then (require_terrain_name name ''terrain_corridor.name'') (\<lambda>_.
     try_then (require_terrain_extent width ''terrain_corridor.half_width'') (\<lambda>w.
       if length points < 2 then Inl (SimError kTerrainDefinitionInvalid ''terrain_corridor.points'')
       else
         try_then (require_terrain_count (length points) kMaximumTerrainPointCount ''terrain_corridor.points'') (\<lambda>_.
         try_then (require_terrain_count (length points - 1) kMaximumTerrainSegmentCount ''terrain_corridor.segments'') (\<lambda>_.
         try_then (try_fold (corridor_segment points) [1..<length points] ()) (\<lambda>_.
           Inr \<lparr>corridor_name = name, half_width = w, corridor_points = points\<rparr>)))))"

definition hole_create :: "string \<Rightarrow> vector2 \<Rightarrow> double \<Rightarrow> terrain_hole result" where
  "hole_create name center radius =
     try_then (require_terrain_name name ''terrain_hole.name'') (\<lambda>_.
     try_then (require_terrain_extent radius ''terrain_hole.radius'') (\<lambda>r.
       Inr \<lparr>hole_name = name, hole_center = center, hole_radius = r\<rparr>))"

section \<open>Distances and directions\<close>

definition precision_lost :: "'a result" where
  "precision_lost = Inl (SimError kTerrainGeometryPrecisionLost ''terrain_queries'')"

definition hypotenuse :: "double \<Rightarrow> double \<Rightarrow> double" where
  "hypotenuse x y = fsqrt (fadd (fmul x x) (fmul y y))"

definition point_distance :: "vector2 \<Rightarrow> vector2 \<Rightarrow> double" where
  "point_distance a b = hypotenuse (fsub (fx a) (fx b)) (fsub (fy a) (fy b))"

text \<open>The nearest point of a segment to a point, with raw coordinates, and its distance.\<close>

definition clamp_unit :: "double \<Rightarrow> double" where
  "clamp_unit t = (if fless t (Finite 0) then Finite 0 else if fless (Finite 1) t then Finite 1 else t)"

definition segment_projection :: "vector2 \<Rightarrow> vector2 \<Rightarrow> vector2 \<Rightarrow> double \<times> double \<times> double" where
  "segment_projection point a b =
     (let dx = fsub (fx b) (fx a); dy = fsub (fy b) (fy a);
          wx = fsub (fx point) (fx a); wy = fsub (fy point) (fy a);
          t = clamp_unit (fdiv (fadd (fmul wx dx) (fmul wy dy)) (fadd (fmul dx dx) (fmul dy dy)));
          cx = fadd (fx a) (fmul dx t); cy = fadd (fy a) (fmul dy t)
      in (cx, cy, hypotenuse (fsub (fx point) cx) (fsub (fy point) cy)))"

definition segment_distance :: "vector2 \<Rightarrow> vector2 \<Rightarrow> vector2 \<Rightarrow> double" where
  "segment_distance point a b = snd (snd (segment_projection point a b))"

text \<open>\<open>project_corridor_raw\<close>: the first nearest segment wins.\<close>

definition project_corridor_raw :: "vector2 list \<Rightarrow> vector2 \<Rightarrow> double \<times> double \<times> double" where
  "project_corridor_raw track point =
     fold (\<lambda>i nearest.
        let projected = segment_projection point (track ! (i - 1)) (track ! i) in
        if fless (snd (snd projected)) (snd (snd nearest)) then projected else nearest)
       [1..<length track] (fx (track ! 0), fy (track ! 0), Infinite True)"

definition cross_product :: "vector2 \<Rightarrow> vector2 \<Rightarrow> double" where
  "cross_product a b = fsub (fmul (fx a) (fy b)) (fmul (fy a) (fx b))"

definition cross_sign :: "vector2 \<Rightarrow> vector2 \<Rightarrow> int" where
  "cross_sign a b =
     (let positive = fmul (fx a) (fy b); negative = fmul (fy a) (fx b) in
      if fless positive negative then - 1
      else if fless negative positive then 1
      else
        let positive_residual = ffma (fx a) (fy b) (fneg positive);
            negative_residual = ffma (fy a) (fx b) (fneg negative)
        in of_bool (fless negative_residual positive_residual) - of_bool (fless positive_residual negative_residual))"

definition upper_half :: "vector2 \<Rightarrow> bool" where
  "upper_half d \<longleftrightarrow> vy d > 0 \<or> (vy d = 0 \<and> vx d \<ge> 0)"

definition angle_less :: "vector2 \<Rightarrow> vector2 \<Rightarrow> bool" where
  "angle_less a b = (if upper_half a \<noteq> upper_half b then upper_half a else cross_sign a b > 0)"

definition same_direction :: "vector2 \<Rightarrow> vector2 \<Rightarrow> bool" where
  "same_direction a b \<longleftrightarrow> cross_sign a b = 0 \<and> fless (Finite 0) (vector_dot a b)"

definition direction_in_arc :: "vector2 \<Rightarrow> vector2 \<Rightarrow> vector2 \<Rightarrow> bool" where
  "direction_in_arc d a b =
     (if vx d = 0 \<and> vy d = 0 then False
      else if same_direction d a \<or> same_direction d b then True
      else if angle_less a b then angle_less a d \<and> angle_less d b
      else angle_less a d \<or> angle_less d b)"

definition circle_point :: "vector2 \<Rightarrow> double \<Rightarrow> vector2 \<Rightarrow> vector2 result" where
  "circle_point center radius direction =
     (let magnitude = hypotenuse (fx direction) (fy direction) in
      if feq magnitude (Finite 0) then precision_lost
      else vector_create (fadd (fx center) (fmul radius (fdiv (fx direction) magnitude)))
                         (fadd (fy center) (fmul radius (fdiv (fy direction) magnitude))))"

definition point_less :: "vector2 \<Rightarrow> vector2 \<Rightarrow> bool" where
  "point_less a b \<longleftrightarrow> vx a < vx b \<or> (vx a = vx b \<and> vy a < vy b)"

section \<open>Intervals of support\<close>

record support_interval =
  interval_begin :: motion_time
  interval_end :: motion_time

definition convex_interval :: "bool \<Rightarrow> bool \<Rightarrow> motion_time list \<Rightarrow> support_interval option result" where
  "convex_interval start_supported end_supported roots =
     (if start_supported \<and> end_supported
      then Inr (Some \<lparr>interval_begin = motion_start, interval_end = motion_end\<rparr>)
      else if roots = []
      then if start_supported \<noteq> end_supported then precision_lost else Inr None
      else if start_supported then Inr (Some \<lparr>interval_begin = motion_start, interval_end = last roots\<rparr>)
      else if end_supported then Inr (Some \<lparr>interval_begin = hd roots, interval_end = motion_end\<rparr>)
      else Inr (Some \<lparr>interval_begin = hd roots, interval_end = last roots\<rparr>))"

definition merge_step :: "support_interval list \<Rightarrow> support_interval \<Rightarrow> support_interval list" where
  "merge_step merged i =
     (if merged \<noteq> [] \<and> interval_begin i \<le> interval_end (last merged)
      then butlast merged @ [(last merged)\<lparr>interval_end := max (interval_end (last merged)) (interval_end i)\<rparr>]
      else merged @ [i])"

definition merge_intervals :: "support_interval list \<Rightarrow> support_interval list" where
  "merge_intervals intervals =
     foldl merge_step [] (sort_key (\<lambda>i. (interval_begin i, interval_end i)) intervals)"

definition axis_interval :: "double \<Rightarrow> double \<Rightarrow> double \<Rightarrow> support_interval option result" where
  "axis_interval start displacement extent =
     try_then (swept_line_boundary_roots start displacement (Finite 0)) (\<lambda>lower.
     try_then (swept_line_boundary_roots start displacement extent) (\<lambda>upper.
       let roots = remdups_adj (sort (root_times lower @ root_times upper));
           finish = fadd start displacement
       in convex_interval (fle (Finite 0) start \<and> fle start extent) (fle (Finite 0) finish \<and> fle finish extent) roots))"

definition intersect_interval :: "support_interval option \<Rightarrow> support_interval list \<Rightarrow> support_interval list" where
  "intersect_interval clipping intervals =
     (case clipping of
        None \<Rightarrow> []
      | Some c \<Rightarrow>
          filter (\<lambda>i. interval_begin i \<le> interval_end i)
            (map (\<lambda>i. \<lparr>interval_begin = max (interval_begin i) (interval_begin c),
                       interval_end = min (interval_end i) (interval_end c)\<rparr>) intervals))"

definition subtract_open_hole ::
  "support_interval \<Rightarrow> bool \<Rightarrow> bool \<Rightarrow> support_interval list \<Rightarrow> support_interval list" where
  "subtract_open_hole hole remove_begin remove_end intervals =
     concat (map (\<lambda>i.
       if interval_end hole < interval_begin i \<or> interval_begin hole > interval_end i then [i]
       else
         (if interval_begin hole \<ge> interval_begin i \<and> \<not> remove_begin
          then [\<lparr>interval_begin = interval_begin i, interval_end = min (interval_end i) (interval_begin hole)\<rparr>] else []) @
         (if interval_end hole \<le> interval_end i \<and> \<not> remove_end
          then [\<lparr>interval_begin = max (interval_begin i) (interval_end hole), interval_end = interval_end i\<rparr>] else []))
       intervals)"

end
