(* ===== verification/Terrain_Boundary.thy ===== *)
theory Terrain_Boundary
  imports Terrain_Geometry
begin

text \<open>
  The exposed boundary of a terrain (\<open>compile_terrain_boundary\<close>, src/src/simulation/terrain_queries.cpp):
  the arena rectangle, the capsules of the corridors and the holes as shapes, their sides and arcs as
  features, the points where features cut each other, and the spans between cuts that separate
  supported ground from unsupported ground. A feature id counts features from one.
\<close>

section \<open>Shapes and features\<close>

datatype shape_kind = kEnvelope | kCapsule | kHole

record shape =
  kind_of_shape :: shape_kind
  shape_begin :: vector2
  shape_end :: vector2
  shape_radius :: double

datatype raw_geometry =
    RawLine (line_begin: vector2) (line_end: vector2) (inward_normal: vector2)
  | RawArc (arc_center: vector2) (arc_radius: double) (arc_begin: vector2) (arc_end: vector2)

record cut =
  cut_point :: vector2
  cut_direction :: vector2
  cut_time :: motion_time

record raw_feature =
  feature_id :: nat
  feature_shape :: nat
  feature_geometry :: raw_geometry
  feature_cuts :: "cut list"

record supported_sector =
  sector_begin :: vector2
  sector_end :: vector2
  sector_interior :: vector2

datatype span_geometry =
    LineSpan vector2 vector2
  | ArcSpan vector2 double vector2 vector2 vector2 vector2

record boundary_span =
  span_feature :: nat
  span_geometry_of :: span_geometry
  supported_side :: int
  begin_sector :: "supported_sector option"
  end_sector :: "supported_sector option"

record terrain_boundary =
  boundary_spans :: "boundary_span list"
  isolated_points :: "(nat \<times> vector2) list"

definition require_arrangement_bound :: "nat \<Rightarrow> unit result" where
  "require_arrangement_bound n =
     (if n > kMaximumTerrainArrangementElementCount
      then Inl (SimError kTerrainBoundaryLimitExceeded ''terrain_queries.compile_boundary'') else Inr ())"

definition cardinals :: "vector2 list" where
  "cardinals = [\<lparr>vx = 1, vy = 0\<rparr>, \<lparr>vx = 0, vy = 1\<rparr>, \<lparr>vx = - 1, vy = 0\<rparr>, \<lparr>vx = 0, vy = - 1\<rparr>]"

primrec geometry_normal :: "raw_geometry \<Rightarrow> vector2 \<Rightarrow> vector2 result" where
  "geometry_normal (RawLine b e n) point = Inr n"
| "geometry_normal (RawArc c r d1 d2) point = vector_subtract c point"

definition feature_normal :: "raw_feature \<Rightarrow> vector2 \<Rightarrow> vector2 result" where
  "feature_normal f = geometry_normal (feature_geometry f)"

definition line_contains :: "vector2 \<Rightarrow> vector2 \<Rightarrow> vector2 \<Rightarrow> bool result" where
  "line_contains b e point =
     try_then (vector_subtract e b) (\<lambda>direction.
     try_then (vector_subtract point b) (\<lambda>offset.
       if cross_sign direction offset = 0 \<and> fle (Finite 0) (vector_dot offset direction)
       then try_then (vector_subtract point e) (\<lambda>past. Inr (fle (vector_dot past direction) (Finite 0)))
       else Inr False))"

datatype line_axis = kNeitherAxis | kHorizontal | kVertical

fun line_axis_of :: "vector2 \<Rightarrow> vector2 \<Rightarrow> vector2 \<Rightarrow> line_axis" where
  "line_axis_of b e n =
     (if vx b = vx e \<and> vy n = 0 \<and> vx n \<noteq> 0 then kVertical
      else if vy b = vy e \<and> vx n = 0 \<and> vy n \<noteq> 0 then kHorizontal
      else kNeitherAxis)"

definition axis_line_contains :: "vector2 \<Rightarrow> vector2 \<Rightarrow> vector2 \<Rightarrow> vector2 \<Rightarrow> bool" where
  "axis_line_contains b e n point =
     (case line_axis_of b e n of
        kVertical \<Rightarrow> vx point = vx b \<and> vy point \<ge> min (vy b) (vy e) \<and> vy point \<le> max (vy b) (vy e)
      | kHorizontal \<Rightarrow> vy point = vy b \<and> vx point \<ge> min (vx b) (vx e) \<and> vx point \<le> max (vx b) (vx e)
      | kNeitherAxis \<Rightarrow> False)"

definition line_point :: "vector2 \<Rightarrow> vector2 \<Rightarrow> motion_time \<Rightarrow> vector2 result" where
  "line_point b e t =
     (if t = motion_start then Inr b
      else if t = motion_end then Inr e
      else try_then (vector_subtract e b) (\<lambda>d. try_then (vector_scale d (Finite t)) (vector_add b)))"

fun coincident_geometry :: "raw_geometry \<Rightarrow> raw_geometry \<Rightarrow> vector2 \<Rightarrow> bool result" where
  "coincident_geometry (RawLine b1 e1 n1) (RawLine b2 e2 n2) point =
     try_then (vector_subtract e1 b1) (\<lambda>d1.
     try_then (vector_subtract e2 b2) (\<lambda>d2.
       if cross_sign d1 d2 \<noteq> 0 then Inr False
       else try_then (vector_subtract b2 b1) (\<lambda>between.
              if cross_sign d1 between \<noteq> 0 then Inr False else line_contains b2 e2 point)))"
| "coincident_geometry (RawArc c1 r1 d1 e1) (RawArc c2 r2 d2 e2) point =
     (if c1 = c2 \<and> feq r1 r2
      then try_then (vector_subtract point c2) (\<lambda>direction. Inr (direction_in_arc direction d2 e2))
      else Inr False)"
| "coincident_geometry _ _ point = Inr False"

definition coincident_at :: "raw_feature \<Rightarrow> raw_feature \<Rightarrow> vector2 \<Rightarrow> bool result" where
  "coincident_at source other = coincident_geometry (feature_geometry source) (feature_geometry other)"

definition strictly_inside :: "shape \<Rightarrow> vector2 \<Rightarrow> bool" where
  "strictly_inside s point =
     (case kind_of_shape s of
        kEnvelope \<Rightarrow> vx point > 0 \<and> vx point < vx (shape_end s) \<and> vy point > 0 \<and> vy point < vy (shape_end s)
      | kCapsule \<Rightarrow> fless (segment_distance point (shape_begin s) (shape_end s)) (shape_radius s)
      | kHole \<Rightarrow> fless (point_distance point (shape_begin s)) (shape_radius s))"

definition exactly_on_boundary :: "shape \<Rightarrow> vector2 \<Rightarrow> bool" where
  "exactly_on_boundary s point =
     (case kind_of_shape s of
        kEnvelope \<Rightarrow>
          ((vx point = 0 \<or> vx point = vx (shape_end s)) \<and> vy point \<ge> 0 \<and> vy point \<le> vy (shape_end s)) \<or>
          ((vy point = 0 \<or> vy point = vy (shape_end s)) \<and> vx point \<ge> 0 \<and> vx point \<le> vx (shape_end s))
      | kCapsule \<Rightarrow> feq (segment_distance point (shape_begin s) (shape_end s)) (shape_radius s)
      | kHole \<Rightarrow> feq (point_distance point (shape_begin s)) (shape_radius s))"

section \<open>Cuts\<close>

fun cut_of :: "raw_geometry \<Rightarrow> vector2 \<Rightarrow> cut option result" where
  "cut_of (RawLine b e n) point =
     try_then (vector_subtract e b) (\<lambda>direction.
       let use_x = fle (fabs (fy direction)) (fabs (fx direction)) in
       try_then (swept_line_boundary_roots (if use_x then fx b else fy b) (if use_x then fx direction else fy direction)
                   (if use_x then fx point else fy point)) (\<lambda>roots.
         case root_times roots of
           [] \<Rightarrow> Inr None
         | t # _ \<Rightarrow> Inr (Some \<lparr>cut_point = point, cut_direction = zero_vector, cut_time = t\<rparr>)))"
| "cut_of (RawArc c r d1 d2) point =
     try_then (vector_subtract point c) (\<lambda>direction.
       if direction_in_arc direction d1 d2
       then Inr (Some \<lparr>cut_point = point, cut_direction = direction, cut_time = motion_start\<rparr>)
       else Inr None)"

definition add_cut :: "vector2 \<Rightarrow> raw_feature \<times> nat \<Rightarrow> (raw_feature \<times> nat) result" where
  "add_cut point st =
     (case st of (f, n) \<Rightarrow>
        if list_ex (\<lambda>c. cut_point c = point) (feature_cuts f) then Inr (f, n)
        else
          try_then (cut_of (feature_geometry f) point) (\<lambda>new_cut.
            case new_cut of
              None \<Rightarrow> Inr (f, n)
            | Some c \<Rightarrow>
                try_then (require_arrangement_bound (n + 1)) (\<lambda>_.
                  Inr (f\<lparr>feature_cuts := feature_cuts f @ [c]\<rparr>, n + 1))))"

type_synonym arrangement = "raw_feature list \<times> nat"

definition append_line :: "nat \<Rightarrow> vector2 \<Rightarrow> vector2 \<Rightarrow> vector2 \<Rightarrow> arrangement \<Rightarrow> arrangement result" where
  "append_line s b e n st =
     (case st of (fs, incidences) \<Rightarrow>
        if b = e then precision_lost
        else
          try_then (add_cut b (\<lparr>feature_id = length fs + 1, feature_shape = s, feature_geometry = RawLine b e n,
                                feature_cuts = []\<rparr>, incidences)) (\<lambda>st.
          try_then (add_cut e st) (\<lambda>(f, incidences). Inr (fs @ [f], incidences))))"

definition add_cardinal :: "vector2 \<Rightarrow> double \<Rightarrow> vector2 \<Rightarrow> vector2 \<Rightarrow> vector2 \<Rightarrow> cut list \<times> nat \<Rightarrow> (cut list \<times> nat) result" where
  "add_cardinal c r d1 d2 cardinal st =
     (case st of (cuts, n) \<Rightarrow>
        if direction_in_arc cardinal d1 d2
        then
          try_then (circle_point c r cardinal) (\<lambda>p.
          try_then (require_arrangement_bound (n + 1)) (\<lambda>_.
            Inr (cuts @ [\<lparr>cut_point = p, cut_direction = cardinal, cut_time = motion_start\<rparr>], n + 1)))
        else Inr (cuts, n))"

definition append_arc :: "nat \<Rightarrow> vector2 \<Rightarrow> double \<Rightarrow> vector2 \<Rightarrow> vector2 \<Rightarrow> arrangement \<Rightarrow> arrangement result" where
  "append_arc s c r d1 d2 st =
     (case st of (fs, n) \<Rightarrow>
        try_then (circle_point c r d1) (\<lambda>p.
        try_then (circle_point c r d2) (\<lambda>q.
        try_then (require_arrangement_bound (n + 2)) (\<lambda>_.
        try_then (try_fold (add_cardinal c r d1 d2) cardinals
                    ([\<lparr>cut_point = p, cut_direction = d1, cut_time = motion_start\<rparr>,
                      \<lparr>cut_point = q, cut_direction = d2, cut_time = motion_start\<rparr>], n + 2)) (\<lambda>(cuts, n).
          Inr (fs @ [\<lparr>feature_id = length fs + 1, feature_shape = s, feature_geometry = RawArc c r d1 d2,
                      feature_cuts = cuts\<rparr>], n))))))"

section \<open>Intersections\<close>

text \<open>Two features and the number of incidences, as \<open>intersect_features\<close> mutates them.\<close>

type_synonym meeting = "raw_feature \<times> raw_feature \<times> nat"

definition add_shared :: "vector2 \<Rightarrow> meeting \<Rightarrow> meeting result" where
  "add_shared point m =
     (case m of (f, g, n) \<Rightarrow>
        try_then (add_cut point (f, n)) (\<lambda>(f, n). try_then (add_cut point (g, n)) (\<lambda>(g, n). Inr (f, g, n))))"

definition share_on_both :: "vector2 \<Rightarrow> vector2 \<Rightarrow> vector2 \<Rightarrow> vector2 \<Rightarrow> vector2 \<Rightarrow> meeting \<Rightarrow> meeting result" where
  "share_on_both b1 e1 b2 e2 point m =
     try_then (line_contains b1 e1 point) (\<lambda>on_first.
       if \<not> on_first then Inr m
       else try_then (line_contains b2 e2 point) (\<lambda>on_second. if on_second then add_shared point m else Inr m))"

definition retain_endpoint ::
  "vector2 \<times> raw_geometry \<Rightarrow> vector2 option \<Rightarrow> vector2 option result" where
  "retain_endpoint candidate retained =
     (case candidate of
        (endpoint, RawLine b e n) \<Rightarrow>
          if axis_line_contains b e n endpoint
          then if retained \<noteq> None \<and> retained \<noteq> Some endpoint then precision_lost else Inr (Some endpoint)
          else Inr retained
      | (endpoint, RawArc c r d1 d2) \<Rightarrow> Inr retained)"

definition share_crossing ::
  "vector2 \<Rightarrow> vector2 \<Rightarrow> vector2 \<Rightarrow> vector2 \<Rightarrow> motion_time \<Rightarrow> meeting \<Rightarrow> meeting result" where
  "share_crossing b1 e1 b2 d2 hit m =
     try_then (line_point b1 e1 hit) (\<lambda>point.
     try_then (vector_subtract point b2) (\<lambda>offset.
       let projection = vector_dot offset d2 in
       if fle (Finite 0) projection \<and> fle projection (vector_dot d2 d2) then add_shared point m else Inr m))"

definition intersect_lines ::
  "vector2 \<Rightarrow> vector2 \<Rightarrow> vector2 \<Rightarrow> vector2 \<Rightarrow> vector2 \<Rightarrow> vector2 \<Rightarrow> meeting \<Rightarrow> meeting result" where
  "intersect_lines b1 e1 n1 b2 e2 n2 m =
     try_then (vector_subtract e1 b1) (\<lambda>d1.
     try_then (vector_subtract e2 b2) (\<lambda>d2.
       if cross_sign d1 d2 = 0
       then
         try_then (vector_subtract b2 b1) (\<lambda>between.
           if cross_sign d1 between = 0 then try_fold (share_on_both b1 e1 b2 e2) [b1, e1, b2, e2] m else Inr m)
       else
         try_then (try_fold retain_endpoint
                     [(b1, RawLine b2 e2 n2), (e1, RawLine b2 e2 n2), (b2, RawLine b1 e1 n1), (e2, RawLine b1 e1 n1)] None)
           (\<lambda>retained.
           case retained of
             Some endpoint \<Rightarrow> add_shared endpoint m
           | None \<Rightarrow>
               try_then (vector_subtract b1 b2) (\<lambda>start.
               try_then (swept_line_boundary_roots (cross_product start d2) (cross_product d1 d2) (Finite 0)) (\<lambda>roots.
                 try_fold (share_crossing b1 e1 b2 d2) (root_times roots) m)))))"

text \<open>A capsule side and a cap of the same radius on its axis are tangent by construction.\<close>

definition intersect_own_cap ::
  "shape \<Rightarrow> vector2 \<Rightarrow> vector2 \<Rightarrow> vector2 \<Rightarrow> vector2 \<Rightarrow> vector2 \<Rightarrow> meeting \<Rightarrow> meeting result" where
  "intersect_own_cap line_shape b e c d1 d2 m =
     (let center_at_begin = (c = shape_begin line_shape) in
      try_then (vector_subtract (shape_end line_shape) (shape_begin line_shape)) (\<lambda>axis.
      try_then (vector_subtract e b) (\<lambda>direction.
        let line_forward = fless (Finite 0) (vector_dot direction axis);
            tangent = (if center_at_begin = line_forward then b else e)
        in try_then (vector_subtract tangent c) (\<lambda>offset.
             if direction_in_arc offset d1 d2 then add_shared tangent m else Inr m))))"

definition diameter_point ::
  "cut list \<Rightarrow> vector2 \<Rightarrow> double \<Rightarrow> vector2 \<Rightarrow> vector2 \<Rightarrow> vector2 \<Rightarrow> vector2 option result" where
  "diameter_point cuts c r d1 d2 direction =
     (if \<not> direction_in_arc direction d1 d2 then Inr None
      else
        try_then (circle_point c r direction) (\<lambda>point.
          if list_ex (\<lambda>k. cut_point k = point \<and> cut_direction k = direction) cuts then Inr (Some point)
          else precision_lost))"

definition share_on_axis :: "vector2 \<Rightarrow> vector2 \<Rightarrow> vector2 \<Rightarrow> vector2 option \<Rightarrow> meeting \<Rightarrow> meeting result" where
  "share_on_axis b e n candidate m =
     (case candidate of
        Some point \<Rightarrow> if axis_line_contains b e n point then add_shared point m else Inr m
      | None \<Rightarrow> Inr m)"

definition intersect_diameter ::
  "cut list \<Rightarrow> vector2 \<Rightarrow> vector2 \<Rightarrow> vector2 \<Rightarrow> vector2 \<Rightarrow> double \<Rightarrow> vector2 \<Rightarrow> vector2 \<Rightarrow> bool \<Rightarrow> meeting \<Rightarrow> meeting result" where
  "intersect_diameter cuts b e n c r d1 d2 vertical m =
     (let axis = (if vertical then \<lparr>vx = 0, vy = 1\<rparr> else \<lparr>vx = 1, vy = 0\<rparr>) in
      try_then (vector_negate axis) (\<lambda>opposite.
      try_then (diameter_point cuts c r d1 d2 axis) (\<lambda>p.
      try_then (diameter_point cuts c r d1 d2 opposite) (\<lambda>q.
        try_fold (share_on_axis b e n) [p, q] m))))"

definition share_in_arc ::
  "vector2 \<Rightarrow> vector2 \<Rightarrow> vector2 \<Rightarrow> vector2 \<Rightarrow> vector2 \<Rightarrow> motion_time \<Rightarrow> meeting \<Rightarrow> meeting result" where
  "share_in_arc b e c d1 d2 hit m =
     try_then (line_point b e hit) (\<lambda>point.
     try_then (vector_subtract point c) (\<lambda>offset.
       if direction_in_arc offset d1 d2 then add_shared point m else Inr m))"

definition intersect_line_arc ::
  "shape \<Rightarrow> cut list \<Rightarrow> vector2 \<Rightarrow> vector2 \<Rightarrow> vector2 \<Rightarrow> vector2 \<Rightarrow> double \<Rightarrow> vector2 \<Rightarrow> vector2 \<Rightarrow> meeting \<Rightarrow> meeting result" where
  "intersect_line_arc line_shape arc_cuts b e n c r d1 d2 m =
     (if kind_of_shape line_shape = kCapsule \<and> feq (shape_radius line_shape) r \<and>
         (c = shape_begin line_shape \<or> c = shape_end line_shape)
      then intersect_own_cap line_shape b e c d1 d2 m
      else
        let vertical = (line_axis_of b e n = kVertical \<and> vx b = vx c);
            horizontal = (line_axis_of b e n = kHorizontal \<and> vy b = vy c)
        in if vertical \<or> horizontal then intersect_diameter arc_cuts b e n c r d1 d2 vertical m
           else
             try_then (vector_subtract e b) (\<lambda>displacement.
             try_then (swept_circle_boundary_roots b displacement c r) (\<lambda>roots.
               try_fold (share_in_arc b e c d1 d2) (root_times roots) m)))"

text \<open>Two arcs of one circle take over each other's cuts.\<close>

definition exchange_cuts :: "meeting \<Rightarrow> meeting result" where
  "exchange_cuts m =
     (case m of (f, g, n) \<Rightarrow>
        try_then (try_fold (\<lambda>c. add_cut (cut_point c)) (feature_cuts f) (g, n)) (\<lambda>(g', n).
        try_then (try_fold (\<lambda>c. add_cut (cut_point c)) (feature_cuts g) (f, n)) (\<lambda>(f', n). Inr (f', g', n))))"

definition share_of_arcs ::
  "vector2 \<Rightarrow> vector2 \<Rightarrow> raw_geometry \<Rightarrow> raw_geometry \<Rightarrow> motion_time \<Rightarrow> meeting \<Rightarrow> meeting result" where
  "share_of_arcs start displacement a b hit m =
     try_then (vector_scale displacement (Finite hit)) (\<lambda>step.
     try_then (vector_add start step) (\<lambda>point.
     try_then (vector_subtract point (arc_center a)) (\<lambda>first_offset.
       if \<not> direction_in_arc first_offset (arc_begin a) (arc_end a) then Inr m
       else
         try_then (vector_subtract point (arc_center b)) (\<lambda>second_offset.
           if direction_in_arc second_offset (arc_begin b) (arc_end b) then add_shared point m else Inr m))))"

definition intersect_arcs :: "raw_geometry \<Rightarrow> raw_geometry \<Rightarrow> meeting \<Rightarrow> meeting result" where
  "intersect_arcs a b m =
     (if arc_center a = arc_center b
      then if feq (arc_radius a) (arc_radius b) then exchange_cuts m else Inr m
      else
        try_then (vector_subtract (arc_center b) (arc_center a)) (\<lambda>centers.
          let separation = hypotenuse (fx centers) (fy centers) in
          if feq separation (Finite 0) then precision_lost
          else if fless (fadd (arc_radius a) (arc_radius b)) separation \<or>
                  fless separation (fabs (fsub (arc_radius a) (arc_radius b)))
          then Inr m
          else
            let squared = fadd (fmul (fx centers) (fx centers)) (fmul (fy centers) (fy centers));
                fraction = fdiv (fsub (fadd squared (fmul (arc_radius a) (arc_radius a))) (fmul (arc_radius b) (arc_radius b)))
                                (fmul (Finite 2) squared)
            in
            try_then (vector_scale centers fraction) (\<lambda>along.
            try_then (vector_add (arc_center a) along) (\<lambda>foot.
            try_then (vector_create (fdiv (fneg (fy centers)) separation) (fdiv (fx centers) separation)) (\<lambda>normal.
            try_then (vector_scale normal (arc_radius a)) (\<lambda>back.
            try_then (vector_subtract foot back) (\<lambda>start.
            try_then (vector_scale normal (fmul (Finite 2) (arc_radius a))) (\<lambda>displacement.
            try_then (swept_circle_boundary_roots start displacement (arc_center a) (arc_radius a)) (\<lambda>roots.
              try_fold (share_of_arcs start displacement a b) (root_times roots) m)))))))))"

definition intersect_features :: "shape list \<Rightarrow> meeting \<Rightarrow> meeting result" where
  "intersect_features shapes m =
     (case m of (f, g, n) \<Rightarrow>
        (case (feature_geometry f, feature_geometry g) of
           (RawLine b1 e1 n1, RawLine b2 e2 n2) \<Rightarrow> intersect_lines b1 e1 n1 b2 e2 n2 m
         | (RawLine b e k, RawArc c r d1 d2) \<Rightarrow>
             intersect_line_arc (shapes ! feature_shape f) (feature_cuts g) b e k c r d1 d2 m
         | (RawArc c r d1 d2, RawLine b e k) \<Rightarrow>
             intersect_line_arc (shapes ! feature_shape g) (feature_cuts f) b e k c r d1 d2 m
         | (a, b) \<Rightarrow> intersect_arcs a b m))"

definition intersect_pair :: "shape list \<Rightarrow> nat \<times> nat \<Rightarrow> arrangement \<Rightarrow> arrangement result" where
  "intersect_pair shapes ij st =
     (case (ij, st) of ((i, j), (fs, n)) \<Rightarrow>
        if feature_shape (fs ! i) = feature_shape (fs ! j) then Inr st
        else try_then (intersect_features shapes (fs ! i, fs ! j, n)) (\<lambda>(f, g, n). Inr (fs[i := f, j := g], n)))"

definition intersect_all :: "shape list \<Rightarrow> arrangement \<Rightarrow> arrangement result" where
  "intersect_all shapes st =
     (let k = length (fst st) in
      try_fold (intersect_pair shapes) (concat (map (\<lambda>i. map (\<lambda>j. (i, j)) [i + 1..<k]) [0..<k])) st)"

end
