(* ===== verification/Terrain_Compilation.thy ===== *)
theory Terrain_Compilation
  imports Terrain_Boundary
begin

text \<open>
  The second half of \<open>compile_terrain_boundary\<close> (src/src/simulation/terrain_queries.cpp): the support on
  either side of a boundary cell, the supported sector of every vertex, and the spans and isolated
  points that make the cached boundary; and the terrain value that owns it (terrain_definition.cpp).
\<close>

section \<open>Support beside a boundary\<close>

record local_support =
  support_on :: bool
  support_left :: bool
  support_right :: bool

definition same_support :: "bool \<Rightarrow> local_support" where
  "same_support x = \<lparr>support_on = x, support_left = x, support_right = x\<rparr>"

definition support_union :: "local_support \<Rightarrow> local_support \<Rightarrow> local_support" where
  "support_union a b =
     \<lparr>support_on = support_on a \<or> support_on b, support_left = support_left a \<or> support_left b,
      support_right = support_right a \<or> support_right b\<rparr>"

record support_sum =
  envelope_support :: local_support
  positive_support :: local_support
  hole_support :: local_support

definition incident_at :: "nat \<Rightarrow> raw_feature \<Rightarrow> vector2 \<Rightarrow> raw_feature \<Rightarrow> bool result" where
  "incident_at s source point f =
     (if feature_shape f \<noteq> s then Inr False
      else if feature_id f = feature_id source then Inr True
      else coincident_at source f point)"

definition shape_membership ::
  "vector2 \<Rightarrow> vector2 \<Rightarrow> raw_feature \<Rightarrow> raw_feature list \<Rightarrow> shape list \<Rightarrow> nat \<Rightarrow> local_support result" where
  "shape_membership point normal source fs shapes i =
     try_then (try_find (incident_at i source point) fs) (\<lambda>incident.
       case incident of
         Some f \<Rightarrow>
           try_then (feature_normal f point) (\<lambda>n.
             let aligned = fless (Finite 0) (vector_dot normal n) in
             Inr \<lparr>support_on = (kind_of_shape (shapes ! i) \<noteq> kHole), support_left = aligned, support_right = (\<not> aligned)\<rparr>)
       | None \<Rightarrow>
           if exactly_on_boundary (shapes ! i) point then precision_lost
           else Inr (same_support (strictly_inside (shapes ! i) point)))"

definition add_membership ::
  "vector2 \<Rightarrow> vector2 \<Rightarrow> raw_feature \<Rightarrow> raw_feature list \<Rightarrow> shape list \<Rightarrow> nat \<Rightarrow> support_sum \<Rightarrow> support_sum result" where
  "add_membership point normal source fs shapes i memberships =
     try_then (shape_membership point normal source fs shapes i) (\<lambda>membership.
       Inr (case kind_of_shape (shapes ! i) of
              kEnvelope \<Rightarrow> memberships\<lparr>envelope_support := membership\<rparr>
            | kCapsule \<Rightarrow> memberships\<lparr>positive_support := support_union (positive_support memberships) membership\<rparr>
            | kHole \<Rightarrow> memberships\<lparr>hole_support := support_union (hole_support memberships) membership\<rparr>))"

definition local_support_of ::
  "vector2 \<Rightarrow> vector2 \<Rightarrow> raw_feature \<Rightarrow> raw_feature list \<Rightarrow> shape list \<Rightarrow> terrain_ground \<Rightarrow> local_support result" where
  "local_support_of point normal source fs shapes ground =
     try_then (try_fold (add_membership point normal source fs shapes) [0..<length shapes]
        \<lparr>envelope_support = same_support False, positive_support = same_support (ground = kSolid),
         hole_support = same_support False\<rparr>) (\<lambda>memberships.
       let e = envelope_support memberships; p = positive_support memberships; h = hole_support memberships in
       Inr \<lparr>support_on = support_on e \<and> support_on p \<and> \<not> support_on h,
            support_left = support_left e \<and> support_left p \<and> \<not> support_left h,
            support_right = support_right e \<and> support_right p \<and> \<not> support_right h\<rparr>)"

definition cut_by_shape :: "vector2 \<Rightarrow> raw_feature list \<Rightarrow> nat \<Rightarrow> bool" where
  "cut_by_shape point fs i \<longleftrightarrow>
     list_ex (\<lambda>f. feature_shape f = i \<and> list_ex (\<lambda>c. cut_point c = point) (feature_cuts f)) fs"

fun arrangement_support :: "vector2 \<Rightarrow> raw_feature list \<Rightarrow> nat \<Rightarrow> shape list \<Rightarrow> bool \<Rightarrow> bool" where
  "arrangement_support point fs i [] positive = positive"
| "arrangement_support point fs i (s # shapes) positive =
     (let boundary = cut_by_shape point fs i; inside = (\<not> boundary \<and> strictly_inside s point) in
      if kind_of_shape s = kEnvelope \<and> \<not> inside \<and> \<not> boundary then False
      else if kind_of_shape s = kHole \<and> inside then False
      else arrangement_support point fs (Suc i) shapes
             (if kind_of_shape s = kCapsule then positive \<or> inside \<or> boundary else positive))"

definition point_supported_by_arrangement :: "vector2 \<Rightarrow> raw_feature list \<Rightarrow> shape list \<Rightarrow> terrain_ground \<Rightarrow> bool" where
  "point_supported_by_arrangement point fs shapes ground = arrangement_support point fs 0 shapes (ground = kSolid)"

section \<open>The supported sector of a vertex\<close>

definition direction_inside_sector :: "vector2 \<Rightarrow> supported_sector \<Rightarrow> bool" where
  "direction_inside_sector d s \<longleftrightarrow> cross_sign (sector_begin s) d > 0 \<and> cross_sign d (sector_end s) > 0"

definition sector_inside_halfspace :: "vector2 \<Rightarrow> vector2 \<Rightarrow> bool" where
  "sector_inside_halfspace b tangent \<longleftrightarrow>
     cross_sign b tangent > 0 \<or> (cross_sign b tangent = 0 \<and> \<not> same_direction b tangent)"

definition cut_normal :: "raw_feature \<Rightarrow> cut \<Rightarrow> vector2 \<Rightarrow> vector2 result" where
  "cut_normal f c point =
     (case feature_geometry f of
        RawLine b e n \<Rightarrow> feature_normal f point
      | RawArc _ _ _ _ \<Rightarrow> vector_negate (cut_direction c))"

text \<open>The tangents of the features through a vertex, with the shape of each, and the rays they span.\<close>

definition add_incidence ::
  "vector2 \<Rightarrow> nat \<Rightarrow> raw_feature \<Rightarrow> (nat \<times> vector2) list \<times> vector2 list \<Rightarrow>
    ((nat \<times> vector2) list \<times> vector2 list) result" where
  "add_incidence point storage f st =
     (case find (\<lambda>c. cut_point c = point) (feature_cuts f) of
        None \<Rightarrow> Inr st
      | Some c \<Rightarrow>
          try_then (cut_normal f c point) (\<lambda>normal.
          try_then (vector_create (fneg (fy normal)) (fx normal)) (\<lambda>tangent.
            if vx tangent = 0 \<and> vy tangent = 0 then precision_lost
            else
              try_then (vector_negate tangent) (\<lambda>opposite.
                let incident = fst st @ [(feature_shape f, tangent)]; rays = snd st @ [tangent, opposite] in
                try_then (require_arrangement_bound (storage + length incident + length rays)) (\<lambda>_.
                  Inr (incident, rays))))))"

definition sector_membership :: "vector2 \<Rightarrow> vector2 \<Rightarrow> (nat \<times> vector2) list \<Rightarrow> shape list \<Rightarrow> nat \<Rightarrow> bool result" where
  "sector_membership point b incident shapes i =
     (let own = filter (\<lambda>t. fst t = i) incident in
      if own \<noteq> [] then Inr (list_all (\<lambda>t. sector_inside_halfspace b (snd t)) own)
      else if exactly_on_boundary (shapes ! i) point then precision_lost
      else Inr (strictly_inside (shapes ! i) point))"

definition add_sector_membership ::
  "vector2 \<Rightarrow> vector2 \<Rightarrow> (nat \<times> vector2) list \<Rightarrow> shape list \<Rightarrow> nat \<Rightarrow> bool \<times> bool \<times> bool \<Rightarrow> (bool \<times> bool \<times> bool) result" where
  "add_sector_membership point b incident shapes i memberships =
     try_then (sector_membership point b incident shapes i) (\<lambda>inside.
       Inr (case memberships of (envelope, positive, holes) \<Rightarrow>
              (case kind_of_shape (shapes ! i) of
                 kEnvelope \<Rightarrow> (inside, positive, holes)
               | kCapsule \<Rightarrow> (envelope, positive \<or> inside, holes)
               | kHole \<Rightarrow> (envelope, positive, holes \<or> inside))))"

definition sector_of_rays :: "vector2 \<Rightarrow> vector2 \<Rightarrow> supported_sector result" where
  "sector_of_rays b e =
     try_then
       (if cross_sign b e = 0 then vector_create (fneg (fy b)) (fx b)
        else try_then (circle_point zero_vector (Finite 1) b) (\<lambda>p.
             try_then (circle_point zero_vector (Finite 1) e) (\<lambda>q. vector_add p q))) (\<lambda>interior.
       let s = \<lparr>sector_begin = b, sector_end = e, sector_interior = interior\<rparr> in
       if direction_inside_sector interior s then Inr s else precision_lost)"

fun first_supported_sector ::
  "vector2 \<Rightarrow> (nat \<times> vector2) list \<Rightarrow> shape list \<Rightarrow> terrain_ground \<Rightarrow> vector2 \<Rightarrow> vector2 list \<Rightarrow> supported_sector option result" where
  "first_supported_sector point incident shapes ground first [] = Inr None"
| "first_supported_sector point incident shapes ground first (b # rays) =
     try_then (try_fold (add_sector_membership point b incident shapes) [0..<length shapes]
                 (False, ground = kSolid, False)) (\<lambda>(envelope, positive, holes).
       if envelope \<and> positive \<and> \<not> holes
       then try_then (sector_of_rays b (if rays = [] then first else hd rays)) (\<lambda>s. Inr (Some s))
       else first_supported_sector point incident shapes ground first rays)"

definition vertex_supported_sector ::
  "raw_feature list \<Rightarrow> shape list \<Rightarrow> terrain_ground \<Rightarrow> nat \<Rightarrow> vector2 \<Rightarrow> supported_sector option result" where
  "vertex_supported_sector fs shapes ground storage point =
     try_then (try_fold (add_incidence point storage) fs ([], [])) (\<lambda>(incident, rays).
       let rays = unique_by same_direction (sort_by angle_less rays) in
       first_supported_sector point incident shapes ground (hd rays) rays)"

text \<open>The vertices with their sectors, and the number of vertex slots retained before duplicates went.
  The bound is checked at every push; the last check is the largest.\<close>

definition compile_vertex_sectors ::
  "raw_feature list \<Rightarrow> shape list \<Rightarrow> terrain_ground \<Rightarrow> nat \<Rightarrow> ((vector2 \<times> supported_sector option) list \<times> nat) result" where
  "compile_vertex_sectors fs shapes ground incidences =
     (let points = concat (map (\<lambda>f. map cut_point (feature_cuts f)) fs); slots = length points in
      try_then (require_arrangement_bound (incidences + slots)) (\<lambda>_.
      try_then (try_map (\<lambda>p. try_then (vertex_supported_sector fs shapes ground (incidences + slots) p) (\<lambda>s. Inr (p, s)))
                  (unique_by (=) (sort_by point_less points))) (\<lambda>vertices.
        Inr (vertices, slots))))"

definition sector_at :: "(vector2 \<times> supported_sector option) list \<Rightarrow> vector2 \<Rightarrow> supported_sector option result" where
  "sector_at vertices point =
     (case dropWhile (\<lambda>v. point_less (fst v) point) vertices of
        [] \<Rightarrow> precision_lost
      | v # _ \<Rightarrow> if fst v \<noteq> point then precision_lost else Inr (snd v))"

section \<open>Cells\<close>

definition ordered_cuts :: "raw_geometry \<Rightarrow> cut list \<Rightarrow> cut list" where
  "ordered_cuts g cuts =
     (case g of
        RawLine _ _ _ \<Rightarrow> sort_key cut_time cuts
      | RawArc _ _ d1 _ \<Rightarrow>
          sort_by (\<lambda>a b.
            let first_wrapped = angle_less (cut_direction a) d1; second_wrapped = angle_less (cut_direction b) d1 in
            if first_wrapped \<noteq> second_wrapped then \<not> first_wrapped
            else angle_less (cut_direction a) (cut_direction b)) cuts)"

definition same_cut :: "raw_geometry \<Rightarrow> cut \<Rightarrow> cut \<Rightarrow> bool" where
  "same_cut g a b =
     (case g of
        RawLine _ _ _ \<Rightarrow> cut_time a = cut_time b
      | RawArc _ _ _ _ \<Rightarrow> same_direction (cut_direction a) (cut_direction b))"

definition settled_cuts :: "raw_geometry \<Rightarrow> cut list \<Rightarrow> cut list result" where
  "settled_cuts g cuts =
     (let ordered = ordered_cuts g cuts in
      if list_ex (\<lambda>i. same_cut g (ordered ! (i - 1)) (ordered ! i) \<and> cut_point (ordered ! (i - 1)) \<noteq> cut_point (ordered ! i))
           [1..<length ordered]
      then precision_lost
      else Inr (unique_by (same_cut g) ordered))"

fun cell_of :: "raw_geometry \<Rightarrow> cut \<Rightarrow> cut \<Rightarrow> (vector2 \<times> span_geometry) result" where
  "cell_of (RawLine b e n) first last_cut =
     try_then (vector_subtract (cut_point last_cut) (cut_point first)) (\<lambda>d.
     try_then (vector_scale d (Finite (1 / 2))) (\<lambda>half.
     try_then (vector_add (cut_point first) half) (\<lambda>representative.
       Inr (representative, LineSpan (cut_point first) (cut_point last_cut)))))"
| "cell_of (RawArc c r d1 d2) first last_cut =
     try_then (circle_point zero_vector (Finite 1) (cut_direction first)) (\<lambda>p.
     try_then (circle_point zero_vector (Finite 1) (cut_direction last_cut)) (\<lambda>q.
     try_then (vector_add p q) (\<lambda>middle.
     try_then (circle_point c r middle) (\<lambda>representative.
       Inr (representative,
            ArcSpan c r (cut_point first) (cut_point last_cut) (cut_direction first) (cut_direction last_cut))))))"

record compilation =
  compiled_features :: "raw_feature list"
  compiled_spans :: "boundary_span list"
  supported_vertices :: "vector2 list"

definition compile_cell ::
  "shape list \<Rightarrow> terrain_ground \<Rightarrow> nat \<Rightarrow> (vector2 \<times> supported_sector option) list \<Rightarrow> nat \<Rightarrow> nat \<Rightarrow> compilation \<Rightarrow> compilation result" where
  "compile_cell shapes ground storage vertices k i st =
     (let fs = compiled_features st; f = fs ! k; first = feature_cuts f ! (i - 1); last_cut = feature_cuts f ! i in
      try_then (cell_of (feature_geometry f) first last_cut) (\<lambda>(representative, geometry).
        if representative = cut_point first \<or> representative = cut_point last_cut then precision_lost
        else
          try_then (feature_normal f representative) (\<lambda>normal.
          try_then (local_support_of representative normal f fs shapes ground) (\<lambda>support.
            let st = (if support_on support
                      then st\<lparr>supported_vertices := supported_vertices st @ [cut_point first, cut_point last_cut]\<rparr> else st) in
            try_then (if support_on support then require_arrangement_bound (storage + length (supported_vertices st)) else Inr ()) (\<lambda>_.
              if support_on support \<and> (\<not> support_left support \<or> \<not> support_right support)
              then
                try_then (try_any (\<lambda>g. if feature_id g < feature_id f then coincident_at f g representative else Inr False) fs)
                  (\<lambda>earlier_coincident.
                  if earlier_coincident then Inr st
                  else
                    try_then (sector_at vertices (cut_point first)) (\<lambda>s1.
                    try_then (sector_at vertices (cut_point last_cut)) (\<lambda>s2.
                      Inr (st\<lparr>compiled_spans := compiled_spans st @
                        [\<lparr>span_feature = feature_id f, span_geometry_of = geometry,
                          supported_side = (if support_left support then 1 else if support_right support then - 1 else 0),
                          begin_sector = s1, end_sector = s2\<rparr>]\<rparr>))))
              else Inr st)))))"

definition compile_feature ::
  "shape list \<Rightarrow> terrain_ground \<Rightarrow> nat \<Rightarrow> (vector2 \<times> supported_sector option) list \<Rightarrow> nat \<Rightarrow> compilation \<Rightarrow> compilation result" where
  "compile_feature shapes ground storage vertices k st =
     (let f = compiled_features st ! k in
      try_then (settled_cuts (feature_geometry f) (feature_cuts f)) (\<lambda>cuts.
        try_fold (compile_cell shapes ground storage vertices k) [1..<length cuts]
          (st\<lparr>compiled_features := (compiled_features st)[k := f\<lparr>feature_cuts := cuts\<rparr>]\<rparr>)))"

definition isolate_cut ::
  "raw_feature list \<Rightarrow> shape list \<Rightarrow> terrain_ground \<Rightarrow> vector2 list \<Rightarrow> nat \<times> vector2 \<Rightarrow> (nat \<times> vector2) list \<Rightarrow> (nat \<times> vector2) list" where
  "isolate_cut fs shapes ground vertices candidate isolated =
     (if snd candidate \<notin> set vertices \<and> point_supported_by_arrangement (snd candidate) fs shapes ground \<and>
         snd candidate \<notin> set (map snd isolated)
      then isolated @ [candidate] else isolated)"

section \<open>Shapes of a terrain\<close>

definition append_capsule :: "double \<Rightarrow> vector2 list \<Rightarrow> nat \<Rightarrow> shape list \<times> arrangement \<Rightarrow> (shape list \<times> arrangement) result" where
  "append_capsule r points i st =
     (let b = points ! (i - 1); e = points ! i; s = length (fst st) in
      try_then (vector_subtract e b) (\<lambda>direction.
        let extent = hypotenuse (fx direction) (fy direction) in
        if feq extent (Finite 0) then precision_lost
        else
          try_then (vector_create (fneg (fy direction)) (fx direction)) (\<lambda>normal.
          try_then (vector_create (fmul r (fdiv (fx normal) extent)) (fmul r (fdiv (fy normal) extent))) (\<lambda>offset.
          try_then (vector_negate normal) (\<lambda>opposite.
          try_then (vector_add e offset) (\<lambda>p1. try_then (vector_add b offset) (\<lambda>p2.
          try_then (append_line s p1 p2 opposite (snd st)) (\<lambda>fs.
          try_then (vector_subtract b offset) (\<lambda>p3. try_then (vector_subtract e offset) (\<lambda>p4.
          try_then (append_line s p3 p4 normal fs) (\<lambda>fs.
          try_then (append_arc s b r normal opposite fs) (\<lambda>fs.
          try_then (append_arc s e r opposite normal fs) (\<lambda>fs.
            Inr (fst st @ [\<lparr>kind_of_shape = kCapsule, shape_begin = b, shape_end = e, shape_radius = r\<rparr>], fs))))))))))))))"

definition append_corridor :: "terrain_corridor \<Rightarrow> shape list \<times> arrangement \<Rightarrow> (shape list \<times> arrangement) result" where
  "append_corridor c st =
     try_fold (append_capsule (fadd (Finite (half_width c)) kPositionTolerance) (corridor_points c))
       [1..<length (corridor_points c)] st"

definition inner_radius :: "terrain_hole \<Rightarrow> double" where
  "inner_radius h = fmax (Finite 0) (fsub (Finite (hole_radius h)) kPositionTolerance)"

definition append_hole :: "terrain_hole \<Rightarrow> shape list \<times> arrangement \<Rightarrow> (shape list \<times> arrangement) result" where
  "append_hole h st =
     (let r = inner_radius h; s = length (fst st) in
      if feq r (Finite 0) then Inr st
      else
        try_then (try_fold (\<lambda>i. append_arc s (hole_center h) r (cardinals ! i) (cardinals ! ((i + 1) mod 4))) [0..<4] (snd st)) (\<lambda>fs.
          Inr (fst st @ [\<lparr>kind_of_shape = kHole, shape_begin = hole_center h, shape_end = hole_center h, shape_radius = r\<rparr>], fs)))"

definition envelope_shape :: "arena_bounds \<Rightarrow> (shape list \<times> arrangement) result" where
  "envelope_shape bounds =
     (let w = bounds_width bounds; h = bounds_height bounds in
      try_then (vector_create (Finite w) (Finite 0)) (\<lambda>bottom_right.
      try_then (vector_create (Finite w) (Finite h)) (\<lambda>top_right.
      try_then (vector_create (Finite 0) (Finite h)) (\<lambda>top_left.
      try_then (append_line 0 zero_vector bottom_right \<lparr>vx = 0, vy = w\<rparr> ([], 0)) (\<lambda>fs.
      try_then (append_line 0 bottom_right top_right \<lparr>vx = - h, vy = 0\<rparr> fs) (\<lambda>fs.
      try_then (append_line 0 top_right top_left \<lparr>vx = 0, vy = - w\<rparr> fs) (\<lambda>fs.
      try_then (append_line 0 top_left zero_vector \<lparr>vx = h, vy = 0\<rparr> fs) (\<lambda>fs.
        Inr ([\<lparr>kind_of_shape = kEnvelope, shape_begin = zero_vector, shape_end = top_right, shape_radius = Finite 0\<rparr>], fs)))))))))"

definition compile_terrain_boundary ::
  "arena_bounds \<Rightarrow> terrain_ground \<Rightarrow> terrain_corridor list \<Rightarrow> terrain_hole list \<Rightarrow> terrain_boundary result" where
  "compile_terrain_boundary bounds ground corridors holes =
     try_then (envelope_shape bounds) (\<lambda>st.
     try_then (try_fold append_corridor corridors st) (\<lambda>st.
     try_then (try_fold append_hole holes st) (\<lambda>(shapes, arrangement).
     try_then (intersect_all shapes arrangement) (\<lambda>(fs, incidences).
     try_then (compile_vertex_sectors fs shapes ground incidences) (\<lambda>(vertices, slots).
     try_then (try_fold (compile_feature shapes ground (incidences + slots) vertices) [0..<length fs]
                 \<lparr>compiled_features = fs, compiled_spans = [], supported_vertices = []\<rparr>) (\<lambda>compiled.
       let fs = compiled_features compiled;
           isolated = fold (isolate_cut fs shapes ground (supported_vertices compiled))
             (concat (map (\<lambda>f. map (\<lambda>c. (feature_id f, cut_point c)) (feature_cuts f)) fs)) []
       in if length (compiled_spans compiled) + length isolated > kMaximumTerrainBoundaryElementCount
          then Inl (SimError kTerrainBoundaryLimitExceeded ''terrain_queries.compile_boundary'')
          else Inr \<lparr>boundary_spans = compiled_spans compiled, isolated_points = isolated\<rparr>))))))"

end
