(* ===== verification/Terrain_Queries.thy ===== *)
theory Terrain_Queries
  imports Terrain_Compilation Nextafter
begin

text \<open>
  Terrain values (src/src/simulation/terrain_definition.cpp) and the queries over them
  (terrain_queries.cpp): point and disc support, the supported intervals of a sweep, the first exit
  from support, the nearest supported point and the clearance of a disc, with the directed rounding
  that repairs a projected witness. A terrain owns its compiled boundary.
\<close>

section \<open>Terrain values\<close>

record terrain_definition =
  arena_of :: arena_bounds
  ground_of :: terrain_ground
  corridors_of :: "terrain_corridor list"
  holes_of :: "terrain_hole list"
  boundary_of :: terrain_boundary

definition terrain_error :: "validation_code \<Rightarrow> string \<Rightarrow> 'a result" where
  "terrain_error code context = Inl (SimError code context)"

definition corridor_point_check :: "arena_bounds \<Rightarrow> nat \<Rightarrow> terrain_corridor \<Rightarrow> nat \<Rightarrow> unit \<Rightarrow> unit result" where
  "corridor_point_check bounds i corridor k _ =
     (if \<not> bounds_contains bounds (corridor_points corridor ! k)
      then terrain_error kTerrainGeometryOutOfBounds
             (at_index ''terrain_definition.corridors'' i (at_index ''.points'' k ''''))
      else Inr ())"

definition corridor_check :: "arena_bounds \<Rightarrow> terrain_corridor list \<Rightarrow> nat \<Rightarrow> nat \<times> nat \<Rightarrow> (nat \<times> nat) result" where
  "corridor_check bounds corridors i totals =
     (let corridor = corridors ! i; points = corridor_points corridor;
          point_total = fst totals + length points; segment_total = snd totals + (length points - 1) in
      try_then (require_terrain_count point_total kMaximumTerrainPointCount ''terrain_definition.points'') (\<lambda>_.
      try_then (require_terrain_count segment_total kMaximumTerrainSegmentCount ''terrain_definition.segments'') (\<lambda>_.
        if list_ex (\<lambda>earlier. corridor_name earlier = corridor_name corridor) (take i corridors)
        then terrain_error kTerrainDefinitionInvalid ''terrain_definition.corridors''
        else
          try_then (try_fold (corridor_point_check bounds i corridor) [0..<length points] ()) (\<lambda>_.
            Inr (point_total, segment_total)))))"

definition hole_check :: "arena_bounds \<Rightarrow> terrain_hole list \<Rightarrow> nat \<Rightarrow> unit \<Rightarrow> unit result" where
  "hole_check bounds holes i _ =
     (if list_ex (\<lambda>earlier. hole_name earlier = hole_name (holes ! i)) (take i holes)
      then terrain_error kTerrainDefinitionInvalid ''terrain_definition.holes''
      else if \<not> bounds_contains bounds (hole_center (holes ! i))
      then terrain_error kTerrainGeometryOutOfBounds (at_index ''terrain_definition.holes'' i ''.center'')
      else Inr ())"

definition terrain_create ::
  "arena_bounds \<Rightarrow> terrain_ground \<Rightarrow> terrain_corridor list \<Rightarrow> terrain_hole list \<Rightarrow> terrain_definition result" where
  "terrain_create bounds ground corridors holes =
     (if ground = kSolid \<and> corridors \<noteq> [] \<or> ground = kCorridors \<and> corridors = []
      then terrain_error kTerrainDefinitionInvalid ''terrain_definition.corridors''
      else
        try_then (require_terrain_count (length corridors) kMaximumTerrainCorridorCount ''terrain_definition.corridors'') (\<lambda>_.
        try_then (require_terrain_count (length holes) kMaximumTerrainHoleCount ''terrain_definition.holes'') (\<lambda>_.
        try_then (try_fold (corridor_check bounds corridors) [0..<length corridors] (0, 0)) (\<lambda>_.
        try_then (try_fold (hole_check bounds holes) [0..<length holes] ()) (\<lambda>_.
        try_then (compile_terrain_boundary bounds ground corridors holes) (\<lambda>boundary.
          Inr \<lparr>arena_of = bounds, ground_of = ground, corridors_of = corridors, holes_of = holes,
               boundary_of = boundary\<rparr>))))))"

definition terrain_solid :: "arena_bounds \<Rightarrow> terrain_definition result" where
  "terrain_solid bounds = terrain_create bounds kSolid [] []"

definition find_corridor :: "string \<Rightarrow> terrain_definition \<Rightarrow> terrain_corridor option" where
  "find_corridor name terrain = find (\<lambda>c. corridor_name c = name) (corridors_of terrain)"

section \<open>Point support\<close>

definition corridor_distance_to_centreline :: "terrain_corridor \<Rightarrow> vector2 \<Rightarrow> double" where
  "corridor_distance_to_centreline corridor point = snd (snd (project_corridor_raw (corridor_points corridor) point))"

definition corridor_project_to_centreline :: "terrain_corridor \<Rightarrow> vector2 \<Rightarrow> (vector2 \<times> double) result" where
  "corridor_project_to_centreline corridor point =
     (case project_corridor_raw (corridor_points corridor) point of (x, y, d) \<Rightarrow>
        try_then (vector_create x y) (\<lambda>p. Inr (p, d)))"

definition on_corridor :: "vector2 \<Rightarrow> terrain_corridor \<Rightarrow> bool" where
  "on_corridor point corridor \<longleftrightarrow>
     fle (corridor_distance_to_centreline corridor point) (fadd (Finite (half_width corridor)) kPositionTolerance)"

definition in_hole :: "vector2 \<Rightarrow> terrain_hole \<Rightarrow> bool" where
  "in_hole point hole \<longleftrightarrow> fless (point_distance point (hole_center hole)) (inner_radius hole)"

definition terrain_supports_point :: "terrain_definition \<Rightarrow> vector2 \<Rightarrow> bool" where
  "terrain_supports_point terrain point =
     (if \<not> bounds_contains (arena_of terrain) point then False
      else if \<not> (ground_of terrain = kSolid \<or> list_ex (on_corridor point) (corridors_of terrain)) then False
      else \<not> list_ex (in_hole point) (holes_of terrain))"

section \<open>Support along a sweep\<close>

definition add_capsule_interval ::
  "vector2 \<Rightarrow> vector2 \<Rightarrow> vector2 \<Rightarrow> double \<Rightarrow> vector2 list \<Rightarrow> nat \<Rightarrow> support_interval list \<Rightarrow> support_interval list result" where
  "add_capsule_interval start displacement finish r points i intervals =
     (let b = points ! (i - 1); e = points ! i in
      try_then (swept_capsule_boundary_roots start displacement b e r) (\<lambda>roots.
      try_then (convex_interval (fle (segment_distance start b e) r) (fle (segment_distance finish b e) r)
                  (root_times roots)) (\<lambda>interval.
        Inr (case interval of Some i \<Rightarrow> intervals @ [i] | None \<Rightarrow> intervals))))"

definition add_corridor_intervals ::
  "vector2 \<Rightarrow> vector2 \<Rightarrow> vector2 \<Rightarrow> terrain_corridor \<Rightarrow> support_interval list \<Rightarrow> support_interval list result" where
  "add_corridor_intervals start displacement finish corridor =
     try_fold (add_capsule_interval start displacement finish
                 (fadd (Finite (half_width corridor)) kPositionTolerance) (corridor_points corridor))
       [1..<length (corridor_points corridor)]"

definition remove_hole ::
  "vector2 \<Rightarrow> vector2 \<Rightarrow> vector2 \<Rightarrow> terrain_hole \<Rightarrow> support_interval list \<Rightarrow> support_interval list result" where
  "remove_hole start displacement finish hole intervals =
     (let r = inner_radius hole;
          start_distance = point_distance start (hole_center hole);
          end_distance = point_distance finish (hole_center hole) in
      if feq r (Finite 0) then Inr intervals
      else if vx displacement = 0 \<and> vy displacement = 0
      then Inr (if fless start_distance r then [] else intervals)
      else
        try_then (swept_circle_boundary_roots start displacement (hole_center hole) r) (\<lambda>roots.
        try_then (convex_interval (fle start_distance r) (fle end_distance r) (root_times roots)) (\<lambda>inside.
          Inr (case inside of
                 None \<Rightarrow> intervals
               | Some h \<Rightarrow>
                   if interval_begin h < interval_end h
                   then subtract_open_hole h (fless start_distance r) (fless end_distance r) intervals
                   else intervals))))"

definition swept_support_intervals :: "terrain_definition \<Rightarrow> vector2 \<Rightarrow> vector2 \<Rightarrow> support_interval list result" where
  "swept_support_intervals terrain start displacement =
     try_then (vector_add start displacement) (\<lambda>finish.
     try_then
       (if ground_of terrain = kSolid then Inr [\<lparr>interval_begin = motion_start, interval_end = motion_end\<rparr>]
        else try_then (try_fold (add_corridor_intervals start displacement finish) (corridors_of terrain) [])
               (\<lambda>intervals. Inr (merge_intervals intervals))) (\<lambda>intervals.
     try_then (axis_interval (fx start) (fx displacement) (Finite (bounds_width (arena_of terrain)))) (\<lambda>horizontal.
     try_then (axis_interval (fy start) (fy displacement) (Finite (bounds_height (arena_of terrain)))) (\<lambda>vertical.
     try_then (try_fold (remove_hole start displacement finish) (holes_of terrain)
                 (intersect_interval vertical (intersect_interval horizontal intervals))) (\<lambda>intervals.
       Inr (merge_intervals intervals))))))"

definition first_support_exit :: "terrain_definition \<Rightarrow> vector2 \<Rightarrow> vector2 \<Rightarrow> motion_time option result" where
  "first_support_exit terrain start displacement =
     (if \<not> terrain_supports_point terrain start then Inr (Some motion_start)
      else
        try_then (swept_support_intervals terrain start displacement) (\<lambda>intervals.
          if intervals = [] \<or> interval_begin (hd intervals) \<noteq> motion_start then precision_lost
          else Inr (if interval_end (hd intervals) < motion_end then Some (interval_end (hd intervals)) else None)))"

section \<open>The nearest boundary\<close>

record point_witness =
  witness_point :: vector2
  witness_distance :: double
  witness_feature :: nat

definition witness_less :: "point_witness \<Rightarrow> point_witness \<Rightarrow> bool" where
  "witness_less a b =
     (let p = witness_point a; q = witness_point b in
      if \<not> feq (witness_distance a) (witness_distance b) then fless (witness_distance a) (witness_distance b)
      else if vx p \<noteq> vx q then vx p < vx q
      else if vy p \<noteq> vy q then vy p < vy q
      else witness_feature a < witness_feature b)"

record boundary_candidate =
  candidate_witness :: point_witness
  supported_direction :: vector2
  candidate_is_vertex :: bool
  candidate_sector :: "supported_sector option"

definition consider_point ::
  "vector2 \<Rightarrow> vector2 \<Rightarrow> nat \<Rightarrow> vector2 \<Rightarrow> bool \<Rightarrow> supported_sector option \<Rightarrow>
     boundary_candidate option \<Rightarrow> boundary_candidate option" where
  "consider_point point candidate feature direction is_vertex sector nearest =
     (let w = \<lparr>witness_point = candidate, witness_distance = point_distance point candidate, witness_feature = feature\<rparr> in
      if nearest = None \<or> witness_less w (candidate_witness (the nearest))
      then Some \<lparr>candidate_witness = w, supported_direction = direction, candidate_is_vertex = is_vertex,
                 candidate_sector = sector\<rparr>
      else nearest)"

definition consider_vertex ::
  "vector2 \<Rightarrow> nat \<Rightarrow> int \<Rightarrow> vector2 \<Rightarrow> vector2 \<Rightarrow> bool \<Rightarrow> supported_sector option \<Rightarrow>
     boundary_candidate option \<Rightarrow> boundary_candidate option result" where
  "consider_vertex point feature side center p is_vertex sector nearest =
     try_then (vector_subtract center p) (\<lambda>inward.
     try_then (vector_scale inward (Finite (of_int side))) (\<lambda>direction.
       Inr (consider_point point p feature direction is_vertex sector nearest)))"

definition consider_span ::
  "vector2 \<Rightarrow> boundary_span \<Rightarrow> boundary_candidate option \<Rightarrow> boundary_candidate option result" where
  "consider_span point s nearest =
     (let side = Finite (of_int (supported_side s)) in
      case span_geometry_of s of
        LineSpan b e \<Rightarrow>
          try_then (vector_subtract e b) (\<lambda>direction.
          try_then (vector_subtract point b) (\<lambda>offset.
            let parameter = clamp_unit (fdiv (vector_dot offset direction) (vector_dot direction direction)) in
            try_then (vector_create (fmul (fneg (fy direction)) side) (fmul (fx direction) side)) (\<lambda>supported.
            try_then (motion_time_create parameter) (\<lambda>t.
            try_then (line_point b e t) (\<lambda>projected.
              let at_begin = (projected = b); at_end = (projected = e) in
              Inr (consider_point point projected (span_feature s) supported (at_begin \<or> at_end)
                     (if at_begin then begin_sector s else if at_end then end_sector s else None) nearest))))))
      | ArcSpan c r b e d1 d2 \<Rightarrow>
          try_then (consider_vertex point (span_feature s) (supported_side s) c b True (begin_sector s) nearest) (\<lambda>nearest.
          try_then (consider_vertex point (span_feature s) (supported_side s) c e True (end_sector s) nearest) (\<lambda>nearest.
          try_then (vector_subtract point c) (\<lambda>direction.
            if direction_in_arc direction d1 d2 \<and> \<not> same_direction direction d1 \<and> \<not> same_direction direction d2
            then
              try_then (circle_point c r direction) (\<lambda>projected.
                consider_vertex point (span_feature s) (supported_side s) c projected False None nearest)
            else Inr nearest))))"

definition consider_isolated ::
  "vector2 \<Rightarrow> nat \<times> vector2 \<Rightarrow> boundary_candidate option \<Rightarrow> boundary_candidate option" where
  "consider_isolated point isolated = consider_point point (snd isolated) (fst isolated) zero_vector True None"

definition nearest_boundary :: "terrain_definition \<Rightarrow> vector2 \<Rightarrow> boundary_candidate option result" where
  "nearest_boundary terrain point =
     try_then (try_fold (consider_span point) (boundary_spans (boundary_of terrain)) None) (\<lambda>nearest.
       Inr (fold (consider_isolated point) (isolated_points (boundary_of terrain)) nearest))"

section \<open>Directed rounding\<close>

definition rounding_limit :: "double \<Rightarrow> double \<Rightarrow> double" where
  "rounding_limit coordinate component =
     (let target = (if fless (Finite 0) component then Infinite True
                    else if fless component (Finite 0) then Infinite False else coordinate)
      in ((\<lambda>limit. nextafter limit target) ^^ kMaximumTerrainWitnessRoundingStepCount) coordinate)"

definition ray_scale :: "double \<Rightarrow> double \<Rightarrow> double \<Rightarrow> double \<Rightarrow> double" where
  "ray_scale limit origin direction scale =
     (if feq direction (Finite 0) then scale else fmin scale (fabs (fdiv (fsub limit origin) direction)))"

definition outside_ray_box :: "vector2 \<Rightarrow> vector2 \<Rightarrow> vector2 \<Rightarrow> bool" where
  "outside_ray_box corrected origin limit \<longleftrightarrow>
     vx corrected < min (vx origin) (vx limit) \<or> vx corrected > max (vx origin) (vx limit) \<or>
     vy corrected < min (vy origin) (vy limit) \<or> vy corrected > max (vy origin) (vy limit)"

fun vertex_steps ::
  "terrain_definition \<Rightarrow> vector2 \<Rightarrow> nat \<Rightarrow> vector2 \<Rightarrow> vector2 \<Rightarrow> double \<Rightarrow> supported_sector \<Rightarrow> nat list \<Rightarrow> point_witness result" where
  "vertex_steps terrain query feature origin limit scale sector [] = precision_lost"
| "vertex_steps terrain query feature origin limit scale sector (step # steps) =
     (let fraction = fdiv (to_double (of_nat step)) (to_double (of_nat kMaximumTerrainWitnessRoundingStepCount)) in
      try_then (vector_scale (sector_interior sector) (fmul scale fraction)) (\<lambda>along.
      try_then (vector_add origin along) (\<lambda>corrected.
      try_then (vector_subtract corrected origin) (\<lambda>displacement.
        if outside_ray_box corrected origin limit \<or> \<not> direction_inside_sector displacement sector
        then vertex_steps terrain query feature origin limit scale sector steps
        else if terrain_supports_point terrain corrected
        then Inr \<lparr>witness_point = corrected, witness_distance = point_distance query corrected, witness_feature = feature\<rparr>
        else vertex_steps terrain query feature origin limit scale sector steps))))"

definition vertex_supported_witness ::
  "terrain_definition \<Rightarrow> vector2 \<Rightarrow> boundary_candidate \<Rightarrow> point_witness result" where
  "vertex_supported_witness terrain query candidate =
     (case candidate_sector candidate of
        None \<Rightarrow> precision_lost
      | Some sector \<Rightarrow>
          let origin = witness_point (candidate_witness candidate); direction = sector_interior sector in
          try_then (vector_create (rounding_limit (fx origin) (fx direction))
                                  (rounding_limit (fy origin) (fy direction))) (\<lambda>limit.
            vertex_steps terrain query (witness_feature (candidate_witness candidate)) origin limit
              (ray_scale (fy limit) (fy origin) (fy direction)
                 (ray_scale (fx limit) (fx origin) (fx direction) (Infinite True)))
              sector [1..<Suc kMaximumTerrainWitnessRoundingStepCount]))"

definition directed_target :: "double \<Rightarrow> double \<Rightarrow> double" where
  "directed_target coordinate direction =
     (if fless (Finite 0) direction then Infinite True
      else if fless direction (Finite 0) then Infinite False else coordinate)"

definition nudged :: "vector2 \<Rightarrow> boundary_candidate \<Rightarrow> bool \<Rightarrow> vector2 \<Rightarrow> vector2 result" where
  "nudged query candidate clearance_query p =
     (let direction = supported_direction candidate;
          target_x = (if clearance_query then fx query else directed_target (fx p) (fx direction));
          target_y = (if clearance_query then fy query else directed_target (fy p) (fy direction))
      in vector_create (nextafter (fx p) target_x) (nextafter (fy p) target_y))"

fun witness_steps ::
  "terrain_definition \<Rightarrow> vector2 \<Rightarrow> boundary_candidate \<Rightarrow> bool \<Rightarrow> vector2 \<Rightarrow> nat \<Rightarrow> point_witness result" where
  "witness_steps terrain query candidate clearance_query p 0 = precision_lost"
| "witness_steps terrain query candidate clearance_query p (Suc steps) =
     try_then (nudged query candidate clearance_query p) (\<lambda>corrected.
       if corrected = p then precision_lost
       else if terrain_supports_point terrain corrected
       then
         let d = point_distance query corrected in
         if clearance_query \<and> fless (witness_distance (candidate_witness candidate)) d then precision_lost
         else Inr ((candidate_witness candidate)\<lparr>witness_point := corrected, witness_distance := d\<rparr>)
       else witness_steps terrain query candidate clearance_query corrected steps)"

definition supported_witness ::
  "terrain_definition \<Rightarrow> vector2 \<Rightarrow> boundary_candidate \<Rightarrow> bool \<Rightarrow> point_witness result" where
  "supported_witness terrain query candidate clearance_query =
     (let w = candidate_witness candidate in
      if terrain_supports_point terrain (witness_point w) then Inr w
      else if \<not> clearance_query \<and> candidate_is_vertex candidate
      then vertex_supported_witness terrain query candidate
      else witness_steps terrain query candidate clearance_query (witness_point w)
             kMaximumTerrainWitnessRoundingStepCount)"

section \<open>Nearest support and clearance\<close>

definition nearest_supported_point :: "terrain_definition \<Rightarrow> vector2 \<Rightarrow> point_witness option result" where
  "nearest_supported_point terrain point =
     (if terrain_supports_point terrain point
      then Inr (Some \<lparr>witness_point = point, witness_distance = Finite 0, witness_feature = 0\<rparr>)
      else
        try_then (nearest_boundary terrain point) (\<lambda>nearest.
          case nearest of
            None \<Rightarrow> Inr None
          | Some candidate \<Rightarrow> try_then (supported_witness terrain point candidate False) (\<lambda>w. Inr (Some w))))"

definition disc_clearance :: "terrain_definition \<Rightarrow> vector2 \<Rightarrow> point_witness option result" where
  "disc_clearance terrain point =
     (if \<not> terrain_supports_point terrain point then Inr None
      else
        try_then (nearest_boundary terrain point) (\<lambda>nearest.
          case nearest of
            None \<Rightarrow> precision_lost
          | Some candidate \<Rightarrow> try_then (supported_witness terrain point candidate True) (\<lambda>w. Inr (Some w))))"

definition terrain_supports_disc :: "terrain_definition \<Rightarrow> vector2 \<Rightarrow> double \<Rightarrow> bool result" where
  "terrain_supports_disc terrain center radius =
     (if \<not> is_finite radius \<or> fless radius (Finite 0) \<or> fless (Finite kMaximumPhysicalComponentMagnitude) radius
      then Inl (SimError kTerrainQueryRadiusInvalid ''terrain_queries.supports_disc'')
      else
        try_then (disc_clearance terrain center) (\<lambda>clearance.
          Inr (case clearance of None \<Rightarrow> False | Some w \<Rightarrow> fle radius (witness_distance w))))"

section \<open>What the queries return\<close>

lemma vertex_steps_supported:
  "vertex_steps terrain query feature origin limit scale sector steps = Inr w \<Longrightarrow>
   terrain_supports_point terrain (witness_point w) \<and> witness_feature w = feature \<and>
   witness_distance w = point_distance query (witness_point w) \<and>
   \<not> outside_ray_box (witness_point w) origin limit"
  by (induction steps) (auto simp: precision_lost_def try_then_Inr_iff Let_def split: if_split_asm)

lemma witness_steps_supported:
  "witness_steps terrain query candidate clearance_query p steps = Inr w \<Longrightarrow>
   terrain_supports_point terrain (witness_point w) \<and>
   witness_feature w = witness_feature (candidate_witness candidate) \<and>
   witness_distance w = point_distance query (witness_point w) \<and>
   (clearance_query \<longrightarrow> \<not> fless (witness_distance (candidate_witness candidate)) (witness_distance w))"
  by (induction steps arbitrary: p) (auto simp: precision_lost_def try_then_Inr_iff Let_def split: if_split_asm)

definition measured :: "vector2 \<Rightarrow> boundary_candidate option \<Rightarrow> bool" where
  "measured query nearest \<longleftrightarrow>
     (case nearest of
        None \<Rightarrow> True
      | Some c \<Rightarrow> witness_distance (candidate_witness c) = point_distance query (witness_point (candidate_witness c)))"

lemma measured_None [simp]: "measured query None" by (simp add: measured_def)

lemma consider_point_measured:
  "measured query nearest \<Longrightarrow> measured query (consider_point query p feature direction is_vertex sector nearest)"
  by (simp add: consider_point_def measured_def Let_def)

lemma consider_vertex_measured:
  "measured query nearest \<Longrightarrow> consider_vertex query feature side center p is_vertex sector nearest = Inr nearest' \<Longrightarrow>
   measured query nearest'"
  by (auto simp: consider_vertex_def try_then_Inr_iff consider_point_measured)

lemma consider_span_measured:
  assumes "measured query nearest" and "consider_span query s nearest = Inr nearest'"
  shows "measured query nearest'"
proof (cases "span_geometry_of s")
  case (LineSpan b e)
  with assms(2) obtain p direction is_vertex sector
    where "nearest' = consider_point query p (span_feature s) direction is_vertex sector nearest"
    unfolding consider_span_def Let_def span_geometry.case try_then_Inr_iff by (simp only: span_geometry.case try_then_Inr_iff sum.inject) blast
  then show ?thesis using assms(1) by (simp add: consider_point_measured)
next
  case (ArcSpan c r b e d1 d2)
  note step = consider_vertex_measured
  obtain n1 n2 where "consider_vertex query (span_feature s) (supported_side s) c b True (begin_sector s) nearest = Inr n1"
    and "consider_vertex query (span_feature s) (supported_side s) c e True (end_sector s) n1 = Inr n2"
    and last: "nearest' = n2 \<or> (\<exists>p. consider_vertex query (span_feature s) (supported_side s) c p False None n2 = Inr nearest')"
    using assms(2) ArcSpan unfolding consider_span_def Let_def
    by (simp only: span_geometry.case try_then_Inr_iff if_split_eq1 if_bool_eq_conj sum.inject)
      (elim exE conjE, metis sum.inject(2))
  then have "measured query n2" using assms(1) by (blast intro: step)
  with last show ?thesis by (blast intro: step)
qed

lemma nearest_boundary_measured:
  assumes "nearest_boundary terrain query = Inr nearest"
  shows "measured query nearest"
proof -
  have spans: "measured query n \<Longrightarrow> try_fold (consider_span query) ss n = Inr n' \<Longrightarrow> measured query n'" for ss n n'
    by (induction ss arbitrary: n) (auto simp: try_then_Inr_iff dest: consider_span_measured)
  have isolated: "measured query n \<Longrightarrow> measured query (fold (consider_isolated query) ps n)" for ps n
    by (induction ps arbitrary: n) (auto simp: consider_isolated_def consider_point_measured)
  from assms obtain n where n: "try_fold (consider_span query) (boundary_spans (boundary_of terrain)) None = Inr n"
    and eq: "nearest = fold (consider_isolated query) (isolated_points (boundary_of terrain)) n"
    by (auto simp: nearest_boundary_def try_then_Inr_iff)
  have "measured query n" by (rule spans [OF _ n]) simp
  then show ?thesis unfolding eq by (rule isolated)
qed

lemma supported_witness_sound:
  assumes "supported_witness terrain query candidate clearance_query = Inr w" and "measured query (Some candidate)"
  shows "terrain_supports_point terrain (witness_point w)"
    and "witness_feature w = witness_feature (candidate_witness candidate)"
    and "witness_distance w = point_distance query (witness_point w)"
    and "clearance_query \<Longrightarrow> w = candidate_witness candidate \<or>
           \<not> fless (witness_distance (candidate_witness candidate)) (witness_distance w)"
  using assms
  by (auto simp: supported_witness_def vertex_supported_witness_def measured_def Let_def precision_lost_def
      try_then_Inr_iff dest!: witness_steps_supported vertex_steps_supported split: if_split_asm option.splits)

end
