(* ===== verification/Terrain_Support.thy ===== *)
theory Terrain_Support
  imports Terrain_Queries
begin

text \<open>
  What the terrain queries promise (src/src/simulation/terrain_queries.hpp): the supported intervals of
  a sweep are sorted, disjoint and maximally merged, the first exit ends the supported stretch the
  sweep starts on, and a witness of support is itself supported.
\<close>

section \<open>Interval lists\<close>

definition proper_interval :: "support_interval \<Rightarrow> bool" where
  "proper_interval i \<longleftrightarrow> 0 \<le> interval_begin i \<and> interval_begin i \<le> interval_end i \<and> interval_end i \<le> 1"

definition covers :: "support_interval list \<Rightarrow> motion_time \<Rightarrow> bool" where
  "covers intervals t \<longleftrightarrow> list_ex (\<lambda>i. interval_begin i \<le> t \<and> t \<le> interval_end i) intervals"

definition separated :: "support_interval list \<Rightarrow> bool" where
  "separated intervals \<longleftrightarrow>
     sorted_wrt (\<lambda>i j. interval_end i < interval_begin j) intervals \<and> list_all proper_interval intervals"

lemma covers_simps [simp]:
  "\<not> covers [] t" "covers (i # is) t \<longleftrightarrow> (interval_begin i \<le> t \<and> t \<le> interval_end i) \<or> covers is t"
  "covers (is @ js) t \<longleftrightarrow> covers is t \<or> covers js t"
  by (auto simp: covers_def)

lemma separated_snoc:
  "separated (is @ [i]) \<longleftrightarrow>
     separated is \<and> proper_interval i \<and> (\<forall>j \<in> set is. interval_end j < interval_begin i)"
  by (auto simp: separated_def sorted_wrt_append)

lemma merge_step_snoc:
  "merge_step (is @ [l]) i =
     (if interval_begin i \<le> interval_end l
      then is @ [l\<lparr>interval_end := max (interval_end l) (interval_end i)\<rparr>] else is @ [l, i])"
  by (simp add: merge_step_def)

lemma merge_step_nil [simp]: "merge_step [] i = [i]"
  by (simp add: merge_step_def)

lemma merge_step_separated:
  assumes "separated is" and "proper_interval i" shows "separated (merge_step is i)"
proof (cases "is" rule: rev_cases)
  case Nil
  with assms show ?thesis by (simp add: separated_def)
next
  case (snoc js l)
  have js: "separated js" "proper_interval l" "\<And>j. j \<in> set js \<Longrightarrow> interval_end j < interval_begin l"
    using assms(1) unfolding snoc separated_snoc by auto
  show ?thesis
  proof (cases "interval_begin i \<le> interval_end l")
    case True
    then show ?thesis using js assms(2)
      by (simp add: snoc merge_step_snoc separated_snoc) (auto simp: proper_interval_def)
  next
    case False
    have "separated ((js @ [l]) @ [i])"
      unfolding separated_snoc [of "js @ [l]"] using False js assms
      by (fastforce simp: snoc proper_interval_def)
    with False show ?thesis by (simp add: snoc merge_step_snoc)
  qed
qed

lemma merge_separated: "list_all proper_interval is \<Longrightarrow> separated (merge_intervals is)"
proof -
  have step: "separated js \<Longrightarrow> list_all proper_interval is \<Longrightarrow> separated (foldl merge_step js is)" for js "is"
    by (induction "is" arbitrary: js) (auto simp: merge_step_separated)
  assume "list_all proper_interval is"
  then show ?thesis unfolding merge_intervals_def
    by (intro step) (auto simp: separated_def list_all_iff)
qed

text \<open>Merging neither adds nor loses a supported time.\<close>

lemma merge_step_covers:
  assumes "is \<noteq> [] \<Longrightarrow> interval_begin (last is) \<le> interval_begin i"
  shows "covers (merge_step is i) t \<longleftrightarrow> covers is t \<or> covers [i] t"
  using assms by (cases "is" rule: rev_cases) (auto simp: merge_step_snoc le_max_iff_disj)

lemma merge_step_last:
  "is \<noteq> [] \<Longrightarrow> interval_begin (last (merge_step is i)) = interval_begin (last is) \<or>
     interval_begin (last (merge_step is i)) = interval_begin i"
  by (cases "is" rule: rev_cases) (auto simp: merge_step_snoc)

lemma merge_step_not_nil [simp]: "merge_step is i \<noteq> []"
  by (simp add: merge_step_def)

lemma merge_covers: "covers (merge_intervals is) t = covers is t"
proof -
  have step: "sorted_wrt (\<lambda>i j. interval_begin i \<le> interval_begin j) is \<Longrightarrow>
      (js \<noteq> [] \<Longrightarrow> \<forall>i \<in> set is. interval_begin (last js) \<le> interval_begin i) \<Longrightarrow>
      covers (foldl merge_step js is) t = (covers js t \<or> covers is t)" for js "is"
  proof (induction "is" arbitrary: js)
    case (Cons i "is")
    have "covers (foldl merge_step (merge_step js i) is) t = (covers (merge_step js i) t \<or> covers is t)"
    proof (rule Cons.IH)
      show "sorted_wrt (\<lambda>i j. interval_begin i \<le> interval_begin j) is" using Cons.prems(1) by simp
      show "\<forall>k \<in> set is. interval_begin (last (merge_step js i)) \<le> interval_begin k"
        using Cons.prems merge_step_last [of js i] by (cases "js = []") fastforce+
    qed
    moreover have "covers (merge_step js i) t \<longleftrightarrow> covers js t \<or> covers [i] t"
      using Cons.prems(2) by (intro merge_step_covers) auto
    ultimately show ?case by auto
  qed simp
  have "sorted (map (\<lambda>i. (interval_begin i, interval_end i)) (sort_key (\<lambda>i. (interval_begin i, interval_end i)) is))"
    by (rule sorted_sort_key)
  then have "sorted_wrt (\<lambda>i j. interval_begin i \<le> interval_begin j) (sort_key (\<lambda>i. (interval_begin i, interval_end i)) is)"
    unfolding sorted_map by (rule sorted_wrt_mono_rel [rotated]) (auto simp: less_eq_prod_def)
  then show ?thesis unfolding merge_intervals_def
    by (subst step) (auto simp: covers_def list_ex_iff)
qed

lemma intersect_covers:
  "covers (intersect_interval clipping is) t \<longleftrightarrow>
     covers is t \<and> (case clipping of None \<Rightarrow> False | Some c \<Rightarrow> interval_begin c \<le> t \<and> t \<le> interval_end c)"
proof (cases clipping)
  case (Some c)
  show ?thesis unfolding Some by (induction "is") (auto simp: intersect_interval_def)
qed (simp add: intersect_interval_def)

lemma intersect_proper:
  "(\<And>c. clipping = Some c \<Longrightarrow> 0 \<le> interval_begin c \<and> interval_end c \<le> 1) \<Longrightarrow>
   list_all proper_interval (intersect_interval clipping is)"
  by (cases clipping) (auto simp: intersect_interval_def list_all_iff proper_interval_def le_max_iff_disj min_le_iff_disj)

text \<open>Subtracting a hole keeps nothing strictly inside it, and keeps every time before or after it.\<close>

lemma covers_subtract:
  "covers (subtract_open_hole h rb re is) t \<longleftrightarrow> (\<exists>i \<in> set is. covers (subtract_open_hole h rb re [i]) t)"
  by (induction "is") (simp_all add: subtract_open_hole_def)

lemma covers_member: "covers is t \<longleftrightarrow> (\<exists>i \<in> set is. covers [i] t)"
  by (induction "is") simp_all

lemma subtract_proper:
  assumes "list_all proper_interval is" shows "list_all proper_interval (subtract_open_hole h rb re is)"
proof -
  have "list_all proper_interval (subtract_open_hole h rb re [i])" if "proper_interval i" for i
    using that by (auto simp: subtract_open_hole_def proper_interval_def)
  with assms show ?thesis by (induction "is") (simp_all add: subtract_open_hole_def)
qed

lemma subtract_covers:
  assumes "interval_begin h \<le> interval_end h" and "list_all proper_interval is"
  shows "covers (subtract_open_hole h rb re is) t \<Longrightarrow>
           covers is t \<and> \<not> (interval_begin h < t \<and> t < interval_end h)"
    and "covers is t \<Longrightarrow> (t \<le> interval_begin h \<and> \<not> rb) \<or> (t \<ge> interval_end h \<and> \<not> re) \<Longrightarrow>
           covers (subtract_open_hole h rb re is) t"
proof -
  have down: "covers [i] t \<and> \<not> (interval_begin h < t \<and> t < interval_end h)"
    if "proper_interval i" "covers (subtract_open_hole h rb re [i]) t" for i
    using that assms(1) by (simp add: subtract_open_hole_def proper_interval_def split: if_split_asm) linarith+
  have up: "covers (subtract_open_hole h rb re [i]) t"
    if "proper_interval i" "covers [i] t" "(t \<le> interval_begin h \<and> \<not> rb) \<or> (t \<ge> interval_end h \<and> \<not> re)" for i
    using that assms(1) by (auto simp: subtract_open_hole_def proper_interval_def)
  show "covers (subtract_open_hole h rb re is) t \<Longrightarrow>
           covers is t \<and> \<not> (interval_begin h < t \<and> t < interval_end h)"
    using assms(2) down unfolding covers_subtract [of h rb re "is"] covers_member [of "is"] list_all_iff by blast
  show "covers is t \<Longrightarrow> (t \<le> interval_begin h \<and> \<not> rb) \<or> (t \<ge> interval_end h \<and> \<not> re) \<Longrightarrow>
           covers (subtract_open_hole h rb re is) t"
    using assms(2) up unfolding covers_subtract [of h rb re "is"] covers_member [of "is"] list_all_iff by blast
qed

section \<open>Sweeps\<close>

lemma convex_interval_within:
  assumes "convex_interval a b roots = Inr (Some c)" and "\<forall>t \<in> set roots. 0 \<le> t \<and> t \<le> 1"
  shows "0 \<le> interval_begin c \<and> interval_end c \<le> 1"
proof -
  have "roots \<noteq> [] \<Longrightarrow> hd roots \<in> set roots \<and> last roots \<in> set roots" by simp
  with assms show ?thesis
    by (auto simp: convex_interval_def precision_lost_def motion_start_def motion_end_def split: if_split_asm)
qed

lemma axis_interval_within:
  assumes "axis_interval start displacement extent = Inr (Some c)"
  shows "0 \<le> interval_begin c \<and> interval_end c \<le> 1"
proof -
  obtain lower upper where l: "swept_line_boundary_roots start displacement (Finite 0) = Inr lower"
    and u: "swept_line_boundary_roots start displacement extent = Inr upper"
    and c: "convex_interval (fle (Finite 0) start \<and> fle start extent)
        (fle (Finite 0) (fadd start displacement) \<and> fle (fadd start displacement) extent)
        (remdups_adj (sort (root_times lower @ root_times upper))) = Inr (Some c)"
    using assms by (auto simp: axis_interval_def try_then_Inr_iff Let_def)
  show ?thesis using swept_line_ordered [OF l] swept_line_ordered [OF u]
    by (intro convex_interval_within [OF c]) (auto simp: ordered_roots_def list_all_iff)
qed

lemma remove_hole_proper:
  "remove_hole start displacement finish hole is = Inr js \<Longrightarrow> list_all proper_interval is \<Longrightarrow> list_all proper_interval js"
  by (auto simp: remove_hole_def Let_def try_then_Inr_iff subtract_proper split: if_split_asm option.splits)

lemma swept_support_separated:
  assumes "swept_support_intervals terrain start displacement = Inr is" shows "separated is"
proof -
  obtain finish js h v ks where h: "axis_interval (fx start) (fx displacement) (Finite (bounds_width (arena_of terrain))) = Inr h"
    and v: "axis_interval (fy start) (fy displacement) (Finite (bounds_height (arena_of terrain))) = Inr v"
    and ks: "try_fold (remove_hole start displacement finish) (holes_of terrain)
        (intersect_interval v (intersect_interval h js)) = Inr ks"
    and merged: "is = merge_intervals ks"
    using assms unfolding swept_support_intervals_def by (auto simp only: try_then_Inr_iff sum.inject)
  have "list_all proper_interval (intersect_interval v (intersect_interval h js))"
    using v by (intro intersect_proper) (simp add: axis_interval_within)
  then have "list_all proper_interval ks"
    by (rule try_fold_invariant [OF ks]) (rule remove_hole_proper)
  then show ?thesis unfolding merged by (rule merge_separated)
qed

lemma swept_support_canonical_facts:
  assumes "swept_support_intervals terrain start displacement = Inr intervals"
  shows "sorted_wrt (\<lambda>i j. interval_end i < interval_begin j) intervals"
    and "\<forall>i \<in> set intervals. 0 \<le> interval_begin i \<and> interval_begin i \<le> interval_end i \<and> interval_end i \<le> 1"
  using swept_support_separated [OF assms] by (simp_all add: separated_def list_all_iff proper_interval_def)

text \<open>
  C33: the supported intervals of a sweep are canonical, as the header of the queries promises: each lies
  in the unit interval, they are sorted, disjoint and maximally merged (a gap separates neighbours).
\<close>

theorem swept_support_is_canonical:
  assumes "swept_support_intervals terrain start displacement = Inr intervals"
  shows "sorted_wrt (\<lambda>i j. interval_end i < interval_begin j) intervals \<and>
    (\<forall>i \<in> set intervals. 0 \<le> interval_begin i \<and> interval_begin i \<le> interval_end i \<and> interval_end i \<le> 1)"
  using swept_support_canonical_facts [OF assms] by blast

text \<open>A solid square arena of side four; its boundary plays no part in a sweep.\<close>

definition square_arena :: terrain_definition where
  "square_arena =
     \<lparr>arena_of = \<lparr>bounds_width = 4, bounds_height = 4\<rparr>, ground_of = kSolid, corridors_of = [], holes_of = [],
      boundary_of = \<lparr>boundary_spans = [], isolated_points = [(1, \<lparr>vx = 2, vy = 2\<rparr>)]\<rparr>\<rparr>"

lemma to_double_half [simp]: "to_double (1 / 2) = Finite (1 / 2)"
proof -
  have "representable (1 / 2)" using representableI [of 1 "- 1"] by (simp add: power_int_minus)
  moreover have "\<bar>1 / 2 :: rat\<bar> \<le> largest_finite" by (simp add: largest_finite_def)
  ultimately show ?thesis by (rule to_double_representable)
qed

lemma square_arena_axes:
  "axis_interval (Finite 2) (Finite 4) (Finite 4) = Inr (Some \<lparr>interval_begin = 0, interval_end = 1 / 2\<rparr>)"
  "axis_interval (Finite 2) (Finite 0) (Finite 4) = Inr (Some \<lparr>interval_begin = 0, interval_end = 1\<rparr>)"
  by (simp_all add: axis_interval_def swept_line_boundary_roots_def swept_require_finite_def add_roots_def
      add_root_def motion_time_create_def convex_interval_def motion_start_def motion_end_def)

lemma square_arena_sweep:
  "swept_support_intervals square_arena \<lparr>vx = 2, vy = 2\<rparr> \<lparr>vx = 4, vy = 0\<rparr> =
     Inr [\<lparr>interval_begin = 0, interval_end = 1 / 2\<rparr>]"
  by (simp add: swept_support_intervals_def square_arena_def vector_add_def create_for_operation_def
      validate_component_def fx_def fy_def kMaximumPhysicalComponentMagnitude_def square_arena_axes
      intersect_interval_def merge_intervals_def motion_start_def motion_end_def)

theorem swept_support_is_canonical_witness:
  "sorted_wrt (\<lambda>i j. interval_end i < interval_begin j) [\<lparr>interval_begin = 0, interval_end = 1 / 2 :: rat\<rparr>]"
  using swept_support_is_canonical [OF square_arena_sweep] by blast

text \<open>
  C34: \<open>first_support_exit\<close> is exact with respect to the swept intervals. From a supported start it answers
  a time before the end of the sweep exactly where the stretch of support the sweep starts on ends: every
  earlier time and the time itself are supported and the times just after it are not. It answers nothing
  only when the whole sweep is supported.
\<close>

theorem first_support_exit_ends_the_stretch:
  assumes "first_support_exit terrain start displacement = Inr exit" and "terrain_supports_point terrain start"
  shows "\<exists>intervals. swept_support_intervals terrain start displacement = Inr intervals \<and>
    (case exit of
       None \<Rightarrow> \<forall>t. 0 \<le> t \<and> t \<le> 1 \<longrightarrow> covers intervals t
     | Some e \<Rightarrow> 0 \<le> e \<and> e < 1 \<and> (\<forall>t. 0 \<le> t \<and> t \<le> e \<longrightarrow> covers intervals t) \<and>
         (\<exists>later > e. \<forall>t. e < t \<and> t < later \<longrightarrow> \<not> covers intervals t))"
proof -
  obtain i "is" where sw: "swept_support_intervals terrain start displacement = Inr (i # is)"
    and zero: "interval_begin i = 0" and ex: "exit = (if interval_end i < 1 then Some (interval_end i) else None)"
    using assms
    by (auto simp: first_support_exit_def try_then_Inr_iff precision_lost_def motion_start_def motion_end_def
        neq_Nil_conv split: if_split_asm)
  have sep: "separated (i # is)" by (rule swept_support_separated [OF sw])
  define later where "later = (case is of [] \<Rightarrow> 1 | j # _ \<Rightarrow> interval_begin j)"
  have gap: "later \<le> interval_begin j" if "j \<in> set is" for j
    using sep that by (cases "is") (fastforce simp: later_def separated_def proper_interval_def list_all_iff)+
  have "\<not> covers (i # is) t" if "interval_end i < t" "t < later" for t
    using that gap by (fastforce simp: covers_member [of "is"])
  moreover have "interval_end i < later" if "interval_end i < 1"
    using sep that by (cases "is") (auto simp: later_def separated_def)
  moreover have "0 \<le> interval_end i" using sep zero by (simp add: separated_def proper_interval_def)
  ultimately show ?thesis using zero unfolding sw ex by (intro exI [of _ "i # is"]) auto
qed

theorem first_support_exit_ends_the_stretch_witness:
  "first_support_exit square_arena \<lparr>vx = 2, vy = 2\<rparr> \<lparr>vx = 4, vy = 0\<rparr> = Inr (Some (1 / 2)) \<and>
   (\<exists>intervals. swept_support_intervals square_arena \<lparr>vx = 2, vy = 2\<rparr> \<lparr>vx = 4, vy = 0\<rparr> = Inr intervals \<and>
     covers intervals (1 / 4) \<and> (\<exists>later > 1 / 2. \<forall>t. 1 / 2 < t \<and> t < later \<longrightarrow> \<not> covers intervals t))"
proof -
  have s: "terrain_supports_point square_arena \<lparr>vx = 2, vy = 2\<rparr>"
    by (simp add: terrain_supports_point_def square_arena_def bounds_contains_def)
  have e: "first_support_exit square_arena \<lparr>vx = 2, vy = 2\<rparr> \<lparr>vx = 4, vy = 0\<rparr> = Inr (Some (1 / 2))"
    by (simp add: first_support_exit_def s square_arena_sweep motion_start_def motion_end_def)
  show ?thesis using first_support_exit_ends_the_stretch [OF e s] e by fastforce
qed

section \<open>Witnesses\<close>

lemma support_witness_facts:
  shows "nearest_supported_point terrain query = Inr (Some w) \<Longrightarrow>
           terrain_supports_point terrain (witness_point w) \<and>
           (w = \<lparr>witness_point = query, witness_distance = Finite 0, witness_feature = 0\<rparr> \<or>
            witness_distance w = point_distance query (witness_point w))"
    and "disc_clearance terrain query = Inr clearance \<Longrightarrow>
           (clearance = None \<longleftrightarrow> \<not> terrain_supports_point terrain query) \<and>
           (\<forall>v. clearance = Some v \<longrightarrow>
              terrain_supports_point terrain (witness_point v) \<and>
              witness_distance v = point_distance query (witness_point v) \<and>
              (\<exists>c. nearest_boundary terrain query = Inr (Some c) \<and>
                   \<not> fless (witness_distance (candidate_witness c)) (witness_distance v) \<and>
                   witness_feature v = witness_feature (candidate_witness c)))"
proof -
  show "terrain_supports_point terrain (witness_point w) \<and>
           (w = \<lparr>witness_point = query, witness_distance = Finite 0, witness_feature = 0\<rparr> \<or>
            witness_distance w = point_distance query (witness_point w))"
    if "nearest_supported_point terrain query = Inr (Some w)"
    using that nearest_boundary_measured [of terrain query] supported_witness_sound(1,3) [of terrain query _ False w]
    by (fastforce simp: nearest_supported_point_def try_then_Inr_iff split: if_split_asm option.splits)
  have irreflexive: "\<not> fless d d" for d by (cases d) auto
  show "(clearance = None \<longleftrightarrow> \<not> terrain_supports_point terrain query) \<and>
           (\<forall>v. clearance = Some v \<longrightarrow>
              terrain_supports_point terrain (witness_point v) \<and>
              witness_distance v = point_distance query (witness_point v) \<and>
              (\<exists>c. nearest_boundary terrain query = Inr (Some c) \<and>
                   \<not> fless (witness_distance (candidate_witness c)) (witness_distance v) \<and>
                   witness_feature v = witness_feature (candidate_witness c)))"
    if c: "disc_clearance terrain query = Inr clearance"
  proof (cases "terrain_supports_point terrain query")
    case False
    with c show ?thesis by (simp add: disc_clearance_def)
  next
    case True
    with c obtain k v where k: "nearest_boundary terrain query = Inr (Some k)"
      and v: "supported_witness terrain query k True = Inr v" "clearance = Some v"
      by (auto simp: disc_clearance_def precision_lost_def try_then_Inr_iff split: option.splits)
    note sound = supported_witness_sound [OF v(1) nearest_boundary_measured [OF k]]
    show ?thesis using True k v(2) sound irreflexive by auto
  qed
qed

text \<open>
  C35: a witness of support is sound. Whatever \<open>nearest_supported_point\<close> and \<open>disc_clearance\<close> answer is a
  supported point together with its computed distance from the query; the clearance is absent exactly for
  an unsupported centre; and directed rounding never makes a clearance larger than the distance to the
  boundary point it started from.
\<close>

theorem support_witnesses_are_sound:
  "(\<forall>w. nearest_supported_point terrain query = Inr (Some w) \<longrightarrow>
       terrain_supports_point terrain (witness_point w) \<and>
       (w = \<lparr>witness_point = query, witness_distance = Finite 0, witness_feature = 0\<rparr> \<or>
        witness_distance w = point_distance query (witness_point w))) \<and>
   (\<forall>clearance. disc_clearance terrain query = Inr clearance \<longrightarrow>
       (clearance = None \<longleftrightarrow> \<not> terrain_supports_point terrain query) \<and>
       (\<forall>v. clearance = Some v \<longrightarrow>
          terrain_supports_point terrain (witness_point v) \<and>
          witness_distance v = point_distance query (witness_point v) \<and>
          (\<exists>c. nearest_boundary terrain query = Inr (Some c) \<and>
               \<not> fless (witness_distance (candidate_witness c)) (witness_distance v) \<and>
               witness_feature v = witness_feature (candidate_witness c))))"
  using support_witness_facts by blast

theorem support_witnesses_are_sound_witness:
  "\<exists>w. nearest_supported_point square_arena \<lparr>vx = 5, vy = 2\<rparr> = Inr (Some w) \<and> witness_feature w = 1 \<and>
       terrain_supports_point square_arena (witness_point w)"
proof -
  have "\<exists>w. nearest_supported_point square_arena \<lparr>vx = 5, vy = 2\<rparr> = Inr (Some w) \<and> witness_feature w = 1"
    by (simp add: nearest_supported_point_def terrain_supports_point_def square_arena_def bounds_contains_def
        nearest_boundary_def consider_isolated_def consider_point_def Let_def supported_witness_def)
  then show ?thesis using support_witnesses_are_sound [of square_arena "\<lparr>vx = 5, vy = 2\<rparr>"] by blast
qed

end
