(* ===== verification/Map_Definition.thy ===== *)
theory Map_Definition
  imports Terrain_Support Contact_Rules "HOL-Library.List_Lexorder" "HOL-Library.Char_ord"
begin

text \<open>
  The values a match is built from: the configuration (src/src/simulation/simulation_config.cpp), static
  bodies (static_body_declaration.cpp), map metadata, markers and maps (map_definition.cpp), the check
  that every spawn point can seat a player (spawn_system.cpp), and the world a map and its seeds make
  (game_world.cpp). Strings compare as the code compares them, character by character.
\<close>

section \<open>Configuration\<close>

definition kMaximumSpatialGridCellCount :: nat where "kMaximumSpatialGridCellCount = 1048576"

record simulation_config =
  world_width :: binary64
  world_height :: binary64
  player_radius :: binary64
  drag_per_second :: binary64
  grid_columns :: nat
  grid_rows :: nat
  grid_cell_count :: nat

definition require_world_scalar :: "double \<Rightarrow> string \<Rightarrow> binary64 result" where
  "require_world_scalar value context =
     (case value of
        Finite x \<Rightarrow>
          if x \<le> 0 \<or> x > kMaximumWorldDimension then Inl (SimError kConfigWorldScalarOutOfRange context) else Inr x
      | _ \<Rightarrow> Inl (SimError kConfigWorldScalarNotFinite context))"

definition require_drag_per_second :: "double \<Rightarrow> binary64 result" where
  "require_drag_per_second value =
     (case value of
        Finite x \<Rightarrow>
          if x < 0 then Inl (SimError kConfigDragOutOfRange ''simulation.drag_per_second'') else Inr x
      | _ \<Rightarrow> Inl (SimError kConfigDragNotFinite ''simulation.drag_per_second''))"

definition positive_finite :: "double \<Rightarrow> bool" where
  "positive_finite d \<longleftrightarrow> is_finite d \<and> \<not> fle d (Finite 0)"

definition config_create ::
  "double \<Rightarrow> double \<Rightarrow> double \<Rightarrow> u64 \<Rightarrow> u64 \<Rightarrow> u64 \<Rightarrow> double \<Rightarrow> simulation_config result" where
  "config_create width height radius ticks_per_second columns rows drag =
     try_then (require_world_scalar width ''world.width_world_units'') (\<lambda>w.
     try_then (require_world_scalar height ''world.height_world_units'') (\<lambda>h.
     try_then (require_world_scalar radius ''world.player_radius_world_units'') (\<lambda>r.
     try_then (require_drag_per_second drag) (\<lambda>d.
       let diameter = fmul (Finite 2) (Finite r) in
       if fle (Finite w) diameter \<or> fle (Finite h) diameter
       then Inl (SimError kConfigWorldTooSmallForPlayer ''world'')
       else if ticks_per_second \<noteq> kSimulationTicksPerSecond
       then Inl (SimError kConfigTickRateUnsupported ''simulation.ticks_per_second'')
       else if columns = 0 \<or> rows = 0 \<or> unat columns > kMaximumSpatialGridCellCount \<or>
               unat rows > kMaximumSpatialGridCellCount
       then Inl (SimError kConfigSpatialGridDimensionOutOfRange ''spatial_grid'')
       else if unat columns > kMaximumSpatialGridCellCount div unat rows
       then Inl (SimError kConfigSpatialGridCellLimitExceeded ''spatial_grid'')
       else if \<not> positive_finite (fdiv (Finite w) (to_double (of_nat (unat columns)))) \<or>
               \<not> positive_finite (fdiv (Finite h) (to_double (of_nat (unat rows))))
       then Inl (SimError kConfigSpatialGridDimensionOutOfRange ''spatial_grid'')
       else Inr \<lparr>world_width = w, world_height = h, player_radius = r, drag_per_second = d,
                 grid_columns = unat columns, grid_rows = unat rows, grid_cell_count = unat (columns * rows)\<rparr>))))"

definition contains_player_center :: "simulation_config \<Rightarrow> vector2 \<Rightarrow> bool" where
  "contains_player_center c p \<longleftrightarrow>
     vx p \<ge> player_radius c \<and> fle (fx p) (fsub (Finite (world_width c)) (Finite (player_radius c))) \<and>
     vy p \<ge> player_radius c \<and> fle (fy p) (fsub (Finite (world_height c)) (Finite (player_radius c)))"

section \<open>Static bodies\<close>

record static_body =
  static_body_of :: physics_body
  static_policy :: contact_effect_policy

definition static_body_create :: "physics_body \<Rightarrow> contact_effect_policy \<Rightarrow> static_body result" where
  "static_body_create b p =
     (if \<not> is_static b then Inl (SimError kMapStaticBodyNotStatic ''static_body_declaration.is_static'')
      else Inr \<lparr>static_body_of = b, static_policy = p\<rparr>)"

section \<open>Metadata\<close>

definition kMaximumMapMetadataEntryCount :: nat where "kMaximumMapMetadataEntryCount = 64"
definition kMaximumMapMetadataKeyLength :: nat where "kMaximumMapMetadataKeyLength = 64"
definition kMaximumMapMetadataValueLength :: nat where "kMaximumMapMetadataValueLength = 256"

type_synonym map_metadata = "(string \<times> string) list"

definition metadata_entry_check :: "string \<times> string \<Rightarrow> unit \<Rightarrow> unit result" where
  "metadata_entry_check entry _ =
     (if length (fst entry) > kMaximumMapMetadataKeyLength \<or> \<not> is_snake_case_identity (fst entry)
      then Inl (SimError kMapMetadataKeyInvalid ''map_definition.metadata.key'')
      else if snd entry = [] \<or> length (snd entry) > kMaximumMapMetadataValueLength
      then Inl (SimError kMapMetadataValueInvalid ''map_definition.metadata.value'')
      else Inr ())"

definition metadata_create :: "map_metadata \<Rightarrow> map_metadata result" where
  "metadata_create entries =
     (if length entries > kMaximumMapMetadataEntryCount
      then Inl (SimError kMapMetadataLimitExceeded ''map_definition.metadata'')
      else
        try_then (try_fold metadata_entry_check entries ()) (\<lambda>_.
          let ordered = sort_key fst entries in
          if list_ex (\<lambda>i. fst (ordered ! (i - 1)) = fst (ordered ! i)) [1..<length ordered]
          then Inl (SimError kMapMetadataDuplicateKey ''map_definition.metadata.key'')
          else Inr ordered))"

definition metadata_none :: map_metadata where "metadata_none = []"

definition metadata_find :: "map_metadata \<Rightarrow> string \<Rightarrow> string option" where
  "metadata_find entries key =
     (case dropWhile (\<lambda>entry. fst entry < key) entries of
        [] \<Rightarrow> None
      | (found, value) # _ \<Rightarrow> if found \<noteq> key then None else Some value)"

section \<open>Maps\<close>

definition kMaximumMapNameLength :: nat where "kMaximumMapNameLength = 64"
definition kMaximumMapStaticBodyCount :: nat where "kMaximumMapStaticBodyCount = kMaximumEntityCount"
definition kMaximumMapMarkerCount :: nat where "kMaximumMapMarkerCount = kMaximumEntityCount"
definition kMaximumMapMarkerKindLength :: nat where "kMaximumMapMarkerKindLength = 64"
definition kSpawnMarkerKind :: string where "kSpawnMarkerKind = ''spawn''"

record marker =
  marker_kind :: string
  marker_position :: vector2
  marker_team :: "team_id option"
  marker_metadata :: map_metadata

record map_definition =
  map_name :: string
  map_terrain :: terrain_definition
  static_bodies :: "static_body list"
  markers :: "marker list"
  spawn_points :: "marker list"
  metadata_of :: map_metadata

definition is_map_name_char :: "char \<Rightarrow> bool" where
  "is_map_name_char c \<longleftrightarrow>
     is_lower_letter c \<or> (CHR ''A'' \<le> c \<and> c \<le> CHR ''Z'') \<or> (CHR ''0'' \<le> c \<and> c \<le> CHR ''9'') \<or>
     c = CHR ''_'' \<or> c = CHR ''-'' \<or> c = CHR ''.''"

definition is_map_name :: "string \<Rightarrow> bool" where
  "is_map_name value \<longleftrightarrow> value \<noteq> [] \<and> list_all is_map_name_char value"

definition valid_marker_kind :: "string \<Rightarrow> bool" where
  "valid_marker_kind kind \<longleftrightarrow> length kind \<le> kMaximumMapMarkerKindLength \<and> is_snake_case_identity kind"

definition marker_create :: "string \<Rightarrow> vector2 \<Rightarrow> team_id option \<Rightarrow> map_metadata \<Rightarrow> marker result" where
  "marker_create kind position team metadata =
     (if \<not> valid_marker_kind kind then Inl (SimError kMapMarkerKindInvalid ''map_definition.markers.kind'')
      else Inr \<lparr>marker_kind = kind, marker_position = position, marker_team = team, marker_metadata = metadata\<rparr>)"

definition marker_spawn :: "vector2 \<Rightarrow> marker result" where
  "marker_spawn position = marker_create kSpawnMarkerKind position None metadata_none"

definition static_body_check :: "terrain_definition \<Rightarrow> static_body list \<Rightarrow> nat \<Rightarrow> unit \<Rightarrow> unit result" where
  "static_body_check terrain declared i _ =
     (let b = static_body_of (declared ! i); path = at_index ''map_definition.static_bodies'' i in
      if \<not> is_static b then Inl (SimError kMapStaticBodyNotStatic (path ''.is_static''))
      else if \<not> bounds_contains (arena_of terrain) (body_position b)
      then Inl (SimError kMapStaticBodyOutOfBounds (path ''.position''))
      else if \<not> terrain_supports_point terrain (body_position b)
      then Inl (SimError kTerrainGeometryOutOfBounds (path ''.position''))
      else Inr ())"

definition collect_spawn_point ::
  "terrain_definition \<Rightarrow> marker list \<Rightarrow> nat \<Rightarrow> marker list \<Rightarrow> marker list result" where
  "collect_spawn_point terrain declared i collected =
     (let m = declared ! i; path = at_index ''map_definition.markers'' i in
      if \<not> valid_marker_kind (marker_kind m) then Inl (SimError kMapMarkerKindInvalid (path ''.kind''))
      else if \<not> bounds_contains (arena_of terrain) (marker_position m)
      then Inl (SimError kMapMarkerOutOfBounds (path ''.position''))
      else Inr (if marker_kind m = kSpawnMarkerKind then collected @ [m] else collected))"

definition map_create ::
  "string \<Rightarrow> terrain_definition \<Rightarrow> static_body list \<Rightarrow> marker list \<Rightarrow> map_metadata \<Rightarrow> map_definition result" where
  "map_create name terrain declared_bodies declared_markers metadata =
     (if length name > kMaximumMapNameLength \<or> \<not> is_map_name name
      then Inl (SimError kMapNameInvalid ''map_definition.name'')
      else if length declared_bodies > kMaximumMapStaticBodyCount
      then Inl (SimError kMapStaticBodyLimitExceeded ''map_definition.static_bodies'')
      else if length declared_markers > kMaximumMapMarkerCount
      then Inl (SimError kMapMarkerLimitExceeded ''map_definition.markers'')
      else
        try_then (try_fold (static_body_check terrain declared_bodies) [0..<length declared_bodies] ()) (\<lambda>_.
        try_then (try_fold (collect_spawn_point terrain declared_markers) [0..<length declared_markers] []) (\<lambda>points.
          Inr \<lparr>map_name = name, map_terrain = terrain, static_bodies = declared_bodies, markers = declared_markers,
               spawn_points = points, metadata_of = metadata\<rparr>)))"

definition map_create_solid ::
  "string \<Rightarrow> arena_bounds \<Rightarrow> static_body list \<Rightarrow> marker list \<Rightarrow> map_metadata \<Rightarrow> map_definition result" where
  "map_create_solid name bounds declared_bodies declared_markers metadata =
     try_then (terrain_solid bounds) (\<lambda>terrain. map_create name terrain declared_bodies declared_markers metadata)"

definition map_bare_arena :: "arena_bounds \<Rightarrow> map_definition result" where
  "map_bare_arena bounds = map_create_solid ''bare_arena'' bounds [] [] metadata_none"

definition map_bounds :: "map_definition \<Rightarrow> arena_bounds" where
  "map_bounds m = arena_of (map_terrain m)"

section \<open>Seatable spawn points\<close>

definition spawn_point_check :: "simulation_config \<Rightarrow> map_definition \<Rightarrow> nat \<Rightarrow> unit \<Rightarrow> unit result" where
  "spawn_point_check c m i _ =
     (let p = marker_position (spawn_points m ! i); radius = Finite (player_radius c);
          unseatable = Inl (SimError kMapSpawnPointNotSeatable
                              (at_index (''map.'' @ map_name m @ ''.spawn_points'') i ''.position'')) in
      if \<not> contains_disc_center (map_bounds m) p radius then unseatable
      else try_then (terrain_supports_disc (map_terrain m) p radius) (\<lambda>supported.
             if \<not> supported then unseatable else Inr ()))"

definition require_spawn_points_are_seatable :: "simulation_config \<Rightarrow> map_definition \<Rightarrow> unit result" where
  "require_spawn_points_are_seatable c m = try_fold (spawn_point_check c m) [0..<length (spawn_points m)] ()"

section \<open>The world of a map\<close>

definition static_entity :: "nat \<Rightarrow> entity_id result" where
  "static_entity i = entity_id_create (kMinimumEntityId + of_nat i)"

definition seat_static :: "simulation_config \<Rightarrow> map_definition \<Rightarrow> nat \<Rightarrow> (entity_id \<times> physics_body) result" where
  "seat_static c m i =
     try_then (static_entity i) (\<lambda>e.
     try_then (with_radius (Finite (player_radius c)) (static_body_of (static_bodies m ! i))) (\<lambda>b. Inr (e, b)))"

definition seat_seed ::
  "u64 \<Rightarrow> entity_seed \<Rightarrow> physics_body store \<times> controllable store \<Rightarrow> (physics_body store \<times> controllable store) result" where
  "seat_seed first_free_id s st =
     (let duplicate = Inl (SimError kGameWorldDuplicateEntityId ''game_world.entities.entity_id'') in
      if entity_value (seed_entity s) < first_free_id then duplicate
      else if fst st \<noteq> [] \<and> fst (last (fst st)) = seed_entity s then duplicate
      else Inr (fst st @ [(seed_entity s, seed_body s)],
                case seed_controller s of
                  Some k \<Rightarrow> snd st @ [(seed_entity s, controllable_of k)]
                | None \<Rightarrow> snd st))"

definition assign_static_policy :: "map_definition \<Rightarrow> nat \<Rightarrow> game_world \<Rightarrow> game_world result" where
  "assign_static_policy m i w =
     try_then (static_entity i) (\<lambda>e.
       assign_contact_effect_policy e (Some (static_policy (static_bodies m ! i))) None w)"

definition world_create_from_map ::
  "simulation_config \<Rightarrow> map_definition \<Rightarrow> u64 \<Rightarrow> entity_seed list \<Rightarrow> game_world result" where
  "world_create_from_map c m seed seeded =
     try_then (require_spawn_points_are_seatable c m) (\<lambda>_.
       let statics = length (static_bodies m) in
       if statics > kMaximumEntityCount \<or> length seeded > kMaximumEntityCount - statics
       then Inl (SimError kGameWorldEntityLimitExceeded ''game_world.entities'')
       else
         try_then (try_map (seat_static c m) [0..<statics]) (\<lambda>seated.
         try_then (try_fold (seat_seed (kMinimumEntityId + of_nat statics)) (sort_key seed_entity seeded) (seated, []))
           (\<lambda>(bs, cs).
         try_then (store_create bs) (\<lambda>bs.
         try_then (store_create cs) (\<lambda>cs.
           try_fold (assign_static_policy m) [0..<statics]
             ((world_empty (random_streams_create seed))\<lparr>bodies := bs, controllables := cs\<rparr>))))))"

section \<open>Accepted configurations\<close>

lemma config_create_valid:
  assumes "config_create width height radius ticks columns rows drag = Inr c"
  shows "0 < player_radius c" "0 < world_width c" "0 < world_height c" "world_width c \<le> kMaximumWorldDimension"
    and "0 < grid_columns c" "0 < grid_rows c" "grid_columns c * grid_rows c \<le> kMaximumSpatialGridCellCount"
    and "grid_cell_count c = grid_columns c * grid_rows c"
proof -
  have cr: "grid_columns c = unat columns" "grid_rows c = unat rows" "grid_cell_count c = unat (columns * rows)"
    and nz: "columns \<noteq> 0" "rows \<noteq> 0" and div: "unat columns \<le> kMaximumSpatialGridCellCount div unat rows"
    and "0 < player_radius c" "0 < world_width c" "0 < world_height c" "world_width c \<le> kMaximumWorldDimension"
    using assms
    by (auto simp: config_create_def require_world_scalar_def try_then_Inr_iff Let_def split: if_split_asm double.splits)
  then show "0 < player_radius c" "0 < world_width c" "0 < world_height c" "world_width c \<le> kMaximumWorldDimension"
    by simp_all
  have pos: "0 < unat columns" "0 < unat rows" using nz by (simp_all add: unat_gt_0)
  then show "0 < grid_columns c" "0 < grid_rows c" by (simp_all add: cr)
  have le: "unat columns * unat rows \<le> kMaximumSpatialGridCellCount"
    using div pos(2) by (simp add: less_eq_div_iff_mult_less_eq)
  then show "grid_columns c * grid_rows c \<le> kMaximumSpatialGridCellCount" by (simp add: cr)
  have "unat columns * unat rows < 2 ^ 64" using le by (simp add: kMaximumSpatialGridCellCount_def)
  then have "unat (columns * rows) = unat columns * unat rows"
    using unat_mult_lem [of columns rows] by simp
  then show "grid_cell_count c = grid_columns c * grid_rows c" by (simp add: cr)
qed

section \<open>Metadata\<close>

lemma adjacent_distinct:
  "sorted xs \<Longrightarrow> \<not> list_ex (\<lambda>i. xs ! (i - 1) = xs ! i) [1..<length xs] \<Longrightarrow> distinct xs"
proof -
  assume s: "sorted xs" and a: "\<not> list_ex (\<lambda>i. xs ! (i - 1) = xs ! i) [1..<length xs]"
  have step: "xs ! i \<noteq> xs ! Suc i" if "Suc i < length xs" for i
    using a that by (auto simp: list_ex_iff dest: bspec [of _ _ "Suc i"])
  have "xs ! i < xs ! j" if "i < j" "j < length xs" for i j
    using that
  proof (induction j)
    case (Suc j)
    have "xs ! j < xs ! Suc j"
      using step [of j] sorted_nth_mono [OF s, of j "Suc j"] Suc.prems by (simp add: order.strict_iff_order)
    with Suc show ?case by (cases "i = j") (auto intro: order.strict_trans)
  qed simp
  then show "distinct xs" unfolding distinct_conv_nth by (metis nat_neq_iff order.strict_implies_not_eq)
qed

lemma metadata_create_Inr:
  assumes "metadata_create entries = Inr md" shows "sorted (map fst md)" "distinct (map fst md)" "set md = set entries"
proof -
  have md: "md = sort_key fst entries"
    and a: "\<not> list_ex (\<lambda>i. fst (md ! (i - 1)) = fst (md ! i)) [1..<length md]"
    using assms by (auto simp: metadata_create_def try_then_Inr_iff Let_def split: if_split_asm)
  show "sorted (map fst md)" by (simp add: md)
  moreover have "\<not> list_ex (\<lambda>i. map fst md ! (i - 1) = map fst md ! i) [1..<length (map fst md)]"
    using a by (auto simp: list_ex_iff)
  ultimately show "distinct (map fst md)" by (rule adjacent_distinct)
  show "set md = set entries" by (simp add: md)
qed

lemma metadata_find_map_of:
  assumes "sorted (map fst md)" "distinct (map fst md)" shows "metadata_find md key = map_of md key"
  using assms
proof (induction md)
  case (Cons entry md)
  obtain k v where e: "entry = (k, v)" by (cases entry)
  show ?case
  proof (cases "k < key")
    case False
    then have "k \<noteq> key \<Longrightarrow> map_of md key = None"
      using Cons.prems by (force simp: e map_of_eq_None_iff)
    with False show ?thesis by (auto simp: e metadata_find_def)
  qed (use Cons in \<open>auto simp: e metadata_find_def\<close>)
qed (simp add: metadata_find_def)

text \<open>
  C36: authored metadata reads back. Once a list of entries is accepted, looking a key up by the code's
  binary search finds exactly the value the author wrote for it, in whatever order the entries came.
\<close>

theorem metadata_reads_back:
  assumes "metadata_create entries = Inr md" shows "metadata_find md key = Some v \<longleftrightarrow> (key, v) \<in> set entries"
  using metadata_create_Inr [OF assms] by (simp add: metadata_find_map_of)

theorem metadata_reads_back_witness:
  "metadata_find [(''hill'', ''2''), (''laps'', ''3'')] ''laps'' = Some ''3''"
  using metadata_reads_back [of "[(''laps'', ''3''), (''hill'', ''2'')]" "[(''hill'', ''2''), (''laps'', ''3'')]" "''laps''" "''3''"]
  by (simp add: metadata_create_def metadata_entry_check_def kMaximumMapMetadataEntryCount_def
      kMaximumMapMetadataKeyLength_def kMaximumMapMetadataValueLength_def is_snake_case_identity_def
      is_identity_char_def is_lower_letter_def less_eq_char_def)

section \<open>Accepted maps\<close>

lemma try_map_Inr:
  "try_map f xs = Inr ys \<Longrightarrow> length ys = length xs \<and> (\<forall>i<length xs. f (xs ! i) = Inr (ys ! i))"
proof (induction xs arbitrary: ys)
  case (Cons x xs)
  then obtain z zs where "f x = Inr z" "try_map f xs = Inr zs" "ys = z # zs" by (auto simp: try_then_Inr_iff)
  with Cons.IH [of zs] show ?case by (auto simp: nth_Cons split: nat.split)
qed simp

lemma try_fold_unit:
  "try_fold f xs () = Inr u \<longleftrightarrow> (\<forall>x \<in> set xs. f x () = Inr ())"
  by (induction xs) (auto simp: try_then_Inr_iff)

lemma collect_spawn_points:
  "try_fold (collect_spawn_point terrain ms) [i..<length ms] points = Inr points' \<Longrightarrow>
   points' = points @ filter (\<lambda>m. marker_kind m = kSpawnMarkerKind) (drop i ms)"
proof (induction "length ms - i" arbitrary: i points)
  case 0
  then show ?case by simp
next
  case (Suc n)
  then have i: "i < length ms" by simp
  then have "drop i ms = ms ! i # drop (Suc i) ms" by (rule Cons_nth_drop_Suc [symmetric])
  moreover obtain q where "collect_spawn_point terrain ms i points = Inr q"
    and "try_fold (collect_spawn_point terrain ms) [Suc i..<length ms] q = Inr points'"
    using Suc.prems i by (auto simp: upt_conv_Cons try_then_Inr_iff)
  moreover from this(1) have "q = points @ (if marker_kind (ms ! i) = kSpawnMarkerKind then [ms ! i] else [])"
    by (auto simp: collect_spawn_point_def Let_def split: if_split_asm)
  ultimately show ?case using Suc.hyps(1) [of "Suc i" q] Suc.hyps(2) by auto
qed

lemma map_create_Inr:
  assumes "map_create name terrain bs ms md = Inr m"
  shows "map_terrain m = terrain" "static_bodies m = bs"
    and "spawn_points m = filter (\<lambda>p. marker_kind p = kSpawnMarkerKind) ms"
    and "\<forall>b \<in> set bs. is_static (static_body_of b) \<and> terrain_supports_point terrain (body_position (static_body_of b))"
proof -
  obtain u points where u: "try_fold (static_body_check terrain bs) [0..<length bs] () = Inr u"
    and points: "try_fold (collect_spawn_point terrain ms) [0..<length ms] [] = Inr points"
    and m: "m = \<lparr>map_name = name, map_terrain = terrain, static_bodies = bs, markers = ms,
                spawn_points = points, metadata_of = md\<rparr>"
    using assms unfolding map_create_def by (auto simp only: try_then_Inr_iff split: if_split_asm)
  show "map_terrain m = terrain" "static_bodies m = bs" by (simp_all add: m)
  show "spawn_points m = filter (\<lambda>p. marker_kind p = kSpawnMarkerKind) ms"
    using collect_spawn_points [OF points] by (simp add: m)
  show "\<forall>b \<in> set bs. is_static (static_body_of b) \<and> terrain_supports_point terrain (body_position (static_body_of b))"
  proof
    fix b assume "b \<in> set bs"
    then obtain i where i: "i < length bs" "b = bs ! i" by (auto simp: in_set_conv_nth)
    then have "static_body_check terrain bs i () = Inr ()" using u by (simp add: try_fold_unit)
    then show "is_static (static_body_of b) \<and> terrain_supports_point terrain (body_position (static_body_of b))"
      by (auto simp: static_body_check_def Let_def i(2) split: if_split_asm)
  qed
qed

section \<open>The world of a map\<close>

lemma seat_seed_appends:
  "try_fold (seat_seed first_free) seeds (bs, cs) = Inr (bs', cs') \<Longrightarrow> \<exists>ts. bs' = bs @ ts"
proof (induction seeds arbitrary: bs cs)
  case (Cons s seeds)
  then obtain b1 c1 where "seat_seed first_free s (bs, cs) = Inr (b1, c1)"
    and rest: "try_fold (seat_seed first_free) seeds (b1, c1) = Inr (bs', cs')" by (auto simp: try_then_Inr_iff)
  then have "b1 = bs @ [(seed_entity s, seed_body s)]" by (auto simp: seat_seed_def Let_def split: if_split_asm)
  with Cons.IH [OF rest] show ?case by auto
qed simp

lemma assign_policy_stores:
  assumes "valid_world w" and "assign_contact_effect_policy e own archetype w = Inr w'"
  shows "valid_world w'" and "bodies w' = bodies w"
  using assms stored.invar_erase [of "admissions w" e]
  by (auto simp: assign_contact_effect_policy_def Let_def try_then_Inr_iff valid_world_def valid_stores_def
      intro: stored.invar_insert split: if_split_asm)

lemma static_entity_Inr:
  "static_entity i = Inr e \<Longrightarrow> i < kMaximumEntityCount \<Longrightarrow> e = EntityId (1 + of_nat i)"
  by (auto simp: static_entity_def entity_id_create_Inr kMinimumEntityId_def)

lemma static_ids_differ:
  "i < kMaximumEntityCount \<Longrightarrow> j < kMaximumEntityCount \<Longrightarrow> EntityId (1 + of_nat i) = EntityId (1 + of_nat j) \<Longrightarrow> i = j"
  by (simp add: kMaximumEntityCount_def word_of_nat_eq_iff take_bit_eq_mod)

lemma assign_static_policies:
  assumes "try_fold (assign_static_policy m) is w = Inr w'" and "valid_world w"
    and "distinct is" and "\<forall>i \<in> set is. i < kMaximumEntityCount"
  shows "valid_world w' \<and> bodies w' = bodies w \<and>
    (\<forall>i \<in> set is. effective_contact_effect_policy w' (EntityId (1 + of_nat i)) = Inr (static_policy (static_bodies m ! i))) \<and>
    (\<forall>j < kMaximumEntityCount. j \<notin> set is \<longrightarrow>
       effective_contact_effect_policy w' (EntityId (1 + of_nat j)) = effective_contact_effect_policy w (EntityId (1 + of_nat j)))"
  using assms
proof (induction "is" arbitrary: w)
  case (Cons i "is")
  have i: "i < kMaximumEntityCount" using Cons.prems(4) by simp
  obtain w1 where w1: "assign_contact_effect_policy (EntityId (1 + of_nat i)) (Some (static_policy (static_bodies m ! i))) None w = Inr w1"
    and rest: "try_fold (assign_static_policy m) is w1 = Inr w'"
    using Cons.prems(1) static_entity_Inr [OF _ i]
    by (auto simp: assign_static_policy_def [of m i] try_then_Inr_iff)
  have adm: "valid_store (admissions w)" using Cons.prems(2) by (simp add: valid_world_def valid_stores_def)
  note read = assigned_policy_is_read_back [OF adm w1]
  note w1v = assign_policy_stores [OF Cons.prems(2) w1]
  note IH = Cons.IH [OF rest w1v(1)]
  have other: "effective_contact_effect_policy w1 (EntityId (1 + of_nat j)) = effective_contact_effect_policy w (EntityId (1 + of_nat j))"
    if "j < kMaximumEntityCount" "j \<noteq> i" for j
    using that i static_ids_differ [of j i] by (intro read(2)) auto
  have "effective_contact_effect_policy w1 (EntityId (1 + of_nat i)) = Inr (static_policy (static_bodies m ! i))"
    using read(1) by (simp add: policy_or_def)
  then show ?case using IH Cons.prems(3,4) w1v(2) other by auto
qed simp

lemma map_world_facts:
  assumes "map_create name terrain bs ms md = Inr m" and "world_create_from_map c m seed seeded = Inr w"
  shows "valid_world w"
    and "i < length bs \<Longrightarrow>
      \<exists>b. store_find (bodies w) (EntityId (1 + of_nat i)) = Some b \<and> is_static b \<and>
        body_position b = body_position (static_body_of (bs ! i)) \<and> body_radius b = Finite (player_radius c) \<and>
        terrain_supports_point terrain (body_position b) \<and>
        effective_contact_effect_policy w (EntityId (1 + of_nat i)) = Inr (static_policy (bs ! i))"
    and "p \<in> set ms \<Longrightarrow> marker_kind p = kSpawnMarkerKind \<Longrightarrow>
      terrain_supports_disc terrain (marker_position p) (Finite (player_radius c)) = Inr True"
proof -
  note created = map_create_Inr [OF assms(1)]
  obtain u seated bs1 cs1 bs2 cs2 where u: "require_spawn_points_are_seatable c m = Inr u"
    and room: "length bs \<le> kMaximumEntityCount"
    and seated: "try_map (seat_static c m) [0..<length bs] = Inr seated"
    and seeds: "try_fold (seat_seed (kMinimumEntityId + of_nat (length bs))) (sort_key seed_entity seeded) (seated, []) = Inr (bs1, cs1)"
    and bs2: "store_create bs1 = Inr bs2" and cs2: "store_create cs1 = Inr cs2"
    and pol: "try_fold (assign_static_policy m) [0..<length bs]
      ((world_empty (random_streams_create seed))\<lparr>bodies := bs2, controllables := cs2\<rparr>) = Inr w"
    using assms(2) created(2) unfolding world_create_from_map_def Let_def
    by (auto simp: try_then_Inr_iff split: if_split_asm)
  have v0: "valid_world ((world_empty (random_streams_create seed))\<lparr>bodies := bs2, controllables := cs2\<rparr>)"
    using valid_world_empty [OF length_random_streams_create, of seed] store_create_valid(1) [OF bs2]
      store_create_valid(1) [OF cs2]
    by (simp add: valid_world_def valid_stores_def)
  have all: "\<forall>i \<in> set [0..<length bs]. i < kMaximumEntityCount" using room by auto
  note w = assign_static_policies [OF pol v0 distinct_upt all]
  then show "valid_world w" by blast
  show "\<exists>b. store_find (bodies w) (EntityId (1 + of_nat i)) = Some b \<and> is_static b \<and>
        body_position b = body_position (static_body_of (bs ! i)) \<and> body_radius b = Finite (player_radius c) \<and>
        terrain_supports_point terrain (body_position b) \<and>
        effective_contact_effect_policy w (EntityId (1 + of_nat i)) = Inr (static_policy (bs ! i))"
    if i: "i < length bs"
  proof -
    have "seat_static c m i = Inr (seated ! i)" and len: "length seated = length bs"
      using try_map_Inr [OF seated] i by auto
    then obtain e b where e: "static_entity i = Inr e"
      and b: "with_radius (Finite (player_radius c)) (static_body_of (bs ! i)) = Inr b" "seated ! i = (e, b)"
      by (auto simp: seat_static_def created(2) try_then_Inr_iff)
    have "e = EntityId (1 + of_nat i)" using static_entity_Inr [OF e] i room by simp
    moreover have "seated ! i \<in> set bs1" using seat_seed_appends [OF seeds] i len by auto
    ultimately have mem: "(EntityId (1 + of_nat i), b) \<in> set bs2"
      using b(2) store_create_valid(2) [OF bs2] by (metis set_mset_mset)
    have asc: "ascending (store_ids bs2)" using store_create_valid(1) [OF bs2] by (simp add: valid_store_def)
    have find: "store_find (bodies w) (EntityId (1 + of_nat i)) = Some b"
      using w mem store_find_map_of [OF asc] ascending_distinct [OF asc] by simp
    have "is_static b \<and> body_position b = body_position (static_body_of (bs ! i)) \<and> body_radius b = Finite (player_radius c)"
      using validated_Inr [OF b(1) [unfolded with_radius_def revalidated_def]] created(4) i by simp
    with find w created i show ?thesis by simp
  qed
  show "terrain_supports_disc terrain (marker_position p) (Finite (player_radius c)) = Inr True"
    if "p \<in> set ms" "marker_kind p = kSpawnMarkerKind"
  proof -
    have "p \<in> set (spawn_points m)" using that created(3) by simp
    then obtain k where k: "k < length (spawn_points m)" "p = spawn_points m ! k" by (auto simp: in_set_conv_nth)
    then have "spawn_point_check c m k () = Inr ()"
      using u by (simp add: require_spawn_points_are_seatable_def try_fold_unit)
    then show ?thesis
      by (auto simp: spawn_point_check_def Let_def k(2) created(1) try_then_Inr_iff split: if_split_asm)
  qed
qed

text \<open>
  C37: the world of a map is its content. When a map is accepted and a world is made from it, every static
  body is seated, in the order of the map, at the ids from one: at the authored position, which lies on
  supported terrain, with the configured radius and the authored contact policy. The world is
  well-formed, and every marker of the spawn kind can seat a whole player disc.
\<close>

theorem map_world_seats_its_content:
  assumes "map_create name terrain bs ms md = Inr m" and "world_create_from_map c m seed seeded = Inr w"
  shows "valid_world w \<and>
    (\<forall>i < length bs. \<exists>b. store_find (bodies w) (EntityId (1 + of_nat i)) = Some b \<and> is_static b \<and>
       body_position b = body_position (static_body_of (bs ! i)) \<and> body_radius b = Finite (player_radius c) \<and>
       terrain_supports_point terrain (body_position b) \<and>
       effective_contact_effect_policy w (EntityId (1 + of_nat i)) = Inr (static_policy (bs ! i))) \<and>
    (\<forall>p \<in> set ms. marker_kind p = kSpawnMarkerKind \<longrightarrow>
       terrain_supports_disc terrain (marker_position p) (Finite (player_radius c)) = Inr True)"
  using map_world_facts [OF assms] by blast

definition pillar :: static_body where
  "pillar = \<lparr>static_body_of = (leaving_body 2)\<lparr>body_position := \<lparr>vx = 2, vy = 2\<rparr>, is_static := True\<rparr>, static_policy = kAnyTouch\<rparr>"

definition pillar_map :: map_definition where
  "pillar_map =
     \<lparr>map_name = ''pillar'', map_terrain = square_arena, static_bodies = [pillar], markers = [], spawn_points = [],
      metadata_of = []\<rparr>"

definition small_config :: simulation_config where
  "small_config =
     \<lparr>world_width = 4, world_height = 4, player_radius = 1, drag_per_second = 0, grid_columns = 2, grid_rows = 2,
      grid_cell_count = 4\<rparr>"

lemma pillar_map_created: "map_create ''pillar'' square_arena [pillar] [] [] = Inr pillar_map"
  by (simp add: map_create_def kMaximumMapNameLength_def is_map_name_def is_map_name_char_def is_lower_letter_def
      less_eq_char_def kMaximumMapStaticBodyCount_def kMaximumMapMarkerCount_def kMaximumEntityCount_def
      static_body_check_def pillar_def pillar_map_def bounds_contains_def square_arena_def terrain_supports_point_def)

lemma pillar_world: "\<exists>w. world_create_from_map small_config pillar_map 0 [] = Inr w"
  by (simp add: world_create_from_map_def require_spawn_points_are_seatable_def pillar_map_def seat_static_def
      static_entity_def entity_id_create_def kMinimumEntityId_def kMaximumEntityId_def kMaximumProtocolSafeInteger_def
      with_radius_def revalidated_def validated_def body_rules pillar_def leaving_body_def small_config_def
      store_create_def kMaximumEntityCount_def assign_static_policy_def assign_contact_effect_policy_def
      require_contact_body_def store_find_Cons world_empty_def policy_or_def insert_or_assign_def
      store_lower_bound_def kMaximumPhysicalComponentMagnitude_def)

theorem map_world_seats_its_content_witness:
  "\<exists>w b. world_create_from_map small_config pillar_map 0 [] = Inr w \<and> store_find (bodies w) (EntityId 1) = Some b \<and>
     body_radius b = Finite 1 \<and> effective_contact_effect_policy w (EntityId 1) = Inr kAnyTouch"
proof -
  obtain w where w: "world_create_from_map small_config pillar_map 0 [] = Inr w" using pillar_world by blast
  show ?thesis
    using map_world_seats_its_content [OF pillar_map_created w] w
    by (auto simp: small_config_def pillar_def)
qed

end
