(* ===== verification/Spatial_Grid.thy ===== *)
theory Spatial_Grid
  imports Map_Definition Nextafter
begin

text \<open>
  The spatial grid (src/src/simulation/spatial_grid.cpp): which cells the padded box of a body covers, the
  members of every cell, and the pairs of bodies that share a cell, found through a triangular bit set.
  Extents and coordinates are binary64; counts are \<open>std::size_t\<close> in the code and natural numbers here,
  each held below the limits that are checked.
\<close>

section \<open>Coverage\<close>

definition kMaximumSpatialGridMembershipCount :: nat where "kMaximumSpatialGridMembershipCount = 16777216"
definition kMaximumSpatialGridCandidatePairCount :: nat where
  "kMaximumSpatialGridCandidatePairCount = (kMaximumEntityCount * (kMaximumEntityCount - 1)) div 2"
definition kMaximumSpatialGridCandidatePairObservationCount :: nat where
  "kMaximumSpatialGridCandidatePairObservationCount = kMaximumSpatialGridCandidatePairCount * 8"
definition kMaximumSpatialGridCandidatePairAllocationByteCount :: nat where
  "kMaximumSpatialGridCandidatePairAllocationByteCount = 134217728"
definition kMaximumSpatialGridCandidatePairBitsetByteCount :: nat where
  "kMaximumSpatialGridCandidatePairBitsetByteCount = (kMaximumSpatialGridCandidatePairCount + 7) div 8"

text \<open>The largest \<open>std::size_t\<close>, and the bytes a pair of ids takes.\<close>

definition size_maximum :: nat where "size_maximum = 2 ^ 64 - 1"
definition candidate_pair_bytes :: nat where "candidate_pair_bytes = 16"

record cell_coverage =
  first_row :: nat
  last_row :: nat
  first_column :: nat
  last_column :: nat

definition checked_cell_count :: "simulation_config \<Rightarrow> nat result" where
  "checked_cell_count c =
     (let rows = grid_rows c; columns = grid_columns c; failed = Inl (SimError kSpatialGridCellCountExceeded ''spatial_grid.cells'') in
      if rows = 0 \<or> columns = 0 \<or> rows > kMaximumSpatialGridCellCount div columns then failed
      else
        let cells = rows * columns in
        if cells > kMaximumSpatialGridCellCount \<or> cells \<noteq> grid_cell_count c then failed else Inr cells)"

definition validate_cell_extent :: "binary64 \<Rightarrow> nat \<Rightarrow> string \<Rightarrow> unit result" where
  "validate_cell_extent extent n context =
     (if \<not> positive_finite (fdiv (Finite extent) (to_double (of_nat n)))
      then Inl (SimError kSpatialGridGeometryInvalid context) else Inr ())"

definition internal_boundary :: "binary64 \<Rightarrow> nat \<Rightarrow> nat \<Rightarrow> double" where
  "internal_boundary extent n i = fdiv (fmul (Finite extent) (to_double (of_nat i))) (to_double (of_nat n))"

function search_boundary :: "(nat \<Rightarrow> bool) \<Rightarrow> nat \<Rightarrow> nat \<Rightarrow> nat" where
  "search_boundary before first last_one =
     (if first < last_one
      then let middle = first + (last_one - first) div 2 in
        if before middle then search_boundary before (middle + 1) last_one
        else search_boundary before first middle
      else first)"
  by pat_completeness auto
termination by (relation "measure (\<lambda>(_, first, last_one). last_one - first)") auto

declare search_boundary.simps [simp del]

definition first_intersected_cell :: "double \<Rightarrow> binary64 \<Rightarrow> nat \<Rightarrow> nat" where
  "first_intersected_cell low extent n =
     (if fle low (Finite 0) \<or> n = 1 then 0
      else
        let first = search_boundary (\<lambda>i. fless (internal_boundary extent n i) low) 1 n in
        if first = n then n - 1 else first - 1)"

definition last_intersected_cell :: "double \<Rightarrow> binary64 \<Rightarrow> nat \<Rightarrow> nat" where
  "last_intersected_cell high extent n =
     (if fle (Finite extent) high \<or> n = 1 then n - 1
      else search_boundary (\<lambda>i. fle (internal_boundary extent n i) high) 1 n - 1)"

definition coverage_padding :: "double \<Rightarrow> double" where
  "coverage_padding radius =
     (let contact_distance = fmul (Finite 2) radius in
      fdiv (comparison_tolerance contact_distance contact_distance kPositionTolerance)
           (fsub (Finite 1) kRelativeTolerance))"

definition low_edge :: "double \<Rightarrow> double \<Rightarrow> double \<Rightarrow> double" where
  "low_edge center radius padding =
     fmax (Finite 0) (nextafter (fsub (fsub center radius) padding) (Infinite False))"

definition high_edge :: "binary64 \<Rightarrow> double \<Rightarrow> double \<Rightarrow> double \<Rightarrow> double" where
  "high_edge extent center radius padding =
     fmin (Finite extent) (nextafter (fadd (fadd center radius) padding) (Infinite True))"

definition body_coverage :: "simulation_config \<Rightarrow> arena_bounds \<Rightarrow> entity_id \<times> physics_body \<Rightarrow> cell_coverage result" where
  "body_coverage c bounds entry =
     (let b = snd entry; configured = Finite (player_radius c); radius = effective_radius b configured;
          path = ''spatial_grid.bodies[entity_id='' @ decimal (unat (entity_value (fst entry))) @ ''].position'' in
      case motion_body_envelope_violation b bounds configured of
        Some kStaticOutsideEnvelope \<Rightarrow> Inl (SimError kSpatialGridStaticBodyOutOfBounds path)
      | Some kFoldingBodyDoesNotFitEnvelope \<Rightarrow> Inl (SimError kSpatialGridPlayerCenterOutOfBounds path)
      | None \<Rightarrow>
          let padding = coverage_padding radius; x = fx (body_position b); y = fy (body_position b);
              width = bounds_width bounds; height = bounds_height bounds in
          Inr \<lparr>first_row = first_intersected_cell (low_edge y radius padding) height (grid_rows c),
               last_row = last_intersected_cell (high_edge height y radius padding) height (grid_rows c),
               first_column = first_intersected_cell (low_edge x radius padding) width (grid_columns c),
               last_column = last_intersected_cell (high_edge width x radius padding) width (grid_columns c)\<rparr>)"

definition coverage_entry_count :: "cell_coverage \<Rightarrow> nat result" where
  "coverage_entry_count k =
     (let rows = last_row k - first_row k + 1; columns = last_column k - first_column k + 1 in
      if rows > kMaximumSpatialGridMembershipCount div columns
      then Inl (SimError kSpatialGridMembershipLimitExceeded ''spatial_grid.memberships'')
      else Inr (rows * columns))"

definition add_coverage ::
  "simulation_config \<Rightarrow> arena_bounds \<Rightarrow> entity_id \<times> physics_body \<Rightarrow> cell_coverage list \<times> nat \<Rightarrow> (cell_coverage list \<times> nat) result" where
  "add_coverage c bounds entry st =
     try_then (body_coverage c bounds entry) (\<lambda>k.
     try_then (coverage_entry_count k) (\<lambda>entries.
       if entries > kMaximumSpatialGridMembershipCount - snd st
       then Inl (SimError kSpatialGridMembershipLimitExceeded ''spatial_grid.memberships'')
       else Inr (fst st @ [k], snd st + entries)))"

section \<open>Cells\<close>

definition flattened_index :: "nat \<Rightarrow> nat \<Rightarrow> nat \<Rightarrow> nat" where
  "flattened_index row columns column = row * columns + column"

text \<open>The cells of a coverage, row by row.\<close>

definition covered_cells :: "nat \<Rightarrow> cell_coverage \<Rightarrow> nat list" where
  "covered_cells columns k =
     concat (map (\<lambda>row. map (\<lambda>column. flattened_index row columns column) [first_column k..<Suc (last_column k)])
               [first_row k..<Suc (last_row k)])"

definition count_member :: "nat \<Rightarrow> nat list \<Rightarrow> nat list" where
  "count_member i counts = counts[i := Suc (counts ! i)]"

definition member_counts :: "nat \<Rightarrow> nat \<Rightarrow> cell_coverage list \<Rightarrow> nat list" where
  "member_counts columns cells coverages =
     fold (\<lambda>k. fold count_member (covered_cells columns k)) coverages (replicate cells 0)"

definition pair_limit_error :: "string \<Rightarrow> 'a result" where
  "pair_limit_error path = Inl (SimError kSpatialGridCandidatePairLimitExceeded path)"

definition observe_count :: "nat \<Rightarrow> nat \<Rightarrow> nat result" where
  "observe_count members observed =
     (if members < 2 then Inr observed
      else if members > size_maximum div (members - 1)
      then pair_limit_error ''spatial_grid.candidate_pair_observations''
      else
        let observations = (members * (members - 1)) div 2 in
        if observations > kMaximumSpatialGridCandidatePairObservationCount - observed
        then pair_limit_error ''spatial_grid.candidate_pair_observations''
        else Inr (observed + observations))"

definition validate_candidate_observation_count :: "nat list \<Rightarrow> unit result" where
  "validate_candidate_observation_count counts = try_then (try_fold observe_count counts 0) (\<lambda>_. Inr ())"

definition add_member :: "entity_id \<Rightarrow> nat \<Rightarrow> entity_id list list \<Rightarrow> entity_id list list" where
  "add_member e i cells = cells[i := cells ! i @ [e]]"

definition place_body :: "nat \<Rightarrow> entity_id \<times> cell_coverage \<Rightarrow> entity_id list list \<Rightarrow> entity_id list list" where
  "place_body columns placed = fold (add_member (fst placed)) (covered_cells columns (snd placed))"

definition build_cells ::
  "physics_body store \<Rightarrow> cell_coverage list \<Rightarrow> nat \<Rightarrow> nat \<Rightarrow> entity_id list list result" where
  "build_cells bs coverages columns cells =
     try_then (validate_candidate_observation_count (member_counts columns cells coverages)) (\<lambda>_.
       Inr (fold (place_body columns) (zip (store_ids bs) coverages) (replicate cells [])))"

section \<open>Candidate pairs\<close>

definition maximum_pair_count :: "nat \<Rightarrow> nat result" where
  "maximum_pair_count players =
     (if players < 2 then Inr 0
      else if players > kMaximumEntityCount \<or> players > size_maximum div (players - 1)
      then pair_limit_error ''spatial_grid.candidate_pairs''
      else
        let pairs = (players * (players - 1)) div 2 in
        if pairs > kMaximumSpatialGridCandidatePairCount
        then pair_limit_error ''spatial_grid.candidate_pairs'' else Inr pairs)"

definition body_index_for_id :: "physics_body store \<Rightarrow> entity_id \<Rightarrow> nat" where
  "body_index_for_id = store_lower_bound"

record pair_accumulator =
  pair_players :: nat
  pair_limit :: nat
  observed_bits :: "bool list"
  collected_pairs :: "candidate_pair list"

definition checked_pair_storage_count :: "nat \<Rightarrow> nat result" where
  "checked_pair_storage_count players =
     try_then (maximum_pair_count players) (\<lambda>pairs.
       if pairs > kMaximumSpatialGridCandidatePairAllocationByteCount div candidate_pair_bytes
       then pair_limit_error ''spatial_grid.candidate_pairs'' else Inr pairs)"

definition checked_bitset_byte_count :: "nat \<Rightarrow> nat result" where
  "checked_bitset_byte_count pairs =
     (if pairs > size_maximum - 7 then pair_limit_error ''spatial_grid.candidate_pairs.bitset''
      else
        let bytes = (pairs + 7) div 8 in
        if bytes > kMaximumSpatialGridCandidatePairBitsetByteCount
        then pair_limit_error ''spatial_grid.candidate_pairs.bitset'' else Inr bytes)"

definition accumulator_create :: "nat \<Rightarrow> pair_accumulator result" where
  "accumulator_create players =
     try_then (checked_pair_storage_count players) (\<lambda>pairs.
     try_then (checked_bitset_byte_count pairs) (\<lambda>bytes.
       Inr \<lparr>pair_players = players, pair_limit = pairs, observed_bits = replicate (8 * bytes) False,
            collected_pairs = []\<rparr>))"

definition pair_bit_index :: "nat \<Rightarrow> nat \<Rightarrow> nat \<Rightarrow> nat" where
  "pair_bit_index players lower higher =
     (lower * (2 * players - lower - 1)) div 2 + (higher - lower - 1)"

text \<open>Storage grows to the limit and no further: a pair beyond it is refused.\<close>

definition reserve_for_next_candidate :: "pair_accumulator \<Rightarrow> unit result" where
  "reserve_for_next_candidate a =
     (if length (collected_pairs a) = pair_limit a then pair_limit_error ''spatial_grid.candidate_pairs'' else Inr ())"

definition observe_pair :: "nat \<Rightarrow> nat \<Rightarrow> entity_id \<Rightarrow> entity_id \<Rightarrow> pair_accumulator \<Rightarrow> pair_accumulator result" where
  "observe_pair lower higher e f a =
     (let i = pair_bit_index (pair_players a) lower higher in
      if observed_bits a ! i then Inr a
      else
        try_then (reserve_for_next_candidate a) (\<lambda>_.
        try_then (candidate_pair_create e f) (\<lambda>p.
          Inr (a\<lparr>observed_bits := (observed_bits a)[i := True], collected_pairs := collected_pairs a @ [p]\<rparr>))))"

definition pairs_of_cell :: "entity_id list \<Rightarrow> (entity_id \<times> entity_id) list" where
  "pairs_of_cell cell =
     concat (map (\<lambda>i. map (\<lambda>j. (cell ! i, cell ! j)) [i + 1..<length cell]) [0..<length cell])"

definition observe_cell_pair ::
  "physics_body store \<Rightarrow> entity_id \<times> entity_id \<Rightarrow> pair_accumulator \<Rightarrow> pair_accumulator result" where
  "observe_cell_pair bs p =
     observe_pair (body_index_for_id bs (fst p)) (body_index_for_id bs (snd p)) (fst p) (snd p)"

definition materialize :: "pair_accumulator \<Rightarrow> candidate_pair list" where
  "materialize a = sort_key (\<lambda>p. (lower_id p, higher_id p)) (collected_pairs a)"

definition build_candidate_pairs :: "physics_body store \<Rightarrow> entity_id list list \<Rightarrow> candidate_pair list result" where
  "build_candidate_pairs bs cells =
     try_then (accumulator_create (length bs)) (\<lambda>a.
     try_then (try_fold (\<lambda>cell. try_fold (observe_cell_pair bs) (pairs_of_cell cell)) cells a) (\<lambda>a.
       Inr (materialize a)))"

section \<open>The grid\<close>

record spatial_grid =
  grid_config :: simulation_config
  grid_bounds :: arena_bounds
  grid_cells :: "entity_id list list"
  candidate_pairs :: "candidate_pair list"

definition spatial_grid_create :: "simulation_config \<Rightarrow> arena_bounds \<Rightarrow> game_world \<Rightarrow> spatial_grid result" where
  "spatial_grid_create c bounds w =
     try_then (checked_cell_count c) (\<lambda>cells.
     try_then (validate_cell_extent (bounds_width bounds) (grid_columns c) ''spatial_grid.cell_width'') (\<lambda>_.
     try_then (validate_cell_extent (bounds_height bounds) (grid_rows c) ''spatial_grid.cell_height'') (\<lambda>_.
     try_then (try_fold (add_coverage c bounds) (bodies w) ([], 0)) (\<lambda>(coverages, memberships).
     try_then (build_cells (bodies w) coverages (grid_columns c) cells) (\<lambda>members.
     try_then (build_candidate_pairs (bodies w) members) (\<lambda>pairs.
       Inr \<lparr>grid_config = c, grid_bounds = bounds, grid_cells = members, candidate_pairs = pairs\<rparr>))))))"

definition spatial_grid_of_config :: "simulation_config \<Rightarrow> game_world \<Rightarrow> spatial_grid result" where
  "spatial_grid_of_config c w =
     try_then (arena_bounds_create (Finite (world_width c)) (Finite (world_height c))) (\<lambda>bounds.
       spatial_grid_create c bounds w)"

definition home_cell :: "spatial_grid \<Rightarrow> vector2 \<Rightarrow> (nat \<times> nat) result" where
  "home_cell g p =
     (if \<not> bounds_contains (grid_bounds g) p
      then Inl (SimError kSpatialGridPointOutOfBounds ''spatial_grid.home_cell.point'')
      else Inr (last_intersected_cell (fy p) (bounds_height (grid_bounds g)) (grid_rows (grid_config g)),
                last_intersected_cell (fx p) (bounds_width (grid_bounds g)) (grid_columns (grid_config g))))"

definition cell_members :: "spatial_grid \<Rightarrow> nat \<times> nat \<Rightarrow> entity_id list result" where
  "cell_members g coordinate =
     (if fst coordinate \<ge> grid_rows (grid_config g) \<or> snd coordinate \<ge> grid_columns (grid_config g)
      then Inl (SimError kSpatialGridCellCoordinateOutOfBounds ''spatial_grid.cell_members.coordinate'')
      else Inr (grid_cells g ! (fst coordinate * grid_columns (grid_config g) + snd coordinate)))"

definition grid_rebuilt :: "spatial_grid \<Rightarrow> game_world \<Rightarrow> spatial_grid result" where
  "grid_rebuilt g w = spatial_grid_create (grid_config g) (grid_bounds g) w"

end
