(* ===== verification/Broad_Phase.thy ===== *)
theory Broad_Phase
  imports Spatial_Grid
begin

text \<open>
  What the spatial grid promises (src/src/simulation/spatial_grid.cpp): the candidate pairs are exactly the
  pairs that share a cell, each once and in order; two bodies whose discs touch always share a cell; and a
  body is a member of the home cell of its centre.
\<close>

section \<open>Boundary searches\<close>

lemma search_bounds:
  "a \<le> b \<Longrightarrow> a \<le> search_boundary p a b \<and> search_boundary p a b \<le> b"
proof (induction p a b rule: search_boundary.induct)
  case (1 p a b)
  let ?m = "a + (b - a) div 2"
  show ?case
  proof (cases "a < b")
    case True
    then have m: "a \<le> ?m" "?m < b" by auto
    show ?thesis using 1(1) [OF True refl] 1(2) [OF True refl] m True
      by (subst (1 2) search_boundary.simps) (auto simp: Let_def)
  next
    case False
    with 1(3) show ?thesis by (subst (1 2) search_boundary.simps) auto
  qed
qed

lemma search_mono:
  assumes "\<And>i. p i \<Longrightarrow> q i"
  shows "a \<le> b \<Longrightarrow> search_boundary p a b \<le> search_boundary q a b"
proof (induction "b - a" arbitrary: a b rule: less_induct)
  case less
  let ?m = "a + (b - a) div 2"
  show ?case
  proof (cases "a < b")
    case True
    then have m: "a \<le> ?m" "?m < b" by auto
    have down: "search_boundary p a ?m \<le> ?m" and up: "?m + 1 \<le> search_boundary q (?m + 1) b"
      using search_bounds [of a ?m p] search_bounds [of "?m + 1" b q] m by auto
    have both: "search_boundary p (?m + 1) b \<le> search_boundary q (?m + 1) b" "search_boundary p a ?m \<le> search_boundary q a ?m"
      using m by (auto intro!: less)
    have "search_boundary f a b = (if f ?m then search_boundary f (?m + 1) b else search_boundary f a ?m)" for f
      by (rule trans [OF search_boundary.simps]) (simp add: Let_def True)
    from this [of p] this [of q] show ?thesis using both down up assms [of ?m]
      by (simp del: One_nat_def split: if_split)
  next
    case False
    then show ?thesis by (subst (1 2) search_boundary.simps) auto
  qed
qed

lemma fle_trans: "fle a b \<Longrightarrow> fle b c \<Longrightarrow> fle a c"
  by (cases a; cases b; cases c) auto

lemma fless_fle_trans: "fless a b \<Longrightarrow> fle b c \<Longrightarrow> fle a c"
  by (cases a; cases b; cases c) auto

lemma search_within: "0 < n \<Longrightarrow> search_boundary p 1 n - 1 < n"
  using search_bounds [of 1 n p] by auto

lemma cells_within:
  "0 < n \<Longrightarrow> first_intersected_cell low extent n < n" "0 < n \<Longrightarrow> last_intersected_cell high extent n < n"
  using search_within by (auto simp: first_intersected_cell_def last_intersected_cell_def Let_def)

text \<open>The first cell of a lower edge is not beyond the last cell of an upper edge above it, whatever the
  boundaries between cells round to.\<close>

lemma first_cell_le_last:
  assumes "fle low high" and "0 < n"
  shows "first_intersected_cell low extent n \<le> last_intersected_cell high extent n"
proof -
  have "search_boundary (\<lambda>i. fless (internal_boundary extent n i) low) 1 n
      \<le> search_boundary (\<lambda>i. fle (internal_boundary extent n i) high) 1 n"
    using assms by (intro search_mono) (auto intro: fless_fle_trans)
  moreover have "search_boundary (\<lambda>i. fless (internal_boundary extent n i) low) 1 n \<le> n"
    "search_boundary (\<lambda>i. fle (internal_boundary extent n i) high) 1 n \<le> n"
    using search_bounds assms(2) by (simp_all add: Suc_leI)
  ultimately show ?thesis by (auto simp: first_intersected_cell_def last_intersected_cell_def Let_def)
qed

lemma clamped_first_le_last:
  assumes "fle low high" and "0 < n"
  shows "first_intersected_cell (fmax (Finite 0) low) extent n \<le> last_intersected_cell (fmin (Finite extent) high) extent n"
proof (cases "fless (Finite 0) low")
  case True
  show ?thesis
  proof (cases "fless high (Finite extent)")
    case False
    have "first_intersected_cell d extent n \<le> n - 1" for d
      using cells_within(1) [OF assms(2), of d extent] by simp
    moreover have "last_intersected_cell (Finite extent) extent n = n - 1" by (simp add: last_intersected_cell_def)
    ultimately show ?thesis using False by (simp add: fmin_def)
  qed (use True assms in \<open>simp add: fmax_def fmin_def first_cell_le_last\<close>)
qed (simp add: fmax_def first_intersected_cell_def)

lemma last_cell_mono:
  assumes "fle a b" and "0 < n" shows "last_intersected_cell a extent n \<le> last_intersected_cell b extent n"
proof -
  have "search_boundary (\<lambda>i. fle (internal_boundary extent n i) a) 1 n
      \<le> search_boundary (\<lambda>i. fle (internal_boundary extent n i) b) 1 n"
    using assms by (intro search_mono) (auto intro: fle_trans)
  moreover have "fle (Finite extent) a \<Longrightarrow> fle (Finite extent) b" using assms(1) by (rule fle_trans [rotated])
  moreover have "search_boundary (\<lambda>i. fle (internal_boundary extent n i) a) 1 n \<le> n"
    using search_bounds assms(2) by (simp add: Suc_leI)
  ultimately show ?thesis by (auto simp: last_intersected_cell_def)
qed

section \<open>Edges\<close>

lemma fle_to_double: "0 \<le> x \<Longrightarrow> fle (Finite 0) (to_double x)"
  using rounded_nonneg [of x] largest_finite_nonneg
  by (cases "x = 0") (auto simp: to_double_def simp del: largest_finite_nonneg)

lemma tolerances:
  obtains rel pos where "kRelativeTolerance = Finite rel" "0 < rel" "rel \<le> 1 / 2" "kPositionTolerance = Finite pos" "0 < pos"
proof -
  have small: "rounded (1 / 10 ^ 12) \<le> 1 / 2" "rounded (1 / 10 ^ 9) \<le> 1 / 2"
    using representable_powi [of "- 1"] by (intro rounded_le; simp add: power_int_minus)+
  have low: "2 powi (- 60) \<le> rounded (1 / 10 ^ 12)" "2 powi (- 60) \<le> rounded (1 / 10 ^ 9)"
    using representable_powi [of "- 60"] by (intro rounded_ge; simp add: power_int_minus)+
  have "0 < rounded (1 / 10 ^ 12)" "0 < rounded (1 / 10 ^ 9)"
    using low powi_pos [of "- 60"] by linarith+
  moreover from this have "\<bar>rounded (1 / 10 ^ 12)\<bar> \<le> largest_finite" "\<bar>rounded (1 / 10 ^ 9)\<bar> \<le> largest_finite"
    using small by (simp_all add: largest_finite_def)
  ultimately show ?thesis using small
    by (intro that [of "rounded (1 / 10 ^ 12)" "rounded (1 / 10 ^ 9)"])
      (simp_all add: kRelativeTolerance_def kPositionTolerance_def to_double_finite)
qed

lemma fle_zero_cases: "fle (Finite 0) d \<Longrightarrow> (\<exists>x \<ge> 0. d = Finite x) \<or> d = Infinite True"
  by (cases d) auto

lemma coverage_padding_nonneg:
  assumes "0 \<le> r" shows "fle (Finite 0) (coverage_padding (Finite r))"
proof -
  obtain rel pos where t: "kRelativeTolerance = Finite rel" "0 < rel" "rel \<le> 1 / 2" "kPositionTolerance = Finite pos" "0 < pos"
    by (rule tolerances)
  define d where "d = fmul (Finite 2) (Finite r)"
  have d: "fle (Finite 0) d" unfolding d_def using assms by (simp add: fle_to_double)
  then have "fle (Finite 0) (fmax (fabs d) (fabs d))" by (cases d) (auto simp: fmax_def)
  then have "fle (Finite 0) (fmul (Finite rel) (fmax (fabs d) (fabs d)))"
    using t(2) by (auto dest!: fle_zero_cases simp: fle_to_double)
  then have tol: "fle (Finite 0) (comparison_tolerance d d kPositionTolerance)"
    unfolding comparison_tolerance_def t(1,4) using t(5) by (auto dest!: fle_zero_cases simp: fle_to_double)
  have "1 / 2 \<le> rounded (1 - rel)"
    using t representable_powi [of "- 1"] by (intro rounded_ge) (auto simp: power_int_minus)
  moreover have "rounded (1 - rel) \<le> 1" using t by (intro rounded_le) auto
  ultimately have "fsub (Finite 1) kRelativeTolerance = Finite (rounded (1 - rel))" and "0 < rounded (1 - rel)"
    by (simp_all add: t(1) to_double_finite largest_finite_def)
  then obtain k where k: "fsub (Finite 1) kRelativeTolerance = Finite k" "0 < k" by blast
  show ?thesis using tol k(2)
    unfolding coverage_padding_def Let_def k(1) d_def [symmetric] by (auto simp: fle_to_double dest!: fle_zero_cases)
qed

lemma fadd_grows:
  assumes "fle (Finite 0) p" and "- largest_finite \<le> v" shows "fle (to_double v) (fadd (to_double v) p)"
proof (cases "\<bar>rounded v\<bar> > largest_finite")
  case True
  then have "v > 0"
    using overflow_below [of v] assms(2) rounded_representable [OF representable_largest_finite] 
    by (cases "v > 0") (auto dest: order.antisym)
  with True assms(1) show ?thesis by (auto simp: to_double_def dest!: fle_zero_cases)
next
  case False
  then have d: "to_double v = Finite (rounded v)" by (simp add: to_double_finite)
  show ?thesis
  proof (cases p)
    case (Finite x)
    then have "rounded v \<le> rounded (rounded v + x)"
      using assms(1) by (intro rounded_ge) (auto simp: rounded_is_representable)
    moreover have "rounded v + x > 0" if "\<bar>rounded (rounded v + x)\<bar> > largest_finite"
    proof (rule ccontr)
      assume "\<not> rounded v + x > 0"
      then have "rounded (rounded v + x) < - largest_finite" using that overflow_below(2) by force
      with calculation False show False by linarith
    qed
    ultimately show ?thesis using Finite d by (auto simp: to_double_def)
  qed (use assms(1) d in auto)
qed

lemma fsub_shrinks:
  assumes "fle (Finite 0) p" and "v \<le> largest_finite" shows "fle (fsub (to_double v) p) (to_double v)"
proof -
  have "fle (to_double (- v)) (fadd (to_double (- v)) p)" using assms by (intro fadd_grows) auto
  moreover have "fadd (fneg d) p = fneg (fsub d p)" for d
    by (cases d; cases p) (simp_all add: fsub_def flip: to_double_minus)
  ultimately show ?thesis by (simp add: to_double_minus fle_fneg)
qed

text \<open>The edges before the clamp enclose the disc.\<close>

lemma edges_enclose:
  assumes "valid_component x" and "0 \<le> r"
  shows "fle (nextafter (fsub (fsub (Finite x) (Finite r)) (coverage_padding (Finite r))) (Infinite False)) (Finite (x - r))"
    and "fle (Finite (x + r)) (nextafter (fadd (fadd (Finite x) (Finite r)) (coverage_padding (Finite r))) (Infinite True))"
proof -
  have x: "\<bar>x\<bar> \<le> largest_finite" using assms(1) component_below_largest by (simp add: valid_component_def)
  note pad = coverage_padding_nonneg [OF assms(2)]
  show "fle (nextafter (fsub (fsub (Finite x) (Finite r)) (coverage_padding (Finite r))) (Infinite False)) (Finite (x - r))"
    using fsub_shrinks [OF pad, of "x - r"] x assms(2) by (intro nextafter_down) (auto simp: valid_fsub)
  show "fle (Finite (x + r)) (nextafter (fadd (fadd (Finite x) (Finite r)) (coverage_padding (Finite r))) (Infinite True))"
    using fadd_grows [OF pad, of "x + r"] x assms(2) by (intro nextafter_up) (auto simp: valid_fadd)
qed

lemma touching_ranges_meet:
  assumes "valid_component x" "valid_component y" "0 \<le> r" "0 \<le> s" "x - y \<le> r + s" "0 < n"
  shows "first_intersected_cell (low_edge (Finite x) (Finite r) (coverage_padding (Finite r))) extent n
     \<le> last_intersected_cell (high_edge extent (Finite y) (Finite s) (coverage_padding (Finite s))) extent n"
  unfolding low_edge_def high_edge_def
proof (rule clamped_first_le_last [OF _ assms(6)])
  have "fle (Finite (x - r)) (Finite (y + s))" using assms(5) by simp
  then show "fle (nextafter (fsub (fsub (Finite x) (Finite r)) (coverage_padding (Finite r))) (Infinite False))
      (nextafter (fadd (fadd (Finite y) (Finite s)) (coverage_padding (Finite s))) (Infinite True))"
    using edges_enclose assms by (blast intro: fle_trans)
qed

lemma center_between_edges:
  assumes "valid_component x" "0 \<le> r" "x \<le> extent" "0 < n"
  shows "first_intersected_cell (low_edge (Finite x) (Finite r) (coverage_padding (Finite r))) extent n
      \<le> last_intersected_cell (Finite x) extent n"
    and "last_intersected_cell (Finite x) extent n
      \<le> last_intersected_cell (high_edge extent (Finite x) (Finite r) (coverage_padding (Finite r))) extent n"
proof -
  note edges = edges_enclose [OF assms(1,2)]
  have "fmin (Finite extent) (Finite x) = Finite x" using assms(3) by (simp add: fmin_def)
  then show "first_intersected_cell (low_edge (Finite x) (Finite r) (coverage_padding (Finite r))) extent n
      \<le> last_intersected_cell (Finite x) extent n"
    using clamped_first_le_last [OF fle_trans [OF edges(1), of "Finite x"] assms(4), of extent] assms(2)
    by (simp add: low_edge_def)
  have "fle (Finite x) (nextafter (fadd (fadd (Finite x) (Finite r)) (coverage_padding (Finite r))) (Infinite True))"
    using assms(2) by (intro fle_trans [OF _ edges(2)]) simp
  then have "fle (Finite x) (high_edge extent (Finite x) (Finite r) (coverage_padding (Finite r)))"
    using assms(3) by (simp add: high_edge_def fmin_def)
  then show "last_intersected_cell (Finite x) extent n
      \<le> last_intersected_cell (high_edge extent (Finite x) (Finite r) (coverage_padding (Finite r))) extent n"
    using assms(4) by (rule last_cell_mono)
qed

section \<open>Cells\<close>

definition within_grid :: "nat \<Rightarrow> nat \<Rightarrow> cell_coverage \<Rightarrow> bool" where
  "within_grid rows columns k \<longleftrightarrow> last_row k < rows \<and> last_column k < columns"

definition covers_cell :: "cell_coverage \<Rightarrow> nat \<Rightarrow> nat \<Rightarrow> bool" where
  "covers_cell k row column \<longleftrightarrow>
     first_row k \<le> row \<and> row \<le> last_row k \<and> first_column k \<le> column \<and> column \<le> last_column k"

lemma flattened_inject:
  "column < columns \<Longrightarrow> column' < columns \<Longrightarrow>
   flattened_index row columns column = flattened_index row' columns column' \<longleftrightarrow> row = row' \<and> column = column'"
  by (auto simp: flattened_index_def) (metis div_mult_self3 div_less add.right_neutral less_nat_zero_code mod_mult_self3 mod_less)+

lemma covered_cells_set:
  "set (covered_cells columns k) = {flattened_index r columns c |r c. covers_cell k r c}"
  by (force simp: covered_cells_def covers_cell_def less_Suc_eq_le simp del: upt_Suc)

lemma covered_cells_iff:
  assumes "within_grid rows columns k" and "column < columns"
  shows "flattened_index row columns column \<in> set (covered_cells columns k) \<longleftrightarrow> covers_cell k row column"
proof -
  have "c < columns" if "covers_cell k r c" for r c using that assms(1) by (simp add: covers_cell_def within_grid_def)
  then show ?thesis using assms(2) unfolding covered_cells_set by (auto simp: flattened_inject)
qed

lemma covered_cells_bound:
  assumes "within_grid rows columns k" shows "\<forall>i \<in> set (covered_cells columns k). i < rows * columns"
proof
  fix i assume "i \<in> set (covered_cells columns k)"
  then obtain r c where i: "i = r * columns + c" and rc: "r < rows" "c < columns"
    using assms by (auto simp: covered_cells_def flattened_index_def within_grid_def)
  have "Suc r * columns \<le> rows * columns" using rc(1) by (intro mult_le_mono1) simp
  with rc(2) show "i < rows * columns" by (simp add: i)
qed

lemma covered_cells_distinct:
  assumes "within_grid rows columns k" shows "distinct (covered_cells columns k)"
proof -
  have "distinct (concat (map (\<lambda>row. map (\<lambda>column. flattened_index row columns column) cs) rs))"
    if "distinct cs" "distinct rs" "\<forall>c \<in> set cs. c < columns" for rs cs
    using that by (induction rs) (auto simp: distinct_map inj_on_def flattened_inject)
  then show ?thesis unfolding covered_cells_def using assms by (auto simp: within_grid_def simp del: upt_Suc)
qed

lemma add_members:
  assumes "distinct is" "\<forall>i \<in> set is. i < length cells" "j < length cells"
  shows "length (fold (add_member e) is cells) = length cells"
    and "fold (add_member e) is cells ! j = cells ! j @ (if j \<in> set is then [e] else [])"
proof -
  show "length (fold (add_member e) is cells) = length cells"
    by (induction "is" arbitrary: cells) (simp_all add: add_member_def)
  show "fold (add_member e) is cells ! j = cells ! j @ (if j \<in> set is then [e] else [])"
    using assms
  proof (induction "is" arbitrary: cells)
    case (Cons i "is")
    have "fold (add_member e) is (add_member e i cells) ! j = add_member e i cells ! j @ (if j \<in> set is then [e] else [])"
      using Cons.prems by (intro Cons.IH) (auto simp: add_member_def)
    with Cons.prems show ?case by (auto simp: add_member_def [of e i cells] nth_list_update)
  qed simp
qed

lemma place_bodies:
  assumes "\<forall>p \<in> set ps. within_grid rows columns (snd p)" "length cells = rows * columns" "j < rows * columns"
  shows "length (fold (place_body columns) ps cells) = rows * columns"
    and "fold (place_body columns) ps cells ! j =
      cells ! j @ map fst (filter (\<lambda>p. j \<in> set (covered_cells columns (snd p))) ps)"
proof -
  have one: "length (place_body columns p cs) = rows * columns"
      "place_body columns p cs ! j = cs ! j @ (if j \<in> set (covered_cells columns (snd p)) then [fst p] else [])"
    if "within_grid rows columns (snd p)" "length cs = rows * columns" for p cs
    using that add_members [OF covered_cells_distinct, of rows columns "snd p" cs j "fst p"]
      covered_cells_bound [of rows columns "snd p"] assms(3)
    by (simp_all add: place_body_def)
  show "length (fold (place_body columns) ps cells) = rows * columns"
    using assms(1,2) by (induction ps arbitrary: cells) (simp_all add: one)
  show "fold (place_body columns) ps cells ! j =
      cells ! j @ map fst (filter (\<lambda>p. j \<in> set (covered_cells columns (snd p))) ps)"
    using assms(1,2)
  proof (induction ps arbitrary: cells)
    case (Cons p ps)
    then show ?case using one [of p cells] by simp
  qed simp
qed

section \<open>The triangular bit set\<close>

definition row_offset :: "nat \<Rightarrow> nat \<Rightarrow> nat" where
  "row_offset n i = (i * (2 * n - i - 1)) div 2"

lemma row_offset_Suc: "i < n \<Longrightarrow> row_offset n (Suc i) = row_offset n i + (n - i - 1)"
proof -
  assume "i < n"
  then obtain m where n: "n = i + m + 1" by (metis add.assoc less_iff_Suc_add Suc_eq_plus1)
  have "Suc i * (2 * n - Suc i - 1) = i * (2 * n - i - 1) + 2 * m"
    by (simp add: n algebra_simps)
  then show ?thesis by (simp add: row_offset_def n)
qed

lemma row_offset_mono: "i \<le> j \<Longrightarrow> j \<le> n \<Longrightarrow> row_offset n i \<le> row_offset n j"
proof (induction j)
  case (Suc j)
  then show ?case by (cases "i = Suc j") (auto simp: row_offset_Suc)
qed simp

lemma row_offset_all: "row_offset n n = (n * (n - 1)) div 2"
  by (cases n) (simp_all add: row_offset_def)

lemma pair_bit_index_in_row:
  assumes "i < j" "j < n"
  shows "row_offset n i \<le> pair_bit_index n i j" and "pair_bit_index n i j < row_offset n (Suc i)"
proof -
  have "pair_bit_index n i j = row_offset n i + (j - i - 1)" by (simp only: pair_bit_index_def row_offset_def)
  then show "row_offset n i \<le> pair_bit_index n i j" and "pair_bit_index n i j < row_offset n (Suc i)"
    using assms row_offset_Suc [of i n] by simp_all
qed

lemma pair_bit_index_bound: "i < j \<Longrightarrow> j < n \<Longrightarrow> pair_bit_index n i j < (n * (n - 1)) div 2"
  using pair_bit_index_in_row(2) [of i j n] row_offset_mono [of "Suc i" n n] by (simp add: row_offset_all)

lemma pair_bit_index_inject:
  assumes "i < j" "j < n" "k < l" "l < n" "pair_bit_index n i j = pair_bit_index n k l"
  shows "i = k \<and> j = l"
proof -
  have apart: "pair_bit_index n a b < pair_bit_index n c d" if "a < b" "b < n" "c < d" "d < n" "a < c" for a b c d
    using pair_bit_index_in_row(2) [OF that(1,2)] row_offset_mono [of "Suc a" c n]
      pair_bit_index_in_row(1) [OF that(3,4)] that by linarith
  have "\<not> i < k" "\<not> k < i" using apart [of i j k l] apart [of k l i j] assms by linarith+
  then have "i = k" by simp
  with assms show ?thesis by (auto simp: pair_bit_index_def)
qed

section \<open>The pair accumulator\<close>

text \<open>After any number of observations the collected pairs are, each once, the observed ones, and the bit
  of a pair is set exactly when it is collected.\<close>

definition accumulated :: "entity_id list \<Rightarrow> (entity_id \<times> entity_id) set \<Rightarrow> pair_accumulator \<Rightarrow> bool" where
  "accumulated ids seen a \<longleftrightarrow>
     pair_players a = length ids \<and> (length ids * (length ids - 1)) div 2 \<le> length (observed_bits a) \<and>
     distinct (collected_pairs a) \<and> set (collected_pairs a) = (\<lambda>(e, f). \<lparr>lower_id = e, higher_id = f\<rparr>) ` seen \<and>
     (\<forall>i j. i < j \<and> j < length ids \<longrightarrow>
        observed_bits a ! pair_bit_index (length ids) i j = ((ids ! i, ids ! j) \<in> seen))"

lemma body_index: "ascending (store_ids bs) \<Longrightarrow> i < length bs \<Longrightarrow> body_index_for_id bs (store_ids bs ! i) = i"
proof -
  assume asc: "ascending (store_ids bs)" and i: "i < length bs"
  let ?P = "\<lambda>entry. fst entry < store_ids bs ! i"
  have "takeWhile ?P (take i bs @ drop i bs) = take i bs"
  proof -
    have below: "\<forall>x \<in> set (take i bs). ?P x"
    proof
      fix x assume "x \<in> set (take i bs)"
      then obtain k where k: "k < i" "x = bs ! k" using i by (auto simp: in_set_conv_nth)
      then have "store_ids bs ! k < store_ids bs ! i" using sorted_wrt_nth_less [OF asc k(1)] i by simp
      then show "?P x" using k i by simp
    qed
    have "drop i bs = bs ! i # drop (Suc i) bs" using i by (simp add: Cons_nth_drop_Suc)
    then have "takeWhile ?P (drop i bs) = []" using i by simp
    with below show ?thesis by (simp only: takeWhile_append2) simp
  qed
  with i show ?thesis by (simp add: body_index_for_id_def store_lower_bound_def)
qed

lemma ordered_pair:
  assumes "ascending ids" "i < j" "j < length ids"
  shows "candidate_pair_create (ids ! i) (ids ! j) = Inr \<lparr>lower_id = ids ! i, higher_id = ids ! j\<rparr>"
proof -
  have "ids ! i < ids ! j" using assms by (simp add: sorted_wrt_iff_nth_less)
  then show ?thesis by (auto simp: candidate_pair_create_def)
qed

lemma observe_pair_accumulated:
  assumes acc: "accumulated (store_ids bs) seen a" and asc: "ascending (store_ids bs)" and ij: "i < j" "j < length bs"
    and step: "observe_cell_pair bs (store_ids bs ! i, store_ids bs ! j) a = Inr a'"
    and seen: "seen \<subseteq> {(store_ids bs ! k, store_ids bs ! l) |k l. k < l \<and> l < length bs}"
  shows "accumulated (store_ids bs) (insert (store_ids bs ! i, store_ids bs ! j) seen) a'"
proof -
  let ?ids = "store_ids bs"
  let ?n = "length bs"
  let ?b = "pair_bit_index ?n i j"
  let ?pair = "\<lparr>lower_id = ?ids ! i, higher_id = ?ids ! j\<rparr>"
  have idx: "body_index_for_id bs (?ids ! i) = i" "body_index_for_id bs (?ids ! j) = j"
    using body_index [OF asc] ij by simp_all
  have bound: "?b < length (observed_bits a)"
    using pair_bit_index_bound [of i j ?n] ij acc by (auto simp: accumulated_def)
  have bit: "observed_bits a ! ?b = ((?ids ! i, ?ids ! j) \<in> seen)"
    using acc ij by (simp add: accumulated_def)
  show ?thesis
  proof (cases "observed_bits a ! ?b")
    case True
    then have "a' = a" using step idx acc by (simp add: observe_cell_pair_def observe_pair_def accumulated_def Let_def)
    moreover have "insert (?ids ! i, ?ids ! j) seen = seen" using True bit by auto
    ultimately show ?thesis using acc by simp
  next
    case False
    then have a': "a' = a\<lparr>observed_bits := (observed_bits a)[?b := True], collected_pairs := collected_pairs a @ [?pair]\<rparr>"
      using step idx acc ordered_pair [OF asc, of i j] ij
      by (auto simp: observe_cell_pair_def observe_pair_def accumulated_def Let_def try_then_Inr_iff)
    have new: "?pair \<notin> set (collected_pairs a)" using acc bit False by (auto simp: accumulated_def)
    have bits: "(observed_bits a)[?b := True] ! pair_bit_index ?n k l = ((?ids ! k, ?ids ! l) \<in> insert (?ids ! i, ?ids ! j) seen)"
      if "k < l" "l < ?n" for k l
    proof -
      have "pair_bit_index ?n k l = ?b \<longleftrightarrow> k = i \<and> l = j"
        using pair_bit_index_inject [OF that ij] by auto
      moreover have "?ids ! k = ?ids ! i \<longleftrightarrow> k = i" "?ids ! l = ?ids ! j \<longleftrightarrow> l = j"
        using ascending_distinct [OF asc] that ij by (simp_all only: nth_eq_iff_index_eq length_map less_trans)
      moreover have "pair_bit_index ?n k l < length (observed_bits a)"
        using pair_bit_index_bound [OF that] acc by (auto simp: accumulated_def)
      moreover have "observed_bits a ! pair_bit_index ?n k l = ((?ids ! k, ?ids ! l) \<in> seen)"
        using acc that by (simp add: accumulated_def)
      ultimately show ?thesis using bound by (auto simp: nth_list_update)
    qed
    show ?thesis using acc new bits unfolding accumulated_def a' by simp
  qed
qed

lemma observe_pairs_accumulated:
  assumes "ascending (store_ids bs)"
  shows "try_fold (observe_cell_pair bs) ps a = Inr a' \<Longrightarrow> accumulated (store_ids bs) seen a \<Longrightarrow>
    set ps \<union> seen \<subseteq> {(store_ids bs ! k, store_ids bs ! l) |k l. k < l \<and> l < length bs} \<Longrightarrow>
    accumulated (store_ids bs) (set ps \<union> seen) a'"
proof (induction ps arbitrary: a seen)
  case (Cons p ps)
  obtain a1 where a1: "observe_cell_pair bs p a = Inr a1" and rest: "try_fold (observe_cell_pair bs) ps a1 = Inr a'"
    using Cons.prems(1) by (auto simp: try_then_Inr_iff)
  obtain i j where p: "p = (store_ids bs ! i, store_ids bs ! j)" "i < j" "j < length bs" using Cons.prems(3) by auto
  have "accumulated (store_ids bs) (insert p seen) a1"
    using observe_pair_accumulated [OF Cons.prems(2) assms p(2,3) a1 [unfolded p(1)]] Cons.prems(3) p(1) by simp
  from Cons.IH [OF rest this] Cons.prems(3) show ?case by simp
qed simp

lemma try_fold_concat:
  "try_fold (\<lambda>x. try_fold f (g x)) xs s = try_fold f (concat (map g xs)) s"
proof (induction xs arbitrary: s)
  case (Cons x xs)
  show ?case by (cases "try_fold f (g x) s") (simp_all add: try_fold_append Cons.IH)
qed simp

lemma build_candidate_pairs_Inr:
  assumes "build_candidate_pairs bs cells = Inr pairs" and asc: "ascending (store_ids bs)"
    and sub: "\<Union> (set ` pairs_of_cell ` set cells) \<subseteq> {(store_ids bs ! k, store_ids bs ! l) |k l. k < l \<and> l < length bs}"
  shows "set pairs = (\<lambda>(e, f). \<lparr>lower_id = e, higher_id = f\<rparr>) ` \<Union> (set ` pairs_of_cell ` set cells)"
    and "distinct pairs" and "sorted (map (\<lambda>p. (lower_id p, higher_id p)) pairs)"
proof -
  obtain a a' where a: "accumulator_create (length bs) = Inr a"
    and a': "try_fold (\<lambda>cell. try_fold (observe_cell_pair bs) (pairs_of_cell cell)) cells a = Inr a'"
    and pairs: "pairs = materialize a'"
    using assms(1) by (auto simp: build_candidate_pairs_def try_then_Inr_iff)
  have "try_fold (observe_cell_pair bs) (concat (map pairs_of_cell cells)) a = Inr a'"
    using a' by (simp only: try_fold_concat)
  moreover obtain count_of where "maximum_pair_count (length bs) = Inr count_of"
    and acc: "pair_players a = length bs" "collected_pairs a = []" "observed_bits a = replicate (8 * ((count_of + 7) div 8)) False"
    using a by (auto simp: accumulator_create_def checked_pair_storage_count_def checked_bitset_byte_count_def
        try_then_Inr_iff Let_def pair_limit_error_def split: if_split_asm)
  then have "length bs * (length bs - 1) div 2 \<le> 8 * ((count_of + 7) div 8)"
    by (auto simp: maximum_pair_count_def pair_limit_error_def Let_def split: if_split_asm)
  then have "accumulated (store_ids bs) {} a"
    using acc pair_bit_index_bound by (fastforce simp: accumulated_def)
  ultimately have "accumulated (store_ids bs) (set (concat (map pairs_of_cell cells)) \<union> {}) a'"
    using sub by (intro observe_pairs_accumulated [OF asc]) auto
  then have "set (collected_pairs a') = (\<lambda>(e, f). \<lparr>lower_id = e, higher_id = f\<rparr>) ` \<Union> (set ` pairs_of_cell ` set cells)"
    and "distinct (collected_pairs a')" by (simp_all add: accumulated_def)
  then show "set pairs = (\<lambda>(e, f). \<lparr>lower_id = e, higher_id = f\<rparr>) ` \<Union> (set ` pairs_of_cell ` set cells)"
    and "distinct pairs" by (simp_all add: pairs materialize_def)
  show "sorted (map (\<lambda>p. (lower_id p, higher_id p)) pairs)" by (simp add: pairs materialize_def)
qed

section \<open>What a grid is made of\<close>

lemma add_coverages:
  "try_fold (add_coverage c bounds) entries (ks, m) = Inr st \<Longrightarrow>
   \<exists>ts. fst st = ks @ ts \<and> list_all2 (\<lambda>e k. body_coverage c bounds e = Inr k) entries ts"
proof (induction entries arbitrary: ks m)
  case (Cons e entries)
  then obtain k m' where "body_coverage c bounds e = Inr k"
    and "try_fold (add_coverage c bounds) entries (ks @ [k], m') = Inr st"
    by (auto simp: add_coverage_def [of c bounds e] try_then_Inr_iff split: if_split_asm)
  then show ?case using Cons.IH [of "ks @ [k]" m'] by fastforce
qed auto

lemma body_coverage_Inr:
  assumes "body_coverage c bounds (e, b) = Inr k"
  defines "r \<equiv> effective_radius b (Finite (player_radius c))"
  shows "first_row k = first_intersected_cell (low_edge (fy (body_position b)) r (coverage_padding r)) (bounds_height bounds) (grid_rows c)"
    and "last_row k = last_intersected_cell (high_edge (bounds_height bounds) (fy (body_position b)) r (coverage_padding r)) (bounds_height bounds) (grid_rows c)"
    and "first_column k = first_intersected_cell (low_edge (fx (body_position b)) r (coverage_padding r)) (bounds_width bounds) (grid_columns c)"
    and "last_column k = last_intersected_cell (high_edge (bounds_width bounds) (fx (body_position b)) r (coverage_padding r)) (bounds_width bounds) (grid_columns c)"
  using assms(1) unfolding r_def
  by (auto simp: body_coverage_def Let_def split: option.splits envelope_violation.splits)

lemma pairs_of_cell_set:
  assumes "ascending cell"
  shows "set (pairs_of_cell cell) = {(e, f). e \<in> set cell \<and> f \<in> set cell \<and> e < f}"
proof -
  have "set (pairs_of_cell cell) = {(cell ! i, cell ! j) |i j. i < j \<and> j < length cell}"
  proof (intro set_eqI iffI)
    fix p assume "p \<in> set (pairs_of_cell cell)"
    then obtain i j where "i < length cell" "p = (cell ! i, cell ! j)" "Suc i \<le> j" "j < length cell"
      by (auto simp: pairs_of_cell_def)
    then show "p \<in> {(cell ! i, cell ! j) |i j. i < j \<and> j < length cell}" by (auto simp: Suc_le_eq)
  next
    fix p assume "p \<in> {(cell ! i, cell ! j) |i j. i < j \<and> j < length cell}"
    then obtain i j where "i < j" "j < length cell" "p = (cell ! i, cell ! j)" by blast
    then show "p \<in> set (pairs_of_cell cell)" by (auto simp: pairs_of_cell_def intro!: bexI [of _ i])
  qed
  also have "\<dots> = {(cell ! i, cell ! j) |i j. i < length cell \<and> j < length cell \<and> cell ! i < cell ! j}" (is "?l = ?r")
  proof -
    have iff: "cell ! i < cell ! j \<longleftrightarrow> i < j" if "i < length cell" "j < length cell" for i j
      using that sorted_wrt_nth_less [OF assms, of i j] sorted_wrt_nth_less [OF assms, of j i]
      by (cases i j rule: linorder_cases) auto
    then show ?thesis using less_trans by blast
  qed
  also have "\<dots> = {(e, f). e \<in> set cell \<and> f \<in> set cell \<and> e < f}"
    by (auto simp: in_set_conv_nth)
  finally show ?thesis .
qed

definition grid_shape ::
  "simulation_config \<Rightarrow> arena_bounds \<Rightarrow> game_world \<Rightarrow> spatial_grid \<Rightarrow> cell_coverage list \<Rightarrow> bool" where
  "grid_shape c bounds w g ks \<longleftrightarrow>
     list_all2 (\<lambda>entry k. body_coverage c bounds entry = Inr k) (bodies w) ks \<and>
     grid_config g = c \<and> grid_bounds g = bounds \<and> 0 < grid_rows c \<and> 0 < grid_columns c \<and>
     length (grid_cells g) = grid_rows c * grid_columns c \<and>
     (\<forall>row column i. row < grid_rows c \<longrightarrow> column < grid_columns c \<longrightarrow> i < length (bodies w) \<longrightarrow>
        fst (bodies w ! i) \<in> set (grid_cells g ! flattened_index row (grid_columns c) column) =
        covers_cell (ks ! i) row column) \<and>
     (\<forall>e f. \<lparr>lower_id = e, higher_id = f\<rparr> \<in> set (candidate_pairs g) \<longleftrightarrow>
        e < f \<and> (\<exists>cell \<in> set (grid_cells g). e \<in> set cell \<and> f \<in> set cell)) \<and>
     distinct (candidate_pairs g) \<and> sorted (map (\<lambda>p. (lower_id p, higher_id p)) (candidate_pairs g))"

lemma grid_structure:
  assumes "spatial_grid_create c bounds w = Inr g" and valid: "valid_store (bodies w)"
  shows "\<exists>ks. grid_shape c bounds w g ks"
proof -
  let ?ids = "store_ids (bodies w)"
  let ?columns = "grid_columns c"
  obtain cells ks m where cells: "checked_cell_count c = Inr cells"
    and ks: "try_fold (add_coverage c bounds) (bodies w) ([], 0) = Inr (ks, m)"
    and built: "build_cells (bodies w) ks ?columns cells = Inr (grid_cells g)"
    and pairs: "build_candidate_pairs (bodies w) (grid_cells g) = Inr (candidate_pairs g)"
    and g: "grid_config g = c" "grid_bounds g = bounds"
    using assms(1) by (auto simp: spatial_grid_create_def try_then_Inr_iff split: prod.splits)
  have dims: "0 < grid_rows c" "0 < ?columns" "cells = grid_rows c * ?columns"
    using cells by (auto simp: checked_cell_count_def Let_def split: if_split_asm)
  have cov: "list_all2 (\<lambda>entry k. body_coverage c bounds entry = Inr k) (bodies w) ks"
    using add_coverages [OF ks] by simp
  then have len: "length ks = length (bodies w)" by (simp add: list_all2_lengthD)
  have within: "within_grid (grid_rows c) ?columns (ks ! i)" if "i < length (bodies w)" for i
    using list_all2_nthD [OF cov that] body_coverage_Inr [of c bounds "fst (bodies w ! i)" "snd (bodies w ! i)" "ks ! i"] cells_within dims
    by (simp add: within_grid_def)
  define placed where "placed = zip ?ids ks"
  have gcells: "grid_cells g = fold (place_body ?columns) placed (replicate cells [])"
    using built by (auto simp: build_cells_def try_then_Inr_iff placed_def)
  have all_within: "\<forall>p \<in> set placed. within_grid (grid_rows c) ?columns (snd p)"
    using within len by (auto simp: placed_def set_zip)
  have cell: "grid_cells g ! j = map fst (filter (\<lambda>p. j \<in> set (covered_cells ?columns (snd p))) placed)" if "j < cells" for j
    using place_bodies(2) [OF all_within, of "replicate cells []" j] that dims(3) by (simp add: gcells)
  have glen: "length (grid_cells g) = cells"
    using place_bodies(1) [OF all_within, of "replicate cells []" 0] dims by (simp add: gcells)
  have asc: "ascending ?ids" using valid by (simp add: valid_store_def)
  have mapped: "map fst placed = ?ids" using len by (simp add: placed_def)
  have cell_asc: "ascending k" "set k \<subseteq> set ?ids" if member: "k \<in> set (grid_cells g)" for k
  proof -
    obtain j where j: "j < cells" "k = grid_cells g ! j" 
      using member unfolding in_set_conv_nth [of k] glen by blast
    show "ascending k" using asc unfolding j(2) cell [OF j(1)] mapped [symmetric] by (simp add: ascending_map_filter)
    show "set k \<subseteq> set ?ids" unfolding j(2) cell [OF j(1)] mapped [symmetric] by auto
  qed
  have in_order: "\<exists>k l. e = ?ids ! k \<and> f = ?ids ! l \<and> k < l \<and> l < length (bodies w)"
    if members: "e \<in> set ?ids" "f \<in> set ?ids" and less: "e < f" for e f
  proof -
    obtain k l where kl: "k < length ?ids" "l < length ?ids" "e = ?ids ! k" "f = ?ids ! l"
      using members unfolding in_set_conv_nth by blast
    have "k < l" using less sorted_wrt_nth_less [OF asc, of l k] kl by (cases k l rule: linorder_cases) auto
    with kl show ?thesis unfolding length_map by blast
  qed
  have sub: "\<Union> (set ` pairs_of_cell ` set (grid_cells g)) \<subseteq> {(?ids ! k, ?ids ! l) |k l. k < l \<and> l < length (bodies w)}"
  proof
    fix p assume "p \<in> \<Union> (set ` pairs_of_cell ` set (grid_cells g))"
    then obtain cell where cell: "cell \<in> set (grid_cells g)" "p \<in> set (pairs_of_cell cell)" by auto
    then obtain e f where p: "p = (e, f)" "e \<in> set cell" "f \<in> set cell" "e < f"
      using pairs_of_cell_set [OF cell_asc(1)] by auto
    with cell_asc(2) [OF cell(1)] show "p \<in> {(?ids ! k, ?ids ! l) |k l. k < l \<and> l < length (bodies w)}"
      using in_order [of e f] by blast
  qed
  note built_pairs = build_candidate_pairs_Inr [OF pairs asc sub]
  show ?thesis unfolding grid_shape_def
  proof (intro exI [of _ ks] conjI allI impI)
    show "list_all2 (\<lambda>entry k. body_coverage c bounds entry = Inr k) (bodies w) ks" by (rule cov)
    show "grid_config g = c" "grid_bounds g = bounds" "0 < grid_rows c" "0 < ?columns" by (fact g dims(1,2))+
    show "length (grid_cells g) = grid_rows c * ?columns" using glen dims(3) by simp
    show "distinct (candidate_pairs g)" "sorted (map (\<lambda>p. (lower_id p, higher_id p)) (candidate_pairs g))"
      using built_pairs by simp_all
    show "\<lparr>lower_id = e, higher_id = f\<rparr> \<in> set (candidate_pairs g) \<longleftrightarrow>
      e < f \<and> (\<exists>cell \<in> set (grid_cells g). e \<in> set cell \<and> f \<in> set cell)" for e f
      using built_pairs(1) cell_asc(1) pairs_of_cell_set by (fastforce simp: image_iff)
    show "fst (bodies w ! i) \<in> set (grid_cells g ! flattened_index row ?columns column) \<longleftrightarrow> covers_cell (ks ! i) row column"
      if rc: "row < grid_rows c" "column < ?columns" and i: "i < length (bodies w)" for row column i
    proof -
      have "Suc row * ?columns \<le> cells" unfolding dims(3) using rc(1) by (intro mult_le_mono1) simp
      then have j: "flattened_index row ?columns column < cells" using rc(2) by (simp add: flattened_index_def)
      have "fst (bodies w ! i) = ?ids ! i" using i by simp
      moreover have "distinct ?ids" by (rule ascending_distinct [OF asc])
      ultimately have "fst (bodies w ! i) \<in> set (grid_cells g ! flattened_index row ?columns column) \<longleftrightarrow>
          flattened_index row ?columns column \<in> set (covered_cells ?columns (ks ! i))"
        unfolding cell [OF j] using i len
        by (auto simp: placed_def set_zip nth_eq_iff_index_eq simp del: nth_map)
          (force simp: image_iff simp del: nth_map)
      then show ?thesis using covered_cells_iff [OF within [OF i] rc(2)] by simp
    qed
  qed
qed

section \<open>Properties\<close>

lemma stored_body_position:
  assumes "valid_store s" "store_find s e = Some b" shows "\<exists>i < length s. s ! i = (e, b)"
proof -
  have "(e, b) \<in> set s"
    using assms store_find_map_of [of s e] by (simp add: valid_store_def map_of_SomeD)
  then show ?thesis by (auto simp: in_set_conv_nth)
qed

lemma candidate_pair_facts:
  assumes "spatial_grid_create c bounds w = Inr g" and "valid_store (bodies w)"
  shows "\<lparr>lower_id = e, higher_id = f\<rparr> \<in> set (candidate_pairs g) \<longleftrightarrow>
      e < f \<and> (\<exists>cell \<in> set (grid_cells g). e \<in> set cell \<and> f \<in> set cell)"
    and "sorted_wrt (\<lambda>p q. (lower_id p, higher_id p) < (lower_id q, higher_id q)) (candidate_pairs g)"
proof -
  obtain ks where "grid_shape c bounds w g ks" using grid_structure [OF assms] by blast
  then have g: "\<lparr>lower_id = e, higher_id = f\<rparr> \<in> set (candidate_pairs g) \<longleftrightarrow>
      e < f \<and> (\<exists>cell \<in> set (grid_cells g). e \<in> set cell \<and> f \<in> set cell)"
    and d: "distinct (candidate_pairs g)" and s: "sorted (map (\<lambda>p. (lower_id p, higher_id p)) (candidate_pairs g))"
    by (simp_all add: grid_shape_def)
  show "\<lparr>lower_id = e, higher_id = f\<rparr> \<in> set (candidate_pairs g) \<longleftrightarrow>
      e < f \<and> (\<exists>cell \<in> set (grid_cells g). e \<in> set cell \<and> f \<in> set cell)" by (rule g)
  have "inj_on (\<lambda>p. (lower_id p, higher_id p)) (set (candidate_pairs g))"
    by (rule inj_onI) (simp add: candidate_pair.equality)
  with d have "distinct (map (\<lambda>p. (lower_id p, higher_id p)) (candidate_pairs g))" by (simp add: distinct_map)
  with s have "sorted_wrt (<) (map (\<lambda>p. (lower_id p, higher_id p)) (candidate_pairs g))"
    by (simp add: strict_sorted_iff)
  then show "sorted_wrt (\<lambda>p q. (lower_id p, higher_id p) < (lower_id q, higher_id q)) (candidate_pairs g)"
    by (simp add: sorted_wrt_map)
qed

text \<open>
  C38: the candidate pairs of a grid are exactly the pairs of bodies that share a cell, each of them once,
  with the lower id first, in ascending order: the triangular bit set loses no pair and repeats none.
\<close>

theorem candidate_pairs_share_a_cell:
  assumes "spatial_grid_create c bounds w = Inr g" and "valid_store (bodies w)"
  shows "(\<forall>e f. \<lparr>lower_id = e, higher_id = f\<rparr> \<in> set (candidate_pairs g) \<longleftrightarrow>
      e < f \<and> (\<exists>cell \<in> set (grid_cells g). e \<in> set cell \<and> f \<in> set cell)) \<and>
    sorted_wrt (\<lambda>p q. (lower_id p, higher_id p) < (lower_id q, higher_id q)) (candidate_pairs g)"
  using candidate_pair_facts [OF assms] by blast

text \<open>
  C39: the grid is a superset of every contact. Two bodies whose committed discs touch or overlap on both
  axes are a candidate pair of the grid, wherever they are: across cell boundaries, past the wall of the
  arena, whatever the rounding of the boundaries and of the padded boxes.
\<close>

theorem broad_phase_misses_no_touching_pair:
  assumes "spatial_grid_create c bounds w = Inr g" and "valid_store (bodies w)"
    and "store_find (bodies w) e = Some a" "store_find (bodies w) f = Some b" "e < f"
    and "valid_vector (body_position a)" "valid_vector (body_position b)"
    and "effective_radius a (Finite (player_radius c)) = Finite r" "0 \<le> r"
    and "effective_radius b (Finite (player_radius c)) = Finite s" "0 \<le> s"
    and "\<bar>vx (body_position a) - vx (body_position b)\<bar> \<le> r + s"
    and "\<bar>vy (body_position a) - vy (body_position b)\<bar> \<le> r + s"
  shows "\<lparr>lower_id = e, higher_id = f\<rparr> \<in> set (candidate_pairs g)"
proof -
  obtain ks where "grid_shape c bounds w g ks" using grid_structure [OF assms(1,2)] by blast
  then have cov: "list_all2 (\<lambda>entry k. body_coverage c bounds entry = Inr k) (bodies w) ks"
    and pos: "0 < grid_rows c" "0 < grid_columns c"
    and len: "length (grid_cells g) = grid_rows c * grid_columns c"
    and cells: "\<And>row column i. row < grid_rows c \<Longrightarrow> column < grid_columns c \<Longrightarrow> i < length (bodies w) \<Longrightarrow>
      fst (bodies w ! i) \<in> set (grid_cells g ! flattened_index row (grid_columns c) column) \<longleftrightarrow> covers_cell (ks ! i) row column"
    and g: "\<And>e f. \<lparr>lower_id = e, higher_id = f\<rparr> \<in> set (candidate_pairs g) \<longleftrightarrow>
      e < f \<and> (\<exists>cell \<in> set (grid_cells g). e \<in> set cell \<and> f \<in> set cell)"
    by (simp_all add: grid_shape_def)
  obtain i j where i: "i < length (bodies w)" "bodies w ! i = (e, a)" and j: "j < length (bodies w)" "bodies w ! j = (f, b)"
    using stored_body_position [OF assms(2)] assms(3,4) by blast
  have ki: "body_coverage c bounds (e, a) = Inr (ks ! i)" and kj: "body_coverage c bounds (f, b) = Inr (ks ! j)"
    using list_all2_nthD [OF cov i(1)] list_all2_nthD [OF cov j(1)] i(2) j(2) by simp_all
  note ci = body_coverage_Inr [OF ki, unfolded assms(8) fx_def fy_def]
  note cj = body_coverage_Inr [OF kj, unfolded assms(10) fx_def fy_def]
  note valid = assms(6,7) [unfolded valid_vector_def]
  have swap: "s + r = r + s" by simp
  have rows: "first_row (ks ! i) \<le> last_row (ks ! j)" "first_row (ks ! j) \<le> last_row (ks ! i)"
      "first_row (ks ! i) \<le> last_row (ks ! i)" "first_row (ks ! j) \<le> last_row (ks ! j)"
    unfolding ci(1,2) cj(1,2)
    by (rule touching_ranges_meet; use valid assms(9,11,12,13) pos in linarith)+
  have columns: "first_column (ks ! i) \<le> last_column (ks ! j)" "first_column (ks ! j) \<le> last_column (ks ! i)"
      "first_column (ks ! i) \<le> last_column (ks ! i)" "first_column (ks ! j) \<le> last_column (ks ! j)"
    unfolding ci(3,4) cj(3,4)
    by (rule touching_ranges_meet; use valid assms(9,11,12,13) pos in linarith)+
  define row where "row = max (first_row (ks ! i)) (first_row (ks ! j))"
  define column where "column = max (first_column (ks ! i)) (first_column (ks ! j))"
  have rc: "row < grid_rows c" "column < grid_columns c"
    using pos by (auto simp: row_def column_def ci(1,3) cj(1,3) cells_within)
  have "covers_cell (ks ! i) row column" "covers_cell (ks ! j) row column"
    using rows columns by (simp_all add: covers_cell_def row_def column_def)
  then have "e \<in> set (grid_cells g ! flattened_index row (grid_columns c) column)"
    and "f \<in> set (grid_cells g ! flattened_index row (grid_columns c) column)"
    using cells [OF rc i(1)] cells [OF rc j(1)] i(2) j(2) by simp_all
  moreover have "flattened_index row (grid_columns c) column < length (grid_cells g)"
  proof -
    have "Suc row * grid_columns c \<le> grid_rows c * grid_columns c" using rc(1) by (intro mult_le_mono1) simp
    then show ?thesis using rc(2) len by (simp add: flattened_index_def)
  qed
  ultimately show ?thesis using g assms(5) nth_mem by blast
qed

text \<open>One cell for the whole arena, and two discs that overlap in it.\<close>

definition one_cell :: simulation_config where
  "one_cell = small_config\<lparr>grid_columns := 1, grid_rows := 1, grid_cell_count := 1\<rparr>"

definition crowd :: game_world where
  "crowd = (world_empty [])\<lparr>bodies :=
     [(EntityId 1, leaving_body 0), (EntityId 2, (leaving_body 0)\<lparr>body_position := \<lparr>vx = 2, vy = 1\<rparr>\<rparr>)]\<rparr>"

definition crowd_grid :: spatial_grid where
  "crowd_grid =
     \<lparr>grid_config = one_cell, grid_bounds = \<lparr>bounds_width = 4, bounds_height = 4\<rparr>, grid_cells = [[EntityId 1, EntityId 2]],
      candidate_pairs = [\<lparr>lower_id = EntityId 1, higher_id = EntityId 2\<rparr>]\<rparr>"

lemma crowd_store: "valid_store (bodies crowd)"
  by (simp add: crowd_def valid_store_def kMaximumEntityCount_def less_entity_id_def)

lemma crowd_grid_created: "spatial_grid_create one_cell \<lparr>bounds_width = 4, bounds_height = 4\<rparr> crowd = Inr crowd_grid"
  by (simp add: spatial_grid_create_def checked_cell_count_def validate_cell_extent_def positive_finite_def one_cell_def
      small_config_def crowd_def leaving_body_def body_coverage_def add_coverage_def coverage_entry_count_def
      motion_body_envelope_violation_def effective_radius_def crosses_bounds_def bounds_contains_def fx_def fy_def
      first_intersected_cell_def last_intersected_cell_def kMaximumSpatialGridCellCount_def
      kMaximumSpatialGridMembershipCount_def build_cells_def member_counts_def covered_cells_def count_member_def
      flattened_index_def validate_candidate_observation_count_def observe_count_def size_maximum_def
      kMaximumSpatialGridCandidatePairObservationCount_def kMaximumSpatialGridCandidatePairCount_def
      kMaximumEntityCount_def place_body_def add_member_def build_candidate_pairs_def accumulator_create_def
      checked_pair_storage_count_def maximum_pair_count_def kMaximumSpatialGridCandidatePairAllocationByteCount_def
      candidate_pair_bytes_def checked_bitset_byte_count_def kMaximumSpatialGridCandidatePairBitsetByteCount_def
      pairs_of_cell_def observe_cell_pair_def observe_pair_def body_index_for_id_def store_lower_bound_def
      pair_bit_index_def reserve_for_next_candidate_def candidate_pair_create_def less_entity_id_def materialize_def
      crowd_grid_def)

theorem candidate_pairs_share_a_cell_witness:
  "\<lparr>lower_id = EntityId 1, higher_id = EntityId 2\<rparr> \<in> set (candidate_pairs crowd_grid)"
  using candidate_pairs_share_a_cell [OF crowd_grid_created crowd_store]
  by (simp add: crowd_grid_def less_entity_id_def)

theorem broad_phase_misses_no_touching_pair_witness:
  "\<lparr>lower_id = EntityId 1, higher_id = EntityId 2\<rparr> \<in> set (candidate_pairs crowd_grid)"
proof (rule broad_phase_misses_no_touching_pair [OF crowd_grid_created crowd_store])
  show "store_find (bodies crowd) (EntityId 1) = Some (leaving_body 0)"
    and "store_find (bodies crowd) (EntityId 2) = Some ((leaving_body 0)\<lparr>body_position := \<lparr>vx = 2, vy = 1\<rparr>\<rparr>)"
    and "EntityId 1 < EntityId 2"
    by (simp_all add: crowd_def store_find_Cons less_entity_id_def)
  show "effective_radius (leaving_body 0) (Finite (player_radius one_cell)) = Finite 1"
    and "effective_radius ((leaving_body 0)\<lparr>body_position := \<lparr>vx = 2, vy = 1\<rparr>\<rparr>) (Finite (player_radius one_cell)) = Finite 1"
    by (simp_all add: effective_radius_def leaving_body_def)
  have "representable 2" using representable_of_int [of 2] by simp
  then show "valid_vector (body_position (leaving_body 0))"
    and "valid_vector (body_position ((leaving_body 0)\<lparr>body_position := \<lparr>vx = 2, vy = 1\<rparr>\<rparr>))"
    by (simp_all add: valid_vector_def valid_component_def leaving_body_def kMaximumPhysicalComponentMagnitude_def)
qed (simp_all add: leaving_body_def)

text \<open>
  the home cell of a point in the arena exists, and a body whose centre lies in the arena is a member
  of the home cell of its centre.
\<close>

theorem home_cell_holds_its_body:
  assumes "spatial_grid_create c bounds w = Inr g" and "valid_store (bodies w)"
    and "store_find (bodies w) e = Some a" "valid_vector (body_position a)" "bounds_contains bounds (body_position a)"
    and "effective_radius a (Finite (player_radius c)) = Finite r" "0 \<le> r"
  shows "\<exists>home members. home_cell g (body_position a) = Inr home \<and> cell_members g home = Inr members \<and> e \<in> set members"
proof -
  obtain ks where "grid_shape c bounds w g ks" using grid_structure [OF assms(1,2)] by blast
  then have cov: "list_all2 (\<lambda>entry k. body_coverage c bounds entry = Inr k) (bodies w) ks"
    and g: "grid_config g = c" "grid_bounds g = bounds" and pos: "0 < grid_rows c" "0 < grid_columns c"
    and cells: "\<And>row column i. row < grid_rows c \<Longrightarrow> column < grid_columns c \<Longrightarrow> i < length (bodies w) \<Longrightarrow>
      fst (bodies w ! i) \<in> set (grid_cells g ! flattened_index row (grid_columns c) column) \<longleftrightarrow> covers_cell (ks ! i) row column"
    by (simp_all add: grid_shape_def)
  obtain i where i: "i < length (bodies w)" "bodies w ! i = (e, a)"
    using stored_body_position [OF assms(2,3)] by blast
  have "body_coverage c bounds (e, a) = Inr (ks ! i)" using list_all2_nthD [OF cov i(1)] i(2) by simp
  note k = body_coverage_Inr [OF this, unfolded assms(6) fx_def fy_def]
  define row where "row = last_intersected_cell (fy (body_position a)) (bounds_height bounds) (grid_rows c)"
  define column where "column = last_intersected_cell (fx (body_position a)) (bounds_width bounds) (grid_columns c)"
  have rc: "row < grid_rows c" "column < grid_columns c" using pos by (simp_all add: row_def column_def cells_within)
  have "covers_cell (ks ! i) row column"
    using assms(4,5,7) pos
    by (simp add: covers_cell_def k row_def column_def fx_def fy_def valid_vector_def bounds_contains_def center_between_edges)
  then have "e \<in> set (grid_cells g ! flattened_index row (grid_columns c) column)" using cells [OF rc i(1)] i(2) by simp
  then show ?thesis using rc assms(5)
    by (simp add: home_cell_def cell_members_def g row_def column_def flattened_index_def)
qed

theorem home_cell_holds_its_body_witness:
  "\<exists>members. cell_members crowd_grid (0, 0) = Inr members \<and> EntityId 1 \<in> set members"
proof -
  have "\<exists>home members. home_cell crowd_grid (body_position (leaving_body 0)) = Inr home \<and>
      cell_members crowd_grid home = Inr members \<and> EntityId 1 \<in> set members"
    by (rule home_cell_holds_its_body [OF crowd_grid_created crowd_store, where r = 1])
      (simp_all add: crowd_def store_find_Cons leaving_body_def valid_vector_def valid_component_def
        kMaximumPhysicalComponentMagnitude_def bounds_contains_def effective_radius_def)
  then show ?thesis
    by (simp add: home_cell_def crowd_grid_def leaving_body_def bounds_contains_def last_intersected_cell_def one_cell_def)
qed

end
