(* ===== verification/Spawn_System.thy ===== *)
theory Spawn_System
  imports Broad_Phase
begin

text \<open>
  Seating (src/src/simulation/spawn_system.cpp, spawn_seating.cpp): entities that carry a controllable and
  no body are offered, in order, to the spawn policy of the mode, and seated at rest on a free spawn
  point. The policies are those of the modes (src/src/gameplay: spawn_point_probe.hpp,
  next_free_spawn_point_policy.hpp, grid_spawn_policy.hpp, rotating_ring_spawn_policy.hpp) and the idle
  one. What a tick reads of its surroundings is the tick context (tick_context.hpp).
\<close>

section \<open>The context of a tick\<close>

record tick_context =
  context_tick :: tick
  context_config :: simulation_config
  context_map :: map_definition
  context_grid :: spatial_grid

definition context_radius :: "tick_context \<Rightarrow> double" where
  "context_radius context = Finite (player_radius (context_config context))"

section \<open>Seats\<close>

definition disc_is_clear :: "vector2 \<Rightarrow> double \<Rightarrow> physics_body \<Rightarrow> bool" where
  "disc_is_clear point radius b \<longleftrightarrow>
     \<not> less_than_or_approximately_equal
         (hypotenuse (fsub (fx (body_position b)) (fx point)) (fsub (fy (body_position b)) (fy point)))
         (fadd radius (effective_radius b radius)) kPositionTolerance"

definition seat_is_supported_and_unoccupied :: "vector2 \<Rightarrow> physics_body store \<Rightarrow> double \<Rightarrow> terrain_definition \<Rightarrow> bool result" where
  "seat_is_supported_and_unoccupied point entries radius terrain =
     try_then (terrain_supports_disc terrain point radius) (\<lambda>supported.
       Inr (supported \<and> list_all (\<lambda>entry. disc_is_clear point radius (snd entry)) entries))"

definition forget_held_intent :: "controllable \<Rightarrow> controllable" where
  "forget_held_intent c = c\<lparr>normalized_thrust_intent := None, braking_intent := False\<rparr>"

definition seat_body_at_rest :: "entity_id \<Rightarrow> vector2 \<Rightarrow> double \<Rightarrow> game_world \<Rightarrow> game_world result" where
  "seat_body_at_rest e position radius w =
     try_then (body_create_complete position zero_vector zero_vector radius kDefaultMass kDefaultCollisionLayer
                 kDefaultCollisionMask False) (\<lambda>b.
     try_then (with_ground_attachment kGroundBound b) (\<lambda>b.
     try_then (insert_or_assign e b (bodies w)) (\<lambda>bs.
       Inr (w\<lparr>bodies := bs, controllables := store_modify e forget_held_intent (controllables w)\<rparr>))))"

section \<open>Policies\<close>

text \<open>A policy chooses an index among the free points for an entity, or defers it.\<close>

type_synonym spawn_policy = "game_world \<Rightarrow> tick_context \<Rightarrow> entity_id \<Rightarrow> nat \<Rightarrow> bool list \<Rightarrow> nat option"

definition next_free_spawn_point :: "nat \<Rightarrow> bool list \<Rightarrow> nat option" where
  "next_free_spawn_point rotation free =
     find (\<lambda>i. free ! i) (map (\<lambda>probe. unat (word_of_nat (rotation + probe) :: 64 word) mod length free)
       [0..<length free])"

definition idle_spawn_policy :: spawn_policy where
  "idle_spawn_policy w context e rotation free = None"

definition next_free_spawn_point_policy :: spawn_policy where
  "next_free_spawn_point_policy w context e rotation free =
     (if store_find (respawn_timers w) e \<noteq> None then None
      else if phase (world_match w) = kLobby \<and> previous_phase (world_match w) = kEnded then None
      else next_free_spawn_point rotation free)"

definition grid_spawn_policy :: spawn_policy where
  "grid_spawn_policy w context e rotation free =
     (if phase (world_match w) = kEnded then None
      else if phase (world_match w) = kRunning \<and>
              (case store_find (race_progresses w) e of None \<Rightarrow> True | Some progress \<Rightarrow> progress \<noteq> 0) then None
      else next_free_spawn_point_policy w context e rotation free)"

definition rotating_ring_spawn_policy :: spawn_policy where
  "rotating_ring_spawn_policy w context e rotation free =
     (let p = phase (world_match w) in
      if p = kRunning \<or> p = kEnded then None
      else if p = kLobby \<and> previous_phase (world_match w) = kEnded then None
      else next_free_spawn_point rotation free)"

section \<open>Seating\<close>

definition entities_awaiting_a_body :: "game_world \<Rightarrow> entity_id list" where
  "entities_awaiting_a_body w = filter (\<lambda>e. store_find (bodies w) e = None) (store_ids (controllables w))"

definition refresh_free_points :: "tick_context \<Rightarrow> game_world \<Rightarrow> bool list result" where
  "refresh_free_points context w =
     try_map (\<lambda>m. seat_is_supported_and_unoccupied (marker_position m) (bodies w) (context_radius context)
                    (map_terrain (context_map context)))
       (spawn_points (context_map context))"

definition spawn_error_path :: "entity_id \<Rightarrow> string" where
  "spawn_error_path e = ''spawn_system.spawn_points[entity_id='' @ decimal (unat (entity_value e)) @ '']''"

definition offer_seat ::
  "spawn_policy \<Rightarrow> tick_context \<Rightarrow> entity_id \<Rightarrow> game_world \<times> bool list \<times> nat \<Rightarrow> (game_world \<times> bool list \<times> nat) result" where
  "offer_seat policy context e st =
     (case st of (w, free, seated_count) \<Rightarrow>
        (case policy w context e (unat (spawn_rotation_counter (world_match w))) free of
           None \<Rightarrow> Inr st
         | Some chosen \<Rightarrow>
             let points = spawn_points (context_map context) in
             if chosen \<ge> length points then Inl (SimError kSpawnPolicyIndexOutOfRange (spawn_error_path e))
             else if \<not> free ! chosen then Inl (SimError kSpawnPolicyPointOccupied (spawn_error_path e))
             else
               try_then (seat_body_at_rest e (marker_position (points ! chosen)) (context_radius context) w) (\<lambda>w.
               try_then (refresh_free_points context w) (\<lambda>free.
                 Inr (w\<lparr>world_match := (world_match w)
                           \<lparr>spawn_rotation_counter := of_nat ((chosen + 1) mod length points)\<rparr>\<rparr>,
                      free, seated_count + 1)))))"

definition seat_pending_entities :: "spawn_policy \<Rightarrow> tick_context \<Rightarrow> game_world \<Rightarrow> (game_world \<times> nat) result" where
  "seat_pending_entities policy context w =
     (let pending = entities_awaiting_a_body w in
      if pending = [] then Inr (w, 0)
      else
        try_then (refresh_free_points context w) (\<lambda>free.
        try_then (try_fold (offer_seat policy context) pending (w, free, 0)) (\<lambda>(w, _, seated_count).
          Inr (w, seated_count))))"

section \<open>The contract of a policy\<close>

text \<open>What the seating system demands of every policy of a mode: an index it chooses is a free point.\<close>

locale spawn_choice =
  fixes policy :: "game_world \<Rightarrow> tick_context \<Rightarrow> entity_id \<Rightarrow> nat \<Rightarrow> bool list \<Rightarrow> nat option"
  assumes chosen_free: "policy w context e rotation free = Some k \<Longrightarrow> k < length free \<and> free ! k"
begin

lemma offer_keeps_the_contract:
  assumes "length free = length (spawn_points (context_map context))"
    and "offer_seat policy context e (w, free, n) = Inl err"
  shows "\<exists>k < length free. free ! k \<and>
     (seat_body_at_rest e (marker_position (spawn_points (context_map context) ! k)) (context_radius context) w = Inl err \<or>
      (\<exists>w'. seat_body_at_rest e (marker_position (spawn_points (context_map context) ! k)) (context_radius context) w = Inr w' \<and>
        refresh_free_points context w' = Inl err))"
proof (cases "policy w context e (unat (spawn_rotation_counter (world_match w))) free")
  case None
  with assms(2) show ?thesis by (simp add: offer_seat_def)
next
  case (Some k)
  note free = chosen_free [OF Some]
  let ?seat = "seat_body_at_rest e (marker_position (spawn_points (context_map context) ! k)) (context_radius context) w"
  show ?thesis
  proof (cases ?seat)
    case (Inl x)
    with assms Some free show ?thesis by (auto simp: offer_seat_def Let_def)
  next
    case (Inr w')
    with assms Some free show ?thesis by (cases "refresh_free_points context w'") (auto simp: offer_seat_def Let_def)
  qed
qed

end

lemma next_free_spawn_point_free:
  assumes "next_free_spawn_point rotation free = Some k" shows "k < length free \<and> free ! k"
proof -
  have "k \<in> set (map (\<lambda>probe. unat (word_of_nat (rotation + probe) :: 64 word) mod length free)
      [0..<length free]) \<and> free ! k"
    using assms by (auto simp: next_free_spawn_point_def find_Some_iff)
  then show ?thesis by (cases "free = []") auto
qed

lemmas policy_rules = idle_spawn_policy_def next_free_spawn_point_policy_def grid_spawn_policy_def
  rotating_ring_spawn_policy_def Let_def

interpretation idle: spawn_choice idle_spawn_policy
  by unfold_locales (simp add: policy_rules)

interpretation next_free: spawn_choice next_free_spawn_point_policy
  by unfold_locales (auto simp: policy_rules dest: next_free_spawn_point_free split: if_split_asm)

interpretation grid: spawn_choice grid_spawn_policy
  by unfold_locales (auto simp: policy_rules dest: next_free_spawn_point_free split: if_split_asm)

interpretation ring: spawn_choice rotating_ring_spawn_policy
  by unfold_locales (auto simp: policy_rules dest: next_free_spawn_point_free split: if_split_asm)

section \<open>What seating guarantees\<close>

lemma fmul_fneg_fneg: "fmul (fneg d) (fneg d) = fmul d d"
  by (cases d) auto

lemma fsub_swap: "fsub (Finite x) (Finite y) = fneg (fsub (Finite y) (Finite x))"
  by (simp flip: to_double_minus)

lemma clear_swap:
  assumes "effective_radius a r = r" "effective_radius b r = r"
  shows "disc_is_clear (body_position a) r b = disc_is_clear (body_position b) r a"
  unfolding disc_is_clear_def assms hypotenuse_def fx_def fy_def
  by (subst (1 2 4 5) fsub_swap) (simp only: fmul_fneg_fneg)

text \<open>A body as seating writes it: at rest on a spawn point, grounded and dynamic.\<close>

definition seated_at_rest :: "tick_context \<Rightarrow> physics_body \<Rightarrow> bool" where
  "seated_at_rest context b \<longleftrightarrow>
     body_position b \<in> marker_position ` set (spawn_points (context_map context)) \<and>
     body_velocity b = zero_vector \<and> body_acceleration b = zero_vector \<and>
     body_radius b = context_radius context \<and> \<not> is_static b \<and> body_ground_attachment b = kGroundBound \<and>
     terrain_supports_disc (map_terrain (context_map context)) (body_position b) (context_radius context) = Inr True"

definition seating_invariant :: "tick_context \<Rightarrow> game_world \<Rightarrow> game_world \<times> bool list \<times> nat \<Rightarrow> bool" where
  "seating_invariant context w0 st \<longleftrightarrow>
     (case st of (w, free, n) \<Rightarrow>
        valid_store (bodies w) \<and> refresh_free_points context w = Inr free \<and>
        (\<forall>e b. store_find (bodies w0) e = Some b \<longrightarrow> store_find (bodies w) e = Some b) \<and>
        (\<forall>e b. store_find (bodies w0) e = None \<longrightarrow> store_find (bodies w) e = Some b \<longrightarrow>
           seated_at_rest context b \<and>
           (\<forall>f a. f \<noteq> e \<longrightarrow> store_find (bodies w) f = Some a \<longrightarrow>
              disc_is_clear (body_position b) (context_radius context) a)))"

lemma seat_body_Inr:
  assumes "seat_body_at_rest e position radius w = Inr w'" and valid: "valid_store (bodies w)"
  shows "\<exists>b. valid_store (bodies w') \<and>
    (\<forall>f. store_find (bodies w') f = (if f = e then Some b else store_find (bodies w) f)) \<and>
    body_position b = position \<and> body_velocity b = zero_vector \<and> body_acceleration b = zero_vector \<and>
    body_radius b = radius \<and> \<not> is_static b \<and> body_ground_attachment b = kGroundBound"
proof -
  obtain b0 b bs where b0: "body_create_complete position zero_vector zero_vector radius kDefaultMass
        kDefaultCollisionLayer kDefaultCollisionMask False = Inr b0"
    and b: "with_ground_attachment kGroundBound b0 = Inr b" and bs: "insert_or_assign e b (bodies w) = Inr bs"
    and w': "bodies w' = bs"
    using assms(1) by (auto simp: seat_body_at_rest_def try_then_Inr_iff)
  have "store_find bs f = (if f = e then Some b else store_find (bodies w) f)" for f
    using stored.find_insert [OF valid bs] by simp
  moreover have "valid_store bs" by (rule stored.invar_insert [OF valid bs])
  ultimately show ?thesis
    using validated_Inr [OF b0 [unfolded body_create_complete_def]]
      validated_Inr [OF b [unfolded with_ground_attachment_def revalidated_def]]
    unfolding w' by (intro exI [of _ b]) simp
qed

lemma effective_own_radius: "body_radius b = r \<Longrightarrow> effective_radius b r = r"
  by (simp add: effective_radius_def)

lemma offer_seat_invariant:
  assumes inv: "seating_invariant context w0 st" and new: "store_find (bodies (fst st)) e = None"
    and step: "offer_seat policy context e st = Inr st'"
  shows "seating_invariant context w0 st' \<and>
    (\<forall>f. f \<noteq> e \<longrightarrow> store_find (bodies (fst st')) f = store_find (bodies (fst st)) f)"
proof -
  obtain w free n where st: "st = (w, free, n)" by (cases st)
  show ?thesis
  proof (cases "policy w context e (unat (spawn_rotation_counter (world_match w))) free")
    case None
    with inv step show ?thesis by (simp add: offer_seat_def st)
  next
    case (Some k)
    let ?points = "spawn_points (context_map context)"
    let ?r = "context_radius context"
    obtain w1 free1 where k: "k < length ?points" "free ! k"
      and w1: "seat_body_at_rest e (marker_position (?points ! k)) ?r w = Inr w1"
      and free1: "refresh_free_points context w1 = Inr free1"
      and st': "st' = (w1\<lparr>world_match := (world_match w1)
          \<lparr>spawn_rotation_counter := of_nat ((k + 1) mod length ?points)\<rparr>\<rparr>, free1, n + 1)"
      using step by (auto simp: offer_seat_def st Some Let_def try_then_Inr_iff split: if_split_asm)
    have valid: "valid_store (bodies w)" and free: "refresh_free_points context w = Inr free"
      and old: "\<And>e b. store_find (bodies w0) e = Some b \<Longrightarrow> store_find (bodies w) e = Some b"
      and placed: "\<And>e b f a. store_find (bodies w0) e = None \<Longrightarrow> store_find (bodies w) e = Some b \<Longrightarrow> seated_at_rest context b"
      and clear: "\<And>e b f a. store_find (bodies w0) e = None \<Longrightarrow> store_find (bodies w) e = Some b \<Longrightarrow>
          f \<noteq> e \<Longrightarrow> store_find (bodies w) f = Some a \<Longrightarrow> disc_is_clear (body_position b) ?r a"
      using inv by (auto simp: seating_invariant_def st)
    obtain b where b: "valid_store (bodies w1)"
      and find1: "\<And>f. store_find (bodies w1) f = (if f = e then Some b else store_find (bodies w) f)"
      and rest: "body_position b = marker_position (?points ! k)" "body_velocity b = zero_vector"
        "body_acceleration b = zero_vector" "body_radius b = ?r" "\<not> is_static b" "body_ground_attachment b = kGroundBound"
      using seat_body_Inr [OF w1 valid] by blast
    have "seat_is_supported_and_unoccupied (marker_position (?points ! k)) (bodies w) ?r (map_terrain (context_map context)) = Inr True"
      using try_map_Inr [OF free [unfolded refresh_free_points_def]] k by auto
    then have support: "terrain_supports_disc (map_terrain (context_map context)) (body_position b) ?r = Inr True"
      and apart: "\<forall>entry \<in> set (bodies w). disc_is_clear (body_position b) ?r (snd entry)"
      by (auto simp: seat_is_supported_and_unoccupied_def try_then_Inr_iff rest(1) list_all_iff)
    have away: "disc_is_clear (body_position b) ?r a" if "store_find (bodies w) f = Some a" for f a
    proof -
      have "map_of (bodies w) f = Some a" using that valid store_find_map_of [of "bodies w"] by (simp add: valid_store_def)
      then have "(f, a) \<in> set (bodies w)" by (rule map_of_SomeD)
      with apart show ?thesis by fastforce
    qed
    have b_rest: "seated_at_rest context b"
      using rest support k(1) by (auto simp: seated_at_rest_def)
    have "disc_is_clear (body_position c) ?r a"
      if c: "store_find (bodies w0) g = None" "store_find (bodies w1) g = Some c" and a: "f \<noteq> g" "store_find (bodies w1) f = Some a"
      for g c f a
    proof (cases "g = e")
      case True
      then have "c = b" and "store_find (bodies w) f = Some a" using c a find1 by simp_all
      then show ?thesis using away by simp
    next
      case False
      then have c': "store_find (bodies w) g = Some c" using c(2) find1 by simp
      show ?thesis
      proof (cases "f = e")
        case True
        have "disc_is_clear (body_position b) ?r c" by (rule away [OF c'])
        moreover have "effective_radius b ?r = ?r" "effective_radius c ?r = ?r"
          using b_rest placed [OF c(1) c'] by (simp_all add: seated_at_rest_def effective_own_radius)
        moreover have "a = b" using True a(2) find1 by simp
        ultimately show ?thesis using clear_swap [of b ?r c] by simp
      next
        case False
        then show ?thesis using clear [OF c(1) c'] a find1 by simp
      qed
    qed
    moreover have "refresh_free_points context (w1\<lparr>world_match := m\<rparr>) = refresh_free_points context w1" for m
      by (simp add: refresh_free_points_def)
    ultimately show ?thesis
      using b free1 old placed b_rest find1 new
      unfolding seating_invariant_def st' st by (auto split: if_split_asm)
  qed
qed

lemma offer_seats_invariant:
  "try_fold (offer_seat policy context) es st = Inr st' \<Longrightarrow> seating_invariant context w0 st \<Longrightarrow> distinct es \<Longrightarrow>
   \<forall>e \<in> set es. store_find (bodies (fst st)) e = None \<Longrightarrow>
   seating_invariant context w0 st' \<and> (\<forall>f. f \<notin> set es \<longrightarrow> store_find (bodies (fst st')) f = store_find (bodies (fst st)) f)"
proof (induction es arbitrary: st)
  case (Cons e es)
  obtain st1 where st1: "offer_seat policy context e st = Inr st1" and rest: "try_fold (offer_seat policy context) es st1 = Inr st'"
    using Cons.prems(1) by (auto simp: try_then_Inr_iff)
  have "store_find (bodies (fst st)) e = None" using Cons.prems(4) by simp
  note one = offer_seat_invariant [OF Cons.prems(2) this st1]
  have "\<forall>f \<in> set es. store_find (bodies (fst st1)) f = None"
  proof
    fix f assume f: "f \<in> set es"
    then have "f \<noteq> e" using Cons.prems(3) by auto
    with one f Cons.prems(4) show "store_find (bodies (fst st1)) f = None" by simp
  qed
  with Cons.IH [OF rest] one Cons.prems(3) show ?case by auto
qed simp

lemma seating_facts:
  assumes "seat_pending_entities policy context w = Inr (w', n)"
    and "valid_store (bodies w)" and "valid_store (controllables w)"
  shows "store_find (bodies w) e = Some b \<Longrightarrow> store_find (bodies w') e = Some b"
    and "store_find (bodies w) e = None \<Longrightarrow> store_find (bodies w') e = Some b \<Longrightarrow>
      carries (controllables w) e \<and>
      body_position b \<in> marker_position ` set (spawn_points (context_map context)) \<and>
      body_velocity b = zero_vector \<and> body_radius b = context_radius context \<and>
      terrain_supports_disc (map_terrain (context_map context)) (body_position b) (context_radius context) = Inr True \<and>
      (\<forall>f a. f \<noteq> e \<longrightarrow> store_find (bodies w') f = Some a \<longrightarrow>
         disc_is_clear (body_position b) (context_radius context) a)"
proof -
  have asc: "ascending (store_ids (controllables w))" using assms(3) by (simp add: valid_store_def)
  have all: "seating_invariant context w (w', free, n) \<and>
      (\<forall>f. f \<notin> set (entities_awaiting_a_body w) \<longrightarrow> store_find (bodies w') f = store_find (bodies w) f)"
    if free: "refresh_free_points context w = Inr free0"
      and run: "try_fold (offer_seat policy context) (entities_awaiting_a_body w) (w, free0, 0) = Inr (w', free, n)" for free0 free
  proof -
    have inv: "seating_invariant context w (w, free0, 0)"
      using free assms(2) by (simp add: seating_invariant_def)
    have "distinct (entities_awaiting_a_body w)"
      using ascending_distinct [OF asc] by (simp add: entities_awaiting_a_body_def)
    then show ?thesis
      using offer_seats_invariant [OF run inv] by (auto simp: entities_awaiting_a_body_def)
  qed
  consider (none) "w' = w" | (some) free0 free where "refresh_free_points context w = Inr free0"
      "try_fold (offer_seat policy context) (entities_awaiting_a_body w) (w, free0, 0) = Inr (w', free, n)"
    using assms(1) by (auto simp: seat_pending_entities_def Let_def try_then_Inr_iff split: if_split_asm)
  then have inv: "w' = w \<or> (\<exists>free. seating_invariant context w (w', free, n)) \<and>
      (\<forall>f. f \<notin> set (entities_awaiting_a_body w) \<longrightarrow> store_find (bodies w') f = store_find (bodies w) f)"
    using all by cases blast+
  show "store_find (bodies w') e = Some b" if "store_find (bodies w) e = Some b"
    using inv that by (auto simp: seating_invariant_def)
  show "carries (controllables w) e \<and>
      body_position b \<in> marker_position ` set (spawn_points (context_map context)) \<and>
      body_velocity b = zero_vector \<and> body_radius b = context_radius context \<and>
      terrain_supports_disc (map_terrain (context_map context)) (body_position b) (context_radius context) = Inr True \<and>
      (\<forall>f a. f \<noteq> e \<longrightarrow> store_find (bodies w') f = Some a \<longrightarrow>
         disc_is_clear (body_position b) (context_radius context) a)"
    if e: "store_find (bodies w) e = None" "store_find (bodies w') e = Some b"
  proof -
    obtain free where i: "seating_invariant context w (w', free, n)" using inv e by auto
    have "e \<in> set (entities_awaiting_a_body w)" using inv e by force
    then have "carries (controllables w) e"
      unfolding carries_ids [OF assms(3)] by (simp add: entities_awaiting_a_body_def)
    with i e show ?thesis by (auto simp: seating_invariant_def seated_at_rest_def)
  qed
qed

text \<open>
  C40: seating never overlaps. Whatever the policy of the mode, when a tick seats the entities that await a
  body, every body already there stays as it was; a new body belongs to an entity with a controllable,
  lies at rest on a spawn point that supports its whole disc, and is clear of every other body of the
  world, the ones seated before and after it in the same tick included.
\<close>

theorem seating_never_overlaps:
  assumes "seat_pending_entities policy context w = Inr (w', n)"
    and "valid_store (bodies w)" and "valid_store (controllables w)"
  shows "(\<forall>e b. store_find (bodies w) e = Some b \<longrightarrow> store_find (bodies w') e = Some b) \<and>
    (\<forall>e b. store_find (bodies w) e = None \<longrightarrow> store_find (bodies w') e = Some b \<longrightarrow>
      carries (controllables w) e \<and>
      body_position b \<in> marker_position ` set (spawn_points (context_map context)) \<and>
      body_velocity b = zero_vector \<and> body_radius b = context_radius context \<and>
      terrain_supports_disc (map_terrain (context_map context)) (body_position b) (context_radius context) = Inr True \<and>
      (\<forall>f a. f \<noteq> e \<longrightarrow> store_find (bodies w') f = Some a \<longrightarrow>
         disc_is_clear (body_position b) (context_radius context) a))"
  using seating_facts [OF assms] by blast

text \<open>One entity awaits a body in the square arena, whose one spawn point is one unit from its isolated
  boundary point.\<close>

definition waiting_world :: game_world where
  "waiting_world = (world_empty [])\<lparr>controllables := [(EntityId 5, controllable_of (ControllerId 5))]\<rparr>"

definition waiting_context :: tick_context where
  "waiting_context =
     \<lparr>context_tick = Tick 1, context_config = small_config,
      context_map = pillar_map\<lparr>spawn_points :=
        [\<lparr>marker_kind = ''spawn'', marker_position = \<lparr>vx = 2, vy = 3\<rparr>, marker_team = None, marker_metadata = []\<rparr>]\<rparr>,
      context_grid = crowd_grid\<rparr>"

lemma spawn_disc_supported: "terrain_supports_disc square_arena \<lparr>vx = 2, vy = 3\<rparr> (Finite 1) = Inr True"
  by (simp add: terrain_supports_disc_def disc_clearance_def terrain_supports_point_def square_arena_def
      bounds_contains_def nearest_boundary_def consider_isolated_def consider_point_def supported_witness_def
      point_distance_def hypotenuse_def fx_def fy_def fsqrt_one kMaximumPhysicalComponentMagnitude_def
      del: fsqrt.simps)

lemma seat_is_free:
  "seat_is_supported_and_unoccupied \<lparr>vx = 2, vy = 3\<rparr> [] (Finite 1) square_arena = Inr True"
  by (simp add: seat_is_supported_and_unoccupied_def spawn_disc_supported)

lemma waiting_seated:
  "\<exists>w' b. seat_pending_entities next_free_spawn_point_policy waiting_context waiting_world = Inr (w', 1) \<and>
     store_find (bodies w') (EntityId 5) = Some b"
proof -
  let ?p = "\<lparr>vx = 2, vy = 3\<rparr>"
  obtain w1 b where w1: "seat_body_at_rest (EntityId 5) ?p (Finite 1) waiting_world = Inr w1"
    "bodies w1 = [(EntityId 5, b)]"
    by (simp add: seat_body_at_rest_def body_create_complete_def validated_def body_rules
        kDefaultMass_def kDefaultRestitution_def kDefaultDragScale_def kMaximumPhysicalComponentMagnitude_def
        with_ground_attachment_def revalidated_def insert_or_assign_def store_lower_bound_def waiting_world_def
        world_empty_def kMaximumEntityCount_def)
  obtain ok where "seat_is_supported_and_unoccupied ?p (bodies w1) (Finite 1) square_arena = Inr ok"
    by (simp add: seat_is_supported_and_unoccupied_def spawn_disc_supported)
  then have after: "refresh_free_points waiting_context w1 = Inr [ok]"
    by (simp add: refresh_free_points_def waiting_context_def pillar_map_def context_radius_def small_config_def)
  have before: "refresh_free_points waiting_context waiting_world = Inr [True]"
    using seat_is_free
    by (simp add: refresh_free_points_def waiting_context_def pillar_map_def context_radius_def small_config_def
        waiting_world_def world_empty_def)
  have chosen: "next_free_spawn_point_policy waiting_world waiting_context (EntityId 5)
      (unat (spawn_rotation_counter (world_match waiting_world))) [True] = Some 0"
    by (simp add: next_free_spawn_point_policy_def next_free_spawn_point_def waiting_world_def world_empty_def
        match_state_initial_def)
  have pending: "entities_awaiting_a_body waiting_world = [EntityId 5]"
    by (simp add: entities_awaiting_a_body_def waiting_world_def world_empty_def)
  have points: "map marker_position (spawn_points (context_map waiting_context)) = [?p]"
    and radius: "context_radius waiting_context = Finite 1"
    by (simp_all add: waiting_context_def context_radius_def small_config_def)
  then have "offer_seat next_free_spawn_point_policy waiting_context (EntityId 5) (waiting_world, [True], 0) =
      Inr (w1\<lparr>world_match := (world_match w1)\<lparr>spawn_rotation_counter := 0\<rparr>\<rparr>, [ok], 1)"
    using chosen w1 after by (auto simp: offer_seat_def Let_def)
  then show ?thesis
    using before w1 by (simp add: seat_pending_entities_def pending store_find_Cons)
qed

theorem seating_never_overlaps_witness:
  "\<exists>w' b. seat_pending_entities next_free_spawn_point_policy waiting_context waiting_world = Inr (w', 1) \<and>
     store_find (bodies w') (EntityId 5) = Some b \<and> body_position b = \<lparr>vx = 2, vy = 3\<rparr> \<and> body_radius b = Finite 1"
proof -
  obtain w' b where w': "seat_pending_entities next_free_spawn_point_policy waiting_context waiting_world = Inr (w', 1)"
    and b: "store_find (bodies w') (EntityId 5) = Some b"
    using waiting_seated by blast
  have none: "store_find (bodies waiting_world) (EntityId 5) = None" and "valid_store (bodies waiting_world)"
    and "valid_store (controllables waiting_world)"
    by (simp_all add: waiting_world_def world_empty_def valid_store_def kMaximumEntityCount_def)
  then have "body_position b \<in> marker_position ` set (spawn_points (context_map waiting_context)) \<and>
      body_radius b = context_radius waiting_context"
    using seating_never_overlaps [OF w'] b by blast
  then show ?thesis using w' b by (simp add: waiting_context_def context_radius_def small_config_def)
qed

end
