(* ===== verification/Motion_Triggers.thy ===== *)
theory Motion_Triggers
  imports Spawn_System Continuous_Motion Contact_Rules
begin

text \<open>
  The triggers of a continuous tick: the two geometric queries (src/src/simulation/motion_triggers.cpp),
  the policies of the modes that use them (src/src/gameplay/shared/support_loss_trigger.cpp,
  src/src/gameplay/race/ordered_checkpoint_trigger.cpp) and the table that binds declared policies to the
  bodies of a tick (src/src/simulation/motion_trigger_table.cpp, motion_trigger_policy.hpp).
\<close>

section \<open>Loss of support\<close>

definition validate_trigger_window :: "trigger_window \<Rightarrow> unit result" where
  "validate_trigger_window window =
     (if window_eligible_from window < motion_begin (window_motion window)
      then fail_motion kContinuousMotionInvalidInput else Inr ())"

definition support_root_count :: "terrain_definition \<Rightarrow> nat" where
  "support_root_count terrain =
     4 + length (holes_of terrain) + sum_list (map (\<lambda>c. length (corridor_points c) - 1) (corridors_of terrain))"

primrec support_loss_after :: "motion_time \<Rightarrow> motion_time \<Rightarrow> support_interval list \<Rightarrow> trigger_proposal option result" where
  "support_loss_after begin_time eligible [] =
     Inr (Some \<lparr>proposal_time = eligible, proposal_priority = kSupportLoss\<rparr>)"
| "support_loss_after begin_time eligible (i # is) =
     try_then (map_motion_time (interval_begin i) begin_time motion_end) (\<lambda>gained.
     try_then (map_motion_time (interval_end i) begin_time motion_end) (\<lambda>lost.
       if gained \<le> eligible \<and> eligible \<le> lost
       then Inr (if lost < motion_end then Some \<lparr>proposal_time = lost, proposal_priority = kSupportLoss\<rparr> else None)
       else support_loss_after begin_time eligible is))"

definition support_loss_motion_trigger ::
  "terrain_definition \<Rightarrow> trigger_window \<Rightarrow> query_budget \<Rightarrow> (query_budget \<times> trigger_proposal option) result" where
  "support_loss_motion_trigger terrain window budget =
     try_then (validate_trigger_window window) (\<lambda>_.
     try_then (charge_roots (support_root_count terrain) budget) (\<lambda>budget.
     try_then (swept_support_intervals terrain (body_position (subject_body (motion_subject (window_motion window))))
                 (motion_displacement (window_motion window))) (\<lambda>intervals.
     try_then (support_loss_after (motion_begin (window_motion window)) (window_eligible_from window) intervals)
       (\<lambda>proposal. Inr (budget, proposal)))))"

section \<open>Ordered gates\<close>

record circle_gate =
  gate_center :: vector2
  gate_radius :: double

definition gate_radius_is_valid :: "double \<Rightarrow> bool" where
  "gate_radius_is_valid r \<longleftrightarrow>
     is_finite r \<and> \<not> fle r (Finite 0) \<and> \<not> fless (Finite kMaximumPhysicalComponentMagnitude) r"

text \<open>The part of an epoch spent inside a gate, in the epoch's own unit of time.\<close>

definition gate_occupancy :: "bool \<Rightarrow> bool \<Rightarrow> motion_time list \<Rightarrow> (motion_time \<times> motion_time) option result" where
  "gate_occupancy start_inside finish_inside roots =
     (if (\<not> start_inside \<or> \<not> finish_inside) \<and> roots = [] then
        (if start_inside \<noteq> finish_inside then fail_motion kContinuousMotionPrecisionLost else Inr None)
      else Inr (Some (if start_inside then motion_start else hd roots,
                      if finish_inside then motion_end else last roots)))"

definition gate_proposal ::
  "trigger_window \<Rightarrow> (motion_time \<times> motion_time) option \<Rightarrow> trigger_proposal option result" where
  "gate_proposal window occupancy =
     (case occupancy of None \<Rightarrow> Inr None
      | Some (entered, left) \<Rightarrow>
          try_then (map_motion_time entered (motion_begin (window_motion window)) motion_end) (\<lambda>mapped_begin.
          try_then (map_motion_time left (motion_begin (window_motion window)) motion_end) (\<lambda>mapped_end.
            let eligible = max mapped_begin (window_eligible_from window) in
            Inr (if eligible \<le> mapped_end
                 then Some \<lparr>proposal_time = eligible, proposal_priority = kCheckpoint\<rparr> else None))))"

definition ordered_gate_motion_trigger ::
  "circle_gate list \<Rightarrow> u64 \<Rightarrow> trigger_window \<Rightarrow> query_budget \<Rightarrow> (query_budget \<times> trigger_proposal option) result" where
  "ordered_gate_motion_trigger gates cursor window budget =
     try_then (validate_trigger_window window) (\<lambda>_.
     try_then (require_motion_budget (length gates) (unat kMaximumMotionTriggerCursorValue)) (\<lambda>_.
       if unat cursor \<ge> length gates then Inr (budget, None)
       else
         let gate = gates ! unat cursor in
         if \<not> gate_radius_is_valid (gate_radius gate) then fail_motion kContinuousMotionInvalidInput
         else
           let start = body_position (subject_body (motion_subject (window_motion window)));
               displacement = motion_displacement (window_motion window) in
           try_then (vector_add start displacement) (\<lambda>finish.
             let radius = fadd (gate_radius gate) kPositionTolerance;
                 start_inside = fle (point_distance start (gate_center gate)) radius;
                 finish_inside = fle (point_distance finish (gate_center gate)) radius in
             try_then (charge_roots 1 budget) (\<lambda>budget.
             try_then (swept_circle_boundary_roots start displacement (gate_center gate) radius) (\<lambda>roots.
             try_then (gate_occupancy start_inside finish_inside (root_times roots)) (\<lambda>occupancy.
             try_then (gate_proposal window occupancy) (\<lambda>proposal. Inr (budget, proposal))))))))"

section \<open>Policies\<close>

text \<open>What a declared policy is: it binds to a body with a first cursor, proposes, and responds.\<close>

record trigger_policy =
  policy_bind :: "game_world \<Rightarrow> entity_id \<Rightarrow> tick_context \<Rightarrow> u64 option system_result"
  policy_query :: "game_world \<Rightarrow> contact_subject \<Rightarrow> trigger_window \<Rightarrow> tick_context \<Rightarrow> u64 \<Rightarrow> query_budget \<Rightarrow>
    (query_budget \<times> trigger_proposal option) system_result"
  policy_respond :: "game_world \<Rightarrow> contact_subject \<Rightarrow> trigger_event \<Rightarrow> tick_context \<Rightarrow>
    world_event trigger_response system_result"

datatype support_loss_phase = kAlways | kRunningOnly

definition support_loss_bind :: "support_loss_phase \<Rightarrow> game_world \<Rightarrow> entity_id \<Rightarrow> tick_context \<Rightarrow> u64 option system_result" where
  "support_loss_bind p w e context =
     Inr (if p = kRunningOnly \<and> phase (world_match w) \<noteq> kRunning then None
          else case store_find (bodies w) e of None \<Rightarrow> None
          | Some b \<Rightarrow> if \<not> is_static b \<and> body_ground_attachment b = kGroundBound then Some 0 else None)"

definition support_loss_query ::
  "game_world \<Rightarrow> contact_subject \<Rightarrow> trigger_window \<Rightarrow> tick_context \<Rightarrow> u64 \<Rightarrow> query_budget \<Rightarrow>
    (query_budget \<times> trigger_proposal option) system_result" where
  "support_loss_query w subject window context cursor budget =
     (if cursor = 0 then raised (support_loss_motion_trigger (map_terrain (context_map context)) window budget)
      else Inr (budget, None))"

definition support_loss_respond ::
  "game_world \<Rightarrow> contact_subject \<Rightarrow> trigger_event \<Rightarrow> tick_context \<Rightarrow> world_event trigger_response system_result" where
  "support_loss_respond w subject event context =
     (let effect = if store_find (controllables w) (subject_entity subject) \<noteq> None
                   then EliminationEvent (subject_entity subject) else DespawnEvent (subject_entity subject) in
      Inr \<lparr>trigger_result = \<lparr>result_body = subject_body subject, disposition = kTerminate\<rparr>,
           response_cursor = trigger_cursor event, trigger_effects = [effect]\<rparr>)"

definition support_loss_trigger :: "support_loss_phase \<Rightarrow> trigger_policy" where
  "support_loss_trigger p =
     \<lparr>policy_bind = support_loss_bind p, policy_query = support_loss_query, policy_respond = support_loss_respond\<rparr>"

definition ordered_checkpoint_bind ::
  "circle_gate list \<Rightarrow> game_world \<Rightarrow> entity_id \<Rightarrow> tick_context \<Rightarrow> u64 option system_result" where
  "ordered_checkpoint_bind gates w e context =
     (if phase (world_match w) \<noteq> kRunning \<or>
         (case store_find (bodies w) e of None \<Rightarrow> True | Some b \<Rightarrow> is_static b) \<or>
         store_find (controllables w) e = None
      then Inr None
      else
        let cursor = (case store_find (race_progresses w) e of None \<Rightarrow> 0 | Some progress \<Rightarrow> progress) in
        if unat cursor > length gates
        then Inl (Gameplay kRaceProgressBeyondCourse ''ordered_checkpoint.race_progress'')
        else Inr (if unat cursor = length gates then None else Some cursor))"

definition ordered_checkpoint_query ::
  "circle_gate list \<Rightarrow> game_world \<Rightarrow> contact_subject \<Rightarrow> trigger_window \<Rightarrow> tick_context \<Rightarrow> u64 \<Rightarrow> query_budget \<Rightarrow>
    (query_budget \<times> trigger_proposal option) system_result" where
  "ordered_checkpoint_query gates w subject window context cursor budget =
     raised (ordered_gate_motion_trigger gates cursor window budget)"

definition ordered_checkpoint_respond ::
  "circle_gate list \<Rightarrow> game_world \<Rightarrow> contact_subject \<Rightarrow> trigger_event \<Rightarrow> tick_context \<Rightarrow>
    world_event trigger_response system_result" where
  "ordered_checkpoint_respond gates w subject event context =
     (if unat (trigger_cursor event) \<ge> length gates
      then Inl (Gameplay kRaceCheckpointEventInvalid ''ordered_checkpoint.response'')
      else
        let following = trigger_cursor event + 1; finished = (unat following = length gates) in
        try_then
          (if finished
           then raised (try_then (with_velocity zero_vector (subject_body subject)) (with_acceleration zero_vector))
           else Inr (subject_body subject)) (\<lambda>b.
          Inr \<lparr>trigger_result = \<lparr>result_body = b, disposition = (if finished then kTerminate else kContinue)\<rparr>,
               response_cursor = following,
               trigger_effects = [RaceCheckpointEvent (subject_entity subject) following (key_time (trigger_key event))]\<rparr>))"

definition ordered_checkpoint_trigger :: "circle_gate list \<Rightarrow> trigger_policy" where
  "ordered_checkpoint_trigger gates =
     \<lparr>policy_bind = ordered_checkpoint_bind gates, policy_query = ordered_checkpoint_query gates,
      policy_respond = ordered_checkpoint_respond gates\<rparr>"

section \<open>The table\<close>

record trigger_declaration =
  declared_base :: u64
  declared_limit :: u64
  declared_policy :: "trigger_policy option"

type_synonym trigger_table = "trigger_declaration list"

definition trigger_declaration_is_valid :: "trigger_declaration \<Rightarrow> bool" where
  "trigger_declaration_is_valid d \<longleftrightarrow>
     declared_policy d \<noteq> None \<and> \<not> declared_limit d > kMaximumMotionTriggerCursorValue \<and>
     \<not> declared_base d > kMaximumProtocolSafeInteger - declared_limit d"

definition trigger_table_create :: "trigger_declaration list \<Rightarrow> trigger_table result" where
  "trigger_table_create declarations =
     try_then (require_motion_budget (length declarations) kMaximumMotionTriggerDeclarationCount) (\<lambda>_.
       if \<not> list_all trigger_declaration_is_valid declarations then fail_motion kContinuousMotionInvalidInput
       else Inr declarations)"

definition trigger_table_empty :: trigger_table where "trigger_table_empty = []"

text \<open>A row carries its policy with the world and the context it was bound in.\<close>

definition bound_row ::
  "game_world \<Rightarrow> tick_context \<Rightarrow> trigger_declaration \<Rightarrow> trigger_policy \<Rightarrow> entity_id \<Rightarrow> u64 \<Rightarrow>
    (system_error, world_event) motion_trigger" where
  "bound_row w context d p e cursor =
     \<lparr>trigger_entity = e, feature_base = declared_base d, initial_cursor = cursor, cursor_limit = declared_limit d,
      trigger_query = (\<lambda>subject window cursor budget. policy_query p w subject window context cursor budget),
      trigger_respond = (\<lambda>subject event. policy_respond p w subject event context)\<rparr>"

definition bind_declaration ::
  "motion_limits \<Rightarrow> game_world \<Rightarrow> tick_context \<Rightarrow> entity_id \<Rightarrow> trigger_declaration \<Rightarrow>
    (system_error, world_event) motion_trigger list \<Rightarrow> (system_error, world_event) motion_trigger list system_result" where
  "bind_declaration limits w context e d rows =
     (case declared_policy d of
        None \<Rightarrow> Inr rows
      | Some p \<Rightarrow>
          try_then (policy_bind p w e context) (\<lambda>bound.
            case bound of
              None \<Rightarrow> Inr rows
            | Some cursor \<Rightarrow>
                if cursor > declared_limit d then raised (fail_motion kContinuousMotionInvalidInput)
                else
                  try_then (raised (require_motion_budget (length rows + 1) (limit_trigger_declarations limits)))
                    (\<lambda>_. Inr (rows @ [bound_row w context d p e cursor]))))"

definition bind_triggers ::
  "trigger_table \<Rightarrow> game_world \<Rightarrow> tick_context \<Rightarrow> motion_limits \<Rightarrow>
    (system_error, world_event) motion_trigger list system_result" where
  "bind_triggers table w context limits =
     try_then (raised (validate_motion_limits limits)) (\<lambda>_.
     try_then (raised (require_motion_budget (length (bodies w)) (limit_bodies limits))) (\<lambda>_.
       if list_ex (\<lambda>d. declared_limit d > limit_trigger_cursor limits) table
       then raised (fail_motion kContinuousMotionInvalidInput)
       else
         try_fold (\<lambda>e. try_fold (bind_declaration limits w context e) table) (store_ids (bodies w)) []))"

end
