(* ===== verification/Game_Simulation.thy ===== *)
theory Game_Simulation
  imports Motion_Triggers Guarded_Pair Kernel_Intake Match_Lifecycle Match_Objectives System_Pipeline
    Motion_Chronology
begin

text \<open>
  The simulation (src/src/simulation/game_simulation.cpp, game_simulation.hpp, game_simulation_setup.cpp,
  game_mode.hpp): creation from a declaration and the step of a tick, phase by phase, over the systems, contact
  rules, triggers, spawn policy and objective that the running mode declared.

  A step returns the next simulation or an error; on an error the caller keeps the simulation it had, as
  the code's single commit at the end of the step does. The step is \<open>None\<close> only where the motion solver
  would not return, which \<open>step_returns\<close> excludes. The fixed delta has one value, so it is the constant
  \<open>kFixedDeltaSeconds\<close> and no argument. The flag \<open>checked\<close> is a build without \<open>NDEBUG\<close>.
\<close>

section \<open>Systems, objectives and modes\<close>

type_synonym tick_system = "game_world \<Rightarrow> tick_context \<Rightarrow> game_world system_result"

record match_objective =
  objective_can_start :: "game_world \<Rightarrow> bool"
  objective_outcome :: "game_world \<Rightarrow> tick \<Rightarrow> match_outcome"
  objective_durations :: durations

definition idle_objective :: match_objective where
  "idle_objective = \<lparr>objective_can_start = idle_can_start, objective_outcome = idle_outcome, objective_durations = no_durations\<rparr>"

definition match_lifecycle_system :: "match_objective \<Rightarrow> tick_system simulation_system" where
  "match_lifecycle_system objective =
     \<lparr>system_name = ''match_lifecycle'',
      system_apply = (\<lambda>w context. Inr (lifecycle_apply (objective_can_start objective) (objective_outcome objective)
                                    (objective_durations objective) (context_tick context) w))\<rparr>"

text \<open>What a mode declares once its map is accepted, each declaration read once and in this order.\<close>

record mode_declarations =
  mode_systems :: "tick_system system_pipeline system_result"
  mode_contact_rules :: "contact_table system_result"
  mode_motion_triggers :: "trigger_table system_result"
  mode_accepted_kinds :: command_kind_mask
  mode_spawn_policy :: spawn_policy
  mode_objective :: match_objective

record game_mode =
  mode_name :: string
  mode_validate_map :: "map_definition \<Rightarrow> mode_declarations system_result"

record simulation_setup =
  setup_map :: "map_definition option"
  setup_mode :: "game_mode option"
  setup_systems :: "tick_system system_pipeline option"
  setup_contact_rules :: "contact_table option"
  setup_motion_triggers :: "trigger_table option"
  setup_motion_limits :: motion_limits

definition engine_defaults :: simulation_setup where
  "engine_defaults =
     \<lparr>setup_map = None, setup_mode = None, setup_systems = None, setup_contact_rules = None,
      setup_motion_triggers = None, setup_motion_limits = default_motion_limits\<rparr>"

definition setup_of_mode :: "map_definition \<Rightarrow> game_mode \<Rightarrow> simulation_setup" where
  "setup_of_mode m mode = engine_defaults\<lparr>setup_map := Some m, setup_mode := Some mode\<rparr>"

definition with_motion_limits :: "motion_limits \<Rightarrow> simulation_setup \<Rightarrow> simulation_setup result" where
  "with_motion_limits limits given =
     try_then (validate_motion_limits limits) (\<lambda>_. Inr (given\<lparr>setup_motion_limits := limits\<rparr>))"

section \<open>Stages\<close>

definition run_system :: "tick_context \<Rightarrow> tick_system staged_system \<Rightarrow> game_world \<Rightarrow> game_world system_result" where
  "run_system context row w = (case held row of None \<Rightarrow> Inr w | Some s \<Rightarrow> system_apply s w context)"

definition apply_stage :: "tick_system system_pipeline \<Rightarrow> system_stage \<Rightarrow> tick_context \<Rightarrow> game_world \<Rightarrow> game_world system_result" where
  "apply_stage pipeline s context w =
     try_then (raised (systems_at pipeline s)) (\<lambda>rows. try_fold (run_system context) rows w)"

definition stage_is_declared :: "'s system_pipeline \<Rightarrow> system_stage \<Rightarrow> bool result" where
  "stage_is_declared pipeline s = try_then (systems_at pipeline s) (\<lambda>rows. Inr (rows \<noteq> []))"

section \<open>The motion of a tick\<close>

definition accelerate_entry :: "double \<Rightarrow> entity_id \<times> physics_body \<Rightarrow> (entity_id \<times> physics_body) result" where
  "accelerate_entry drag entry =
     (let b = snd entry in
      if is_static b then Inr entry
      else
        try_then (integrate_accelerated_velocity (body_velocity b) (body_acceleration b)) (\<lambda>accelerated.
        try_then (apply_velocity_drag accelerated (fmul drag (Finite (body_drag_scale b)))) (\<lambda>dragged.
        try_then (with_velocity dragged b) (\<lambda>b. Inr (fst entry, b)))))"

definition apply_stored_acceleration_and_drag :: "game_world \<Rightarrow> double \<Rightarrow> (entity_id \<times> physics_body) list result" where
  "apply_stored_acceleration_and_drag w drag = try_map (accelerate_entry drag) (bodies w)"

definition apply_motion_result :: "world_event solve_result \<Rightarrow> game_world \<Rightarrow> game_world result" where
  "apply_motion_result solved_tick w =
     try_then (store_create (map (\<lambda>r. (resolved_entity r, result_body (resolved_result r)))
                               (result_bodies (solve_motion solved_tick)))) (\<lambda>replacement.
     try_then (try_fold (\<lambda>effect. emit (snd effect)) (solve_effects solved_tick) w) (\<lambda>w.
       Inr (w\<lparr>bodies := replacement\<rparr>)))"

definition require_committed_body_in_bounds ::
  "arena_bounds \<Rightarrow> simulation_config \<Rightarrow> entity_id \<times> physics_body \<Rightarrow> unit \<Rightarrow> unit result" where
  "require_committed_body_in_bounds bounds c entry u =
     (if motion_body_envelope_violation (snd entry) bounds (Finite (player_radius c)) \<noteq> None
      then Inl (SimError kGameSimulationBodyOutOfBounds
             (''game_simulation.commit.bodies[entity_id='' @ decimal (unat (entity_value (fst entry))) @ '']''))
      else Inr ())"

definition require_committed_bodies_in_bounds :: "game_world \<Rightarrow> arena_bounds \<Rightarrow> simulation_config \<Rightarrow> unit result" where
  "require_committed_bodies_in_bounds w bounds c =
     try_fold (require_committed_body_in_bounds bounds c) (bodies w) ()"

section \<open>What the spatial index is a function of\<close>

record indexed_body =
  indexed_entity :: entity_id
  indexed_position :: vector2
  indexed_radius :: double

definition index_of_entry :: "entity_id \<times> physics_body \<Rightarrow> indexed_body" where
  "index_of_entry entry =
     \<lparr>indexed_entity = fst entry, indexed_position = body_position (snd entry), indexed_radius = body_radius (snd entry)\<rparr>"

definition indexed_bodies_of :: "game_world \<Rightarrow> indexed_body list" where
  "indexed_bodies_of w = map index_of_entry (bodies w)"

definition same_indexed_body :: "indexed_body \<Rightarrow> entity_id \<times> physics_body \<Rightarrow> bool" where
  "same_indexed_body i entry \<longleftrightarrow>
     indexed_entity i = fst entry \<and> indexed_position i = body_position (snd entry) \<and>
     feq (indexed_radius i) (body_radius (snd entry))"

definition still_indexes :: "indexed_body list \<Rightarrow> game_world \<Rightarrow> bool" where
  "still_indexes indexed w \<longleftrightarrow> list_all2 same_indexed_body indexed (bodies w)"

definition indexed_bodies_equal :: "game_world \<Rightarrow> game_world \<Rightarrow> bool" where
  "indexed_bodies_equal w v \<longleftrightarrow>
     list_all2 (\<lambda>a b. fst a = fst b \<and> body_position (snd a) = body_position (snd b) \<and>
                  feq (body_radius (snd a)) (body_radius (snd b))) (bodies w) (bodies v)"

section \<open>Creation\<close>

record simulation =
  sim_config :: simulation_config
  sim_map :: map_definition
  sim_world :: game_world
  sim_grid :: spatial_grid
  sim_pipeline :: "tick_system system_pipeline"
  sim_contacts :: contact_table
  sim_triggers :: trigger_table
  sim_limits :: motion_limits
  sim_spawn_policy :: spawn_policy
  sim_mode_name :: string
  sim_accepted_kinds :: command_kind_mask
  sim_tick :: tick

definition setup_conflicts :: "simulation_setup \<Rightarrow> bool" where
  "setup_conflicts given \<longleftrightarrow>
     setup_mode given \<noteq> None \<and>
     (setup_systems given \<noteq> None \<or> setup_contact_rules given \<noteq> None \<or> setup_motion_triggers given \<noteq> None)"

definition map_of_setup :: "simulation_config \<Rightarrow> simulation_setup \<Rightarrow> map_definition result" where
  "map_of_setup c given =
     (case setup_map given of Some m \<Rightarrow> Inr m
      | None \<Rightarrow> try_then (arena_bounds_create (Finite (world_width c)) (Finite (world_height c))) map_bare_arena)"

text \<open>The name, systems, rules, triggers, accepted kinds, policy and objective of the running mode.\<close>

definition declarations_of_mode ::
  "map_definition \<Rightarrow> game_mode \<Rightarrow>
    (string \<times> tick_system system_pipeline \<times> contact_table \<times> trigger_table \<times> command_kind_mask \<times> spawn_policy \<times>
      match_objective) system_result" where
  "declarations_of_mode m mode =
     try_then (mode_validate_map mode m) (\<lambda>d.
     try_then (mode_systems d) (\<lambda>systems.
     try_then (mode_contact_rules d) (\<lambda>rules.
     try_then (mode_motion_triggers d) (\<lambda>triggers.
     try_then (raised (require_mode_accepts_server_issued_kinds (mode_accepted_kinds d))) (\<lambda>_.
       Inr (mode_name mode, systems, rules, triggers, mode_accepted_kinds d, mode_spawn_policy d, mode_objective d))))))"

definition declarations_of_setup ::
  "map_definition \<Rightarrow> simulation_setup \<Rightarrow>
    (string \<times> tick_system system_pipeline \<times> contact_table \<times> trigger_table \<times> command_kind_mask \<times> spawn_policy \<times>
      match_objective) system_result" where
  "declarations_of_setup m given =
     try_then (raised contact_table_built_in) (\<lambda>built_in.
       case setup_mode given of
         Some mode \<Rightarrow> declarations_of_mode m mode
       | None \<Rightarrow>
           Inr (''idle'',
                case setup_systems given of Some p \<Rightarrow> p | None \<Rightarrow> pipeline_empty,
                case setup_contact_rules given of Some r \<Rightarrow> r | None \<Rightarrow> built_in,
                case setup_motion_triggers given of Some t \<Rightarrow> t | None \<Rightarrow> trigger_table_empty,
                mask_all_bits, idle_spawn_policy, idle_objective))"

definition simulation_create ::
  "simulation_config \<Rightarrow> game_world \<Rightarrow> simulation_setup \<Rightarrow> simulation system_result" where
  "simulation_create c w given =
     (if setup_conflicts given
      then Inl (Simulation (SimError kGameSimulationSetupConflict ''game_simulation.setup''))
      else
        let limits = setup_motion_limits given in
        try_then (raised (validate_motion_limits limits)) (\<lambda>_.
        try_then (raised (require_motion_budget (length (bodies w)) (limit_bodies limits))) (\<lambda>_.
        try_then (raised (project_contact_effect_policies w)) (\<lambda>_.
        try_then (raised (map_of_setup c given)) (\<lambda>m.
        try_then (declarations_of_setup m given) (\<lambda>(name, systems, rules, triggers, kinds, policy, objective).
        try_then (raised (require_spawn_points_are_seatable c m)) (\<lambda>_.
        try_then (raised (require_committed_bodies_in_bounds w (map_bounds m) c)) (\<lambda>_.
        try_then (raised (with_appended \<lparr>stage = kLifecycle, held = Some (match_lifecycle_system objective)\<rparr> systems))
          (\<lambda>pipeline.
        try_then (raised (spatial_grid_create c (map_bounds m) w)) (\<lambda>g.
          Inr \<lparr>sim_config = c, sim_map = m, sim_world = w, sim_grid = g, sim_pipeline = pipeline,
               sim_contacts = rules, sim_triggers = triggers, sim_limits = limits, sim_spawn_policy = policy,
               sim_mode_name = name, sim_accepted_kinds = kinds, sim_tick = tick_zero\<rparr>))))))))))"

section \<open>The phases of a step\<close>

definition context_of :: "simulation \<Rightarrow> tick \<Rightarrow> spatial_grid \<Rightarrow> tick_context" where
  "context_of sim now g =
     \<lparr>context_tick = now, context_config = sim_config sim, context_map = sim_map sim, context_grid = g\<rparr>"

definition body_budget :: "simulation \<Rightarrow> game_world \<Rightarrow> unit system_result" where
  "body_budget sim w = raised (require_motion_budget (length (bodies w)) (limit_bodies (sim_limits sim)))"

text \<open>The index of a phase is the one it was handed, or a rebuild where the bodies changed.\<close>

definition reindexed :: "bool \<Rightarrow> spatial_grid \<Rightarrow> game_world \<Rightarrow> spatial_grid system_result" where
  "reindexed stale g w = (if stale then raised (grid_rebuilt g w) else Inr g)"

definition intake_phase ::
  "simulation \<Rightarrow> tick \<Rightarrow> input_batch \<Rightarrow> (game_world \<times> tuning_decision list \<times> spatial_grid) system_result" where
  "intake_phase sim now batch =
     try_then (raised (apply_input_batch batch (length (spawn_points (sim_map sim))) now
                 (open_tick (batch_reservation batch) (sim_world sim)))) (\<lambda>(w, decided).
     try_then (body_budget sim w) (\<lambda>_.
     try_then (reindexed (\<not> indexed_bodies_equal w (sim_world sim)) (sim_grid sim) w) (\<lambda>g.
       Inr (w, decided, g))))"

definition seating_phase ::
  "simulation \<Rightarrow> tick \<Rightarrow> spatial_grid \<Rightarrow> game_world \<Rightarrow> (game_world \<times> spatial_grid) system_result" where
  "seating_phase sim now g w =
     try_then (raised (seat_pending_entities (sim_spawn_policy sim) (context_of sim now g) w)) (\<lambda>(w, seated_count).
     try_then (body_budget sim w) (\<lambda>_.
     try_then (reindexed (seated_count \<noteq> 0) g w) (\<lambda>g. Inr (w, g))))"

definition pre_kernel_phase ::
  "simulation \<Rightarrow> tick \<Rightarrow> spatial_grid \<Rightarrow> game_world \<Rightarrow> (game_world \<times> spatial_grid) system_result" where
  "pre_kernel_phase sim now g w =
     try_then (raised (stage_is_declared (sim_pipeline sim) kPreKernel)) (\<lambda>declared.
     try_then (apply_stage (sim_pipeline sim) kPreKernel (context_of sim now g) w) (\<lambda>w'.
     try_then (body_budget sim w') (\<lambda>_.
     try_then (reindexed (declared \<and> \<not> still_indexes (indexed_bodies_of w) w') g w') (\<lambda>g. Inr (w', g)))))"

definition motion_raised :: "system_error motion_error \<Rightarrow> system_error" where
  "motion_raised e = (case e of MotionError e \<Rightarrow> Simulation e | CallbackError e \<Rightarrow> e)"

definition kernel_inputs ::
  "simulation \<Rightarrow> tick_context \<Rightarrow> game_world \<Rightarrow>
    (effect_policy_entry list \<times> (system_error, world_event) motion_trigger list \<times> contact_subject list) system_result" where
  "kernel_inputs sim context w =
     try_then (raised (project_contact_effect_policies w)) (\<lambda>policies.
     try_then (bind_triggers (sim_triggers sim) w context (sim_limits sim)) (\<lambda>rows.
     try_then (raised (apply_stored_acceleration_and_drag w (Finite (drag_per_second (sim_config sim))))) (\<lambda>moving.
       Inr (policies, rows, map (\<lambda>(e, b). \<lparr>subject_entity = e, subject_body = b\<rparr>) moving))))"

definition motion_phase ::
  "simulation \<Rightarrow> tick \<Rightarrow> spatial_grid \<Rightarrow> game_world \<Rightarrow> game_world system_result option" where
  "motion_phase sim now g w =
     (case kernel_inputs sim (context_of sim now g) w of
        Inl e \<Rightarrow> Some (Inl e)
      | Inr (policies, rows, subjects) \<Rightarrow>
          map_option (\<lambda>r. case r of
              Inl e \<Rightarrow> Inl (motion_raised e)
            | Inr solved_tick \<Rightarrow> raised (apply_motion_result solved_tick w))
            (solve_continuous_motion (sim_limits sim) kFixedDeltaSeconds (Finite (player_radius (sim_config sim)))
               (map_bounds (sim_map sim)) subjects policies
               (\<lambda>a b observation. table_respond (sim_contacts sim) w now a b observation) rows))"

definition late_phase ::
  "simulation \<Rightarrow> tick \<Rightarrow> spatial_grid \<Rightarrow> game_world \<Rightarrow> (game_world \<times> bool) system_result" where
  "late_phase sim now g w =
     try_then (raised (stage_is_declared (sim_pipeline sim) kPostKernel)) (\<lambda>post.
     try_then (raised (stage_is_declared (sim_pipeline sim) kLifecycle)) (\<lambda>late.
     try_then (apply_stage (sim_pipeline sim) kPostKernel (context_of sim now g) w) (\<lambda>w'.
     try_then (apply_stage (sim_pipeline sim) kLifecycle (context_of sim now g) w') (\<lambda>w'.
       Inr (w', post \<or> late)))))"

definition commit_phase ::
  "bool \<Rightarrow> simulation \<Rightarrow> tick \<Rightarrow> spatial_grid \<Rightarrow> bool \<Rightarrow> indexed_body list \<Rightarrow> game_world \<Rightarrow> simulation system_result" where
  "commit_phase checked sim now g late_stage_declared indexed w =
     (let (removed, w) = apply_despawn_events w in
      try_then (body_budget sim w) (\<lambda>_.
      try_then (raised (project_contact_effect_policies w)) (\<lambda>_.
      try_then (raised (require_committed_bodies_in_bounds w (map_bounds (sim_map sim)) (sim_config sim))) (\<lambda>_.
      try_then (reindexed (removed \<or> late_stage_declared \<and> \<not> still_indexes indexed w) g w) (\<lambda>g.
        let w = close_tick w in
        try_then
          (if checked
           then try_then (raised (grid_rebuilt g w)) (\<lambda>again.
             if again \<noteq> g
             then Inl (Simulation (SimError kGameSimulationSpatialIndexStale ''game_simulation.commit.grid''))
             else Inr ())
           else Inr ())
          (\<lambda>_. Inr (sim\<lparr>sim_world := w, sim_grid := g, sim_tick := now\<rparr>)))))))"

section \<open>The step\<close>

definition kernel_entry ::
  "simulation \<Rightarrow> tick \<Rightarrow> input_batch \<Rightarrow> (game_world \<times> tuning_decision list \<times> spatial_grid) system_result" where
  "kernel_entry sim now batch =
     try_then (intake_phase sim now batch) (\<lambda>(w, decided, g).
     try_then (seating_phase sim now g w) (\<lambda>(w, g).
     try_then (pre_kernel_phase sim now g w) (\<lambda>(w, g).
       Inr (w, decided, g))))"

definition kernel_exit ::
  "bool \<Rightarrow> simulation \<Rightarrow> tick \<Rightarrow> spatial_grid \<Rightarrow> game_world \<Rightarrow> simulation system_result" where
  "kernel_exit checked sim now g w =
     try_then (raised (grid_rebuilt g w)) (\<lambda>g.
     try_then (late_phase sim now g w) (\<lambda>(w', late_stage_declared).
       commit_phase checked sim now g late_stage_declared (indexed_bodies_of w) w'))"

definition simulation_step ::
  "bool \<Rightarrow> simulation \<Rightarrow> input_batch \<Rightarrow> (simulation \<times> tuning_decision list) system_result option" where
  "simulation_step checked sim batch =
     (case try_then (raised (tick_next (sim_tick sim))) (\<lambda>now.
        try_then (kernel_entry sim now batch) (\<lambda>entered. Inr (now, entered))) of
        Inl e \<Rightarrow> Some (Inl e)
      | Inr (now, w, decided, g) \<Rightarrow>
          map_option (\<lambda>moved. try_then moved (\<lambda>w.
            try_then (kernel_exit checked sim now g w) (\<lambda>sim'. Inr (sim', decided))))
            (motion_phase sim now g w))"

end
