(* ===== verification/Step_Invariants.thy ===== *)
theory Step_Invariants
  imports Game_Simulation
begin

text \<open>
  What a step guarantees: it always returns; every phase reads a current spatial index; what it commits
  is fit to publish; and the index it commits is a rebuild of the committed world, so that the check of a
  debug build never fires.
\<close>

section \<open>The index depends on the indexed part of the bodies\<close>

definition same_index :: "entity_id \<times> physics_body \<Rightarrow> entity_id \<times> physics_body \<Rightarrow> bool" where
  "same_index a b \<longleftrightarrow> fst a = fst b \<and> body_position (snd a) = body_position (snd b) \<and> body_radius (snd a) = body_radius (snd b)"

lemma feq_equal: "feq a b \<Longrightarrow> a = b"
  by (cases a; cases b) auto

lemma same_index_ids: "list_all2 same_index s t \<Longrightarrow> store_ids s = store_ids t"
  by (induction rule: list_all2_induct) (auto simp: same_index_def)

lemma same_index_effective_radius: "same_index a b \<Longrightarrow> effective_radius (snd a) r = effective_radius (snd b) r"
  by (simp add: same_index_def effective_radius_def)

lemma lower_bound_same_ids: "store_ids s = store_ids t \<Longrightarrow> store_lower_bound s = store_lower_bound t"
proof (induction s arbitrary: t)
  case (Cons a s)
  then obtain b u where t: "t = b # u" "fst a = fst b" "store_ids s = store_ids u" by (cases t) auto
  show ?case using Cons.IH [OF t(3)] t(2) by (auto simp: t(1) store_lower_bound_def fun_eq_iff)
qed (simp add: store_lower_bound_def fun_eq_iff)

lemma same_index_coverage:
  assumes "same_index a b" and "body_coverage c bounds b = Inr k"
    and "motion_body_envelope_violation (snd a) bounds (Finite (player_radius c)) = None"
  shows "body_coverage c bounds a = Inr k"
  using assms same_index_effective_radius [OF assms(1)]
  by (auto simp: body_coverage_def Let_def same_index_def split: option.splits envelope_violation.splits)

definition in_envelope :: "arena_bounds \<Rightarrow> simulation_config \<Rightarrow> physics_body store \<Rightarrow> bool" where
  "in_envelope bounds c s \<longleftrightarrow>
     list_all (\<lambda>entry. motion_body_envelope_violation (snd entry) bounds (Finite (player_radius c)) = None) s"

lemma same_index_coverages:
  "list_all2 same_index s t \<Longrightarrow> in_envelope bounds c s \<Longrightarrow> try_fold (add_coverage c bounds) t st = Inr r \<Longrightarrow>
   try_fold (add_coverage c bounds) s st = Inr r"
proof (induction arbitrary: st rule: list_all2_induct)
  case (Cons a s b t)
  obtain st1 where one: "add_coverage c bounds b st = Inr st1" and rest: "try_fold (add_coverage c bounds) t st1 = Inr r"
    using Cons.prems(2) by (auto simp: try_then_Inr_iff)
  obtain k where k: "body_coverage c bounds b = Inr k" using one by (auto simp: add_coverage_def try_then_Inr_iff)
  have "add_coverage c bounds a st = Inr st1"
    using same_index_coverage [OF Cons.hyps(1) k] Cons.prems(1) one k by (simp add: add_coverage_def in_envelope_def)
  then show ?case using Cons.IH [OF _ rest] Cons.prems(1) by (simp add: in_envelope_def)
qed simp

lemma same_index_pairs: "store_ids s = store_ids t \<Longrightarrow> build_candidate_pairs s = build_candidate_pairs t"
proof -
  assume ids: "store_ids s = store_ids t"
  then have len: "length s = length t" by (metis length_map)
  have eq: "observe_cell_pair s = observe_cell_pair t"
    using lower_bound_same_ids [OF ids] by (intro ext) (simp add: observe_cell_pair_def body_index_for_id_def)
  show ?thesis by (intro ext) (simp only: build_candidate_pairs_def eq len)
qed

lemma grid_same_index:
  assumes "spatial_grid_create c bounds v = Inr g" and "list_all2 same_index (bodies w) (bodies v)"
    and "in_envelope bounds c (bodies w)"
  shows "spatial_grid_create c bounds w = Inr g"
proof -
  note ids = same_index_ids [OF assms(2)]
  have cells: "build_cells (bodies w) = build_cells (bodies v)" by (simp add: fun_eq_iff build_cells_def ids)
  show ?thesis
    using assms(1) same_index_coverages [OF assms(2,3)] same_index_pairs [OF ids] cells
    unfolding spatial_grid_create_def by (auto simp: try_then_Inr_iff)
qed

lemma grid_rebuilt_keeps:
  "grid_rebuilt g w = Inr h \<Longrightarrow> grid_config h = grid_config g \<and> grid_bounds h = grid_bounds g"
  unfolding grid_rebuilt_def spatial_grid_create_def try_then_Inr_iff split_beta by (elim exE conjE) auto

lemma grid_rebuilt_again:
  assumes "grid_rebuilt g w = Inr h" shows "grid_rebuilt h v = grid_rebuilt g v"
  using grid_rebuilt_keeps [OF assms] by (simp add: grid_rebuilt_def)

section \<open>Current indexes\<close>

text \<open>An index is current for a world when it was built over bodies with the same ids, positions and
  radii, in the same order.\<close>

definition indexes :: "spatial_grid \<Rightarrow> game_world \<Rightarrow> bool" where
  "indexes g w \<longleftrightarrow> (\<exists>v. grid_rebuilt g v = Inr g \<and> list_all2 same_index (bodies w) (bodies v))"

lemma same_index_refl: "list_all2 same_index s s"
  by (simp add: list_all2_same same_index_def)

lemma same_index_sym: "list_all2 same_index s t \<Longrightarrow> list_all2 same_index t s"
  by (auto simp: list_all2_conv_all_nth same_index_def)

lemma same_index_trans: "list_all2 same_index s t \<Longrightarrow> list_all2 same_index t u \<Longrightarrow> list_all2 same_index s u"
  by (auto simp: list_all2_conv_all_nth same_index_def)

lemma indexed_bodies_equal_same: "indexed_bodies_equal w v \<Longrightarrow> list_all2 same_index (bodies w) (bodies v)"
  unfolding indexed_bodies_equal_def by (erule list_all2_mono) (auto simp: same_index_def dest: feq_equal)

lemma still_indexes_same: "still_indexes (indexed_bodies_of v) w \<Longrightarrow> list_all2 same_index (bodies v) (bodies w)"
  unfolding still_indexes_def indexed_bodies_of_def list_all2_map1
  by (erule list_all2_mono) (auto simp: same_index_def same_indexed_body_def index_of_entry_def dest: feq_equal)

lemma indexes_rebuilt: "grid_rebuilt g w = Inr h \<Longrightarrow> indexes h w"
  using grid_rebuilt_again [of g w h w] same_index_refl by (auto simp: indexes_def)

lemma indexes_same: "indexes g v \<Longrightarrow> list_all2 same_index (bodies w) (bodies v) \<Longrightarrow> indexes g w"
  unfolding indexes_def by (blast intro: same_index_trans)

lemma reindexed_current:
  assumes "reindexed stale g w = Inr h" and "\<not> stale \<Longrightarrow> indexes g w"
  shows "indexes h w \<and> grid_config h = grid_config g \<and> grid_bounds h = grid_bounds g"
  using assms indexes_rebuilt grid_rebuilt_keeps by (auto simp: reindexed_def split: if_split_asm)

lemma apply_stage_undeclared:
  "stage_is_declared p s = Inr False \<Longrightarrow> apply_stage p s context w = Inr w' \<Longrightarrow> w' = w"
  by (auto simp: stage_is_declared_def apply_stage_def try_then_Inr_iff)

lemma seated_none:
  assumes "seat_pending_entities policy context w = Inr (w', n)"
  shows "n = 0 \<Longrightarrow> w' = w"
proof -
  have step: "offer_seat policy context e st = Inr st' \<Longrightarrow> fst st' = fst st \<and> snd (snd st') = snd (snd st) \<or> snd (snd st') > snd (snd st)"
    for e st st'
    by (cases st) (auto simp: offer_seat_def Let_def try_then_Inr_iff split: option.splits if_split_asm)
  have folded: "try_fold (offer_seat policy context) es st = Inr st' \<Longrightarrow>
      fst st' = fst st \<and> snd (snd st') = snd (snd st) \<or> snd (snd st') > snd (snd st)" for es st st'
  proof (induction es arbitrary: st)
    case (Cons e es)
    obtain st1 where a: "offer_seat policy context e st = Inr st1" and b: "try_fold (offer_seat policy context) es st1 = Inr st'"
      using Cons.prems by (auto simp: try_then_Inr_iff)
    from step [OF a] Cons.IH [OF b] show ?case by auto
  qed simp
  show "w' = w" if "n = 0"
    using assms that by (auto simp: seat_pending_entities_def Let_def try_then_Inr_iff split: if_split_asm dest!: folded)
qed

section \<open>The phases\<close>

text \<open>The index of a simulation fits its configuration and map, and is a rebuild of its world.\<close>

definition fitted :: "simulation \<Rightarrow> spatial_grid \<Rightarrow> bool" where
  "fitted sim g \<longleftrightarrow> grid_config g = sim_config sim \<and> grid_bounds g = map_bounds (sim_map sim)"

definition committed :: "simulation \<Rightarrow> bool" where
  "committed sim \<longleftrightarrow>
     fitted sim (sim_grid sim) \<and> grid_rebuilt (sim_grid sim) (sim_world sim) = Inr (sim_grid sim) \<and>
     in_envelope (map_bounds (sim_map sim)) (sim_config sim) (bodies (sim_world sim)) \<and>
     length (bodies (sim_world sim)) \<le> limit_bodies (sim_limits sim)"

lemmas committed_rules [valid_simps] = committed_def fitted_def in_envelope_def

lemmas phase_rules [step_simps] = intake_phase_def seating_phase_def pre_kernel_phase_def

lemma fitted_reindexed: "reindexed stale g w = Inr h \<Longrightarrow> fitted sim g \<Longrightarrow> fitted sim h"
  using grid_rebuilt_keeps [of g w h] by (auto simp: reindexed_def fitted_def split: if_split_asm)

lemma intake_phase_current:
  assumes "committed sim" and "intake_phase sim now batch = Inr (w, decided, g)"
  shows "indexes g w \<and> fitted sim g"
proof -
  have r: "reindexed (\<not> indexed_bodies_equal w (sim_world sim)) (sim_grid sim) w = Inr g"
    using assms(2) by (auto simp: step_simps try_then_Inr_iff)
  have "indexes (sim_grid sim) (sim_world sim)"
    using assms(1) same_index_refl by (auto simp: committed_def indexes_def)
  then have "indexed_bodies_equal w (sim_world sim) \<Longrightarrow> indexes (sim_grid sim) w"
    by (rule indexes_same) (rule indexed_bodies_equal_same)
  with reindexed_current [OF r] fitted_reindexed [OF r] assms(1) show ?thesis by (simp add: committed_def)
qed

lemma seating_phase_current:
  assumes "seating_phase sim now g w = Inr (w', h)" and "indexes g w" "fitted sim g"
  shows "indexes h w' \<and> fitted sim h"
proof -
  obtain n where seat: "seat_pending_entities (sim_spawn_policy sim) (context_of sim now g) w = Inr (w', n)"
    and r: "reindexed (n \<noteq> 0) g w' = Inr h"
    using assms(1) by (auto simp: step_simps try_then_Inr_iff)
  show ?thesis
    using reindexed_current [OF r] fitted_reindexed [OF r assms(3)] seated_none [OF seat] assms(2) by auto
qed

lemma pre_kernel_phase_current:
  assumes "pre_kernel_phase sim now g w = Inr (w', h)" and "indexes g w" "fitted sim g"
  shows "indexes h w' \<and> fitted sim h"
proof -
  obtain d where d: "stage_is_declared (sim_pipeline sim) kPreKernel = Inr d"
    and run: "apply_stage (sim_pipeline sim) kPreKernel (context_of sim now g) w = Inr w'"
    and r: "reindexed (d \<and> \<not> still_indexes (indexed_bodies_of w) w') g w' = Inr h"
    using assms(1) by (auto simp: step_simps try_then_Inr_iff)
  have "\<not> (d \<and> \<not> still_indexes (indexed_bodies_of w) w') \<Longrightarrow> indexes g w'"
    using apply_stage_undeclared [OF _ run] d assms(2) still_indexes_same [of w w']
    by (cases d) (auto intro: indexes_same same_index_sym)
  with reindexed_current [OF r] fitted_reindexed [OF r assms(3)] show ?thesis by simp
qed

lemma committed_bodies_checked:
  "require_committed_bodies_in_bounds w bounds c = Inr () \<longleftrightarrow> in_envelope bounds c (bodies w)"
proof -
  have "try_fold (require_committed_body_in_bounds bounds c) s () = Inr () \<longleftrightarrow> in_envelope bounds c s" for s
    by (induction s) (auto simp: in_envelope_def require_committed_body_in_bounds_def try_then_Inr_iff)
  then show ?thesis by (simp add: require_committed_bodies_in_bounds_def)
qed

lemma late_phase_bodies:
  assumes "late_phase sim now g w = Inr (w', late)" shows "late \<or> w' = w"
proof -
  obtain a b w1 where a: "stage_is_declared (sim_pipeline sim) kPostKernel = Inr a"
    and b: "stage_is_declared (sim_pipeline sim) kLifecycle = Inr b" and late: "late = (a \<or> b)"
    and one: "apply_stage (sim_pipeline sim) kPostKernel (context_of sim now g) w = Inr w1"
    and two: "apply_stage (sim_pipeline sim) kLifecycle (context_of sim now g) w1 = Inr w'"
    using assms by (auto simp: late_phase_def try_then_Inr_iff)
  show ?thesis using apply_stage_undeclared [OF _ one] apply_stage_undeclared [OF _ two] a b late by auto
qed

lemma commit_phase_cases:
  assumes run: "commit_phase checked sim now g late idx w = Inr sim'"
    and despawn: "apply_despawn_events w = (removed, w1)"
  shows "\<exists>u v x h. body_budget sim w1 = Inr u \<and> raised (project_contact_effect_policies w1) = Inr v \<and>
    raised (require_committed_bodies_in_bounds w1 (map_bounds (sim_map sim)) (sim_config sim)) = Inr x \<and>
    reindexed (removed \<or> late \<and> \<not> still_indexes idx w1) g w1 = Inr h \<and>
    sim' = sim\<lparr>sim_world := close_tick w1, sim_grid := h, sim_tick := now\<rparr>"
  using run unfolding commit_phase_def despawn Let_def prod.case try_then_Inr_iff
  by (elim exE conjE) (intro exI conjI, assumption+, drule sym, blast dest: sum.inject(2) [THEN iffD1])
text \<open>What the commit is handed: an index rebuilt before the late stages, and the bodies it was built over.\<close>

lemma commit_phase_committed:
  assumes run: "commit_phase checked sim now g late (indexed_bodies_of w0) w = Inr sim'"
    and g: "grid_rebuilt g w0 = Inr g" "fitted sim g" and late: "late \<or> w = w0"
  shows "committed sim'" and "sim_tick sim' = now" and "events (sim_world sim') = []"
    and "world_reservation (sim_world sim') = reservation_none" and "sim_config sim' = sim_config sim"
    and "sim_map sim' = sim_map sim" and "sim_limits sim' = sim_limits sim"
    and "commit_phase (\<not> checked) sim now g late (indexed_bodies_of w0) w = Inr sim'"
proof -
  obtain removed w1 where despawn: "apply_despawn_events w = (removed, w1)" by (cases "apply_despawn_events w")
  obtain u v x h where budget: "body_budget sim w1 = Inr u"
    and pol: "raised (project_contact_effect_policies w1) = Inr v"
    and bounds: "raised (require_committed_bodies_in_bounds w1 (map_bounds (sim_map sim)) (sim_config sim)) = Inr x"
    and r: "reindexed (removed \<or> late \<and> \<not> still_indexes (indexed_bodies_of w0) w1) g w1 = Inr h"
    and sim': "sim' = sim\<lparr>sim_world := close_tick w1, sim_grid := h, sim_tick := now\<rparr>"
    using commit_phase_cases [OF run despawn] by blast
  have env: "in_envelope (map_bounds (sim_map sim)) (sim_config sim) (bodies w1)"
    using bounds by (simp add: committed_bodies_checked)
  have h: "fitted sim h" by (rule fitted_reindexed [OF r g(2)])
  have again: "grid_rebuilt h w1 = Inr h"
  proof (cases "removed \<or> late \<and> \<not> still_indexes (indexed_bodies_of w0) w1")
    case True
    with r have "grid_rebuilt g w1 = Inr h" by (simp add: reindexed_def)
    with grid_rebuilt_again [OF this] show ?thesis by simp
  next
    case False
    with r have hg: "h = g" by (simp add: reindexed_def)
    have "\<not> removed \<Longrightarrow> w1 = w" using despawn by (auto simp: apply_despawn_events_def)
    with False late have same: "list_all2 same_index (bodies w1) (bodies w0)"
      using still_indexes_same [of w0 w1] same_index_refl by (auto intro: same_index_sym)
    have "spatial_grid_create (grid_config g) (grid_bounds g) w0 = Inr g" using g(1) by (simp only: grid_rebuilt_def)
    moreover have "in_envelope (grid_bounds g) (grid_config g) (bodies w1)" using env g(2) by (simp only: fitted_def)
    ultimately show ?thesis unfolding hg grid_rebuilt_def by (rule grid_same_index [OF _ same])
  qed
  have close: "grid_rebuilt h (close_tick w1) = grid_rebuilt h w1"
    by (simp add: grid_rebuilt_def spatial_grid_create_def close_tick_def)
  show "committed sim'"
    using h again env budget close
    by (simp add: sim' committed_def fitted_def close_tick_def body_budget_def require_motion_budget_def
        fail_motion_def split: if_split_asm)
  show "sim_tick sim' = now" "events (sim_world sim') = []" "world_reservation (sim_world sim') = reservation_none"
    "sim_config sim' = sim_config sim" "sim_map sim' = sim_map sim" "sim_limits sim' = sim_limits sim"
    by (simp_all add: sim' close_tick_def)
  show "commit_phase (\<not> checked) sim now g late (indexed_bodies_of w0) w = Inr sim'"
    using run budget pol bounds r again close by (simp add: commit_phase_def despawn Let_def sim')
qed

lemma kernel_entry_phases:
  assumes "kernel_entry sim now batch = Inr (w, decided, g)"
  shows "\<exists>w1 g1 w2 g2. intake_phase sim now batch = Inr (w1, decided, g1) \<and>
    seating_phase sim now g1 w1 = Inr (w2, g2) \<and> pre_kernel_phase sim now g2 w2 = Inr (w, g)"
  using assms by (auto simp: kernel_entry_def try_then_Inr_iff)

lemma kernel_entry_fitted:
  assumes "kernel_entry sim now batch = Inr (w, decided, g)" and "fitted sim (sim_grid sim)"
  shows "fitted sim g"
proof -
  obtain w1 g1 w2 g2 where "intake_phase sim now batch = Inr (w1, decided, g1)"
    and "seating_phase sim now g1 w1 = Inr (w2, g2)" and "pre_kernel_phase sim now g2 w2 = Inr (w, g)"
    using kernel_entry_phases [OF assms(1)] by blast
  then show ?thesis
    using assms(2)
    by (auto simp: step_simps try_then_Inr_iff dest!: fitted_reindexed)
qed

lemma kernel_exit_committed:
  assumes "kernel_exit checked sim now g w = Inr sim'" and "fitted sim g"
  shows "committed sim'" and "sim_tick sim' = now" and "events (sim_world sim') = []"
    and "world_reservation (sim_world sim') = reservation_none"
    and "sim_config sim' = sim_config sim" and "sim_map sim' = sim_map sim" and "sim_limits sim' = sim_limits sim"
    and "kernel_exit (\<not> checked) sim now g w = Inr sim'"
proof -
  obtain h w1 late where h: "grid_rebuilt g w = Inr h" and late: "late_phase sim now h w = Inr (w1, late)"
    and commit: "commit_phase checked sim now h late (indexed_bodies_of w) w1 = Inr sim'"
    using assms(1) by (auto simp: kernel_exit_def try_then_Inr_iff)
  have again: "grid_rebuilt h w = Inr h" using grid_rebuilt_again [OF h] h by simp
  have "fitted sim h" using grid_rebuilt_keeps [OF h] assms(2) by (simp add: fitted_def)
  note all = commit_phase_committed [OF commit again this late_phase_bodies [OF late]]
  show "committed sim'" "sim_tick sim' = now" "events (sim_world sim') = []"
    "world_reservation (sim_world sim') = reservation_none"
    "sim_config sim' = sim_config sim" "sim_map sim' = sim_map sim" "sim_limits sim' = sim_limits sim"
    by (rule all)+
  show "kernel_exit (\<not> checked) sim now g w = Inr sim'"
    using h late all(8) by (simp add: kernel_exit_def)
qed

lemma simulation_step_parts:
  assumes "simulation_step checked sim batch = Some (Inr (sim', decided))"
  shows "\<exists>now w g moved. tick_next (sim_tick sim) = Inr now \<and> kernel_entry sim now batch = Inr (w, decided, g) \<and>
    motion_phase sim now g w = Some (Inr moved) \<and> kernel_exit checked sim now g moved = Inr sim'"
  using assms
  by (auto simp: simulation_step_def try_then_Inr_iff split: sum.split_asm)

section \<open>The step\<close>

text \<open>
  C4: a step always returns. Whatever the world, the input, the systems and the rules of the mode, the fuel
  of the motion solver is enough, so no tick hangs: a step is a new simulation or an error.
\<close>

theorem step_returns:
  "\<exists>outcome. simulation_step checked sim batch = Some outcome"
proof -
  have "motion_phase sim now g w \<noteq> None" for now g w
    using motion_solve_returns by (auto simp: motion_phase_def split: sum.split)
  then show ?thesis by (auto simp: simulation_step_def split: sum.split)
qed

text \<open>
  C1: what a step commits is fit to publish. The tick advances by one; the committed index is a rebuild of
  the committed world, every body fits its motion envelope and the body limit holds; the events and the
  id reservation of the tick are gone; configuration, map and limits stay. A build that checks the index
  commits exactly what one that does not commits: the check never fires.
\<close>

theorem step_commits_a_publishable_world:
  assumes "simulation_step checked sim batch = Some (Inr (sim', decided))" and "fitted sim (sim_grid sim)"
  shows "tick_next (sim_tick sim) = Inr (sim_tick sim') \<and> committed sim' \<and>
    events (sim_world sim') = [] \<and> world_reservation (sim_world sim') = reservation_none \<and>
    sim_config sim' = sim_config sim \<and> sim_map sim' = sim_map sim \<and> sim_limits sim' = sim_limits sim \<and>
    simulation_step (\<not> checked) sim batch = Some (Inr (sim', decided))"
proof -
  obtain now w g moved where now: "tick_next (sim_tick sim) = Inr now"
    and entry: "kernel_entry sim now batch = Inr (w, decided, g)"
    and motion: "motion_phase sim now g w = Some (Inr moved)"
    and exit: "kernel_exit checked sim now g moved = Inr sim'"
    using simulation_step_parts [OF assms(1)] by blast
  note all = kernel_exit_committed [OF exit kernel_entry_fitted [OF entry assms(2)]]
  show ?thesis using all now entry motion by (simp add: simulation_step_def)
qed

text \<open>
  C3: every phase of a tick reads a current index. From a committed simulation, the index the spawn policy,
  the systems before the kernel and the kernel itself are handed was built over bodies with the ids,
  positions and radii of the world they are handed with it, whether or not it was rebuilt on the way.
\<close>

theorem phases_read_a_current_index:
  assumes "committed sim" and "kernel_entry sim now batch = Inr (w, decided, g)"
  shows "\<exists>w1 g1 w2 g2. intake_phase sim now batch = Inr (w1, decided, g1) \<and> indexes g1 w1 \<and>
    seating_phase sim now g1 w1 = Inr (w2, g2) \<and> indexes g2 w2 \<and>
    pre_kernel_phase sim now g2 w2 = Inr (w, g) \<and> indexes g w"
proof -
  obtain w1 g1 w2 g2 where a: "intake_phase sim now batch = Inr (w1, decided, g1)"
    and b: "seating_phase sim now g1 w1 = Inr (w2, g2)" and c: "pre_kernel_phase sim now g2 w2 = Inr (w, g)"
    using kernel_entry_phases [OF assms(2)] by blast
  note one = intake_phase_current [OF assms(1) a]
  note two = seating_phase_current [OF b conjunct1 [OF one] conjunct2 [OF one]]
  note three = pre_kernel_phase_current [OF c conjunct1 [OF two] conjunct2 [OF two]]
  show ?thesis using a b c one two three by blast
qed

section \<open>Runs\<close>

text \<open>The simulations a server can hold: a created one, and what the steps that succeed make of it. A step
  that fails leaves the simulation as it was.\<close>

inductive running :: "simulation \<Rightarrow> bool" where
  created: "simulation_create c w given = Inr sim \<Longrightarrow> running sim"
| stepped: "running sim \<Longrightarrow> simulation_step checked sim batch = Some (Inr (sim', decided)) \<Longrightarrow> running sim'"

lemma created_committed:
  assumes "simulation_create c w given = Inr sim" shows "committed sim"
proof -
  obtain m g where grid: "spatial_grid_create c (map_bounds m) w = Inr g"
    and bounds: "require_committed_bodies_in_bounds w (map_bounds m) c = Inr ()"
    and budget: "require_motion_budget (length (bodies w)) (limit_bodies (setup_motion_limits given)) = Inr ()"
    and sim: "sim_config sim = c" "sim_map sim = m" "sim_world sim = w" "sim_grid sim = g"
      "sim_limits sim = setup_motion_limits given"
    using assms unfolding simulation_create_def Let_def
    by (auto simp: try_then_Inr_iff split: if_split_asm)
  have "grid_config g = c \<and> grid_bounds g = map_bounds m"
    using grid unfolding spatial_grid_create_def try_then_Inr_iff split_beta by (elim exE conjE) auto
  then show ?thesis
    using grid bounds budget
    by (simp add: valid_simps sim grid_rebuilt_def committed_bodies_checked require_motion_budget_def
        fail_motion_def split: if_split_asm)
qed

text \<open>
  C2: a server only ever holds committed simulations: from creation on and after any number of steps, the
  index is a rebuild of the world, and every body fits its envelope and the body limit.
\<close>

theorem running_simulations_are_committed:
  assumes "running sim" shows "committed sim"
  using assms
proof induction
  case (created c w given sim)
  then show ?case by (rule created_committed)
next
  case (stepped sim checked batch sim' decided)
  obtain now w g moved where entry: "kernel_entry sim now batch = Inr (w, decided, g)"
    and exit: "kernel_exit checked sim now g moved = Inr sim'"
    using simulation_step_parts [OF stepped.hyps(2)] by blast
  show ?case
    using kernel_exit_committed(1) [OF exit kernel_entry_fitted [OF entry]] stepped.IH by (simp add: committed_def)
qed

section \<open>A quiet tick\<close>

text \<open>The engine's defaults over an empty world, and the tick an empty batch makes of it.\<close>

definition empty_grid :: spatial_grid where
  "empty_grid =
     \<lparr>grid_config = one_cell, grid_bounds = \<lparr>bounds_width = 4, bounds_height = 4\<rparr>, grid_cells = [[]], candidate_pairs = []\<rparr>"

definition quiet_simulation :: simulation where
  "quiet_simulation =
     \<lparr>sim_config = one_cell, sim_map = pillar_map, sim_world = world_empty [], sim_grid = empty_grid,
      sim_pipeline = \<lparr>staged_systems = [\<lparr>stage = kLifecycle, held = Some (match_lifecycle_system idle_objective)\<rparr>],
        stage_offsets = [0, 0, 0, 1]\<rparr>,
      sim_contacts = [variable_impulse_row, elastic_disc_row, reflect_static_row], sim_triggers = [],
      sim_limits = default_motion_limits, sim_spawn_policy = idle_spawn_policy, sim_mode_name = ''idle'',
      sim_accepted_kinds = mask_all_bits, sim_tick = tick_zero\<rparr>"

lemma empty_grid_created:
  "bodies w = [] \<Longrightarrow> spatial_grid_create one_cell \<lparr>bounds_width = 4, bounds_height = 4\<rparr> w = Inr empty_grid"
  by (simp add: spatial_grid_create_def checked_cell_count_def one_cell_def small_config_def empty_grid_def
      kMaximumSpatialGridCellCount_def validate_cell_extent_def positive_finite_def build_cells_def
      validate_candidate_observation_count_def member_counts_def observe_count_def build_candidate_pairs_def
      accumulator_create_def checked_pair_storage_count_def maximum_pair_count_def checked_bitset_byte_count_def
      size_maximum_def pairs_of_cell_def materialize_def)

lemma quiet_created:
  "simulation_create one_cell (world_empty []) (engine_defaults\<lparr>setup_map := Some pillar_map\<rparr>) = Inr quiet_simulation"
  by (simp add: simulation_create_def setup_conflicts_def engine_defaults_def validate_motion_limits_def
      default_motion_limits_def require_motion_budget_def world_empty_def project_contact_effect_policies_def
      map_of_setup_def declarations_of_setup_def built_in_table
      require_spawn_points_are_seatable_def pillar_map_def map_bounds_def square_arena_def
      require_committed_bodies_in_bounds_def with_appended_def pipeline_empty_def pipeline_create_def
      validate_declared_system_def match_lifecycle_system_def row_name_def kSystemStages_def kPreKernel_def
      kPostKernel_def kLifecycle_def quiet_simulation_def trigger_table_empty_def empty_grid_created)


definition empty_motion :: "world_event solve_result" where
  "empty_motion =
     \<lparr>solve_motion = \<lparr>result_bodies = [], result_paths = [], result_events = [],
        result_work = motion_work_none\<lparr>work_broad_phase_rebuilds := 1\<rparr>\<rparr>, solve_effects = [], solve_cursors = []\<rparr>"

lemma empty_solve:
  "solve_continuous_motion default_motion_limits seconds radius bounds [] [] respond [] = Some (Inr empty_motion)"
  by (simp add: solve_continuous_motion_def motion_start_loop_def solver_create_def solver_initial_def
      validate_motion_limits_def require_motion_budget_def default_motion_limits_def rebuild_def swept_boxes_def
      motion_rounds.simps motion_round_def next_geometry_event_def cached_events_def
      select_trigger_def finish_motion_def empty_motion_def motion_work_none_def)


definition quiet_next :: simulation where
  "quiet_next =
     quiet_simulation\<lparr>sim_world := (world_empty [])\<lparr>world_match := match_state_initial\<lparr>previous_phase := kLobby\<rparr>\<rparr>,
       sim_tick := Tick 1\<rparr>"

lemma quiet_enters: "kernel_entry quiet_simulation (Tick 1) input_batch_empty = Inr (world_empty [], [], empty_grid)"
  by (simp add: kernel_entry_def step_simps quiet_simulation_def input_batch_empty_def apply_input_batch_def
      open_tick_def world_empty_def clear_recorded_def store_map_values_def body_budget_def require_motion_budget_def
      indexed_bodies_equal_def reindexed_def seat_pending_entities_def entities_awaiting_a_body_def
      stage_is_declared_def systems_at_def kSystemStageCount_def kSystemStages_def kPreKernel_def
      apply_stage_def)

lemma quiet_moves: "motion_phase quiet_simulation (Tick 1) empty_grid (world_empty []) = Some (Inr (world_empty []))"
  by (simp add: motion_phase_def kernel_inputs_def quiet_simulation_def world_empty_def
      project_contact_effect_policies_def bind_triggers_def validate_motion_limits_def default_motion_limits_def
      require_motion_budget_def apply_stored_acceleration_and_drag_def empty_solve [unfolded default_motion_limits_def]
      apply_motion_result_def empty_motion_def store_create_def)

lemma empty_grid_rebuilt: "bodies w = [] \<Longrightarrow> grid_rebuilt empty_grid w = Inr empty_grid"
  by (simp add: grid_rebuilt_def empty_grid_def empty_grid_created [unfolded empty_grid_def])

lemma quiet_late:
  "late_phase quiet_simulation (Tick 1) empty_grid (world_empty []) = Inr (sim_world quiet_next, True)"
  by (simp add: late_phase_def quiet_simulation_def stage_is_declared_def systems_at_def kSystemStageCount_def
      kSystemStages_def kPreKernel_def kPostKernel_def kLifecycle_def apply_stage_def run_system_def
      match_lifecycle_system_def context_of_def idle_objective_def idle_can_start_def lifecycle_apply_def
      lifecycle_step_def world_empty_def match_state_initial_def set_match_def quiet_next_def)

lemma quiet_commits:
  "commit_phase False quiet_simulation (Tick 1) empty_grid True (indexed_bodies_of (world_empty []))
     (sim_world quiet_next) = Inr quiet_next"
  by (simp add: world_empty_def commit_phase_def apply_despawn_events_def
      despawned_def quiet_next_def quiet_simulation_def body_budget_def require_motion_budget_def
      project_contact_effect_policies_def require_committed_bodies_in_bounds_def still_indexes_def
      indexed_bodies_of_def reindexed_def close_tick_def List.map_filter_simps)

lemma quiet_leaves: "kernel_exit False quiet_simulation (Tick 1) empty_grid (world_empty []) = Inr quiet_next"
proof -
  have "grid_rebuilt empty_grid (world_empty []) = Inr empty_grid"
    by (rule empty_grid_rebuilt) (simp add: world_empty_def)
  then show ?thesis by (simp add: kernel_exit_def quiet_late quiet_commits)
qed

lemma quiet_steps: "simulation_step False quiet_simulation input_batch_empty = Some (Inr (quiet_next, []))"
proof -
  have "tick_next (sim_tick quiet_simulation) = Inr (Tick 1)"
    by (simp add: quiet_simulation_def tick_next_def tick_zero_def kMaximumTickValue_def
      kMaximumProtocolSafeInteger_def)
  then show ?thesis using quiet_enters quiet_moves quiet_leaves by (simp add: simulation_step_def)
qed

lemma quiet_committed: "committed quiet_simulation"
  by (rule created_committed [OF quiet_created])

theorem step_commits_a_publishable_world_witness:
  "committed quiet_next \<and> tick_next (sim_tick quiet_simulation) = Inr (sim_tick quiet_next) \<and>
   simulation_step True quiet_simulation input_batch_empty = Some (Inr (quiet_next, []))"
proof -
  have "fitted quiet_simulation (sim_grid quiet_simulation)" using quiet_committed by (simp add: committed_def)
  from step_commits_a_publishable_world [OF quiet_steps this] show ?thesis by simp
qed

theorem phases_read_a_current_index_witness:
  "\<exists>w1 g1. intake_phase quiet_simulation (Tick 1) input_batch_empty = Inr (w1, [], g1) \<and> indexes g1 w1"
  using phases_read_a_current_index [OF quiet_committed quiet_enters] by blast

theorem running_simulations_are_committed_witness:
  "committed quiet_next \<and> sim_tick quiet_next = Tick 1"
  using running_simulations_are_committed [OF running.stepped [OF running.created [OF quiet_created] quiet_steps]]
  by (simp add: quiet_next_def)

end
