(* ===== verification/Session_Calls.thy ===== *)
theory Session_Calls
  imports Command_Sink
begin

text \<open>
  Sessions opened and closed by many threads (src/src/runtime/command_sink.cpp): directory and mailbox have
  a lock each and no call holds both, so the calls of \<open>open_session\<close> and \<open>close_session\<close> that are under way
  interleave section by section, with each other and with everything else. The compare-and-exchange loop
  that draws an id is one atomic step, as the exchange that ends it is.
\<close>

section \<open>Calls under way\<close>

text \<open>How far a call has come: an id was drawn; the directory knows the controller; the mailbox refused it and
  the directory entry is to go; the exchange is retired and the directory entry is to go.\<close>

datatype call =
    Drawn controller_id string string
  | Presented controller_id
  | Refused controller_id
  | Resigned controller_id

primrec call_controller :: "call \<Rightarrow> controller_id" where
  "call_controller (Drawn c kind name) = c"
| "call_controller (Presented c) = c"
| "call_controller (Refused c) = c"
| "call_controller (Resigned c) = c"

text \<open>What the threads share, the calls under way, and the ids drawn and returned so far, in order.\<close>

record sessions =
  shared :: sink
  calls :: "call list"
  drawn_ids :: "controller_id list"
  returned_ids :: "controller_id list"

definition sessions_start :: "command_kind_mask \<Rightarrow> allocator \<Rightarrow> u64 \<Rightarrow> npc_catalogue \<Rightarrow> sessions" where
  "sessions_start accepted a first catalogue =
     \<lparr>shared = sink_create accepted a first catalogue, calls = [], drawn_ids = [], returned_ids = []\<rparr>"

text \<open>An operation that is no section of a session's call.\<close>

primrec outside_sessions :: "runtime_op \<Rightarrow> bool" where
  "outside_sessions DrawId = False"
| "outside_sessions (Present c kind name) = False"
| "outside_sessions (Admit c) = False"
| "outside_sessions (Withdraw c) = False"
| "outside_sessions (Resign c) = False"
| "outside_sessions (Send now c command) = True"
| "outside_sessions (SendLate now k command) = True"
| "outside_sessions TakeInput = True"
| "outside_sessions (Publish ds) = True"
| "outside_sessions (Deliver c covering) = True"

text \<open>One section of one call, or one other operation. A call that fails ends where it throws; a thread may
  close any controller id it names, also one that is not its own.\<close>

inductive session_step :: "sessions \<Rightarrow> sessions \<Rightarrow> bool" where
  draws: "is_valid_controller_kind kind \<Longrightarrow> is_valid_display_name name \<Longrightarrow>
     issue_controller_id (shared t) = (Inr c, s) \<Longrightarrow>
     session_step t (t\<lparr>shared := s, calls := Drawn c kind name # calls t, drawn_ids := drawn_ids t @ [c]\<rparr>)"
| draw_refused: "issue_controller_id (shared t) = (Inl e, s) \<Longrightarrow> session_step t (t\<lparr>shared := s\<rparr>)"
| presents: "calls t = xs @ Drawn c kind name # ys \<Longrightarrow> present c kind name (shared t) = (kRegistered, s) \<Longrightarrow>
     session_step t (t\<lparr>shared := s, calls := xs @ Presented c # ys\<rparr>)"
| presentation_refused: "calls t = xs @ Drawn c kind name # ys \<Longrightarrow> present c kind name (shared t) = (refusal, s) \<Longrightarrow>
     refusal \<noteq> kRegistered \<Longrightarrow> session_step t (t\<lparr>shared := s, calls := xs @ ys\<rparr>)"
| admits: "calls t = xs @ Presented c # ys \<Longrightarrow> admit c (shared t) = (True, s) \<Longrightarrow>
     session_step t (t\<lparr>shared := s, calls := xs @ ys, returned_ids := returned_ids t @ [c]\<rparr>)"
| admission_refused: "calls t = xs @ Presented c # ys \<Longrightarrow> admit c (shared t) = (False, s) \<Longrightarrow>
     session_step t (t\<lparr>shared := s, calls := xs @ Refused c # ys\<rparr>)"
| withdraws: "calls t = xs @ Refused c # ys \<Longrightarrow>
     session_step t (t\<lparr>shared := withdraw c (shared t), calls := xs @ ys\<rparr>)"
| resigns: "resign c (shared t) = (True, s) \<Longrightarrow>
     session_step t (t\<lparr>shared := s, calls := Resigned c # calls t\<rparr>)"
| resign_refused: "resign c (shared t) = (False, s) \<Longrightarrow> session_step t (t\<lparr>shared := s\<rparr>)"
| closes: "calls t = xs @ Resigned c # ys \<Longrightarrow>
     session_step t (t\<lparr>shared := withdraw c (shared t), calls := xs @ ys\<rparr>)"
| elsewhere: "outside_sessions op \<Longrightarrow> session_step t (t\<lparr>shared := runtime_apply op (shared t)\<rparr>)"

inductive_cases session_stepE: "session_step t t'"

section \<open>The sequential calls are their sections in a row\<close>

lemma open_session_is_its_sections:
  assumes "open_session kind name (shared t) = (Inr c, s)"
  shows "session_step\<^sup>*\<^sup>* t (t\<lparr>shared := s, drawn_ids := drawn_ids t @ [c], returned_ids := returned_ids t @ [c]\<rparr>)"
proof -
  have kind: "is_valid_controller_kind kind" "is_valid_display_name name"
    using assms by (auto simp: open_session_def split: if_split_asm)
  then obtain d s1 where drawn: "issue_controller_id (shared t) = (Inr d, s1)"
    and enrolled: "enrol d kind name s1 = (Inr c, s)"
    using assms by (auto simp: open_session_def split: prod.split_asm sum.split_asm)
  obtain r s2 where shown: "present d kind name s1 = (r, s2)" by (cases "present d kind name s1")
  obtain ok s3 where taken: "admit d s2 = (ok, s3)" by (cases "admit d s2")
  have ends: "r = kRegistered" "ok" "d = c" "s3 = s"
    using enrolled by (auto simp: enrol_def shown taken split: if_split_asm)
  note drawn = drawn [unfolded ends] and shown = shown [unfolded ends] and taken = taken [unfolded ends]
  define t1 where "t1 = t\<lparr>shared := s1, calls := Drawn c kind name # calls t, drawn_ids := drawn_ids t @ [c]\<rparr>"
  define t2 where "t2 = t1\<lparr>shared := s2, calls := [] @ Presented c # calls t\<rparr>"
  have "session_step t t1" unfolding t1_def by (rule draws [OF kind drawn])
  moreover have "session_step t1 t2"
    unfolding t2_def
  proof (rule presents)
    show "calls t1 = [] @ Drawn c kind name # calls t" by (simp add: t1_def)
    show "present c kind name (shared t1) = (kRegistered, s2)" using shown by (simp add: t1_def)
  qed
  moreover have "session_step t2 (t2\<lparr>shared := s, calls := [] @ calls t, returned_ids := returned_ids t2 @ [c]\<rparr>)"
    by (rule admits) (simp_all add: t2_def taken ends(2))
  ultimately have "session_step\<^sup>*\<^sup>* t (t2\<lparr>shared := s, calls := [] @ calls t, returned_ids := returned_ids t2 @ [c]\<rparr>)"
    by (meson rtranclp.rtrancl_into_rtrancl rtranclp.rtrancl_refl)
  moreover have "t2\<lparr>shared := s, calls := [] @ calls t, returned_ids := returned_ids t2 @ [c]\<rparr> =
      t\<lparr>shared := s, drawn_ids := drawn_ids t @ [c], returned_ids := returned_ids t @ [c]\<rparr>"
    by (cases t) (simp add: t2_def t1_def)
  ultimately show ?thesis by simp
qed

lemma close_session_is_its_sections:
  assumes "close_session c (shared t) = (kClosed, s)"
  shows "session_step\<^sup>*\<^sup>* t (t\<lparr>shared := s\<rparr>)"
proof -
  obtain s1 where retired: "resign c (shared t) = (True, s1)" and s: "s = withdraw c s1"
    using assms by (auto simp: close_session_def split: prod.split_asm if_split_asm)
  define t1 where "t1 = t\<lparr>shared := s1, calls := Resigned c # calls t\<rparr>"
  have "session_step t t1" unfolding t1_def by (rule resigns [OF retired])
  moreover have "session_step t1 (t1\<lparr>shared := withdraw c (shared t1), calls := [] @ calls t\<rparr>)"
    by (rule closes) (simp add: t1_def)
  ultimately have "session_step\<^sup>*\<^sup>* t (t1\<lparr>shared := withdraw c (shared t1), calls := [] @ calls t\<rparr>)" by simp
  then show ?thesis by (simp add: t1_def s)
qed

section \<open>The invariant\<close>

text \<open>A call that has put its controller into the directory or is about to take it out of it.\<close>

primrec listed :: "call \<Rightarrow> bool" where
  "listed (Drawn c kind name) = False"
| "listed (Presented c) = True"
| "listed (Refused c) = True"
| "listed (Resigned c) = True"

primrec call_opens :: "call \<Rightarrow> bool" where
  "call_opens (Drawn c kind name) = True"
| "call_opens (Presented c) = True"
| "call_opens (Refused c) = True"
| "call_opens (Resigned c) = False"

definition listed_by_calls :: "call list \<Rightarrow> controller_id set" where
  "listed_by_calls ks = call_controller ` set (filter listed ks)"

abbreviation present_controllers :: "sessions \<Rightarrow> controller_id set" where
  "present_controllers t \<equiv> open_controllers (sink_directory (shared t))"

abbreviation exchange_controllers :: "sessions \<Rightarrow> controller_id list" where
  "exchange_controllers t \<equiv> session_controllers (sink_mailbox (shared t))"

definition ids_in_order :: "u64 \<Rightarrow> sessions \<Rightarrow> bool" where
  "ids_in_order first t \<longleftrightarrow> 1 \<le> unat first \<and> unat first \<le> unat (next_controller_id (shared t)) \<and>
     unat (next_controller_id (shared t)) \<le> 9007199254740992 \<and> ascending (drawn_ids t) \<and>
     (\<forall>c\<in>set (drawn_ids t). unat first \<le> unat (controller_value c) \<and>
        unat (controller_value c) < unat (next_controller_id (shared t)))"

definition calls_apart :: "sessions \<Rightarrow> bool" where
  "calls_apart t \<longleftrightarrow> distinct (returned_ids t) \<and> set (returned_ids t) \<subseteq> set (drawn_ids t) \<and>
     distinct (map call_controller (calls t)) \<and> call_controller ` set (calls t) \<subseteq> set (drawn_ids t) \<and>
     set (exchange_controllers t) \<subseteq> set (returned_ids t) \<and>
     (\<forall>k\<in>set (calls t). call_controller k \<notin> set (exchange_controllers t)) \<and>
     (\<forall>k\<in>set (calls t). call_opens k \<longrightarrow> call_controller k \<notin> set (returned_ids t)) \<and>
     (\<forall>k\<in>set (calls t). \<forall>c. k \<noteq> Refused c)"

definition sessions_invariant :: "u64 \<Rightarrow> sessions \<Rightarrow> bool" where
  "sessions_invariant first t \<longleftrightarrow> valid_directory (sink_directory (shared t)) \<and>
     distinct (exchange_controllers t) \<and> ids_in_order first t \<and> calls_apart t \<and>
     present_controllers t = set (exchange_controllers t) \<union> listed_by_calls (calls t)"

lemmas invariant_parts = sessions_invariant_def ids_in_order_def calls_apart_def

lemma listed_by_calls_simps [simp]:
  "listed_by_calls [] = {}"
  "listed_by_calls (xs @ ys) = listed_by_calls xs \<union> listed_by_calls ys"
  "listed_by_calls (k # ks) = (if listed k then insert (call_controller k) (listed_by_calls ks) else listed_by_calls ks)"
  by (auto simp: listed_by_calls_def)

lemma listed_by_calls_subset: "listed_by_calls ks \<subseteq> call_controller ` set ks"
  by (auto simp: listed_by_calls_def)

lemma draw_step:
  assumes "ids_in_order first t" and "issue_controller_id (shared t) = (Inr c, s)"
  shows "s = (shared t)\<lparr>next_controller_id := next_controller_id (shared t) + 1\<rparr>"
    and "controller_value c = next_controller_id (shared t)"
    and "unat (next_controller_id s) = Suc (unat (next_controller_id (shared t)))"
    and "unat (next_controller_id s) \<le> 9007199254740992"
proof -
  have le: "\<not> next_controller_id (shared t) > kMaximumControllerId"
    and c: "controller_id_create (next_controller_id (shared t)) = Inr c"
    and s: "s = (shared t)\<lparr>next_controller_id := next_controller_id (shared t) + 1\<rparr>"
    using assms(2) by (auto simp: issue_controller_id_def Let_def split: if_splits sum.splits)
  show "s = (shared t)\<lparr>next_controller_id := next_controller_id (shared t) + 1\<rparr>" by (rule s)
  show "controller_value c = next_controller_id (shared t)"
    using c by (auto simp: controller_id_create_def split: if_splits)
  have le: "unat (next_controller_id (shared t)) \<le> 9007199254740991" using le by (simp add: u64_order)
  then show "unat (next_controller_id s) = Suc (unat (next_controller_id (shared t)))"
    by (simp add: s u64_add_unat)
  with le show "unat (next_controller_id s) \<le> 9007199254740992" by simp
qed

lemma draw_refused_keeps:
  assumes "ids_in_order first t" and "issue_controller_id (shared t) = (Inl e, s)" shows "s = shared t"
  using assms
  by (auto simp: issue_controller_id_def Let_def ids_in_order_def controller_id_create_def u64_order split: if_splits)

lemma outside_sessions_keeps:
  assumes "outside_sessions op"
  shows "sink_directory (runtime_apply op s) = sink_directory s"
    and "next_controller_id (runtime_apply op s) = next_controller_id s"
    and "session_controllers (sink_mailbox (runtime_apply op s)) = session_controllers (sink_mailbox s)"
proof -
  show "sink_directory (runtime_apply op s) = sink_directory s"
    "next_controller_id (runtime_apply op s) = next_controller_id s"
    using assms by (cases op; force simp: sink_submit_def on_mailbox_def take_input_def Let_def case_prod_beta
        split: option.splits sum.splits)+
  show "session_controllers (sink_mailbox (runtime_apply op s)) = session_controllers (sink_mailbox s)"
  proof (cases "mailbox_effect op s")
    case None
    then show ?thesis by (simp add: runtime_apply_mailbox)
  next
    case (Some m)
    have "\<And>c. m \<noteq> Register c" "\<And>c. m \<noteq> Retire c"
      using Some assms by (cases op; force split: if_splits)+
    with Some other_controllers [of m "sink_mailbox s"] show ?thesis by (simp add: runtime_apply_mailbox)
  qed
qed

lemma listed_controllers:
  "\<forall>c. Refused c \<notin> set ks \<Longrightarrow>
   listed_by_calls ks = {c. Presented c \<in> set ks \<or> Resigned c \<in> set ks}"
proof (induction ks)
  case (Cons k ks)
  then show ?case by (cases k) auto
qed simp

text \<open>The mailbox has room for every controller the directory accepted.\<close>

lemma admission_is_granted:
  assumes inv: "sessions_invariant first t" and "Presented c \<in> set (calls t)"
  shows "fst (admit c (shared t))"
proof -
  have apart: "\<forall>k\<in>set (calls t). call_controller k \<notin> set (exchange_controllers t)"
    and present: "present_controllers t = set (exchange_controllers t) \<union> listed_by_calls (calls t)"
    using inv by (simp_all add: sessions_invariant_def calls_apart_def)
  from apart have c: "c \<notin> set (exchange_controllers t)" using assms(2) by force
  have "c \<in> listed_by_calls (calls t)"
    using assms(2) unfolding listed_by_calls_def by (intro image_eqI [of _ _ "Presented c"]) simp_all
  then have listed: "c \<in> present_controllers t" unfolding present by blast
  have "insert c (set (exchange_controllers t)) \<subseteq> present_controllers t"
    using inv listed by (auto simp: sessions_invariant_def)
  then have "card (insert c (set (exchange_controllers t))) \<le> card (present_controllers t)"
    by (intro card_mono) (simp_all add: open_controllers_def)
  moreover have "card (insert c (set (exchange_controllers t))) = Suc (length (exchange_controllers t))"
    using c inv by (simp add: distinct_card sessions_invariant_def)
  moreover have "card (present_controllers t) \<le> kMaximumControllerDirectoryEntryCount"
    using inv card_image_le [of "set (sink_directory (shared t))" fst] card_length [of "sink_directory (shared t)"]
    by (simp add: open_controllers_def sessions_invariant_def valid_directory_def)
  ultimately have "length (exchange_controllers t) < kMaximumControllerDirectoryEntryCount" by simp
  then show ?thesis using c register_controllers(2) [of c "sink_mailbox (shared t)"] by (simp add: admit_def case_prod_beta)
qed

lemma present_step:
  assumes "present c kind name s = (r, s')" and "valid_directory (sink_directory s)"
  shows "sink_mailbox s' = sink_mailbox s" and "next_controller_id s' = next_controller_id s"
    and "valid_directory (sink_directory s')"
    and "open_controllers (sink_directory s') =
      (if r = kRegistered then insert c (open_controllers (sink_directory s)) else open_controllers (sink_directory s))"
proof -
  obtain d where d: "register_presentation c kind name (sink_directory s) = (r, d)"
    and s': "s' = s\<lparr>sink_directory := d\<rparr>"
    using assms(1) by (auto simp: present_def split: prod.splits)
  show "sink_mailbox s' = sink_mailbox s" "next_controller_id s' = next_controller_id s" by (simp_all add: s')
  show "valid_directory (sink_directory s')"
    "open_controllers (sink_directory s') =
      (if r = kRegistered then insert c (open_controllers (sink_directory s)) else open_controllers (sink_directory s))"
    using register_presentation_valid [OF assms(2) d] by (simp_all add: s')
qed

lemma withdraw_step:
  assumes "valid_directory (sink_directory s)"
  shows "valid_directory (sink_directory (withdraw c s))"
    and "open_controllers (sink_directory (withdraw c s)) = open_controllers (sink_directory s) - {c}"
proof -
  obtain r d where "directory_close c (sink_directory s) = (r, d)" by (cases "directory_close c (sink_directory s)")
  with directory_close_valid [OF assms this] show "valid_directory (sink_directory (withdraw c s))"
    "open_controllers (sink_directory (withdraw c s)) = open_controllers (sink_directory s) - {c}"
    by (simp_all add: withdraw_def)
qed

lemma admit_step:
  assumes "admit c s = (ok, s')"
  shows "sink_directory s' = sink_directory s" and "next_controller_id s' = next_controller_id s"
    and "session_controllers (sink_mailbox s') =
      (if ok then session_controllers (sink_mailbox s) @ [c] else session_controllers (sink_mailbox s))"
    and "ok \<Longrightarrow> c \<notin> set (session_controllers (sink_mailbox s))"
  using assms register_controllers [of c "sink_mailbox s"]
  by (auto simp: admit_def case_prod_beta)

lemma resign_step:
  assumes "resign c s = (ok, s')" and "distinct (session_controllers (sink_mailbox s))"
  shows "sink_directory s' = sink_directory s" and "next_controller_id s' = next_controller_id s"
    and "distinct (session_controllers (sink_mailbox s'))"
    and "set (session_controllers (sink_mailbox s')) = set (session_controllers (sink_mailbox s)) - {c}"
    and "ok \<longleftrightarrow> c \<in> set (session_controllers (sink_mailbox s))"
proof -
  have s': "s' = s\<lparr>sink_mailbox := snd (retire_exchange c (sink_mailbox s))\<rparr>"
    and ok: "ok = fst (retire_exchange c (sink_mailbox s))"
    using assms(1) by (auto simp: resign_def case_prod_beta)
  show "sink_directory s' = sink_directory s" "next_controller_id s' = next_controller_id s" by (simp_all add: s')
  show "distinct (session_controllers (sink_mailbox s'))"
    "set (session_controllers (sink_mailbox s')) = set (session_controllers (sink_mailbox s)) - {c}"
    using assms(2) by (simp_all add: s' retire_controllers set_remove1_eq)
  show "ok \<longleftrightarrow> c \<in> set (session_controllers (sink_mailbox s))"
    by (simp add: ok retire_exchange_def session_controllers_def find_exchange_None)
qed

lemma sessions_invariant_step:
  assumes inv: "sessions_invariant first t" and "session_step t t'"
  shows "sessions_invariant first t'"
  using assms(2)
proof cases
  case (draws kind name c s)
  have ids: "ids_in_order first t" using inv by (simp add: sessions_invariant_def)
  note d = draw_step [OF ids draws(4)]
  have below: "\<forall>x\<in>set (drawn_ids t). unat first \<le> unat (controller_value x) \<and>
      unat (controller_value x) < unat (controller_value c)" and first: "unat first \<le> unat (controller_value c)"
    using ids d(2) by (simp_all add: ids_in_order_def)
  then have fresh: "c \<notin> set (drawn_ids t)" by blast
  have "ids_in_order first t'"
    using ids below first d(2-4)
    by (auto simp: draws(1) ids_in_order_def sorted_wrt_append less_controller_id_def word_less_nat_alt)
  moreover have "calls_apart t'" using inv fresh by (auto simp: draws(1) d(1) sessions_invariant_def calls_apart_def)
  ultimately show ?thesis using inv by (simp add: draws(1) d(1) sessions_invariant_def)
next
  case (draw_refused e s)
  with inv draw_refused_keeps [of first t e s] show ?thesis by (simp add: sessions_invariant_def)
next
  case (presents xs c kind name ys s)
  with inv present_step [OF presents(3)] show ?thesis by (auto simp: invariant_parts)
next
  case (presentation_refused xs c kind name ys refusal s)
  with inv present_step [OF presentation_refused(3)] show ?thesis by (auto simp: invariant_parts)
next
  case (admits xs c ys s)
  with inv admit_step [OF admits(3)] show ?thesis by (auto simp: invariant_parts)
next
  case (admission_refused xs c ys s)
  with admission_is_granted [OF inv, of c] show ?thesis by simp
next
  case (withdraws xs c ys)
  with inv show ?thesis by (auto simp: invariant_parts)
next
  case (resigns c s)
  with inv resign_step [OF resigns(2)] show ?thesis by (auto simp: invariant_parts)
next
  case (resign_refused c s)
  with inv resign_step [OF resign_refused(2)] show ?thesis by (auto simp: invariant_parts)
next
  case (closes xs c ys)
  with inv withdraw_step [of "shared t" c] show ?thesis by (auto simp: invariant_parts listed_by_calls_def)
next
  case (elsewhere op)
  with inv outside_sessions_keeps [OF elsewhere(2), of "shared t"] show ?thesis by (simp add: invariant_parts)
qed

lemma sessions_invariant_start:
  assumes "1 \<le> unat first" and "unat first \<le> 9007199254740992"
  shows "sessions_invariant first (sessions_start accepted a first catalogue)"
  using assms
  by (simp add: invariant_parts sessions_start_def sink_create_def valid_directory_def open_controllers_def
      session_controllers_def mailbox_create_def)

text \<open>
  C19: Sessions are never confused, however the calls of any number of threads interleave. In every state
  the sections of opening and closing calls and all other operations can reach: the controller ids drawn
  are strictly ascending from the first one, and none is returned to two callers; every tuning exchange of
  the mailbox belongs to a returned id and has a presentation in the directory; the presentations without
  an exchange are exactly those of the calls between their two sections, an opening call on its way to
  the mailbox or a closing one on its way to the directory, so with no call under way the two agree; the
  directory stays within its bound; and the mailbox never refuses a controller that the directory accepted.
\<close>

theorem sessions_are_never_confused:
  assumes "1 \<le> unat first" and "unat first \<le> 9007199254740992"
    and "session_step\<^sup>*\<^sup>* (sessions_start accepted a first catalogue) t"
  defines "present_now \<equiv> open_controllers (sink_directory (shared t))"
    and "exchanging_now \<equiv> set (session_controllers (sink_mailbox (shared t)))"
  shows "ascending (drawn_ids t) \<and> (\<forall>c\<in>set (drawn_ids t). first \<le> controller_value c) \<and>
    distinct (returned_ids t) \<and> set (returned_ids t) \<subseteq> set (drawn_ids t) \<and>
    exchanging_now \<subseteq> set (returned_ids t) \<and> exchanging_now \<subseteq> present_now \<and>
    present_now - exchanging_now = {c. Presented c \<in> set (calls t) \<or> Resigned c \<in> set (calls t)} \<and>
    (calls t = [] \<longrightarrow> present_now = exchanging_now) \<and>
    length (sink_directory (shared t)) \<le> kMaximumControllerDirectoryEntryCount \<and>
    (\<forall>c. Refused c \<notin> set (calls t))"
proof -
  have "sessions_invariant first t"
    using assms(3)
    by (induction rule: rtranclp_induct) (use sessions_invariant_start [OF assms(1,2)] sessions_invariant_step in blast)+
  then have inv: "ids_in_order first t" "calls_apart t" "valid_directory (sink_directory (shared t))"
    and present: "present_now = exchanging_now \<union> listed_by_calls (calls t)"
    by (simp_all add: sessions_invariant_def present_now_def exchanging_now_def)
  have refused: "\<forall>c. Refused c \<notin> set (calls t)" using inv(2) unfolding calls_apart_def by blast
  have listed: "listed_by_calls (calls t) = {c. Presented c \<in> set (calls t) \<or> Resigned c \<in> set (calls t)}"
    using refused listed_controllers by simp
  have "exchanging_now \<inter> listed_by_calls (calls t) = {}"
    using inv(2) by (auto simp: calls_apart_def listed_by_calls_def exchanging_now_def)
  with present have "present_now - exchanging_now = listed_by_calls (calls t)" by blast
  moreover have "ascending (drawn_ids t)" "\<forall>c\<in>set (drawn_ids t). first \<le> controller_value c"
    using inv(1) by (simp_all add: ids_in_order_def word_le_nat_alt)
  moreover have "distinct (returned_ids t)" "set (returned_ids t) \<subseteq> set (drawn_ids t)"
    "exchanging_now \<subseteq> set (returned_ids t)"
    using inv(2) by (simp_all add: calls_apart_def exchanging_now_def)
  moreover have "length (sink_directory (shared t)) \<le> kMaximumControllerDirectoryEntryCount"
    using inv(3) by (simp add: valid_directory_def)
  ultimately show ?thesis using present refused listed by auto
qed

section \<open>A run\<close>

text \<open>Two sessions are opened; the first is being closed, its exchange already retired.\<close>

theorem sessions_are_never_confused_witness:
  "\<exists>t. session_step\<^sup>*\<^sup>* (sessions_start mask_all_bits \<lparr>first_issuable = 10, next_entity_id = 10\<rparr> 5 npc_catalogue_empty) t \<and>
    drawn_ids t = [ControllerId 5, ControllerId 6] \<and> calls t = [Resigned (ControllerId 5)] \<and>
    session_controllers (sink_mailbox (shared t)) = [ControllerId 6] \<and>
    open_controllers (sink_directory (shared t)) = {ControllerId 5, ControllerId 6} \<and>
    open_controllers (sink_directory (shared t)) - {ControllerId 6} =
      {c. Presented c \<in> set (calls t) \<or> Resigned c \<in> set (calls t)}"
proof -
  define t0 where "t0 = sessions_start mask_all_bits \<lparr>first_issuable = 10, next_entity_id = 10\<rparr> 5 npc_catalogue_empty"
  define s1 where "s1 = snd (open_session ''human'' ''ada'' (shared t0))"
  define s2 where "s2 = snd (open_session ''human'' ''bob'' s1)"
  define s3 where "s3 = snd (resign (ControllerId 5) s2)"
  note defs = sink_defs open_session_def enrol_def sessions_start_def t0_def
  have open1: "open_session ''human'' ''ada'' (shared t0) = (Inr (ControllerId 5), s1)"
    unfolding s1_def by (simp add: defs)
  have open2: "open_session ''human'' ''bob'' s1 = (Inr (ControllerId 6), s2)"
    unfolding s2_def s1_def by (simp add: defs)
  have retired: "resign (ControllerId 5) s2 = (True, s3)"
    unfolding s3_def s2_def s1_def by (simp add: defs)
  define t1 where "t1 = t0\<lparr>shared := s1, drawn_ids := drawn_ids t0 @ [ControllerId 5], returned_ids := returned_ids t0 @ [ControllerId 5]\<rparr>"
  define t2 where "t2 = t1\<lparr>shared := s2, drawn_ids := drawn_ids t1 @ [ControllerId 6], returned_ids := returned_ids t1 @ [ControllerId 6]\<rparr>"
  define t3 where "t3 = t2\<lparr>shared := s3, calls := Resigned (ControllerId 5) # calls t2\<rparr>"
  have "session_step\<^sup>*\<^sup>* t0 t1" unfolding t1_def by (rule open_session_is_its_sections [OF open1])
  moreover have "session_step\<^sup>*\<^sup>* t1 t2"
    unfolding t2_def
    by (rule open_session_is_its_sections [where kind = "''human''" and name = "''bob''"]) (simp add: t1_def open2)
  moreover have "session_step t2 t3" unfolding t3_def by (rule resigns) (simp add: t2_def retired)
  ultimately have run: "session_step\<^sup>*\<^sup>* t0 t3" by simp
  have "session_controllers (sink_mailbox (shared t3)) = [ControllerId 6]"
    and "calls t3 = [Resigned (ControllerId 5)]" and "drawn_ids t3 = [ControllerId 5, ControllerId 6]"
    and "open_controllers (sink_directory (shared t3)) = {ControllerId 5, ControllerId 6}"
    by (auto simp: t3_def t2_def t1_def s3_def s2_def s1_def defs session_controllers_def open_controllers_def)
  with sessions_are_never_confused [OF _ _ run [unfolded t0_def]] run [unfolded t0_def] show ?thesis by auto
qed

end
