(* ===== verification/Locomotion.thy ===== *)
theory Locomotion
  imports Status_Effects Physics Nextafter
begin

text \<open>
  Locomotion (src/src/gameplay/shared/locomotion.cpp) and the steering system
  (src/src/gameplay/shared/thrust_steering_system.cpp): a thrust becomes an acceleration that never
  carries a body beyond the tuned top speed by its own propulsion, a brake takes speed off. Arithmetic is
  binary64; \<open>std::hypot\<close>, which the brake calls, is the parameter \<open>hypot\<close>.
\<close>

section \<open>Directions and intents\<close>

definition kMaximumLocomotionRoundingStepCount :: nat where
  "kMaximumLocomotionRoundingStepCount = 8"

definition precision_lost :: "'a system_result" where
  "precision_lost = Inl (Gameplay kLocomotionPrecisionLost ''locomotion.normal_propulsion'')"

definition direction_magnitude :: "vector2 \<Rightarrow> double" where
  "direction_magnitude direction =
     fsqrt (fadd (fmul (fx direction) (fx direction)) (fmul (fy direction) (fy direction)))"

definition normalized_thrust_intent_of :: "vector2 \<Rightarrow> vector2 result" where
  "normalized_thrust_intent_of direction =
     (let magnitude = direction_magnitude direction;
          scale = (if fle magnitude (Finite 1) then Finite 1 else fdiv (Finite 1) magnitude)
      in vector_create (fmul (fx direction) scale) (fmul (fy direction) scale))"

definition unit_direction :: "vector2 \<Rightarrow> vector2 option result" where
  "unit_direction direction =
     (let magnitude = direction_magnitude direction in
      if \<not> is_finite magnitude \<or> feq magnitude (Finite 0) then Inr None
      else
        let unit_x = fdiv (fx direction) magnitude; unit_y = fdiv (fy direction) magnitude in
        if \<not> is_finite unit_x \<or> \<not> is_finite unit_y \<or>
           fless (Finite kMaximumPhysicalComponentMagnitude) (fabs unit_x) \<or>
           fless (Finite kMaximumPhysicalComponentMagnitude) (fabs unit_y)
        then Inr None
        else try_then (vector_create unit_x unit_y) (\<lambda>v. Inr (Some v)))"

definition thrust_acceleration_from_intent :: "vector2 \<Rightarrow> binary64 \<Rightarrow> vector2 result" where
  "thrust_acceleration_from_intent intent limit =
     vector_create (fmul (fx intent) (Finite limit)) (fmul (fy intent) (Finite limit))"

definition steered_acceleration :: "vector2 \<Rightarrow> binary64 \<Rightarrow> vector2 result" where
  "steered_acceleration direction limit =
     try_then (normalized_thrust_intent_of direction) (\<lambda>intent. thrust_acceleration_from_intent intent limit)"

section \<open>Limiting propulsion\<close>

text \<open>The inner loop scales the projected acceleration down until it meets both bounds; the outer loop
  shortens the endpoint it projects to. \<open>None\<close> is an inner loop that ran out of steps.\<close>

fun magnitude_steps ::
  "nat \<Rightarrow> vector2 \<Rightarrow> vector2 \<Rightarrow> double \<Rightarrow> double \<Rightarrow> double \<Rightarrow> vector2 option system_result" where
  "magnitude_steps 0 velocity projected requested_squared bound_squared scale = Inr None"
| "magnitude_steps (Suc n) velocity projected requested_squared bound_squared scale =
     try_then (if feq scale (Finite 1) then Inr projected else raised (vector_scale projected scale)) (\<lambda>candidate.
       if candidate = zero_vector then precision_lost
       else try_then (raised (integrate_accelerated_velocity velocity candidate)) (\<lambda>endpoint.
         if endpoint = velocity then precision_lost
         else if fle (vector_dot candidate candidate) requested_squared \<and>
                 fle (vector_dot endpoint endpoint) bound_squared
         then Inr (Some candidate)
         else magnitude_steps n velocity projected requested_squared bound_squared (nextafter scale (Finite 0))))"

fun radial_steps ::
  "nat \<Rightarrow> vector2 \<Rightarrow> vector2 \<Rightarrow> double \<Rightarrow> double \<Rightarrow> vector2 option \<Rightarrow> double \<Rightarrow> vector2 system_result" where
  "radial_steps 0 velocity requested_endpoint requested_squared bound_squared first_target scale = precision_lost"
| "radial_steps (Suc n) velocity requested_endpoint requested_squared bound_squared first_target scale =
     try_then (case first_target of
         Some aim \<Rightarrow> Inr aim
       | None \<Rightarrow> raised (vector_scale requested_endpoint scale)) (\<lambda>aim.
     try_then (raised (vector_subtract aim velocity)) (\<lambda>gap.
     try_then (raised (vector_divide gap kFixedDeltaSeconds)) (\<lambda>projected.
       let projected_squared = vector_dot projected projected;
           acceleration_scale =
             (if fless requested_squared projected_squared
              then fmin (Finite 1) (fdiv (fsqrt requested_squared) (fsqrt projected_squared))
              else Finite 1)
       in try_then (magnitude_steps (Suc kMaximumLocomotionRoundingStepCount) velocity projected requested_squared
                      bound_squared acceleration_scale) (\<lambda>found.
         case found of
           Some candidate \<Rightarrow> Inr candidate
         | None \<Rightarrow> radial_steps n velocity requested_endpoint requested_squared bound_squared None
                     (nextafter scale (Finite 0))))))"

definition propulsion_bound :: "vector2 \<Rightarrow> binary64 \<Rightarrow> double" where
  "propulsion_bound velocity limit =
     fmax (fmul (Finite limit) (Finite limit)) (vector_dot velocity velocity)"

definition limit_normal_propulsion :: "vector2 \<Rightarrow> vector2 \<Rightarrow> binary64 \<Rightarrow> vector2 system_result" where
  "limit_normal_propulsion velocity requested_acceleration top_speed =
     try_then (raised (movement_tuning_create (Some 0) (Some top_speed) (Some (3 / 4)) (Some 0) (Some 0))) (\<lambda>tuning.
     try_then (raised (integrate_accelerated_velocity velocity requested_acceleration)) (\<lambda>requested_endpoint.
       let bound_squared = propulsion_bound velocity (normal_top_speed tuning);
           endpoint_squared = vector_dot requested_endpoint requested_endpoint
       in if fle endpoint_squared bound_squared then Inr requested_acceleration
          else
            let requested_squared = vector_dot requested_acceleration requested_acceleration;
                scale = fdiv (fsqrt bound_squared) (fsqrt endpoint_squared)
            in try_then (raised (vector_scale requested_endpoint scale)) (\<lambda>first_target.
                 if first_target = velocity then Inr zero_vector
                 else radial_steps (Suc kMaximumLocomotionRoundingStepCount) velocity requested_endpoint
                        requested_squared bound_squared (Some first_target) scale)))"

section \<open>Braking\<close>

definition kBrakeDeceleration :: binary64 where "kBrakeDeceleration = 2400"

definition brake_fraction :: "double \<Rightarrow> double" where
  "brake_fraction speed =
     (let impulse = fmul (Finite kBrakeDeceleration) kFixedDeltaSeconds
      in if fle speed impulse then Finite 0 else fsub (Finite 1) (fdiv impulse speed))"

definition slowed_velocity :: "(double \<Rightarrow> double \<Rightarrow> double) \<Rightarrow> vector2 \<Rightarrow> vector2 result" where
  "slowed_velocity hypot velocity =
     (let fraction = brake_fraction (hypot (fx velocity) (fy velocity))
      in vector_create (fmul (fx velocity) fraction) (fmul (fy velocity) fraction))"

section \<open>The steering system\<close>

text \<open>The first thrust of the tick: its direction, the generation it was aimed at, and its brake.\<close>

fun recorded_thrust_of :: "command list \<Rightarrow> (vector2 \<times> tick option \<times> bool) option" where
  "recorded_thrust_of [] = None"
| "recorded_thrust_of (ThrustCommand addressed direction generation braking # commands) =
     Some (direction, generation, braking)"
| "recorded_thrust_of (command # commands) = recorded_thrust_of commands"

definition held_intent :: "controllable \<Rightarrow> (vector2 option \<times> bool) result" where
  "held_intent c =
     (case recorded_thrust_of (commands_this_tick c) of
        Some (direction, generation, braking) \<Rightarrow>
          if generation = input_generation c
          then try_then (normalized_thrust_intent_of direction) (\<lambda>intent. Inr (Some intent, braking))
          else Inr (normalized_thrust_intent c, braking_intent c)
      | None \<Rightarrow> Inr (normalized_thrust_intent c, braking_intent c))"

definition hold :: "entity_id \<Rightarrow> vector2 option \<Rightarrow> bool \<Rightarrow> game_world \<Rightarrow> game_world" where
  "hold e intent braking w =
     w\<lparr>controllables := store_modify e (\<lambda>c. c\<lparr>normalized_thrust_intent := intent, braking_intent := braking\<rparr>)
         (controllables w)\<rparr>"

definition assign_body :: "entity_id \<Rightarrow> physics_body \<Rightarrow> game_world \<Rightarrow> game_world result" where
  "assign_body e b w = try_then (insert_or_assign e b (bodies w)) (\<lambda>s. Inr (w\<lparr>bodies := s\<rparr>))"

definition brake_entity ::
  "(double \<Rightarrow> double \<Rightarrow> double) \<Rightarrow> tick \<Rightarrow> entity_id \<Rightarrow> physics_body \<Rightarrow> game_world \<Rightarrow> game_world result" where
  "brake_entity hypot now e b w =
     try_then (slowed_velocity hypot (body_velocity b)) (\<lambda>slowed.
     try_then (with_velocity slowed b) (\<lambda>b1.
     try_then (with_acceleration zero_vector b1) (\<lambda>b2.
     try_then (assign_body e b2 w) (cancel_charge now e))))"

definition propel_entity :: "entity_id \<Rightarrow> physics_body \<Rightarrow> vector2 \<Rightarrow> game_world \<Rightarrow> game_world system_result" where
  "propel_entity e b intent w =
     (let tuning = current_tuning (movement (world_match w)) in
      try_then (raised (thrust_acceleration_from_intent intent (acceleration_limit tuning))) (\<lambda>requested.
      try_then (limit_normal_propulsion (body_velocity b) requested (normal_top_speed tuning)) (\<lambda>acceleration.
      try_then (raised (with_acceleration acceleration b)) (\<lambda>b'.
        raised (assign_body e b' w)))))"

definition steer_entity ::
  "(double \<Rightarrow> double \<Rightarrow> double) \<Rightarrow> tick \<Rightarrow> entity_id \<times> controllable \<times> physics_body \<Rightarrow> game_world \<Rightarrow>
   game_world system_result" where
  "steer_entity hypot now joined w =
     (case joined of (e, c, b) \<Rightarrow>
       if input_is_locked w e now
       then raised (try_then (with_acceleration zero_vector b) (\<lambda>b'.
              assign_body e b' (hold e (Some zero_vector) False w)))
       else try_then (raised (held_intent c)) (\<lambda>(intent, braking).
         let held = hold e intent braking w in
         if braking \<and> \<not> is_static b then raised (brake_entity hypot now e b held)
         else case intent of None \<Rightarrow> Inr held | Some i \<Rightarrow> propel_entity e b i held))"

definition thrust_steering_apply ::
  "(double \<Rightarrow> double \<Rightarrow> double) \<Rightarrow> tick \<Rightarrow> game_world \<Rightarrow> game_world system_result" where
  "thrust_steering_apply hypot now w =
     try_fold (steer_entity hypot now) (entities_with_both (controllables w) (bodies w)) w"

section \<open>What the limit guarantees\<close>

definition propels_within :: "vector2 \<Rightarrow> vector2 \<Rightarrow> double \<Rightarrow> double \<Rightarrow> bool" where
  "propels_within velocity acceleration requested_squared bound_squared \<longleftrightarrow>
     fle (vector_dot acceleration acceleration) requested_squared \<and>
     (\<exists>endpoint. integrate_accelerated_velocity velocity acceleration = Inr endpoint \<and>
        fle (vector_dot endpoint endpoint) bound_squared)"

lemma magnitude_steps_within:
  "magnitude_steps n v p rq bound s = Inr (Some a) \<Longrightarrow> propels_within v a rq bound"
proof (induction n arbitrary: s)
  case (Suc n)
  from Suc.prems obtain candidate where
    "(if feq s (Finite 1) then Inr p else raised (vector_scale p s)) = Inr candidate"
    and "candidate \<noteq> zero_vector"
    and rest: "try_then (raised (integrate_accelerated_velocity v candidate)) (\<lambda>endpoint.
         if endpoint = v then precision_lost
         else if fle (vector_dot candidate candidate) rq \<and> fle (vector_dot endpoint endpoint) bound
         then Inr (Some candidate)
         else magnitude_steps n v p rq bound (nextafter s (Finite 0))) = Inr (Some a)"
    by (auto simp: try_then_Inr_iff precision_lost_def split: if_split_asm)
  from rest Suc.IH show ?case
    by (auto simp: try_then_Inr_iff precision_lost_def propels_within_def split: if_split_asm)
qed simp

lemma radial_steps_within:
  "radial_steps n v endpoint rq bound first s = Inr a \<Longrightarrow> propels_within v a rq bound"
proof (induction n arbitrary: first s)
  case (Suc n)
  from Suc.prems obtain found where
    steps: "\<exists>p scale. magnitude_steps (Suc kMaximumLocomotionRoundingStepCount) v p rq bound scale = Inr found"
    and rest: "(case found of Some candidate \<Rightarrow> Inr candidate
         | None \<Rightarrow> radial_steps n v endpoint rq bound None (nextafter s (Finite 0))) = Inr a"
    by (auto simp: try_then_Inr_iff Let_def simp del: magnitude_steps.simps)
  then show ?case
    using Suc.IH magnitude_steps_within by (cases found) (auto simp del: magnitude_steps.simps)
qed (simp add: precision_lost_def)

lemma dot_self_le: "fle (vector_dot a a) (vector_dot a a)"
proof -
  have square: "\<exists>y\<ge>0. to_double (x * x) = Finite y \<or> to_double (x * x) = Infinite True" for x :: rat
    using rounded_nonneg [of "x * x"] largest_finite_nonneg
    by (cases "x = 0") (auto simp: to_double_def mult_less_0_iff not_less zero_less_mult_iff
        simp del: largest_finite_nonneg)
  show ?thesis
    using square [of "vx a"] square [of "vy a"]
    by (auto simp: vector_dot_def fx_def fy_def to_double_def)
qed

lemma integrate_zero:
  assumes "valid_vector v" shows "integrate_accelerated_velocity v zero_vector = Inr v"
proof -
  have "to_double (vx v) = Finite (vx v)" "to_double (vy v) = Finite (vy v)"
    using assms valid_component_double [of "vx v"] valid_component_double [of "vy v"]
    by (auto simp: valid_vector_def intro!: to_double_representable)
  moreover have "\<bar>vx v\<bar> \<le> kMaximumPhysicalComponentMagnitude" "\<bar>vy v\<bar> \<le> kMaximumPhysicalComponentMagnitude"
    using assms by (simp_all add: valid_vector_def valid_component_def)
  ultimately show ?thesis
    by (simp add: integrate_accelerated_velocity_def fixed_delta zero_vector_def fx_def fy_def vector_create_def
        create_for_operation_Inr)
qed

lemma dot_zero: "fle (vector_dot zero_vector zero_vector) (vector_dot a a)"
proof -
  have "vector_dot zero_vector zero_vector = Finite 0"
    by (simp add: vector_dot_def zero_vector_def fx_def fy_def)
  moreover have "fle (Finite 0) (to_double x)" if "0 \<le> x" for x
    using that rounded_nonneg [of x] largest_finite_nonneg
    by (cases "x = 0") (auto simp: to_double_def simp del: largest_finite_nonneg)
  moreover have "fle (Finite 0) d \<Longrightarrow> fle (Finite 0) d' \<Longrightarrow> fle (Finite 0) (fadd d d')" for d d'
    using calculation(2) by (cases d; cases d') auto
  ultimately show ?thesis by (simp add: vector_dot_def fx_def fy_def)
qed

lemma le_fmax: "fle a a \<Longrightarrow> fle b b \<Longrightarrow> fle b (fmax a b)"
  by (cases a; cases b) (auto simp: fmax_def)

lemma square_reflexive: "fle (fmul (Finite x) (Finite x)) (fmul (Finite x) (Finite x))"
  by (simp add: to_double_def)

text \<open>
  A body's own propulsion never carries it beyond the tuned top speed. For every valid velocity
  and acceleration, an acceleration the limit returns, through whichever of its branches, is no greater than
  the requested one, and one integration step with it ends at a speed within the tuned top speed or the
  speed the body already had, whichever is greater, all compared in the squared binary64 magnitudes the
  code computes.
\<close>

theorem propulsion_respects_its_bounds:
  assumes "valid_vector velocity" and "limit_normal_propulsion velocity requested top_speed = Inr acceleration"
  shows "fle (vector_dot acceleration acceleration) (vector_dot requested requested) \<and>
    (\<exists>endpoint. integrate_accelerated_velocity velocity acceleration = Inr endpoint \<and>
       fle (vector_dot endpoint endpoint)
         (fmax (fmul (Finite top_speed) (Finite top_speed)) (vector_dot velocity velocity)))"
proof -
  obtain tuning endpoint where tuning: "movement_tuning_create (Some 0) (Some top_speed) (Some (3 / 4)) (Some 0) (Some 0) = Inr tuning"
    and endpoint: "integrate_accelerated_velocity velocity requested = Inr endpoint"
    using assms(2) by (auto simp: limit_normal_propulsion_def try_then_Inr_iff)
  have top: "normal_top_speed tuning = top_speed"
    using tuning by (auto simp: movement_tuning_create_def require_tuning_scalar_def split: if_split_asm)
  define bound where "bound = propulsion_bound velocity top_speed"
  have "propels_within velocity acceleration (vector_dot requested requested) bound"
  proof (cases "fle (vector_dot endpoint endpoint) bound")
    case True
    then have "acceleration = requested"
      using assms(2) tuning endpoint by (simp add: limit_normal_propulsion_def top bound_def)
    with True endpoint show ?thesis by (simp add: propels_within_def dot_self_le)
  next
    case False
    then obtain first scale where first: "(if first = velocity then Inr zero_vector
        else radial_steps (Suc kMaximumLocomotionRoundingStepCount) velocity endpoint
               (vector_dot requested requested) bound (Some first) scale) = Inr acceleration"
      using assms(2) tuning endpoint
      by (auto simp: limit_normal_propulsion_def top bound_def Let_def try_then_Inr_iff
          simp del: radial_steps.simps cong: if_cong)
    show ?thesis
    proof (cases "first = velocity")
      case True
      have "fle (vector_dot velocity velocity) bound"
        unfolding bound_def propulsion_bound_def by (intro le_fmax square_reflexive dot_self_le)
      then show ?thesis
        using True first integrate_zero [OF assms(1)] by (auto simp: propels_within_def dot_zero)
    next
      case False
      with first show ?thesis by (auto intro: radial_steps_within simp del: radial_steps.simps)
    qed
  qed
  then show ?thesis by (simp add: propels_within_def bound_def propulsion_bound_def)
qed

end
