(* ===== verification/Ability_System.thy ===== *)
theory Ability_System
  imports Locomotion
begin

text \<open>
  Shields and charges (src/src/gameplay/shared/ability_configuration.cpp, ability_system.cpp,
  duration_ticks.cpp): authored durations become ticks, and each tick the system drops what has run out and
  activates what the players pulsed. An activation that is not allowed is refused silently.
\<close>

section \<open>Durations\<close>

text \<open>\<open>std::round\<close>: the nearest integer, a tie away from zero.\<close>

definition std_round :: "double \<Rightarrow> double" where
  "std_round d =
     (case d of Finite x \<Rightarrow> Finite (of_int (if 0 \<le> x then \<lfloor>x + 1 / 2\<rfloor> else - \<lfloor>1 / 2 - x\<rfloor>)) | _ \<Rightarrow> d)"

definition whole_part :: "double \<Rightarrow> u64" where
  "whole_part d = (case d of Finite x \<Rightarrow> word_of_int \<lfloor>x\<rfloor> | _ \<Rightarrow> 0)"

definition duration_ticks :: "double \<Rightarrow> string \<Rightarrow> u64 system_result" where
  "duration_ticks seconds path =
     (if \<not> is_finite seconds then Inl (Gameplay kDurationNotFinite path)
      else if fless seconds (Finite 0) then Inl (Gameplay kDurationNegative path)
      else
        let ticks = std_round (fmul seconds (to_double (of_nat (unat kSimulationTicksPerSecond)))) in
        if fless (to_double (of_nat (unat kMaximumTickValue))) ticks then Inl (Gameplay kDurationTickOverflow path)
        else Inr (whole_part ticks))"

section \<open>Configuration\<close>

definition kMaximumNormalTopSpeed :: binary64 where "kMaximumNormalTopSpeed = 10000"

record ability_configuration =
  shield_duration_ticks :: u64
  shield_perfect_window_ticks :: u64
  shield_cooldown_ticks :: u64
  parry_stun_duration_ticks :: u64
  charge_cooldown_ticks :: u64
  authored_speed_fraction :: double
  charge_safety_envelope_speed :: double
  charge_active_duration_ticks :: u64
  charge_hit_stun_duration_ticks :: u64

definition abilities_key :: "string \<Rightarrow> string" where
  "abilities_key key = ''abilities.'' @ key"

definition require_positive_ticks :: "u64 \<Rightarrow> string \<Rightarrow> unit system_result" where
  "require_positive_ticks ticks key =
     (if ticks \<noteq> 0 then Inr () else Inl (Gameplay kAbilityDurationNotPositive (abilities_key key)))"

definition require_positive_finite_scalar :: "double \<Rightarrow> string \<Rightarrow> unit system_result" where
  "require_positive_finite_scalar value key =
     (if \<not> is_finite value then Inl (Gameplay kAbilityScalarNotFinite (abilities_key key))
      else if fle value (Finite 0) then Inl (Gameplay kAbilityScalarOutOfRange (abilities_key key))
      else Inr ())"

definition ability_configuration_create ::
  "double \<Rightarrow> double \<Rightarrow> double \<Rightarrow> double \<Rightarrow> double \<Rightarrow> double \<Rightarrow> double \<Rightarrow> double \<Rightarrow> double \<Rightarrow>
    ability_configuration system_result" where
  "ability_configuration_create shield_seconds perfect_seconds shield_cooldown_seconds parry_seconds
      charge_cooldown_seconds fraction envelope active_seconds hit_stun_seconds =
     try_then (duration_ticks shield_seconds (abilities_key ''shield_duration_seconds'')) (\<lambda>shield_duration.
     try_then (duration_ticks perfect_seconds (abilities_key ''shield_perfect_window_seconds'')) (\<lambda>perfect.
     try_then (duration_ticks shield_cooldown_seconds (abilities_key ''shield_cooldown_seconds'')) (\<lambda>shield_cooldown.
     try_then (duration_ticks parry_seconds (abilities_key ''parry_stun_duration_seconds'')) (\<lambda>parry.
     try_then (duration_ticks charge_cooldown_seconds (abilities_key ''charge_cooldown_seconds'')) (\<lambda>charge_cooldown.
     try_then (duration_ticks active_seconds (abilities_key ''charge_active_duration_seconds'')) (\<lambda>active.
     try_then (duration_ticks hit_stun_seconds (abilities_key ''charge_hit_stun_duration_seconds'')) (\<lambda>hit_stun.
     try_then (require_positive_ticks shield_duration ''shield_duration_seconds'') (\<lambda>_.
     try_then (require_positive_ticks perfect ''shield_perfect_window_seconds'') (\<lambda>_.
     try_then (require_positive_ticks parry ''parry_stun_duration_seconds'') (\<lambda>_.
     try_then (require_positive_ticks charge_cooldown ''charge_cooldown_seconds'') (\<lambda>_.
     try_then (require_positive_ticks active ''charge_active_duration_seconds'') (\<lambda>_.
     try_then (require_positive_ticks hit_stun ''charge_hit_stun_duration_seconds'') (\<lambda>_.
     try_then (require_positive_finite_scalar fraction ''charge_speed_fraction'') (\<lambda>_.
     try_then (require_positive_finite_scalar envelope ''charge_safety_envelope_speed'') (\<lambda>_.
       if fless (Finite kMaximumPhysicalComponentMagnitude) envelope
       then Inl (Gameplay kAbilityScalarOutOfRange (abilities_key ''charge_safety_envelope_speed''))
       else if perfect > shield_duration
       then Inl (Gameplay kAbilityPerfectWindowExceedsShield (abilities_key ''shield_perfect_window_seconds''))
       else if fless envelope (fmul fraction (Finite kMaximumNormalTopSpeed))
       then Inl (Gameplay kAbilityChargeBurstExceedsSafetyEnvelope (abilities_key ''charge_speed_fraction''))
       else Inr \<lparr>shield_duration_ticks = shield_duration, shield_perfect_window_ticks = perfect,
              shield_cooldown_ticks = shield_cooldown, parry_stun_duration_ticks = parry,
              charge_cooldown_ticks = charge_cooldown, authored_speed_fraction = fraction,
              charge_safety_envelope_speed = envelope, charge_active_duration_ticks = active,
              charge_hit_stun_duration_ticks = hit_stun\<rparr>)))))))))))))))"

definition ability_defaults :: "ability_configuration system_result" where
  "ability_defaults =
     ability_configuration_create (to_double (4 / 10)) (to_double (8 / 100)) (to_double (9 / 10))
       (to_double (6 / 10)) (to_double (12 / 10)) (to_double (75 / 100)) (Finite 20000) (to_double (5 / 10))
       (to_double (6 / 10))"

section \<open>Pulses\<close>

text \<open>The first pulse of each kind that the tick recorded: its generation, and a charge's direction.\<close>

fun recorded_shield_of :: "command list \<Rightarrow> tick option option" where
  "recorded_shield_of [] = None"
| "recorded_shield_of (ShieldCommand addressed generation # commands) = Some generation"
| "recorded_shield_of (command # commands) = recorded_shield_of commands"

fun recorded_charge_of :: "command list \<Rightarrow> (vector2 \<times> tick option) option" where
  "recorded_charge_of [] = None"
| "recorded_charge_of (ChargeCommand addressed direction generation # commands) = Some (direction, generation)"
| "recorded_charge_of (command # commands) = recorded_charge_of commands"

definition charged_velocity :: "vector2 \<Rightarrow> vector2 \<Rightarrow> double \<Rightarrow> double \<Rightarrow> vector2 option result" where
  "charged_velocity velocity direction burst_speed envelope =
     try_then (unit_direction direction) (\<lambda>found.
       case found of
         None \<Rightarrow> Inr None
       | Some u \<Rightarrow>
           let next_x = fadd (fx velocity) (fmul (fx u) burst_speed);
               next_y = fadd (fy velocity) (fmul (fy u) burst_speed)
           in if \<not> is_finite next_x \<or> \<not> is_finite next_y then Inr None
              else if fless envelope (fsqrt (fadd (fmul next_x next_x) (fmul next_y next_y))) then Inr None
              else try_then (vector_create next_x next_y) (\<lambda>v. Inr (Some v)))"

section \<open>The system\<close>

definition erase_expired_shields :: "tick \<Rightarrow> game_world \<Rightarrow> game_world" where
  "erase_expired_shields now w =
     w\<lparr>shields := fold store_erase
        (map fst (filter (\<lambda>(e, sh). window_expired (shield_window sh) now \<and> window_expired (shield_cooldown_window sh) now)
           (shields w))) (shields w)\<rparr>"

definition erase_expired_charges :: "tick \<Rightarrow> game_world \<Rightarrow> game_world" where
  "erase_expired_charges now w =
     w\<lparr>charges := fold store_erase
        (map fst (filter (\<lambda>(e, ch). window_expired (charge_cooldown_window ch) now \<and> window_expired (charge_active_window ch) now)
           (charges w))) (charges w)\<rparr>"

definition raise_shield :: "ability_configuration \<Rightarrow> tick \<Rightarrow> entity_id \<Rightarrow> game_world \<Rightarrow> game_world result" where
  "raise_shield c now e w =
     try_then (shield_activate now (shield_duration_ticks c) (shield_perfect_window_ticks c)
                 (shield_cooldown_ticks c) (parry_stun_duration_ticks c)) (\<lambda>sh.
     try_then (insert_or_assign e sh (shields w)) (\<lambda>s. Inr (w\<lparr>shields := s\<rparr>)))"

definition launch_charge ::
  "ability_configuration \<Rightarrow> tick \<Rightarrow> entity_id \<Rightarrow> physics_body \<Rightarrow> vector2 \<Rightarrow> game_world \<Rightarrow> game_world result" where
  "launch_charge c now e b velocity w =
     try_then (charge_activate now (charge_cooldown_ticks c) (charge_active_duration_ticks c)
                 (charge_hit_stun_duration_ticks c)) (\<lambda>ch.
     try_then (insert_or_assign e ch (charges w)) (\<lambda>s.
     try_then (with_velocity velocity b) (\<lambda>b'.
       assign_body e b' (w\<lparr>charges := s\<rparr>))))"

definition ability_gates :: "tick \<Rightarrow> entity_id \<Rightarrow> controllable \<Rightarrow> physics_body \<Rightarrow> game_world \<Rightarrow> bool" where
  "ability_gates now e c b w \<longleftrightarrow>
     \<not> (recorded_shield_of (commands_this_tick c) = None \<and> recorded_charge_of (commands_this_tick c) = None) \<and>
     phase (world_match w) = kRunning \<and> now \<noteq> tick_zero \<and> \<not> is_static b \<and> \<not> input_is_locked w e now"

text \<open>Every answer is read before any is written; a shield wins over a charge of the same tick.\<close>

definition activate ::
  "ability_configuration \<Rightarrow> tick \<Rightarrow> entity_id \<times> controllable \<times> physics_body \<Rightarrow> game_world \<Rightarrow> game_world result" where
  "activate cfg now joined w =
     (case joined of (e, c, b) \<Rightarrow>
       if \<not> ability_gates now e c b w then Inr w
       else
         let sh = store_find (shields w) e; ch = store_find (charges w) e;
             tuning = current_tuning (movement (world_match w));
             protected = (case sh of None \<Rightarrow> False | Some s \<Rightarrow> window_contains (shield_window s) now);
             shield_cooling = (case sh of None \<Rightarrow> False | Some s \<Rightarrow> \<not> window_expired (shield_cooldown_window s) now);
             charge_cooling = (case ch of None \<Rightarrow> False | Some x \<Rightarrow> \<not> window_expired (charge_cooldown_window x) now);
             shield_eligible = (recorded_shield_of (commands_this_tick c) = Some (input_generation c) \<and>
               \<not> protected \<and> \<not> shield_cooling)
         in
         try_then
           (case recorded_charge_of (commands_this_tick c) of
              None \<Rightarrow> Inr None
            | Some (direction, generation) \<Rightarrow>
                if generation = input_generation c \<and> \<not> protected \<and> \<not> charge_cooling \<and> \<not> braking_intent c \<and>
                   charge_speed_fraction tuning > 0
                then charged_velocity (body_velocity b) direction
                       (fmul (Finite (charge_speed_fraction tuning)) (Finite (normal_top_speed tuning)))
                       (charge_safety_envelope_speed cfg)
                else Inr None) (\<lambda>committed.
         try_then (if shield_eligible then raise_shield cfg now e w else Inr w) (\<lambda>w.
           case committed of
             None \<Rightarrow> Inr w
           | Some velocity \<Rightarrow> if shield_eligible then Inr w else launch_charge cfg now e b velocity w)))"

definition ability_apply :: "ability_configuration \<Rightarrow> tick \<Rightarrow> game_world \<Rightarrow> game_world result" where
  "ability_apply cfg now w =
     (let w = erase_expired_charges now (erase_expired_shields now w)
      in try_fold (activate cfg now) (entities_with_both (controllables w) (bodies w)) w)"

end
