(* ===== verification/Sandbox_Mode.thy ===== *)
theory Sandbox_Mode
  imports Ability_System Game_Simulation
begin

text \<open>
  The sandbox (src/src/gameplay/sandbox/sandbox_mode.cpp, sandbox_mode.hpp, sandbox_configuration.hpp,
  free_play_objective.hpp): a shipped mode with all of its declarations, as a value of \<open>game_mode\<close> that
  \<open>simulation_create\<close> accepts. Each of its systems leaves the match alone; what the machine makes of that
  is in \<open>Match_Runs\<close>.
\<close>

section \<open>The systems\<close>

definition thrust_steering_system :: "(double \<Rightarrow> double \<Rightarrow> double) \<Rightarrow> tick_system simulation_system" where
  "thrust_steering_system hypot =
     \<lparr>system_name = ''thrust_steering'',
      system_apply = (\<lambda>w context. thrust_steering_apply hypot (context_tick context) w)\<rparr>"

definition ability_system :: "ability_configuration \<Rightarrow> tick_system simulation_system" where
  "ability_system abilities =
     \<lparr>system_name = ''ability'', system_apply = (\<lambda>w context. raised (ability_apply abilities (context_tick context) w))\<rparr>"

definition velocity_rotation_system :: "tick_system simulation_system" where
  "velocity_rotation_system =
     \<lparr>system_name = ''velocity_rotation'',
      system_apply = (\<lambda>w context. Inr (velocity_rotation_apply (context_tick context) w))\<rparr>"

definition charge_contact_system :: "tick_system simulation_system" where
  "charge_contact_system =
     \<lparr>system_name = ''charge_contact'',
      system_apply = (\<lambda>w context. raised (charge_contact_apply (context_tick context) w))\<rparr>"

definition status_system :: "tick_system simulation_system" where
  "status_system = \<lparr>system_name = ''status'', system_apply = (\<lambda>w context. status_apply (context_tick context) w)\<rparr>"

definition respawn_system :: "u64 \<Rightarrow> tick_system simulation_system" where
  "respawn_system delay = \<lparr>system_name = ''respawn'', system_apply = (\<lambda>w context. raised (respawn_apply delay w))\<rparr>"

section \<open>The mode\<close>

definition sandbox_configuration_create :: "double \<Rightarrow> u64 system_result" where
  "sandbox_configuration_create respawn_delay_seconds =
     duration_ticks respawn_delay_seconds ''sandbox.respawn_delay_seconds''"

definition sandbox_rows ::
  "(double \<Rightarrow> double \<Rightarrow> double) \<Rightarrow> u64 \<Rightarrow> ability_configuration \<Rightarrow> tick_system staged_system list" where
  "sandbox_rows hypot respawn_delay abilities =
     [\<lparr>stage = kPreKernel, held = Some (thrust_steering_system hypot)\<rparr>,
      \<lparr>stage = kPreKernel, held = Some (ability_system abilities)\<rparr>,
      \<lparr>stage = kPreKernel, held = Some velocity_rotation_system\<rparr>,
      \<lparr>stage = kPostKernel, held = Some charge_contact_system\<rparr>,
      \<lparr>stage = kPostKernel, held = Some status_system\<rparr>,
      \<lparr>stage = kLifecycle, held = Some (respawn_system respawn_delay)\<rparr>]"

definition sandbox_systems ::
  "(double \<Rightarrow> double \<Rightarrow> double) \<Rightarrow> u64 \<Rightarrow> ability_configuration \<Rightarrow> tick_system system_pipeline system_result" where
  "sandbox_systems hypot respawn_delay abilities = raised (pipeline_create (sandbox_rows hypot respawn_delay abilities))"

definition sandbox_contact_rules :: "contact_table system_result" where
  "sandbox_contact_rules = raised (try_then guarded_pair_contact_rule (\<lambda>row. with_rows_above_built_in [row]))"

definition sandbox_motion_triggers :: "trigger_table system_result" where
  "sandbox_motion_triggers =
     raised (trigger_table_create
       [\<lparr>declared_base = 0, declared_limit = 0, declared_policy = Some (support_loss_trigger kAlways)\<rparr>])"

definition sandbox_command_kinds :: command_kind_mask where
  "sandbox_command_kinds = mask_create [kSpawn, kDespawn, kLeave, kThrust, kShield, kCharge, kRotateVelocity]"

definition free_play_objective :: match_objective where
  "free_play_objective =
     \<lparr>objective_can_start = free_play_can_start, objective_outcome = free_play_outcome,
      objective_durations = no_durations\<rparr>"

definition sandbox_validate_map :: "map_definition \<Rightarrow> unit system_result" where
  "sandbox_validate_map m =
     (if spawn_points m \<noteq> [] then Inr ()
      else Inl (Gameplay kSandboxMapWithoutSpawnPoint ''sandbox_mode.validate_map.spawn_points''))"

definition sandbox_mode :: "(double \<Rightarrow> double \<Rightarrow> double) \<Rightarrow> u64 \<Rightarrow> ability_configuration \<Rightarrow> game_mode" where
  "sandbox_mode hypot respawn_delay abilities =
     \<lparr>mode_name = ''sandbox'',
      mode_validate_map = (\<lambda>m. try_then (sandbox_validate_map m) (\<lambda>_.
        Inr \<lparr>mode_systems = sandbox_systems hypot respawn_delay abilities,
             mode_contact_rules = sandbox_contact_rules, mode_motion_triggers = sandbox_motion_triggers,
             mode_accepted_kinds = sandbox_command_kinds, mode_spawn_policy = next_free_spawn_point_policy,
             mode_objective = free_play_objective\<rparr>))\<rparr>"

section \<open>No system of the mode writes the match\<close>

named_theorems match_frame

lemma try_fold_match:
  assumes "try_fold f xs w = Inr w'" and "\<And>x u u'. f x u = Inr u' \<Longrightarrow> world_match u' = world_match u"
  shows "world_match w' = world_match w"
  by (rule try_fold_invariant [OF assms(1), where P = "\<lambda>u. world_match u = world_match w"])
    (use assms(2) in auto)

lemma fold_match:
  "(\<And>x u. world_match (f x u) = world_match u) \<Longrightarrow> world_match (fold f xs w) = world_match w"
  by (induction xs arbitrary: w) simp_all

lemma assign_body_match [match_frame]: "assign_body e b w = Inr w' \<Longrightarrow> world_match w' = world_match w"
  by (auto simp: assign_body_def try_then_Inr_iff)

lemma hold_match [simp]: "world_match (hold e intent braking w) = world_match w"
  by (simp add: hold_def)

lemma cancel_charge_match [match_frame]: "cancel_charge now e w = Inr w' \<Longrightarrow> world_match w' = world_match w"
  by (auto simp: cancel_charge_def try_then_Inr_iff split: option.splits)

lemma cancel_shield_match [match_frame]: "cancel_shield now e w = Inr w' \<Longrightarrow> world_match w' = world_match w"
  by (auto simp: cancel_shield_def try_then_Inr_iff split: option.splits)

lemma steer_entity_match: "steer_entity hypot now joined w = Inr w' \<Longrightarrow> world_match w' = world_match w"
  by (cases joined)
    (auto simp: steer_entity_def brake_entity_def propel_entity_def Let_def try_then_Inr_iff
      split: if_split_asm option.split_asm dest!: match_frame)

lemma thrust_steering_match [match_frame]:
  "thrust_steering_apply hypot now w = Inr w' \<Longrightarrow> world_match w' = world_match w"
  unfolding thrust_steering_apply_def by (erule try_fold_match) (rule steer_entity_match)

lemma activate_match: "activate cfg now joined w = Inr w' \<Longrightarrow> world_match w' = world_match w"
  by (cases joined)
    (auto simp: activate_def raise_shield_def launch_charge_def Let_def try_then_Inr_iff
      split: if_split_asm option.split_asm dest!: match_frame)

lemma ability_match [match_frame]: "ability_apply cfg now w = Inr w' \<Longrightarrow> world_match w' = world_match w"
  unfolding ability_apply_def Let_def
  by (drule try_fold_match) (auto dest: activate_match simp: erase_expired_charges_def erase_expired_shields_def)

lemma velocity_rotation_match: "world_match (velocity_rotation_apply now w) = world_match w"
  by (simp add: velocity_rotation_apply_def fold_match rotate_entity_def split: prod.split)

lemma emit_match [match_frame]: "emit event w = Inr w' \<Longrightarrow> world_match w' = world_match w"
  by (auto simp: emit_def split: if_split_asm)

lemma charge_contact_match:
  "charge_contact now event st = Inr st' \<Longrightarrow> world_match (fst st') = world_match (fst st)"
  by (cases "(now, event, st)" rule: charge_contact.cases)
    (auto simp: try_then_Inr_iff split: option.split_asm if_split_asm)

lemma charge_contact_apply_match [match_frame]:
  assumes "charge_contact_apply now w = Inr w'" shows "world_match w' = world_match w"
proof -
  obtain w1 requested where contacts: "try_fold (charge_contact now) (events w) (w, []) = Inr (w1, requested)"
    and emitted: "try_fold emit requested w1 = Inr w'"
    using assms by (auto simp: charge_contact_apply_def try_then_Inr_iff)
  have "world_match (fst (w1, requested)) = world_match w"
    by (rule try_fold_invariant [OF contacts, where P = "\<lambda>st. world_match (fst st) = world_match w"])
      (auto dest: charge_contact_match)
  with try_fold_match [OF emitted emit_match] show ?thesis by simp
qed

lemma commit_stun_match: "commit_stun now entry w = Inr w' \<Longrightarrow> world_match w' = world_match w"
  by (auto simp: commit_stun_def try_then_Inr_iff)

lemma suspend_match: "suspend now entry w = Inr w' \<Longrightarrow> world_match w' = world_match w"
  by (auto simp: suspend_def pause_def try_then_Inr_iff split: if_split_asm dest!: match_frame)

lemma status_match [match_frame]:
  assumes "status_apply now w = Inr w'" shows "world_match w' = world_match w"
proof -
  obtain requested w1 where one: "try_fold (commit_stun now) requested (erase_expired_stuns now w) = Inr w1"
    and two: "try_fold (suspend now) (stuns w1) w1 = Inr w'"
    using assms by (auto simp: status_apply_def try_then_Inr_iff)
  show ?thesis
    using try_fold_match [OF one commit_stun_match] try_fold_match [OF two suspend_match]
    by (simp add: erase_expired_stuns_def)
qed

lemma respawn_match [match_frame]:
  assumes "respawn_apply delay w = Inr w'" shows "world_match w' = world_match w"
proof -
  obtain w1 w2 where one: "try_fold tick_respawn_timer (respawn_timers w) w = Inr w1"
    and two: "try_fold (respawn_eliminated delay) (eliminated_entities_of w1) w1 = Inr w2"
    and w': "w' = erase_body_bound_components_without_body w2"
    using assms by (auto simp: respawn_apply_def try_then_Inr_iff)
  have "world_match w1 = world_match w"
    using one by (rule try_fold_match) (auto simp: tick_respawn_timer_def try_then_Inr_iff split: if_split_asm)
  moreover have "world_match w2 = world_match w1"
    using two by (rule try_fold_match)
      (auto simp: respawn_eliminated_def Let_def try_then_Inr_iff split: if_split_asm)
  ultimately show ?thesis by (simp add: w' erase_body_bound_components_without_body_def)
qed

end
