(* ===== verification/Match_Runs.thy ===== *)
theory Match_Runs
  imports Sandbox_Mode Step_Invariants
begin

text \<open>
  The match over the steps of a simulation: the machine is one system of a step, appended last to the
  mode's (src/src/simulation/game_simulation.cpp, match_lifecycle_system.cpp). match_state.hpp promises
  that it is the only writer of the phase, the start ticks and the outcome. For the engine's own phases
  (intake, seating, motion, the despawn sweep) that is proved here; of a mode's systems it is the named
  hypothesis \<open>rows_leave_the_machine\<close>, which the sandbox's systems are shown to meet.
\<close>

section \<open>Systems that leave the machine's fields alone\<close>

definition leaves_the_machine :: "tick_system simulation_system \<Rightarrow> bool" where
  "leaves_the_machine s \<longleftrightarrow>
     (\<forall>w context w'. system_apply s w context = Inr w' \<longrightarrow> keeps_phase (world_match w) (world_match w'))"

definition rows_leave_the_machine :: "tick_system staged_system list \<Rightarrow> bool" where
  "rows_leave_the_machine rows \<longleftrightarrow> (\<forall>row\<in>set rows. \<forall>s. held row = Some s \<longrightarrow> leaves_the_machine s)"

lemma rows_leave_append [simp]:
  "rows_leave_the_machine (xs @ ys) \<longleftrightarrow> rows_leave_the_machine xs \<and> rows_leave_the_machine ys"
  by (auto simp: rows_leave_the_machine_def)

lemma rows_leave_at_stage: "rows_leave_the_machine rows \<Longrightarrow> rows_leave_the_machine (at_stage s rows)"
  by (auto simp: rows_leave_the_machine_def at_stage_def)

lemma rows_keep_phase:
  assumes "rows_leave_the_machine rows" and "try_fold (run_system context) rows w = Inr w'"
  shows "keeps_phase (world_match w) (world_match w')"
proof (rule try_fold_invariant [OF assms(2), where P = "\<lambda>u. keeps_phase (world_match w) (world_match u)"])
  fix row u u'
  assume "row \<in> set rows" "keeps_phase (world_match w) (world_match u)" "run_system context row u = Inr u'"
  then show "keeps_phase (world_match w) (world_match u')"
    using assms(1) keeps_phase_trans
    by (auto simp: run_system_def rows_leave_the_machine_def leaves_the_machine_def split: option.split_asm)
qed simp

section \<open>The engine's phases\<close>

lemma intake_keeps_phase:
  "intake_phase sim now batch = Inr (w, decided, g) \<Longrightarrow> keeps_phase (world_match (sim_world sim)) (world_match w)"
  by (auto simp: intake_phase_def try_then_Inr_iff open_tick_def dest!: keeps_phase_batch)

lemma seat_at_rest_match: "seat_body_at_rest e position radius w = Inr w' \<Longrightarrow> world_match w' = world_match w"
  by (auto simp: seat_body_at_rest_def Let_def try_then_Inr_iff split: if_split_asm option.split_asm)

lemma offer_seat_keeps_phase:
  "offer_seat policy context e st = Inr st' \<Longrightarrow> keeps_phase (world_match (fst st)) (world_match (fst st'))"
  by (cases st)
    (auto simp: offer_seat_def Let_def try_then_Inr_iff keeps_phase_def split: option.split_asm if_split_asm
      dest!: seat_at_rest_match)

lemma seating_keeps_phase:
  assumes "seating_phase sim now g w = Inr (w', h)" shows "keeps_phase (world_match w) (world_match w')"
proof -
  obtain n where seated: "seat_pending_entities (sim_spawn_policy sim) (context_of sim now g) w = Inr (w', n)"
    using assms by (auto simp: seating_phase_def try_then_Inr_iff)
  show ?thesis
  proof (cases "entities_awaiting_a_body w = []")
    case True
    with seated show ?thesis by (simp add: seat_pending_entities_def)
  next
    case False
    with seated obtain free f where folded:
      "try_fold (offer_seat (sim_spawn_policy sim) (context_of sim now g)) (entities_awaiting_a_body w) (w, free, 0) =
        Inr (w', f, n)"
      by (auto simp: seat_pending_entities_def Let_def try_then_Inr_iff)
    have "keeps_phase (world_match w) (world_match (fst (w', f, n)))"
      by (rule try_fold_invariant [OF folded, where P = "\<lambda>st. keeps_phase (world_match w) (world_match (fst st))"])
        (auto dest!: offer_seat_keeps_phase intro: keeps_phase_trans)
    then show ?thesis by simp
  qed
qed

lemma motion_keeps_match:
  assumes "motion_phase sim now g w = Some (Inr w')" shows "world_match w' = world_match w"
proof -
  obtain s where "apply_motion_result s w = Inr w'"
    using assms by (auto simp: motion_phase_def split: sum.split_asm prod.split_asm) (metis obj_sumE)
  then show ?thesis
    by (auto simp: apply_motion_result_def try_then_Inr_iff dest!: try_fold_match dest: emit_match)
qed

lemma commit_keeps_match:
  assumes "commit_phase checked sim now g late indexed w = Inr sim'"
  shows "world_match (sim_world sim') = world_match w" and "sim_pipeline sim' = sim_pipeline sim"
proof -
  obtain removed w1 where despawn: "apply_despawn_events w = (removed, w1)" by (cases "apply_despawn_events w")
  then have "world_match w1 = world_match w" by (auto simp: apply_despawn_events_def)
  with commit_phase_cases [OF assms despawn]
  show "world_match (sim_world sim') = world_match w" "sim_pipeline sim' = sim_pipeline sim"
    by (auto simp: close_tick_def)
qed

section \<open>The machine in the pipeline\<close>

text \<open>The mode's rows leave the machine's fields alone, and the machine runs after all of them.\<close>

definition machine_runs_last :: "match_objective \<Rightarrow> tick_system system_pipeline \<Rightarrow> bool" where
  "machine_runs_last objective p \<longleftrightarrow>
     (\<exists>before after rows. systems_at p kPreKernel = Inr before \<and> systems_at p kPostKernel = Inr after \<and>
        systems_at p kLifecycle = Inr (rows @ [\<lparr>stage = kLifecycle, held = Some (match_lifecycle_system objective)\<rparr>]) \<and>
        rows_leave_the_machine before \<and> rows_leave_the_machine after \<and> rows_leave_the_machine rows)"

lemma appended_machine_runs_last:
  assumes "with_appended \<lparr>stage = kLifecycle, held = Some (match_lifecycle_system objective)\<rparr> systems = Inr p"
    and "rows_leave_the_machine (staged_systems systems)"
  shows "machine_runs_last objective p"
proof -
  let ?row = "\<lparr>stage = kLifecycle, held = Some (match_lifecycle_system objective)\<rparr>"
  have "pipeline_create (staged_systems systems @ [?row]) = Inr p" using assms(1) by (simp add: with_appended_def)
  note at = systems_at_created [OF this]
  have "systems_at p kPreKernel = Inr (at_stage kPreKernel (staged_systems systems))"
    "systems_at p kPostKernel = Inr (at_stage kPostKernel (staged_systems systems))"
    "systems_at p kLifecycle = Inr (at_stage kLifecycle (staged_systems systems) @ [?row])"
    using at [of kPreKernel] at [of kPostKernel] at [of kLifecycle]
    by (simp_all add: at_stage_append kPreKernel_def kPostKernel_def kLifecycle_def) (simp_all add: at_stage_def)
  with rows_leave_at_stage [OF assms(2)] show ?thesis unfolding machine_runs_last_def by blast
qed

section \<open>One step\<close>

lemma stage_keeps_phase:
  assumes "systems_at p s = Inr rows" and "rows_leave_the_machine rows" and "apply_stage p s context w = Inr w'"
  shows "keeps_phase (world_match w) (world_match w')"
  using assms rows_keep_phase by (auto simp: apply_stage_def)

lemma machine_stage:
  assumes "systems_at p kLifecycle = Inr (rows @ [\<lparr>stage = kLifecycle, held = Some (match_lifecycle_system objective)\<rparr>])"
    and "rows_leave_the_machine rows" and "apply_stage p kLifecycle context w = Inr w'"
  shows "\<exists>u. keeps_phase (world_match w) (world_match u) \<and>
    w' = lifecycle_apply (objective_can_start objective) (objective_outcome objective)
           (objective_durations objective) (context_tick context) u"
  using assms rows_keep_phase [OF assms(2)]
  by (auto simp: apply_stage_def try_fold_append try_then_Inr_iff run_system_def match_lifecycle_system_def)

text \<open>The world the machine sees differs from the one the step began with outside its own fields only, and
  the commit leaves the match as the machine made it.\<close>

lemma step_moves_the_machine_once:
  assumes step: "simulation_step checked sim batch = Some (Inr (sim', decided))"
    and last: "machine_runs_last objective (sim_pipeline sim)"
  shows "\<exists>u. keeps_phase (world_match (sim_world sim)) (world_match u) \<and>
      world_match (sim_world sim') = world_match (lifecycle_apply (objective_can_start objective)
        (objective_outcome objective) (objective_durations objective) (sim_tick sim') u)"
    and "sim_pipeline sim' = sim_pipeline sim" and "tick_next (sim_tick sim) = Inr (sim_tick sim')"
proof -
  obtain before after rows where stages: "systems_at (sim_pipeline sim) kPreKernel = Inr before"
    "systems_at (sim_pipeline sim) kPostKernel = Inr after"
    "systems_at (sim_pipeline sim) kLifecycle =
       Inr (rows @ [\<lparr>stage = kLifecycle, held = Some (match_lifecycle_system objective)\<rparr>])"
    and leave: "rows_leave_the_machine before" "rows_leave_the_machine after" "rows_leave_the_machine rows"
    using last unfolding machine_runs_last_def by blast
  obtain now w g moved where now: "tick_next (sim_tick sim) = Inr now"
    and entry: "kernel_entry sim now batch = Inr (w, decided, g)"
    and motion: "motion_phase sim now g w = Some (Inr moved)"
    and exit: "kernel_exit checked sim now g moved = Inr sim'"
    using simulation_step_parts [OF step] by blast
  obtain w1 g1 w2 g2 where intake: "intake_phase sim now batch = Inr (w1, decided, g1)"
    and seating: "seating_phase sim now g1 w1 = Inr (w2, g2)" and pre: "pre_kernel_phase sim now g2 w2 = Inr (w, g)"
    using kernel_entry_phases [OF entry] by blast
  have "apply_stage (sim_pipeline sim) kPreKernel (context_of sim now g2) w2 = Inr w"
    using pre by (auto simp: pre_kernel_phase_def try_then_Inr_iff)
  then have "keeps_phase (world_match (sim_world sim)) (world_match w)"
    using intake_keeps_phase [OF intake] seating_keeps_phase [OF seating] stage_keeps_phase [OF stages(1) leave(1)]
    by (meson keeps_phase_trans)
  then have entered: "keeps_phase (world_match (sim_world sim)) (world_match moved)"
    by (simp add: motion_keeps_match [OF motion])
  obtain h v late where late: "late_phase sim now h moved = Inr (v, late)"
    and commit: "commit_phase checked sim now h late (indexed_bodies_of moved) v = Inr sim'"
    using exit by (auto simp: kernel_exit_def try_then_Inr_iff)
  obtain v1 where after: "apply_stage (sim_pipeline sim) kPostKernel (context_of sim now h) moved = Inr v1"
    and machine: "apply_stage (sim_pipeline sim) kLifecycle (context_of sim now h) v1 = Inr v"
    using late by (auto simp: late_phase_def try_then_Inr_iff)
  obtain u where u: "keeps_phase (world_match v1) (world_match u)"
    and v: "v = lifecycle_apply (objective_can_start objective) (objective_outcome objective)
        (objective_durations objective) now u"
    using machine_stage [OF stages(3) leave(3) machine] by (auto simp: context_of_def)
  have "keeps_phase (world_match (sim_world sim)) (world_match u)"
    using entered stage_keeps_phase [OF stages(2) leave(2) after] u by (meson keeps_phase_trans)
  moreover obtain removed w3 where "apply_despawn_events v = (removed, w3)" by (cases "apply_despawn_events v")
  then have tick: "sim_tick sim' = now" using commit_phase_cases [OF commit] by auto
  ultimately show "\<exists>u. keeps_phase (world_match (sim_world sim)) (world_match u) \<and>
      world_match (sim_world sim') = world_match (lifecycle_apply (objective_can_start objective)
        (objective_outcome objective) (objective_durations objective) (sim_tick sim') u)"
    using commit_keeps_match(1) [OF commit] v by metis
  show "sim_pipeline sim' = sim_pipeline sim" by (rule commit_keeps_match(2) [OF commit])
  show "tick_next (sim_tick sim) = Inr (sim_tick sim')" using now tick by simp
qed

section \<open>Runs of a simulation\<close>

inductive runs_from :: "simulation \<Rightarrow> simulation \<Rightarrow> bool" for start where
  begins: "runs_from start start"
| steps: "runs_from start sim \<Longrightarrow> simulation_step checked sim batch = Some (Inr (sim', decided)) \<Longrightarrow>
     runs_from start sim'"

text \<open>What a simulation's match satisfies on every tick, the pipeline it runs included.\<close>

definition match_agrees :: "match_objective \<Rightarrow> simulation \<Rightarrow> bool" where
  "match_agrees objective sim \<longleftrightarrow>
     machine_runs_last objective (sim_pipeline sim) \<and> valid_tick (sim_tick sim) \<and>
     lifecycle_invar (sim_tick sim) (world_match (sim_world sim)) \<and>
     (phase (world_match (sim_world sim)) = previous_phase (world_match (sim_world sim)) \<or>
      transition (previous_phase (world_match (sim_world sim))) (phase (world_match (sim_world sim))))"

lemma lifecycle_step_moves:
  assumes "m' = lifecycle_step ready decided d now m"
  shows "phase m' = previous_phase m' \<or> transition (previous_phase m') (phase m')"
  using lifecycle_step_cases(1-5) [OF assms] by (cases "phase m") simp_all

lemma lifecycle_apply_match:
  "\<exists>ready decided. world_match (lifecycle_apply can_start decide d now w) =
     lifecycle_step ready decided d now (world_match w)"
  unfolding lifecycle_apply_def by auto

lemma match_agrees_step:
  assumes "match_agrees objective sim" and "simulation_step checked sim batch = Some (Inr (sim', decided))"
  shows "match_agrees objective sim'"
proof -
  have last: "machine_runs_last objective (sim_pipeline sim)" and valid: "valid_tick (sim_tick sim)"
    and inv: "lifecycle_invar (sim_tick sim) (world_match (sim_world sim))"
    using assms(1) by (simp_all add: match_agrees_def)
  obtain u where u: "keeps_phase (world_match (sim_world sim)) (world_match u)"
    and moved: "world_match (sim_world sim') = world_match (lifecycle_apply (objective_can_start objective)
        (objective_outcome objective) (objective_durations objective) (sim_tick sim') u)"
    using step_moves_the_machine_once(1) [OF assms(2) last] by blast
  obtain ready answer where m': "world_match (sim_world sim') =
      lifecycle_step ready answer (objective_durations objective) (sim_tick sim') (world_match u)"
    using moved lifecycle_apply_match by metis
  note tick = step_moves_the_machine_once(3) [OF assms(2) last]
  have "lifecycle_invar (sim_tick sim') (world_match (sim_world sim'))"
    by (rule lifecycle_invar_step [OF lifecycle_invar_keeps [OF inv u] tick_next_le [OF tick valid] m'])
  moreover have "valid_tick (sim_tick sim')" using tick valid by (simp add: tick_next_Inr)
  ultimately show ?thesis
    using lifecycle_step_moves [OF m'] last step_moves_the_machine_once(2) [OF assms(2) last]
    by (simp add: match_agrees_def)
qed

lemma created_match_agrees:
  assumes "simulation_create c w given = Inr start"
    and "declarations_of_setup (sim_map start) given = Inr (name, systems, rules, triggers, kinds, policy, objective)"
    and "rows_leave_the_machine (staged_systems systems)" and "world_match w = match_state_initial"
  shows "match_agrees objective start"
proof -
  have appended: "with_appended \<lparr>stage = kLifecycle, held = Some (match_lifecycle_system objective)\<rparr> systems =
      Inr (sim_pipeline start)" and start: "sim_world start = w" "sim_tick start = tick_zero"
    using assms(1,2) unfolding simulation_create_def Let_def
    by (auto simp: try_then_Inr_iff split: if_split_asm)
  have "machine_runs_last objective (sim_pipeline start)"
    by (rule appended_machine_runs_last [OF appended assms(3)])
  then show ?thesis
    using assms(4) lifecycle_invar_initial
    by (simp add: match_agrees_def start valid_tick_def tick_zero_def) (simp add: match_state_initial_def)
qed

text \<open>
  C5: over all the steps of a simulation the phase of the match and its ticks agree, and each step moves
  the machine exactly once. Take any simulation created over a world with a fresh match whose mode's declared
  systems leave the machine's own fields alone, as match_state.hpp demands of them (\<open>rows_leave_the_machine\<close>;
  the sandbox's systems do), and any state its steps reach, whatever the batches and the objective. No phase starts
  in the future; a running match started when its phase did; an ended match has a decided outcome and
  started before it ended; and the phase is the previous one or one the machine can move to from it. Every
  further step records the phase it began with as the previous one and leaves the match as one run of the
  machine, at the new tick, makes it from a state that intake, seating, motion and the mode's systems did
  not touch in the machine's fields: so no tick ever skips a phase.
\<close>

theorem steps_move_the_match_in_order:
  assumes "simulation_create c w given = Inr start"
    and "declarations_of_setup (sim_map start) given = Inr (name, systems, rules, triggers, kinds, policy, objective)"
    and "rows_leave_the_machine (staged_systems systems)" and "world_match w = match_state_initial"
    and "runs_from start sim"
  defines "m \<equiv> world_match (sim_world sim)"
  shows "valid_tick (sim_tick sim) \<and> phase_started_tick m \<le> sim_tick sim \<and> running_started_tick m \<le> sim_tick sim \<and>
    (phase m = kRunning \<longrightarrow> running_started_tick m = phase_started_tick m) \<and>
    (phase m = kEnded \<longrightarrow> is_decided (outcome m) \<and> running_started_tick m \<le> phase_started_tick m) \<and>
    (phase m = previous_phase m \<or> transition (previous_phase m) (phase m)) \<and>
    (\<forall>checked batch sim' decided. simulation_step checked sim batch = Some (Inr (sim', decided)) \<longrightarrow>
       previous_phase (world_match (sim_world sim')) = phase m \<and>
       (\<exists>u. keeps_phase m (world_match u) \<and>
          world_match (sim_world sim') = world_match (lifecycle_apply (objective_can_start objective)
            (objective_outcome objective) (objective_durations objective) (sim_tick sim') u)))"
proof -
  have agrees: "match_agrees objective sim"
    using assms(5) by induction (use created_match_agrees [OF assms(1-4)] match_agrees_step in blast)+
  then have last: "machine_runs_last objective (sim_pipeline sim)" by (simp add: match_agrees_def)
  have further: "previous_phase (world_match (sim_world sim')) = phase m \<and>
       (\<exists>u. keeps_phase m (world_match u) \<and>
          world_match (sim_world sim') = world_match (lifecycle_apply (objective_can_start objective)
            (objective_outcome objective) (objective_durations objective) (sim_tick sim') u))"
    if step: "simulation_step checked sim batch = Some (Inr (sim', decided))" for checked batch sim' decided
  proof -
    obtain u where u: "keeps_phase m (world_match u)"
      and moved: "world_match (sim_world sim') = world_match (lifecycle_apply (objective_can_start objective)
          (objective_outcome objective) (objective_durations objective) (sim_tick sim') u)"
      using step_moves_the_machine_once(1) [OF step last] by (auto simp: m_def)
    have "previous_phase (world_match (sim_world sim')) = phase (world_match u)"
      using moved lifecycle_apply_match lifecycle_step_cases(1) by metis
    then show ?thesis using u moved by (auto simp: keeps_phase_def)
  qed
  show ?thesis
    using agrees further unfolding match_agrees_def lifecycle_invar_def m_def by blast
qed

section \<open>The sandbox\<close>

lemma leaves_the_machine_simps:
  "leaves_the_machine (thrust_steering_system hypot)" "leaves_the_machine (ability_system abilities)"
  "leaves_the_machine velocity_rotation_system" "leaves_the_machine charge_contact_system"
  "leaves_the_machine status_system" "leaves_the_machine (respawn_system delay)"
  by (auto simp: leaves_the_machine_def thrust_steering_system_def ability_system_def velocity_rotation_system_def
      charge_contact_system_def status_system_def respawn_system_def velocity_rotation_match dest!: match_frame)

lemma sandbox_rows_leave: "rows_leave_the_machine (sandbox_rows hypot delay abilities)"
  by (simp add: rows_leave_the_machine_def sandbox_rows_def leaves_the_machine_simps)

text \<open>Every setup of the sandbox declares only such systems, whatever its configuration and map.\<close>

lemma sandbox_leaves_the_machine:
  assumes "declarations_of_setup m (setup_of_mode m' (sandbox_mode hypot delay abilities)) =
      Inr (name, systems, rules, triggers, kinds, policy, objective)"
  shows "rows_leave_the_machine (staged_systems systems)" and "objective = free_play_objective"
proof -
  have "pipeline_create (sandbox_rows hypot delay abilities) = Inr systems"
    and obj: "objective = free_play_objective"
    using assms
    by (auto simp: declarations_of_setup_def setup_of_mode_def engine_defaults_def declarations_of_mode_def
        sandbox_mode_def sandbox_systems_def try_then_Inr_iff)
  then have "set (staged_systems systems) \<subseteq> set (sandbox_rows hypot delay abilities)"
    by (auto simp: pipeline_create_Inr at_stage_def)
  with sandbox_rows_leave [of hypot delay abilities] show "rows_leave_the_machine (staged_systems systems)"
    by (auto simp: rows_leave_the_machine_def)
  show "objective = free_play_objective" by (rule obj)
qed

section \<open>A tick of the sandbox\<close>

text \<open>An empty sandbox on a map with one spawn point, and its first tick, in which the free-play lobby opens
  the countdown.\<close>

definition sandbox_map :: map_definition where
  "sandbox_map = pillar_map\<lparr>spawn_points :=
     [\<lparr>marker_kind = ''spawn'', marker_position = \<lparr>vx = 2, vy = 3\<rparr>, marker_team = None, marker_metadata = []\<rparr>]\<rparr>"

definition sandbox_abilities :: ability_configuration where
  "sandbox_abilities =
     \<lparr>shield_duration_ticks = 160, shield_perfect_window_ticks = 32, shield_cooldown_ticks = 360,
      parry_stun_duration_ticks = 240, charge_cooldown_ticks = 480, authored_speed_fraction = Finite (3 / 4),
      charge_safety_envelope_speed = Finite 20000, charge_active_duration_ticks = 200,
      charge_hit_stun_duration_ticks = 240\<rparr>"

definition plain_hypot :: "double \<Rightarrow> double \<Rightarrow> double" where
  "plain_hypot x y = fsqrt (fadd (fmul x x) (fmul y y))"

definition sandbox_setup :: simulation_setup where
  "sandbox_setup = setup_of_mode sandbox_map (sandbox_mode plain_hypot 800 sandbox_abilities)"

definition sandbox_start :: simulation where
  "sandbox_start = quiet_simulation\<lparr>sim_map := sandbox_map,
     sim_pipeline := \<lparr>staged_systems = sandbox_rows plain_hypot 800 sandbox_abilities @
         [\<lparr>stage = kLifecycle, held = Some (match_lifecycle_system free_play_objective)\<rparr>],
       stage_offsets = [0, 3, 5, 7]\<rparr>,
     sim_contacts := shipped_table,
     sim_triggers := [\<lparr>declared_base = 0, declared_limit = 0, declared_policy = Some (support_loss_trigger kAlways)\<rparr>],
     sim_spawn_policy := next_free_spawn_point_policy, sim_mode_name := ''sandbox'',
     sim_accepted_kinds := sandbox_command_kinds\<rparr>"

definition sandbox_opened :: game_world where
  "sandbox_opened = (world_empty [])\<lparr>world_match := match_state_initial
     \<lparr>phase := kCountdown, previous_phase := kLobby, phase_started_tick := Tick 1\<rparr>\<rparr>"

definition sandbox_next :: simulation where
  "sandbox_next = sandbox_start\<lparr>sim_world := sandbox_opened, sim_tick := Tick 1\<rparr>"

lemmas sandbox_system_defs = thrust_steering_system_def ability_system_def velocity_rotation_system_def
  charge_contact_system_def status_system_def respawn_system_def match_lifecycle_system_def

lemma sandbox_pipeline_created:
  "pipeline_create (sandbox_rows hypot delay abilities) =
     Inr \<lparr>staged_systems = sandbox_rows hypot delay abilities, stage_offsets = [0, 3, 5, 6]\<rparr>"
  by (simp add: pipeline_create_Inr sandbox_rows_def row_name_def sandbox_system_defs at_stage_def kPreKernel_def
      kPostKernel_def kLifecycle_def)

lemma sandbox_pipeline_appended:
  "with_appended \<lparr>stage = kLifecycle, held = Some (match_lifecycle_system objective)\<rparr>
     \<lparr>staged_systems = sandbox_rows hypot delay abilities, stage_offsets = offsets\<rparr> =
   Inr \<lparr>staged_systems = sandbox_rows hypot delay abilities @
          [\<lparr>stage = kLifecycle, held = Some (match_lifecycle_system objective)\<rparr>], stage_offsets = [0, 3, 5, 7]\<rparr>"
  by (simp add: with_appended_def pipeline_create_Inr sandbox_rows_def row_name_def sandbox_system_defs at_stage_def
      kPreKernel_def kPostKernel_def kLifecycle_def)

lemma sandbox_declarations:
  "declarations_of_setup sandbox_map sandbox_setup =
     Inr (''sandbox'', \<lparr>staged_systems = sandbox_rows plain_hypot 800 sandbox_abilities, stage_offsets = [0, 3, 5, 6]\<rparr>,
          shipped_table,
          [\<lparr>declared_base = 0, declared_limit = 0, declared_policy = Some (support_loss_trigger kAlways)\<rparr>],
          sandbox_command_kinds, next_free_spawn_point_policy, free_play_objective)"
proof -
  have kinds: "require_mode_accepts_server_issued_kinds sandbox_command_kinds = Inr ()"
    by (simp add: require_mode_accepts_server_issued_kinds_def sandbox_command_kinds_def mask_contains_create)
  have triggers: "sandbox_motion_triggers =
      Inr [\<lparr>declared_base = 0, declared_limit = 0, declared_policy = Some (support_loss_trigger kAlways)\<rparr>]"
    by (simp add: sandbox_motion_triggers_def trigger_table_create_def require_motion_budget_def
        kMaximumMotionTriggerDeclarationCount_def trigger_declaration_is_valid_def
        kMaximumMotionTriggerCursorValue_def kMaximumProtocolSafeInteger_def)
  show ?thesis
    by (simp add: declarations_of_setup_def built_in_table sandbox_setup_def setup_of_mode_def engine_defaults_def
        declarations_of_mode_def sandbox_mode_def sandbox_validate_map_def sandbox_map_def sandbox_systems_def
        sandbox_pipeline_created sandbox_contact_rules_def guarded_pair_rule shipped_table_creates triggers kinds)
qed

lemma sandbox_created: "simulation_create one_cell (world_empty []) sandbox_setup = Inr sandbox_start"
proof -
  have seatable: "require_spawn_points_are_seatable one_cell sandbox_map = Inr ()"
    by (simp add: require_spawn_points_are_seatable_def spawn_point_check_def sandbox_map_def pillar_map_def
        map_bounds_def contains_disc_center_def one_cell_def small_config_def spawn_disc_supported Let_def)
      (simp add: square_arena_def fx_def fy_def)
  have bounds: "map_bounds sandbox_map = \<lparr>bounds_width = 4, bounds_height = 4\<rparr>"
    by (simp add: sandbox_map_def pillar_map_def map_bounds_def square_arena_def)
  have map: "map_of_setup one_cell sandbox_setup = Inr sandbox_map"
    by (simp add: map_of_setup_def sandbox_setup_def setup_of_mode_def engine_defaults_def)
  have clean: "\<not> setup_conflicts sandbox_setup" "setup_motion_limits sandbox_setup = default_motion_limits"
    by (simp_all add: setup_conflicts_def sandbox_setup_def setup_of_mode_def engine_defaults_def)
  have empty: "bodies (world_empty []) = []" "project_contact_effect_policies (world_empty []) = Inr []"
    by (simp_all add: world_empty_def project_contact_effect_policies_def)
  show ?thesis
    by (simp add: simulation_create_def clean map seatable bounds empty sandbox_declarations sandbox_pipeline_appended
        validate_motion_limits_def default_motion_limits_def require_motion_budget_def empty_grid_created
        require_committed_bodies_in_bounds_def sandbox_start_def quiet_simulation_def)
qed

lemma sandbox_stages:
  "systems_at (sim_pipeline sandbox_start) kPreKernel =
     Inr [\<lparr>stage = kPreKernel, held = Some (thrust_steering_system plain_hypot)\<rparr>,
          \<lparr>stage = kPreKernel, held = Some (ability_system sandbox_abilities)\<rparr>,
          \<lparr>stage = kPreKernel, held = Some velocity_rotation_system\<rparr>]"
  "systems_at (sim_pipeline sandbox_start) kPostKernel =
     Inr [\<lparr>stage = kPostKernel, held = Some charge_contact_system\<rparr>, \<lparr>stage = kPostKernel, held = Some status_system\<rparr>]"
  "systems_at (sim_pipeline sandbox_start) kLifecycle =
     Inr [\<lparr>stage = kLifecycle, held = Some (respawn_system 800)\<rparr>,
          \<lparr>stage = kLifecycle, held = Some (match_lifecycle_system free_play_objective)\<rparr>]"
  by (simp_all add: systems_at_def kSystemStageCount_def kSystemStages_def kPreKernel_def kPostKernel_def
      kLifecycle_def sandbox_start_def sandbox_rows_def)

lemma empty_systems:
  "thrust_steering_apply hypot now (world_empty []) = Inr (world_empty [])"
  "ability_apply abilities now (world_empty []) = Inr (world_empty [])"
  "velocity_rotation_apply now (world_empty []) = world_empty []"
  "charge_contact_apply now (world_empty []) = Inr (world_empty [])"
  "status_apply now (world_empty []) = Inr (world_empty [])"
  "respawn_apply delay (world_empty []) = Inr (world_empty [])"
  by (simp_all add: thrust_steering_apply_def ability_apply_def velocity_rotation_apply_def charge_contact_apply_def
      status_apply_def respawn_apply_def world_empty_def match_state_initial_def erase_expired_charges_def
      erase_expired_shields_def erase_expired_stuns_def eliminated_entities_of_def List.map_filter_simps
      erase_body_bound_components_without_body_def erase_without_body_def)

lemma sandbox_enters: "kernel_entry sandbox_start (Tick 1) input_batch_empty = Inr (world_empty [], [], empty_grid)"
proof -
  have sim: "sim_world sandbox_start = world_empty []" "sim_grid sandbox_start = empty_grid"
    "sim_limits sandbox_start = default_motion_limits"
    by (simp_all add: sandbox_start_def quiet_simulation_def)
  have empty: "bodies (world_empty []) = []" by (simp add: world_empty_def)
  have "intake_phase sandbox_start (Tick 1) input_batch_empty = Inr (world_empty [], [], empty_grid)"
    by (simp add: intake_phase_def sim input_batch_empty_def apply_input_batch_def open_tick_def world_empty_def
        clear_recorded_def store_map_values_def body_budget_def require_motion_budget_def indexed_bodies_equal_def
        reindexed_def)
  moreover have "seating_phase sandbox_start (Tick 1) empty_grid (world_empty []) = Inr (world_empty [], empty_grid)"
    by (simp add: seating_phase_def sim seat_pending_entities_def entities_awaiting_a_body_def body_budget_def
        require_motion_budget_def reindexed_def) (simp add: world_empty_def)
  moreover have "pre_kernel_phase sandbox_start (Tick 1) empty_grid (world_empty []) = Inr (world_empty [], empty_grid)"
    by (simp add: pre_kernel_phase_def stage_is_declared_def apply_stage_def sandbox_stages run_system_def
        sandbox_system_defs empty_systems body_budget_def require_motion_budget_def sim empty reindexed_def
        still_indexes_def indexed_bodies_of_def)
  ultimately show ?thesis by (simp add: kernel_entry_def)
qed

lemma sandbox_moves: "motion_phase sandbox_start (Tick 1) empty_grid (world_empty []) = Some (Inr (world_empty []))"
proof -
  have bound: "bind_triggers [\<lparr>declared_base = 0, declared_limit = 0, declared_policy = Some p\<rparr>] (world_empty []) cx
      default_motion_limits = Inr []" for p cx
    by (simp add: bind_triggers_def validate_motion_limits_def default_motion_limits_def require_motion_budget_def
        world_empty_def)
  show ?thesis
    by (simp add: motion_phase_def kernel_inputs_def sandbox_start_def quiet_simulation_def bound)
      (simp add: world_empty_def project_contact_effect_policies_def apply_stored_acceleration_and_drag_def empty_solve
        apply_motion_result_def empty_motion_def store_create_def)
qed

lemma sandbox_late: "late_phase sandbox_start (Tick 1) empty_grid (world_empty []) = Inr (sandbox_opened, True)"
proof -
  have "lifecycle_apply (objective_can_start free_play_objective) (objective_outcome free_play_objective)
      (objective_durations free_play_objective) (Tick 1) (world_empty []) = sandbox_opened"
    by (simp add: lifecycle_apply_def lifecycle_step_def free_play_objective_def free_play_can_start_def
        commit_transition_def set_match_def sandbox_opened_def match_state_initial_def)
  then show ?thesis
    by (simp add: late_phase_def stage_is_declared_def apply_stage_def sandbox_stages run_system_def
        sandbox_system_defs empty_systems context_of_def)
qed

lemma sandbox_leaves: "kernel_exit False sandbox_start (Tick 1) empty_grid (world_empty []) = Inr sandbox_next"
proof -
  have "grid_rebuilt empty_grid (world_empty []) = Inr empty_grid"
    by (rule empty_grid_rebuilt) (simp add: world_empty_def)
  moreover have "commit_phase False sandbox_start (Tick 1) empty_grid True (indexed_bodies_of (world_empty []))
      sandbox_opened = Inr sandbox_next"
    by (simp add: world_empty_def commit_phase_def apply_despawn_events_def despawned_def sandbox_next_def
        sandbox_start_def quiet_simulation_def body_budget_def require_motion_budget_def sandbox_opened_def
        project_contact_effect_policies_def require_committed_bodies_in_bounds_def still_indexes_def
        indexed_bodies_of_def reindexed_def close_tick_def List.map_filter_simps)
  ultimately show ?thesis by (simp add: kernel_exit_def sandbox_late)
qed

lemma sandbox_steps: "simulation_step False sandbox_start input_batch_empty = Some (Inr (sandbox_next, []))"
proof -
  have "tick_next (sim_tick sandbox_start) = Inr (Tick 1)"
    by (simp add: sandbox_start_def quiet_simulation_def tick_next_def tick_zero_def kMaximumTickValue_def
        kMaximumProtocolSafeInteger_def)
  then show ?thesis using sandbox_enters sandbox_moves sandbox_leaves by (simp add: simulation_step_def)
qed

theorem steps_move_the_match_in_order_witness:
  "simulation_create one_cell (world_empty []) sandbox_setup = Inr sandbox_start \<and>
   runs_from sandbox_start sandbox_next \<and> phase (world_match (sim_world sandbox_next)) = kCountdown \<and>
   transition (previous_phase (world_match (sim_world sandbox_next))) (phase (world_match (sim_world sandbox_next))) \<and>
   phase_started_tick (world_match (sim_world sandbox_next)) \<le> sim_tick sandbox_next"
proof -
  have start: "sim_map sandbox_start = sandbox_map" by (simp add: sandbox_start_def)
  have run: "runs_from sandbox_start sandbox_next" by (rule runs_from.steps [OF runs_from.begins sandbox_steps])
  have phases: "phase (world_match (sim_world sandbox_next)) = kCountdown"
    "previous_phase (world_match (sim_world sandbox_next)) = kLobby"
    by (simp_all add: sandbox_next_def sandbox_opened_def)
  have rows: "rows_leave_the_machine (staged_systems
      \<lparr>staged_systems = sandbox_rows plain_hypot 800 sandbox_abilities, stage_offsets = [0, 3, 5, 6]\<rparr>)"
    by (simp add: sandbox_rows_leave)
  note all = steps_move_the_match_in_order
    [OF sandbox_created sandbox_declarations [folded start] rows fresh_world_match run]
  show ?thesis using sandbox_created run phases all by auto
qed

end
